(* ===== verification/Prelude.thy ===== *)
theory Prelude
  imports Complex_Main "HOL-Library.AList" "HOL-Library.Char_ord"
    "HOL-Library.List_Lexorder" "HOL-Library.Product_Lexorder" "HOL-Library.Sublist"
    "HOL-Library.Multiset"
begin

text \<open>
  Shared base of the development. It holds
  \<^item> Python exceptions as values and the state-and-exception computations (\<open>io\<close>) in which
    the handlers are written, with their sequencing, \<open>try\<close> and loop combinators;
  \<^item> the frame calculus: a computation \<open>keeps\<close> a relation between the state before and the
    state after, whether it returns or raises (locale \<open>frame\<close>), and the triples
    \<open>hoare\<close> with one postcondition for a return and one for a raise.
  Strings are lists of 8-bit characters: text outside that range is not modelled.
\<close>

named_theorems keeps_rules \<open>introduction rules for the frame calculus\<close>
named_theorems io_simps \<open>unfolding rules of the io combinators\<close>

section \<open>Exceptions and computations\<close>

datatype py_error = TypeError | ValueError | KeyError | IndexError | AttributeError
  | RuntimeError | OverflowError | OSError | JSONDecodeError | OtherError

text \<open>
  An exception is an error answer of an AWS service (botocore's \<open>ClientError\<close>, with its error
  code and the rest of the message) or an exception of the language, with its text.
\<close>

datatype exn = ClientError string string | PyError py_error string

fun exn_str :: "exn \<Rightarrow> string" where
  "exn_str (ClientError code m) = ''An error occurred ('' @ code @ '') '' @ m"
| "exn_str (PyError k m) = m"

fun error_code :: "exn \<Rightarrow> string" where
  "error_code (ClientError code m) = code"
| "error_code (PyError k m) = ''''"

definition cond_failed :: exn where
  "cond_failed = ClientError ''ConditionalCheckFailedException'' ''when calling the UpdateItem operation: The conditional request failed''"

definition validation_error :: exn where
  "validation_error = ClientError ''ValidationException'' ''when calling the UpdateItem operation: The provided expression refers to an attribute that does not exist in the item''"

definition is_cond_failed :: "exn \<Rightarrow> bool" where
  "is_cond_failed e = (error_code e = ''ConditionalCheckFailedException'')"

lemma is_cond_failed_simps [simp]:
  "is_cond_failed cond_failed" "\<not> is_cond_failed validation_error"
  "\<not> is_cond_failed (PyError k m)"
  by (simp_all add: is_cond_failed_def cond_failed_def validation_error_def)

type_synonym ('s, 'a) io = "'s \<Rightarrow> (exn + 'a) \<times> 's"

definition ok :: "'a \<Rightarrow> ('s, 'a) io" where
  "ok x = (\<lambda>s. (Inr x, s))"

definition raise :: "exn \<Rightarrow> ('s, 'a) io" where
  "raise e = (\<lambda>s. (Inl e, s))"

definition andThen :: "('s, 'a) io \<Rightarrow> ('a \<Rightarrow> ('s, 'b) io) \<Rightarrow> ('s, 'b) io" where
  "andThen m f = (\<lambda>s. case m s of (Inl e, t) \<Rightarrow> (Inl e, t) | (Inr x, t) \<Rightarrow> f x t)"

definition try_except :: "('s, 'a) io \<Rightarrow> (exn \<Rightarrow> ('s, 'a) io) \<Rightarrow> ('s, 'a) io" where
  "try_except m h = (\<lambda>s. case m s of (Inl e, t) \<Rightarrow> h e t | (Inr x, t) \<Rightarrow> (Inr x, t))"

definition gets :: "('s \<Rightarrow> 'a) \<Rightarrow> ('s, 'a) io" where
  "gets f = (\<lambda>s. (Inr (f s), s))"

definition modify :: "('s \<Rightarrow> 's) \<Rightarrow> ('s, unit) io" where
  "modify f = (\<lambda>s. (Inr (), f s))"

definition lift_sum :: "exn + 'a \<Rightarrow> ('s, 'a) io" where
  "lift_sum r = (\<lambda>s. (r, s))"

definition whenever :: "bool \<Rightarrow> ('s, unit) io \<Rightarrow> ('s, unit) io" where
  "whenever b m = (if b then m else ok ())"

text \<open>A \<open>try\<close> whose handler only logs and goes on.\<close>

definition best_effort :: "('s, unit) io \<Rightarrow> ('s, unit) io" where
  "best_effort m = try_except m (\<lambda>_. ok ())"

primrec fold_io :: "('x \<Rightarrow> 'a \<Rightarrow> ('s, 'a) io) \<Rightarrow> 'x list \<Rightarrow> 'a \<Rightarrow> ('s, 'a) io" where
  "fold_io f [] a = ok a"
| "fold_io f (x # xs) a = andThen (f x a) (fold_io f xs)"

definition for_each :: "'x list \<Rightarrow> ('x \<Rightarrow> ('s, unit) io) \<Rightarrow> ('s, unit) io" where
  "for_each xs f = fold_io (\<lambda>x _. f x) xs ()"

lemmas io_defs = ok_def raise_def andThen_def try_except_def gets_def modify_def
  lift_sum_def whenever_def best_effort_def

lemma andThen_ok [simp]: "andThen (ok x) f = f x"
  by (simp add: io_defs)

lemma andThen_raise [simp]: "andThen (raise e) f = raise e"
  by (simp add: io_defs)

lemma andThen_assoc: "andThen (andThen m f) g = andThen m (\<lambda>x. andThen (f x) g)"
  by (auto simp: io_defs fun_eq_iff split: prod.splits sum.splits)

lemma try_except_ok [simp]: "try_except (ok x) h = ok x"
  by (simp add: io_defs)

lemma try_except_raise [simp]: "try_except (raise e) h = h e"
  by (simp add: io_defs)

lemma ok_apply [io_simps]: "ok x s = (Inr x, s)"
  by (simp add: ok_def)

lemma raise_apply [io_simps]: "raise e s = (Inl e, s)"
  by (simp add: raise_def)

lemma gets_apply [io_simps]: "gets f s = (Inr (f s), s)"
  by (simp add: gets_def)

lemma modify_apply [io_simps]: "modify f s = (Inr (), f s)"
  by (simp add: modify_def)

lemma lift_sum_apply [io_simps]: "lift_sum r s = (r, s)"
  by (simp add: lift_sum_def)

lemma io_fst_snd [simp]:
  "fst (ok x s) = Inr x" "snd (ok x s) = s" "fst (raise e s) = Inl e" "snd (raise e s) = s"
  "fst (gets f s) = Inr (f s)" "snd (gets f s) = s" "snd (modify g s) = g s"
  "fst (lift_sum r s) = r" "snd (lift_sum r s) = s"
  by (simp_all add: io_defs)

lemma andThen_apply [io_simps]:
  "andThen m f s = (case fst (m s) of Inl e \<Rightarrow> (Inl e, snd (m s)) | Inr x \<Rightarrow> f x (snd (m s)))"
  by (simp add: andThen_def split: prod.splits sum.splits)

lemma try_except_apply [io_simps]:
  "try_except m h s = (case fst (m s) of Inl e \<Rightarrow> h e (snd (m s)) | Inr x \<Rightarrow> (Inr x, snd (m s)))"
  by (simp add: try_except_def split: prod.splits sum.splits)

lemma whenever_simps [simp, io_simps]: "whenever True m = m" "whenever False m = ok ()"
  by (simp_all add: whenever_def)

lemma andThen_Inr:
  "andThen m f s = (Inr y, u) \<longleftrightarrow> (\<exists>x t. m s = (Inr x, t) \<and> f x t = (Inr y, u))"
  by (auto simp: andThen_def split: prod.splits sum.splits)

lemma try_except_total:
  "(\<And>e s. \<exists>x. fst (h e s) = Inr x) \<Longrightarrow> \<exists>x. fst (try_except m h s) = Inr x"
  by (cases "fst (m s)") (auto simp: try_except_apply)

lemma andThen_cases:
  assumes "andThen m f s = (r, t)"
  obtains (raised) e where "m s = (Inl e, t)" "r = Inl e"
  | (passed) x u where "m s = (Inr x, u)" "f x u = (r, t)"
  using assms by (cases "fst (m s)") (auto simp: andThen_apply prod_eq_iff)

lemma try_except_Inr:
  "try_except m h s = (Inr y, u) \<longleftrightarrow>
   m s = (Inr y, u) \<or> (\<exists>e t. m s = (Inl e, t) \<and> h e t = (Inr y, u))"
  by (auto simp: try_except_def split: prod.splits sum.splits)

text \<open>How a computation with a branch returned.\<close>

lemma case_sum_io:
  "(case r of Inl e \<Rightarrow> f e | Inr x \<Rightarrow> g x) s = y \<longleftrightarrow>
   (\<exists>e. r = Inl e \<and> f e s = y) \<or> (\<exists>x. r = Inr x \<and> g x s = y)"
  by (cases r) auto

lemma case_option_io:
  "(case r of None \<Rightarrow> f | Some x \<Rightarrow> g x) s = y \<longleftrightarrow>
   (r = None \<and> f s = y) \<or> (\<exists>x. r = Some x \<and> g x s = y)"
  by (cases r) auto

lemma case_prod_io: "(case r of (a, b) \<Rightarrow> f a b) s = y \<longleftrightarrow> (\<exists>a b. r = (a, b) \<and> f a b s = y)"
  by (cases r) auto

lemma if_io: "(if b then f else g) s = y \<longleftrightarrow> (b \<and> f s = y) \<or> (\<not> b \<and> g s = y)"
  by auto

lemma lift_sum_Inr: "lift_sum r s = (Inr y, u) \<longleftrightarrow> r = Inr y \<and> u = s"
  by (auto simp: lift_sum_def)

lemmas io_inv = andThen_Inr try_except_Inr case_sum_io case_option_io case_prod_io if_io lift_sum_Inr

lemma gets_Inr [simp]: "gets f s = (Inr y, u) \<longleftrightarrow> y = f s \<and> u = s"
  by (auto simp: gets_def)

lemma ok_Inr [simp]: "ok x s = (Inr y, u) \<longleftrightarrow> y = x \<and> u = s"
  by (auto simp: ok_def)

lemma raise_Inr [simp]: "raise e s \<noteq> (Inr y, u)"
  by (simp add: raise_def)

lemma modify_Inr [simp]: "modify f s = (Inr y, u) \<longleftrightarrow> u = f s"
  by (auto simp: modify_def)

lemma for_each_simps [simp, io_simps]:
  "for_each [] f = ok ()"
  "for_each (x # xs) f = andThen (f x) (\<lambda>_. for_each xs f)"
  by (simp_all add: for_each_def)

lemma best_effort_apply [io_simps]: "best_effort m s = (Inr (), snd (m s))"
  by (simp add: best_effort_def try_except_def ok_def split: prod.splits sum.splits)

section \<open>The frame calculus\<close>

definition keeps :: "('s \<Rightarrow> 's \<Rightarrow> bool) \<Rightarrow> ('s, 'a) io \<Rightarrow> bool" where
  "keeps R m \<longleftrightarrow> (\<forall>s. R s (snd (m s)))"

definition unchanged :: "('s \<Rightarrow> 'b) \<Rightarrow> 's \<Rightarrow> 's \<Rightarrow> bool" where
  "unchanged f s t \<longleftrightarrow> f t = f s"

definition inv_rel :: "('s \<Rightarrow> bool) \<Rightarrow> 's \<Rightarrow> 's \<Rightarrow> bool" where
  "inv_rel P s t \<longleftrightarrow> (P s \<longrightarrow> P t)"

lemma keepsI: "(\<And>s. R s (snd (m s))) \<Longrightarrow> keeps R m"
  by (simp add: keeps_def)

lemma keepsD: "keeps R m \<Longrightarrow> m s = (r, t) \<Longrightarrow> R s t"
  by (metis keeps_def snd_conv)

locale frame =
  fixes R :: "'s \<Rightarrow> 's \<Rightarrow> bool"
  assumes frame_refl: "R s s"
    and frame_trans: "R s t \<Longrightarrow> R t u \<Longrightarrow> R s u"
begin

lemma keeps_ok [keeps_rules]: "keeps R (ok x)"
  by (simp add: keeps_def frame_refl)

lemma keeps_raise [keeps_rules]: "keeps R (raise e)"
  by (simp add: keeps_def frame_refl)

lemma keeps_gets [keeps_rules]: "keeps R (gets f)"
  by (simp add: keeps_def frame_refl)

lemma keeps_lift_sum [keeps_rules]: "keeps R (lift_sum r)"
  by (simp add: keeps_def frame_refl)

lemma keeps_andThen [keeps_rules]:
  assumes "keeps R m" "\<And>x. keeps R (f x)"
  shows "keeps R (andThen m f)"
proof (rule keepsI)
  fix s
  show "R s (snd (andThen m f s))"
  proof (cases "fst (m s)")
    case (Inl e)
    then show ?thesis using assms(1) by (simp add: andThen_apply keeps_def)
  next
    case (Inr x)
    then show ?thesis using assms frame_trans by (simp add: andThen_apply keeps_def) blast
  qed
qed

lemma keeps_try_except [keeps_rules]:
  assumes "keeps R m" "\<And>e. keeps R (h e)"
  shows "keeps R (try_except m h)"
proof (rule keepsI)
  fix s
  show "R s (snd (try_except m h s))"
  proof (cases "fst (m s)")
    case (Inr x)
    then show ?thesis using assms(1) by (simp add: try_except_apply keeps_def)
  next
    case (Inl e)
    then show ?thesis using assms frame_trans by (simp add: try_except_apply keeps_def) blast
  qed
qed

lemma keeps_whenever [keeps_rules]: "(b \<Longrightarrow> keeps R m) \<Longrightarrow> keeps R (whenever b m)"
  by (cases b) (simp_all add: keeps_ok)

lemma keeps_best_effort [keeps_rules]: "keeps R m \<Longrightarrow> keeps R (best_effort m)"
  unfolding best_effort_def by (intro keeps_try_except keeps_ok)

lemma keeps_fold_io [keeps_rules]:
  "(\<And>x a. x \<in> set xs \<Longrightarrow> keeps R (f x a)) \<Longrightarrow> keeps R (fold_io f xs a)"
proof (induction xs arbitrary: a)
  case Nil
  show ?case by (simp add: keeps_ok)
next
  case (Cons x xs)
  then show ?case by (auto intro!: keeps_andThen)
qed

lemma keeps_for_each [keeps_rules]:
  "(\<And>x. x \<in> set xs \<Longrightarrow> keeps R (f x)) \<Longrightarrow> keeps R (for_each xs f)"
  unfolding for_each_def by (rule keeps_fold_io)

lemma keeps_if [keeps_rules]:
  "(b \<Longrightarrow> keeps R m) \<Longrightarrow> (\<not> b \<Longrightarrow> keeps R n) \<Longrightarrow> keeps R (if b then m else n)"
  by simp

lemma keeps_case_option [keeps_rules]:
  "(v = None \<Longrightarrow> keeps R m) \<Longrightarrow> (\<And>x. v = Some x \<Longrightarrow> keeps R (f x)) \<Longrightarrow>
   keeps R (case v of None \<Rightarrow> m | Some x \<Rightarrow> f x)"
  by (cases v) simp_all

lemma keeps_case_sum [keeps_rules]:
  "(\<And>x. v = Inl x \<Longrightarrow> keeps R (f x)) \<Longrightarrow> (\<And>x. v = Inr x \<Longrightarrow> keeps R (g x)) \<Longrightarrow>
   keeps R (case v of Inl x \<Rightarrow> f x | Inr x \<Rightarrow> g x)"
  by (cases v) simp_all

lemma keeps_case_prod [keeps_rules]:
  "(\<And>x y. v = (x, y) \<Longrightarrow> keeps R (f x y)) \<Longrightarrow> keeps R (case v of (x, y) \<Rightarrow> f x y)"
  by (cases v) simp

lemma keeps_case_list [keeps_rules]:
  "(v = [] \<Longrightarrow> keeps R m) \<Longrightarrow> (\<And>x xs. v = x # xs \<Longrightarrow> keeps R (f x xs)) \<Longrightarrow>
   keeps R (case v of [] \<Rightarrow> m | x # xs \<Rightarrow> f x xs)"
  by (cases v) simp_all

lemma keeps_let [keeps_rules]: "keeps R (f x) \<Longrightarrow> keeps R (Let x f)"
  by simp

end

interpretation same: frame "unchanged f" for f
  by unfold_locales (simp_all add: unchanged_def)

interpretation invariant: frame "inv_rel P" for P
  by unfold_locales (simp_all add: inv_rel_def)

lemma keeps_unchangedD: "keeps (unchanged f) m \<Longrightarrow> f (snd (m s)) = f s"
  by (simp add: keeps_def unchanged_def)

lemma keeps_inv_relD: "keeps (inv_rel P) m \<Longrightarrow> P s \<Longrightarrow> P (snd (m s))"
  by (simp add: keeps_def inv_rel_def)

lemma keeps_invI: "keeps (unchanged f) m \<Longrightarrow> keeps (inv_rel (\<lambda>s. P (f s))) m"
  by (simp add: keeps_def inv_rel_def unchanged_def)

section \<open>Triples\<close>

definition hoare :: "('s \<Rightarrow> bool) \<Rightarrow> ('s, 'a) io \<Rightarrow> ('a \<Rightarrow> 's \<Rightarrow> bool) \<Rightarrow> (exn \<Rightarrow> 's \<Rightarrow> bool) \<Rightarrow> bool" where
  "hoare P m Q E \<longleftrightarrow> (\<forall>s. P s \<longrightarrow> (case m s of (Inl e, t) \<Rightarrow> E e t | (Inr x, t) \<Rightarrow> Q x t))"

lemma hoare_andThen:
  assumes "hoare P m Q E" "\<And>x. hoare (Q x) (f x) S E"
  shows "hoare P (andThen m f) S E"
  using assms unfolding hoare_def andThen_def
  by (fastforce split: prod.splits sum.splits)

lemma hoare_try:
  assumes "hoare P m Q F" "\<And>e. hoare (F e) (h e) Q E"
  shows "hoare P (try_except m h) Q E"
  using assms unfolding hoare_def try_except_def
  by (fastforce split: prod.splits sum.splits)

lemma hoare_weaken:
  assumes "hoare P' m Q' E'" "\<And>s. P s \<Longrightarrow> P' s" "\<And>x s. Q' x s \<Longrightarrow> Q x s" "\<And>e s. E' e s \<Longrightarrow> E e s"
  shows "hoare P m Q E"
  using assms unfolding hoare_def by (fastforce split: prod.splits sum.splits)

lemma hoare_ok: "(\<And>s. P s \<Longrightarrow> Q x s) \<Longrightarrow> hoare P (ok x) Q E"
  by (simp add: hoare_def ok_def)

lemma hoare_raise: "(\<And>s. P s \<Longrightarrow> E e s) \<Longrightarrow> hoare P (raise e) Q E"
  by (simp add: hoare_def raise_def)

lemma hoareD: "hoare P m Q E \<Longrightarrow> P s \<Longrightarrow> m s = (Inr x, t) \<Longrightarrow> Q x t"
  by (fastforce simp: hoare_def)

lemma hoareD_exn: "hoare P m Q E \<Longrightarrow> P s \<Longrightarrow> m s = (Inl e, t) \<Longrightarrow> E e t"
  by (fastforce simp: hoare_def)

end
