(* ===== verification/PyLib.thy ===== *)
theory PyLib
  imports Prelude
begin

text \<open>
  The parts of the Python standard library the program computes with: the \<open>str\<close> methods, the
  conversions \<open>str\<close> and \<open>int\<close>, IEEE-754 double arithmetic as far as the capacity ratios,
  the memory pressure and the CPU percentage need it, and the values of the \<open>json\<close> module.
\<close>

section \<open>Strings\<close>

definition char_code :: "char \<Rightarrow> nat" where
  "char_code c = of_char c"

definition newline :: char where
  "newline = CHR 0x0A"

definition is_digit :: "char \<Rightarrow> bool" where
  "is_digit c = (48 \<le> char_code c \<and> char_code c \<le> 57)"

definition is_lower :: "char \<Rightarrow> bool" where
  "is_lower c = (97 \<le> char_code c \<and> char_code c \<le> 122)"

definition is_space :: "char \<Rightarrow> bool" where
  "is_space c = (let n = char_code c in
     (9 \<le> n \<and> n \<le> 13) \<or> (28 \<le> n \<and> n \<le> 32) \<or> n = 133 \<or> n = 160)"

definition digit_char :: "nat \<Rightarrow> char" where
  "digit_char d = char_of (48 + d)"

definition digit_val :: "char \<Rightarrow> nat" where
  "digit_val c = char_code c - 48"

fun show_nat :: "nat \<Rightarrow> string" where
  "show_nat n = (if n < 10 then [digit_char n] else show_nat (n div 10) @ [digit_char (n mod 10)])"

declare show_nat.simps [simp del]

definition show_int :: "int \<Rightarrow> string" where
  "show_int i = (if i < 0 then ''-'' @ show_nat (nat (- i)) else show_nat (nat i))"

definition lstrip :: "string \<Rightarrow> string" where
  "lstrip s = dropWhile is_space s"

definition rstrip :: "string \<Rightarrow> string" where
  "rstrip s = rev (dropWhile is_space (rev s))"

definition strip :: "string \<Rightarrow> string" where
  "strip s = rstrip (lstrip s)"

definition ascii_lower :: "string \<Rightarrow> string" where
  "ascii_lower s = map (\<lambda>c. if 65 \<le> char_code c \<and> char_code c \<le> 90
                            then char_of (char_code c + 32) else c) s"

text \<open>\<open>s.split()\<close>: the words between runs of white space.\<close>

fun words_acc :: "string \<Rightarrow> string \<Rightarrow> string list" where
  "words_acc acc [] = (if acc = [] then [] else [rev acc])"
| "words_acc acc (c # s) =
     (if is_space c then (if acc = [] then words_acc [] s else rev acc # words_acc [] s)
      else words_acc (c # acc) s)"

definition words :: "string \<Rightarrow> string list" where
  "words s = words_acc [] s"

text \<open>\<open>s.split(c)\<close> for a one-character separator, and \<open>s.split(c, 1)\<close> as a pair.\<close>

fun split_on :: "char \<Rightarrow> string \<Rightarrow> string list" where
  "split_on c [] = [[]]"
| "split_on c (x # s) = (if x = c then [] # split_on c s
     else (case split_on c s of [] \<Rightarrow> [[x]] | w # ws \<Rightarrow> (x # w) # ws))"

definition split1 :: "char \<Rightarrow> string \<Rightarrow> string \<times> string" where
  "split1 c s = (takeWhile (\<lambda>x. x \<noteq> c) s, tl (dropWhile (\<lambda>x. x \<noteq> c) s))"

text \<open>What follows the first occurrence of \<open>pat\<close>: \<open>s.split(pat, 1)[1]\<close> where it occurs.\<close>

fun after_sub :: "string \<Rightarrow> string \<Rightarrow> string option" where
  "after_sub pat [] = (if pat = [] then Some [] else None)"
| "after_sub pat (x # s) =
     (if prefix pat (x # s) then Some (drop (length pat) (x # s)) else after_sub pat s)"

definition join :: "string \<Rightarrow> string list \<Rightarrow> string" where
  "join sep ws = (case ws of [] \<Rightarrow> [] | w # ws' \<Rightarrow> w @ concat (map (\<lambda>v. sep @ v) ws'))"

text \<open>Line boundaries of \<open>str.splitlines\<close> (a carriage return and a line feed are one boundary).\<close>

definition is_linebreak :: "char \<Rightarrow> bool" where
  "is_linebreak c = (let n = char_code c in (10 \<le> n \<and> n \<le> 13) \<or> (28 \<le> n \<and> n \<le> 30) \<or> n = 133)"

fun splitlines_acc :: "string \<Rightarrow> string \<Rightarrow> string list" where
  "splitlines_acc acc [] = (if acc = [] then [] else [rev acc])"
| "splitlines_acc acc [c] = (if is_linebreak c then [rev acc] else [rev (c # acc)])"
| "splitlines_acc acc (c # d # s) =
     (if is_linebreak c
      then rev acc # (if char_code c = 13 \<and> char_code d = 10
                      then splitlines_acc [] s else splitlines_acc [] (d # s))
      else splitlines_acc (c # acc) (d # s))"

definition splitlines :: "string \<Rightarrow> string list" where
  "splitlines s = splitlines_acc [] s"

definition sorted_set :: "string list \<Rightarrow> string list" where
  "sorted_set xs = sort (remdups xs)"

lemma set_sorted_set [simp]: "set (sorted_set xs) = set xs"
  by (simp add: sorted_set_def)

lemma sorted_sorted_set [simp]: "sorted (sorted_set xs)"
  by (simp add: sorted_set_def)

lemma distinct_sorted_set [simp]: "distinct (sorted_set xs)"
  by (simp add: sorted_set_def)

text \<open>
  \<open>int(s)\<close> of a string: surrounding space, an optional sign, digits with single underscores
  between them.
\<close>

fun digits_val :: "nat \<Rightarrow> string \<Rightarrow> nat option" where
  "digits_val n [] = None"
| "digits_val n [c] = (if is_digit c then Some (10 * n + digit_val c) else None)"
| "digits_val n (c # d # s) =
     (if is_digit c
      then (if d = CHR ''_'' then digits_val (10 * n + digit_val c) s
            else digits_val (10 * n + digit_val c) (d # s))
      else None)"

definition parse_int :: "string \<Rightarrow> int option" where
  "parse_int s = (case strip s of
       [] \<Rightarrow> None
     | c # t \<Rightarrow> (if c = CHR ''-'' then map_option (\<lambda>n. - int n) (digits_val 0 t)
                 else if c = CHR ''+'' then map_option int (digits_val 0 t)
                 else map_option int (digits_val 0 (c # t))))"

lemma strip_no_space: "list_all (\<lambda>c. \<not> is_space c) s \<Longrightarrow> strip s = s"
proof -
  assume s: "list_all (\<lambda>c. \<not> is_space c) s"
  have "list_all (\<lambda>c. \<not> is_space c) r \<Longrightarrow> dropWhile is_space r = r" for r by (cases r) auto
  with s show ?thesis by (simp add: strip_def lstrip_def rstrip_def)
qed

lemma digit_char_code [simp]: "d < 10 \<Longrightarrow> char_code (digit_char d) = 48 + d"
  by (simp add: digit_char_def char_code_def)

lemma is_digit_digit_char [simp]: "d < 10 \<Longrightarrow> is_digit (digit_char d)"
  by (simp add: is_digit_def)

lemma digit_val_digit_char [simp]: "d < 10 \<Longrightarrow> digit_val (digit_char d) = d"
  by (simp add: digit_val_def)

lemma show_nat_nonempty [simp]: "show_nat n \<noteq> []"
  by (subst show_nat.simps) simp

lemma show_nat_digits: "c \<in> set (show_nat n) \<Longrightarrow> is_digit c"
proof (induction n rule: show_nat.induct)
  case (1 n)
  then show ?case
    by (subst (asm) show_nat.simps) (auto split: if_splits)
qed

lemma digits_val_snoc:
  "s \<noteq> [] \<Longrightarrow> (\<forall>c \<in> set s. is_digit c) \<Longrightarrow> is_digit d \<Longrightarrow>
   digits_val n (s @ [d]) = map_option (\<lambda>v. 10 * v + digit_val d) (digits_val n s)"
proof (induction n s rule: digits_val.induct)
  case (2 n c)
  then show ?case by (auto simp: is_digit_def char_code_def)
next
  case (3 n c e s)
  then have "e \<noteq> CHR ''_''" by (auto simp: is_digit_def char_code_def)
  with 3 show ?case by (cases s) (simp_all)
qed simp

lemma digits_val_show_nat: "digits_val 0 (show_nat n) = Some n"
proof (induction n rule: show_nat.induct)
  case (1 n)
  show ?case
  proof (cases "n < 10")
    case True
    then show ?thesis by (subst show_nat.simps) simp
  next
    case False
    have "digits_val 0 (show_nat (n div 10) @ [digit_char (n mod 10)]) = Some (10 * (n div 10) + n mod 10)"
      using "1.IH" [OF False] show_nat_digits by (subst digits_val_snoc) auto
    then show ?thesis using False by (subst show_nat.simps) simp
  qed
qed

lemma show_nat_inj: "show_nat m = show_nat n \<Longrightarrow> m = n"
  by (metis digits_val_show_nat option.inject)

section \<open>Timestamps\<close>

text \<open>
  \<open>datetime.isoformat\<close> in UTC of an instant given in microseconds since 1970: the civil date of
  a day number, by 400-year cycles that start in March, and the time of day, whose fraction is
  left out when it is zero.
\<close>

definition civil_date :: "int \<Rightarrow> int \<times> int \<times> int" where
  "civil_date days = (let z = days + 719468; era = z div 146097; doe = z mod 146097;
       yoe = (doe - doe div 1460 + doe div 36524 - doe div 146096) div 365;
       doy = doe - (365 * yoe + yoe div 4 - yoe div 100);
       mp = (5 * doy + 2) div 153; d = doy - (153 * mp + 2) div 5 + 1;
       m = (if mp < 10 then mp + 3 else mp - 9)
     in (yoe + era * 400 + (if m \<le> 2 then 1 else 0), m, d))"

definition pad :: "nat \<Rightarrow> int \<Rightarrow> string" where
  "pad n i = (let s = show_int i in replicate (n - length s) CHR ''0'' @ s)"

definition iso_format :: "int \<Rightarrow> string" where
  "iso_format t = (let secs = t div 1000000; us = t mod 1000000; sod = secs mod 86400 in
     (case civil_date (secs div 86400) of (y, m, d) \<Rightarrow>
        pad 4 y @ ''-'' @ pad 2 m @ ''-'' @ pad 2 d @ ''T'' @ pad 2 (sod div 3600) @ '':'' @
        pad 2 (sod div 60 mod 60) @ '':'' @ pad 2 (sod mod 60) @
        (if us = 0 then '''' else ''.'' @ pad 6 us) @ ''+00:00''))"

section \<open>Double-precision arithmetic\<close>

text \<open>
  A finite double is \<open>PyFloat m e\<close>, the number \<open>m * 2 ^ e\<close>. Results are rounded to 53
  significant bits, ties to even. The exponent range is not bounded: the ratios, sizes and times
  the program handles are far from overflow and from the subnormal numbers.
\<close>

datatype pyfloat = PyFloat (mant: int) (expo: int)

function bit_len :: "int \<Rightarrow> nat" where
  "bit_len n = (if n \<le> 0 then 0 else Suc (bit_len (n div 2)))"
  by pat_completeness auto
termination
  by (relation "measure nat") auto

declare bit_len.simps [simp del]

definition round_mag :: "nat \<Rightarrow> int \<Rightarrow> int" where
  "round_mag s n = (let q = n div 2 ^ s; r = n mod 2 ^ s; half = 2 ^ (s - 1)
     in if r > half \<or> (r = half \<and> odd q) then q + 1 else q)"

definition round53 :: "int \<Rightarrow> int \<Rightarrow> pyfloat" where
  "round53 m e = (let n = \<bar>m\<bar>; k = bit_len n in
     if k \<le> 53 then PyFloat m e
     else PyFloat (sgn m * round_mag (k - 53) n) (e + int (k - 53)))"

definition float_of_int :: "int \<Rightarrow> pyfloat" where
  "float_of_int i = round53 i 0"

fun fmul :: "pyfloat \<Rightarrow> pyfloat \<Rightarrow> pyfloat" where
  "fmul (PyFloat m e) (PyFloat n f) = round53 (m * n) (e + f)"

text \<open>
  Division: the quotient is computed to at least 54 bits, with one further bit that tells
  whether the remainder was zero, and rounded once.
\<close>

fun fdiv :: "pyfloat \<Rightarrow> pyfloat \<Rightarrow> pyfloat" where
  "fdiv (PyFloat m e) (PyFloat n f) =
     (let a = \<bar>m\<bar>; b = \<bar>n\<bar>; k = 55 + bit_len b - bit_len a;
          q = (a * 2 ^ k) div b; r = (a * 2 ^ k) mod b;
          t = 2 * q + (if r = 0 then 0 else 1)
      in round53 (sgn m * sgn n * t) (e - f - int k - 1))"

text \<open>Subtraction aligns the exponents, subtracts exactly and rounds once.\<close>

fun fsub :: "pyfloat \<Rightarrow> pyfloat \<Rightarrow> pyfloat" where
  "fsub (PyFloat m e) (PyFloat n f) =
     (if f \<le> e then round53 (m * 2 ^ nat (e - f) - n) f else round53 (m - n * 2 ^ nat (f - e)) e)"

fun int_of_float :: "pyfloat \<Rightarrow> int" where
  "int_of_float (PyFloat m e) =
     (if 0 \<le> e then m * 2 ^ nat e else sgn m * (\<bar>m\<bar> div 2 ^ nat (- e)))"

fun fless :: "pyfloat \<Rightarrow> pyfloat \<Rightarrow> bool" where
  "fless (PyFloat m e) (PyFloat n f) =
     (if f \<le> e then m * 2 ^ nat (e - f) < n else m < n * 2 ^ nat (f - e))"

definition one_float :: pyfloat where
  "one_float = PyFloat 1 0"

lemma bit_len_less: "n < 2 ^ k \<Longrightarrow> bit_len n \<le> k"
proof (induction k arbitrary: n)
  case 0
  then show ?case by (simp add: bit_len.simps)
next
  case (Suc k)
  then show ?case by (subst bit_len.simps) auto
qed

lemma round53_exact: "\<bar>m\<bar> < 2 ^ 53 \<Longrightarrow> round53 m e = PyFloat m e"
  using bit_len_less [of "\<bar>m\<bar>" 53] by (simp add: round53_def Let_def)

lemma int_times_one: "\<bar>i\<bar> < 2 ^ 53 \<Longrightarrow> int_of_float (fmul (float_of_int i) one_float) = i"
  by (simp add: float_of_int_def one_float_def round53_exact)

lemma mant_round53_nonneg: "0 \<le> m \<Longrightarrow> 0 \<le> mant (round53 m e)"
  by (auto simp: round53_def Let_def round_mag_def sgn_if pos_imp_zdiv_nonneg_iff)

lemma int_of_float_nonneg: "0 \<le> mant x \<Longrightarrow> 0 \<le> int_of_float x"
  by (cases x) (auto simp: sgn_if pos_imp_zdiv_nonneg_iff)

lemma scaled_nonneg:
  "0 \<le> i \<Longrightarrow> 0 \<le> mant r \<Longrightarrow> 0 \<le> int_of_float (fmul (float_of_int i) r)"
proof -
  assume i: "0 \<le> i" and r: "0 \<le> mant r"
  obtain m e where fi: "float_of_int i = PyFloat m e" by (cases "float_of_int i")
  with mant_round53_nonneg [OF i, of 0] have "0 \<le> m" by (simp add: float_of_int_def)
  with fi r show ?thesis
    by (cases r) (auto intro!: int_of_float_nonneg mant_round53_nonneg)
qed

section \<open>Values of the json module\<close>

text \<open>
  \<open>json.loads\<close> also accepts \<open>Infinity\<close>, \<open>-Infinity\<close> (\<open>JInf True\<close>) and \<open>NaN\<close>. An object
  is the list of its entries in order, with one entry for each key.
\<close>

datatype json = JNull | JBool bool | JInt int | JFloat pyfloat | JInf bool | JNaN
  | JStr string | JList "json list" | JObj "(string \<times> json) list"

fun truthy :: "json \<Rightarrow> bool" where
  "truthy JNull = False"
| "truthy (JBool b) = b"
| "truthy (JInt i) = (i \<noteq> 0)"
| "truthy (JFloat x) = (mant x \<noteq> 0)"
| "truthy (JInf n) = True"
| "truthy JNaN = True"
| "truthy (JStr s) = (s \<noteq> [])"
| "truthy (JList xs) = (xs \<noteq> [])"
| "truthy (JObj kvs) = (kvs \<noteq> [])"

fun type_name :: "json \<Rightarrow> string" where
  "type_name JNull = ''NoneType''"
| "type_name (JBool b) = ''bool''"
| "type_name (JInt i) = ''int''"
| "type_name (JFloat x) = ''float''"
| "type_name (JInf n) = ''float''"
| "type_name JNaN = ''float''"
| "type_name (JStr s) = ''str''"
| "type_name (JList xs) = ''list''"
| "type_name (JObj kvs) = ''dict''"

definition no_attribute :: "json \<Rightarrow> string \<Rightarrow> exn" where
  "no_attribute v a = PyError AttributeError
     ([CHR 0x27] @ type_name v @ [CHR 0x27] @ '' object has no attribute '' @ [CHR 0x27] @ a @ [CHR 0x27])"

text \<open>\<open>v.get(k)\<close>, with None for a missing key; raises for a value that is not a dict.\<close>

fun obj_get :: "json \<Rightarrow> string \<Rightarrow> exn + json option" where
  "obj_get (JObj kvs) k = Inr (map_of kvs k)"
| "obj_get v k = Inl (no_attribute v ''get'')"

definition get_or :: "json \<Rightarrow> string \<Rightarrow> json \<Rightarrow> exn + json" where
  "get_or v k d = (case obj_get v k of Inl e \<Rightarrow> Inl e | Inr None \<Rightarrow> Inr d | Inr (Some x) \<Rightarrow> Inr x)"

text \<open>\<open>int(v)\<close>.\<close>

fun py_int :: "json \<Rightarrow> exn + int" where
  "py_int (JInt i) = Inr i"
| "py_int (JBool b) = Inr (if b then 1 else 0)"
| "py_int (JFloat x) = Inr (int_of_float x)"
| "py_int (JInf n) = Inl (PyError OverflowError ''cannot convert float infinity to integer'')"
| "py_int JNaN = Inl (PyError ValueError ''cannot convert float NaN to integer'')"
| "py_int (JStr s) = (case parse_int s of Some i \<Rightarrow> Inr i
     | None \<Rightarrow> Inl (PyError ValueError (''invalid literal for int() with base 10: '' @ s)))"
| "py_int v = Inl (PyError TypeError (''int() argument must be a string, a bytes-like object or a real number, not '' @ type_name v))"

fun is_str :: "json \<Rightarrow> bool" where
  "is_str (JStr s) = True"
| "is_str v = False"

fun the_str :: "json \<Rightarrow> string" where
  "the_str (JStr s) = s"
| "the_str v = ''''"

definition opt_json :: "('a \<Rightarrow> json) \<Rightarrow> 'a option \<Rightarrow> json" where
  "opt_json f v = (case v of None \<Rightarrow> JNull | Some x \<Rightarrow> f x)"

section \<open>Errors as sums\<close>

definition bind_sum :: "'e + 'a \<Rightarrow> ('a \<Rightarrow> 'e + 'b) \<Rightarrow> 'e + 'b" where
  "bind_sum r f = (case r of Inl e \<Rightarrow> Inl e | Inr x \<Rightarrow> f x)"

lemma bind_sum_simps [simp]: "bind_sum (Inl e) f = Inl e" "bind_sum (Inr x) f = f x"
  by (simp_all add: bind_sum_def)

text \<open>A guard that fails with an error, where the result is known to be a success.\<close>

lemma guard_Inr: "(if c then Inl e else x) = Inr y \<longleftrightarrow> \<not> c \<and> x = Inr y"
  by simp

lemma guard_None: "(if c then Some e else x) = None \<longleftrightarrow> \<not> c \<and> x = None"
  by simp

lemma bind_sum_Inr: "bind_sum r f = Inr y \<longleftrightarrow> (\<exists>x. r = Inr x \<and> f x = Inr y)"
  by (cases r) simp_all

end
