(* ===== verification/World.thy ===== *)
theory World
  imports PyLib
begin

text \<open>
  The state the Lambdas share and the AWS calls they make on it. The rows of the two DynamoDB
  tables are records whose fields are the attributes the code reads and writes, \<open>None\<close> where the
  attribute is absent. \<open>cfg\<close> holds the module constants the Lambdas read from their environment.
  Every AWS call goes through \<open>aws\<close>: it takes the next entry of the oracle, lets that much time
  pass, and raises the entry's exception or performs its effect. All orders of failures are thus
  covered by quantifying over the oracle. SSM answers, HTTP answers and random numbers are
  oracles of the same kind.
\<close>

section \<open>Rows and configuration\<close>

text \<open>A timestamp attribute: an ISO-8601 instant (in microseconds), or text that does not parse.\<close>

datatype stamp = At int | Garbled string

record schedule =
  sc_start :: "string option"
  sc_stop :: "string option"
  sc_timezone :: "string option"
  sc_days :: "string list option"

record tenant =
  t_id :: string
  t_name :: "string option"
  t_status :: "string option"
  t_host_id :: "string option"
  t_vm_num :: "int option"
  t_guest_ip :: "string option"
  t_host_port :: "int option"
  t_vcpu :: "int option"
  t_mem_mb :: "int option"
  t_data_disk_mb :: "int option"
  t_health_failures :: "int option"
  t_rootfs_version :: "string option"
  t_config_template :: "string option"
  t_restore_backup_key :: "string option"
  t_tags :: "(string \<times> string) list option"
  t_skills :: "string list option"
  t_group :: "string option"
  t_ttl_hours :: "int option"
  t_on_expiry :: "string option"
  t_expires_at :: "stamp option"
  t_schedule :: "schedule option"
  t_clone_from :: "string option"
  t_creation_started_at :: "stamp option"
  t_created_at :: "stamp option"
  t_updated_at :: "stamp option"
  t_vm_health :: "string option"
  t_app_health :: "string option"
  t_last_health_check :: "stamp option"
  t_last_backup_at :: "stamp option"
  t_gateway_token :: "string option"
  t_metrics :: "(string \<times> int) list option"
  t_migration_target :: "string option"
  t_migration_target_vm_num :: "int option"
  t_migration_source :: "string option"
  t_migration_snap_cmd :: "string option"
  t_migration_restore_cmd :: "string option"
  t_migration_phase :: "string option"
  t_migration_mode :: "string option"
  t_migration_started_at :: "stamp option"
  t_migration_snapshot_uri :: "string option"
  t_migration_failed :: "string option"
  t_previous_host_id :: "string option"
  t_failover_from_az :: "string option"
  t_failover_at :: "stamp option"
  t_failover_error :: "string option"
  t_restored_from :: "string option"

record host =
  h_instance_id :: string
  h_private_ip :: "string option"
  h_az :: "string option"
  h_total_vcpu :: "int option"
  h_total_mem_mb :: "int option"
  h_used_vcpu :: "int option"
  h_used_mem_mb :: "int option"
  h_vm_count :: "int option"
  h_next_vm_num :: "int option"
  h_status :: "string option"
  h_idle_since :: "stamp option"
  h_rootfs_version :: "string option"
  h_last_health_check :: "stamp option"
  h_last_seen :: "stamp option"
  h_agent_restart_at :: "stamp option"
  h_az_last_failover :: "(string \<times> stamp) list option"
  h_updated_at :: "stamp option"

record group =
  g_name :: string
  g_skills :: "string list option"
  g_description :: string
  g_created_at :: "stamp option"

text \<open>The row an \<open>update_item\<close> starts from when its key is absent.\<close>

definition fresh_tenant :: "string \<Rightarrow> tenant" where
  "fresh_tenant k = \<lparr>t_id = k, t_name = None, t_status = None, t_host_id = None, t_vm_num = None,
     t_guest_ip = None, t_host_port = None, t_vcpu = None, t_mem_mb = None, t_data_disk_mb = None,
     t_health_failures = None, t_rootfs_version = None, t_config_template = None,
     t_restore_backup_key = None, t_tags = None, t_skills = None, t_group = None,
     t_ttl_hours = None, t_on_expiry = None, t_expires_at = None, t_schedule = None,
     t_clone_from = None, t_creation_started_at = None, t_created_at = None, t_updated_at = None,
     t_vm_health = None, t_app_health = None, t_last_health_check = None, t_last_backup_at = None,
     t_gateway_token = None, t_metrics = None, t_migration_target = None, t_migration_target_vm_num = None,
     t_migration_source = None, t_migration_snap_cmd = None, t_migration_restore_cmd = None,
     t_migration_phase = None, t_migration_mode = None, t_migration_started_at = None,
     t_migration_snapshot_uri = None, t_migration_failed = None, t_previous_host_id = None,
     t_failover_from_az = None, t_failover_at = None, t_failover_error = None,
     t_restored_from = None\<rparr>"

definition fresh_host :: "string \<Rightarrow> host" where
  "fresh_host k = \<lparr>h_instance_id = k, h_private_ip = None, h_az = None, h_total_vcpu = None,
     h_total_mem_mb = None, h_used_vcpu = None, h_used_mem_mb = None, h_vm_count = None,
     h_next_vm_num = None, h_status = None, h_idle_since = None, h_rootfs_version = None,
     h_last_health_check = None, h_last_seen = None, h_agent_restart_at = None,
     h_az_last_failover = None, h_updated_at = None\<rparr>"

record audit_row =
  a_event :: string
  a_object :: string
  a_resource_id :: string
  a_actor :: string
  a_actor_role :: string
  a_operation :: string
  a_response_status :: "int option"
  a_expires_ttl :: int
  a_api_key_id :: string
  a_detail :: "json option"
  a_ts :: string

record notification =
  n_topic :: string
  n_subject :: string
  n_message :: json

record asg =
  asg_desired :: int
  asg_min :: int
  asg_max :: int

record alb_condition =
  ac_field :: string
  ac_values :: "string list"

text \<open>A listener rule; priority \<open>None\<close> is the default rule.\<close>

record alb_rule =
  r_arn :: string
  r_priority :: "int option"
  r_conditions :: "alb_condition list"
  r_targets :: "string list"

record target_group =
  tg_name :: string
  tg_ref :: string
  tg_vpc :: string
  tg_members :: "string list"

record ssm_command =
  s_id :: string
  s_instances :: "string list"
  s_command :: string
  s_timeout :: int

datatype ssm_reply = NotRegistered | Reply (reply_status: string) (reply_out: string) (reply_err: string)

datatype http_reply = HttpOk int | HttpErr int | ConnErr string

record s3_object =
  o_key :: string
  o_modified :: int
  o_size :: int
  o_text :: string

record failover_job =
  j_tenant_id :: string
  j_source_az :: string
  j_source_host_id :: string
  j_target_host_id :: string
  j_target_vm_num :: int
  j_backup_key :: string
  j_queued_at :: int

record cfg =
  cpu_overcommit :: pyfloat
  mem_overcommit :: pyfloat
  max_vms_per_host :: int
  host_reserved_vcpu :: int
  host_reserved_mem :: int
  vm_default_vcpu :: int
  vm_default_mem :: int
  vm_data_disk_mb :: int
  vm_port_base :: int
  vm_subnet_prefix :: string
  listener_arn :: string
  vpc_id :: string
  routing_mode :: string
  quotas_enabled :: bool
  quotas_max_vcpu :: int
  quotas_max_mem :: int
  quotas_max_disk :: int
  balloon_enabled :: bool
  balloon_migrate_mode :: string
  default_no_jwt_role :: string
  rbac_enabled :: bool
  priority_min :: int
  priority_max :: int
  host_pick_top_k :: int
  host_reserve_attempts :: int
  has_groups_table :: bool
  has_audit_table :: bool
  has_tenants_table :: bool
  audit_ttl_days :: int
  notifications_topic :: string
  assets_bucket :: string
  backup_prefix :: string
  backup_function :: string
  health_check_function :: string
  alb_rules_quota :: int
  az_failover_enabled :: bool
  az_unhealthy_minutes :: int
  az_cooldown_minutes :: int
  public_base_url :: string
  verify_consecutive_ok :: int
  failover_queue_url :: string
  failover_watchdog_minutes :: int
  migration_watchdog_minutes :: int
  sns_topic_arn :: string
  idle_timeout_minutes :: int
  cognito_configured :: bool
  cognito_client_id :: string
  verify_token :: "string \<Rightarrow> (string \<times> json) list option"
  hash4 :: "string \<Rightarrow> int \<Rightarrow> string"
  zone_known :: "string \<Rightarrow> bool"
  local_clock :: "string \<Rightarrow> int \<Rightarrow> nat \<times> nat \<times> nat"

text \<open>
  The last four are functions of libraries outside the source: \<open>verify_token\<close> is PyJWT's decode
  against the pool's keys (\<open>None\<close> for a token that does not verify), \<open>hash4\<close> the first four hex
  digits of the SHA-256 of a name and a time, \<open>zone_known\<close> and \<open>local_clock\<close> the time-zone
  database (weekday from Monday 0, hour, minute at an instant).
\<close>

record world =
  w_now :: int
  w_oracle :: "(nat \<times> exn option) list"
  w_page :: nat
  w_tenants :: "(string \<times> tenant) list"
  w_hosts :: "(string \<times> host) list"
  w_groups :: "(string \<times> group) list"
  w_audit :: "audit_row list"
  w_events :: "notification list"
  w_asg :: asg
  w_terminated :: "string list"
  w_completed :: "string list"
  w_rules :: "alb_rule list"
  w_tgs :: "target_group list"
  w_ssm :: "ssm_command list"
  w_replies :: "ssm_reply list"
  w_http :: "http_reply list"
  w_queue :: "failover_job list"
  w_objects :: "s3_object list"
  w_invoked :: "(string \<times> json) list"
  w_rand :: "nat list"
  w_serial :: nat

text \<open>
  A deployment with default settings and no rows, from which the concrete examples start.
\<close>

definition world0 :: world where
  "world0 = \<lparr>w_now = 0, w_oracle = [], w_page = 100, w_tenants = [], w_hosts = [],
     w_groups = [], w_audit = [], w_events = [], w_asg = \<lparr>asg_desired = 1, asg_min = 1,
     asg_max = 5\<rparr>, w_terminated = [], w_completed = [], w_rules = [], w_tgs = [], w_ssm =
     [], w_replies = [], w_http = [], w_queue = [], w_objects = [], w_invoked = [], w_rand = [],
     w_serial = 0\<rparr>"

definition cfg0 :: cfg where
  "cfg0 = \<lparr>cpu_overcommit = one_float, mem_overcommit = one_float, max_vms_per_host = 0,
     host_reserved_vcpu = 1, host_reserved_mem = 2048, vm_default_vcpu = 2, vm_default_mem =
     4096, vm_data_disk_mb = 2048, vm_port_base = 18789, vm_subnet_prefix = ''172.16'',
     listener_arn = ''lst'', vpc_id = ''vpc'', routing_mode = ''per-tenant'', quotas_enabled =
     False, quotas_max_vcpu = 0, quotas_max_mem = 0, quotas_max_disk = 0, balloon_enabled =
     False, balloon_migrate_mode = ''cold'', default_no_jwt_role = ''viewer'', rbac_enabled =
     False, priority_min = 10, priority_max = 499, host_pick_top_k = 8, host_reserve_attempts =
     3, has_groups_table = True, has_audit_table = True, has_tenants_table = True, audit_ttl_days = 90,
     notifications_topic = '''', assets_bucket = ''bucket'', backup_prefix = ''backups'',
     backup_function = '''', health_check_function = '''', alb_rules_quota = 100,
     az_failover_enabled = False, az_unhealthy_minutes = 3, az_cooldown_minutes = 30,
     public_base_url = '''', verify_consecutive_ok = 2, failover_queue_url = '''',
     failover_watchdog_minutes = 15, migration_watchdog_minutes = 15, sns_topic_arn = '''',
     idle_timeout_minutes = 10, cognito_configured = False, cognito_client_id = '''',
     verify_token = (\<lambda>_. None), hash4 = (\<lambda>_ _. ''beef''), zone_known =
     (\<lambda>z. z = ''UTC''), local_clock = (\<lambda>_ t. (nat ((t div 86400000000 + 3) mod
     7), nat (t div 3600000000 mod 24), nat (t div 60000000 mod 60)))\<rparr>"

lemma world0_simps [simp]:
  "w_now world0 = 0"
  "w_oracle world0 = []"
  "w_page world0 = 100"
  "w_tenants world0 = []"
  "w_hosts world0 = []"
  "w_groups world0 = []"
  "w_audit world0 = []"
  "w_events world0 = []"
  "w_asg world0 = \<lparr>asg_desired = 1, asg_min = 1, asg_max = 5\<rparr>"
  "w_terminated world0 = []"
  "w_completed world0 = []"
  "w_rules world0 = []"
  "w_tgs world0 = []"
  "w_ssm world0 = []"
  "w_replies world0 = []"
  "w_http world0 = []"
  "w_queue world0 = []"
  "w_objects world0 = []"
  "w_invoked world0 = []"
  "w_rand world0 = []"
  "w_serial world0 = 0"
  by (simp_all add: world0_def)

lemma cfg0_simps [simp]:
  "cpu_overcommit cfg0 = one_float"
  "mem_overcommit cfg0 = one_float"
  "max_vms_per_host cfg0 = 0"
  "host_reserved_vcpu cfg0 = 1"
  "host_reserved_mem cfg0 = 2048"
  "vm_default_vcpu cfg0 = 2"
  "vm_default_mem cfg0 = 4096"
  "vm_data_disk_mb cfg0 = 2048"
  "vm_port_base cfg0 = 18789"
  "vm_subnet_prefix cfg0 = ''172.16''"
  "listener_arn cfg0 = ''lst''"
  "vpc_id cfg0 = ''vpc''"
  "routing_mode cfg0 = ''per-tenant''"
  "quotas_enabled cfg0 = False"
  "quotas_max_vcpu cfg0 = 0"
  "quotas_max_mem cfg0 = 0"
  "quotas_max_disk cfg0 = 0"
  "balloon_enabled cfg0 = False"
  "balloon_migrate_mode cfg0 = ''cold''"
  "default_no_jwt_role cfg0 = ''viewer''"
  "rbac_enabled cfg0 = False"
  "priority_min cfg0 = 10"
  "priority_max cfg0 = 499"
  "host_pick_top_k cfg0 = 8"
  "host_reserve_attempts cfg0 = 3"
  "has_groups_table cfg0 = True"
  "has_audit_table cfg0 = True"
  "has_tenants_table cfg0 = True"
  "audit_ttl_days cfg0 = 90"
  "notifications_topic cfg0 = ''''"
  "assets_bucket cfg0 = ''bucket''"
  "backup_prefix cfg0 = ''backups''"
  "backup_function cfg0 = ''''"
  "health_check_function cfg0 = ''''"
  "alb_rules_quota cfg0 = 100"
  "az_failover_enabled cfg0 = False"
  "az_unhealthy_minutes cfg0 = 3"
  "az_cooldown_minutes cfg0 = 30"
  "public_base_url cfg0 = ''''"
  "verify_consecutive_ok cfg0 = 2"
  "failover_queue_url cfg0 = ''''"
  "failover_watchdog_minutes cfg0 = 15"
  "migration_watchdog_minutes cfg0 = 15"
  "sns_topic_arn cfg0 = ''''"
  "idle_timeout_minutes cfg0 = 10"
  "cognito_configured cfg0 = False"
  "cognito_client_id cfg0 = ''''"
  "verify_token cfg0 = (\<lambda>_. None)"
  "hash4 cfg0 = (\<lambda>_ _. ''beef'')"
  "zone_known cfg0 = (\<lambda>z. z = ''UTC'')"
  "local_clock cfg0 = (\<lambda>_ t. (nat ((t div 86400000000 + 3) mod 7), nat (t div 3600000000 mod 24), nat (t div 60000000 mod 60)))"
  by (simp_all add: cfg0_def)

section \<open>AWS calls\<close>

definition aws :: "(world, 'a) io \<Rightarrow> (world, 'a) io" where
  "aws m = (\<lambda>w. case w_oracle w of
       [] \<Rightarrow> m w
     | (d, f) # fs \<Rightarrow> (let w' = w\<lparr>w_now := w_now w + int d, w_oracle := fs\<rparr>
                       in case f of None \<Rightarrow> m w' | Some e \<Rightarrow> (Inl e, w')))"

definition now :: "(world, int) io" where
  "now = gets w_now"

definition sleep :: "int \<Rightarrow> (world, unit) io" where
  "sleep secs = modify (\<lambda>w. w\<lparr>w_now := w_now w + secs * 1000000\<rparr>)"

definition seconds :: "int \<Rightarrow> int" where
  "seconds n = n * 1000000"

subsection \<open>DynamoDB\<close>

definition tbl_update ::
  "(string \<Rightarrow> 'i) \<Rightarrow> string \<Rightarrow> ('i option \<Rightarrow> bool) \<Rightarrow> ('i \<Rightarrow> exn + 'i) \<Rightarrow> (string \<times> 'i) list
   \<Rightarrow> exn + (string \<times> 'i) list \<times> 'i" where
  "tbl_update fresh k cond upd tb = (let row = map_of tb k in
     if \<not> cond row then Inl cond_failed
     else (case upd (case row of None \<Rightarrow> fresh k | Some r \<Rightarrow> r) of
         Inl e \<Rightarrow> Inl e
       | Inr r \<Rightarrow> Inr (AList.update k r tb, r)))"

definition no_cond :: "'i option \<Rightarrow> bool" where
  "no_cond row = True"

definition set_attrs :: "('i \<Rightarrow> 'i) \<Rightarrow> 'i \<Rightarrow> exn + 'i" where
  "set_attrs f r = Inr (f r)"

definition get_tenant_row :: "string \<Rightarrow> (world, tenant option) io" where
  "get_tenant_row k = aws (gets (\<lambda>w. map_of (w_tenants w) k))"

definition put_tenant_row :: "tenant \<Rightarrow> (world, unit) io" where
  "put_tenant_row t = aws (modify (\<lambda>w. w\<lparr>w_tenants := AList.update (t_id t) t (w_tenants w)\<rparr>))"

definition update_tenant ::
  "string \<Rightarrow> (tenant option \<Rightarrow> bool) \<Rightarrow> (tenant \<Rightarrow> exn + tenant) \<Rightarrow> (world, tenant) io" where
  "update_tenant k cond upd = aws (\<lambda>w.
     case tbl_update fresh_tenant k cond upd (w_tenants w) of
       Inl e \<Rightarrow> (Inl e, w)
     | Inr (tb, r) \<Rightarrow> (Inr r, w\<lparr>w_tenants := tb\<rparr>))"

definition get_host_row :: "string \<Rightarrow> (world, host option) io" where
  "get_host_row k = aws (gets (\<lambda>w. map_of (w_hosts w) k))"

definition put_host_row :: "host \<Rightarrow> (world, unit) io" where
  "put_host_row h = aws (modify (\<lambda>w. w\<lparr>w_hosts := AList.update (h_instance_id h) h (w_hosts w)\<rparr>))"

definition delete_host_row :: "string \<Rightarrow> (world, unit) io" where
  "delete_host_row k = aws (modify (\<lambda>w. w\<lparr>w_hosts := AList.delete k (w_hosts w)\<rparr>))"

definition update_host ::
  "string \<Rightarrow> (host option \<Rightarrow> bool) \<Rightarrow> (host \<Rightarrow> exn + host) \<Rightarrow> (world, host) io" where
  "update_host k cond upd = aws (\<lambda>w.
     case tbl_update fresh_host k cond upd (w_hosts w) of
       Inl e \<Rightarrow> (Inl e, w)
     | Inr (tb, r) \<Rightarrow> (Inr r, w\<lparr>w_hosts := tb\<rparr>))"

definition get_group_row :: "string \<Rightarrow> (world, group option) io" where
  "get_group_row k = aws (gets (\<lambda>w. map_of (w_groups w) k))"

text \<open>
  \<open>Table.scan\<close> reads one page and applies the filter to it; \<open>scan_all\<close> (common/ddb.py) follows
  \<open>LastEvaluatedKey\<close>, here the number of rows read so far, until there is none.
\<close>

function scan_from :: "nat \<Rightarrow> ('i \<Rightarrow> bool) \<Rightarrow> 'i list \<Rightarrow> nat \<Rightarrow> (world, 'i list) io" where
  "scan_from n P rows k =
     andThen (aws (ok (filter P (take (Suc n) (drop k rows))))) (\<lambda>items.
       if k + Suc n < length rows
       then andThen (scan_from n P rows (k + Suc n)) (\<lambda>rest. ok (items @ rest))
       else ok items)"
  by pat_completeness auto
termination
  by (relation "measure (\<lambda>(n, P, rows, k). length rows - k)") auto

declare scan_from.simps [simp del]

definition scan_all :: "(world \<Rightarrow> (string \<times> 'i) list) \<Rightarrow> ('i \<Rightarrow> bool) \<Rightarrow> (world, 'i list) io" where
  "scan_all tb P = (\<lambda>w. scan_from (w_page w) P (map snd (tb w)) 0 w)"

section \<open>Frames for AWS calls\<close>

lemma aws_nofault [simp]: "w_oracle w = [] \<Longrightarrow> aws m w = m w"
  by (simp add: aws_def)

text \<open>A call either takes effect at some later time, or raises with only time having passed.\<close>

lemma aws_elim:
  assumes "aws m w = (r, w')"
  obtains (acted) n fs where "m (w\<lparr>w_now := n, w_oracle := fs\<rparr>) = (r, w')"
  | (fault) n fs e where "r = Inl e" "w' = w\<lparr>w_now := n, w_oracle := fs\<rparr>"
proof (cases "w_oracle w")
  case Nil
  have "w\<lparr>w_now := w_now w, w_oracle := w_oracle w\<rparr> = w" by simp
  then have "m (w\<lparr>w_now := w_now w, w_oracle := w_oracle w\<rparr>) = (r, w')"
    using assms Nil by (simp only: aws_nofault)
  then show ?thesis by (rule that(1))
next
  case (Cons a fs)
  then show ?thesis
    using assms that by (cases a; cases "snd a") (auto simp: aws_def Let_def)
qed

locale aws_frame = frame R for R :: "world \<Rightarrow> world \<Rightarrow> bool" +
  assumes frame_tick: "suffix fs (w_oracle w) \<Longrightarrow> R w (w\<lparr>w_now := n, w_oracle := fs\<rparr>)"
begin

lemma keeps_aws [keeps_rules]:
  assumes "keeps R m"
  shows "keeps R (aws m)"
proof (rule keepsI)
  fix w
  show "R w (snd (aws m w))"
  proof (cases "w_oracle w")
    case Nil
    with assms show ?thesis by (simp add: keeps_def)
  next
    case (Cons a fs)
    obtain d f where a: "a = (d, f)" by (cases a)
    let ?w1 = "w\<lparr>w_now := w_now w + int d, w_oracle := fs\<rparr>"
    have tick: "R w ?w1" by (rule frame_tick) (simp add: Cons suffix_Cons)
    have "R ?w1 (snd (m ?w1))" using assms by (simp add: keeps_def)
    with tick frame_trans have "R w (snd (m ?w1))" by blast
    with tick Cons a show ?thesis by (simp add: aws_def Let_def split: option.split)
  qed
qed

lemma frame_time: "R w (w\<lparr>w_now := n\<rparr>)"
  using frame_tick [of "w_oracle w" w n] by simp

lemma keeps_now [keeps_rules]: "keeps R now"
  by (simp add: now_def keeps_gets)

lemma keeps_sleep [keeps_rules]: "keeps R (sleep n)"
  by (simp add: sleep_def keeps_def frame_time)

lemma keeps_get_rows [keeps_rules]:
  "keeps R (get_tenant_row k)" "keeps R (get_host_row k)" "keeps R (get_group_row k)"
  by (simp_all add: get_tenant_row_def get_host_row_def get_group_row_def keeps_aws keeps_gets)

lemma keeps_scan_from [keeps_rules]: "keeps R (scan_from n P rows k)"
proof (induction n P rows k rule: scan_from.induct)
  case (1 n P rows k)
  show ?case
    by (subst scan_from.simps)
      (auto intro!: keeps_andThen keeps_aws keeps_ok "1.IH" simp del: add_Suc_right)
qed

lemma keeps_scan_all [keeps_rules]: "keeps R (scan_all tb P)"
  using keeps_scan_from unfolding scan_all_def keeps_def by blast

end

locale host_blind = aws_frame +
  assumes frame_hosts: "R w (w\<lparr>w_hosts := tb\<rparr>)"
begin

lemma keeps_update_host [keeps_rules]: "keeps R (update_host k c u)"
  unfolding update_host_def
  by (rule keeps_aws) (simp add: keeps_def frame_refl frame_hosts split: sum.split prod.split)

lemma keeps_put_host_row [keeps_rules]: "keeps R (put_host_row h)"
  unfolding put_host_row_def by (rule keeps_aws) (simp add: keeps_def frame_hosts)

lemma keeps_delete_host_row [keeps_rules]: "keeps R (delete_host_row k)"
  unfolding delete_host_row_def by (rule keeps_aws) (simp add: keeps_def frame_hosts)

end

locale tenant_blind = aws_frame +
  assumes frame_tenants: "R w (w\<lparr>w_tenants := tb\<rparr>)"
begin

lemma keeps_update_tenant [keeps_rules]: "keeps R (update_tenant k c u)"
  unfolding update_tenant_def
  by (rule keeps_aws) (simp add: keeps_def frame_refl frame_tenants split: sum.split prod.split)

lemma keeps_put_tenant_row [keeps_rules]: "keeps R (put_tenant_row t)"
  unfolding put_tenant_row_def by (rule keeps_aws) (simp add: keeps_def frame_tenants)

end

interpretation tenants_same: host_blind "unchanged w_tenants"
  by unfold_locales (simp_all add: unchanged_def)

interpretation hosts_same: tenant_blind "unchanged w_hosts"
  by unfold_locales (simp_all add: unchanged_def)

interpretation ssm_same: host_blind "unchanged w_ssm"
  by unfold_locales (simp_all add: unchanged_def)

interpretation ssm_same: tenant_blind "unchanged w_ssm"
  by unfold_locales (simp_all add: unchanged_def)

interpretation rules_same: host_blind "unchanged w_rules"
  by unfold_locales (simp_all add: unchanged_def)

interpretation rules_same: tenant_blind "unchanged w_rules"
  by unfold_locales (simp_all add: unchanged_def)

interpretation queue_same: host_blind "unchanged w_queue"
  by unfold_locales (simp_all add: unchanged_def)

interpretation queue_same: tenant_blind "unchanged w_queue"
  by unfold_locales (simp_all add: unchanged_def)

interpretation replies_same: host_blind "unchanged w_replies"
  by unfold_locales (simp_all add: unchanged_def)

interpretation replies_same: tenant_blind "unchanged w_replies"
  by unfold_locales (simp_all add: unchanged_def)

interpretation http_same: host_blind "unchanged w_http"
  by unfold_locales (simp_all add: unchanged_def)

interpretation http_same: tenant_blind "unchanged w_http"
  by unfold_locales (simp_all add: unchanged_def)

section \<open>Table laws\<close>

text \<open>A world in which no call fails or takes time stays one.\<close>

definition quiet :: "world \<Rightarrow> bool" where
  "quiet w = (w_oracle w = [])"

interpretation staying_quiet: host_blind "inv_rel quiet"
  by unfold_locales (auto simp: inv_rel_def quiet_def)

interpretation staying_quiet: tenant_blind "inv_rel quiet"
  by unfold_locales (auto simp: inv_rel_def quiet_def)

lemma tbl_update_Inr:
  "tbl_update fresh k c u tb = Inr (tb', r) \<longleftrightarrow>
   c (map_of tb k) \<and> u (case map_of tb k of None \<Rightarrow> fresh k | Some r \<Rightarrow> r) = Inr r \<and>
   tb' = AList.update k r tb"
  by (auto simp: tbl_update_def Let_def split: sum.splits)

lemma tbl_update_other:
  "tbl_update fresh k c u tb = Inr (tb', r) \<Longrightarrow> k' \<noteq> k \<Longrightarrow> map_of tb' k' = map_of tb k'"
  by (simp add: tbl_update_Inr update_conv')

lemma tbl_update_same:
  "tbl_update fresh k c u tb = Inr (tb', r) \<Longrightarrow> map_of tb' k = Some r"
  by (simp add: tbl_update_Inr update_conv')

text \<open>
  A scan that returns has read every page: its result is the filtered table, whatever the page
  size and whatever time the calls took.
\<close>

lemma fst_aws: "fst (aws m w) = Inr x \<Longrightarrow> \<exists>n fs. aws m w = m (w\<lparr>w_now := n, w_oracle := fs\<rparr>)"
proof (cases "w_oracle w")
  case Nil
  have "w\<lparr>w_now := w_now w, w_oracle := w_oracle w\<rparr> = w" by simp
  with Nil have "aws m w = m (w\<lparr>w_now := w_now w, w_oracle := w_oracle w\<rparr>)"
    by (simp only: aws_nofault)
  then show ?thesis by blast
next
  case (Cons a fs)
  assume "fst (aws m w) = Inr x"
  with Cons show ?thesis
    by (auto simp: aws_def Let_def split: prod.splits option.splits)
qed

lemma scan_from_result:
  "fst (scan_from n P rows k w) = Inr xs \<Longrightarrow> xs = filter P (drop k rows)"
proof (induction n P rows k arbitrary: w xs rule: scan_from.induct)
  case (1 n P rows k)
  let ?items = "filter P (take (Suc n) (drop k rows))"
  have split: "drop k rows = take (Suc n) (drop k rows) @ drop (k + Suc n) rows"
    by (metis append_take_drop_id drop_drop add.commute)
  from "1.prems" obtain w1 where page: "aws (ok ?items) w = (Inr ?items, w1)"
    by (subst (asm) scan_from.simps)
      (auto simp: andThen_apply aws_def Let_def ok_def split: sum.splits list.splits prod.splits option.splits)
  show ?case
  proof (cases "k + Suc n < length rows")
    case False
    with "1.prems" page have "xs = ?items"
      by (subst (asm) scan_from.simps) (simp add: andThen_apply)
    moreover have "drop (k + Suc n) rows = []" using False by simp
    ultimately show ?thesis using split by (metis append_Nil2)
  next
    case True
    with "1.prems" page obtain rest where
      rest: "fst (scan_from n P rows (k + Suc n) w1) = Inr rest" "xs = ?items @ rest"
      by (subst (asm) scan_from.simps) (auto simp: andThen_apply split: sum.splits)
    have "rest = filter P (drop (k + Suc n) rows)"
      using "1.IH" [OF True rest(1)] .
    with rest(2) split show ?thesis by (metis filter_append)
  qed
qed

lemma scan_all_result:
  "scan_all tb P w = (Inr xs, w') \<Longrightarrow> xs = filter P (map snd (tb w))"
  using scan_from_result [of "w_page w" P "map snd (tb w)" 0 w xs] by (simp add: scan_all_def)

lemma scan_all_in_table:
  "scan_all tb P w = (Inr xs, w') \<Longrightarrow> x \<in> set xs \<Longrightarrow> P x \<and> x \<in> snd ` set (tb w)"
  by (auto dest: scan_all_result)

lemma scan_from_quiet:
  "w_oracle w = [] \<Longrightarrow> scan_from n P rows k w = (Inr (filter P (drop k rows)), w)"
proof (induction n P rows k rule: scan_from.induct)
  case (1 n P rows k)
  let ?items = "filter P (take (Suc n) (drop k rows))"
  have split: "?items @ filter P (drop (k + Suc n) rows) = filter P (drop k rows)"
    by (metis append_take_drop_id drop_drop add.commute filter_append)
  show ?case
  proof (cases "k + Suc n < length rows")
    case True
    with 1 have "scan_from n P rows (k + Suc n) w = (Inr (filter P (drop (k + Suc n) rows)), w)"
      by simp
    with True "1.prems" split show ?thesis
      by (subst scan_from.simps) (simp add: andThen_apply ok_apply del: add_Suc_right)
  next
    case False
    with "1.prems" split show ?thesis
      by (subst scan_from.simps) (simp add: andThen_apply ok_apply del: add_Suc_right)
  qed
qed

lemma scan_all_quiet:
  "w_oracle w = [] \<Longrightarrow> scan_all tb P w = (Inr (filter P (map snd (tb w))), w)"
  by (simp add: scan_all_def scan_from_quiet)

section \<open>Calls in a quiet world\<close>

lemma get_tenant_quiet: "quiet w \<Longrightarrow> get_tenant_row k w = (Inr (map_of (w_tenants w) k), w)"
  by (simp add: get_tenant_row_def quiet_def gets_def)

lemma get_host_quiet: "quiet w \<Longrightarrow> get_host_row k w = (Inr (map_of (w_hosts w) k), w)"
  by (simp add: get_host_row_def quiet_def gets_def)

definition tenant_or_fresh :: "world \<Rightarrow> string \<Rightarrow> tenant" where
  "tenant_or_fresh w k = (case map_of (w_tenants w) k of None \<Rightarrow> fresh_tenant k | Some t \<Rightarrow> t)"

definition host_or_fresh :: "world \<Rightarrow> string \<Rightarrow> host" where
  "host_or_fresh w k = (case map_of (w_hosts w) k of None \<Rightarrow> fresh_host k | Some h \<Rightarrow> h)"

lemma or_fresh_simps [simp]:
  "map_of (w_tenants w) k = Some t \<Longrightarrow> tenant_or_fresh w k = t"
  "map_of (w_hosts w) k = Some h \<Longrightarrow> host_or_fresh w k = h"
  by (simp_all add: tenant_or_fresh_def host_or_fresh_def)

lemma set_tenant_quiet:
  "quiet w \<Longrightarrow> update_tenant k no_cond (set_attrs f) w = (Inr (f (tenant_or_fresh w k)),
     w\<lparr>w_tenants := AList.update k (f (tenant_or_fresh w k)) (w_tenants w)\<rparr>)"
  by (simp add: update_tenant_def tbl_update_def no_cond_def set_attrs_def quiet_def tenant_or_fresh_def Let_def)

lemma set_host_quiet:
  "quiet w \<Longrightarrow> update_host k no_cond (set_attrs f) w = (Inr (f (host_or_fresh w k)),
     w\<lparr>w_hosts := AList.update k (f (host_or_fresh w k)) (w_hosts w)\<rparr>)"
  by (simp add: update_host_def tbl_update_def no_cond_def set_attrs_def quiet_def host_or_fresh_def Let_def)

lemma update_host_quiet:
  "quiet w \<Longrightarrow> u (host_or_fresh w k) = Inr h \<Longrightarrow> update_host k no_cond u w =
     (Inr h, w\<lparr>w_hosts := AList.update k h (w_hosts w)\<rparr>)"
  by (simp add: update_host_def tbl_update_def no_cond_def quiet_def host_or_fresh_def Let_def)

lemma now_quiet: "now w = (Inr (w_now w), w)"
  by (simp add: now_def gets_def)

text \<open>What an unconditional update that returned did, whatever time it took.\<close>

lemma set_tenant_Inr:
  assumes "update_tenant k no_cond (set_attrs f) w = (Inr r, w')"
  shows "r = f (tenant_or_fresh w k) \<and> w_tenants w' = AList.update k r (w_tenants w) \<and> w_hosts w' = w_hosts w"
  using assms unfolding update_tenant_def
  by (cases rule: aws_elim)
    (auto simp: tbl_update_def no_cond_def set_attrs_def tenant_or_fresh_def Let_def)

lemma update_host_Inr:
  assumes "update_host k no_cond u w = (Inr r, w')"
  shows "u (host_or_fresh w k) = Inr r \<and> w_hosts w' = AList.update k r (w_hosts w) \<and> w_tenants w' = w_tenants w"
  using assms unfolding update_host_def
  by (cases rule: aws_elim)
    (auto simp: tbl_update_def no_cond_def host_or_fresh_def Let_def split: sum.splits)

lemma get_tenant_Inr:
  assumes "get_tenant_row k w = (Inr r, w')"
  shows "r = map_of (w_tenants w) k \<and> w_tenants w' = w_tenants w \<and> w_hosts w' = w_hosts w"
  using assms unfolding get_tenant_row_def by (cases rule: aws_elim) auto

lemma get_host_Inr:
  assumes "get_host_row k w = (Inr r, w')"
  shows "r = map_of (w_hosts w) k \<and> w_tenants w' = w_tenants w \<and> w_hosts w' = w_hosts w"
  using assms unfolding get_host_row_def by (cases rule: aws_elim) auto

text \<open>A failed or unfinished update has left the tables alone.\<close>

lemma update_tenant_Inl:
  assumes "update_tenant k c u w = (Inl e, w')"
  shows "w_tenants w' = w_tenants w \<and> w_hosts w' = w_hosts w"
  using assms unfolding update_tenant_def
  by (cases rule: aws_elim) (auto split: sum.splits prod.splits)

lemma update_host_Inl:
  assumes "update_host k c u w = (Inl e, w')"
  shows "w_tenants w' = w_tenants w \<and> w_hosts w' = w_hosts w"
  using assms unfolding update_host_def
  by (cases rule: aws_elim) (auto split: sum.splits prod.splits)

section \<open>Operations that succeed when nothing fails\<close>

text \<open>
  In a quiet world such an operation returns, stays quiet and leaves the tenants and hosts alone.
\<close>

definition calm :: "(world, 'a) io \<Rightarrow> bool" where
  "calm m = (\<forall>w. quiet w \<longrightarrow> (\<exists>x w1. m w = (Inr x, w1) \<and> quiet w1 \<and>
     w_tenants w1 = w_tenants w \<and> w_hosts w1 = w_hosts w))"

lemma calm_andThen: "calm m \<Longrightarrow> (\<And>x. calm (f x)) \<Longrightarrow> calm (andThen m f)"
  unfolding calm_def by (auto simp: andThen_def split: prod.split sum.split) (metis Pair_inject sum.inject(2) sum.simps(4))+

lemma calm_parts: "calm (ok x)" "calm now" "calm m' \<Longrightarrow> calm (whenever b m')"
  by (auto simp: calm_def ok_def now_def gets_def whenever_def)

lemma calm_handled:
  assumes "keeps (inv_rel quiet) m" "keeps (unchanged w_tenants) m" "keeps (unchanged w_hosts) m"
    "\<And>w. \<exists>x. fst (m w) = Inr x"
  shows "calm m"
  unfolding calm_def
proof (intro allI impI)
  fix w
  assume "quiet w"
  moreover obtain x where "m w = (Inr x, snd (m w))" using assms(4) [of w] by (metis prod.collapse)
  ultimately show "\<exists>x w1. m w = (Inr x, w1) \<and> quiet w1 \<and> w_tenants w1 = w_tenants w \<and> w_hosts w1 = w_hosts w"
    using assms(1-3) keeps_inv_relD [OF assms(1)] keeps_unchangedD [OF assms(2)] keeps_unchangedD [OF assms(3)]
    by blast
qed

lemma calmD: "calm m \<Longrightarrow> quiet w \<Longrightarrow> \<exists>x w1. m w = (Inr x, w1) \<and> quiet w1 \<and>
    w_tenants w1 = w_tenants w \<and> w_hosts w1 = w_hosts w"
  by (simp add: calm_def)

section \<open>Operations on one tenant\<close>

text \<open>No row of the tenant table but the one of \<open>k\<close> has changed.\<close>

definition others_same :: "string \<Rightarrow> world \<Rightarrow> world \<Rightarrow> bool" where
  "others_same k w w' = (\<forall>j. j \<noteq> k \<longrightarrow> map_of (w_tenants w') j = map_of (w_tenants w) j)"

interpretation one_tenant: host_blind "others_same k" for k
  by unfold_locales (auto simp: others_same_def)

lemma keeps_others_update [keeps_rules]: "keeps (others_same k) (update_tenant k c u)"
  unfolding update_tenant_def
  by (rule one_tenant.keeps_aws)
    (auto simp: keeps_def others_same_def tbl_update_Inr update_conv' split: sum.split)

lemma others_same_row:
  assumes "others_same k w w'" "map_of (w_tenants w') k = Some r"
  shows "map_of (w_tenants w') = (map_of (w_tenants w))(k \<mapsto> r)"
  using assms unfolding others_same_def by (intro ext) simp

section \<open>The row of one tenant\<close>

lemma tables_of: "keeps (unchanged f) m \<Longrightarrow> m w = (r, w') \<Longrightarrow> f w' = f w"
  by (auto simp: unchanged_def dest: keepsD)

definition row_is :: "tenant \<Rightarrow> tenant \<Rightarrow> world \<Rightarrow> world \<Rightarrow> bool" where
  "row_is t t' w w' = (map_of (w_tenants w') = (map_of (w_tenants w))(t_id t \<mapsto> t'))"

definition stored :: "tenant \<Rightarrow> world \<Rightarrow> bool" where
  "stored t w = (map_of (w_tenants w) (t_id t) = Some t)"

lemma same_row: "stored t w \<Longrightarrow> w_tenants w' = w_tenants w \<Longrightarrow> row_is t t w w'"
  unfolding row_is_def stored_def by (intro ext) simp

lemma stored_same: "stored t w \<Longrightarrow> w_tenants w' = w_tenants w \<Longrightarrow> stored t w'"
  by (simp add: stored_def)

text \<open>An update of the stored row, of which nothing else is said.\<close>

lemma set_row_is:
  assumes "update_tenant (t_id t) no_cond (set_attrs f) w = (Inr r, w')" "stored t w"
  shows "row_is t (f t) w w'"
proof -
  have "tenant_or_fresh w (t_id t) = t" using assms(2) by (simp add: stored_def)
  with set_tenant_Inr [OF assms(1)] show ?thesis by (auto simp: row_is_def update_conv')
qed

lemma row_is_from: "row_is t t' w1 w2 \<Longrightarrow> w_tenants w1 = w_tenants w \<Longrightarrow> w_tenants w2 = w_tenants w' \<Longrightarrow> row_is t t' w w'"
  by (simp add: row_is_def)

text \<open>The rows there were are still there.\<close>

definition rows_stay :: "world \<Rightarrow> world \<Rightarrow> bool" where
  "rows_stay w w' = (\<forall>j. map_of (w_tenants w) j \<noteq> None \<longrightarrow> map_of (w_tenants w') j \<noteq> None)"

interpretation staying_rows: host_blind rows_stay
  by unfold_locales (auto simp: rows_stay_def)

lemma keeps_rows_stay_update [keeps_rules]: "keeps rows_stay (update_tenant k c u)"
  unfolding update_tenant_def
  by (rule staying_rows.keeps_aws)
    (auto simp: keeps_def rows_stay_def tbl_update_Inr update_conv' split: sum.split)

section \<open>Sweeps over the tenant table\<close>

text \<open>A table in which every row is stored under its own id.\<close>

definition keyed :: "(string \<times> tenant) list \<Rightarrow> bool" where
  "keyed tb = (distinct (map fst tb) \<and> (\<forall>kt \<in> set tb. t_id (snd kt) = fst kt))"

lemma keyed_row: "keyed tb \<Longrightarrow> map_of tb k = Some t \<Longrightarrow> t_id t = k"
  by (auto simp: keyed_def dest!: map_of_SomeD)

lemma keyed_lookup: "keyed tb \<Longrightarrow> t \<in> snd ` set tb \<Longrightarrow> map_of tb (t_id t) = Some t"
  by (auto simp: keyed_def)

lemma keyed_distinct_ids: "keyed tb \<Longrightarrow> distinct (map t_id (filter P (map snd tb)))"
proof -
  assume k: "keyed tb"
  then have "map t_id (map snd tb) = map fst tb" by (auto simp: keyed_def)
  then have "distinct (map t_id (map snd tb))" using k unfolding keyed_def by metis
  then show ?thesis by (rule distinct_map_filter)
qed

definition keyed_world :: "world \<Rightarrow> bool" where
  "keyed_world w = keyed (w_tenants w)"

interpretation keyed_kept: host_blind "inv_rel keyed_world"
  by unfold_locales (auto simp: inv_rel_def keyed_world_def)

lemma keyed_update: "keyed tb \<Longrightarrow> t_id r = k \<Longrightarrow> keyed (AList.update k r tb)"
proof -
  assume k: "keyed tb" "t_id r = k"
  have "set (AList.update k r tb) \<subseteq> insert (k, r) (set tb)" by (induction tb) auto
  with k show ?thesis unfolding keyed_def by (auto simp: distinct_update)
qed

lemma keeps_keyed_update:
  assumes "\<And>r r'. u r = Inr r' \<Longrightarrow> t_id r' = t_id r"
  shows "keeps (inv_rel keyed_world) (update_tenant k cnd u)"
proof -
  have "keyed_world (w\<lparr>w_tenants := tb\<rparr>)"
    if w: "keyed_world w" and upd: "tbl_update fresh_tenant k cnd u (w_tenants w) = Inr (tb, r)" for w tb r
  proof -
    have "t_id r = t_id (case map_of (w_tenants w) k of None \<Rightarrow> fresh_tenant k | Some t \<Rightarrow> t)"
      using upd assms by (simp add: tbl_update_Inr)
    also have "\<dots> = k" using w keyed_row by (auto simp: keyed_world_def fresh_tenant_def split: option.split)
    finally show ?thesis using w upd keyed_update by (simp add: keyed_world_def tbl_update_Inr)
  qed
  then show ?thesis
    unfolding update_tenant_def
    by (intro keeps_rules) (auto simp: keeps_def inv_rel_def split: sum.split)
qed

lemma keeps_keyed_set [keeps_rules]:
  "(\<And>r. t_id (f r) = t_id r) \<Longrightarrow> keeps (inv_rel keyed_world) (update_tenant k cnd (set_attrs f))"
  by (rule keeps_keyed_update) (auto simp: set_attrs_def)

lemma keeps_keyed_put [keeps_rules]: "keeps (inv_rel keyed_world) (put_tenant_row t)"
  unfolding put_tenant_row_def
  by (intro keeps_rules) (simp add: keeps_def inv_rel_def keyed_world_def keyed_update)

text \<open>
  A sweep scans the table and runs one step for each selected row, which changes at most that row.
  Its laws: in a quiet world a step on a row that is still as it was scanned returns, keeps the
  relation \<open>R\<close> to the world before, and leaves the row in the relation \<open>post\<close> to what it was.
\<close>

locale row_sweep = frame R for R :: "world \<Rightarrow> world \<Rightarrow> bool" +
  fixes step :: "tenant \<Rightarrow> (world, unit) io" and post :: "tenant \<Rightarrow> tenant \<Rightarrow> bool"
  assumes step_row: "quiet w \<Longrightarrow> map_of (w_tenants w) (t_id t) = Some t \<Longrightarrow>
    \<exists>w1 t'. step t w = (Inr (), w1) \<and> quiet w1 \<and> R w w1 \<and> post t t' \<and>
      map_of (w_tenants w1) = (map_of (w_tenants w))(t_id t \<mapsto> t')"
begin

lemma sweep_rows:
  assumes "quiet w" "distinct (map t_id ts)" "\<forall>t \<in> set ts. map_of (w_tenants w) (t_id t) = Some t"
  shows "\<exists>w1. for_each ts step w = (Inr (), w1) \<and> quiet w1 \<and> R w w1 \<and>
    (\<forall>k. k \<notin> t_id ` set ts \<longrightarrow> map_of (w_tenants w1) k = map_of (w_tenants w) k) \<and>
    (\<forall>t \<in> set ts. \<exists>t'. post t t' \<and> map_of (w_tenants w1) (t_id t) = Some t')"
  using assms
proof (induction ts arbitrary: w)
  case (Cons t ts)
  obtain w1 r' where s1: "step t w = (Inr (), w1)" "quiet w1" "R w w1" "post t r'"
      "map_of (w_tenants w1) = (map_of (w_tenants w))(t_id t \<mapsto> r')"
    using step_row [OF Cons.prems(1), of t] Cons.prems(3) by auto
  have fresh: "t_id t \<notin> t_id ` set ts" using Cons.prems(2) by simp
  have rows: "\<forall>u \<in> set ts. map_of (w_tenants w1) (t_id u) = Some u"
  proof
    fix u
    assume u: "u \<in> set ts"
    then have "t_id u \<in> t_id ` set ts" by (rule imageI)
    with fresh have "t_id u \<noteq> t_id t" by metis
    with u Cons.prems(3) show "map_of (w_tenants w1) (t_id u) = Some u" unfolding s1(5) by simp
  qed
  have "distinct (map t_id ts)" using Cons.prems(2) by simp
  from Cons.IH [OF s1(2) this rows] obtain w2 where s2: "for_each ts step w1 = (Inr (), w2)"
      "quiet w2" "R w1 w2"
      "\<forall>k. k \<notin> t_id ` set ts \<longrightarrow> map_of (w_tenants w2) k = map_of (w_tenants w1) k"
      "\<forall>u \<in> set ts. \<exists>u'. post u u' \<and> map_of (w_tenants w2) (t_id u) = Some u'"
    by blast
  have t: "map_of (w_tenants w2) (t_id t) = Some r'" using s2(4) s1(5) fresh by simp
  have "for_each (t # ts) step w = (Inr (), w2)" using s1(1) s2(1) by (simp add: andThen_apply)
  moreover have "\<forall>k. k \<notin> t_id ` set (t # ts) \<longrightarrow> map_of (w_tenants w2) k = map_of (w_tenants w) k"
    using s2(4) s1(5) by simp
  moreover have "\<forall>u \<in> set (t # ts). \<exists>u'. post u u' \<and> map_of (w_tenants w2) (t_id u) = Some u'"
    using s2(5) t s1(4) by auto
  moreover have "R w w2" using s1(3) s2(3) by (rule frame_trans)
  ultimately show ?case using s2(2) by auto
qed (simp add: ok_apply frame_refl)

text \<open>The sweep over the rows that satisfy \<open>P\<close>, from the scan on.\<close>

lemma sweep:
  assumes "quiet w" "keyed (w_tenants w)"
  shows "\<exists>w1. scan_all w_tenants P w = (Inr (filter P (map snd (w_tenants w))), w) \<and>
    for_each (filter P (map snd (w_tenants w))) step w = (Inr (), w1) \<and> quiet w1 \<and> R w w1 \<and>
    (\<forall>k t. map_of (w_tenants w) k = Some t \<longrightarrow>
       (\<exists>t'. map_of (w_tenants w1) k = Some t' \<and> (if P t then post t t' else t' = t))) \<and>
    (\<forall>k. map_of (w_tenants w) k = None \<longrightarrow> map_of (w_tenants w1) k = None)"
proof -
  let ?ts = "filter P (map snd (w_tenants w))"
  have scan: "scan_all w_tenants P w = (Inr ?ts, w)" using assms(1) scan_all_quiet by (simp add: quiet_def)
  have lookup: "map_of (w_tenants w) (t_id t) = Some t" if "t \<in> set ?ts" for t
    using keyed_lookup [OF assms(2)] that by auto
  obtain w1 where s1: "for_each ?ts step w = (Inr (), w1)" "quiet w1" "R w w1"
      "\<forall>k. k \<notin> t_id ` set ?ts \<longrightarrow> map_of (w_tenants w1) k = map_of (w_tenants w) k"
      "\<forall>t \<in> set ?ts. \<exists>t'. post t t' \<and> map_of (w_tenants w1) (t_id t) = Some t'"
    using sweep_rows [OF assms(1) keyed_distinct_ids [OF assms(2), of P]] lookup by blast
  have "\<exists>t'. map_of (w_tenants w1) k = Some t' \<and> (if P t then post t t' else t' = t)"
    if k: "map_of (w_tenants w) k = Some t" for k t
  proof (cases "P t")
    case True
    then have "t \<in> set ?ts" using k by (auto dest!: map_of_SomeD intro!: image_eqI [of t snd "(k, t)"])
    with s1(5) keyed_row [OF assms(2) k] True show ?thesis by auto
  next
    case False
    have "k \<notin> t_id ` set ?ts"
    proof
      assume "k \<in> t_id ` set ?ts"
      then obtain u where "u \<in> set ?ts" "t_id u = k" by blast
      with lookup [of u] k False show False by auto
    qed
    with s1(4) k False show ?thesis by simp
  qed
  moreover have "map_of (w_tenants w1) k = None" if k: "map_of (w_tenants w) k = None" for k
  proof -
    have "k \<notin> t_id ` set ?ts" using k lookup by force
    with s1(4) k show ?thesis by simp
  qed
  ultimately show ?thesis using scan s1 by blast
qed

end

end
