(* ===== verification/Ssm.thy ===== *)
theory Ssm
  imports World
begin

text \<open>
  SSM Run Command (deploy/lambda/common/ssm.py): \<open>send\<close> submits and returns the command id,
  \<open>run\<close> submits and blocks, \<open>poll\<close> checks once, \<open>wait\<close> blocks up to a deadline. What
  the service answers to each status request is the next entry of \<open>w_replies\<close>; when the list is
  used up, every further request answers that the command is still running.
\<close>

section \<open>The service\<close>

definition home_wrap :: "string \<Rightarrow> string" where
  "home_wrap cmd = ''export HOME=/home/ubuntu && cd /home/ubuntu && '' @ cmd"

definition send_command :: "string \<Rightarrow> string \<Rightarrow> int \<Rightarrow> (world, string) io" where
  "send_command inst cmd timeout = aws (\<lambda>w. let i = ''cmd-'' @ show_nat (w_serial w) in
     (Inr i, w\<lparr>w_serial := Suc (w_serial w),
        w_ssm := w_ssm w @ [\<lparr>s_id = i, s_instances = [inst], s_command = home_wrap cmd,
                             s_timeout = timeout\<rparr>]\<rparr>))"

text \<open>\<open>ssm.send_command\<close> as it is: the service takes at most 50 instances in one command.\<close>

definition raw_send_command :: "string list \<Rightarrow> string \<Rightarrow> int \<Rightarrow> (world, string) io" where
  "raw_send_command insts cmd timeout = aws (\<lambda>w. if length insts > 50
     then (Inl (ClientError ''ValidationException'' ''Member must have length less than or equal to 50''), w)
     else let i = ''cmd-'' @ show_nat (w_serial w) in
       (Inr i, w\<lparr>w_serial := Suc (w_serial w),
          w_ssm := w_ssm w @ [\<lparr>s_id = i, s_instances = insts, s_command = cmd, s_timeout = timeout\<rparr>]\<rparr>))"

definition not_registered :: exn where
  "not_registered = ClientError ''InvocationDoesNotExist'' ''''"

definition is_not_registered :: "exn \<Rightarrow> bool" where
  "is_not_registered e = (error_code e = ''InvocationDoesNotExist'')"

text \<open>The answer is the status with the standard output and the standard error.\<close>

definition next_reply :: "(world, string \<times> string \<times> string) io" where
  "next_reply = (\<lambda>w. case w_replies w of
       [] \<Rightarrow> (Inr (''InProgress'', '''', ''''), w)
     | NotRegistered # rs \<Rightarrow> (Inl not_registered, w\<lparr>w_replies := rs\<rparr>)
     | Reply st out err # rs \<Rightarrow> (Inr (st, out, err), w\<lparr>w_replies := rs\<rparr>))"

definition get_invocation :: "string \<Rightarrow> string \<Rightarrow> (world, string \<times> string \<times> string) io" where
  "get_invocation cmd_id inst = aws next_reply"

section \<open>The operations\<close>

definition send :: "string \<Rightarrow> string \<Rightarrow> int \<Rightarrow> (world, string option) io" where
  "send inst cmd timeout = try_except
     (andThen (send_command inst cmd timeout) (\<lambda>i. ok (Some i))) (\<lambda>_. ok None)"

definition failed_statuses :: "string list" where
  "failed_statuses = [''Failed'', ''TimedOut'', ''Cancelled'']"

primrec run_poll :: "nat \<Rightarrow> string \<Rightarrow> string \<Rightarrow> int \<Rightarrow> (world, bool \<times> string) io" where
  "run_poll 0 cmd_id inst poll_sec = ok (False, ''timeout'')"
| "run_poll (Suc n) cmd_id inst poll_sec =
     andThen (try_except (andThen (get_invocation cmd_id inst) (\<lambda>r. ok (Some r)))
         (\<lambda>e. if is_not_registered e then ok None else raise e)) (\<lambda>r. case r of
       None \<Rightarrow> andThen (sleep poll_sec) (\<lambda>_. run_poll n cmd_id inst poll_sec)
     | Some (status, out, err) \<Rightarrow>
         if status = ''Success'' then ok (True, out)
         else if status \<in> set failed_statuses then ok (False, err)
         else andThen (sleep poll_sec) (\<lambda>_. run_poll n cmd_id inst poll_sec))"

definition run :: "string \<Rightarrow> string \<Rightarrow> int \<Rightarrow> int \<Rightarrow> int \<Rightarrow> (world, bool \<times> string) io" where
  "run inst cmd timeout initial_sleep poll_sec = try_except
     (andThen (send_command inst cmd timeout) (\<lambda>cmd_id.
      andThen (sleep initial_sleep) (\<lambda>_.
      run_poll (nat (max 1 (timeout div 2))) cmd_id inst poll_sec)))
     (\<lambda>e. ok (False, exn_str e))"

definition poll :: "string \<Rightarrow> string \<Rightarrow> (world, bool \<times> bool) io" where
  "poll cmd_id inst = try_except
     (andThen (get_invocation cmd_id inst) (\<lambda>(status, out, err).
        if status = ''Success'' then ok (True, True)
        else if status \<in> set failed_statuses then ok (True, False)
        else ok (False, False)))
     (\<lambda>e. ok (False, False))"

text \<open>
  The loop of \<open>wait\<close>: each round sleeps for the polling interval, so the clock passes the
  deadline after finitely many rounds. All callers poll every three or every two seconds; the
  interval is a positive number (\<open>num\<close>), since with an interval of zero the loop need not end.
\<close>

abbreviation (input) every_2s :: num where
  "every_2s \<equiv> num.Bit0 num.One"

abbreviation (input) every_3s :: num where
  "every_3s \<equiv> num.Bit1 num.One"

lemma aws_now_mono:
  assumes "\<And>v. w_now v \<le> w_now (snd (m v))"
  shows "w_now w \<le> w_now (snd (aws m w))"
proof (cases "w_oracle w")
  case (Cons a fs)
  obtain d f where a: "a = (d, f)" by (cases a)
  show ?thesis
    using assms [of "w\<lparr>w_now := w_now w + int d, w_oracle := fs\<rparr>"] Cons a
    by (auto simp: aws_def Let_def split: option.splits)
qed (simp add: assms)

lemma get_invocation_now: "w_now w \<le> w_now (snd (get_invocation c i w))"
  unfolding get_invocation_def next_reply_def
  by (rule aws_now_mono) (simp split: list.splits ssm_reply.splits)

lemma wait_round:
  assumes "w_now w < deadline"
  shows "nat (deadline - w_now (snd (get_invocation c i (snd (sleep (numeral p) w)))))
    < nat (deadline - w_now w)"
proof -
  have "w_now (snd (sleep (numeral p) w)) = w_now w + numeral p * 1000000" "(0::int) < numeral p"
    by (simp_all add: sleep_def)
  with assms get_invocation_now [of "snd (sleep (numeral p) w)" c i] show ?thesis by linarith
qed

function wait_loop ::
  "num \<Rightarrow> string \<Rightarrow> string \<Rightarrow> int \<Rightarrow> int \<Rightarrow> string \<Rightarrow> world \<Rightarrow> (exn + bool \<times> string option) \<times> world" where
  "wait_loop p cmd_id inst timeout_sec deadline last_status w =
     (if w_now w < deadline then
        (let w1 = snd (sleep (numeral p) w); w2 = snd (get_invocation cmd_id inst w1) in
         (case fst (get_invocation cmd_id inst w1) of
            Inl e \<Rightarrow> if is_not_registered e
                     then wait_loop p cmd_id inst timeout_sec deadline last_status w2
                     else (Inr (False, Some (''get_command_invocation: '' @ exn_str e)), w2)
          | Inr (status, out, err) \<Rightarrow>
              if status = ''Success'' then (Inr (True, None), w2)
              else if status \<in> set failed_statuses
              then (Inr (False, Some (''SSM '' @ status @ '': '' @ take 500 err)), w2)
              else wait_loop p cmd_id inst timeout_sec deadline status w2))
      else (Inr (False, Some (''SSM timeout after '' @ show_int timeout_sec @
              ''s (last_status='' @ last_status @ '')'')), w))"
  by pat_completeness auto
termination
  by (relation "measure (\<lambda>(p, c, i, t, deadline, l, w). nat (deadline - w_now w))")
    (simp_all only: wf_measure in_measure prod.case wait_round)

declare wait_loop.simps [simp del]

definition wait :: "string \<Rightarrow> string \<Rightarrow> int \<Rightarrow> num \<Rightarrow> (world, bool \<times> string option) io" where
  "wait cmd_id inst timeout_sec p = (\<lambda>w.
     wait_loop p cmd_id inst timeout_sec (w_now w + seconds timeout_sec) ''Pending'' w)"

section \<open>Frames\<close>

context aws_frame
begin

lemma keeps_get_invocation:
  "(\<And>w rs. suffix rs (w_replies w) \<Longrightarrow> R w (w\<lparr>w_replies := rs\<rparr>)) \<Longrightarrow> keeps R (get_invocation c i)"
  unfolding get_invocation_def next_reply_def
  by (rule keeps_aws) (simp add: keeps_def frame_refl suffix_ConsI split: list.split ssm_reply.split)

end

text \<open>
  What Run Command may change: the clock, the oracles and its own queue of commands. Sending a
  command reads no answer.
\<close>

locale ssm_sender = aws_frame +
  assumes frame_ssm: "R w (w\<lparr>w_serial := n, w_ssm := cs\<rparr>)"
begin

lemma keeps_raw_send_command [keeps_rules]: "keeps R (raw_send_command is cmd t)"
  unfolding raw_send_command_def by (rule keeps_aws) (simp add: keeps_def Let_def frame_ssm frame_refl)

lemma keeps_send_command [keeps_rules]: "keeps R (send_command inst cmd t)"
  unfolding send_command_def by (rule keeps_aws) (simp add: keeps_def Let_def frame_ssm)

lemma keeps_send [keeps_rules]: "keeps R (send inst cmd t)"
  unfolding send_def by (intro keeps_rules)

end

locale ssm_blind = ssm_sender +
  assumes frame_replies: "suffix rs (w_replies w) \<Longrightarrow> R w (w\<lparr>w_replies := rs\<rparr>)"
begin

lemma keeps_get_invocation' [keeps_rules]: "keeps R (get_invocation c i)"
  by (rule keeps_get_invocation) (rule frame_replies)

lemma keeps_run_poll [keeps_rules]: "keeps R (run_poll n c i p)"
proof (induction n)
  case (Suc n)
  show ?case unfolding run_poll.simps by (intro keeps_rules Suc keeps_if)
qed (simp add: keeps_ok)

lemma keeps_run [keeps_rules]: "keeps R (run inst cmd t a b)"
  unfolding run_def by (intro keeps_rules)

lemma keeps_poll [keeps_rules]: "keeps R (poll c i)"
  unfolding poll_def by (intro keeps_rules keeps_if)

lemma keeps_wait_loop: "R w (snd (wait_loop p c i t d l w))"
proof (induction p c i t d l w rule: wait_loop.induct)
  case (1 p c i t d l w)
  let ?w1 = "snd (sleep (numeral p) w)" and ?w2 = "snd (get_invocation c i (snd (sleep (numeral p) w)))"
  have step: "R w ?w2"
    using keeps_sleep keeps_get_invocation' frame_trans unfolding keeps_def by blast
  show ?case
  proof (cases "w_now w < d")
    case False
    then show ?thesis by (subst wait_loop.simps) (simp add: frame_refl)
  next
    case True
    from "1.IH" [OF True refl refl] step show ?thesis
      by (subst wait_loop.simps)
        (auto simp: True Let_def intro: frame_trans split: sum.splits prod.splits)
  qed
qed

lemma keeps_wait [keeps_rules]: "keeps R (wait c i t p)"
  unfolding wait_def keeps_def using keeps_wait_loop by blast

end

interpretation staying_quiet: ssm_blind "inv_rel quiet"
  by unfold_locales (auto simp: inv_rel_def quiet_def)

interpretation keyed_kept: ssm_blind "inv_rel keyed_world"
  by unfold_locales (simp_all add: inv_rel_def keyed_world_def)

interpretation tenants_same: ssm_blind "unchanged w_tenants"
  by unfold_locales (simp_all add: unchanged_def)

interpretation hosts_same: ssm_blind "unchanged w_hosts"
  by unfold_locales (simp_all add: unchanged_def)

interpretation replies_same: ssm_sender "unchanged w_replies"
  by unfold_locales (simp_all add: unchanged_def)

interpretation queue_same: ssm_blind "unchanged w_queue"
  by unfold_locales (simp_all add: unchanged_def)

interpretation http_same: ssm_blind "unchanged w_http"
  by unfold_locales (simp_all add: unchanged_def)

interpretation rules_same: ssm_blind "unchanged w_rules"
  by unfold_locales (simp_all add: unchanged_def)

interpretation one_tenant: ssm_blind "others_same k" for k
  by unfold_locales (simp_all add: others_same_def)

interpretation staying_rows: ssm_blind rows_stay
  by unfold_locales (simp_all add: rows_stay_def)

lemma calm_run: "calm (run i cmd t a b)"
proof (rule calm_handled)
  show "\<exists>x. fst (run i cmd t a b w) = Inr x" for w
    unfolding run_def by (rule try_except_total) (metis io_fst_snd(1))
qed (intro keeps_rules)+

lemma run_success_quiet:
  assumes "quiet w" "w_replies w = Reply ''Success'' out err # rs"
  shows "\<exists>w1. run i cmd t a b w = (Inr (True, out), w1) \<and> quiet w1 \<and> w_tenants w1 = w_tenants w \<and> w_hosts w1 = w_hosts w"
proof -
  obtain n where n: "nat (max 1 (t div 2)) = Suc n" by (cases "nat (max 1 (t div 2))") auto
  have "fst (run i cmd t a b w) = Inr (True, out)"
    using assms unfolding run_def n
    by (simp add: io_simps send_command_def sleep_def get_invocation_def next_reply_def quiet_def Let_def)
  moreover obtain y w1 where "run i cmd t a b w = (Inr y, w1)" "quiet w1" "w_tenants w1 = w_tenants w" "w_hosts w1 = w_hosts w"
    using calmD [OF calm_run assms(1)] by blast
  ultimately show ?thesis by auto
qed

lemma calm_raw_send: "length is \<le> 50 \<Longrightarrow> calm (raw_send_command is cmd t)"
  by (simp add: calm_def raw_send_command_def quiet_def Let_def)

section \<open>What an answer means\<close>

definition decisive :: "ssm_reply \<Rightarrow> bool" where
  "decisive r = (case r of NotRegistered \<Rightarrow> False
     | Reply st out err \<Rightarrow> st = ''Success'' \<or> st \<in> set failed_statuses)"

text \<open>Between \<open>w\<close> and \<open>w'\<close> the replies \<open>pre\<close> were read.\<close>

definition consumed :: "ssm_reply list \<Rightarrow> world \<Rightarrow> world \<Rightarrow> bool" where
  "consumed pre w w' = (w_replies w = pre @ w_replies w')"

lemma consumed_trans: "consumed a u v \<Longrightarrow> consumed b v w \<Longrightarrow> consumed (a @ b) u w"
  by (simp add: consumed_def)

lemma get_invocation_Inr:
  assumes "get_invocation c i w = (Inr (st, out, err), w')"
  shows "(consumed [] w w' \<and> \<not> decisive (Reply st out err)) \<or> consumed [Reply st out err] w w'"
  using assms unfolding get_invocation_def
  by (cases rule: aws_elim)
    (auto simp: next_reply_def consumed_def decisive_def failed_statuses_def
      split: list.splits ssm_reply.splits)

lemma get_invocation_Inl:
  assumes "get_invocation c i w = (Inl e, w')"
  shows "consumed [] w w' \<or> consumed [NotRegistered] w w'"
  using assms unfolding get_invocation_def
  by (cases rule: aws_elim)
    (auto simp: next_reply_def consumed_def split: list.splits ssm_reply.splits)

definition undecided :: "world \<Rightarrow> world \<Rightarrow> bool" where
  "undecided w w' = (\<exists>pre. consumed pre w w' \<and> (\<forall>r \<in> set pre. \<not> decisive r))"

lemma undecided_refl: "w_replies w' = w_replies w \<Longrightarrow> undecided w w'"
  by (auto simp: undecided_def consumed_def)

lemma undecided_trans: "undecided u v \<Longrightarrow> undecided v w \<Longrightarrow> undecided u w"
  unfolding undecided_def by (metis consumed_trans Un_iff set_append)

lemma undecided_Inl: "get_invocation c i w = (Inl e, w') \<Longrightarrow> undecided w w'"
  using get_invocation_Inl [of c i w e w'] by (auto simp: undecided_def decisive_def)

lemma undecided_Inr:
  "get_invocation c i w = (Inr (st, out, err), w') \<Longrightarrow> \<not> decisive (Reply st out err) \<Longrightarrow>
   undecided w w'"
  using get_invocation_Inr [of c i w st out err w'] by (auto simp: undecided_def)

text \<open>The first decisive reply after \<open>w\<close> was \<open>r\<close>, and it was the last one read.\<close>

definition decided_by :: "ssm_reply \<Rightarrow> world \<Rightarrow> world \<Rightarrow> bool" where
  "decided_by r w w' = (\<exists>pre. consumed (pre @ [r]) w w' \<and> (\<forall>q \<in> set pre. \<not> decisive q) \<and> decisive r)"

lemma decided_by_replies:
  "decided_by r w v \<Longrightarrow> w_replies v' = w_replies v \<Longrightarrow> w_replies w' = w_replies w \<Longrightarrow> decided_by r w' v'"
  by (simp add: decided_by_def consumed_def)

lemma decided_Inr:
  "get_invocation c i w = (Inr (st, out, err), w') \<Longrightarrow> decisive (Reply st out err) \<Longrightarrow>
   decided_by (Reply st out err) w w'"
  using get_invocation_Inr [of c i w st out err w'] unfolding decided_by_def
  by (intro exI [of _ "[]"]) simp

lemma decided_later:
  assumes "undecided u v" "decided_by r v w"
  shows "decided_by r u w"
proof -
  from assms obtain a b where "consumed a u v" "\<forall>q \<in> set a. \<not> decisive q"
    "consumed (b @ [r]) v w" "\<forall>q \<in> set b. \<not> decisive q" "decisive r"
    unfolding undecided_def decided_by_def by blast
  then show ?thesis unfolding decided_by_def
    by (intro exI [of _ "a @ b"]) (auto simp: consumed_def)
qed

lemma undecided_sleep: "undecided w (snd (sleep n w))"
  by (simp add: undecided_refl sleep_def)

lemma run_poll_decides:
  "run_poll n c i p w = (Inr (b, out), w') \<Longrightarrow> b \<Longrightarrow> \<exists>err. decided_by (Reply ''Success'' out err) w w'"
proof (induction n arbitrary: w)
  case 0
  then show ?case by (simp add: ok_apply)
next
  case (Suc n)
  obtain r w1 where g: "get_invocation c i w = (r, w1)" by fastforce
  have more: ?case if u: "undecided w w1"
    and k: "run_poll n c i p (snd (sleep p w1)) = (Inr (b, out), w')"
    using Suc.IH [OF k Suc.prems(2)] decided_later undecided_trans u undecided_sleep by blast
  show ?case
  proof (cases r)
    case (Inl e)
    with g Suc.prems undecided_Inl [of c i w e w1] more show ?thesis
      by (auto simp: io_simps sleep_def split: if_splits)
  next
    case (Inr x)
    obtain st o' e where x: "x = (st, o', e)" by (cases x)
    show ?thesis
    proof (cases "decisive (Reply st o' e)")
      case True
      with Suc.prems g Inr x have "st = ''Success''" "o' = out" "w1 = w'"
        by (auto simp: io_simps decisive_def split: if_splits)
      with decided_Inr [of c i w st o' e w1] g Inr x True show ?thesis by auto
    next
      case False
      then have "st \<noteq> ''Success''" "st \<notin> set failed_statuses" by (auto simp: decisive_def)
      with Suc.prems g Inr x have "run_poll n c i p (snd (sleep p w1)) = (Inr (b, out), w')"
        by (auto simp: io_simps sleep_def)
      with more undecided_Inr g Inr x False show ?thesis by blast
    qed
  qed
qed

lemma wait_loop_decides:
  "wait_loop p c i t d l w = (Inr (b, e), w') \<Longrightarrow> b \<Longrightarrow>
   \<exists>out err. decided_by (Reply ''Success'' out err) w w'"
proof (induction p c i t d l w rule: wait_loop.induct)
  case (1 p c i t d l w)
  let ?w1 = "snd (sleep (numeral p) w)"
  obtain r w2 where g: "get_invocation c i ?w1 = (r, w2)" by fastforce
  have now: "w_now w < d"
    using "1.prems" by (subst (asm) wait_loop.simps) (auto split: if_splits)
  have later: "undecided w w2 \<Longrightarrow> decided_by q w2 w' \<Longrightarrow> decided_by q w w'" for q
    by (rule decided_later)
  show ?case
  proof (cases r)
    case (Inl x)
    then have "undecided w w2" using undecided_trans undecided_sleep undecided_Inl g by blast
    moreover have "is_not_registered x" "wait_loop p c i t d l w2 = (Inr (b, e), w')"
      using "1.prems" now g Inl by (subst (asm) wait_loop.simps; auto simp: Let_def split: if_splits)+
    ultimately show ?thesis using "1.IH"(1) [OF now refl refl] g Inl "1.prems"(2) later by fastforce
  next
    case (Inr x)
    obtain st out err where x: "x = (st, out, err)" by (cases x)
    show ?thesis
    proof (cases "decisive (Reply st out err)")
      case True
      with "1.prems" now g Inr x have "st = ''Success''" "w2 = w'"
        by (subst (asm) wait_loop.simps; auto simp: Let_def decisive_def split: if_splits)+
      with True g Inr x decided_Inr decided_later undecided_sleep show ?thesis by blast
    next
      case False
      then have st: "st \<noteq> ''Success''" "st \<notin> set failed_statuses" by (auto simp: decisive_def)
      have "undecided w w2" using undecided_trans undecided_sleep undecided_Inr g Inr x False by blast
      moreover have "wait_loop p c i t d st w2 = (Inr (b, e), w')"
        using "1.prems" now g Inr x st by (subst (asm) wait_loop.simps; simp add: Let_def)
      ultimately show ?thesis
        using "1.IH"(2) [OF now refl refl] g Inr x st "1.prems"(2) later by fastforce
    qed
  qed
qed

lemma wait_loop_success_none:
  "wait_loop p c i t d l w = (Inr (b, e), w') \<Longrightarrow> b \<Longrightarrow> e = None"
proof (induction p c i t d l w rule: wait_loop.induct)
  case (1 p c i t d l w)
  have now: "w_now w < d"
    using "1.prems" by (subst (asm) wait_loop.simps) (auto split: if_splits)
  from "1.IH" [OF now refl refl] "1.prems" show ?case
    by (subst (asm) wait_loop.simps) (auto simp: now Let_def split: sum.splits prod.splits if_splits)
qed

lemma wait_loop_time:
  "w_oracle w = [] \<Longrightarrow> w_now w < d \<Longrightarrow>
   w_now (snd (wait_loop p c i t d l w)) < d + seconds (numeral p)"
proof (induction p c i t d l w rule: wait_loop.induct)
  case (1 p c i t d l w)
  let ?w1 = "snd (sleep (numeral p) w)" and ?w2 = "snd (get_invocation c i (snd (sleep (numeral p) w)))"
  have w2: "w_oracle ?w2 = []" "w_now ?w2 < d + seconds (numeral p)"
    using "1.prems" by (simp_all add: get_invocation_def next_reply_def sleep_def seconds_def
        split: list.split ssm_reply.split)
  have over: "w_now (snd (wait_loop p c i t d l' ?w2)) < d + seconds (numeral p)"
    if "\<not> w_now ?w2 < d" for l'
    using that w2 by (subst wait_loop.simps) simp
  have more: "w_now (snd (wait_loop p c i t d l ?w2)) < d + seconds (numeral p)"
    if "fst (get_invocation c i ?w1) = Inl x" "is_not_registered x" for x
    using "1.IH"(1) [OF "1.prems"(2) refl refl that] w2 over by (cases "w_now ?w2 < d") auto
  have more': "w_now (snd (wait_loop p c i t d st ?w2)) < d + seconds (numeral p)"
    if "fst (get_invocation c i ?w1) = Inr (st, out, err)" "st \<noteq> ''Success''"
      "st \<notin> set failed_statuses" for st out err
    using "1.IH"(2) [OF "1.prems"(2) refl refl that(1) refl refl that(2,3)] w2 over
    by (cases "w_now ?w2 < d") auto
  show ?case
    using w2 more more' "1.prems"(2)
    by (subst wait_loop.simps) (auto simp: Let_def split: sum.splits prod.splits)
qed

lemma run_decides:
  assumes "run inst cmd t a b w = (Inr (True, out), w')"
  shows "\<exists>err. decided_by (Reply ''Success'' out err) w w'"
proof -
  obtain i w1 where s: "send_command inst cmd t w = (Inr i, w1)"
    and r: "run_poll (nat (max 1 (t div 2))) i inst b (snd (sleep a w1)) = (Inr (True, out), w')"
    using assms unfolding run_def try_except_Inr andThen_Inr sleep_def
    by (auto simp: sleep_def)
  have "w_replies w1 = w_replies w"
    using s unfolding send_command_def by (cases rule: aws_elim) (auto simp: Let_def)
  then have "undecided w (snd (sleep a w1))" by (simp add: undecided_refl sleep_def)
  with run_poll_decides [OF r] decided_later show ?thesis by blast
qed

section \<open>Properties\<close>

text \<open>
  A blocking command is reported successful only on the service's word: when \<open>run\<close> returns
  true, the last status it read was Success, the output returned is that answer's output, and no
  earlier answer had been a success or a failure.
\<close>

theorem run_success_truthful:
  assumes "run inst cmd t a b w = (Inr (True, out), w')"
  shows "\<exists>err. decided_by (Reply ''Success'' out err) w w'"
  using run_decides [OF assms] .

theorem run_success_truthful_witness:
  "\<exists>err. decided_by (Reply ''Success'' ''ok'' err)
     (world0\<lparr>w_replies := [NotRegistered, Reply ''Success'' ''ok'' '''']\<rparr>)
     (snd (run ''i-1'' ''true'' 30 3 2 (world0\<lparr>w_replies := [NotRegistered, Reply ''Success'' ''ok'' '''']\<rparr>)))"
proof (rule run_success_truthful)
  show "run ''i-1'' ''true'' 30 3 2 (world0\<lparr>w_replies := [NotRegistered, Reply ''Success'' ''ok'' '''']\<rparr>) =
    (Inr (True, ''ok''),
     snd (run ''i-1'' ''true'' 30 3 2 (world0\<lparr>w_replies := [NotRegistered, Reply ''Success'' ''ok'' '''']\<rparr>)))"
    by code_simp
qed



end
