(* ===== verification/Validate.thy ===== *)
theory Validate
  imports World
begin

text \<open>
  The pure request validators and parsers of deploy/lambda/api/domains/common.py: tenant names,
  tags and tag filters, time-to-live, run schedules; and the response constructor. A validator
  returns \<open>None\<close> for a valid value and the error text otherwise; a parser returns the error text
  or the parsed fields, and raises where the code raises.
\<close>

section \<open>Responses\<close>

record resp =
  statusCode :: int
  body :: json

definition mk_resp :: "int \<Rightarrow> json \<Rightarrow> resp" where
  "mk_resp code b = \<lparr>statusCode = code, body = b\<rparr>"

definition err_resp :: "int \<Rightarrow> string \<Rightarrow> resp" where
  "err_resp code msg = mk_resp code (JObj [(''error'', JStr msg)])"

lemma resp_simps [simp]:
  "statusCode (mk_resp c b) = c" "body (mk_resp c b) = b"
  "statusCode (err_resp c m) = c"
  by (simp_all add: mk_resp_def err_resp_def)

text \<open>The text Python prints for a value inside an error message (floats are not spelled out).\<close>

definition quoted :: "string \<Rightarrow> string" where
  "quoted s = [CHR 0x27] @ s @ [CHR 0x27]"

fun json_repr :: "json \<Rightarrow> string" where
  "json_repr JNull = ''None''"
| "json_repr (JBool b) = (if b then ''True'' else ''False'')"
| "json_repr (JInt i) = show_int i"
| "json_repr (JFloat x) = ''<float>''"
| "json_repr (JInf n) = (if n then ''-inf'' else ''inf'')"
| "json_repr JNaN = ''nan''"
| "json_repr (JStr s) = quoted s"
| "json_repr (JList xs) = ''['' @ join '', '' (map json_repr xs) @ '']''"
| "json_repr (JObj kvs) = ''{'' @ join '', '' (map (\<lambda>kv. quoted (fst kv) @ '': '' @ json_repr (snd kv)) kvs) @ ''}''"

definition json_str :: "json \<Rightarrow> string" where
  "json_str v = (case v of JStr s \<Rightarrow> s | _ \<Rightarrow> json_repr v)"

section \<open>Names\<close>

definition label_end :: "char \<Rightarrow> bool" where
  "label_end c = (is_lower c \<or> is_digit c)"

definition label_mid :: "char \<Rightarrow> bool" where
  "label_mid c = (label_end c \<or> c = CHR ''-'')"

text \<open>The strings the expression \<open>[a-z0-9]([a-z0-9-]{0,k}[a-z0-9])?\<close> describes.\<close>

definition is_label :: "nat \<Rightarrow> string \<Rightarrow> bool" where
  "is_label k s = (case s of
       [] \<Rightarrow> False
     | c # r \<Rightarrow> label_end c \<and>
         (r = [] \<or> (label_end (last r) \<and> list_all label_mid (butlast r) \<and> length (butlast r) \<le> k)))"

text \<open>
  \<open>re.match\<close> of that expression between \<open>^\<close> and \<open>$\<close>: \<open>$\<close> also matches just before a newline
  that ends the string.
\<close>

definition re_label :: "nat \<Rightarrow> string \<Rightarrow> bool" where
  "re_label k s = (is_label k s \<or> (s \<noteq> [] \<and> last s = newline \<and> is_label k (butlast s)))"

definition name_re :: "string \<Rightarrow> bool" where
  "name_re s = re_label 30 s"

definition skill_name_re :: "string \<Rightarrow> bool" where
  "skill_name_re s = re_label 62 s"

definition validate_name :: "json \<Rightarrow> string option" where
  "validate_name v = (
     if \<not> is_str v \<or> the_str v = [] then Some ''name is required''
     else let name = the_str v in
       if length name > 32 then Some ''name exceeds 32 characters''
       else if \<not> name_re name
       then Some (''name must match ^[a-z0-9]([a-z0-9-]{0,30}[a-z0-9])?$ '' @
                  ''(lowercase letters, digits, hyphens; cannot start/end with hyphen)'')
       else None)"

section \<open>Tags\<close>

definition tag_max_key_len :: nat where "tag_max_key_len = 50"
definition tag_max_value_len :: nat where "tag_max_value_len = 100"
definition tag_max_count :: nat where "tag_max_count = 20"

fun validate_tag_items :: "(string \<times> json) list \<Rightarrow> string option" where
  "validate_tag_items [] = None"
| "validate_tag_items ((k, v) # kvs) = (
     if k = [] then Some ''tag key must be a non-empty string''
     else if \<not> is_str v then Some (''tag value for '' @ quoted k @ '' must be a string'')
     else if CHR '':'' \<in> set k
     then Some (''tag key '' @ quoted k @ '' must not contain '' @ quoted '':'' @ '' (reserved for query syntax)'')
     else if CHR '':'' \<in> set (the_str v)
     then Some (''tag value '' @ quoted (the_str v) @ '' must not contain '' @ quoted '':'' @ '' (reserved for query syntax)'')
     else if length k > tag_max_key_len
     then Some (''tag key '' @ quoted k @ '' exceeds '' @ show_nat tag_max_key_len @ '' characters'')
     else if length (the_str v) > tag_max_value_len
     then Some (''tag value for '' @ quoted k @ '' exceeds '' @ show_nat tag_max_value_len @ '' characters'')
     else validate_tag_items kvs)"

definition validate_tags :: "json \<Rightarrow> string option" where
  "validate_tags tags = (case tags of
       JNull \<Rightarrow> None
     | JObj kvs \<Rightarrow>
         if length kvs > tag_max_count
         then Some (''too many tags (max '' @ show_nat tag_max_count @ '')'')
         else validate_tag_items kvs
     | _ \<Rightarrow> Some ''tags must be an object (key/value map)'')"

text \<open>
  A filter \<open>?tag=k:v\<close>; a malformed one is kept as \<open>None\<close>, which matches no item. The
  multi-value parameter wins over the single-value one.
\<close>

definition parse_filter :: "string \<Rightarrow> (string \<times> string) option" where
  "parse_filter r = (if r = [] \<or> CHR '':'' \<notin> set r then None else Some (split1 (CHR '':'') r))"

definition collect_tag_filters ::
  "(string \<times> string) list \<Rightarrow> (string \<times> string list) list \<Rightarrow> (string \<times> string) option list" where
  "collect_tag_filters query_params multi_query_params =
     (let raw = (case map_of multi_query_params ''tag'' of
          Some vs \<Rightarrow> vs
        | None \<Rightarrow> (case map_of query_params ''tag'' of Some v \<Rightarrow> [v] | None \<Rightarrow> []))
      in map parse_filter raw)"

definition item_tags :: "tenant \<Rightarrow> (string \<times> string) list" where
  "item_tags t = (case t_tags t of None \<Rightarrow> [] | Some ts \<Rightarrow> ts)"

fun matches_all_tags :: "tenant \<Rightarrow> (string \<times> string) option list \<Rightarrow> bool" where
  "matches_all_tags t [] = True"
| "matches_all_tags t (None # fs) = False"
| "matches_all_tags t (Some (k, v) # fs) =
     (if map_of (item_tags t) k \<noteq> Some v then False else matches_all_tags t fs)"

section \<open>Time-to-live\<close>

definition ttl_max_hours :: int where "ttl_max_hours = 8760"

type_synonym ttl = "int \<times> string \<times> stamp"

definition hours :: "int \<Rightarrow> int" where
  "hours n = seconds (3600 * n)"

definition ttl_not_positive :: string where
  "ttl_not_positive = ''ttl_hours must be a positive integer''"

definition is_bool :: "json \<Rightarrow> bool" where
  "is_bool v = (case v of JBool b \<Rightarrow> True | _ \<Rightarrow> False)"

text \<open>
  \<open>now_t\<close> is the instant the code reads from the clock. The outer sum is the exception of an
  uncaught error (\<open>int\<close> of an infinite float), the inner one the error text.
\<close>

definition parse_ttl :: "int \<Rightarrow> json \<Rightarrow> json \<Rightarrow> exn + (string + ttl option)" where
  "parse_ttl now_t ttl_hours_raw on_expiry_raw = (
     if ttl_hours_raw = JNull then
       (if on_expiry_raw \<noteq> JNull then Inr (Inl ''on_expiry requires ttl_hours'') else Inr (Inr None))
     else if is_bool ttl_hours_raw then Inr (Inl ttl_not_positive)
     else (case py_int ttl_hours_raw of
         Inl (PyError TypeError m) \<Rightarrow> Inr (Inl ttl_not_positive)
       | Inl (PyError ValueError m) \<Rightarrow> Inr (Inl ttl_not_positive)
       | Inl e \<Rightarrow> Inl e
       | Inr h \<Rightarrow>
           if h \<le> 0 then Inr (Inl ttl_not_positive)
           else if h > ttl_max_hours
           then Inr (Inl (''ttl_hours must be <= '' @ show_int ttl_max_hours @ '' (1 year)''))
           else let on_expiry = (if truthy on_expiry_raw then on_expiry_raw else JStr ''stop'') in
             if on_expiry \<noteq> JStr ''stop'' \<and> on_expiry \<noteq> JStr ''delete''
             then Inr (Inl (''on_expiry must be one of ['' @ quoted ''delete'' @ '', '' @ quoted ''stop'' @
                            '']; got '' @ json_repr on_expiry))
             else Inr (Inr (Some (h, the_str on_expiry, At (now_t + hours h))))))"

section \<open>Schedules\<close>

definition sched_days :: "string list" where
  "sched_days = [''Mon'', ''Tue'', ''Wed'', ''Thu'', ''Fri'', ''Sat'', ''Sun'']"

text \<open>\<open>^\d{2}:\d{2}$\<close>, and the strict parse with \<open>strptime(s, "%H:%M")\<close>.\<close>

fun hhmm_shape :: "string \<Rightarrow> bool" where
  "hhmm_shape [a, b, c, d, e] = (is_digit a \<and> is_digit b \<and> c = CHR '':'' \<and> is_digit d \<and> is_digit e)"
| "hhmm_shape _ = False"

definition hhmm_re :: "string \<Rightarrow> bool" where
  "hhmm_re s = (hhmm_shape s \<or> (s \<noteq> [] \<and> last s = newline \<and> hhmm_shape (butlast s)))"

fun hhmm_minutes :: "string \<Rightarrow> nat" where
  "hhmm_minutes [a, b, c, d, e] =
     (digit_val a * 10 + digit_val b) * 60 + digit_val d * 10 + digit_val e"
| "hhmm_minutes _ = 0"

fun strptime_hhmm :: "string \<Rightarrow> bool" where
  "strptime_hhmm [a, b, c, d, e] =
     (hhmm_shape [a, b, c, d, e] \<and> digit_val a * 10 + digit_val b \<le> 23 \<and> digit_val d \<le> 5)"
| "strptime_hhmm _ = False"

fun all_days :: "json list \<Rightarrow> bool" where
  "all_days [] = True"
| "all_days (d # ds) = (is_str d \<and> the_str d \<in> set sched_days \<and> all_days ds)"

fun list_items :: "json \<Rightarrow> json list" where
  "list_items (JList xs) = xs"
| "list_items v = []"

definition is_list :: "json \<Rightarrow> bool" where
  "is_list v = (case v of JList xs \<Rightarrow> True | _ \<Rightarrow> False)"

definition field_or_null :: "(string \<times> json) list \<Rightarrow> string \<Rightarrow> json" where
  "field_or_null kvs k = (case map_of kvs k of None \<Rightarrow> JNull | Some v \<Rightarrow> v)"

definition days_field :: "(string \<times> json) list \<Rightarrow> json" where
  "days_field kvs = (if truthy (field_or_null kvs ''days'') then field_or_null kvs ''days''
     else JList (map JStr sched_days))"

definition zone_field :: "(string \<times> json) list \<Rightarrow> json" where
  "zone_field kvs = (case map_of kvs ''timezone'' of None \<Rightarrow> JStr ''UTC'' | Some v \<Rightarrow> v)"

definition schedule_of :: "(string \<times> json) list \<Rightarrow> schedule" where
  "schedule_of kvs = \<lparr>sc_start = Some (the_str (field_or_null kvs ''start'')),
     sc_stop = Some (the_str (field_or_null kvs ''stop'')),
     sc_timezone = Some (the_str (zone_field kvs)),
     sc_days = Some (map the_str (list_items (days_field kvs)))\<rparr>"

definition parse_schedule_obj :: "(string \<Rightarrow> bool) \<Rightarrow> (string \<times> json) list \<Rightarrow> string + schedule" where
  "parse_schedule_obj zones kvs = (
     let start = field_or_null kvs ''start''; stop = field_or_null kvs ''stop'';
         tz = zone_field kvs; days = days_field kvs in
     if \<not> truthy start then Inl ''schedule.start required''
     else if \<not> truthy stop then Inl ''schedule.stop required''
     else if \<not> hhmm_re (json_str start) \<or> \<not> hhmm_re (json_str stop)
     then Inl ''schedule.start/stop must be HH:MM''
     else if \<not> strptime_hhmm (the_str start) \<or> \<not> strptime_hhmm (the_str stop)
     then Inl ''schedule.start/stop must be a valid HH:MM time''
     else if start = stop then Inl ''schedule.start must differ from schedule.stop''
     else if \<not> (is_str tz \<and> zones (the_str tz)) then Inl (''unknown timezone: '' @ json_str tz)
     else if \<not> is_list days \<or> \<not> all_days (list_items days)
     then Inl (''schedule.days must be a subset of ['' @ join '', '' (map quoted sched_days) @ '']'')
     else Inr (schedule_of kvs))"

definition parse_schedule :: "(string \<Rightarrow> bool) \<Rightarrow> json \<Rightarrow> string + schedule option" where
  "parse_schedule zones raw = (case raw of
       JNull \<Rightarrow> Inr None
     | JObj kvs \<Rightarrow> (case parse_schedule_obj zones kvs of Inl e \<Rightarrow> Inl e | Inr s \<Rightarrow> Inr (Some s))
     | _ \<Rightarrow> Inl ''schedule must be an object'')"

section \<open>Facts the components share\<close>

lemma label_end_mid: "label_end c \<Longrightarrow> label_mid c"
  by (simp add: label_mid_def)

lemma is_label_iff:
  "is_label k s \<longleftrightarrow> s \<noteq> [] \<and> label_end (hd s) \<and> label_end (last s) \<and>
     (\<forall>c \<in> set s. label_mid c) \<and> length s \<le> k + 2"
proof (cases s)
  case Nil
  then show ?thesis by (simp add: is_label_def)
next
  case (Cons c r)
  show ?thesis
  proof (cases "r = []")
    case True
    with Cons show ?thesis by (auto simp: is_label_def label_end_mid)
  next
    case False
    then obtain m e where r: "r = m @ [e]" by (metis rev_exhaust)
    with Cons show ?thesis
      by (auto simp: is_label_def list_all_iff label_end_mid)
  qed
qed

lemma newline_not_mid: "\<not> label_mid newline"
  by (simp add: label_mid_def label_end_def is_lower_def is_digit_def newline_def char_code_def)

definition opt_newline :: "string \<Rightarrow> bool" where
  "opt_newline s = (s = [] \<or> s = [newline])"

lemma re_label_split:
  "re_label k s \<longleftrightarrow> (\<exists>l n. s = l @ n \<and> opt_newline n \<and> is_label k l)"
proof
  assume "re_label k s"
  then consider "is_label k s" | "s \<noteq> []" "last s = newline" "is_label k (butlast s)"
    by (auto simp: re_label_def)
  then show "\<exists>l n. s = l @ n \<and> opt_newline n \<and> is_label k l"
  proof cases
    case 1
    then show ?thesis by (intro exI [of _ s] exI [of _ "[]"]) (simp add: opt_newline_def)
  next
    case 2
    then show ?thesis
      by (intro exI [of _ "butlast s"] exI [of _ "[newline]"])
        (simp add: opt_newline_def append_butlast_last_id flip: 2(2))
  qed
next
  assume "\<exists>l n. s = l @ n \<and> opt_newline n \<and> is_label k l"
  then show "re_label k s" by (auto simp: re_label_def opt_newline_def)
qed

lemma re_label_chars: "re_label k s \<Longrightarrow> c \<in> set s \<Longrightarrow> label_mid c \<or> c = newline"
  by (auto simp: re_label_split opt_newline_def is_label_iff)

definition good_tag :: "string \<times> json \<Rightarrow> bool" where
  "good_tag kv = (fst kv \<noteq> [] \<and> length (fst kv) \<le> 50 \<and> CHR '':'' \<notin> set (fst kv) \<and>
     is_str (snd kv) \<and> length (the_str (snd kv)) \<le> 100 \<and> CHR '':'' \<notin> set (the_str (snd kv)))"

lemma validate_tag_items_iff: "validate_tag_items kvs = None \<longleftrightarrow> (\<forall>kv \<in> set kvs. good_tag kv)"
  by (induction kvs rule: validate_tag_items.induct)
    (auto simp: good_tag_def tag_max_key_len_def tag_max_value_len_def)

lemma parse_filter_pair:
  assumes "CHR '':'' \<notin> set k"
  shows "parse_filter (k @ '':'' @ v) = Some (k, v)"
proof -
  have "takeWhile (\<lambda>x. x \<noteq> CHR '':'') (k @ '':'' @ v) = k"
    using assms by (simp add: takeWhile_append)
  moreover have "dropWhile (\<lambda>x. x \<noteq> CHR '':'') (k @ '':'' @ v) = '':'' @ v"
    using assms by (simp add: dropWhile_append)
  ultimately show ?thesis by (simp add: parse_filter_def split1_def)
qed

lemma matches_all_tags_iff:
  "matches_all_tags t fs \<longleftrightarrow>
   (\<forall>f \<in> set fs. \<exists>k v. f = Some (k, v) \<and> map_of (item_tags t) k = Some v)"
  by (induction t fs rule: matches_all_tags.induct) auto

lemma strptime_hhmm_shape: "strptime_hhmm s \<Longrightarrow> hhmm_shape s"
  by (cases s rule: strptime_hhmm.cases) auto

lemma all_days_iff:
  "all_days ds \<longleftrightarrow> (\<forall>d \<in> set ds. is_str d \<and> the_str d \<in> set sched_days)"
  by (induction ds) auto

definition good_schedule :: "(string \<Rightarrow> bool) \<Rightarrow> schedule \<Rightarrow> bool" where
  "good_schedule zones s = (case (sc_start s, sc_stop s, sc_timezone s, sc_days s) of
       (Some a, Some b, Some z, Some ds) \<Rightarrow>
         strptime_hhmm a \<and> strptime_hhmm b \<and> a \<noteq> b \<and> zones z \<and> ds \<noteq> [] \<and> set ds \<subseteq> set sched_days
     | _ \<Rightarrow> False)"

lemma truthy_list: "truthy v \<Longrightarrow> is_list v \<Longrightarrow> list_items v \<noteq> []"
  by (cases v) (auto simp: is_list_def)

lemma str_of_shape: "hhmm_re (json_str v) \<Longrightarrow> strptime_hhmm (the_str v) \<Longrightarrow> v = JStr (the_str v)"
  by (cases v) auto

lemma accepted_schedule_good:
  assumes "parse_schedule zones raw = Inr (Some s)"
  shows "good_schedule zones s"
proof -
  obtain kvs where "raw = JObj kvs" and p: "parse_schedule_obj zones kvs = Inr s"
    using assms by (cases raw) (auto simp: parse_schedule_def split: sum.splits)
  let ?start = "field_or_null kvs ''start''" and ?stop = "field_or_null kvs ''stop''"
  let ?tz = "zone_field kvs" and ?days = "days_field kvs"
  have q: "hhmm_re (json_str ?start)" "strptime_hhmm (the_str ?start)" "strptime_hhmm (the_str ?stop)"
      "hhmm_re (json_str ?stop)" "?start \<noteq> ?stop" "zones (the_str ?tz)" "all_days (list_items ?days)"
      "is_list ?days" "s = schedule_of kvs"
    using p by (auto simp only: parse_schedule_obj_def Let_def guard_Inr sum.inject)
  have "list_items ?days \<noteq> []"
    using q truthy_list by (auto simp: days_field_def sched_days_def)
  moreover have "set (map the_str (list_items ?days)) \<subseteq> set sched_days"
    using q by (auto simp: all_days_iff)
  moreover have "the_str ?start \<noteq> the_str ?stop"
    using q str_of_shape by metis
  ultimately show ?thesis using q by (simp add: good_schedule_def schedule_of_def)
qed

section \<open>Properties\<close>

text \<open>
  A tenant name is accepted exactly if it is a string of at most 32 characters made of a
  lowercase DNS label and, after it, at most one newline: the accepted names are not only the
  labels the error text describes, because the pattern's end anchor also matches before a final
  newline.
\<close>

theorem validate_name_accepts:
  "validate_name v = None \<longleftrightarrow>
   (\<exists>l n. v = JStr (l @ n) \<and> opt_newline n \<and> length (l @ n) \<le> 32 \<and> l \<noteq> [] \<and>
      label_end (hd l) \<and> label_end (last l) \<and> (\<forall>c \<in> set l. label_mid c))"
proof (cases v)
  case (JStr s)
  have "validate_name v = None \<longleftrightarrow> s \<noteq> [] \<and> length s \<le> 32 \<and> re_label 30 s"
    using JStr by (auto simp: validate_name_def name_re_def Let_def)
  also have "\<dots> \<longleftrightarrow> (\<exists>l n. s = l @ n \<and> opt_newline n \<and> length s \<le> 32 \<and> is_label 30 l)"
    by (auto simp: re_label_split is_label_iff)
  also have "\<dots> \<longleftrightarrow> (\<exists>l n. s = l @ n \<and> opt_newline n \<and> length (l @ n) \<le> 32 \<and> l \<noteq> [] \<and>
      label_end (hd l) \<and> label_end (last l) \<and> (\<forall>c \<in> set l. label_mid c))"
    unfolding is_label_iff by (intro iff_exI) auto
  finally show ?thesis using JStr by auto
qed (auto simp: validate_name_def)

theorem validate_name_accepts_witness:
  "\<exists>l n. JStr (''agent-1'' @ [newline]) = JStr (l @ n) \<and> opt_newline n \<and> length (l @ n) \<le> 32 \<and>
     l \<noteq> [] \<and> label_end (hd l) \<and> label_end (last l) \<and> (\<forall>c \<in> set l. label_mid c)"
proof (rule iffD1 [OF validate_name_accepts])
  show "validate_name (JStr (''agent-1'' @ [newline])) = None" by code_simp
qed

text \<open>
  Tags are accepted exactly if they are absent, or an object of at most 20 entries whose keys
  are non-empty, whose values are strings, all within their lengths and free of the colon the
  query syntax reserves.
\<close>

theorem validate_tags_accepts:
  "validate_tags v = None \<longleftrightarrow>
   v = JNull \<or> (\<exists>kvs. v = JObj kvs \<and> length kvs \<le> 20 \<and> (\<forall>kv \<in> set kvs. good_tag kv))"
  by (cases v) (auto simp: validate_tags_def validate_tag_items_iff tag_max_count_def)

theorem validate_tags_accepts_witness:
  "JObj [(''env'', JStr ''prod'')] = JNull \<or> (\<exists>kvs. JObj [(''env'', JStr ''prod'')] = JObj kvs \<and>
     length kvs \<le> 20 \<and> (\<forall>kv \<in> set kvs. good_tag kv))"
proof (rule iffD1 [OF validate_tags_accepts])
  show "validate_tags (JObj [(''env'', JStr ''prod'')]) = None" by code_simp
qed



text \<open>
  A time-to-live that is accepted is at least one hour and at most a year, expires by
  stopping or deleting the tenant, and exactly that many hours after the instant of the request.
\<close>

theorem parse_ttl_bounds:
  assumes "parse_ttl now_t raw oe = Inr (Inr (Some (h, act, e)))"
  shows "1 \<le> h \<and> h \<le> 8760 \<and> act \<in> {''stop'', ''delete''} \<and>
    e = At (now_t + h * 3600 * 1000000) \<and> py_int raw = Inr h"
  using assms
  by (auto simp: parse_ttl_def ttl_max_hours_def Let_def hours_def seconds_def
      split: if_splits sum.splits exn.splits py_error.splits)

theorem parse_ttl_bounds_witness:
  "parse_ttl 0 (JStr '' 24 '') JNull = Inr (Inr (Some (24, ''stop'', At 86400000000))) \<and>
   (1::int) \<le> 24 \<and> (24::int) \<le> 8760"
proof -
  have r: "parse_ttl 0 (JStr '' 24 '') JNull = Inr (Inr (Some (24, ''stop'', At 86400000000)))"
    by code_simp
  show ?thesis using r parse_ttl_bounds [OF r] by blast
qed

text \<open>
  A schedule that is accepted carries two different times that exist on the clock, a time
  zone the zone database knows, and a non-empty list of known weekday names.
\<close>

theorem parse_schedule_good:
  assumes "parse_schedule zones raw = Inr (Some s)"
  shows "good_schedule zones s"
  using accepted_schedule_good [OF assms] .

theorem parse_schedule_good_witness:
  "good_schedule (\<lambda>z. z = ''UTC'')
     \<lparr>sc_start = Some ''09:00'', sc_stop = Some ''18:30'', sc_timezone = Some ''UTC'', sc_days = Some [''Mon'']\<rparr>"
proof -
  have "parse_schedule (\<lambda>z. z = ''UTC'')
      (JObj [(''start'', JStr ''09:00''), (''stop'', JStr ''18:30''), (''days'', JList [JStr ''Mon''])])
    = Inr (Some \<lparr>sc_start = Some ''09:00'', sc_stop = Some ''18:30'', sc_timezone = Some ''UTC'',
        sc_days = Some [''Mon'']\<rparr>)"
    by code_simp
  then show ?thesis by (rule parse_schedule_good)
qed

end
