(* ===== verification/AuditLog.thy ===== *)
theory AuditLog
  imports Validate
begin

text \<open>
  The audit log (deploy/lambda/common/audit.py and the audit section of api/handler.py), the
  lifecycle notifications and the request type. The audit table's key is a fixed partition with
  the timestamp as sort key, so a second row with the same timestamp replaces the first. Neither
  an audit write nor a notification ever raises.
\<close>

section \<open>Requests\<close>

text \<open>
  The body of an API request: absent, the empty string, text that is not JSON, or a JSON value.
  A parameter map is the list of its entries; \<open>null\<close> maps arrive as empty ones.
\<close>

datatype payload = NoBody | EmptyBody | BadJson | Json json

record event =
  ev_method :: string
  ev_resource :: string
  ev_path :: "(string \<times> string) list"
  ev_query :: "(string \<times> string) list"
  ev_multi_query :: "(string \<times> string list) list"
  ev_headers :: "(string \<times> string) list"
  ev_api_key_id :: "string option"
  ev_body :: payload

definition request :: "string \<Rightarrow> string \<Rightarrow> (string \<times> string) list \<Rightarrow> event" where
  "request m r pp = \<lparr>ev_method = m, ev_resource = r, ev_path = pp, ev_query = [], ev_multi_query = [],
     ev_headers = [], ev_api_key_id = None, ev_body = NoBody\<rparr>"

definition json_decode_error :: exn where
  "json_decode_error = PyError JSONDecodeError ''Expecting value: line 1 column 1 (char 0)''"

text \<open>\<open>json.loads(body) if isinstance(body, str) else body\<close> for a body that is not None.\<close>

definition load_body :: "payload \<Rightarrow> exn + json" where
  "load_body p = (case p of NoBody \<Rightarrow> Inr JNull | EmptyBody \<Rightarrow> Inl json_decode_error
     | BadJson \<Rightarrow> Inl json_decode_error | Json j \<Rightarrow> Inr j)"

text \<open>\<open>json.loads(body) if body else {}\<close>.\<close>

definition load_body_or_empty :: "payload \<Rightarrow> exn + json" where
  "load_body_or_empty p = (case p of NoBody \<Rightarrow> Inr (JObj []) | EmptyBody \<Rightarrow> Inr (JObj [])
     | BadJson \<Rightarrow> Inl json_decode_error | Json j \<Rightarrow> Inr j)"

definition param :: "(string \<times> string) list \<Rightarrow> string \<Rightarrow> string \<Rightarrow> string" where
  "param ps k d = (case map_of ps k of None \<Rightarrow> d | Some v \<Rightarrow> v)"

section \<open>Rows\<close>

definition put_audit_item :: "audit_row \<Rightarrow> (world, unit) io" where
  "put_audit_item r = aws (modify (\<lambda>w.
     w\<lparr>w_audit := filter (\<lambda>q. a_ts q \<noteq> a_ts r) (w_audit w) @ [r]\<rparr>))"

definition truncated :: "json option \<Rightarrow> json option" where
  "truncated d = (case d of Some (JStr s) \<Rightarrow> Some (JStr (take 1000 s)) | _ \<Rightarrow> d)"

definition put_audit_row :: "cfg \<Rightarrow> string \<Rightarrow> string \<Rightarrow> string \<Rightarrow> string \<Rightarrow> string \<Rightarrow> string option
   \<Rightarrow> int option \<Rightarrow> json option \<Rightarrow> string option \<Rightarrow> (world, unit) io" where
  "put_audit_row c event obj resource_id actor actor_role operation response_status detail api_key_id =
     (if \<not> has_audit_table c then ok ()
      else best_effort (andThen now (\<lambda>t.
        put_audit_item \<lparr>a_event = event, a_object = obj, a_resource_id = resource_id,
          a_actor = actor, a_actor_role = actor_role,
          a_operation = (case operation of None \<Rightarrow> event | Some op \<Rightarrow> op),
          a_response_status = response_status,
          a_expires_ttl = t div 1000000 + audit_ttl_days c * 86400,
          a_api_key_id = (case api_key_id of None \<Rightarrow> actor | Some k \<Rightarrow> k),
          a_detail = truncated detail, a_ts = iso_format t\<rparr>)))"

section \<open>Event names and objects\<close>

definition audit_event_map :: "((string \<times> string) \<times> string) list" where
  "audit_event_map = [
    ((''POST'', ''/tenants''), ''tenant.created''),
    ((''DELETE'', ''/tenants/{id}''), ''tenant.deleted''),
    ((''POST'', ''/batch/tenants''), ''tenant.batch''),
    ((''POST'', ''/hosts''), ''host.registered''),
    ((''DELETE'', ''/hosts/{instance_id}''), ''host.deregistered''),
    ((''POST'', ''/hosts/refresh-rootfs''), ''host.rootfs_refreshed''),
    ((''POST'', ''/groups''), ''group.created''),
    ((''POST'', ''/groups/{name}/skills''), ''group.skill_added''),
    ((''DELETE'', ''/groups/{name}/skills/{skill}''), ''group.skill_removed''),
    ((''PUT'', ''/skills/{name}''), ''skill.updated''),
    ((''DELETE'', ''/skills/{name}''), ''skill.deleted''),
    ((''PUT'', ''/templates/{name}''), ''template.updated''),
    ((''DELETE'', ''/templates/{name}''), ''template.deleted''),
    ((''POST'', ''/hosts/{instance_id}/drain''), ''host.drain_started''),
    ((''POST'', ''/failover/{az}''), ''az.failover_requested'')]"

definition audit_action_map :: "(string \<times> string) list" where
  "audit_action_map = [
    (''migrate'', ''vm.migrate_requested''), (''cancel-migration'', ''vm.migrate_cancelled''),
    (''backup'', ''backup.created''), (''resize'', ''tenant.resized''),
    (''resize-disk'', ''tenant.disk_resized''), (''stop'', ''tenant.stopped''),
    (''start'', ''tenant.started''), (''restart'', ''tenant.restarted''),
    (''pause'', ''tenant.paused''), (''resume'', ''tenant.resumed''),
    (''reset'', ''tenant.reset''), (''clone'', ''tenant.cloned'')]"

definition audit_event_name :: "string \<Rightarrow> string \<Rightarrow> (string \<times> string) list \<Rightarrow> string" where
  "audit_event_name method resource pp =
     (let label = method @ '' '' @ resource in
      if resource = ''/tenants/{id}/{action}'' then
        (let action = param pp ''action'' '''' in
         case map_of audit_action_map action of Some e \<Rightarrow> e
         | None \<Rightarrow> if action \<noteq> [] then ''tenant.'' @ action else label)
      else (case map_of audit_event_map (method, resource) of Some e \<Rightarrow> e | None \<Rightarrow> label))"

definition typed_object :: "string \<Rightarrow> string \<Rightarrow> string \<times> string" where
  "typed_object kind rid = (if rid \<noteq> [] then kind @ '':'' @ rid else kind, rid)"

definition audit_object :: "string \<Rightarrow> (string \<times> string) list \<Rightarrow> string \<times> string" where
  "audit_object resource pp = (
     if prefix ''/tenants'' resource then typed_object ''tenant'' (param pp ''id'' '''')
     else if prefix ''/hosts'' resource then typed_object ''host'' (param pp ''instance_id'' '''')
     else if prefix ''/groups'' resource then typed_object ''group'' (param pp ''name'' '''')
     else if prefix ''/skills'' resource then typed_object ''skill'' (param pp ''name'' '''')
     else if prefix ''/templates'' resource then typed_object ''template'' (param pp ''name'' '''')
     else if prefix ''/batch'' resource then (''batch'', '''')
     else (resource, if param pp ''id'' '''' \<noteq> [] then param pp ''id'' ''''
                     else param pp ''instance_id'' ''''))"

definition audit_system :: "cfg \<Rightarrow> string \<Rightarrow> string \<Rightarrow> string \<Rightarrow> string \<Rightarrow> json option \<Rightarrow> (world, unit) io" where
  "audit_system c event_name obj resource_id actor detail =
     put_audit_row c event_name obj resource_id actor ''system'' (Some event_name) (Some 200)
       detail (Some actor)"

section \<open>Reading the log\<close>

definition ts_between :: "string option \<Rightarrow> string option \<Rightarrow> audit_row \<Rightarrow> bool" where
  "ts_between since before r =
     (let since_set = (case since of Some s \<Rightarrow> s \<noteq> [] | None \<Rightarrow> False);
          before_set = (case before of Some s \<Rightarrow> s \<noteq> [] | None \<Rightarrow> False) in
      if since_set \<and> before_set then the since \<le> a_ts r \<and> a_ts r \<le> the before
      else if since_set then the since \<le> a_ts r
      else if before_set then a_ts r < the before
      else True)"

text \<open>A query in descending order of the sort key; a limit below one is refused by the service.\<close>

definition query_audit :: "(audit_row \<Rightarrow> bool) \<Rightarrow> int \<Rightarrow> (world, audit_row list) io" where
  "query_audit P limit = aws (\<lambda>w.
     if limit < 1 then (Inl (ClientError ''ValidationException'' ''Limit must be at least 1''), w)
     else (Inr (take (nat limit) (rev (sort_key a_ts (filter P (w_audit w))))), w))"

definition audit_limit :: "(string \<times> string) list \<Rightarrow> int" where
  "audit_limit qp = (case map_of qp ''limit'' of
       None \<Rightarrow> 50
     | Some s \<Rightarrow> (case parse_int s of None \<Rightarrow> 50 | Some n \<Rightarrow> min n 500))"

text \<open>\<open>items[:limit]\<close>: a negative bound counts from the end.\<close>

definition slice_to :: "int \<Rightarrow> 'a list \<Rightarrow> 'a list" where
  "slice_to n xs = (if 0 \<le> n then take (nat n) xs else take (length xs - nat (- n)) xs)"

definition list_audit_log :: "cfg \<Rightarrow> (string \<times> string) list \<Rightarrow> (world, audit_row list) io" where
  "list_audit_log c qp = (if \<not> has_audit_table c then ok []
     else andThen (try_except
         (query_audit (ts_between (map_of qp ''since'') (map_of qp ''before'')) (audit_limit qp))
         (\<lambda>_. ok []))
       (\<lambda>items. ok (slice_to (audit_limit qp) items)))"

section \<open>Lifecycle notifications and quotas\<close>

definition publish :: "string \<Rightarrow> string \<Rightarrow> json \<Rightarrow> (world, unit) io" where
  "publish topic subj msg = aws (modify (\<lambda>w. w\<lparr>w_events := w_events w @
     [\<lparr>n_topic = topic, n_subject = subj, n_message = msg\<rparr>]\<rparr>))"

definition publish_event :: "cfg \<Rightarrow> string \<Rightarrow> string \<Rightarrow> json \<Rightarrow> (world, unit) io" where
  "publish_event c event_name tenant_id details =
     (if notifications_topic c = [] then ok ()
      else best_effort (andThen now (\<lambda>t.
        publish (notifications_topic c) (''OpenClaw: '' @ event_name @ '' ('' @ tenant_id @ '')'')
          (JObj [(''event'', JStr event_name), (''tenant_id'', JStr tenant_id),
                 (''timestamp'', JStr (iso_format t)),
                 (''details'', if truthy details then details else JObj [])]))))"

definition check_quota :: "cfg \<Rightarrow> int \<Rightarrow> int \<Rightarrow> int \<Rightarrow> string option" where
  "check_quota c vcpu mem_mb data_disk_mb = (
     if \<not> quotas_enabled c then None
     else if quotas_max_vcpu c \<noteq> 0 \<and> vcpu > quotas_max_vcpu c
     then Some (''vcpu='' @ show_int vcpu @ '' exceeds quota (max '' @ show_int (quotas_max_vcpu c) @ '')'')
     else if quotas_max_mem c \<noteq> 0 \<and> mem_mb > quotas_max_mem c
     then Some (''mem_mb='' @ show_int mem_mb @ '' exceeds quota (max '' @ show_int (quotas_max_mem c) @ '')'')
     else if quotas_max_disk c \<noteq> 0 \<and> data_disk_mb > quotas_max_disk c
     then Some (''data_disk_mb='' @ show_int data_disk_mb @ '' exceeds quota (max '' @ show_int (quotas_max_disk c) @ '')'')
     else None)"

section \<open>Frames\<close>

text \<open>The log and the topic are write-only for everything else.\<close>

locale log_blind = aws_frame +
  assumes frame_audit: "R w (w\<lparr>w_audit := rs\<rparr>)"
    and frame_events: "R w (w\<lparr>w_events := es\<rparr>)"
begin

lemma keeps_put_audit_row [keeps_rules]: "keeps R (put_audit_row c e ob r a ro op st d k)"
  unfolding put_audit_row_def put_audit_item_def
  by (intro keeps_if keeps_rules) (simp add: keeps_def frame_audit)

lemma keeps_audit_system [keeps_rules]: "keeps R (audit_system c e ob r a d)"
  unfolding audit_system_def by (rule keeps_put_audit_row)

lemma keeps_publish [keeps_rules]: "keeps R (publish t s m)"
  unfolding publish_def by (intro keeps_rules) (simp add: keeps_def frame_events)

lemma keeps_publish_event [keeps_rules]: "keeps R (publish_event c e i d)"
  unfolding publish_event_def by (intro keeps_if keeps_rules)

end

interpretation staying_quiet: log_blind "inv_rel quiet"
  by unfold_locales (auto simp: inv_rel_def quiet_def)

interpretation keyed_kept: log_blind "inv_rel keyed_world"
  by unfold_locales (simp_all add: inv_rel_def keyed_world_def)

interpretation replies_same: log_blind "unchanged w_replies"
  by unfold_locales (simp_all add: unchanged_def)

interpretation queue_same: log_blind "unchanged w_queue"
  by unfold_locales (simp_all add: unchanged_def)

interpretation http_same: log_blind "unchanged w_http"
  by unfold_locales (simp_all add: unchanged_def)

interpretation one_tenant: log_blind "others_same k" for k
  by unfold_locales (simp_all add: others_same_def)

interpretation staying_rows: log_blind rows_stay
  by unfold_locales (simp_all add: rows_stay_def)

interpretation tenants_same: log_blind "unchanged w_tenants"
  by unfold_locales (simp_all add: unchanged_def)

interpretation hosts_same: log_blind "unchanged w_hosts"
  by unfold_locales (simp_all add: unchanged_def)

interpretation ssm_same: log_blind "unchanged w_ssm"
  by unfold_locales (simp_all add: unchanged_def)

interpretation rules_same: log_blind "unchanged w_rules"
  by unfold_locales (simp_all add: unchanged_def)

lemma calm_publish_event: "calm (publish_event c e i d)"
proof (rule calm_handled)
  show "\<exists>x. fst (publish_event c e i d w) = Inr x" for w
    by (simp add: publish_event_def best_effort_apply)
qed (intro keeps_rules)+

lemma put_audit_row_total: "\<exists>w'. put_audit_row c e ob r a ro op st d k w = (Inr (), w')"
  by (simp add: put_audit_row_def best_effort_apply ok_apply)

lemma calm_put_audit_row: "calm (put_audit_row c e ob r a ro op st d k)"
proof (rule calm_handled)
  show "\<exists>x. fst (put_audit_row c e ob r a ro op st d k w) = Inr x" for w
    using put_audit_row_total by (metis fst_conv)
qed (rule keeps_rules)+


lemma query_audit_Inr:
  assumes "query_audit P n w = (Inr xs, w')"
  shows "xs = take (nat n) (rev (sort_key a_ts (filter P (w_audit w)))) \<and> 1 \<le> n"
  using assms unfolding query_audit_def by (cases rule: aws_elim) (auto split: if_splits)

lemma audit_limit_bound: "audit_limit qp \<le> 500"
  by (simp add: audit_limit_def split: option.split)

section \<open>Properties\<close>

text \<open>
  A page of the audit log is newest first, has at most the limit and never more than 500
  rows, and every row on it is in the log and within the requested bounds, of which the upper one
  counts as inclusive when the lower one is given too.
\<close>

theorem list_audit_log_page:
  assumes "list_audit_log c qp w = (Inr xs, w')"
  shows "sorted (rev (map a_ts xs)) \<and> int (length xs) \<le> max 0 (audit_limit qp) \<and> length xs \<le> 500 \<and>
    (\<forall>r \<in> set xs. r \<in> set (w_audit w) \<and> ts_between (map_of qp ''since'') (map_of qp ''before'') r)"
proof -
  let ?n = "audit_limit qp" and ?P = "ts_between (map_of qp ''since'') (map_of qp ''before'')"
  let ?sorted = "sort_key a_ts (filter ?P (w_audit w))"
  have "xs = [] \<or> (xs = take (nat ?n) (rev ?sorted) \<and> 1 \<le> ?n)"
    using assms by (auto simp: list_audit_log_def andThen_Inr try_except_Inr slice_to_def
        dest!: query_audit_Inr split: if_splits)
  then show ?thesis
  proof
    assume xs: "xs = take (nat ?n) (rev ?sorted) \<and> 1 \<le> ?n"
    have s: "sorted (map a_ts ?sorted)" by simp
    have "rev (map a_ts xs) = drop (length ?sorted - nat ?n) (map a_ts ?sorted)"
      using xs by (simp add: take_rev rev_map [symmetric] drop_map)
    with s have "sorted (rev (map a_ts xs))" by (simp add: sorted_wrt_drop)
    moreover have "r \<in> set (w_audit w) \<and> ?P r" if "r \<in> set xs" for r
    proof -
      have "r \<in> set (rev ?sorted)" using xs that in_set_takeD by metis
      then show ?thesis by auto
    qed
    moreover have "length xs \<le> nat ?n" using xs by (simp only: length_take)
    then have "int (length xs) \<le> max 0 ?n" "length xs \<le> 500"
      using audit_limit_bound [of qp] by linarith+
    ultimately show ?thesis by blast
  qed simp
qed

theorem list_audit_log_page_witness:
  "int (length (w_audit (world0\<lparr>w_audit := [\<lparr>a_event = ''e'', a_object = ''o'', a_resource_id = ''r'', a_actor = ''x'',
        a_actor_role = ''y'', a_operation = ''z'', a_response_status = Some 200, a_expires_ttl = 0,
        a_api_key_id = ''k'', a_detail = None, a_ts = ''2026-01-01''\<rparr>]\<rparr>))) \<le> 1"
proof -
  let ?w = "world0\<lparr>w_audit := [\<lparr>a_event = ''e'', a_object = ''o'', a_resource_id = ''r'', a_actor = ''x'',
        a_actor_role = ''y'', a_operation = ''z'', a_response_status = Some 200, a_expires_ttl = 0,
        a_api_key_id = ''k'', a_detail = None, a_ts = ''2026-01-01''\<rparr>]\<rparr>"
  have "list_audit_log cfg0 [(''limit'', ''1'')] ?w =
    (Inr (w_audit ?w), snd (list_audit_log cfg0 [(''limit'', ''1'')] ?w))" by code_simp
  from list_audit_log_page [OF this]
  have "int (length (w_audit ?w)) \<le> max 0 (audit_limit [(''limit'', ''1'')])" by (elim conjE)
  also have "max 0 (audit_limit [(''limit'', ''1'')]) = 1" by code_simp
  finally show ?thesis .
qed

end
