(* ===== verification/Rbac.thy ===== *)
theory Rbac
  imports AuditLog
begin

text \<open>
  Roles (api/handler.py): the role of a request from its verified token, the role each route
  needs, and the part of \<open>lambda_handler\<close> around a route's handler: the role check, the audit
  row of a mutating request, denied or not, and the translation of an exception to a 500.
\<close>

section \<open>Tokens and roles\<close>

definition verify_and_decode :: "cfg \<Rightarrow> string \<Rightarrow> (string \<times> json) list option" where
  "verify_and_decode c token = (
     if \<not> cognito_configured c \<or> token = [] then None
     else (case verify_token c token of
         None \<Rightarrow> None
       | Some claims \<Rightarrow>
           let aud = (if truthy (field_or_null claims ''aud'') then field_or_null claims ''aud''
                      else field_or_null claims ''client_id'') in
           if cognito_client_id c \<noteq> [] \<and> truthy aud \<and> aud \<noteq> JStr (cognito_client_id c)
           then None else Some claims))"

definition role_ranks :: "(string \<times> int) list" where
  "role_ranks = [(''viewer'', 0), (''operator'', 1), (''admin'', 2)]"

definition role_rank :: "string \<Rightarrow> int \<Rightarrow> int" where
  "role_rank r d = (case map_of role_ranks r of None \<Rightarrow> d | Some n \<Rightarrow> n)"

definition role_satisfies :: "string \<Rightarrow> string \<Rightarrow> bool" where
  "role_satisfies actual required = (role_rank actual (-1) \<ge> role_rank required 99)"

definition type_error :: "string \<Rightarrow> exn" where
  "type_error m = PyError TypeError m"

text \<open>
  The loop over the groups: a group that is not hashable raises, one that names no role is
  skipped, and a later role replaces the best so far only if it ranks higher.
\<close>

fun best_role :: "json list \<Rightarrow> string option \<Rightarrow> exn + string option" where
  "best_role [] best = Inr best"
| "best_role (g # gs) best = (case g of
       JList xs \<Rightarrow> Inl (type_error ''unhashable type: list'')
     | JObj kvs \<Rightarrow> Inl (type_error ''unhashable type: dict'')
     | JStr s \<Rightarrow>
         if map_of role_ranks s \<noteq> None \<and>
            (case best of None \<Rightarrow> True | Some b \<Rightarrow> role_rank s 0 > role_rank b 0)
         then best_role gs (Some s) else best_role gs best
     | _ \<Rightarrow> best_role gs best)"

definition group_items :: "json \<Rightarrow> exn + json list" where
  "group_items v = (if \<not> truthy v then Inr [] else (case v of
       JStr s \<Rightarrow> Inr [JStr s]
     | JList xs \<Rightarrow> Inr xs
     | JObj kvs \<Rightarrow> Inr (map (\<lambda>kv. JStr (fst kv)) kvs)
     | _ \<Rightarrow> Inl (type_error (quoted (type_name v) @ '' object is not iterable''))))"

definition role_from_claims :: "(string \<times> json) list \<Rightarrow> exn + string" where
  "role_from_claims claims = bind_sum (group_items (field_or_null claims ''cognito:groups''))
     (\<lambda>gs. bind_sum (best_role gs None)
     (\<lambda>best. Inr (case best of None \<Rightarrow> ''viewer'' | Some b \<Rightarrow> b)))"

definition auth_header :: "event \<Rightarrow> string" where
  "auth_header ev = (let a = param (ev_headers ev) ''Authorization'' '''' in
     if a \<noteq> [] then a else param (ev_headers ev) ''authorization'' '''')"

definition bearer_token :: "event \<Rightarrow> string option" where
  "bearer_token ev = (if prefix ''Bearer '' (auth_header ev)
     then Some (strip (drop 7 (auth_header ev))) else None)"

definition get_user_role :: "cfg \<Rightarrow> event \<Rightarrow> exn + string" where
  "get_user_role c ev = (case bearer_token ev of
       None \<Rightarrow> Inr (default_no_jwt_role c)
     | Some token \<Rightarrow> (case verify_and_decode c token of
           None \<Rightarrow> Inr ''viewer''
         | Some claims \<Rightarrow> role_from_claims claims))"

definition actor_of_claims :: "(string \<times> json) list \<Rightarrow> string" where
  "actor_of_claims claims = (
     if truthy (field_or_null claims ''email'') then json_str (field_or_null claims ''email'')
     else if truthy (field_or_null claims ''cognito:username'')
     then json_str (field_or_null claims ''cognito:username'')
     else if truthy (field_or_null claims ''sub'') then json_str (field_or_null claims ''sub'')
     else ''cognito-user'')"

definition event_api_key :: "event \<Rightarrow> string" where
  "event_api_key ev = (case ev_api_key_id ev of
       Some k \<Rightarrow> if k \<noteq> [] then k else take 32 (param (ev_headers ev) ''x-api-key'' '''')
     | None \<Rightarrow> take 32 (param (ev_headers ev) ''x-api-key'' ''''))"

definition get_principal :: "cfg \<Rightarrow> event \<Rightarrow> exn + string \<times> string" where
  "get_principal c ev =
     (let by_key = Inr (if event_api_key ev \<noteq> [] then ''api-key:'' @ event_api_key ev else ''api-key'',
                        default_no_jwt_role c) in
      case bearer_token ev of
        None \<Rightarrow> by_key
      | Some token \<Rightarrow> (case verify_and_decode c token of
            None \<Rightarrow> by_key
          | Some claims \<Rightarrow> bind_sum (role_from_claims claims)
              (\<lambda>r. Inr (actor_of_claims claims, r))))"

section \<open>What a route needs\<close>

definition viewer_ok :: "(string \<times> string) list" where
  "viewer_ok = map (\<lambda>r. (''GET'', r)) [''/tenants'', ''/tenants/{id}'', ''/tenants/{id}/{action}'',
     ''/backups'', ''/hosts'', ''/hosts/rootfs-version'', ''/agentcore/status'',
     ''/agentcore/tools'', ''/system/info'', ''/audit-log'', ''/admin/routing/status'',
     ''/groups'', ''/skills/{name}'']"

definition admin_only :: "(string \<times> string) list" where
  "admin_only = map (\<lambda>r. (''POST'', r))
     [''/failover/{az}'', ''/admin/routing/rebuild'', ''/admin/routing/purge-per-tenant'']"

definition needed_role :: "string \<Rightarrow> string \<Rightarrow> string" where
  "needed_role method resource = (
     if (method, resource) \<in> set admin_only then ''admin''
     else if (method, resource) \<in> set viewer_ok then ''viewer''
     else ''operator'')"

definition forbidden_resp :: "string \<Rightarrow> string \<Rightarrow> resp" where
  "forbidden_resp role needed = mk_resp 403 (JObj [(''error'', JStr ''forbidden''),
     (''rbac'', JObj [(''role'', JStr role), (''required'', JStr needed)])])"

definition rbac_check :: "cfg \<Rightarrow> event \<Rightarrow> string \<Rightarrow> string \<Rightarrow> exn + resp option" where
  "rbac_check c ev method resource = (
     if \<not> rbac_enabled c then Inr None
     else bind_sum (get_user_role c ev) (\<lambda>role.
       let needed = needed_role method resource in
       if \<not> role_satisfies role needed then Inr (Some (forbidden_resp role needed))
       else Inr None))"

section \<open>Around the handler\<close>

definition audit_write :: "cfg \<Rightarrow> event \<Rightarrow> resp \<Rightarrow> (world, unit) io" where
  "audit_write c ev result = (if \<not> has_audit_table c then ok ()
     else andThen (lift_sum (get_principal c ev)) (\<lambda>(actor, actor_role).
       case audit_object (ev_resource ev) (ev_path ev) of (obj, rid) \<Rightarrow>
         put_audit_row c (audit_event_name (ev_method ev) (ev_resource ev) (ev_path ev))
           obj rid actor actor_role (Some (ev_method ev @ '' '' @ ev_resource ev))
           (Some (statusCode result)) None (Some (event_api_key ev))))"

definition mutating :: "string \<Rightarrow> bool" where
  "mutating method = (method \<in> {''POST'', ''PUT'', ''DELETE''})"

definition guarded :: "cfg \<Rightarrow> event \<Rightarrow> (world, resp) io \<Rightarrow> (world, resp) io" where
  "guarded c ev handler =
     andThen (lift_sum (rbac_check c ev (ev_method ev) (ev_resource ev))) (\<lambda>forbidden.
     case forbidden of
       Some r \<Rightarrow> andThen (whenever (mutating (ev_method ev)) (audit_write c ev r)) (\<lambda>_. ok r)
     | None \<Rightarrow> try_except
         (andThen handler (\<lambda>result.
          andThen (whenever (mutating (ev_method ev)) (audit_write c ev result)) (\<lambda>_. ok result)))
         (\<lambda>e. ok (err_resp 500 (exn_str e))))"

section \<open>Lemmas\<close>

lemma best_role_rank:
  "best_role gs best = Inr r \<Longrightarrow> (case best of None \<Rightarrow> True | Some b \<Rightarrow> map_of role_ranks b \<noteq> None) \<Longrightarrow>
   (case r of None \<Rightarrow> best = None \<and> (\<forall>s. JStr s \<in> set gs \<longrightarrow> map_of role_ranks s = None)
    | Some b \<Rightarrow> (best = Some b \<or> JStr b \<in> set gs) \<and> map_of role_ranks b \<noteq> None \<and>
        (\<forall>s. JStr s \<in> set gs \<or> best = Some s \<longrightarrow> role_rank s 0 \<le> role_rank b 0))"
proof (induction gs arbitrary: best)
  case Nil
  then show ?case by (auto split: option.splits)
next
  case (Cons g gs)
  show ?case
  proof (cases g)
    case (JStr s)
    have neg: "map_of role_ranks q = None \<Longrightarrow> role_rank q 0 = 0" for q by (simp add: role_rank_def)
    have nonneg: "0 \<le> role_rank q 0" for q
      by (auto simp: role_rank_def role_ranks_def split: option.splits if_splits)
    show ?thesis
    proof (cases "map_of role_ranks s \<noteq> None \<and>
            (case best of None \<Rightarrow> True | Some b \<Rightarrow> role_rank s 0 > role_rank b 0)")
      case True
      with Cons.IH [of "Some s"] Cons.prems JStr show ?thesis
        by (cases best) (auto split: option.splits)
    next
      case False
      with Cons.prems JStr have r: "best_role gs best = Inr r" by (simp split: if_splits)
      from Cons.IH [OF r Cons.prems(2)] False JStr neg [of s] nonneg show ?thesis
        by (cases best; cases r) (auto split: if_splits dest: spec)
    qed
  qed (use Cons.IH [of best] Cons.prems in \<open>auto split: option.splits\<close>)
qed

lemma role_from_claims_principal:
  "get_user_role c ev = Inr role \<Longrightarrow> \<exists>p. get_principal c ev = Inr p"
  by (auto simp: get_user_role_def get_principal_def Let_def bind_sum_def split: option.splits sum.splits)

text \<open>The relation between the states around an audit write: only the log and the clock moved.\<close>

definition only_logged :: "world \<Rightarrow> world \<Rightarrow> bool" where
  "only_logged w w' = (\<exists>n fs rs. w' = w\<lparr>w_now := n, w_oracle := fs, w_audit := rs\<rparr>)"

lemma only_logged_refl: "only_logged w w"
  unfolding only_logged_def by (intro exI [of _ "w_now w"] exI [of _ "w_oracle w"] exI [of _ "w_audit w"]) simp

lemma only_logged_trans: "only_logged u v \<Longrightarrow> only_logged v w \<Longrightarrow> only_logged u w"
  by (auto simp: only_logged_def) (metis (no_types, lifting))

interpretation logged: aws_frame only_logged
proof unfold_locales
  show "only_logged w w" for w by (rule only_logged_refl)
  show "only_logged s t \<Longrightarrow> only_logged t u \<Longrightarrow> only_logged s u" for s t u
    by (rule only_logged_trans)
  show "only_logged w (w\<lparr>w_now := n, w_oracle := fs\<rparr>)" for w n fs
    unfolding only_logged_def by (intro exI [of _ n] exI [of _ fs] exI [of _ "w_audit w"]) simp
qed

lemma logged_put_audit_item: "keeps only_logged (put_audit_item r)"
  unfolding put_audit_item_def
proof (rule logged.keeps_aws, unfold keeps_def only_logged_def, intro allI)
  fix w
  show "\<exists>n fs rs. snd (modify (\<lambda>w. w\<lparr>w_audit := filter (\<lambda>q. a_ts q \<noteq> a_ts r) (w_audit w) @ [r]\<rparr>) w)
      = w\<lparr>w_now := n, w_oracle := fs, w_audit := rs\<rparr>"
    by (intro exI [of _ "w_now w"] exI [of _ "w_oracle w"]) auto
qed

lemma logged_audit_write: "keeps only_logged (audit_write c ev r)"
  unfolding audit_write_def put_audit_row_def
  by (intro logged.keeps_if keeps_rules logged_put_audit_item)

lemma rbac_check_denies:
  assumes "rbac_enabled c" "get_user_role c ev = Inr role"
    "\<not> role_satisfies role (needed_role (ev_method ev) (ev_resource ev))"
  shows "rbac_check c ev (ev_method ev) (ev_resource ev) =
    Inr (Some (forbidden_resp role (needed_role (ev_method ev) (ev_resource ev))))"
  using assms by (simp add: rbac_check_def Let_def)

lemma audit_write_total:
  assumes "get_principal c ev = Inr p"
  shows "\<exists>w'. audit_write c ev r w = (Inr (), w')"
  using assms put_audit_row_total
  by (auto simp: audit_write_def io_simps split: prod.splits)

lemma guarded_denied:
  assumes "rbac_enabled c" "get_user_role c ev = Inr role"
    "\<not> role_satisfies role (needed_role (ev_method ev) (ev_resource ev))"
  shows "\<exists>w'. guarded c ev h w =
      (Inr (forbidden_resp role (needed_role (ev_method ev) (ev_resource ev))), w') \<and> only_logged w w'"
proof -
  let ?r = "forbidden_resp role (needed_role (ev_method ev) (ev_resource ev))"
  obtain p where "get_principal c ev = Inr p" using role_from_claims_principal assms(2) by blast
  with audit_write_total obtain w' where a: "audit_write c ev ?r w = (Inr (), w')" by blast
  then have "only_logged w w'" using logged_audit_write by (rule keepsD [rotated])
  with a show ?thesis
    by (auto simp: guarded_def rbac_check_denies [OF assms] io_simps whenever_def only_logged_refl)
qed

lemma rank_needed_operator:
  "(m, r) \<notin> set viewer_ok \<Longrightarrow> 1 \<le> role_rank (needed_role m r) 99"
  by (auto simp: needed_role_def role_rank_def role_ranks_def)

section \<open>Properties\<close>



text \<open>
  A token that does not verify gives no more than read access: with role checks on, every
  route outside the viewer list is refused, whatever roles the token claims.
\<close>

theorem forged_token_is_viewer:
  assumes "rbac_enabled c" "bearer_token ev = Some token" "verify_and_decode c token = None"
    "(ev_method ev, ev_resource ev) \<notin> set viewer_ok"
  shows "fst (guarded c ev h w) = Inr (forbidden_resp ''viewer'' (needed_role (ev_method ev) (ev_resource ev)))
    \<and> only_logged w (snd (guarded c ev h w))"
proof -
  have role: "get_user_role c ev = Inr ''viewer''" using assms(2,3) by (simp add: get_user_role_def)
  have "role_rank ''viewer'' (-1) = 0" by (simp add: role_rank_def role_ranks_def)
  then have "\<not> role_satisfies ''viewer'' (needed_role (ev_method ev) (ev_resource ev))"
    using rank_needed_operator [OF assms(4)] by (simp add: role_satisfies_def)
  from guarded_denied [OF assms(1) role this, of h w] show ?thesis by auto
qed

theorem forged_token_is_viewer_witness:
  "fst (guarded (cfg0\<lparr>rbac_enabled := True\<rparr>) ((request ''POST'' ''/failover/{az}'' [])
       \<lparr>ev_headers := [(''Authorization'', ''Bearer forged'')]\<rparr>) (ok (mk_resp 200 JNull)) world0) =
     Inr (forbidden_resp ''viewer'' ''admin'')"
proof -
  let ?ev = "(request ''POST'' ''/failover/{az}'' [])\<lparr>ev_headers := [(''Authorization'', ''Bearer forged'')]\<rparr>"
  have n: "needed_role (ev_method ?ev) (ev_resource ?ev) = ''admin''" by code_simp
  have a: "rbac_enabled (cfg0\<lparr>rbac_enabled := True\<rparr>)" by simp
  have b: "bearer_token ?ev = Some ''forged''" by code_simp
  have d: "verify_and_decode (cfg0\<lparr>rbac_enabled := True\<rparr>) ''forged'' = None" by code_simp
  have e: "(ev_method ?ev, ev_resource ?ev) \<notin> set viewer_ok" by code_simp
  from forged_token_is_viewer [OF a b d e, of "ok (mk_resp 200 JNull)" world0] show ?thesis
    unfolding n by (rule conjunct1)
qed

text \<open>
  The role read from verified claims is the highest one among the groups of the claims, and
  viewer when they name none.
\<close>

theorem role_from_claims_highest:
  assumes "role_from_claims claims = Inr r" "group_items (field_or_null claims ''cognito:groups'') = Inr gs"
  shows "r \<in> {''viewer'', ''operator'', ''admin''} \<and> (r = ''viewer'' \<or> JStr r \<in> set gs) \<and>
    (\<forall>s. JStr s \<in> set gs \<longrightarrow> role_rank s 0 \<le> role_rank r 0)"
proof -
  obtain best where b: "best_role gs None = Inr best"
    and r: "r = (case best of None \<Rightarrow> ''viewer'' | Some x \<Rightarrow> x)"
    using assms by (auto simp: role_from_claims_def bind_sum_Inr)
  have known: "map_of role_ranks x \<noteq> None \<Longrightarrow> x \<in> {''viewer'', ''operator'', ''admin''}" for x
    by (auto simp: role_ranks_def split: if_splits)
  show ?thesis
  proof (cases best)
    case None
    with best_role_rank [OF b] r show ?thesis by (auto simp: role_rank_def role_ranks_def)
  next
    case (Some x)
    with best_role_rank [OF b] r known [of x] show ?thesis by auto
  qed
qed

theorem role_from_claims_highest_witness:
  "role_rank ''viewer'' 0 \<le> role_rank ''operator'' 0 \<and>
   role_from_claims [(''cognito:groups'', JList [JStr ''staff'', JStr ''operator'', JStr ''viewer''])] =
     Inr ''operator''"
proof -
  let ?claims = "[(''cognito:groups'', JList [JStr ''staff'', JStr ''operator'', JStr ''viewer''])]"
  have r: "role_from_claims ?claims = Inr ''operator''" by code_simp
  have "group_items (field_or_null ?claims ''cognito:groups'') =
      Inr [JStr ''staff'', JStr ''operator'', JStr ''viewer'']" by code_simp
  from role_from_claims_highest [OF r this] r show ?thesis by simp
qed

end
