(* ===== verification/Capacity.thy ===== *)
theory Capacity
  imports World
begin

text \<open>
  Host capacity (deploy/lambda/common/capacity.py): what a host can allocate after overcommit,
  what is free, whether a VM fits, and the least-loaded-first ranking of the hosts that fit. The
  API scheduler and the failover placer both use these functions.
\<close>

section \<open>Definitions\<close>

definition int_attr :: "int option \<Rightarrow> int" where
  "int_attr v = (case v of None \<Rightarrow> 0 | Some i \<Rightarrow> i)"

definition int_attr_or :: "int option \<Rightarrow> int \<Rightarrow> int" where
  "int_attr_or v d = (case v of None \<Rightarrow> d | Some i \<Rightarrow> i)"

text \<open>\<open>d.get(k, default)\<close>.\<close>

definition or_default :: "'a option \<Rightarrow> 'a \<Rightarrow> 'a" where
  "or_default v d = (case v of None \<Rightarrow> d | Some x \<Rightarrow> x)"

text \<open>\<open>int(n * ratio)\<close>: the integer becomes a double, the product is rounded, then truncated.\<close>

definition scaled :: "int \<Rightarrow> pyfloat \<Rightarrow> int" where
  "scaled n ratio = int_of_float (fmul (float_of_int n) ratio)"

definition allocatable :: "host \<Rightarrow> pyfloat \<Rightarrow> pyfloat \<Rightarrow> int \<times> int" where
  "allocatable h cpu_ratio mem_ratio =
     (scaled (int_attr (h_total_vcpu h)) cpu_ratio,
      scaled (int_attr (h_total_mem_mb h)) mem_ratio)"

definition host_free :: "host \<Rightarrow> pyfloat \<Rightarrow> pyfloat \<Rightarrow> int \<times> int" where
  "host_free h cpu_ratio mem_ratio =
     (case allocatable h cpu_ratio mem_ratio of (a_vcpu, a_mem) \<Rightarrow>
        (a_vcpu - int_attr (h_used_vcpu h), a_mem - int_attr (h_used_mem_mb h)))"

definition host_fits :: "host \<Rightarrow> int \<Rightarrow> int \<Rightarrow> pyfloat \<Rightarrow> pyfloat \<Rightarrow> int \<Rightarrow> bool" where
  "host_fits h vcpu_needed mem_needed cpu_ratio mem_ratio max_vms =
     (case host_free h cpu_ratio mem_ratio of (free_vcpu, free_mem) \<Rightarrow>
        if free_vcpu < vcpu_needed \<or> free_mem < mem_needed then False
        else if max_vms \<noteq> 0 \<and> int_attr (h_vm_count h) \<ge> max_vms then False
        else True)"

definition rank_key :: "pyfloat \<Rightarrow> pyfloat \<Rightarrow> host \<Rightarrow> int \<times> int \<times> string" where
  "rank_key cpu_ratio mem_ratio h =
     (case host_free h cpu_ratio mem_ratio of (free_vcpu, free_mem) \<Rightarrow>
        (- free_vcpu, - free_mem, h_instance_id h))"

fun rank_candidates ::
  "host list \<Rightarrow> int \<Rightarrow> int \<Rightarrow> pyfloat \<Rightarrow> pyfloat \<Rightarrow> int \<Rightarrow> string list \<Rightarrow> host list" where
  "rank_candidates [] v m cr mr mx ex = []"
| "rank_candidates (h # hs) v m cr mr mx ex =
     (if h_instance_id h \<in> set ex then rank_candidates hs v m cr mr mx ex
      else if \<not> host_fits h v m cr mr mx then rank_candidates hs v m cr mr mx ex
      else h # rank_candidates hs v m cr mr mx ex)"

definition rank_hosts ::
  "host list \<Rightarrow> int \<Rightarrow> int \<Rightarrow> pyfloat \<Rightarrow> pyfloat \<Rightarrow> int \<Rightarrow> string list \<Rightarrow> host list" where
  "rank_hosts hs v m cr mr mx ex =
     sort_key (rank_key cr mr) (rank_candidates hs v m cr mr mx ex)"

section \<open>The capacity contract\<close>

text \<open>
  What the scheduler must never break: the booked resources are within what the host can
  allocate, and the number of VMs within the ceiling when there is one.
\<close>

definition within_capacity :: "pyfloat \<Rightarrow> pyfloat \<Rightarrow> int \<Rightarrow> host \<Rightarrow> bool" where
  "within_capacity cr mr mx h \<longleftrightarrow>
     int_attr (h_used_vcpu h) \<le> fst (allocatable h cr mr) \<and>
     int_attr (h_used_mem_mb h) \<le> snd (allocatable h cr mr) \<and>
     (mx \<noteq> 0 \<longrightarrow> int_attr (h_vm_count h) \<le> mx)"

definition booked :: "int \<Rightarrow> int \<Rightarrow> host \<Rightarrow> host" where
  "booked v m h = h\<lparr>h_used_vcpu := Some (int_attr (h_used_vcpu h) + v),
     h_used_mem_mb := Some (int_attr (h_used_mem_mb h) + m),
     h_vm_count := Some (int_attr (h_vm_count h) + 1)\<rparr>"

lemma allocatable_booked [simp]: "allocatable (booked v m h) cr mr = allocatable h cr mr"
  by (simp add: allocatable_def booked_def)

lemma int_attr_simps [simp]: "int_attr (Some i) = i" "int_attr None = 0"
  by (simp_all add: int_attr_def)

lemma int_attr_or_simps [simp]: "int_attr_or (Some i) d = i" "int_attr_or None d = d"
  by (simp_all add: int_attr_or_def)

lemma host_fits_iff:
  "host_fits h v m cr mr mx \<longleftrightarrow>
   int_attr (h_used_vcpu h) + v \<le> fst (allocatable h cr mr) \<and>
   int_attr (h_used_mem_mb h) + m \<le> snd (allocatable h cr mr) \<and>
   (mx \<noteq> 0 \<longrightarrow> int_attr (h_vm_count h) < mx)"
  by (auto simp: host_fits_def host_free_def split: prod.splits)

text \<open>\<open>host_fits\<close> decides exactly whether booking the VM keeps the host within capacity.\<close>

lemma host_fits_booked:
  "host_fits h v m cr mr mx \<longleftrightarrow> within_capacity cr mr mx (booked v m h)"
  by (auto simp: host_fits_iff within_capacity_def) (auto simp: booked_def)

lemma rank_candidates_filter:
  "rank_candidates hs v m cr mr mx ex =
   filter (\<lambda>h. h_instance_id h \<notin> set ex \<and> host_fits h v m cr mr mx) hs"
  by (induction hs) auto

lemma set_rank_hosts:
  "h \<in> set (rank_hosts hs v m cr mr mx ex) \<longleftrightarrow>
   h \<in> set hs \<and> h_instance_id h \<notin> set ex \<and> host_fits h v m cr mr mx"
  by (auto simp: rank_hosts_def rank_candidates_filter)

lemma mset_rank_hosts:
  "mset (rank_hosts hs v m cr mr mx ex) =
   filter_mset (\<lambda>h. h_instance_id h \<notin> set ex \<and> host_fits h v m cr mr mx) (mset hs)"
  by (simp add: rank_hosts_def rank_candidates_filter)

lemma sorted_rank_hosts: "sorted (map (rank_key cr mr) (rank_hosts hs v m cr mr mx ex))"
  by (simp add: rank_hosts_def)

lemma rank_hosts_empty_iff:
  "rank_hosts hs v m cr mr mx ex = [] \<longleftrightarrow>
   (\<forall>h \<in> set hs. h_instance_id h \<in> set ex \<or> \<not> host_fits h v m cr mr mx)"
  using set_rank_hosts [of _ hs v m cr mr mx ex] by (metis empty_iff equals0I set_empty list.set(1))

lemma rank_hosts_head:
  assumes "rank_hosts hs v m cr mr mx ex = b # rest" "h \<in> set hs"
    "h_instance_id h \<notin> set ex" "host_fits h v m cr mr mx"
  shows "rank_key cr mr b \<le> rank_key cr mr h"
proof -
  have "h \<in> set (b # rest)" using assms set_rank_hosts [of h] by metis
  with sorted_rank_hosts [of cr mr hs v m mx ex] assms(1) show ?thesis by auto
qed

lemma scaled_one: "\<bar>n\<bar> < 2 ^ 53 \<Longrightarrow> scaled n one_float = n"
  by (simp add: scaled_def int_times_one)

lemma scaled_nonneg': "0 \<le> n \<Longrightarrow> 0 \<le> mant r \<Longrightarrow> 0 \<le> scaled n r"
  by (simp add: scaled_def scaled_nonneg)

section \<open>Properties\<close>

text \<open>
  C38. The placement verdict is exactly the capacity contract: a VM fits on a host if and only if
  the host with that VM booked on it is still within its overcommitted vCPU and memory and within
  the VM ceiling.
\<close>

theorem host_fits_safe_and_complete:
  "host_fits h v m cr mr mx \<longleftrightarrow> within_capacity cr mr mx (booked v m h)"
  by (rule host_fits_booked)

text \<open>
  The ranking returns, as a multiset, exactly the hosts that are not excluded and fit, and
  its first host has at least as much free vCPU as every other such host, then as much free
  memory, then the smaller instance id.
\<close>

theorem rank_hosts_correct:
  "mset (rank_hosts hs v m cr mr mx ex) =
     filter_mset (\<lambda>h. h_instance_id h \<notin> set ex \<and> host_fits h v m cr mr mx) (mset hs)
   \<and> sorted (map (rank_key cr mr) (rank_hosts hs v m cr mr mx ex))"
  by (simp add: mset_rank_hosts sorted_rank_hosts)

end
