(* ===== verification/Store.thy ===== *)
theory Store
  imports World
begin

text \<open>
  The asset bucket: the S3 calls the Lambdas make. Objects are listed in the order of their
  keys; one listing call returns at most a thousand, a paginator follows with further calls.
  Object bodies are text.
\<close>

definition find_object :: "string \<Rightarrow> s3_object list \<Rightarrow> s3_object option" where
  "find_object k os = find (\<lambda>ob. o_key ob = k) os"

definition no_such_key :: exn where
  "no_such_key = ClientError ''NoSuchKey'' ''when calling the GetObject operation: The specified key does not exist.''"

definition get_object :: "string \<Rightarrow> (world, s3_object) io" where
  "get_object k = aws (\<lambda>w. case find_object k (w_objects w) of
       None \<Rightarrow> (Inl no_such_key, w) | Some ob \<Rightarrow> (Inr ob, w))"

definition head_object :: "string \<Rightarrow> (world, s3_object) io" where
  "head_object k = aws (\<lambda>w. case find_object k (w_objects w) of
       None \<Rightarrow> (Inl (ClientError ''404'' ''when calling the HeadObject operation: Not Found''), w)
     | Some ob \<Rightarrow> (Inr ob, w))"

definition put_object :: "string \<Rightarrow> string \<Rightarrow> (world, unit) io" where
  "put_object k txt = aws (modify (\<lambda>w. w\<lparr>w_objects :=
     \<lparr>o_key = k, o_modified = w_now w, o_size = int (length txt), o_text = txt\<rparr>
       # filter (\<lambda>ob. o_key ob \<noteq> k) (w_objects w)\<rparr>))"

definition delete_keys :: "string list \<Rightarrow> (world, unit) io" where
  "delete_keys ks = aws (modify (\<lambda>w. w\<lparr>w_objects :=
     filter (\<lambda>ob. o_key ob \<notin> set ks) (w_objects w)\<rparr>))"

definition under :: "string \<Rightarrow> s3_object list \<Rightarrow> s3_object list" where
  "under pre os = sort_key o_key (filter (\<lambda>ob. prefix pre (o_key ob)) os)"

text \<open>One call of \<open>list_objects_v2\<close>: the first thousand keys under a prefix.\<close>

definition list_page :: "string \<Rightarrow> (world, s3_object list) io" where
  "list_page pre = aws (gets (\<lambda>w. take 1000 (under pre (w_objects w))))"

text \<open>The paginator: all keys under a prefix, a thousand for each call.\<close>

definition list_objects :: "string \<Rightarrow> (world, s3_object list) io" where
  "list_objects pre = (\<lambda>w. scan_from 999 (\<lambda>_. True) (under pre (w_objects w)) 0 w)"

text \<open>The \<open>CommonPrefixes\<close> of one listing call with delimiter \<open>/\<close>.\<close>

definition segment_after :: "string \<Rightarrow> string \<Rightarrow> string option" where
  "segment_after pre k = (let r = drop (length pre) k in
     if CHR ''/'' \<in> set r then Some (pre @ takeWhile (\<lambda>x. x \<noteq> CHR ''/'') r @ ''/'') else None)"

definition common_prefixes :: "string \<Rightarrow> (world, string list) io" where
  "common_prefixes pre = aws (gets (\<lambda>w. take 1000
     (sorted_set (List.map_filter (\<lambda>ob. segment_after pre (o_key ob)) (under pre (w_objects w))))))"

definition utf8_len :: "string \<Rightarrow> nat" where
  "utf8_len s = length s + length (filter (\<lambda>ch. 128 \<le> char_code ch) s)"

section \<open>Laws\<close>

lemma find_object_put [simp]:
  "find_object k (ob # filter (\<lambda>q. o_key q \<noteq> o_key ob) os) =
   (if k = o_key ob then Some ob else find_object k os)"
  by (induction os) (auto simp: find_object_def)

lemma list_objects_Inr: "list_objects pre w = (Inr os, w') \<Longrightarrow> os = under pre (w_objects w)"
  using scan_from_result [of 999 "\<lambda>_. True" "under pre (w_objects w)" 0 w os]
  by (simp add: list_objects_def)

lemma set_under: "ob \<in> set (under pre os) \<longleftrightarrow> ob \<in> set os \<and> prefix pre (o_key ob)"
  by (auto simp: under_def)

lemma list_page_Inr:
  assumes "list_page pre w = (Inr os, w')"
  shows "os = take 1000 (under pre (w_objects w))"
  using assms unfolding list_page_def by (cases rule: aws_elim) auto

context aws_frame
begin

lemma keeps_s3_reads [keeps_rules]:
  "keeps R (get_object k)" "keeps R (head_object k)" "keeps R (list_page pre)"
  "keeps R (common_prefixes pre)"
  unfolding get_object_def head_object_def list_page_def common_prefixes_def
  by (rule keeps_aws; simp add: keeps_def frame_refl split: option.split)+

lemma keeps_list_objects [keeps_rules]: "keeps R (list_objects pre)"
  using keeps_scan_from unfolding list_objects_def keeps_def by blast

end

end
