(* ===== verification/Skills.thy ===== *)
theory Skills
  imports AuditLog Store
begin

text \<open>
  Skill scoping: the groups (api/handler.py, Groups CRUD), the effective skills of a tenant, the
  per-name skill operations of the API, and the skills and templates Lambdas.
\<close>

section \<open>Effective skills\<close>

definition opt_list :: "'a list option \<Rightarrow> 'a list" where
  "opt_list v = (case v of None \<Rightarrow> [] | Some xs \<Rightarrow> xs)"

definition opt_str :: "string option \<Rightarrow> string" where
  "opt_str v = (case v of None \<Rightarrow> '''' | Some s \<Rightarrow> s)"

definition non_empty :: "string list \<Rightarrow> string list" where
  "non_empty xs = filter (\<lambda>s. s \<noteq> []) xs"

definition group_skills :: "cfg \<Rightarrow> string \<Rightarrow> (world, string list) io" where
  "group_skills c group_name = (if group_name \<noteq> [] \<and> has_groups_table c
     then try_except (andThen (get_group_row group_name) (\<lambda>g. ok (case g of
              None \<Rightarrow> [] | Some g \<Rightarrow> non_empty (opt_list (g_skills g)))))
            (\<lambda>_. ok [])
     else ok [])"

definition resolve_effective_skills :: "cfg \<Rightarrow> tenant option \<Rightarrow> (world, string list option) io" where
  "resolve_effective_skills c item = (case item of
       None \<Rightarrow> ok None
     | Some t \<Rightarrow>
         let tenant_skills = opt_list (t_skills t); group_name = strip (opt_str (t_group t)) in
         if tenant_skills = [] \<and> group_name = [] then ok None
         else andThen (group_skills c group_name) (\<lambda>gs.
           let effective = sorted_set (non_empty tenant_skills @ gs) in
           ok (if effective = [] then None else Some effective)))"

section \<open>Groups\<close>

definition fresh_group :: "string \<Rightarrow> group" where
  "fresh_group n = \<lparr>g_name = n, g_skills = None, g_description = '''', g_created_at = None\<rparr>"

definition stamp_json :: "stamp \<Rightarrow> json" where
  "stamp_json s = (case s of At t \<Rightarrow> JStr (iso_format t) | Garbled x \<Rightarrow> JStr x)"

definition strs_json :: "string list \<Rightarrow> json" where
  "strs_json xs = JList (map JStr xs)"

definition group_json :: "group \<Rightarrow> json" where
  "group_json g = JObj [(''name'', JStr (g_name g)), (''skills'', opt_json strs_json (g_skills g)),
     (''description'', JStr (g_description g)), (''created_at'', opt_json stamp_json (g_created_at g))]"

definition no_groups_table :: resp where
  "no_groups_table = err_resp 503 ''groups table not configured''"

definition no_groups_table_legacy :: resp where
  "no_groups_table_legacy = err_resp 503 ''groups table not configured (1.3.x deployment?)''"

text \<open>The pattern \<open>except Exception as e: return 500\<close>.\<close>

definition or_500 :: "(world, resp) io \<Rightarrow> (world, resp) io" where
  "or_500 m = try_except m (\<lambda>e. ok (err_resp 500 (exn_str e)))"

definition list_groups :: "cfg \<Rightarrow> (world, resp) io" where
  "list_groups c = (if \<not> has_groups_table c then ok no_groups_table_legacy
     else or_500 (andThen (scan_all w_groups (\<lambda>_. True)) (\<lambda>gs.
       ok (mk_resp 200 (JObj [(''groups'', JList (map group_json gs))])))))"

text \<open>\<open>(body.get(k) or "").strip()\<close>: a value of another type has no \<open>strip\<close>.\<close>

definition stripped_field :: "json \<Rightarrow> string \<Rightarrow> exn + string" where
  "stripped_field b k = bind_sum (get_or b k JNull) (\<lambda>v.
     if \<not> truthy v then Inr '''' else (case v of
       JStr s \<Rightarrow> Inr (strip s) | _ \<Rightarrow> Inl (no_attribute v ''strip'')))"

definition skills_field :: "json \<Rightarrow> exn + json" where
  "skills_field b = bind_sum (get_or b ''skills'' JNull)
     (\<lambda>v. Inr (if truthy v then v else JList []))"

definition put_new_group :: "group \<Rightarrow> (world, unit) io" where
  "put_new_group g = aws (\<lambda>w. if map_of (w_groups w) (g_name g) \<noteq> None then (Inl cond_failed, w)
     else (Inr (), w\<lparr>w_groups := AList.update (g_name g) g (w_groups w)\<rparr>))"

definition name_pattern_err :: string where
  "name_pattern_err = ''name must match ^[a-z0-9]([a-z0-9-]{0,30}[a-z0-9])?$''"

definition create_group :: "cfg \<Rightarrow> payload \<Rightarrow> (world, resp) io" where
  "create_group c bd = (if \<not> has_groups_table c then ok no_groups_table_legacy
     else (case load_body_or_empty bd of
       Inl e \<Rightarrow> ok (err_resp 400 ''invalid JSON'')
     | Inr b \<Rightarrow>
       andThen (lift_sum (stripped_field b ''name'')) (\<lambda>name.
       if name = [] then ok (err_resp 400 ''name is required'')
       else if \<not> name_re name then ok (err_resp 400 name_pattern_err)
       else andThen (lift_sum (skills_field b)) (\<lambda>skills.
       if \<not> is_list skills \<or> \<not> list_all is_str (list_items skills)
       then ok (err_resp 400 ''skills must be a list of strings'')
       else andThen (lift_sum (stripped_field b ''description'')) (\<lambda>description.
       andThen now (\<lambda>t.
       let item = \<lparr>g_name = name, g_skills = Some (sorted_set (non_empty (map the_str (list_items skills)))),
                   g_description = description, g_created_at = Some (At t)\<rparr> in
       try_except (andThen (put_new_group item) (\<lambda>_. ok (mk_resp 201 (group_json item))))
         (\<lambda>e. if is_cond_failed e then ok (err_resp 409 (''group '' @ quoted name @ '' already exists''))
              else ok (err_resp 500 (exn_str e)))))))))"

definition set_group_skills :: "string \<Rightarrow> string list \<Rightarrow> (world, unit) io" where
  "set_group_skills name skills = aws (modify (\<lambda>w. w\<lparr>w_groups := AList.update name
     ((case map_of (w_groups w) name of None \<Rightarrow> fresh_group name | Some g \<Rightarrow> g)
        \<lparr>g_skills := Some skills\<rparr>) (w_groups w)\<rparr>))"

text \<open>What adding and removing share: read the group, write the edited list back.\<close>

definition edit_group :: "string \<Rightarrow> (string list \<Rightarrow> string list) \<Rightarrow> (world, resp) io" where
  "edit_group name f = or_500 (andThen (get_group_row name) (\<lambda>existing. case existing of
       None \<Rightarrow> ok (err_resp 404 (''group '' @ quoted name @ '' not found''))
     | Some g \<Rightarrow> let cur = sorted_set (f (opt_list (g_skills g))) in
         andThen (set_group_skills name cur) (\<lambda>_.
         ok (mk_resp 200 (JObj [(''name'', JStr name), (''skills'', strs_json cur)])))))"

definition add_skill_to_group :: "cfg \<Rightarrow> string \<Rightarrow> payload \<Rightarrow> (world, resp) io" where
  "add_skill_to_group c name bd = (if \<not> has_groups_table c then ok no_groups_table
     else (case load_body_or_empty bd of
       Inl e \<Rightarrow> ok (err_resp 400 ''invalid JSON'')
     | Inr b \<Rightarrow> andThen (lift_sum (stripped_field b ''skill'')) (\<lambda>skill.
         if skill = [] then ok (err_resp 400 ''skill is required'')
         else edit_group name (\<lambda>cur. skill # cur))))"

definition remove_skill_from_group :: "cfg \<Rightarrow> string \<Rightarrow> string \<Rightarrow> (world, resp) io" where
  "remove_skill_from_group c name skill = (if \<not> has_groups_table c then ok no_groups_table
     else edit_group name (removeAll skill))"

section \<open>Skill documents\<close>

definition skill_max_bytes :: nat where
  "skill_max_bytes = 256 * 1024"

definition skill_key :: "string \<Rightarrow> string" where
  "skill_key name = ''skills/'' @ name @ ''/SKILL.md''"

definition skill_not_found :: "string \<Rightarrow> resp" where
  "skill_not_found name = err_resp 404 (''skill '' @ quoted name @ '' not found'')"

definition contains :: "string \<Rightarrow> string \<Rightarrow> bool" where
  "contains pat s = (after_sub pat s \<noteq> None)"

definition no_bucket :: resp where
  "no_bucket = err_resp 503 ''ASSETS_BUCKET not configured''"

definition read_skill :: "cfg \<Rightarrow> string \<Rightarrow> (world, resp) io" where
  "read_skill c name = (
     if \<not> skill_name_re name then ok (err_resp 400 ''invalid skill name'')
     else if assets_bucket c = [] then ok no_bucket
     else try_except (andThen (get_object (skill_key name)) (\<lambda>ob.
         ok (mk_resp 200 (JObj [(''name'', JStr name), (''content'', JStr (o_text ob)),
              (''size'', JInt (o_size ob)), (''last_modified'', JStr (iso_format (o_modified ob)))]))))
       (\<lambda>e. if error_code e = ''NoSuchKey'' then ok (skill_not_found name)
            else if contains ''NoSuchKey'' (exn_str e) \<or> contains ''404'' (exn_str e)
            then ok (skill_not_found name)
            else ok (err_resp 500 (exn_str e))))"

definition is_h1 :: "string \<Rightarrow> bool" where
  "is_h1 l = (prefix ''# '' (lstrip l) \<and> strip (drop 2 (lstrip l)) \<noteq> [])"

definition has_h1 :: "string \<Rightarrow> bool" where
  "has_h1 content = list_ex is_h1 (splitlines content)"

definition update_skill :: "cfg \<Rightarrow> string \<Rightarrow> payload \<Rightarrow> (world, resp) io" where
  "update_skill c name bd = (
     if \<not> skill_name_re name
     then ok (err_resp 400 ''invalid skill name (lowercase letters, digits, hyphens)'')
     else (case load_body_or_empty bd of
       Inl e \<Rightarrow> ok (err_resp 400 ''invalid JSON body'')
     | Inr b \<Rightarrow> andThen (lift_sum (get_or b ''content'' JNull)) (\<lambda>v.
         let content = the_str v in
         if \<not> is_str v \<or> strip content = [] then ok (err_resp 400 (''missing or empty '' @ quoted ''content'' @ '' field''))
         else if utf8_len content > skill_max_bytes
         then ok (err_resp 400 (''content exceeds '' @ show_nat skill_max_bytes @ '' bytes''))
         else if \<not> has_h1 content
         then ok (err_resp 400 (''SKILL.md must contain at least one top-level '' @ quoted ''# Title'' @ '' line''))
         else if assets_bucket c = [] then ok no_bucket
         else or_500 (
           andThen (try_except (andThen (head_object (skill_key name)) (\<lambda>_. ok True)) (\<lambda>_. ok False)) (\<lambda>existed.
           andThen (put_object (skill_key name) content) (\<lambda>_.
           ok (mk_resp (if existed then 200 else 201)
             (JObj [(''name'', JStr name), (''size'', JInt (int (utf8_len content))),
                    (''created'', JBool (\<not> existed))]))))))))"

text \<open>The keys in chunks of a thousand.\<close>

function chunks :: "nat \<Rightarrow> 'a list \<Rightarrow> 'a list list" where
  "chunks n xs = (if xs = [] then [] else take (Suc n) xs # chunks n (drop (Suc n) xs))"
  by pat_completeness auto
termination
  by (relation "measure (\<lambda>(n, xs). length xs)") auto

declare chunks.simps [simp del]

definition delete_skill :: "cfg \<Rightarrow> string \<Rightarrow> (world, resp) io" where
  "delete_skill c name = (
     if \<not> skill_name_re name then ok (err_resp 400 ''invalid skill name'')
     else if assets_bucket c = [] then ok no_bucket
     else or_500 (andThen (list_objects (''skills/'' @ name @ ''/'')) (\<lambda>os.
       let keys = map o_key os in
       if keys = [] then ok (skill_not_found name)
       else andThen (for_each (chunks 999 keys) delete_keys) (\<lambda>_.
         ok (mk_resp 200 (JObj [(''name'', JStr name), (''deleted'', JInt (int (length keys)))]))))))"

section \<open>The skills Lambda\<close>

text \<open>\<open>s.replace(pat, "")\<close> for a non-empty pattern: occurrences are removed from the left.\<close>

function remove_all :: "string \<Rightarrow> string \<Rightarrow> string" where
  "remove_all pat s = (if s = [] then []
     else if pat \<noteq> [] \<and> prefix pat s then remove_all pat (drop (length pat) s)
     else hd s # remove_all pat (tl s))"
  by pat_completeness auto
termination
  by (relation "measure (\<lambda>(p, s). length s)") auto

declare remove_all.simps [simp del]

definition rstrip_char :: "char \<Rightarrow> string \<Rightarrow> string" where
  "rstrip_char ch s = rev (dropWhile (\<lambda>x. x = ch) (rev s))"

definition strip_char :: "char \<Rightarrow> string \<Rightarrow> string" where
  "strip_char ch s = rstrip_char ch (dropWhile (\<lambda>x. x = ch) s)"

definition name_of_prefix :: "string \<Rightarrow> string \<Rightarrow> string" where
  "name_of_prefix pre cp = rstrip_char CHR ''/'' (remove_all pre cp)"

text \<open>The position of \<open>pat\<close> at or after \<open>i\<close>; \<open>None\<close> for \<open>-1\<close>.\<close>

fun find_sub :: "string \<Rightarrow> string \<Rightarrow> nat option" where
  "find_sub pat [] = (if pat = [] then Some 0 else None)"
| "find_sub pat (x # s) = (if prefix pat (x # s) then Some 0 else map_option Suc (find_sub pat s))"

definition find_from :: "string \<Rightarrow> nat \<Rightarrow> string \<Rightarrow> nat option" where
  "find_from pat i s = map_option (\<lambda>k. k + i) (find_sub pat (drop i s))"

definition description_tag :: string where
  "description_tag = ''description:''"

text \<open>
  The loop over the front matter: the value on the description line, unless it is empty or a
  block marker; then the first indented line of the block that follows.
\<close>

fun scan_description :: "string list \<Rightarrow> bool \<Rightarrow> string list \<Rightarrow> string + string list" where
  "scan_description [] in_desc desc = Inr desc"
| "scan_description (l # ls) in_desc desc =
     (if prefix description_tag (strip l) then
        (let v = strip_char (CHR 0x27) (strip_char (CHR 0x22) (strip (snd (split1 (CHR '':'') l)))) in
         if v \<noteq> [] \<and> v \<noteq> ''|'' \<and> v \<noteq> ''>'' then Inl v
         else scan_description ls True desc)
      else if in_desc then
        (if prefix ''  '' l then scan_description ls in_desc (desc @ [strip l]) else Inr desc)
      else scan_description ls in_desc desc)"

definition description_of :: "string \<Rightarrow> string" where
  "description_of content = (if prefix ''---'' content then (case find_from ''---'' 3 content of
       None \<Rightarrow> ''''
     | Some e \<Rightarrow> (case scan_description (splitlines (drop 3 (take e content))) False [] of
           Inl v \<Rightarrow> v
         | Inr [] \<Rightarrow> ''''
         | Inr (d # ds) \<Rightarrow> d))
     else '''')"

definition read_skill_description :: "string \<Rightarrow> (world, string) io" where
  "read_skill_description name = try_except
     (andThen (get_object (''skills/'' @ name @ ''/SKILL.md'')) (\<lambda>ob.
        ok (description_of (take 4096 (o_text ob)))))
     (\<lambda>_. ok '''')"

definition list_one_skill :: "string list option \<Rightarrow> string \<Rightarrow> json list \<Rightarrow> (world, json list) io" where
  "list_one_skill allow_list cp acc = (let name = name_of_prefix ''skills/'' cp in
     if name = [] then ok acc
     else if (case allow_list of None \<Rightarrow> False | Some al \<Rightarrow> name \<notin> set al) then ok acc
     else andThen (read_skill_description name) (\<lambda>desc.
       ok (acc @ [JObj [(''id'', JStr name), (''name'', JStr name), (''description'', JStr desc)]])))"

text \<open>The Lambda's own copy of the resolution, which is the API's.\<close>

definition skills_resolve :: "cfg \<Rightarrow> tenant \<Rightarrow> (world, string list option) io" where
  "skills_resolve c t = (let tenant_skills = opt_list (t_skills t); group_name = strip (opt_str (t_group t)) in
     if tenant_skills = [] \<and> group_name = [] then ok None
     else andThen (if group_name \<noteq> [] \<and> has_groups_table c
          then try_except (andThen (get_group_row group_name) (\<lambda>g. ok (case g of None \<Rightarrow> [] | Some g \<Rightarrow> non_empty (opt_list (g_skills g)))))
            (\<lambda>_. ok [])
          else ok []) (\<lambda>added.
       let effective = sorted_set (non_empty tenant_skills @ added) in ok (if effective = [] then None else Some effective)))"

definition list_skills :: "cfg \<Rightarrow> string option \<Rightarrow> (world, resp) io" where
  "list_skills c tenant_filter = or_500 (
     let filtered = (case tenant_filter of None \<Rightarrow> False | Some s \<Rightarrow> s \<noteq> []);
         respond = (\<lambda>allow_list. andThen (common_prefixes ''skills/'') (\<lambda>cps.
           andThen (fold_io (list_one_skill allow_list) cps []) (\<lambda>skills.
           ok (mk_resp 200 (JObj ((''skills'', JList skills) #
             (if filtered then [(''tenant'', JStr (the tenant_filter)),
                (''scope'', JStr (if allow_list = None then ''broadcast'' else ''scoped''))] else [])))))))
     in if filtered \<and> has_tenants_table c
        then andThen (get_tenant_row (the tenant_filter)) (\<lambda>tenant. case tenant of
            None \<Rightarrow> ok (err_resp 404 (''tenant not found: '' @ the tenant_filter))
          | Some t \<Rightarrow> andThen (skills_resolve c t) respond)
        else respond None)"

definition skills_handler :: "cfg \<Rightarrow> string \<Rightarrow> string \<Rightarrow> (string \<times> string) list \<Rightarrow> (world, resp) io" where
  "skills_handler c meth path query =
     (if meth = ''GET'' \<and> path = ''/skills'' then list_skills c (map_of query ''tenant'') else ok (err_resp 404 ''not found''))"

section \<open>The templates Lambda\<close>

definition template_key :: "string \<Rightarrow> string" where
  "template_key name = ''templates/openclaw/'' @ name @ ''/openclaw.json''"

definition list_one_template :: "string \<Rightarrow> json list \<Rightarrow> (world, json list) io" where
  "list_one_template cp acc = (let name = name_of_prefix ''templates/openclaw/'' cp in
     if name = [] then ok acc
     else andThen (try_except
         (andThen (head_object (template_key name)) (\<lambda>ob.
            ok (o_size ob, iso_format (o_modified ob))))
         (\<lambda>_. ok (0, ''''))) (\<lambda>(sz, modified).
       ok (acc @ [JObj [(''name'', JStr name), (''size'', JInt sz), (''modified'', JStr modified)]])))"

definition list_templates :: "(world, resp) io" where
  "list_templates = or_500 (andThen (common_prefixes ''templates/openclaw/'') (\<lambda>cps.
     andThen (fold_io list_one_template cps []) (\<lambda>ts.
     ok (mk_resp 200 (JObj [(''templates'', JList ts)])))))"

text \<open>\<open>json_text\<close> and \<open>json_value\<close> stand for \<open>json.dumps\<close> and \<open>json.loads\<close> on stored documents.\<close>

definition get_template :: "(string \<Rightarrow> json option) \<Rightarrow> string \<Rightarrow> (world, resp) io" where
  "get_template json_value name = try_except
     (andThen (get_object (template_key name)) (\<lambda>ob. case json_value (o_text ob) of
        None \<Rightarrow> raise json_decode_error
      | Some v \<Rightarrow> ok (mk_resp 200 (JObj [(''name'', JStr name), (''content'', v)]))))
     (\<lambda>e. if error_code e = ''NoSuchKey''
          then ok (err_resp 404 (''template '' @ quoted name @ '' not found''))
          else ok (err_resp 500 (exn_str e)))"

definition put_template :: "(json \<Rightarrow> string) \<Rightarrow> string \<Rightarrow> payload \<Rightarrow> (world, resp) io" where
  "put_template json_text name bd = (
     if name = ''default'' then ok (err_resp 403 ''cannot modify default template'')
     else (case load_body bd of
         Inl e \<Rightarrow> ok (err_resp 400 ''invalid JSON'')
       | Inr v \<Rightarrow> or_500 (andThen (put_object (template_key name) (json_text v)) (\<lambda>_.
           ok (mk_resp 200 (JObj [(''name'', JStr name), (''status'', JStr ''saved'')]))))))"

definition delete_template :: "string \<Rightarrow> (world, resp) io" where
  "delete_template name = (
     if name = ''default'' then ok (err_resp 403 ''cannot delete default template'')
     else or_500 (andThen (delete_keys [template_key name]) (\<lambda>_.
       ok (mk_resp 200 (JObj [(''name'', JStr name), (''status'', JStr ''deleted'')])))))"

definition templates_handler ::
  "(string \<Rightarrow> json option) \<Rightarrow> (json \<Rightarrow> string) \<Rightarrow> event \<Rightarrow> (world, resp) io" where
  "templates_handler json_value json_text ev = (let name = param (ev_path ev) ''name'' '''' in
     if ev_method ev = ''GET'' \<and> name = [] then list_templates
     else if ev_method ev = ''GET'' \<and> name \<noteq> [] then get_template json_value name
     else if ev_method ev = ''PUT'' \<and> name \<noteq> [] then put_template json_text name (ev_body ev)
     else if ev_method ev = ''DELETE'' \<and> name \<noteq> [] then delete_template name
     else ok (err_resp 404 ''not found''))"

section \<open>Lemmas\<close>

lemma skills_resolve_same: "skills_resolve c t = resolve_effective_skills c (Some t)"
  by (simp add: skills_resolve_def resolve_effective_skills_def group_skills_def Let_def)

lemma concat_chunks [simp]: "concat (chunks n xs) = xs"
  by (induction n xs rule: chunks.induct) (subst chunks.simps, auto)

lemma group_skills_quiet:
  "w_oracle w = [] \<Longrightarrow> has_groups_table c \<Longrightarrow> g \<noteq> [] \<Longrightarrow> group_skills c g w =
   (Inr (case map_of (w_groups w) g of None \<Rightarrow> [] | Some r \<Rightarrow> non_empty (opt_list (g_skills r))), w)"
  by (simp add: group_skills_def get_group_row_def io_simps)

lemma group_skills_none: "group_skills c [] = ok []"
  by (simp add: group_skills_def)

text \<open>The skills a tenant is entitled to, as a set.\<close>

definition entitled :: "world \<Rightarrow> tenant \<Rightarrow> string set" where
  "entitled w t = set (non_empty (opt_list (t_skills t))) \<union>
     (case map_of (w_groups w) (strip (opt_str (t_group t))) of
        Some g \<Rightarrow> if strip (opt_str (t_group t)) = [] then {} else set (non_empty (opt_list (g_skills g)))
      | None \<Rightarrow> {})"

lemma sorted_set_Nil [simp]: "sorted_set xs = [] \<longleftrightarrow> xs = []"
  by (metis list.set_sel(1) set_sorted_set empty_iff list.set(1) neq_Nil_conv list.set_intros(1))

lemma resolve_quiet:
  assumes "w_oracle w = []" "has_groups_table c"
  shows "resolve_effective_skills c (Some t) w =
    (Inr (if entitled w t = {} then None else Some (sorted_list_of_set (entitled w t))), w)"
proof -
  let ?g = "strip (opt_str (t_group t))" and ?own = "opt_list (t_skills t)"
  have eq: "sorted_set xs = sorted_list_of_set (set xs)" for xs :: "string list"
    by (simp add: sorted_set_def sorted_list_of_set_sort_remdups)
  show ?thesis
  proof (cases "?g = []")
    case True
    then show ?thesis
      by (auto simp: resolve_effective_skills_def Let_def group_skills_none entitled_def eq ok_apply
          non_empty_def split: option.splits)
  next
    case False
    let ?gs = "case map_of (w_groups w) ?g of None \<Rightarrow> [] | Some r \<Rightarrow> non_empty (opt_list (g_skills r))"
    have e: "entitled w t = set (non_empty ?own @ ?gs)"
      using False by (auto simp: entitled_def split: option.split)
    from False show ?thesis
      unfolding e resolve_effective_skills_def Let_def
      by (simp add: io_simps group_skills_quiet [OF assms False] flip: eq del: set_append)
  qed
qed

subsection \<open>Editing a set of skills\<close>

text \<open>
  The contract of the group operations towards the console: in a good state they edit the
  members of one group and leave the others alone. Under it, a sequence of edits has the effect
  of the last edit of each skill.
\<close>

datatype edit = Add string | Remove string

fun edit_set :: "edit \<Rightarrow> string set \<Rightarrow> string set" where
  "edit_set (Add s) A = insert s A"
| "edit_set (Remove s) A = A - {s}"

fun edit_skill :: "edit \<Rightarrow> string" where
  "edit_skill (Add s) = s"
| "edit_skill (Remove s) = s"

fun last_edit :: "string \<Rightarrow> edit list \<Rightarrow> edit option" where
  "last_edit s [] = None"
| "last_edit s (e # es) = (case last_edit s es of Some d \<Rightarrow> Some d
     | None \<Rightarrow> if edit_skill e = s then Some e else None)"

locale skill_groups =
  fixes good :: "'s \<Rightarrow> bool"
    and accepts :: "string \<Rightarrow> edit \<Rightarrow> 's \<Rightarrow> bool"
    and members :: "string \<Rightarrow> 's \<Rightarrow> string set"
    and apply_edit :: "string \<Rightarrow> edit \<Rightarrow> 's \<Rightarrow> 's"
  assumes good_edit: "good s \<Longrightarrow> accepts g e s \<Longrightarrow> good (apply_edit g e s)"
    and accepts_edit: "good s \<Longrightarrow> accepts g e s \<Longrightarrow> accepts h d s \<Longrightarrow> accepts h d (apply_edit g e s)"
    and members_edit: "good s \<Longrightarrow> accepts g e s \<Longrightarrow> members g (apply_edit g e s) = edit_set e (members g s)"
    and members_other: "good s \<Longrightarrow> accepts g e s \<Longrightarrow> h \<noteq> g \<Longrightarrow> members h (apply_edit g e s) = members h s"
begin

lemma members_fold:
  "good s \<Longrightarrow> \<forall>e \<in> set es. accepts g e s \<Longrightarrow>
   members g (fold (apply_edit g) es s) = fold edit_set es (members g s) \<and>
   (\<forall>h. h \<noteq> g \<longrightarrow> members h (fold (apply_edit g) es s) = members h s)"
  by (induction es arbitrary: s) (simp_all add: good_edit accepts_edit members_edit members_other)

lemma fold_edit_set:
  "x \<in> fold edit_set es A \<longleftrightarrow>
   (case last_edit x es of Some e \<Rightarrow> e = Add x | None \<Rightarrow> x \<in> A)"
proof (induction es arbitrary: A)
  case (Cons e es)
  then show ?case by (cases e) (auto split: option.splits)
qed simp

lemma last_edit_wins:
  "good s \<Longrightarrow> \<forall>e \<in> set es. accepts g e s \<Longrightarrow> x \<in> members g (fold (apply_edit g) es s) \<longleftrightarrow>
   (case last_edit x es of Some e \<Rightarrow> e = Add x | None \<Rightarrow> x \<in> members g s)"
  by (simp add: members_fold fold_edit_set)

end

text \<open>The request an edit stands for, and the state after it.\<close>

definition edit_request :: "cfg \<Rightarrow> string \<Rightarrow> edit \<Rightarrow> (world, resp) io" where
  "edit_request c g e = (case e of
       Add s \<Rightarrow> add_skill_to_group c g (Json (JObj [(''skill'', JStr s)]))
     | Remove s \<Rightarrow> remove_skill_from_group c g s)"

definition group_members :: "string \<Rightarrow> world \<Rightarrow> string set" where
  "group_members g w = (case map_of (w_groups w) g of None \<Rightarrow> {} | Some r \<Rightarrow> set (opt_list (g_skills r)))"

text \<open>An edit of an existing group by a skill name without surrounding space.\<close>

definition effective_edit :: "string \<Rightarrow> edit \<Rightarrow> world \<Rightarrow> bool" where
  "effective_edit g e w = (map_of (w_groups w) g \<noteq> None \<and>
     (case e of Add s \<Rightarrow> s \<noteq> [] \<and> strip s = s | Remove s \<Rightarrow> True))"

definition send_edit :: "cfg \<Rightarrow> string \<Rightarrow> edit \<Rightarrow> world \<Rightarrow> world" where
  "send_edit c g e w = snd (edit_request c g e w)"

lemma edit_group_quiet:
  "w_oracle w = [] \<Longrightarrow> edit_group g f w = (case map_of (w_groups w) g of
     None \<Rightarrow> (Inr (err_resp 404 (''group '' @ quoted g @ '' not found'')), w)
   | Some r \<Rightarrow> (Inr (mk_resp 200 (JObj [(''name'', JStr g),
         (''skills'', strs_json (sorted_set (f (opt_list (g_skills r)))))])),
       w\<lparr>w_groups := AList.update g (r\<lparr>g_skills := Some (sorted_set (f (opt_list (g_skills r))))\<rparr>) (w_groups w)\<rparr>))"
  by (simp add: edit_group_def or_500_def get_group_row_def set_group_skills_def io_simps Let_def
      split: option.split)

lemma edit_request_quiet:
  assumes "w_oracle w = []" "has_groups_table c" "effective_edit g e w"
  shows "group_members g (snd (edit_request c g e w)) = edit_set e (group_members g w) \<and>
    (\<forall>h. h \<noteq> g \<longrightarrow> group_members h (snd (edit_request c g e w)) = group_members h w) \<and>
    w_oracle (snd (edit_request c g e w)) = [] \<and>
    (\<forall>h. map_of (w_groups (snd (edit_request c g e w))) h \<noteq> None \<longleftrightarrow> map_of (w_groups w) h \<noteq> None)"
proof -
  obtain r where r: "map_of (w_groups w) g = Some r" using assms(3) by (auto simp: effective_edit_def)
  have field: "stripped_field (JObj [(''skill'', JStr s)]) ''skill'' = Inr (strip s)" for s
    by (simp add: stripped_field_def get_or_def strip_def lstrip_def rstrip_def)
  show ?thesis
    using assms r
    by (cases e)
      (auto simp: edit_request_def add_skill_to_group_def remove_skill_from_group_def load_body_or_empty_def
        field io_simps edit_group_quiet group_members_def update_conv' effective_edit_def opt_list_def)
qed

definition with_groups :: "cfg \<Rightarrow> cfg" where
  "with_groups c = c\<lparr>has_groups_table := True\<rparr>"

interpretation console: skill_groups quiet effective_edit group_members "send_edit (with_groups c)" for c
proof unfold_locales
  fix s g e
  assume "quiet s" "effective_edit g e s"
  then have q: "w_oracle s = []" "has_groups_table (with_groups c)" "effective_edit g e s"
    by (simp_all add: quiet_def with_groups_def)
  note step = edit_request_quiet [OF q]
  show "quiet (send_edit (with_groups c) g e s)"
    using step by (simp add: quiet_def send_edit_def)
  show "effective_edit h d s \<Longrightarrow> effective_edit h d (send_edit (with_groups c) g e s)" for h d
    using step by (auto simp: effective_edit_def send_edit_def)
  show "group_members g (send_edit (with_groups c) g e s) = edit_set e (group_members g s)"
    using step by (simp add: send_edit_def)
  show "h \<noteq> g \<Longrightarrow> group_members h (send_edit (with_groups c) g e s) = group_members h s" for h
    using step by (simp add: send_edit_def)
qed

subsection \<open>Listing names\<close>

lemma prefix_end_marker:
  assumes "ch \<notin> set n"
  shows "prefix (p @ [ch]) (n @ [ch]) \<longleftrightarrow> n = p"
proof
  assume "prefix (p @ [ch]) (n @ [ch])"
  then consider "prefix (p @ [ch]) n" | "p @ [ch] = n @ [ch]" by auto
  then show "n = p" using assms by cases (auto simp: prefix_def)
qed simp

lemma prefix_marker:
  "CHR ''/'' \<notin> set n \<Longrightarrow> prefix ''skills/'' (n @ ''/'') \<longleftrightarrow> n = ''skills''"
  using prefix_end_marker [of "CHR ''/''" n "''skills''"] by simp

lemma remove_marker:
  "CHR ''/'' \<notin> set n \<Longrightarrow> remove_all ''skills/'' (n @ ''/'') =
   (if suffix ''skills'' n then take (length n - 6) n else n @ ''/'')"
proof (induction n)
  case Nil
  show ?case by (simp add: remove_all.simps suffix_def)
next
  case (Cons x n)
  show ?case
  proof (cases "x # n = ''skills''")
    case True
    then show ?thesis by (simp add: remove_all.simps)
  next
    case False
    then have np: "\<not> prefix ''skills/'' ((x # n) @ ''/'')"
      using prefix_marker [OF Cons.prems] by simp
    have sfx: "suffix ''skills'' (x # n) \<longleftrightarrow> suffix ''skills'' n"
      using False by (auto simp: suffix_Cons)
    have "take (Suc (length n) - 6) (x # n) = x # take (length n - 6) n" if "suffix ''skills'' n"
      using suffix_length_le [OF that] by (simp add: Suc_diff_le take_Cons')
    moreover have "remove_all ''skills/'' ((x # n) @ ''/'') = x # remove_all ''skills/'' (n @ ''/'')"
      by (subst remove_all.simps) (simp only: np [unfolded append_Cons] if_False append_Cons list.sel list.distinct simp_thms)
    ultimately show ?thesis using Cons sfx by simp
  qed
qed

lemma rstrip_slash: "CHR ''/'' \<notin> set n \<Longrightarrow> rstrip_char CHR ''/'' (n @ ''/'') = n"
  "CHR ''/'' \<notin> set n \<Longrightarrow> rstrip_char CHR ''/'' n = n"
proof -
  have "dropWhile (\<lambda>x. x = CHR ''/'') (rev n) = rev n" if "CHR ''/'' \<notin> set n"
    using that by (cases "rev n") (auto dest: arg_cong [where f = set])
  then show "CHR ''/'' \<notin> set n \<Longrightarrow> rstrip_char CHR ''/'' (n @ ''/'') = n"
    "CHR ''/'' \<notin> set n \<Longrightarrow> rstrip_char CHR ''/'' n = n"
    by (simp_all add: rstrip_char_def)
qed

lemma name_of_prefix_skills:
  assumes "CHR ''/'' \<notin> set n"
  shows "name_of_prefix ''skills/'' (''skills/'' @ n @ ''/'') =
    (if suffix ''skills'' n then take (length n - 6) n else n)"
proof -
  have "remove_all ''skills/'' (''skills/'' @ n @ ''/'') = remove_all ''skills/'' (n @ ''/'')"
    by (subst remove_all.simps) simp
  moreover have "CHR ''/'' \<notin> set (take k n)" for k using assms by (meson in_set_takeD)
  ultimately show ?thesis
    using assms by (simp add: name_of_prefix_def remove_marker rstrip_slash)
qed

section \<open>Properties\<close>

text \<open>
  A tenant's effective skills are exactly its own skills together with those of its group,
  without repetition and in order; a tenant with neither is not scoped at all.
\<close>

theorem effective_skills_exact:
  assumes "w_oracle w = []" "has_groups_table c"
  shows "resolve_effective_skills c (Some t) w =
    (Inr (if entitled w t = {} then None else Some (sorted_list_of_set (entitled w t))), w)"
  by (rule resolve_quiet [OF assms])

theorem effective_skills_exact_witness:
  "resolve_effective_skills cfg0 (Some ((fresh_tenant ''a'')\<lparr>t_skills := Some [''git'']\<rparr>)) world0 =
     (Inr (Some [''git'']), world0)"
proof -
  have e: "entitled world0 ((fresh_tenant ''a'')\<lparr>t_skills := Some [''git'']\<rparr>) = {''git''}"
    by (simp add: entitled_def world0_def non_empty_def opt_list_def)
  show ?thesis
    using effective_skills_exact [of world0 cfg0 "(fresh_tenant ''a'')\<lparr>t_skills := Some [''git'']\<rparr>"]
    unfolding e by (simp add: world0_def cfg0_def)
qed

text \<open>
  The skills of a group are decided by the last edit: after any sequence of additions and
  removals sent to one existing group, a skill is a member exactly if its last edit added it, or
  it was a member before and no edit named it. No other group changes.
\<close>

theorem group_edits_last_wins:
  assumes "w_oracle w = []" "\<forall>e \<in> set es. effective_edit g e w"
  shows "(x \<in> group_members g (fold (send_edit (with_groups c) g) es w) \<longleftrightarrow>
      (case last_edit x es of Some e \<Rightarrow> e = Add x | None \<Rightarrow> x \<in> group_members g w)) \<and>
    (\<forall>h. h \<noteq> g \<longrightarrow> group_members h (fold (send_edit (with_groups c) g) es w) = group_members h w)"
  using console.last_edit_wins [of w es g x c] console.members_fold [of w es g c] assms
  by (simp add: quiet_def)

theorem group_edits_last_wins_witness:
  "''git'' \<in> group_members ''ops'' (fold (send_edit (with_groups cfg0) ''ops'') [Remove ''git'', Add ''git'']
     (world0\<lparr>w_groups := [(''ops'', fresh_group ''ops'')]\<rparr>))"
proof -
  let ?w = "world0\<lparr>w_groups := [(''ops'', fresh_group ''ops'')]\<rparr>"
  have "w_oracle ?w = []" "\<forall>e \<in> set [Remove ''git'', Add ''git'']. effective_edit ''ops'' e ?w"
    by code_simp+
  from group_edits_last_wins [OF this, of "''git''" cfg0] show ?thesis by simp
qed

text \<open>
  The skills Lambda lists a skill directory under its own name exactly when the name does
  not end in \<open>skills\<close>; a name that does loses that ending, so its description is not found and
  a scoped listing leaves it out.
\<close>

theorem skill_listed_under_its_name:
  assumes "CHR ''/'' \<notin> set n" "n \<noteq> []"
  shows "name_of_prefix ''skills/'' (''skills/'' @ n @ ''/'') = n \<longleftrightarrow> \<not> suffix ''skills'' n"
proof (cases "suffix ''skills'' n")
  case True
  then have "length (take (length n - 6) n) < length n"
    using suffix_length_le [OF True] by simp
  then have "take (length n - 6) n \<noteq> n" by (metis nat_less_le)
  with True show ?thesis using name_of_prefix_skills [OF assms(1)] by (simp only: if_True simp_thms)
next
  case False
  then show ?thesis using name_of_prefix_skills [OF assms(1)] by (simp only: if_False simp_thms)
qed

theorem skill_listed_under_its_name_witness:
  "name_of_prefix ''skills/'' (''skills/'' @ ''my-skills'' @ ''/'') \<noteq> ''my-skills''"
proof -
  have "suffix ''skills'' ''my-skills''" by code_simp
  with skill_listed_under_its_name [of "''my-skills''"] show ?thesis by simp
qed

end
