(* ===== verification/Hosts.thy ===== *)
theory Hosts
  imports Capacity Skills
begin

text \<open>
  Placement and host slots (api/handler.py): the least-loaded host, the shuffled candidates of a
  create, the atomic reservation of a slot and its release, and the registration and removal of
  hosts. What EC2 knows of an instance and of an instance type are arguments.
\<close>

section \<open>Rows as JSON\<close>

definition attrs :: "(string \<times> json option) list \<Rightarrow> json" where
  "attrs kvs = JObj (List.map_filter (\<lambda>(k, v). map_option (Pair k) v) kvs)"

definition host_attrs :: "host \<Rightarrow> (string \<times> json option) list" where
  "host_attrs h = [(''instance_id'', Some (JStr (h_instance_id h))),
     (''private_ip'', map_option JStr (h_private_ip h)), (''az'', map_option JStr (h_az h)),
     (''total_vcpu'', map_option JInt (h_total_vcpu h)),
     (''total_mem_mb'', map_option JInt (h_total_mem_mb h)),
     (''used_vcpu'', map_option JInt (h_used_vcpu h)),
     (''used_mem_mb'', map_option JInt (h_used_mem_mb h)),
     (''vm_count'', map_option JInt (h_vm_count h)),
     (''next_vm_num'', map_option JInt (h_next_vm_num h)),
     (''status'', map_option JStr (h_status h)),
     (''idle_since'', map_option stamp_json (h_idle_since h)),
     (''rootfs_version'', map_option JStr (h_rootfs_version h)),
     (''last_seen'', map_option stamp_json (h_last_seen h))]"

text \<open>\<open>row["k"]\<close>, which raises for a missing attribute.\<close>

definition key_error :: "string \<Rightarrow> exn" where
  "key_error k = PyError KeyError (quoted k)"

definition required :: "string \<Rightarrow> 'a option \<Rightarrow> exn + 'a" where
  "required k v = (case v of None \<Rightarrow> Inl (key_error k) | Some x \<Rightarrow> Inr x)"

text \<open>\<open>SET a = a + :n\<close>: the service refuses an addition to a missing attribute.\<close>

definition plus_attr :: "int option \<Rightarrow> int \<Rightarrow> exn + int" where
  "plus_attr v n = (case v of None \<Rightarrow> Inl validation_error | Some i \<Rightarrow> Inr (i + n))"

section \<open>Finding a host\<close>

definition fits :: "cfg \<Rightarrow> host \<Rightarrow> int \<Rightarrow> int \<Rightarrow> bool" where
  "fits c h vcpu mem = host_fits h vcpu mem (cpu_overcommit c) (mem_overcommit c) (max_vms_per_host c)"

definition free_of :: "cfg \<Rightarrow> host \<Rightarrow> int \<times> int" where
  "free_of c h = host_free h (cpu_overcommit c) (mem_overcommit c)"

fun candidates :: "cfg \<Rightarrow> host list \<Rightarrow> int \<Rightarrow> int \<Rightarrow> (int \<times> int \<times> string \<times> host) list" where
  "candidates c [] v m = []"
| "candidates c (h # hs) v m =
     (if \<not> fits c h v m then candidates c hs v m
      else (case free_of c h of (fv, fm) \<Rightarrow> (- fv, - fm, h_instance_id h, h) # candidates c hs v m))"

definition candidate_key :: "int \<times> int \<times> string \<times> host \<Rightarrow> int \<times> int \<times> string" where
  "candidate_key x = (fst x, fst (snd x), fst (snd (snd x)))"

definition candidate_host :: "int \<times> int \<times> string \<times> host \<Rightarrow> host" where
  "candidate_host x = snd (snd (snd x))"

definition open_host :: "host \<Rightarrow> bool" where
  "open_host h = (h_status h \<in> {Some ''active'', Some ''idle''})"

definition find_host :: "cfg \<Rightarrow> int \<Rightarrow> int \<Rightarrow> (world, host option) io" where
  "find_host c v m = andThen (scan_all w_hosts open_host) (\<lambda>hs.
     let cs = candidates c hs v m in
     if cs = [] then ok None else ok (Some (candidate_host (hd (sort_key candidate_key cs)))))"

definition rank_candidate_hosts :: "cfg \<Rightarrow> int \<Rightarrow> int \<Rightarrow> (world, host list) io" where
  "rank_candidate_hosts c v m = andThen (scan_all w_hosts open_host) (\<lambda>hs.
     ok (map candidate_host (sort_key candidate_key (candidates c hs v m))))"

text \<open>\<open>random.shuffle\<close>: from the last index down, swap with a random index at or below it.\<close>

definition rand_below :: "nat \<Rightarrow> (world, nat) io" where
  "rand_below n = (\<lambda>w. case w_rand w of [] \<Rightarrow> (Inr 0, w) | r # rs \<Rightarrow> (Inr (r mod n), w\<lparr>w_rand := rs\<rparr>))"

definition swap :: "nat \<Rightarrow> nat \<Rightarrow> 'a list \<Rightarrow> 'a list" where
  "swap i j xs = xs[i := xs ! j, j := xs ! i]"

primrec shuffle_from :: "nat \<Rightarrow> 'a list \<Rightarrow> (world, 'a list) io" where
  "shuffle_from 0 xs = ok xs"
| "shuffle_from (Suc i) xs = andThen (rand_below (Suc (Suc i))) (\<lambda>j. shuffle_from i (swap (Suc i) j xs))"

definition shuffle :: "'a list \<Rightarrow> (world, 'a list) io" where
  "shuffle xs = shuffle_from (length xs - 1) xs"

definition pick_hosts_for_create :: "cfg \<Rightarrow> int \<Rightarrow> int \<Rightarrow> (world, host list) io" where
  "pick_hosts_for_create c v m = andThen (rank_candidate_hosts c v m) (\<lambda>ranked.
     if ranked = [] then ok []
     else andThen (shuffle (take (nat (max 1 (host_pick_top_k c))) ranked)) (\<lambda>head.
       ok (head @ drop (length head) ranked)))"

definition get_specific_host_with_capacity :: "cfg \<Rightarrow> string \<Rightarrow> int \<Rightarrow> int \<Rightarrow> (world, host option) io" where
  "get_specific_host_with_capacity c i v m = andThen (get_host_row i) (\<lambda>item. case item of
       None \<Rightarrow> ok None
     | Some h \<Rightarrow> if \<not> open_host h then ok None else ok (if fits c h v m then Some h else None))"

section \<open>Reserving a slot\<close>

definition has_room :: "cfg \<Rightarrow> int \<Rightarrow> int \<Rightarrow> host option \<Rightarrow> bool" where
  "has_room c max_used_v max_used_m row = (case row of
       None \<Rightarrow> False
     | Some h \<Rightarrow>
         (case h_used_vcpu h of None \<Rightarrow> False | Some u \<Rightarrow> u \<le> max_used_v) \<and>
         (case h_used_mem_mb h of None \<Rightarrow> False | Some u \<Rightarrow> u \<le> max_used_m) \<and>
         (max_vms_per_host c \<noteq> 0 \<longrightarrow>
            (case h_vm_count h of None \<Rightarrow> False | Some n \<Rightarrow> n < max_vms_per_host c)))"

definition book_row :: "int \<Rightarrow> int \<Rightarrow> host \<Rightarrow> exn + host" where
  "book_row v m h =
     bind_sum (plus_attr (h_used_vcpu h) v) (\<lambda>uv.
     bind_sum (plus_attr (h_used_mem_mb h) m) (\<lambda>um.
     bind_sum (plus_attr (h_vm_count h) 1) (\<lambda>n.
     bind_sum (plus_attr (h_next_vm_num h) 1) (\<lambda>nx.
     Inr (h\<lparr>h_used_vcpu := Some uv, h_used_mem_mb := Some um, h_vm_count := Some n,
            h_next_vm_num := Some nx, h_status := Some ''active'', h_idle_since := None\<rparr>)))))"

definition reserve_host_slot :: "cfg \<Rightarrow> host \<Rightarrow> int \<Rightarrow> int \<Rightarrow> (world, int option) io" where
  "reserve_host_slot c h v m =
     andThen (lift_sum (required ''total_vcpu'' (h_total_vcpu h))) (\<lambda>tv.
     andThen (lift_sum (required ''total_mem_mb'' (h_total_mem_mb h))) (\<lambda>tm.
     try_except
       (andThen (update_host (h_instance_id h)
            (has_room c (scaled tv (cpu_overcommit c) - v) (scaled tm (mem_overcommit c) - m))
            (book_row v m))
          (\<lambda>row. ok (Some (int_attr (h_next_vm_num row) - 1))))
       (\<lambda>e. if is_cond_failed e then ok None else raise e)))"

definition release_row :: "int \<Rightarrow> int \<Rightarrow> host \<Rightarrow> exn + host" where
  "release_row v m h =
     bind_sum (plus_attr (h_used_vcpu h) (- v)) (\<lambda>uv.
     bind_sum (plus_attr (h_used_mem_mb h) (- m)) (\<lambda>um.
     bind_sum (plus_attr (h_vm_count h) (- 1)) (\<lambda>n.
     Inr (h\<lparr>h_used_vcpu := Some uv, h_used_mem_mb := Some um, h_vm_count := Some n\<rparr>))))"

definition release_host_slot :: "string \<Rightarrow> int \<Rightarrow> int \<Rightarrow> (world, unit) io" where
  "release_host_slot i v m = andThen (update_host i no_cond (release_row v m)) (\<lambda>_. ok ())"

section \<open>The fleet\<close>

definition scale_out :: "(world, unit) io" where
  "scale_out = best_effort (andThen (aws (gets w_asg)) (\<lambda>g.
     whenever (asg_desired g < asg_max g)
       (aws (modify (\<lambda>w. w\<lparr>w_asg := (w_asg w)\<lparr>asg_desired := asg_desired g + 1\<rparr>\<rparr>)))))"

definition list_hosts :: "(world, resp) io" where
  "list_hosts = andThen (scan_all w_hosts (\<lambda>h. h_status h \<noteq> Some ''deleted'')) (\<lambda>items.
     ok (mk_resp 200 (JList (map (\<lambda>h. attrs (host_attrs h))
       (filter (\<lambda>h. \<not> prefix ''__'' (h_instance_id h)) items)))))"

record ec2_instance =
  i_private_ip :: string
  i_type :: string
  i_az :: string
  i_cores :: int
  i_threads :: int

definition size_to_vcpu :: "(string \<times> int) list" where
  "size_to_vcpu = [(''medium'', 1), (''large'', 2), (''xlarge'', 4), (''2xlarge'', 8),
     (''4xlarge'', 16), (''8xlarge'', 32), (''12xlarge'', 48), (''16xlarge'', 64), (''24xlarge'', 96)]"

definition family_letter_to_mem :: "(char \<times> int) list" where
  "family_letter_to_mem = [(CHR ''c'', 2048), (CHR ''m'', 4096), (CHR ''r'', 8192)]"

definition static_memory_mb :: "string \<Rightarrow> int" where
  "static_memory_mb ty = (case split_on CHR ''.'' ty of
       [fam, sz] \<Rightarrow> (case (map_of size_to_vcpu sz, fam) of
           (Some n, ch # _) \<Rightarrow> (case map_of family_letter_to_mem ch of Some m \<Rightarrow> n * m | None \<Rightarrow> 16384)
         | _ \<Rightarrow> 16384)
     | _ \<Rightarrow> 16384)"

definition resolve_instance_memory_mb :: "(string \<Rightarrow> int option) \<Rightarrow> string \<Rightarrow> int" where
  "resolve_instance_memory_mb type_mem ty =
     (if ty \<noteq> [] then (case type_mem ty of Some n \<Rightarrow> n | None \<Rightarrow> static_memory_mb ty)
      else static_memory_mb ty)"

definition new_host_row :: "cfg \<Rightarrow> string \<Rightarrow> ec2_instance \<Rightarrow> int \<Rightarrow> int \<Rightarrow> host" where
  "new_host_row c i inst mem_total t = (fresh_host i)\<lparr>h_private_ip := Some (i_private_ip inst),
     h_az := Some (i_az inst),
     h_total_vcpu := Some (i_cores inst * i_threads inst - host_reserved_vcpu c),
     h_total_mem_mb := Some (mem_total - host_reserved_mem c),
     h_used_vcpu := Some 0, h_used_mem_mb := Some 0, h_vm_count := Some 0, h_next_vm_num := Some 1,
     h_status := Some ''active'', h_idle_since := Some (At t)\<rparr>"

definition missing_body :: resp where
  "missing_body = err_resp 400 ''missing body''"

definition register_host ::
  "cfg \<Rightarrow> (string \<Rightarrow> ec2_instance option) \<Rightarrow> (string \<Rightarrow> int option) \<Rightarrow> payload \<Rightarrow> (world, resp) io" where
  "register_host c ec2 type_mem bd = (if bd = NoBody then ok missing_body
     else andThen (lift_sum (load_body bd)) (\<lambda>b.
       andThen (lift_sum (get_or b ''instance_id'' JNull)) (\<lambda>v.
       if \<not> truthy v then ok (err_resp 400 ''missing instance_id'')
       else andThen (aws (lift_sum (case v of JStr i \<Rightarrow> (case ec2 i of
                Some inst \<Rightarrow> Inr (i, inst)
              | None \<Rightarrow> Inl (ClientError ''InvalidInstanceID.NotFound'' ''''))
            | _ \<Rightarrow> Inl (PyError ValueError ''Parameter validation failed'')))) (\<lambda>(i, inst).
         andThen now (\<lambda>t.
         andThen (put_host_row (new_host_row c i inst (resolve_instance_memory_mb type_mem (i_type inst)) t))
           (\<lambda>_. ok (mk_resp 201 (JObj [(''instance_id'', JStr i), (''status'', JStr ''active''),
                                       (''az'', JStr (i_az inst))]))))))))"

definition terminate_instance :: "string \<Rightarrow> (world, unit) io" where
  "terminate_instance i = aws (modify (\<lambda>w. w\<lparr>w_terminated := w_terminated w @ [i]\<rparr>))"

definition deregister_host :: "string \<Rightarrow> (world, resp) io" where
  "deregister_host i =
     andThen (update_host i no_cond (set_attrs (\<lambda>h. h\<lparr>h_status := Some ''draining''\<rparr>))) (\<lambda>_.
     andThen (best_effort (terminate_instance i)) (\<lambda>_.
     ok (mk_resp 200 (JObj [(''instance_id'', JStr i), (''status'', JStr ''draining'')]))))"

section \<open>Lemmas on placement\<close>

lemma candidates_eq:
  "candidates c hs v m = map (\<lambda>h. (- fst (free_of c h), - snd (free_of c h), h_instance_id h, h))
     (rank_candidates hs v m (cpu_overcommit c) (mem_overcommit c) (max_vms_per_host c) [])"
  by (induction hs) (auto simp: fits_def split: prod.splits)

lemma candidate_key_rank:
  "candidate_key (- fst (free_of c h), - snd (free_of c h), h_instance_id h, h) =
   rank_key (cpu_overcommit c) (mem_overcommit c) h"
  by (simp add: candidate_key_def rank_key_def free_of_def split: prod.split)

text \<open>A stable sort of decorated elements is the decorated stable sort.\<close>

lemma insort_key_map:
  "insort_key f (g x) (map g xs) = map g (insort_key (\<lambda>y. f (g y)) x xs)"
  by (induction xs) auto

lemma sort_key_map: "sort_key f (map g xs) = map g (sort_key (\<lambda>y. f (g y)) xs)"
  unfolding sort_key_def by (induction xs) (simp_all add: insort_key_map)

lemma ranked_candidates:
  "map candidate_host (sort_key candidate_key (candidates c hs v m)) =
   rank_hosts hs v m (cpu_overcommit c) (mem_overcommit c) (max_vms_per_host c) []"
  by (simp add: candidates_eq sort_key_map candidate_key_rank rank_hosts_def candidate_host_def comp_def)

lemma find_host_Inr:
  assumes "find_host c v m w = (Inr r, w')"
  shows "r = (case rank_hosts (filter open_host (map snd (w_hosts w))) v m
      (cpu_overcommit c) (mem_overcommit c) (max_vms_per_host c) [] of [] \<Rightarrow> None | h # _ \<Rightarrow> Some h)"
proof -
  obtain hs w1 where s: "scan_all w_hosts open_host w = (Inr hs, w1)"
    and r: "r = (let cs = candidates c hs v m in
       if cs = [] then None else Some (candidate_host (hd (sort_key candidate_key cs))))"
    using assms by (auto simp: find_host_def andThen_Inr Let_def split: if_splits)
  have hs: "hs = filter open_host (map snd (w_hosts w))" using scan_all_result [OF s] .
  have "sort_key candidate_key (candidates c hs v m) = [] \<longleftrightarrow> candidates c hs v m = []"
    by (metis length_0_conv length_sort)
  then show ?thesis
    using r unfolding Let_def ranked_candidates [symmetric] hs
    by (cases "sort_key candidate_key (candidates c (filter open_host (map snd (w_hosts w))) v m)") auto
qed

lemma rand_below_bound: "rand_below (Suc n) w = (Inr j, w') \<Longrightarrow> j \<le> n"
  by (auto simp: rand_below_def less_Suc_eq_le [symmetric] split: list.splits)

lemma mset_swap: "i < length xs \<Longrightarrow> j < length xs \<Longrightarrow> mset (swap i j xs) = mset xs"
  by (simp add: swap_def mset_swap)

lemma mset_shuffle_from:
  "shuffle_from i xs w = (Inr ys, w') \<Longrightarrow> i < length xs \<or> i = 0 \<Longrightarrow> mset ys = mset xs"
proof (induction i arbitrary: xs w)
  case (Suc i)
  then obtain j w1 where j: "rand_below (Suc (Suc i)) w = (Inr j, w1)"
    and r: "shuffle_from i (swap (Suc i) j xs) w1 = (Inr ys, w')"
    by (auto simp: andThen_Inr)
  have "j < length xs" using rand_below_bound [OF j] Suc.prems(2) by simp
  moreover have "length (swap (Suc i) j xs) = length xs" by (simp add: swap_def)
  ultimately show ?case
    using Suc.IH [OF r] Suc.prems(2) mset_swap [of "Suc i" xs j] by simp
qed simp

lemma mset_shuffle: "shuffle xs w = (Inr ys, w') \<Longrightarrow> mset ys = mset xs"
  unfolding shuffle_def by (rule mset_shuffle_from) auto

lemma rank_candidate_hosts_Inr:
  assumes "rank_candidate_hosts c v m w = (Inr hs, w')"
  shows "hs = rank_hosts (filter open_host (map snd (w_hosts w))) v m
      (cpu_overcommit c) (mem_overcommit c) (max_vms_per_host c) []"
  using assms ranked_candidates
  by (auto simp: rank_candidate_hosts_def andThen_Inr dest!: scan_all_result)

lemma pick_hosts_Inr:
  assumes "pick_hosts_for_create c v m w = (Inr hs, w')"
  defines "ranked \<equiv> rank_hosts (filter open_host (map snd (w_hosts w))) v m
      (cpu_overcommit c) (mem_overcommit c) (max_vms_per_host c) []"
    and "k \<equiv> nat (max 1 (host_pick_top_k c))"
  shows "mset (take k hs) = mset (take k ranked) \<and> drop k hs = drop k ranked"
proof -
  obtain rk w1 where "rank_candidate_hosts c v m w = (Inr rk, w1)"
    and rest: "(rk = [] \<and> hs = []) \<or> (rk \<noteq> [] \<and> (\<exists>hd w2. shuffle (take k rk) w1 = (Inr hd, w2) \<and>
        hs = hd @ drop (length hd) rk))"
    using assms(1) by (auto simp: pick_hosts_for_create_def andThen_Inr k_def split: if_splits)
  then have rk: "rk = ranked" using rank_candidate_hosts_Inr unfolding ranked_def by blast
  from rest show ?thesis
  proof (elim disjE conjE exE)
    fix hd w2
    assume sh: "shuffle (take k rk) w1 = (Inr hd, w2)" and hs: "hs = hd @ drop (length hd) rk"
    have ms: "mset hd = mset (take k rk)" by (rule mset_shuffle [OF sh])
    then have len: "length hd = min k (length rk)" by (metis length_take min.commute size_mset)
    show ?thesis using ms hs rk len by (auto simp: min_def not_le)
  qed (use rk in auto)
qed

section \<open>Slots under contention\<close>

text \<open>
  What a create relies on when others book on the same host at the same time: every grant takes
  the counter's next number and keeps the host within capacity, a refusal takes no number, and a
  release does not rewind the counter. Under this contract, however the operations interleave,
  no number is granted twice.
\<close>

datatype 'r slot_op = Reserve 'r | Release 'r

fun ops_requests :: "'r slot_op list \<Rightarrow> 'r set" where
  "ops_requests [] = {}"
| "ops_requests (Reserve q # ops) = insert q (ops_requests ops)"
| "ops_requests (Release q # ops) = insert q (ops_requests ops)"

text \<open>The numbers granted along a sequence of operations, and the state after it.\<close>

fun run_slot_ops :: "('r \<Rightarrow> 's \<Rightarrow> int option \<times> 's) \<Rightarrow> ('r \<Rightarrow> 's \<Rightarrow> 's) \<Rightarrow> 'r slot_op list \<Rightarrow> 's
   \<Rightarrow> int list \<times> 's" where
  "run_slot_ops rsv rel [] s = ([], s)"
| "run_slot_ops rsv rel (Release q # ops) s = run_slot_ops rsv rel ops (rel q s)"
| "run_slot_ops rsv rel (Reserve q # ops) s = (case rsv q s of
       (None, t) \<Rightarrow> run_slot_ops rsv rel ops t
     | (Some n, t) \<Rightarrow> (case run_slot_ops rsv rel ops t of (ns, u) \<Rightarrow> (n # ns, u)))"

locale slot_allocator =
  fixes inv :: "'s \<Rightarrow> bool"
    and counter :: "'s \<Rightarrow> int"
    and valid :: "'r \<Rightarrow> bool"
    and reserve :: "'r \<Rightarrow> 's \<Rightarrow> int option \<times> 's"
    and release :: "'r \<Rightarrow> 's \<Rightarrow> 's"
  assumes reserve_inv: "inv s \<Longrightarrow> valid q \<Longrightarrow> reserve q s = (r, t) \<Longrightarrow> inv t"
    and reserve_grant: "inv s \<Longrightarrow> valid q \<Longrightarrow> reserve q s = (Some n, t) \<Longrightarrow> n = counter s \<and> counter t = counter s + 1"
    and reserve_refuse: "inv s \<Longrightarrow> valid q \<Longrightarrow> reserve q s = (None, t) \<Longrightarrow> counter t = counter s"
    and release_inv: "inv s \<Longrightarrow> valid q \<Longrightarrow> inv (release q s)"
    and release_counter: "inv s \<Longrightarrow> valid q \<Longrightarrow> counter (release q s) = counter s"
begin

lemma run_grants:
  "inv s \<Longrightarrow> \<forall>q \<in> ops_requests ops. valid q \<Longrightarrow> run_slot_ops reserve release ops s = (ns, t) \<Longrightarrow>
   inv t \<and> ns = map (\<lambda>i. counter s + int i) [0..<length ns] \<and> counter t = counter s + int (length ns)"
proof (induction ops arbitrary: s ns)
  case (Cons p ops)
  show ?case
  proof (cases p)
    case (Release q)
    with Cons.prems have "inv (release q s)" "counter (release q s) = counter s"
      using release_inv release_counter by auto
    with Cons.IH [of "release q s" ns] Cons.prems Release show ?thesis by simp
  next
    case (Reserve q)
    obtain r u where r: "reserve q s = (r, u)" by fastforce
    have iu: "inv u" using reserve_inv [OF _ _ r] Cons.prems Reserve by simp
    show ?thesis
    proof (cases r)
      case None
      with Cons.IH [OF iu, of ns] Cons.prems Reserve r reserve_refuse [of s q u] show ?thesis by simp
    next
      case (Some n)
      with Cons.prems Reserve r obtain ms where ms: "run_slot_ops reserve release ops u = (ms, t)"
        and ns: "ns = n # ms" by (auto split: prod.splits)
      have n: "n = counter s" "counter u = counter s + 1"
        using reserve_grant [of s q n u] Cons.prems Reserve r Some by auto
      have ih: "inv t \<and> ms = map (\<lambda>i. counter u + int i) [0..<length ms] \<and>
          counter t = counter u + int (length ms)"
        using Cons.IH [OF iu _ ms] Cons.prems(2) Reserve by auto
      then have "ms = map (\<lambda>i. counter s + int i) (map Suc [0..<length ms])"
        using n(2) by (simp add: comp_def add.assoc)
      with ih n ns show ?thesis
        by (auto simp: map_Suc_upt upt_conv_Cons simp del: upt_Suc)
    qed
  qed
qed simp

lemma grants_distinct:
  assumes "inv s" "\<forall>q \<in> ops_requests ops. valid q"
  shows "distinct (fst (run_slot_ops reserve release ops s)) \<and>
    inv (snd (run_slot_ops reserve release ops s))"
proof -
  obtain ns t where r: "run_slot_ops reserve release ops s = (ns, t)" by fastforce
  from run_grants [OF assms r] have "distinct ns \<and> inv t"
    by (metis (no_types, lifting) distinct_map distinct_upt inj_onI add_left_cancel of_nat_eq_iff)
  with r show ?thesis by simp
qed

end

text \<open>
  The host row as an allocator: a create or a clone books with totals read earlier, any call may
  fail, and a failed call grants nothing.
\<close>

definition slot_inv :: "cfg \<Rightarrow> host \<Rightarrow> world \<Rightarrow> bool" where
  "slot_inv c h w = (\<exists>r. map_of (w_hosts w) (h_instance_id h) = Some r \<and>
     h_total_vcpu r = h_total_vcpu h \<and> h_total_mem_mb r = h_total_mem_mb h \<and>
     h_total_vcpu h \<noteq> None \<and> h_total_mem_mb h \<noteq> None \<and>
     h_used_vcpu r \<noteq> None \<and> h_used_mem_mb r \<noteq> None \<and> h_vm_count r \<noteq> None \<and> h_next_vm_num r \<noteq> None \<and>
     within_capacity (cpu_overcommit c) (mem_overcommit c) (max_vms_per_host c) r)"

definition slot_counter :: "host \<Rightarrow> world \<Rightarrow> int" where
  "slot_counter h w = (case map_of (w_hosts w) (h_instance_id h) of None \<Rightarrow> 0
     | Some r \<Rightarrow> int_attr (h_next_vm_num r))"

definition slot_valid :: "int \<times> int \<Rightarrow> bool" where
  "slot_valid q = (0 \<le> fst q \<and> 0 \<le> snd q)"

definition try_reserve :: "cfg \<Rightarrow> host \<Rightarrow> int \<times> int \<Rightarrow> world \<Rightarrow> int option \<times> world" where
  "try_reserve c h q w = (case reserve_host_slot c h (fst q) (snd q) w of
       (Inl e, w') \<Rightarrow> (None, w') | (Inr r, w') \<Rightarrow> (r, w'))"

definition try_release :: "host \<Rightarrow> int \<times> int \<Rightarrow> world \<Rightarrow> world" where
  "try_release h q w = snd (release_host_slot (h_instance_id h) (fst q) (snd q) w)"

lemma update_host_cases:
  assumes "update_host k cnd u w = (r, w')"
  shows "(r = Inl cond_failed \<and> w_hosts w' = w_hosts w \<and> \<not> cnd (map_of (w_hosts w) k)) \<or>
    (\<exists>e. r = Inl e \<and> w_hosts w' = w_hosts w) \<or>
    (\<exists>row. r = Inr row \<and> cnd (map_of (w_hosts w) k) \<and>
       u (case map_of (w_hosts w) k of None \<Rightarrow> fresh_host k | Some h \<Rightarrow> h) = Inr row \<and>
       w_hosts w' = AList.update k row (w_hosts w))"
  using assms unfolding update_host_def
  by (cases rule: aws_elim) (auto simp: tbl_update_def Let_def split: if_splits sum.splits option.splits)

lemma reserve_cases:
  assumes "slot_inv c h w" "slot_valid q" "try_reserve c h q w = (r, w')"
  shows "(r = None \<and> w_hosts w' = w_hosts w) \<or>
    (\<exists>row. map_of (w_hosts w) (h_instance_id h) = Some row \<and> r = Some (int_attr (h_next_vm_num row)) \<and>
       has_room c (scaled (int_attr (h_total_vcpu h)) (cpu_overcommit c) - fst q)
         (scaled (int_attr (h_total_mem_mb h)) (mem_overcommit c) - snd q) (Some row) \<and>
       (\<exists>row'. book_row (fst q) (snd q) row = Inr row' \<and>
          w_hosts w' = AList.update (h_instance_id h) row' (w_hosts w)))"
proof -
  obtain row where row: "map_of (w_hosts w) (h_instance_id h) = Some row" "h_next_vm_num row \<noteq> None"
    and tot: "h_total_vcpu h \<noteq> None" "h_total_mem_mb h \<noteq> None"
    using assms(1) by (auto simp: slot_inv_def)
  obtain tv tm where t: "h_total_vcpu h = Some tv" "h_total_mem_mb h = Some tm" using tot by auto
  obtain u w1 where u: "update_host (h_instance_id h)
      (has_room c (scaled tv (cpu_overcommit c) - fst q) (scaled tm (mem_overcommit c) - snd q))
      (book_row (fst q) (snd q)) w = (u, w1)" by fastforce
  have "w1 = w'"
    using assms(3) u t by (auto simp: try_reserve_def reserve_host_slot_def required_def io_simps
        split: sum.splits if_splits)
  moreover have "r = (case u of Inl e \<Rightarrow> None | Inr nr \<Rightarrow> Some (int_attr (h_next_vm_num nr) - 1))"
    using assms(3) u t by (auto simp: try_reserve_def reserve_host_slot_def required_def io_simps
        split: sum.splits if_splits)
  moreover have "int_attr (h_next_vm_num nr) - 1 = int_attr (h_next_vm_num row)"
    if "book_row (fst q) (snd q) row = Inr nr" for nr
    using that row(2) by (auto simp: book_row_def plus_attr_def bind_sum_Inr split: option.splits)
  ultimately show ?thesis
    using update_host_cases [OF u] row t by auto
qed

lemma book_keeps_capacity:
  assumes "book_row v m row = Inr row'"
    "has_room c (fst (allocatable row (cpu_overcommit c) (mem_overcommit c)) - v)
       (snd (allocatable row (cpu_overcommit c) (mem_overcommit c)) - m) (Some row)"
  shows "within_capacity (cpu_overcommit c) (mem_overcommit c) (max_vms_per_host c) row'"
  using assms
  by (auto simp: book_row_def plus_attr_def bind_sum_Inr has_room_def within_capacity_def allocatable_def
      split: option.splits)

lemma book_row_fields:
  "book_row v m row = Inr row' \<Longrightarrow> h_total_vcpu row' = h_total_vcpu row \<and>
   h_total_mem_mb row' = h_total_mem_mb row \<and> h_used_vcpu row' \<noteq> None \<and> h_used_mem_mb row' \<noteq> None \<and>
   h_vm_count row' \<noteq> None \<and> h_next_vm_num row' = Some (int_attr (h_next_vm_num row) + 1)"
  by (auto simp: book_row_def plus_attr_def bind_sum_Inr split: option.splits)

lemma release_row_fields:
  "release_row v m row = Inr row' \<Longrightarrow> 0 \<le> v \<Longrightarrow> 0 \<le> m \<Longrightarrow> h_total_vcpu row' = h_total_vcpu row \<and>
   h_total_mem_mb row' = h_total_mem_mb row \<and> h_used_vcpu row' \<noteq> None \<and> h_used_mem_mb row' \<noteq> None \<and>
   h_vm_count row' \<noteq> None \<and> h_next_vm_num row' = h_next_vm_num row \<and>
   (within_capacity cr mr mx row \<longrightarrow> within_capacity cr mr mx row')"
  by (auto simp: release_row_def plus_attr_def bind_sum_Inr within_capacity_def allocatable_def
      split: option.splits)

lemma release_cases:
  assumes "slot_inv c h w"
  shows "w_hosts (try_release h q w) = w_hosts w \<or>
    (\<exists>row row'. map_of (w_hosts w) (h_instance_id h) = Some row \<and>
       release_row (fst q) (snd q) row = Inr row' \<and>
       w_hosts (try_release h q w) = AList.update (h_instance_id h) row' (w_hosts w))"
proof -
  obtain u w1 where u: "update_host (h_instance_id h) no_cond (release_row (fst q) (snd q)) w = (u, w1)"
    by fastforce
  then have "try_release h q w = w1"
    by (auto simp: try_release_def release_host_slot_def io_simps split: sum.splits)
  with update_host_cases [OF u] assms show ?thesis by (auto simp: slot_inv_def)
qed

lemma try_reserve_step:
  assumes inv: "slot_inv c h s" and v: "slot_valid q" and r: "try_reserve c h q s = (r, t)"
  shows "slot_inv c h t \<and> (case r of None \<Rightarrow> slot_counter h t = slot_counter h s
    | Some n \<Rightarrow> n = slot_counter h s \<and> slot_counter h t = slot_counter h s + 1)"
proof -
  note cs = reserve_cases [OF inv v r]
  from inv obtain row where row: "map_of (w_hosts s) (h_instance_id h) = Some row"
    "h_total_vcpu row = h_total_vcpu h" "h_total_mem_mb row = h_total_mem_mb h"
    by (auto simp: slot_inv_def)
  have "slot_inv c h t \<and> slot_counter h t = slot_counter h s + 1"
    if "book_row (fst q) (snd q) row = Inr row'"
      "has_room c (scaled (int_attr (h_total_vcpu h)) (cpu_overcommit c) - fst q)
         (scaled (int_attr (h_total_mem_mb h)) (mem_overcommit c) - snd q) (Some row)"
      "w_hosts t = AList.update (h_instance_id h) row' (w_hosts s)" for row'
  proof -
    have "within_capacity (cpu_overcommit c) (mem_overcommit c) (max_vms_per_host c) row'"
      using book_keeps_capacity [OF that(1)] that(2) row by (simp add: allocatable_def)
    with that(1,3) row inv book_row_fields [OF that(1)] show ?thesis
      by (auto simp: slot_inv_def slot_counter_def update_conv')
  qed
  with cs inv row show ?thesis by (auto simp: slot_inv_def slot_counter_def)
qed

lemma try_release_step:
  assumes "slot_inv c h s" "slot_valid q"
  shows "slot_inv c h (try_release h q s) \<and> slot_counter h (try_release h q s) = slot_counter h s"
proof -
  from release_cases [OF assms(1), of q] show ?thesis
  proof (elim disjE exE conjE)
    fix row row'
    assume "map_of (w_hosts s) (h_instance_id h) = Some row" "release_row (fst q) (snd q) row = Inr row'"
      "w_hosts (try_release h q s) = AList.update (h_instance_id h) row' (w_hosts s)"
    with release_row_fields [of "fst q" "snd q" row row' "cpu_overcommit c" "mem_overcommit c" "max_vms_per_host c"] assms
    show ?thesis by (simp add: slot_inv_def slot_counter_def slot_valid_def update_conv')
  qed (use assms in \<open>simp add: slot_inv_def slot_counter_def\<close>)
qed

interpretation slots: slot_allocator "slot_inv c h" "slot_counter h" slot_valid "try_reserve c h" "try_release h"
  for c h
  by unfold_locales (auto dest: try_reserve_step try_release_step)

section \<open>Properties\<close>

text \<open>
  C1. Creates, clones and releases on one host never collide and never overcommit it: along any
  sequence of reservations and releases, whatever calls fail, the VM numbers granted are pairwise
  distinct and the host stays within its overcommitted capacity and its VM ceiling.
\<close>

theorem slots_distinct_and_within_capacity:
  assumes "slot_inv c h w" "\<forall>q \<in> ops_requests ops. slot_valid q"
  shows "distinct (fst (run_slot_ops (try_reserve c h) (try_release h) ops w)) \<and>
    slot_inv c h (snd (run_slot_ops (try_reserve c h) (try_release h) ops w))"
  by (rule slots.grants_distinct [OF assms])

definition host4 :: host where
  "host4 = (fresh_host ''i-1'')\<lparr>h_total_vcpu := Some 4, h_total_mem_mb := Some 8192, h_used_vcpu := Some 0,
     h_used_mem_mb := Some 0, h_vm_count := Some 0, h_next_vm_num := Some 1, h_status := Some ''active'',
     h_private_ip := Some ''10.0.0.1'', h_az := Some ''a''\<rparr>"

theorem slots_distinct_and_within_capacity_witness:
  "distinct (fst (run_slot_ops (try_reserve cfg0 host4) (try_release host4)
     [Reserve (2, 4096), Release (2, 4096), Reserve (4, 4096), Reserve (1, 1)]
     (world0\<lparr>w_hosts := [(''i-1'', host4)]\<rparr>)))"
proof -
  let ?w = "world0\<lparr>w_hosts := [(''i-1'', host4)]\<rparr>"
  have total: "allocatable host4 one_float one_float = (4, 8192)" by code_simp
  have "slot_inv cfg0 host4 ?w"
    by (simp add: slot_inv_def within_capacity_def total cfg0_def) (simp add: host4_def fresh_host_def)
  moreover have "\<forall>q \<in> ops_requests [Reserve (2, 4096), Release (2, 4096), Reserve (4, 4096), Reserve (1, 1)].
      slot_valid q"
    by (simp add: slot_valid_def)
  ultimately show ?thesis using slots_distinct_and_within_capacity by blast
qed

text \<open>
  The scheduler places on the host the shared ranking puts first among the active and idle
  hosts, so API placement and failover placement agree; it finds none exactly when none fits.
\<close>

theorem find_host_least_loaded:
  assumes "find_host c v m w = (Inr r, w')"
  shows "r = (case rank_hosts (filter open_host (map snd (w_hosts w))) v m
      (cpu_overcommit c) (mem_overcommit c) (max_vms_per_host c) [] of [] \<Rightarrow> None | h # _ \<Rightarrow> Some h) \<and>
    (r = None \<longleftrightarrow> (\<forall>h \<in> snd ` set (w_hosts w). open_host h \<longrightarrow> \<not> fits c h v m))"
proof -
  note eq = find_host_Inr [OF assms]
  have "r = None \<longleftrightarrow> rank_hosts (filter open_host (map snd (w_hosts w))) v m
      (cpu_overcommit c) (mem_overcommit c) (max_vms_per_host c) [] = []"
    unfolding eq by (simp split: list.split)
  with eq show ?thesis by (auto simp: rank_hosts_empty_iff fits_def)
qed

theorem find_host_least_loaded_witness:
  "\<exists>h \<in> snd ` set [(''i-1'', host4)]. open_host h \<and> fits cfg0 h 2 4096"
proof -
  let ?w = "world0\<lparr>w_hosts := [(''i-1'', host4)]\<rparr>"
  have "find_host cfg0 2 4096 ?w = (Inr (Some host4), snd (find_host cfg0 2 4096 ?w))" by code_simp
  from find_host_least_loaded [OF this] show ?thesis by auto
qed

text \<open>
  The candidates a create tries are the ranking with only its least-loaded band reordered:
  the first \<open>host_pick_top_k\<close> of them are a permutation of the first of the ranking, whatever
  the random numbers, and the rest follow in ranking order.
\<close>

theorem pick_hosts_permutes_head:
  assumes "pick_hosts_for_create c v m w = (Inr hs, w')"
    "ranked = rank_hosts (filter open_host (map snd (w_hosts w))) v m
      (cpu_overcommit c) (mem_overcommit c) (max_vms_per_host c) []"
  shows "mset (take (nat (max 1 (host_pick_top_k c))) hs) = mset (take (nat (max 1 (host_pick_top_k c))) ranked) \<and>
    drop (nat (max 1 (host_pick_top_k c))) hs = drop (nat (max 1 (host_pick_top_k c))) ranked"
  using pick_hosts_Inr [OF assms(1)] assms(2) by simp

theorem pick_hosts_permutes_head_witness:
  "mset (take (nat (max 1 (host_pick_top_k cfg0))) [host4]) =
   mset (take (nat (max 1 (host_pick_top_k cfg0)))
     (rank_hosts (filter open_host (map snd (w_hosts (world0\<lparr>w_hosts := [(''i-1'', host4)]\<rparr>)))) 2 4096
        (cpu_overcommit cfg0) (mem_overcommit cfg0) (max_vms_per_host cfg0) []))"
proof -
  let ?w = "world0\<lparr>w_hosts := [(''i-1'', host4)]\<rparr>"
  have "pick_hosts_for_create cfg0 2 4096 ?w = (Inr [host4], snd (pick_hosts_for_create cfg0 2 4096 ?w))"
    by code_simp
  from pick_hosts_permutes_head [OF this refl] show ?thesis by (rule conjunct1)
qed

end
