(* ===== verification/Alb.thy ===== *)
theory Alb
  imports Hosts
begin

text \<open>
  Path routing on the load balancer (api/handler.py): the target group of a host, the listener
  rule of a tenant, and the operators' rebuild, status and purge of the per-tenant rules. Under
  the \<open>host-tg\<close> mode a shared rule serves every tenant and the per-tenant operations do nothing.
\<close>

section \<open>The service\<close>

definition describe_rules :: "(world, alb_rule list) io" where
  "describe_rules = aws (gets w_rules)"

definition priority_in_use :: exn where
  "priority_in_use = ClientError ''PriorityInUseException'' ''Priority is currently in use''"

definition create_rule :: "int \<Rightarrow> string list \<Rightarrow> string \<Rightarrow> (world, unit) io" where
  "create_rule prio vals tg_arn = aws (\<lambda>w.
     if \<exists>r \<in> set (w_rules w). r_priority r = Some prio then (Inl priority_in_use, w)
     else (Inr (), w\<lparr>w_serial := Suc (w_serial w), w_rules := w_rules w @
       [\<lparr>r_arn = ''rule-'' @ show_nat (w_serial w), r_priority = Some prio,
         r_conditions = [\<lparr>ac_field = ''path-pattern'', ac_values = vals\<rparr>], r_targets = [tg_arn]\<rparr>]\<rparr>))"

definition delete_rule :: "string \<Rightarrow> (world, unit) io" where
  "delete_rule arn = aws (\<lambda>w.
     if \<forall>r \<in> set (w_rules w). r_arn r \<noteq> arn then (Inl (ClientError ''RuleNotFound'' arn), w)
     else (Inr (), w\<lparr>w_rules := filter (\<lambda>r. r_arn r \<noteq> arn) (w_rules w)\<rparr>))"

definition modify_rule :: "string \<Rightarrow> string \<Rightarrow> (world, unit) io" where
  "modify_rule arn tg_arn = aws (\<lambda>w.
     if \<forall>r \<in> set (w_rules w). r_arn r \<noteq> arn then (Inl (ClientError ''RuleNotFound'' arn), w)
     else (Inr (), w\<lparr>w_rules :=
       map (\<lambda>r. if r_arn r = arn then r\<lparr>r_targets := [tg_arn]\<rparr> else r) (w_rules w)\<rparr>))"

definition describe_target_group :: "string \<Rightarrow> (world, string) io" where
  "describe_target_group nm = aws (\<lambda>w. case find (\<lambda>t. tg_name t = nm) (w_tgs w) of
       None \<Rightarrow> (Inl (ClientError ''TargetGroupNotFound'' nm), w) | Some t \<Rightarrow> (Inr (tg_ref t), w))"

definition create_target_group :: "string \<Rightarrow> string \<Rightarrow> (world, string) io" where
  "create_target_group nm vpc = aws (\<lambda>w.
     if \<exists>t \<in> set (w_tgs w). tg_name t = nm then (Inl (ClientError ''DuplicateTargetGroupName'' nm), w)
     else (Inr (''tg-'' @ show_nat (w_serial w)), w\<lparr>w_serial := Suc (w_serial w), w_tgs := w_tgs w @
       [\<lparr>tg_name = nm, tg_ref = ''tg-'' @ show_nat (w_serial w), tg_vpc = vpc, tg_members = []\<rparr>]\<rparr>))"

definition register_target :: "string \<Rightarrow> string \<Rightarrow> (world, unit) io" where
  "register_target arn ip = aws (modify (\<lambda>w. w\<lparr>w_tgs :=
     map (\<lambda>t. if tg_ref t = arn then t\<lparr>tg_members := tg_members t @ [ip]\<rparr> else t) (w_tgs w)\<rparr>))"

definition delete_target_group :: "string \<Rightarrow> (world, unit) io" where
  "delete_target_group arn = aws (\<lambda>w.
     if \<exists>r \<in> set (w_rules w). arn \<in> set (r_targets r) then (Inl (ClientError ''ResourceInUse'' arn), w)
     else (Inr (), w\<lparr>w_tgs := filter (\<lambda>t. tg_ref t \<noteq> arn) (w_tgs w)\<rparr>))"

section \<open>Target groups and tenant rules\<close>

definition host_tg_mode :: "cfg \<Rightarrow> bool" where
  "host_tg_mode c = (routing_mode c = ''host-tg'')"

definition last8 :: "string \<Rightarrow> string" where
  "last8 s = drop (length s - 8) s"

definition ensure_host_tg :: "cfg \<Rightarrow> string \<Rightarrow> string \<Rightarrow> bool \<Rightarrow> (world, string) io" where
  "ensure_host_tg c i private_ip force = (if host_tg_mode c \<and> \<not> force then ok ''''
     else let nm = ''oc-'' @ last8 i in
       andThen (try_except (andThen (describe_target_group nm) (\<lambda>a. ok (Some a))) (\<lambda>_. ok None)) (\<lambda>found.
       case found of
         Some arn \<Rightarrow> ok arn
       | None \<Rightarrow> andThen (create_target_group nm (vpc_id c)) (\<lambda>arn.
                 andThen (register_target arn private_ip) (\<lambda>_. ok arn))))"

definition vm_path :: "string \<Rightarrow> string" where
  "vm_path tid = ''/vm/'' @ tid"

definition rule_values :: "alb_rule \<Rightarrow> string list" where
  "rule_values r = concat (map ac_values (r_conditions r))"

text \<open>\<open>f"/vm/{tenant_id}" in v\<close>: the path occurs anywhere in a value of the rule.\<close>

definition mentions :: "string \<Rightarrow> alb_rule \<Rightarrow> bool" where
  "mentions tid r = list_ex (contains (vm_path tid)) (rule_values r)"

definition used_priorities :: "alb_rule list \<Rightarrow> int list" where
  "used_priorities rules = List.map_filter r_priority rules"

definition free_priorities :: "cfg \<Rightarrow> alb_rule list \<Rightarrow> int list" where
  "free_priorities c rules =
     filter (\<lambda>p. p \<notin> set (used_priorities rules)) [priority_min c..priority_max c]"

definition runtime_error :: "string \<Rightarrow> exn" where
  "runtime_error m = PyError RuntimeError m"

definition no_free_priority :: "cfg \<Rightarrow> alb_rule list \<Rightarrow> exn" where
  "no_free_priority c rules = runtime_error (''no free ALB listener rule priority ('' @
     show_int (priority_min c) @ ''-'' @ show_int (priority_max c) @ '' exhausted, '' @
     show_nat (length (remdups (used_priorities rules))) @ '' rules in use)'')"

primrec add_rule_attempts :: "cfg \<Rightarrow> string \<Rightarrow> string \<Rightarrow> nat \<Rightarrow> (world, unit) io" where
  "add_rule_attempts c tid tg_arn 0 = raise (runtime_error (''could not add ALB rule for '' @ tid))"
| "add_rule_attempts c tid tg_arn (Suc n) =
     andThen describe_rules (\<lambda>rules.
     if list_ex (mentions tid) rules then ok ()
     else let free = free_priorities c rules in
       if free = [] then raise (no_free_priority c rules)
       else andThen (rand_below (length free)) (\<lambda>k.
         andThen (try_except
             (andThen (create_rule (free ! k) [vm_path tid, vm_path tid @ ''/*''] tg_arn) (\<lambda>_. ok True))
             (\<lambda>e. if error_code e \<noteq> ''PriorityInUseException'' then raise e else ok False)) (\<lambda>created.
         if created then ok () else add_rule_attempts c tid tg_arn n)))"

definition add_alb_rule :: "cfg \<Rightarrow> string \<Rightarrow> string \<Rightarrow> bool \<Rightarrow> (world, unit) io" where
  "add_alb_rule c tid tg_arn force = (
     if host_tg_mode c \<and> \<not> force then ok ()
     else if listener_arn c = [] then ok ()
     else add_rule_attempts c tid tg_arn 6)"

definition path_rule_of :: "string \<Rightarrow> alb_rule \<Rightarrow> bool" where
  "path_rule_of tid r = list_ex (\<lambda>cn. ac_field cn = ''path-pattern'' \<and>
     list_ex (contains (vm_path tid)) (ac_values cn)) (r_conditions r)"

definition repoint_alb_rule_to_tg :: "cfg \<Rightarrow> string \<Rightarrow> string \<Rightarrow> (world, unit) io" where
  "repoint_alb_rule_to_tg c tid tg_arn = (
     if host_tg_mode c then ok ()
     else if listener_arn c = [] then ok ()
     else andThen describe_rules (\<lambda>rules.
       case find (path_rule_of tid) rules of
         Some r \<Rightarrow> modify_rule (r_arn r) tg_arn
       | None \<Rightarrow> add_alb_rule c tid tg_arn False))"

definition owned_by :: "string \<Rightarrow> alb_rule \<Rightarrow> bool" where
  "owned_by tid r = list_ex (\<lambda>cn. ac_field cn = ''path-pattern'' \<and> vm_path tid \<in> set (ac_values cn))
     (r_conditions r)"

definition remove_alb_rule :: "cfg \<Rightarrow> string \<Rightarrow> (world, unit) io" where
  "remove_alb_rule c tid = (
     if host_tg_mode c then ok ()
     else if listener_arn c = [] then ok ()
     else andThen describe_rules (\<lambda>rules.
       case find (owned_by tid) rules of None \<Rightarrow> ok () | Some r \<Rightarrow> delete_rule (r_arn r)))"

definition remove_host_tg :: "cfg \<Rightarrow> string \<Rightarrow> (world, unit) io" where
  "remove_host_tg c i = best_effort (andThen (describe_target_group (''oc-'' @ last8 i)) (\<lambda>arn.
     andThen (whenever (listener_arn c \<noteq> []) (andThen describe_rules (\<lambda>rules.
       for_each rules (\<lambda>r. for_each (r_targets r) (\<lambda>a. whenever (a = arn) (delete_rule (r_arn r)))))))
     (\<lambda>_. delete_target_group arn)))"

section \<open>Rebuilding the per-tenant rules\<close>

record route_row =
  rr_tenant :: string
  rr_action :: string
  rr_extra :: "(string \<times> json) list"

definition route_row :: "string \<Rightarrow> string \<Rightarrow> (string \<times> json) list \<Rightarrow> route_row" where
  "route_row tid act extra = \<lparr>rr_tenant = tid, rr_action = act, rr_extra = extra\<rparr>"

definition route_row_json :: "route_row \<Rightarrow> json" where
  "route_row_json r = JObj ((''tenant_id'', JStr (rr_tenant r)) # (''action'', JStr (rr_action r)) # rr_extra r)"

definition count_actions :: "route_row list \<Rightarrow> json" where
  "count_actions rs = JObj (map (\<lambda>a. (a, JInt (int (length (filter (\<lambda>r. rr_action r = a) rs)))))
     (remdups (map rr_action rs)))"

definition routed_tid :: "string \<Rightarrow> string option" where
  "routed_tid v = map_option (\<lambda>r. fst (split1 (CHR ''/'') r)) (after_sub ''/vm/'' v)"

definition routed_tids :: "alb_rule \<Rightarrow> string list" where
  "routed_tids r = List.map_filter routed_tid (rule_values r)"

text \<open>\<open>json.loads(body) if isinstance(body, str) else (body or {})\<close>.\<close>

definition load_optional_body :: "payload \<Rightarrow> exn + json" where
  "load_optional_body bd = (if bd = NoBody then Inr (JObj []) else load_body bd)"

definition routable :: "tenant \<Rightarrow> bool" where
  "routable t = (t_status t \<in> {Some ''running'', Some ''failover_queued'', Some ''failover_recovering''})"

definition opt_text :: "string option \<Rightarrow> bool" where
  "opt_text v = (case v of None \<Rightarrow> False | Some s \<Rightarrow> s \<noteq> [])"

text \<open>
  The target group of a host for a rebuild, remembered for the tenants that follow; \<open>None\<close> for a
  host without an address.
\<close>

definition seen_host_tg ::
  "cfg \<Rightarrow> string \<Rightarrow> (string \<times> string option) list \<Rightarrow> (world, string option \<times> (string \<times> string option) list) io" where
  "seen_host_tg c host_id seen = (case map_of seen host_id of
       Some r \<Rightarrow> ok (r, seen)
     | None \<Rightarrow> andThen (get_host_row host_id) (\<lambda>h.
         let ip = (case h of None \<Rightarrow> None | Some r \<Rightarrow> h_private_ip r) in
         if \<not> opt_text ip then ok (None, (host_id, None) # seen)
         else andThen (ensure_host_tg c host_id (the ip) True) (\<lambda>arn.
           ok (Some arn, (host_id, Some arn) # seen))))"

definition rebuild_one :: "cfg \<Rightarrow> string list \<Rightarrow> bool \<Rightarrow> tenant
   \<Rightarrow> (string \<times> string option) list \<times> route_row list
   \<Rightarrow> (world, (string \<times> string option) list \<times> route_row list) io" where
  "rebuild_one c routed dry_run t acc = (case acc of (seen, rs) \<Rightarrow>
     let tid = t_id t; host_id = opt_str (t_host_id t) in
     if tid = [] then ok acc
     else if tid \<in> set routed then ok (seen, rs @ [route_row tid ''existing'' []])
     else if host_id = [] then ok (seen, rs @ [route_row tid ''skipped'' [(''reason'', JStr ''no host_id'')]])
     else if dry_run then ok (seen, rs @ [route_row tid ''would_create'' [(''host_id'', JStr host_id)]])
     else andThen (try_except (andThen (seen_host_tg c host_id seen) (\<lambda>r. ok (Inr r))) (\<lambda>e. ok (Inl e)))
       (\<lambda>r. case r of
          Inl e \<Rightarrow> ok (seen, rs @ [route_row tid ''failed'' [(''reason'', JStr (exn_str e))]])
        | Inr (tg, seen') \<Rightarrow>
            if \<not> opt_text tg
            then ok (seen', rs @ [route_row tid ''failed''
                   [(''reason'', JStr (''host '' @ host_id @ '' has no private_ip''))]])
            else try_except (andThen (add_alb_rule c tid (the tg) True) (\<lambda>_.
                ok (seen', rs @ [route_row tid ''created'' [(''host_id'', JStr host_id)]])))
              (\<lambda>e. ok (seen', rs @ [route_row tid ''failed'' [(''reason'', JStr (exn_str e))]]))))"

definition rebuild_all :: "cfg \<Rightarrow> string list \<Rightarrow> bool \<Rightarrow> tenant list \<Rightarrow> (world, route_row list) io" where
  "rebuild_all c routed dry_run ts =
     andThen (fold_io (rebuild_one c routed dry_run) ts ([], [])) (\<lambda>(seen, rs). ok rs)"

text \<open>The answer to a failed \<open>describe_rules\<close>; an error that is not the service's is raised.\<close>

definition rules_or_502 :: "(alb_rule list \<Rightarrow> (world, resp) io) \<Rightarrow> (world, resp) io" where
  "rules_or_502 k = andThen
     (try_except (andThen describe_rules (\<lambda>rs. ok (Inr rs)))
       (\<lambda>e. case e of ClientError code m \<Rightarrow> ok (Inl (err_resp 502 (''describe_rules failed: '' @ exn_str e)))
                     | PyError kd m \<Rightarrow> raise e))
     (\<lambda>r. case r of Inl answer \<Rightarrow> ok answer | Inr rs \<Rightarrow> k rs)"

definition no_listener :: resp where
  "no_listener = err_resp 501 ''ALB listener not configured (ALB_LISTENER_ARN unset)''"

definition get_dry_run :: "json \<Rightarrow> exn + json" where
  "get_dry_run b = get_or b ''dry_run'' (JBool True)"

definition mode_field :: "json \<Rightarrow> exn + string" where
  "mode_field b = bind_sum (get_or b ''mode'' JNull) (\<lambda>v.
     if \<not> truthy v then Inr ''per-tenant'' else (case v of
       JStr s \<Rightarrow> Inr (strip s) | _ \<Rightarrow> Inl (no_attribute v ''strip'')))"

definition rebuild_routing :: "cfg \<Rightarrow> payload \<Rightarrow> (world, resp) io" where
  "rebuild_routing c bd =
     andThen (lift_sum (load_optional_body bd)) (\<lambda>b.
     andThen (lift_sum (get_dry_run b)) (\<lambda>dr.
     if \<not> is_bool dr then ok (err_resp 400 ''dry_run must be a boolean'')
     else andThen (lift_sum (mode_field b)) (\<lambda>mode.
     if mode \<noteq> ''per-tenant'' then ok (err_resp 400 (''unsupported mode '' @ quoted mode))
     else if listener_arn c = [] then ok no_listener
     else andThen (scan_all w_tenants routable) (\<lambda>ts.
     rules_or_502 (\<lambda>rules.
       let dry_run = (dr = JBool True); have = concat (map routed_tids rules) in
       andThen (rebuild_all c have dry_run ts) (\<lambda>rs.
       andThen (whenever (\<not> dry_run)
          (audit_system c ''routing.rebuilt'' ''routing:per-tenant'' ''per-tenant'' ''api'' None)) (\<lambda>_.
       ok (mk_resp 200 (JObj [(''mode'', JStr mode), (''dry_run'', dr),
         (''routing_mode_env'', JStr (routing_mode c)),
         (''tenants_considered'', JInt (int (length ts))),
         (''existing_listener_rules'', JInt (int (length (filter (\<lambda>r. r_priority r \<noteq> None) rules)))),
         (''counts'', count_actions rs), (''results'', JList (map route_row_json rs))])))))))))"

section \<open>Status and purge\<close>

definition is_catch_all :: "alb_rule \<Rightarrow> bool" where
  "is_catch_all r = (''/vm/*'' \<in> set (rule_values r))"

definition is_static_rule :: "alb_rule \<Rightarrow> bool" where
  "is_static_rule r = (is_catch_all r \<or> \<not> list_ex (contains ''/vm/'') (rule_values r))"

definition routing_status :: "cfg \<Rightarrow> (world, resp) io" where
  "routing_status c = (
     let out = [(''mode'', JStr (routing_mode c)),
         (''per_tenant_priority_window'', JList [JInt (priority_min c), JInt (priority_max c)])] in
     if listener_arn c = []
     then ok (mk_resp 200 (JObj (out @ [(''error'', JStr ''ALB listener not configured (ALB_LISTENER_ARN unset)'')])))
     else rules_or_502 (\<lambda>rules.
       let non_default = filter (\<lambda>r. r_priority r \<noteq> None) rules;
           static = filter is_static_rule non_default;
           per_tenant = filter (\<lambda>r. \<not> is_static_rule r) non_default;
           total = int (length non_default);
           headroom = max 0 (alb_rules_quota c - total);
           common = out @ [(''listener_rules_total'', JInt total),
             (''per_tenant_rules'', JInt (int (length per_tenant))),
             (''static_rules'', JInt (int (length static))),
             (''alb_rules_quota'', JInt (alb_rules_quota c)),
             (''quota_headroom'', JInt headroom),
             (''has_shared_catch_all'', JBool (list_ex is_catch_all static))]
       in ok (mk_resp 200 (JObj (
            if host_tg_mode c
            then common @ [(''tenant_ceiling'', JStr ''hosts x vms_per_host (no ALB rule per tenant)''),
                           (''cutover_complete'', JBool (per_tenant = []))] @
                 (if per_tenant = [] then [] else [(''note'', JStr (show_nat (length per_tenant) @
                    '' legacy per-tenant rule(s) remain''))])
            else common @ [(''tenant_ceiling'', JInt headroom),
                           (''note'', JStr ''per-tenant routing consumes one ALB listener rule per tenant'')])))))"

definition purgeable_tids :: "alb_rule \<Rightarrow> string list" where
  "purgeable_tids r = List.map_filter (\<lambda>v. if v = ''/vm/*'' then None else routed_tid v) (rule_values r)"

text \<open>\<open>set(only) if only else None\<close>: an empty list restricts nothing.\<close>

definition only_set :: "json \<Rightarrow> exn + json list option" where
  "only_set v = (if \<not> truthy v then Inr None
     else if list_ex (\<lambda>x. is_list x \<or> type_name x = ''dict'') (list_items v)
     then Inl (PyError TypeError ''unhashable type'')
     else Inr (Some (list_items v)))"

definition selected :: "json list option \<Rightarrow> alb_rule \<Rightarrow> bool" where
  "selected only r = (r_priority r \<noteq> None \<and> purgeable_tids r \<noteq> [] \<and>
     (case only of None \<Rightarrow> True | Some xs \<Rightarrow> list_ex (\<lambda>t. JStr t \<in> set xs) (purgeable_tids r)))"

definition purge_one :: "json list option \<Rightarrow> bool \<Rightarrow> alb_rule \<Rightarrow> route_row list \<Rightarrow> (world, route_row list) io" where
  "purge_one only dry_run r rs = (if \<not> selected only r then ok rs
     else let tid = hd (sorted_set (purgeable_tids r)); prio = (''priority'', opt_json JInt (r_priority r)) in
       if dry_run then ok (rs @ [route_row tid ''would_delete'' [prio]])
       else try_except (andThen (delete_rule (r_arn r)) (\<lambda>_. ok (rs @ [route_row tid ''deleted'' [prio]])))
         (\<lambda>e. ok (rs @ [route_row tid ''failed'' [prio, (''reason'', JStr (exn_str e))]])))"

definition purge_per_tenant_routing :: "cfg \<Rightarrow> payload \<Rightarrow> (world, resp) io" where
  "purge_per_tenant_routing c bd =
     andThen (lift_sum (load_optional_body bd)) (\<lambda>b.
     andThen (lift_sum (get_dry_run b)) (\<lambda>dr.
     if \<not> is_bool dr then ok (err_resp 400 ''dry_run must be a boolean'')
     else andThen (lift_sum (get_or b ''tenant_ids'' JNull)) (\<lambda>ids.
     if ids \<noteq> JNull \<and> \<not> is_list ids then ok (err_resp 400 ''tenant_ids must be a list of tenant ids'')
     else andThen (lift_sum (only_set ids)) (\<lambda>only.
     if listener_arn c = [] then ok no_listener
     else rules_or_502 (\<lambda>rules.
       let dry_run = (dr = JBool True) in
       andThen (fold_io (purge_one only dry_run) rules []) (\<lambda>rs.
       let deleted = length (filter (\<lambda>r. rr_action r = ''deleted'') rs) in
       andThen (whenever (\<not> dry_run \<and> deleted > 0)
          (audit_system c ''routing.per_tenant_purged'' ''routing:per-tenant''
             (show_nat deleted @ '' rules'') ''api'' None)) (\<lambda>_.
       ok (mk_resp 200 (JObj [(''dry_run'', dr), (''routing_mode_env'', JStr (routing_mode c)),
         (''counts'', count_actions rs), (''results'', JList (map route_row_json rs))]))))))))) "

section \<open>Frames\<close>

text \<open>
  The operations that set up a route only add rules; the others change the rules at will. Both
  touch the target groups and the random numbers, and nothing else.
\<close>

locale route_adding = aws_frame +
  assumes frame_add_rule: "R w (w\<lparr>w_serial := n, w_rules := w_rules w @ [r]\<rparr>)"
    and frame_tgs: "R w (w\<lparr>w_serial := n, w_tgs := ts\<rparr>)"
    and frame_rand: "R w (w\<lparr>w_rand := xs\<rparr>)"
begin

lemma frame_tgs': "R w (w\<lparr>w_tgs := ts\<rparr>)"
  using frame_tgs [where w = w and n = "w_serial w" and ts = ts] by simp

lemma keeps_rand_below [keeps_rules]: "keeps R (rand_below n)"
  by (simp add: keeps_def rand_below_def frame_refl frame_rand split: list.split)

lemma keeps_elb [keeps_rules]:
  "keeps R describe_rules" "keeps R (create_rule p vs tg)"
  "keeps R (describe_target_group nm)" "keeps R (create_target_group nm v)"
  "keeps R (register_target a ip)" "keeps R (delete_target_group a)"
  unfolding describe_rules_def create_rule_def describe_target_group_def
    create_target_group_def register_target_def delete_target_group_def
  by (rule keeps_aws; simp add: keeps_def frame_refl frame_add_rule frame_tgs frame_tgs'
      split: option.split)+

lemma keeps_ensure_host_tg [keeps_rules]: "keeps R (ensure_host_tg c i ip f)"
  unfolding ensure_host_tg_def Let_def by (intro keeps_rules)

lemma keeps_add_rule_attempts [keeps_rules]: "keeps R (add_rule_attempts c tid tg n)"
proof (induction n)
  case (Suc n)
  show ?case unfolding add_rule_attempts.simps Let_def by (intro keeps_rules Suc)
qed (simp add: keeps_raise)

lemma keeps_add_alb_rule [keeps_rules]: "keeps R (add_alb_rule c tid tg f)"
  unfolding add_alb_rule_def by (intro keeps_rules)

lemma keeps_rebuild_one [keeps_rules]: "keeps R (rebuild_one c hv dr t acc)"
  unfolding rebuild_one_def seen_host_tg_def Let_def by (intro keeps_rules)

lemma keeps_rebuild_all [keeps_rules]: "keeps R (rebuild_all c have dr ts)"
  unfolding rebuild_all_def by (intro keeps_rules)

end

locale alb_blind = route_adding +
  assumes frame_rules: "R w (w\<lparr>w_rules := rs\<rparr>)"
begin

lemma keeps_rule_edits [keeps_rules]: "keeps R (delete_rule a)" "keeps R (modify_rule a tg)"
  unfolding delete_rule_def modify_rule_def
  by (rule keeps_aws; simp add: keeps_def frame_refl frame_rules)+

lemma keeps_repoint [keeps_rules]: "keeps R (repoint_alb_rule_to_tg c tid tg)"
  unfolding repoint_alb_rule_to_tg_def by (intro keeps_rules)

lemma keeps_remove_alb_rule [keeps_rules]: "keeps R (remove_alb_rule c tid)"
  unfolding remove_alb_rule_def by (intro keeps_rules)

lemma keeps_remove_host_tg [keeps_rules]: "keeps R (remove_host_tg c i)"
  unfolding remove_host_tg_def by (intro keeps_rules)

end

interpretation staying_quiet: alb_blind "inv_rel quiet"
  by unfold_locales (auto simp: inv_rel_def quiet_def)

interpretation keyed_kept: alb_blind "inv_rel keyed_world"
  by unfold_locales (simp_all add: inv_rel_def keyed_world_def)

interpretation replies_same: alb_blind "unchanged w_replies"
  by unfold_locales (simp_all add: unchanged_def)

interpretation queue_same: alb_blind "unchanged w_queue"
  by unfold_locales (simp_all add: unchanged_def)

interpretation http_same: alb_blind "unchanged w_http"
  by unfold_locales (simp_all add: unchanged_def)

interpretation one_tenant: alb_blind "others_same k" for k
  by unfold_locales (simp_all add: others_same_def)

interpretation staying_rows: alb_blind rows_stay
  by unfold_locales (simp_all add: rows_stay_def)

interpretation tenants_same: alb_blind "unchanged w_tenants"
  by unfold_locales (simp_all add: unchanged_def)

interpretation hosts_same: alb_blind "unchanged w_hosts"
  by unfold_locales (simp_all add: unchanged_def)

interpretation ssm_same: alb_blind "unchanged w_ssm"
  by unfold_locales (simp_all add: unchanged_def)

definition rules_grow :: "world \<Rightarrow> world \<Rightarrow> bool" where
  "rules_grow w w' = (\<exists>xs. w_rules w' = w_rules w @ xs)"

interpretation growing: route_adding rules_grow
  by unfold_locales (auto simp: rules_grow_def)

section \<open>Lemmas\<close>

lemma describe_rules_Inr: "describe_rules w = (Inr rs, w') \<Longrightarrow> rs = w_rules w \<and> w_rules w' = w_rules w"
  unfolding describe_rules_def by (cases rule: aws_elim) auto

lemma create_rule_result:
  assumes "create_rule p vs tg w = (r, w')"
  shows "(\<exists>e. r = Inl e \<and> w_rules w' = w_rules w) \<or>
    (r = Inr () \<and> (\<forall>q \<in> set (w_rules w). r_priority q \<noteq> Some p) \<and>
     (\<exists>a. w_rules w' = w_rules w @ [\<lparr>r_arn = a, r_priority = Some p,
         r_conditions = [\<lparr>ac_field = ''path-pattern'', ac_values = vs\<rparr>], r_targets = [tg]\<rparr>]))"
  using assms unfolding create_rule_def
  by (cases rule: aws_elim) (auto split: if_splits)

definition tenant_rule :: "string \<Rightarrow> string \<Rightarrow> int \<Rightarrow> string \<Rightarrow> alb_rule" where
  "tenant_rule tid tg p a = \<lparr>r_arn = a, r_priority = Some p,
     r_conditions = [\<lparr>ac_field = ''path-pattern'', ac_values = [vm_path tid, vm_path tid @ ''/*'']\<rparr>],
     r_targets = [tg]\<rparr>"

lemma add_rule_attempts_Inr:
  "add_rule_attempts c tid tg n w = (Inr (), w') \<Longrightarrow>
   (list_ex (mentions tid) (w_rules w) \<and> w_rules w' = w_rules w) \<or>
   (\<not> list_ex (mentions tid) (w_rules w) \<and> (\<exists>p a. p \<in> set (free_priorities c (w_rules w)) \<and>
      w_rules w' = w_rules w @ [tenant_rule tid tg p a]))"
proof (induction n arbitrary: w)
  case (Suc n)
  from Suc.prems obtain rules w1 where d: "describe_rules w = (Inr rules, w1)"
    by (auto simp: andThen_Inr)
  note rules = describe_rules_Inr [OF d]
  show ?case
  proof (cases "list_ex (mentions tid) rules")
    case True
    with Suc.prems d rules show ?thesis by (simp add: andThen_apply ok_apply)
  next
    case False
    let ?free = "free_priorities c rules"
    obtain k w2 where k: "rand_below (length ?free) w1 = (Inr k, w2)" and ne: "?free \<noteq> []"
      using Suc.prems d False by (auto simp: andThen_apply raise_apply Let_def rand_below_def split: if_splits list.splits)
    have kb: "?free ! k \<in> set ?free" "w_rules w2 = w_rules w1"
      using k ne by (auto simp: rand_below_def split: list.splits)
    obtain r w3 where cr: "create_rule (?free ! k) [vm_path tid, vm_path tid @ ''/*''] tg w2 = (r, w3)"
      by fastforce
    show ?thesis
    proof (cases r)
      case (Inr u)
      then have "w' = w3"
        using Suc.prems d False ne k cr by (auto simp: andThen_apply try_except_apply ok_apply Let_def)
      with create_rule_result [OF cr] Inr kb rules False show ?thesis
        unfolding tenant_rule_def by auto
    next
      case (Inl e)
      then have "add_rule_attempts c tid tg n w3 = (Inr (), w')"
        using Suc.prems d False ne k cr
        by (auto simp: andThen_apply try_except_apply ok_apply raise_apply Let_def split: if_splits)
      moreover have "w_rules w3 = w_rules w" using create_rule_result [OF cr] Inl kb rules by auto
      ultimately show ?thesis using Suc.IH [of w3] by auto
    qed
  qed
qed simp

lemma contains_append: "contains pat (pre @ pat @ post)"
proof (induction pre)
  case Nil
  have "prefix pat (pat @ post)" by simp
  then show ?case by (cases "pat @ post") (auto simp: contains_def)
next
  case (Cons x pre)
  then show ?case by (auto simp: contains_def)
qed

lemma vm_path_contains: "contains (vm_path tid) (vm_path (tid @ x))"
  using contains_append [of "vm_path tid" "[]" x] by (simp add: vm_path_def)

lemma mentions_tenant_rule: "mentions tid (tenant_rule tid tg p a)"
  using vm_path_contains [of tid "[]"] by (simp add: mentions_def tenant_rule_def rule_values_def)

lemma rebuild_one_created:
  assumes "rebuild_one c hv dr t acc w = (Inr (seen', rs'), w')" "listener_arn c \<noteq> []"
    "\<forall>r \<in> set (snd acc). rr_action r = ''created'' \<longrightarrow> list_ex (mentions (rr_tenant r)) (w_rules w)"
  shows "\<forall>r \<in> set rs'. rr_action r = ''created'' \<longrightarrow> list_ex (mentions (rr_tenant r)) (w_rules w')"
proof -
  obtain seen rs where acc: "acc = (seen, rs)" by (cases acc)
  have grow: "rules_grow w w'" using growing.keeps_rebuild_one assms(1) by (rule keepsD)
  then have old: "\<forall>r \<in> set rs. rr_action r = ''created'' \<longrightarrow> list_ex (mentions (rr_tenant r)) (w_rules w')"
    using assms(3) acc by (auto simp: rules_grow_def)
  have created: "list_ex (mentions tid) (w_rules v')" if "add_alb_rule c tid tg True v = (Inr (), v')" for tid tg v v'
    using that add_rule_attempts_Inr [of c tid tg 6 v v'] assms(2) mentions_tenant_rule
    by (auto simp: add_alb_rule_def simp del: add_rule_attempts.simps split: if_splits)
  have "(\<exists>row. rs' = rs @ [row] \<and> rr_action row \<noteq> ''created'') \<or> rs' = rs \<or>
      (\<exists>row tg v. rs' = rs @ [row] \<and> rr_tenant row = t_id t \<and> add_alb_rule c (t_id t) tg True v = (Inr (), w'))"
    using assms(1) unfolding acc rebuild_one_def Let_def io_inv prod.case
    by (elim disjE conjE exE) (simp_all add: route_row_def, blast+)
  with old created show ?thesis by auto
qed

lemma rebuild_fold:
  "fold_io (rebuild_one c hv dr) ts acc w = (Inr (seen', rs'), w') \<Longrightarrow> listener_arn c \<noteq> [] \<Longrightarrow>
   \<forall>r \<in> set (snd acc). rr_action r = ''created'' \<longrightarrow> list_ex (mentions (rr_tenant r)) (w_rules w) \<Longrightarrow>
   \<forall>r \<in> set rs'. rr_action r = ''created'' \<longrightarrow> list_ex (mentions (rr_tenant r)) (w_rules w')"
proof (induction ts arbitrary: acc w)
  case (Cons t ts)
  then obtain acc1 w1 where s: "rebuild_one c hv dr t acc w = (Inr acc1, w1)"
    and r: "fold_io (rebuild_one c hv dr) ts acc1 w1 = (Inr (seen', rs'), w')"
    by (auto simp: andThen_Inr)
  obtain seen1 rs1 where acc1: "acc1 = (seen1, rs1)" by (cases acc1)
  have "\<forall>r \<in> set rs1. rr_action r = ''created'' \<longrightarrow> list_ex (mentions (rr_tenant r)) (w_rules w1)"
    using rebuild_one_created [of c hv dr t acc w seen1 rs1 w1] s acc1 Cons.prems(2,3) by simp
  then show ?case using Cons.IH [OF r Cons.prems(2)] acc1 by simp
qed auto

lemma purge_one_rules:
  assumes "purge_one only dr r rs w = (res, w')"
  shows "w_rules w' = w_rules w \<or>
    (\<not> dr \<and> selected only r \<and> w_rules w' = filter (\<lambda>q. r_arn q \<noteq> r_arn r) (w_rules w))"
proof -
  have del: "w_rules u = w_rules w \<or> w_rules u = filter (\<lambda>q. r_arn q \<noteq> r_arn r) (w_rules w)"
    if "delete_rule (r_arn r) w = (x, u)" for x u
    using that unfolding delete_rule_def by (cases rule: aws_elim) (auto split: if_splits)
  show ?thesis
    using assms del
    by (cases "delete_rule (r_arn r) w")
      (auto simp: purge_one_def Let_def io_simps split: if_splits sum.splits)
qed

lemma purge_fold:
  "fold_io (purge_one only dr) rules rs w = (res, w') \<Longrightarrow> distinct (map r_arn all) \<Longrightarrow>
   set rules \<subseteq> set all \<Longrightarrow> set (w_rules w) \<subseteq> set all \<Longrightarrow>
   set (w_rules w') \<subseteq> set all \<and> (dr \<longrightarrow> w_rules w' = w_rules w) \<and>
   (\<forall>q \<in> set (w_rules w). \<not> selected only q \<longrightarrow> q \<in> set (w_rules w'))"
proof (induction rules arbitrary: rs w)
  case Nil
  then show ?case by (simp add: ok_apply)
next
  case (Cons r rules)
  obtain x w1 where s: "purge_one only dr r rs w = (x, w1)" by fastforce
  note step = purge_one_rules [OF s]
  have arn: "q = r" if "q \<in> set all" "r_arn q = r_arn r" for q
    using that Cons.prems(2,3) by (auto simp: distinct_map inj_on_def)
  have w1: "set (w_rules w1) \<subseteq> set all" "dr \<longrightarrow> w_rules w1 = w_rules w"
    using step Cons.prems(4) by auto
  have w1': "\<forall>q \<in> set (w_rules w). \<not> selected only q \<longrightarrow> q \<in> set (w_rules w1)"
  proof (intro ballI impI)
    fix q
    assume q: "q \<in> set (w_rules w)" "\<not> selected only q"
    have "r_arn q = r_arn r \<Longrightarrow> q = r" using arn Cons.prems(4) q(1) by blast
    with q step show "q \<in> set (w_rules w1)" by auto
  qed
  show ?case
  proof (cases x)
    case (Inl e)
    with s Cons.prems(1) have "w' = w1" by (simp add: andThen_apply)
    with w1 w1' show ?thesis by simp
  next
    case (Inr rs1)
    with s Cons.prems(1) have r: "fold_io (purge_one only dr) rules rs1 w1 = (res, w')"
      by (simp add: andThen_apply)
    show ?thesis using Cons.IH [OF r Cons.prems(2) _ w1(1)] w1 w1' Cons.prems(3) by auto
  qed
qed

lemma rules_or_502_cases:
  "rules_or_502 k w = (r, w') \<Longrightarrow> (\<exists>w1. w_rules w1 = w_rules w \<and> k (w_rules w) w1 = (r, w')) \<or> w_rules w' = w_rules w"
proof -
  assume a: "rules_or_502 k w = (r, w')"
  obtain x w1 where d: "describe_rules w = (x, w1)" by fastforce
  have same: "w_rules w1 = w_rules w"
    using d unfolding describe_rules_def by (cases rule: aws_elim) (auto simp: gets_def)
  show ?thesis
  proof (cases x)
    case (Inr rs)
    with a d describe_rules_Inr [of w rs w1] same show ?thesis
      by (auto simp: rules_or_502_def io_simps)
  next
    case (Inl e)
    with a d same show ?thesis by (cases e) (auto simp: rules_or_502_def io_simps)
  qed
qed

section \<open>Properties\<close>

text \<open>
  Adding a tenant's route either finds the tenant's path somewhere in an existing rule and
  changes no rule, or adds exactly one rule, for that tenant, at a priority inside the reserved
  window that no other rule uses; whatever calls fail or collide on the way.
\<close>

theorem add_alb_rule_spec:
  assumes "add_alb_rule c tid tg force w = (Inr (), w')" "listener_arn c \<noteq> []" "\<not> host_tg_mode c \<or> force"
  shows "(list_ex (mentions tid) (w_rules w) \<and> w_rules w' = w_rules w) \<or>
    (\<not> list_ex (mentions tid) (w_rules w) \<and> (\<exists>p a. priority_min c \<le> p \<and> p \<le> priority_max c \<and>
       p \<notin> set (used_priorities (w_rules w)) \<and> w_rules w' = w_rules w @ [tenant_rule tid tg p a]))"
proof -
  have "add_rule_attempts c tid tg 6 w = (Inr (), w')"
    using assms by (simp add: add_alb_rule_def del: add_rule_attempts.simps split: if_splits)
  from add_rule_attempts_Inr [OF this] show ?thesis by (auto simp: free_priorities_def)
qed

theorem add_alb_rule_spec_witness:
  "\<exists>p a. 10 \<le> p \<and> p \<le> 499 \<and>
     w_rules (snd (add_alb_rule cfg0 ''a-1'' ''tg-0'' False world0)) = [tenant_rule ''a-1'' ''tg-0'' p a]"
proof -
  have "add_alb_rule cfg0 ''a-1'' ''tg-0'' False world0 =
      (Inr (), snd (add_alb_rule cfg0 ''a-1'' ''tg-0'' False world0))" by code_simp
  note spec = add_alb_rule_spec [OF this]
  have "listener_arn cfg0 \<noteq> []" "\<not> host_tg_mode cfg0 \<or> False" by code_simp+
  note spec = spec [OF this]
  have "\<not> list_ex (mentions ''a-1'') (w_rules world0)" by simp
  with spec show ?thesis by auto
qed

text \<open>
  The check that makes adding a route idempotent is a substring test: when another tenant's
  id extends this one's, this tenant gets no rule of its own, although the call returns normally.
\<close>

theorem add_alb_rule_blocked_by_longer_id:
  assumes "add_alb_rule c tid tg force w = (Inr (), w')" "r \<in> set (w_rules w)"
    "vm_path (tid @ x) \<in> set (rule_values r)"
  shows "w_rules w' = w_rules w"
proof -
  have m: "list_ex (mentions tid) (w_rules w)"
    using assms(2,3) vm_path_contains by (auto simp: list_ex_iff mentions_def)
  then show ?thesis
    using assms(1) add_rule_attempts_Inr [of c tid tg 6 w w']
    by (auto simp: add_alb_rule_def simp del: add_rule_attempts.simps split: if_splits)
qed

theorem add_alb_rule_blocked_by_longer_id_witness:
  "w_rules (snd (add_alb_rule cfg0 ''a-1'' ''tg-0'' False
     (world0\<lparr>w_rules := [tenant_rule ''a-1-beef'' ''tg-9'' 10 ''rule-9'']\<rparr>))) =
   [tenant_rule ''a-1-beef'' ''tg-9'' 10 ''rule-9'']"
proof -
  let ?w = "world0\<lparr>w_rules := [tenant_rule ''a-1-beef'' ''tg-9'' 10 ''rule-9'']\<rparr>"
  have "add_alb_rule cfg0 ''a-1'' ''tg-0'' False ?w = (Inr (), snd (add_alb_rule cfg0 ''a-1'' ''tg-0'' False ?w))"
    by code_simp
  moreover have "tenant_rule ''a-1-beef'' ''tg-9'' 10 ''rule-9'' \<in> set (w_rules ?w)" by simp
  moreover have "vm_path (''a-1'' @ ''-beef'') \<in> set (rule_values (tenant_rule ''a-1-beef'' ''tg-9'' 10 ''rule-9''))"
    by code_simp
  ultimately show ?thesis using add_alb_rule_blocked_by_longer_id by fastforce
qed

text \<open>
  Rebuilding the routes only ever adds rules, a dry run adds none, and every tenant the
  report lists as created is matched by a rule afterwards.
\<close>

theorem rebuild_creates_what_it_reports:
  assumes "rebuild_all c hv dry_run ts w = (Inr rs, w')" "listener_arn c \<noteq> []"
  shows "rules_grow w w' \<and>
    (\<forall>r \<in> set rs. rr_action r = ''created'' \<longrightarrow> list_ex (mentions (rr_tenant r)) (w_rules w'))"
proof -
  obtain seen where "fold_io (rebuild_one c hv dry_run) ts ([], []) w = (Inr (seen, rs), w')"
    using assms(1) by (auto simp: rebuild_all_def andThen_Inr)
  with rebuild_fold [OF _ assms(2), of hv dry_run ts "([], [])" w seen rs w']
    keepsD [OF growing.keeps_rebuild_all assms(1)]
  show ?thesis by simp
qed

theorem rebuild_creates_what_it_reports_witness:
  "list_ex (mentions ''a-1'') (w_rules (snd (rebuild_all cfg0 [] False
     [(fresh_tenant ''a-1'')\<lparr>t_host_id := Some ''i-1''\<rparr>] (world0\<lparr>w_hosts := [(''i-1'', host4)]\<rparr>))))"
proof -
  let ?w = "world0\<lparr>w_hosts := [(''i-1'', host4)]\<rparr>" and ?ts = "[(fresh_tenant ''a-1'')\<lparr>t_host_id := Some ''i-1''\<rparr>]"
  have "rebuild_all cfg0 [] False ?ts ?w =
    (Inr [route_row ''a-1'' ''created'' [(''host_id'', JStr ''i-1'')]], snd (rebuild_all cfg0 [] False ?ts ?w))"
    by code_simp
  from rebuild_creates_what_it_reports [OF this] show ?thesis by (simp add: route_row_def)
qed



end
