(* ===== verification/Tenants.thy ===== *)
theory Tenants
  imports Ssm Rbac Alb
begin

text \<open>
  Creating, listing, reading and deleting tenants, launching their VMs, and placing the tenants
  that wait for a host (api/handler.py). A handler that answers early is written with \<open>early\<close>,
  whose first argument either answers or hands on a value.
\<close>

section \<open>Early answers\<close>

definition early :: "(world, resp + 'a) io \<Rightarrow> ('a \<Rightarrow> (world, resp + 'b) io) \<Rightarrow> (world, resp + 'b) io" where
  "early m f = andThen m (\<lambda>r. case r of Inl answer \<Rightarrow> ok (Inl answer) | Inr x \<Rightarrow> f x)"

definition answer :: "resp \<Rightarrow> (world, resp + 'a) io" where
  "answer r = ok (Inl r)"

definition proceed :: "'a \<Rightarrow> (world, resp + 'a) io" where
  "proceed x = ok (Inr x)"

definition check_that :: "bool \<Rightarrow> resp \<Rightarrow> (world, resp + unit) io" where
  "check_that b r = (if b then proceed () else answer r)"

definition val :: "(world, 'a) io \<Rightarrow> (world, resp + 'a) io" where
  "val m = andThen m proceed"

definition pure_val :: "exn + 'a \<Rightarrow> (world, resp + 'a) io" where
  "pure_val r = val (lift_sum r)"

definition finish :: "(world, resp + resp) io \<Rightarrow> (world, resp) io" where
  "finish m = andThen m (\<lambda>r. ok (case r of Inl a \<Rightarrow> a | Inr a \<Rightarrow> a))"

context frame
begin

lemma keeps_check_only: "keeps R (ok x :: ('s, 'a) io)"
  by (rule keeps_ok)

end

context aws_frame
begin

lemma keeps_early [keeps_rules]: "keeps R m \<Longrightarrow> (\<And>x. keeps R (f x)) \<Longrightarrow> keeps R (early m f)"
  unfolding early_def by (intro keeps_rules)

lemma keeps_early_parts [keeps_rules]:
  "keeps R (answer r)" "keeps R (proceed x)" "keeps R (check_that b r)" "keeps R (pure_val s)"
  unfolding answer_def proceed_def check_that_def pure_val_def val_def by (intro keeps_rules)+

lemma keeps_val [keeps_rules]: "keeps R m \<Longrightarrow> keeps R (val m)"
  unfolding val_def by (intro keeps_rules)

lemma keeps_finish [keeps_rules]: "keeps R m \<Longrightarrow> keeps R (finish m)"
  unfolding finish_def by (intro keeps_rules)

end

section \<open>Rows as JSON\<close>

definition tags_json :: "(string \<times> string) list \<Rightarrow> json" where
  "tags_json ts = JObj (map (\<lambda>(k, v). (k, JStr v)) ts)"

definition schedule_json :: "schedule \<Rightarrow> json" where
  "schedule_json s = attrs [(''start'', map_option JStr (sc_start s)), (''stop'', map_option JStr (sc_stop s)),
     (''timezone'', map_option JStr (sc_timezone s)), (''days'', map_option strs_json (sc_days s))]"

definition tenant_attrs :: "tenant \<Rightarrow> (string \<times> json option) list" where
  "tenant_attrs t = [(''id'', Some (JStr (t_id t))),
     (''name'', map_option JStr (t_name t)),
     (''status'', map_option JStr (t_status t)),
     (''host_id'', map_option JStr (t_host_id t)),
     (''vm_num'', map_option JInt (t_vm_num t)),
     (''guest_ip'', map_option JStr (t_guest_ip t)),
     (''host_port'', map_option JInt (t_host_port t)),
     (''vcpu'', map_option JInt (t_vcpu t)),
     (''mem_mb'', map_option JInt (t_mem_mb t)),
     (''data_disk_mb'', map_option JInt (t_data_disk_mb t)),
     (''health_failures'', map_option JInt (t_health_failures t)),
     (''rootfs_version'', map_option JStr (t_rootfs_version t)),
     (''config_template'', map_option JStr (t_config_template t)),
     (''restore_backup_key'', map_option JStr (t_restore_backup_key t)),
     (''tags'', Some (tags_json (item_tags t))),
     (''skills'', map_option strs_json (t_skills t)),
     (''group'', map_option JStr (t_group t)),
     (''ttl_hours'', map_option JInt (t_ttl_hours t)),
     (''on_expiry'', map_option JStr (t_on_expiry t)),
     (''expires_at'', map_option stamp_json (t_expires_at t)),
     (''schedule'', map_option schedule_json (t_schedule t)),
     (''clone_from'', map_option JStr (t_clone_from t)),
     (''creation_started_at'', map_option stamp_json (t_creation_started_at t)),
     (''created_at'', map_option stamp_json (t_created_at t)),
     (''updated_at'', map_option stamp_json (t_updated_at t)),
     (''vm_health'', map_option JStr (t_vm_health t)),
     (''app_health'', map_option JStr (t_app_health t)),
     (''last_health_check'', map_option stamp_json (t_last_health_check t)),
     (''last_backup_at'', map_option stamp_json (t_last_backup_at t)),
     (''gateway_token'', map_option JStr (t_gateway_token t)),
     (''metrics'', map_option (\<lambda>ms. JObj (map (\<lambda>(k, v). (k, JInt v)) ms)) (t_metrics t)),
     (''migration_target'', map_option JStr (t_migration_target t)),
     (''migration_target_vm_num'', map_option JInt (t_migration_target_vm_num t)),
     (''migration_source'', map_option JStr (t_migration_source t)),
     (''migration_snap_cmd'', map_option JStr (t_migration_snap_cmd t)),
     (''migration_restore_cmd'', map_option JStr (t_migration_restore_cmd t)),
     (''migration_phase'', map_option JStr (t_migration_phase t)),
     (''migration_mode'', map_option JStr (t_migration_mode t)),
     (''migration_started_at'', map_option stamp_json (t_migration_started_at t)),
     (''migration_snapshot_uri'', map_option JStr (t_migration_snapshot_uri t)),
     (''migration_failed'', map_option JStr (t_migration_failed t)),
     (''previous_host_id'', map_option JStr (t_previous_host_id t)),
     (''failover_from_az'', map_option JStr (t_failover_from_az t)),
     (''failover_at'', map_option stamp_json (t_failover_at t)),
     (''failover_error'', map_option JStr (t_failover_error t)),
     (''restored_from'', map_option JStr (t_restored_from t))]"


section \<open>Listing and reading\<close>

definition not_deleted :: "tenant \<Rightarrow> bool" where
  "not_deleted t = (t_status t \<noteq> Some ''deleted'')"

definition list_tenants :: "(string \<times> string) list \<Rightarrow> (string \<times> string list) list \<Rightarrow> (world, resp) io" where
  "list_tenants query_params multi_query_params =
     andThen (scan_all w_tenants not_deleted) (\<lambda>items.
       let tag_filters = collect_tag_filters query_params multi_query_params;
           shown = (if tag_filters \<noteq> [] then filter (\<lambda>t. matches_all_tags t tag_filters) items else items)
       in ok (mk_resp 200 (JList (map (\<lambda>t. attrs (tenant_attrs t)) shown))))"

definition tenant_not_found :: resp where
  "tenant_not_found = err_resp 404 ''tenant not found''"

definition get_tenant :: "cfg \<Rightarrow> string \<Rightarrow> (world, resp) io" where
  "get_tenant c tid = andThen (get_tenant_row tid) (\<lambda>item. case item of
       None \<Rightarrow> ok tenant_not_found
     | Some t \<Rightarrow> andThen (resolve_effective_skills c (Some t)) (\<lambda>eff.
         ok (mk_resp 200 (attrs (tenant_attrs t @ [(''effective_skills'',
           Some (case eff of None \<Rightarrow> JStr ''*'' | Some xs \<Rightarrow> strs_json xs))])))))"

section \<open>Launching\<close>

definition empty_arg :: string where
  "empty_arg = [CHR 0x22, CHR 0x22]"

definition default_device :: string where
  "default_device = ''$(ip route show default | awk '' @ quoted ''{print $5}'' @ '' | head -1)''"

definition dnat_spec :: "cfg \<Rightarrow> string \<Rightarrow> string \<Rightarrow> string" where
  "dnat_spec c host_port guest_ip = ''PREROUTING -i '' @ default_device @ '' -p tcp --dport '' @ host_port @
     '' -j DNAT --to-destination '' @ guest_ip @ '':'' @ show_int (vm_port_base c)"

definition launch_command :: "cfg \<Rightarrow> string \<Rightarrow> int \<Rightarrow> int \<Rightarrow> int \<Rightarrow> string \<Rightarrow> int
   \<Rightarrow> string \<Rightarrow> string \<Rightarrow> string list option \<Rightarrow> string" where
  "launch_command c tid vm_num vcpu mem_mb guest_ip host_port config_template restore_key scoped_skills =
     (let tpl_arg = (if config_template \<noteq> [] then config_template else empty_arg);
          restore_arg = (if restore_key \<noteq> [] then restore_key else empty_arg);
          skills_arg = (case scoped_skills of None \<Rightarrow> empty_arg
            | Some ss \<Rightarrow> if ss = [] then empty_arg else join '','' ss)
      in ''/home/ubuntu/launch-vm.sh '' @ tid @ '' '' @ show_int vm_num @ '' '' @ show_int vcpu @ '' '' @
         show_int mem_mb @ '' '' @ tpl_arg @ '' '' @ restore_arg @ '' '' @ skills_arg @
         '' && sudo iptables -t nat -A '' @ dnat_spec c (show_int host_port) guest_ip)"

definition launch_vm :: "cfg \<Rightarrow> string \<Rightarrow> string \<Rightarrow> int \<Rightarrow> int \<Rightarrow> int \<Rightarrow> string \<Rightarrow> int
   \<Rightarrow> string \<Rightarrow> string \<Rightarrow> string list option \<Rightarrow> (world, unit) io" where
  "launch_vm c inst tid vm_num vcpu mem_mb guest_ip host_port config_template restore_key scoped_skills =
     andThen (send inst (launch_command c tid vm_num vcpu mem_mb guest_ip host_port config_template
       restore_key scoped_skills) 300) (\<lambda>_. ok ())"

text \<open>The API's blocking SSM call, which drops the output (\<open>_ssm_run\<close>).\<close>

definition ssm_run :: "string \<Rightarrow> string \<Rightarrow> int \<Rightarrow> (world, bool) io" where
  "ssm_run inst cmd timeout = andThen (run inst cmd timeout 3 2) (\<lambda>(okay, out). ok okay)"

section \<open>Backups\<close>

fun latest_of :: "s3_object \<Rightarrow> s3_object list \<Rightarrow> s3_object" where
  "latest_of b [] = b"
| "latest_of b (ob # os) = latest_of (if o_modified ob > o_modified b then ob else b) os"

definition resolve_backup :: "cfg \<Rightarrow> string \<Rightarrow> string \<Rightarrow> (world, string) io" where
  "resolve_backup c src ts = andThen (list_page (backup_prefix c @ ''/'' @ src @ ''/'')) (\<lambda>objs.
     case objs of
       [] \<Rightarrow> ok ''''
     | b # rest \<Rightarrow>
         if ts \<noteq> [] then
           (let key = backup_prefix c @ ''/'' @ src @ ''/'' @ ts @ ''.gz'' in
            ok (if list_ex (\<lambda>ob. o_key ob = key) objs then key else ''''))
         else ok (o_key (latest_of b rest)))"

section \<open>Creating: the checks\<close>

record create_req =
  cr_name :: string
  cr_vcpu :: int
  cr_mem :: int
  cr_template :: string
  cr_skills :: "string list option"
  cr_group :: string
  cr_clone_from :: string
  cr_clone_src :: "tenant option"
  cr_tags :: "(string \<times> string) list"
  cr_ttl :: "ttl option"
  cr_schedule :: "schedule option"
  cr_restore_key :: string

definition int_field :: "json \<Rightarrow> string \<Rightarrow> int \<Rightarrow> exn + int" where
  "int_field b k d = bind_sum (get_or b k (JInt d)) py_int"

text \<open>\<open>re.match\<close> of a value that is not a string raises.\<close>

definition template_field :: "json \<Rightarrow> exn + string option" where
  "template_field b = bind_sum (get_or b ''config_template'' (JStr '''')) (\<lambda>v.
     if \<not> truthy v then Inr (Some '''') else (case v of
       JStr s \<Rightarrow> Inr (if skill_name_re s then Some s else None)
     | _ \<Rightarrow> Inl (PyError TypeError ''expected string or bytes-like object'')))"

definition create_basic :: "cfg \<Rightarrow> json \<Rightarrow> (world, resp + create_req) io" where
  "create_basic c b =
     early (pure_val (get_or b ''name'' (JStr ''''))) (\<lambda>name.
     case validate_name name of Some e \<Rightarrow> answer (err_resp 400 e) | None \<Rightarrow>
     early (pure_val (int_field b ''vcpu'' (vm_default_vcpu c))) (\<lambda>vcpu.
     early (pure_val (int_field b ''mem_mb'' (vm_default_mem c))) (\<lambda>mem_mb.
     early (pure_val (int_field b ''data_disk_mb'' (vm_data_disk_mb c))) (\<lambda>data_disk_mb.
     case check_quota c vcpu mem_mb data_disk_mb of Some e \<Rightarrow> answer (err_resp 400 e) | None \<Rightarrow>
     early (pure_val (template_field b)) (\<lambda>template.
     case template of
       None \<Rightarrow> answer (err_resp 400 ''config_template must match ^[a-z0-9]([a-z0-9-]{0,62}[a-z0-9])?$'')
     | Some tpl \<Rightarrow> proceed \<lparr>cr_name = the_str name, cr_vcpu = vcpu, cr_mem = mem_mb, cr_template = tpl,
         cr_skills = None, cr_group = '''', cr_clone_from = '''', cr_clone_src = None, cr_tags = [],
         cr_ttl = None, cr_schedule = None, cr_restore_key = ''''\<rparr>)))))"

definition clean_skills :: "json \<Rightarrow> string list" where
  "clean_skills v = sorted_set (non_empty (map (\<lambda>s. strip (the_str s)) (list_items v)))"

definition create_scope :: "cfg \<Rightarrow> json \<Rightarrow> create_req \<Rightarrow> (world, resp + create_req) io" where
  "create_scope c b rq =
     early (pure_val (get_or b ''skills'' JNull)) (\<lambda>v.
     early (check_that (v = JNull \<or> (is_list v \<and> list_all is_str (list_items v)))
        (err_resp 400 ''skills must be a list of strings'')) (\<lambda>_.
     let bad = filter (\<lambda>s. \<not> skill_name_re s) (clean_skills v) in
     early (check_that (v = JNull \<or> bad = []) (err_resp 400 (''invalid skill name(s): '' @ json_repr (strs_json bad)))) (\<lambda>_.
     early (pure_val (stripped_field b ''group'')) (\<lambda>grp.
     early (check_that (grp = [] \<or> name_re grp) (err_resp 400 ''group must match ^[a-z0-9]([a-z0-9-]{0,30}[a-z0-9])?$'')) (\<lambda>_.
     early (if grp \<noteq> [] \<and> has_groups_table c
            then val (try_except (andThen (get_group_row grp) (\<lambda>g. ok (g \<noteq> None))) (\<lambda>_. ok True))
            else proceed True) (\<lambda>known.
     early (check_that known (err_resp 404 (''group '' @ quoted grp @ '' not found - create it first via POST /groups''))) (\<lambda>_.
     proceed (rq\<lparr>cr_skills := (if v = JNull then None else Some (clean_skills v)), cr_group := grp\<rparr>))))))))"

definition row_key :: "json \<Rightarrow> exn + string" where
  "row_key v = (case v of JStr s \<Rightarrow> Inr s
     | _ \<Rightarrow> Inl (ClientError ''ValidationException'' ''The provided key element does not match the schema''))"

definition find_clone_source :: "json \<Rightarrow> (world, resp + tenant option) io" where
  "find_clone_source clone_from = (if \<not> truthy clone_from then proceed None
     else early (pure_val (row_key clone_from)) (\<lambda>src.
       early (val (get_tenant_row src)) (\<lambda>row. case row of
         None \<Rightarrow> answer (err_resp 404 (''clone source not found: '' @ src))
       | Some t \<Rightarrow> early (check_that (t_status t = Some ''running'')
             (err_resp 400 (''clone source must be running (current: '' @ opt_str (t_status t) @ '')'')))
           (\<lambda>_. proceed (Some t)))))"

definition find_restore_key :: "cfg \<Rightarrow> json \<Rightarrow> (world, resp + string) io" where
  "find_restore_key c restore_from = (if \<not> truthy restore_from then proceed ''''
     else early (pure_val (get_or restore_from ''tenant_id'' JNull)) (\<lambda>src.
       early (check_that (truthy src) (err_resp 400 ''restore_from.tenant_id required'')) (\<lambda>_.
       early (pure_val (get_or restore_from ''timestamp'' JNull)) (\<lambda>ts.
       let ts_text = (if truthy ts then json_str ts else '''') in
       early (val (resolve_backup c (json_str src) ts_text)) (\<lambda>key.
       early (check_that (key \<noteq> [])
          (if truthy ts then err_resp 404 (''backup not found: '' @ json_str src @ ''/'' @ ts_text)
           else err_resp 404 (''no backups found for tenant_id='' @ json_str src))) (\<lambda>_.
       proceed key))))))"

definition create_sources :: "cfg \<Rightarrow> json \<Rightarrow> create_req \<Rightarrow> (world, resp + create_req) io" where
  "create_sources c b rq =
     early (pure_val (get_or b ''restore_from'' JNull)) (\<lambda>restore_from.
     early (pure_val (get_or b ''clone_from'' JNull)) (\<lambda>clone_from.
     early (check_that (\<not> (truthy clone_from \<and> truthy restore_from))
        (err_resp 400 ''clone_from and restore_from are mutually exclusive'')) (\<lambda>_.
     early (find_clone_source clone_from) (\<lambda>clone_src.
     early (pure_val (get_or b ''tags'' JNull)) (\<lambda>tags.
     case validate_tags tags of Some e \<Rightarrow> answer (err_resp 400 e) | None \<Rightarrow>
     early (pure_val (get_or b ''ttl_hours'' JNull)) (\<lambda>ttl_hours.
     early (pure_val (get_or b ''on_expiry'' JNull)) (\<lambda>on_expiry.
     early (val now) (\<lambda>t.
     early (pure_val (parse_ttl t ttl_hours on_expiry)) (\<lambda>ttl_r.
     case ttl_r of Inl e \<Rightarrow> answer (err_resp 400 e) | Inr ttl_fields \<Rightarrow>
     early (pure_val (get_or b ''schedule'' JNull)) (\<lambda>sched_raw.
     case parse_schedule (zone_known c) sched_raw of Inl e \<Rightarrow> answer (err_resp 400 e) | Inr sched \<Rightarrow>
     early (find_restore_key c restore_from) (\<lambda>key.
     proceed (rq\<lparr>cr_clone_from := (if truthy clone_from then the_str clone_from else ''''),
       cr_clone_src := clone_src,
       cr_tags := (case tags of JObj kvs \<Rightarrow> map (\<lambda>(k, v). (k, the_str v)) kvs | _ \<Rightarrow> []),
       cr_ttl := ttl_fields, cr_schedule := sched, cr_restore_key := key\<rparr>))))))))))))"

section \<open>Creating: placement and launch\<close>

definition gen_id :: "cfg \<Rightarrow> string \<Rightarrow> int \<Rightarrow> string" where
  "gen_id c name t = name @ ''-'' @ hash4 c name t"

definition set_ttl :: "ttl option \<Rightarrow> tenant \<Rightarrow> tenant" where
  "set_ttl f t = (case f of None \<Rightarrow> t
     | Some (h, act, e) \<Rightarrow> t\<lparr>t_ttl_hours := Some h, t_on_expiry := Some act, t_expires_at := Some e\<rparr>)"

text \<open>The attributes both kinds of row share.\<close>

definition base_row :: "create_req \<Rightarrow> string \<Rightarrow> int \<Rightarrow> tenant" where
  "base_row rq tid t = set_ttl (cr_ttl rq) ((fresh_tenant tid)\<lparr>t_name := Some (cr_name rq),
     t_vcpu := Some (cr_vcpu rq), t_mem_mb := Some (cr_mem rq), t_health_failures := Some 0,
     t_config_template := Some (cr_template rq), t_restore_backup_key := Some (cr_restore_key rq),
     t_tags := Some (cr_tags rq), t_created_at := Some (At t), t_updated_at := Some (At t),
     t_skills := cr_skills rq, t_group := (if cr_group rq = [] then None else Some (cr_group rq)),
     t_schedule := cr_schedule rq\<rparr>)"

definition pending_row :: "create_req \<Rightarrow> string \<Rightarrow> int \<Rightarrow> tenant" where
  "pending_row rq tid t = (base_row rq tid t)\<lparr>t_status := Some ''pending''\<rparr>"

definition queue_pending :: "cfg \<Rightarrow> create_req \<Rightarrow> string \<Rightarrow> int \<Rightarrow> string \<Rightarrow> (world, resp) io" where
  "queue_pending c rq tid t msg =
     andThen (put_tenant_row (pending_row rq tid t)) (\<lambda>_.
     andThen scale_out (\<lambda>_.
     andThen (publish_event c ''tenant.created'' tid (JObj [(''name'', JStr (cr_name rq)),
        (''vcpu'', JInt (cr_vcpu rq)), (''mem_mb'', JInt (cr_mem rq)), (''status'', JStr ''pending'')])) (\<lambda>_.
     ok (mk_resp 201 (JObj [(''id'', JStr tid), (''status'', JStr ''pending''), (''message'', JStr msg)])))))"

text \<open>
  The hosts a create may book on, in order: the one of the clone source or of the operator's
  choice, else the shuffled candidates; none means that the fleet is full.
\<close>

definition choose_hosts :: "cfg \<Rightarrow> json \<Rightarrow> create_req \<Rightarrow> (world, resp + host list) io" where
  "choose_hosts c b rq =
     early (pure_val (stripped_field b ''preferred_host_id'')) (\<lambda>preferred.
     case cr_clone_src rq of
       Some src \<Rightarrow>
         early (pure_val (required ''host_id'' (t_host_id src))) (\<lambda>hid.
         early (val (get_specific_host_with_capacity c hid (cr_vcpu rq) (cr_mem rq))) (\<lambda>h. case h of
           None \<Rightarrow> answer (err_resp 400 (''clone source: host '' @ hid @ '' lacks capacity for clone (vcpu='' @
             show_int (cr_vcpu rq) @ '', mem_mb='' @ show_int (cr_mem rq) @ '')''))
         | Some h \<Rightarrow> proceed [h]))
     | None \<Rightarrow>
         if preferred \<noteq> [] then
           early (val (get_specific_host_with_capacity c preferred (cr_vcpu rq) (cr_mem rq))) (\<lambda>h. case h of
             Some h \<Rightarrow> proceed [h]
           | None \<Rightarrow> early (val (get_host_row preferred)) (\<lambda>row.
               if (case row of None \<Rightarrow> True | Some r \<Rightarrow> h_status r \<in> {Some ''deleted'', Some ''draining''})
               then answer (err_resp 404 (''preferred_host_id '' @ preferred @ '' not found or draining''))
               else answer (err_resp 400 (''preferred_host_id '' @ preferred @ '' lacks capacity (vcpu='' @
                 show_int (cr_vcpu rq) @ '', mem_mb='' @ show_int (cr_mem rq) @ '')''))))
         else val (pick_hosts_for_create c (cr_vcpu rq) (cr_mem rq)))"

primrec reserve_first :: "cfg \<Rightarrow> host list \<Rightarrow> int \<Rightarrow> int \<Rightarrow> (world, (host \<times> int) option) io" where
  "reserve_first c [] v m = ok None"
| "reserve_first c (h # hs) v m = andThen (reserve_host_slot c h v m) (\<lambda>n. case n of
       Some vm_num \<Rightarrow> ok (Some (h, vm_num))
     | None \<Rightarrow> reserve_first c hs v m)"

definition guest_ip_of :: "cfg \<Rightarrow> int \<Rightarrow> string" where
  "guest_ip_of c vm_num = vm_subnet_prefix c @ ''.'' @ show_int vm_num @ ''.2''"

definition host_port_of :: "cfg \<Rightarrow> int \<Rightarrow> int" where
  "host_port_of c vm_num = vm_port_base c + vm_num - 1"

definition creating_row :: "cfg \<Rightarrow> create_req \<Rightarrow> string \<Rightarrow> int \<Rightarrow> host \<Rightarrow> int \<Rightarrow> tenant" where
  "creating_row c rq tid t h vm_num = (base_row rq tid t)\<lparr>t_status := Some ''creating'',
     t_host_id := Some (h_instance_id h), t_vm_num := Some vm_num,
     t_guest_ip := Some (guest_ip_of c vm_num), t_host_port := Some (host_port_of c vm_num),
     t_rootfs_version := Some (opt_str (h_rootfs_version h)), t_creation_started_at := Some (At t),
     t_clone_from := (if cr_clone_from rq = [] then None else Some (cr_clone_from rq))\<rparr>"

definition mark_deleted :: "string \<Rightarrow> (world, unit) io" where
  "mark_deleted tid = andThen now (\<lambda>t. andThen (update_tenant tid no_cond
     (set_attrs (\<lambda>r. r\<lparr>t_status := Some ''deleted'', t_updated_at := Some (At t)\<rparr>))) (\<lambda>_. ok ()))"

definition clone_disks :: "create_req \<Rightarrow> string \<Rightarrow> host \<Rightarrow> int \<Rightarrow> (world, resp + unit) io" where
  "clone_disks rq tid h vm_num = (case cr_clone_src rq of
       None \<Rightarrow> proceed ()
     | Some src \<Rightarrow>
         early (val (ssm_run (h_instance_id h) (''/home/ubuntu/clone-data.sh '' @ cr_clone_from rq @ '' '' @
           show_int (int_attr_or (t_vm_num src) 1) @ '' '' @ tid @ '' '' @ show_int vm_num) 180)) (\<lambda>okay.
         if okay then proceed ()
         else early (val (release_host_slot (h_instance_id h) (cr_vcpu rq) (cr_mem rq))) (\<lambda>_.
           early (val (mark_deleted tid)) (\<lambda>_.
           answer (err_resp 502 ''clone-data.sh failed; tenant rolled back'')))))"

definition launch_created :: "cfg \<Rightarrow> create_req \<Rightarrow> string \<Rightarrow> int \<Rightarrow> host \<Rightarrow> int \<Rightarrow> (world, resp + resp) io" where
  "launch_created c rq tid t h vm_num = (let item = creating_row c rq tid t h vm_num;
       guest_ip = guest_ip_of c vm_num; port = host_port_of c vm_num in
     early (val (put_tenant_row item)) (\<lambda>_.
     early (clone_disks rq tid h vm_num) (\<lambda>_.
     early (val (resolve_effective_skills c (Some item))) (\<lambda>skills.
     early (val (launch_vm c (h_instance_id h) tid vm_num (cr_vcpu rq) (cr_mem rq) guest_ip port
        (cr_template rq) (cr_restore_key rq) skills)) (\<lambda>_.
     early (pure_val (required ''private_ip'' (h_private_ip h))) (\<lambda>ip.
     early (val (ensure_host_tg c (h_instance_id h) ip False)) (\<lambda>tg.
     early (val (add_alb_rule c tid tg False)) (\<lambda>_.
     early (val (publish_event c ''tenant.created'' tid (JObj [(''name'', JStr (cr_name rq)),
        (''vcpu'', JInt (cr_vcpu rq)), (''mem_mb'', JInt (cr_mem rq)),
        (''host_id'', JStr (h_instance_id h)), (''guest_ip'', JStr guest_ip)]))) (\<lambda>_.
     proceed (mk_resp 201 (JObj [(''id'', JStr tid), (''host_id'', JStr (h_instance_id h)),
        (''guest_ip'', JStr guest_ip), (''host_port'', JInt port), (''status'', JStr ''creating'')])))))))))))"

text \<open>How many of the candidates are tried: all of a pinned placement, else the first few.\<close>

definition attempts :: "cfg \<Rightarrow> create_req \<Rightarrow> bool \<Rightarrow> host list \<Rightarrow> host list" where
  "attempts c rq pinned hs = (if pinned then hs else take (nat (max 1 (host_reserve_attempts c))) hs)"

definition create_placed :: "cfg \<Rightarrow> json \<Rightarrow> create_req \<Rightarrow> string \<Rightarrow> int \<Rightarrow> host list \<Rightarrow> (world, resp + resp) io" where
  "create_placed c b rq tid t hosts = (
     if hosts = [] then val (queue_pending c rq tid t ''scaling out, VM will be created when host is ready'')
     else early (pure_val (stripped_field b ''preferred_host_id'')) (\<lambda>preferred.
       let pinned = (cr_clone_src rq \<noteq> None \<or> preferred \<noteq> []) in
       early (val (reserve_first c (attempts c rq pinned hosts) (cr_vcpu rq) (cr_mem rq))) (\<lambda>slot.
       case slot of
         None \<Rightarrow> val (queue_pending c rq tid t ''host contention, VM will be created when a host is ready'')
       | Some (h, vm_num) \<Rightarrow> launch_created c rq tid t h vm_num)))"

definition create_checked :: "cfg \<Rightarrow> json \<Rightarrow> create_req \<Rightarrow> (world, resp + resp) io" where
  "create_checked c b rq =
     early (val now) (\<lambda>t.
     let tid = gen_id c (cr_name rq) t in
     early (choose_hosts c b rq) (create_placed c b rq tid t))"

definition create_request :: "cfg \<Rightarrow> json \<Rightarrow> (world, resp + create_req) io" where
  "create_request c b =
     early (create_basic c b) (\<lambda>rq.
     early (create_scope c b rq) (\<lambda>rq.
     create_sources c b rq))"

definition create_tenant :: "cfg \<Rightarrow> payload \<Rightarrow> (world, resp) io" where
  "create_tenant c bd = (if bd = NoBody then ok missing_body
     else andThen (lift_sum (load_body bd)) (\<lambda>b.
       finish (early (create_request c b) (create_checked c b))))"

section \<open>Deleting\<close>

definition free_slot :: "string \<Rightarrow> tenant \<Rightarrow> (world, unit) io" where
  "free_slot host_id t =
     andThen (lift_sum (required ''vcpu'' (t_vcpu t))) (\<lambda>v.
     andThen (lift_sum (required ''mem_mb'' (t_mem_mb t))) (\<lambda>m.
     andThen (update_host host_id no_cond (release_row v m)) (\<lambda>row.
     whenever (int_attr (h_vm_count row) = 0) (andThen now (\<lambda>n.
       andThen (update_host host_id no_cond (set_attrs (\<lambda>h. h\<lparr>h_idle_since := Some (At n)\<rparr>))) (\<lambda>_. ok ()))))))"

definition stop_and_forget :: "string \<Rightarrow> string \<Rightarrow> tenant \<Rightarrow> (world, unit) io" where
  "stop_and_forget tid host_id t =
     andThen (ssm_run host_id (''/home/ubuntu/stop-vm.sh '' @ tid @ '' '' @ show_int (int_attr_or (t_vm_num t) 1)) 30) (\<lambda>_.
     andThen (ssm_run host_id (''rm -f /data/firecracker-vms/'' @ tid @ ''/vm.json'') 30) (\<lambda>_. ok ()))"

definition clear_host :: "cfg \<Rightarrow> string \<Rightarrow> string \<Rightarrow> tenant \<Rightarrow> bool \<Rightarrow> (world, unit) io" where
  "clear_host c tid host_id t keep_data =
     andThen (ssm_run host_id (''sudo iptables -t nat -D '' @
        dnat_spec c (show_int (int_attr_or (t_host_port t) 0)) (opt_str (t_guest_ip t)) @ '' 2>/dev/null || true'') 30) (\<lambda>_.
     andThen (whenever (\<not> keep_data)
        (andThen (ssm_run host_id (''rm -rf /data/firecracker-vms/'' @ tid) 30) (\<lambda>_. ok ()))) (\<lambda>_.
     free_slot host_id t))"

definition deleted_resp :: "string \<Rightarrow> resp" where
  "deleted_resp tid = mk_resp 200 (JObj [(''id'', JStr tid), (''status'', JStr ''deleted'')])"

definition delete_tenant :: "cfg \<Rightarrow> string \<Rightarrow> (string \<times> string) list \<Rightarrow> (world, resp) io" where
  "delete_tenant c tid query_params = andThen (get_tenant_row tid) (\<lambda>item. case item of
       None \<Rightarrow> ok tenant_not_found
     | Some t \<Rightarrow>
         if t_status t = Some ''deleted'' then ok (deleted_resp tid)
         else
           let keep_data = (ascii_lower (param query_params ''keep_data'' ''true'') = ''true'');
               host_id = opt_str (t_host_id t) in
           andThen (whenever (host_id \<noteq> []) (stop_and_forget tid host_id t)) (\<lambda>_.
           andThen (remove_alb_rule c tid) (\<lambda>_.
           andThen (whenever (host_id \<noteq> []) (clear_host c tid host_id t keep_data)) (\<lambda>_.
           andThen (mark_deleted tid) (\<lambda>_.
           andThen (publish_event c ''tenant.deleted'' tid (JObj [(''keep_data'', JBool keep_data)])) (\<lambda>_.
           ok (deleted_resp tid)))))))"

section \<open>Placing the tenants that wait\<close>

definition by_creation :: "tenant \<Rightarrow> string" where
  "by_creation t = (case t_created_at t of None \<Rightarrow> '''' | Some (At n) \<Rightarrow> iso_format n | Some (Garbled s) \<Rightarrow> s)"

definition assign_pending_row :: "cfg \<Rightarrow> host \<Rightarrow> int \<Rightarrow> int \<Rightarrow> tenant \<Rightarrow> tenant" where
  "assign_pending_row c h vm_num t r = r\<lparr>t_status := Some ''creating'', t_host_id := Some (h_instance_id h),
     t_vm_num := Some vm_num, t_guest_ip := Some (guest_ip_of c vm_num),
     t_host_port := Some (host_port_of c vm_num), t_rootfs_version := Some (opt_str (h_rootfs_version h)),
     t_creation_started_at := Some (At t), t_updated_at := Some (At t)\<rparr>"

text \<open>The unconditional booking: the counter is set from the row read earlier.\<close>

definition book_pending_row :: "int \<Rightarrow> int \<Rightarrow> int \<Rightarrow> host \<Rightarrow> exn + host" where
  "book_pending_row v m next_num h =
     bind_sum (plus_attr (h_used_vcpu h) v) (\<lambda>uv.
     bind_sum (plus_attr (h_used_mem_mb h) m) (\<lambda>um.
     bind_sum (plus_attr (h_vm_count h) 1) (\<lambda>n.
     Inr (h\<lparr>h_used_vcpu := Some uv, h_used_mem_mb := Some um, h_vm_count := Some n,
            h_next_vm_num := Some next_num\<rparr>))))"

definition assign_pending :: "cfg \<Rightarrow> tenant \<Rightarrow> int \<Rightarrow> int \<Rightarrow> host \<Rightarrow> (world, unit) io" where
  "assign_pending c t v m h =
     (let vm_num = int_attr_or (h_next_vm_num h) 1; hid = h_instance_id h in
      andThen now (\<lambda>n.
      andThen (update_tenant (t_id t) no_cond (set_attrs (assign_pending_row c h vm_num n))) (\<lambda>_.
      andThen (update_host hid no_cond (book_pending_row v m (vm_num + 1))) (\<lambda>_.
      andThen (resolve_effective_skills c (Some t)) (\<lambda>skills.
      andThen (launch_vm c hid (t_id t) vm_num v m (guest_ip_of c vm_num) (host_port_of c vm_num)
         (opt_str (t_config_template t)) (opt_str (t_restore_backup_key t)) skills) (\<lambda>_.
      andThen (lift_sum (required ''private_ip'' (h_private_ip h))) (\<lambda>ip.
      andThen (ensure_host_tg c hid ip False) (\<lambda>tg.
      add_alb_rule c (t_id t) tg False))))))))"

fun place_pending :: "cfg \<Rightarrow> tenant list \<Rightarrow> nat \<Rightarrow> (world, nat) io" where
  "place_pending c [] assigned = ok assigned"
| "place_pending c (t # ts) assigned =
     andThen (lift_sum (required ''vcpu'' (t_vcpu t))) (\<lambda>v.
     andThen (lift_sum (required ''mem_mb'' (t_mem_mb t))) (\<lambda>m.
     andThen (find_host c v m) (\<lambda>h. case h of
       None \<Rightarrow> ok assigned
     | Some h \<Rightarrow> andThen (assign_pending c t v m h) (\<lambda>_. place_pending c ts (Suc assigned)))))"

definition process_pending :: "cfg \<Rightarrow> (world, resp) io" where
  "process_pending c = andThen (scan_all w_tenants (\<lambda>t. t_status t = Some ''pending'')) (\<lambda>pending.
     if pending = [] then ok (mk_resp 200 (JStr ''no pending tenants''))
     else andThen (place_pending c (sort_key by_creation pending) 0) (\<lambda>assigned.
       ok (mk_resp 200 (JStr (''assigned '' @ show_nat assigned @ ''/'' @ show_nat (length pending) @
         '' pending tenants'')))))"

section \<open>Frames\<close>

context aws_frame
begin

lemma keeps_skills [keeps_rules]:
  "keeps R (group_skills c g)" "keeps R (resolve_effective_skills c t)"
  unfolding resolve_effective_skills_def group_skills_def Let_def by (intro keeps_rules)+

lemma keeps_placement_reads [keeps_rules]:
  "keeps R (find_host c v m)" "keeps R (rank_candidate_hosts c v m)"
  "keeps R (get_specific_host_with_capacity c i v m)" "keeps R (resolve_backup c s ts)"
  unfolding find_host_def rank_candidate_hosts_def get_specific_host_with_capacity_def resolve_backup_def Let_def
  by (intro keeps_rules)+

lemma keeps_create_request [keeps_rules]: "keeps R (create_request c b)"
  unfolding create_request_def create_basic_def create_scope_def create_sources_def find_clone_source_def
    find_restore_key_def Let_def
  by (intro keeps_rules)

end

context route_adding
begin

lemma keeps_shuffle_from [keeps_rules]: "keeps R (shuffle_from i xs)"
  by (induction i arbitrary: xs) (auto intro!: keeps_ok keeps_andThen keeps_rand_below)

lemma keeps_choose_hosts [keeps_rules]: "keeps R (choose_hosts c b rq)"
  unfolding choose_hosts_def pick_hosts_for_create_def shuffle_def Let_def by (intro keeps_rules)

end

text \<open>What a tenant's life leaves traces in.\<close>

definition fleet :: "world \<Rightarrow> (string \<times> tenant) list \<times> (string \<times> host) list \<times> ssm_command list
   \<times> alb_rule list \<times> asg \<times> (string \<times> group) list" where
  "fleet w = (w_tenants w, w_hosts w, w_ssm w, w_rules w, w_asg w, w_groups w)"

interpretation fleet_same: log_blind "unchanged fleet"
  by unfold_locales (simp_all add: unchanged_def fleet_def)

text \<open>The choice of a host draws random numbers and changes nothing else of the fleet.\<close>

lemma fleet_rand_below: "keeps (unchanged fleet) (rand_below n)"
  by (simp add: keeps_def rand_below_def unchanged_def fleet_def split: list.split)

lemma fleet_shuffle_from: "keeps (unchanged fleet) (shuffle_from i xs)"
  by (induction i arbitrary: xs) (auto intro!: keeps_rules fleet_rand_below)

lemma fleet_choose_hosts: "keeps (unchanged fleet) (choose_hosts c b rq)"
  unfolding choose_hosts_def pick_hosts_for_create_def shuffle_def Let_def
  by (intro keeps_rules fleet_shuffle_from)

section \<open>How an early answer came about\<close>

lemma early_Inr:
  "early m f w = (Inr y, u) \<longleftrightarrow>
   (\<exists>a. m w = (Inr (Inl a), u) \<and> y = Inl a) \<or> (\<exists>x t. m w = (Inr (Inr x), t) \<and> f x t = (Inr y, u))"
  by (auto simp: early_def andThen_Inr split: sum.splits) (metis sum.exhaust)

lemma early_part_Inr [simp]:
  "answer r w = (Inr y, u) \<longleftrightarrow> y = Inl r \<and> u = w"
  "proceed x w = (Inr z, u) \<longleftrightarrow> z = Inr x \<and> u = w"
  "check_that b r w = (Inr q, u) \<longleftrightarrow> u = w \<and> q = (if b then Inr () else Inl r)"
  by (auto simp: answer_def proceed_def check_that_def)

lemma val_Inr: "val m w = (Inr y, u) \<longleftrightarrow> (\<exists>x. m w = (Inr x, u) \<and> y = Inr x)"
  by (auto simp: val_def andThen_Inr)

lemma pure_val_Inr: "pure_val r w = (Inr y, u) \<longleftrightarrow> u = w \<and> (\<exists>x. r = Inr x \<and> y = Inr x)"
  by (auto simp: pure_val_def val_Inr lift_sum_def)

lemmas early_inv = early_Inr val_Inr pure_val_Inr case_option_io case_prod_io if_io

lemma finish_Inr:
  "finish m w = (Inr r, u) \<longleftrightarrow> (\<exists>y. m w = (Inr y, u) \<and> r = (case y of Inl a \<Rightarrow> a | Inr a \<Rightarrow> a))"
  by (auto simp: finish_def andThen_Inr)

definition the_resp :: "resp + resp \<Rightarrow> resp" where
  "the_resp y = (case y of Inl a \<Rightarrow> a | Inr a \<Rightarrow> a)"

lemma early_apply [io_simps]:
  "early m f w = (case fst (m w) of Inl e \<Rightarrow> (Inl e, snd (m w))
     | Inr r \<Rightarrow> (case r of Inl a \<Rightarrow> (Inr (Inl a), snd (m w)) | Inr x \<Rightarrow> f x (snd (m w))))"
  by (simp add: early_def andThen_apply answer_def ok_apply split: sum.split)

lemma val_apply [io_simps]:
  "val m w = (case fst (m w) of Inl e \<Rightarrow> (Inl e, snd (m w)) | Inr x \<Rightarrow> (Inr (Inr x), snd (m w)))"
  by (simp add: val_def andThen_apply proceed_def ok_apply split: sum.split)

lemma early_part_apply [io_simps]:
  "pure_val r w = (case r of Inl e \<Rightarrow> (Inl e, w) | Inr x \<Rightarrow> (Inr (Inr x), w))"
  "check_that b a w = (Inr (if b then Inr () else Inl a), w)"
  "proceed x w = (Inr (Inr x), w)" "answer a w = (Inr (Inl a), w)"
  by (simp_all add: pure_val_def val_apply check_that_def proceed_def answer_def ok_apply lift_sum_apply
      split: sum.split)

lemma finish_apply [io_simps]:
  "finish m w = (case fst (m w) of Inl e \<Rightarrow> (Inl e, snd (m w)) | Inr y \<Rightarrow> (Inr (the_resp y), snd (m w)))"
  by (simp add: finish_def andThen_apply ok_apply the_resp_def split: sum.split)

lemma early_cases:
  assumes "early m f w = (r, w')"
  obtains (raised) e where "m w = (Inl e, w')" "r = Inl e"
  | (answered) a where "m w = (Inr (Inl a), w')" "r = Inr (Inl a)"
  | (passed) x t where "m w = (Inr (Inr x), t)" "f x t = (r, w')"
proof (cases "fst (m w)")
  case (Inl e)
  with assms show ?thesis by (intro raised [of e]) (auto simp: early_apply prod_eq_iff)
next
  case (Inr q)
  with assms show ?thesis
    by (cases q) (auto simp: early_apply prod_eq_iff intro: answered passed)
qed

lemma finish_cases:
  assumes "finish m w = (r, w')"
  obtains (raised) e where "m w = (Inl e, w')" "r = Inl e"
  | (answered) y where "m w = (Inr y, w')" "r = Inr (the_resp y)"
  using assms by (cases "fst (m w)") (auto simp: finish_apply prod_eq_iff)

text \<open>The status codes with which a step can stop, and with which a handler can end.\<close>

definition stops_in :: "int set \<Rightarrow> (world, resp + 'a) io \<Rightarrow> bool" where
  "stops_in S m = (\<forall>w a w'. m w = (Inr (Inl a), w') \<longrightarrow> statusCode a \<in> S)"

definition ends_in :: "int set \<Rightarrow> (world, resp + resp) io \<Rightarrow> bool" where
  "ends_in S m = (\<forall>w y w'. m w = (Inr y, w') \<longrightarrow> statusCode (the_resp y) \<in> S)"

lemma stops_early: "stops_in S m \<Longrightarrow> (\<And>x. stops_in S (f x)) \<Longrightarrow> stops_in S (early m f)"
  unfolding stops_in_def early_Inr by blast

lemma stops_parts:
  "stops_in S (val n)" "stops_in S (pure_val s)" "stops_in S (proceed z)"
  "statusCode r \<in> S \<Longrightarrow> stops_in S (answer r)"
  "statusCode r \<in> S \<Longrightarrow> stops_in S (check_that b r)"
  by (auto simp: stops_in_def early_inv split: if_splits)

lemma ends_early:
  assumes "stops_in S m" "\<And>x. ends_in S (f x)"
  shows "ends_in S (early m f)"
  unfolding ends_in_def early_Inr
proof (intro allI impI)
  fix w y w'
  assume "(\<exists>a. m w = (Inr (Inl a), w') \<and> y = Inl a) \<or> (\<exists>x t. m w = (Inr (Inr x), t) \<and> f x t = (Inr y, w'))"
  with assms show "statusCode (the_resp y) \<in> S"
  proof (elim disjE exE conjE)
    fix x t
    assume "f x t = (Inr y, w')"
    with assms(2) show ?thesis unfolding ends_in_def by blast
  qed (auto simp: stops_in_def the_resp_def)
qed

lemma ends_if:
  "(b \<Longrightarrow> ends_in S m) \<Longrightarrow> (\<not> b \<Longrightarrow> ends_in S n) \<Longrightarrow> ends_in S (if b then m else n)"
  by simp

lemma ends_option:
  "ends_in S m \<Longrightarrow> (\<And>x. ends_in S (f x)) \<Longrightarrow> ends_in S (case v of None \<Rightarrow> m | Some x \<Rightarrow> f x)"
  by (cases v) simp_all

lemma ends_prod: "(\<And>x y. ends_in S (g x y)) \<Longrightarrow> ends_in S (case p of (x, y) \<Rightarrow> g x y)"
  by (cases p) simp

lemmas ends_branches = ends_if ends_option ends_prod

lemma ends_parts:
  "(\<And>w r w'. n w = (Inr r, w') \<Longrightarrow> statusCode r \<in> S) \<Longrightarrow> ends_in S (val n)"
  "statusCode r \<in> S \<Longrightarrow> ends_in S (proceed r)" "statusCode r \<in> S \<Longrightarrow> ends_in S (answer r)"
  by (auto simp: ends_in_def the_resp_def early_inv)

lemmas stops_rules = stops_early stops_parts
lemmas ends_rules = ends_early ends_parts

lemma queue_pending_status: "queue_pending c rq tid t msg w = (Inr r, w') \<Longrightarrow> statusCode r = 201"
  by (auto simp: queue_pending_def andThen_Inr)

lemma clone_disks_stops: "stops_in {201, 502} (clone_disks rq tid h n)"
  unfolding clone_disks_def by (cases "cr_clone_src rq") (auto intro!: stops_rules)

lemma launch_created_ends: "ends_in {201, 502} (launch_created c rq tid t h n)"
  unfolding launch_created_def Let_def by (intro ends_rules stops_rules clone_disks_stops) simp

lemma queue_pending_ends: "ends_in {201, 502} (val (queue_pending c rq tid t msg))"
  by (rule ends_parts) (simp add: queue_pending_status)

lemma create_placed_ends: "ends_in {201, 502} (create_placed c b rq tid t hosts)"
  unfolding create_placed_def Let_def
  by (intro ends_branches ends_early stops_parts queue_pending_ends launch_created_ends)

text \<open>A refusal was decided before the first write.\<close>

lemma create_checked_refusal:
  assumes "create_checked c b rq w = (Inr y, w')" "statusCode (the_resp y) \<notin> {201, 502}"
  shows "fleet w' = fleet w"
proof -
  have "early (choose_hosts c b rq) (create_placed c b rq (gen_id c (cr_name rq) (w_now w)) (w_now w)) w = (Inr y, w')"
    using assms(1) unfolding create_checked_def Let_def early_Inr [of "val now"] val_Inr
    by (simp add: now_def)
  then consider a where "choose_hosts c b rq w = (Inr (Inl a), w')"
    | hs w2 where "create_placed c b rq (gen_id c (cr_name rq) (w_now w)) (w_now w) hs w2 = (Inr y, w')"
    unfolding early_Inr by blast
  then show ?thesis
  proof cases
    case 1
    from keepsD [OF fleet_choose_hosts 1] show ?thesis by (simp add: unchanged_def)
  next
    case 2
    then show ?thesis using assms(2) create_placed_ends unfolding ends_in_def by blast
  qed
qed

lemma fleet_create_request: "keeps (unchanged fleet) (create_request c b)"
  by (rule keeps_rules)

lemma create_request_fleet: "create_request c b w = (r, w') \<Longrightarrow> fleet w' = fleet w"
  using keepsD [OF fleet_create_request] by (simp add: unchanged_def)

subsection \<open>Names in a create request\<close>

lemma last_strip: "strip s \<noteq> [] \<Longrightarrow> \<not> is_space (last (strip s))"
  using hd_dropWhile [of is_space "rev (lstrip s)"]
  by (simp add: strip_def rstrip_def last_rev)

lemma newline_is_space: "is_space newline"
  by (simp add: is_space_def newline_def char_code_def)

lemma stripped_label: "re_label k (strip s) \<Longrightarrow> ch \<in> set (strip s) \<Longrightarrow> label_mid ch"
  using last_strip [of s] newline_is_space by (auto simp: re_label_def is_label_iff)

lemma template_field_words:
  "template_field b = Inr (Some tpl) \<Longrightarrow> \<exists>l n. tpl = l @ n \<and> opt_newline n \<and> (\<forall>ch \<in> set l. label_mid ch)"
  by (auto simp: template_field_def bind_sum_Inr skill_name_re_def re_label_split is_label_iff opt_newline_def
      split: if_splits json.splits)

lemma create_basic_words:
  assumes "create_basic c b w = (Inr (Inr rq), w')"
  shows "cr_group rq = [] \<and> cr_skills rq = None \<and>
   (\<exists>l n. cr_template rq = l @ n \<and> opt_newline n \<and> (\<forall>ch \<in> set l. label_mid ch))"
proof -
  have "template_field b = Inr (Some (cr_template rq)) \<and> cr_group rq = [] \<and> cr_skills rq = None"
    using assms unfolding create_basic_def early_inv
    by (elim disjE exE conjE) simp_all
  with template_field_words show ?thesis by blast
qed

lemma create_scope_words:
  assumes "create_scope c b rq w = (Inr (Inr rq'), w')"
  shows "cr_template rq' = cr_template rq \<and> (\<forall>ch \<in> set (cr_group rq'). label_mid ch) \<and>
    (\<forall>s \<in> set (opt_list (cr_skills rq')). \<forall>ch \<in> set s. label_mid ch)"
proof -
  obtain v grp where v: "v = JNull \<or> filter (\<lambda>s. \<not> skill_name_re s) (clean_skills v) = []"
    and g: "stripped_field b ''group'' = Inr grp" "grp = [] \<or> name_re grp"
    and rq': "rq' = rq\<lparr>cr_skills := (if v = JNull then None else Some (clean_skills v)), cr_group := grp\<rparr>"
    using assms unfolding create_scope_def Let_def early_inv
    by (elim disjE exE conjE) (simp_all split: if_splits)
  have grp: "grp = [] \<or> (\<exists>s. grp = strip s)"
    using g(1) by (auto simp: stripped_field_def bind_sum_Inr split: if_splits json.splits)
  have skills: "\<forall>ch \<in> set s. label_mid ch" if "s \<in> set (clean_skills v)" "v \<noteq> JNull" for s
  proof -
    from that(1) obtain u where "s = strip u" by (auto simp: clean_skills_def non_empty_def)
    moreover have "skill_name_re s" using v that by (auto simp: filter_empty_conv)
    ultimately show ?thesis using stripped_label unfolding skill_name_re_def by blast
  qed
  show ?thesis
    using rq' grp g(2) stripped_label skills unfolding name_re_def
    by (auto simp: opt_list_def)
qed

lemma create_sources_words:
  "create_sources c b rq w = (Inr (Inr rq'), w') \<Longrightarrow>
   cr_template rq' = cr_template rq \<and> cr_group rq' = cr_group rq \<and> cr_skills rq' = cr_skills rq"
  unfolding create_sources_def early_inv case_sum_io
  by (elim disjE exE conjE) simp_all

lemma create_request_words:
  assumes "create_request c b w = (Inr (Inr rq), w')"
  shows "(\<forall>ch \<in> set (cr_group rq). label_mid ch) \<and>
    (\<forall>s \<in> set (opt_list (cr_skills rq)). \<forall>ch \<in> set s. label_mid ch) \<and>
    (\<exists>l n. cr_template rq = l @ n \<and> opt_newline n \<and> (\<forall>ch \<in> set l. label_mid ch))"
proof -
  from assms obtain r1 w1 r2 w2 where "create_basic c b w = (Inr (Inr r1), w1)"
    "create_scope c b r1 w1 = (Inr (Inr r2), w2)" "create_sources c b r2 w2 = (Inr (Inr rq), w')"
    by (auto simp: create_request_def early_Inr)
  with create_basic_words create_scope_words create_sources_words show ?thesis by metis
qed

subsection \<open>The counter under pending placement\<close>

lemma assign_pending_counter:
  assumes "quiet w" "map_of (w_tenants w) (t_id t) = Some t" "map_of (w_hosts w) (h_instance_id stale) = Some cur"
    "book_pending_row v m (int_attr_or (h_next_vm_num stale) 1 + 1) cur = Inr cur'"
    "assign_pending c t v m stale w = (r, w')"
  shows "slot_counter stale w' = int_attr_or (h_next_vm_num stale) 1 + 1"
proof -
  let ?hid = "h_instance_id stale" and ?n = "int_attr_or (h_next_vm_num stale) 1"
  obtain w1 x1 where s1: "update_tenant (t_id t) no_cond (set_attrs (assign_pending_row c stale ?n (w_now w))) w = (Inr x1, w1)"
    "quiet w1" "w_hosts w1 = w_hosts w"
    using assms(1) by (auto simp: update_tenant_def tbl_update_def no_cond_def set_attrs_def quiet_def Let_def)
  obtain w2 x2 where s2: "update_host ?hid no_cond (book_pending_row v m (?n + 1)) w1 = (Inr x2, w2)"
    "w_hosts w2 = AList.update ?hid cur' (w_hosts w)"
    using assms(3,4) s1 by (auto simp: update_host_def tbl_update_def no_cond_def quiet_def Let_def)
  let ?rest = "andThen (resolve_effective_skills c (Some t)) (\<lambda>skills.
      andThen (launch_vm c ?hid (t_id t) ?n v m (guest_ip_of c ?n) (host_port_of c ?n)
         (opt_str (t_config_template t)) (opt_str (t_restore_backup_key t)) skills) (\<lambda>_.
      andThen (lift_sum (required ''private_ip'' (h_private_ip stale))) (\<lambda>ip.
      andThen (ensure_host_tg c ?hid ip False) (\<lambda>tg. add_alb_rule c (t_id t) tg False))))"
  have "keeps (unchanged w_hosts) ?rest" unfolding launch_vm_def by (intro keeps_rules)
  moreover have "?rest w2 = (r, w')"
    using assms(5) s1(1) s2(1) by (simp add: assign_pending_def Let_def andThen_apply now_def)
  ultimately have "w_hosts w' = w_hosts w2" using keepsD [of "unchanged w_hosts" ?rest w2 r w'] by (simp add: unchanged_def)
  moreover have "h_next_vm_num cur' = Some (?n + 1)"
    using assms(4) by (auto simp: book_pending_row_def bind_sum_Inr)
  ultimately show ?thesis using s2(2) by (simp add: slot_counter_def update_conv')
qed

section \<open>Calm operations\<close>

lemma calm_ssm_run: "calm (ssm_run i cmd t)"
  unfolding ssm_run_def by (rule calm_andThen [OF calm_run]) (auto intro: calm_parts split: prod.split)

lemma calm_remove_alb_rule: "calm (remove_alb_rule c tid)"
  unfolding calm_def
proof (intro allI impI)
  fix w
  assume q: "quiet w"
  have "\<exists>x. fst (remove_alb_rule c tid w) = Inr x"
    using q find_Some_iff [of "owned_by tid" "w_rules w"]
    by (auto simp: remove_alb_rule_def describe_rules_def delete_rule_def quiet_def io_simps
        split: option.split)
  then show "\<exists>x w1. remove_alb_rule c tid w = (Inr x, w1) \<and> quiet w1 \<and> w_tenants w1 = w_tenants w \<and> w_hosts w1 = w_hosts w"
    using q keeps_inv_relD [OF staying_quiet.keeps_remove_alb_rule, of w c tid]
      keeps_unchangedD [OF tenants_same.keeps_remove_alb_rule, of c tid w]
      keeps_unchangedD [OF hosts_same.keeps_remove_alb_rule, of c tid w]
    by (metis prod.collapse)
qed

lemma calm_stop_and_forget: "calm (stop_and_forget tid hid t)"
  unfolding stop_and_forget_def by (intro calm_andThen calm_ssm_run calm_parts)

text \<open>The row of the host after the last of its slots is freed says since when it is idle.\<close>

definition freed_row :: "host \<Rightarrow> int \<Rightarrow> host" where
  "freed_row h n = (if int_attr (h_vm_count h) = 0 then h\<lparr>h_idle_since := Some (At n)\<rparr> else h)"

lemma free_slot_quiet:
  assumes "quiet w" "t_vcpu t = Some v" "t_mem_mb t = Some m" "map_of (w_hosts w) hid = Some h"
    "release_row v m h = Inr h'"
  shows "\<exists>w1. free_slot hid t w = (Inr (), w1) \<and> quiet w1 \<and> w_tenants w1 = w_tenants w \<and>
    map_of (w_hosts w1) = (map_of (w_hosts w))(hid \<mapsto> freed_row h' (w_now w))"
  using assms
  by (auto simp: free_slot_def required_def io_simps update_host_def tbl_update_def no_cond_def quiet_def
      whenever_def freed_row_def now_def set_attrs_def update_conv' fun_eq_iff)

lemma clear_host_quiet:
  assumes "quiet w" "t_vcpu t = Some v" "t_mem_mb t = Some m" "map_of (w_hosts w) hid = Some h"
    "release_row v m h = Inr h'"
  shows "\<exists>w1 n. clear_host c tid hid t keep w = (Inr (), w1) \<and> quiet w1 \<and> w_tenants w1 = w_tenants w \<and>
    map_of (w_hosts w1) = (map_of (w_hosts w))(hid \<mapsto> freed_row h' n)"
proof -
  let ?m1 = "ssm_run hid (''sudo iptables -t nat -D '' @
        dnat_spec c (show_int (int_attr_or (t_host_port t) 0)) (opt_str (t_guest_ip t)) @ '' 2>/dev/null || true'') 30"
  let ?m2 = "whenever (\<not> keep) (andThen (ssm_run hid (''rm -rf /data/firecracker-vms/'' @ tid) 30) (\<lambda>_. ok ()))"
  obtain x1 w1 where s1: "?m1 w = (Inr x1, w1)" "quiet w1" "w_tenants w1 = w_tenants w" "w_hosts w1 = w_hosts w"
    using calmD [OF calm_ssm_run assms(1)] by blast
  have "calm ?m2" by (intro calm_parts calm_andThen calm_ssm_run)
  then obtain x2 w2 where s2: "?m2 w1 = (Inr x2, w2)" "quiet w2" "w_tenants w2 = w_tenants w1" "w_hosts w2 = w_hosts w1"
    using calmD s1(2) by blast
  have h: "map_of (w_hosts w2) hid = Some h" using assms(4) s1 s2 by simp
  from free_slot_quiet [OF s2(2) assms(2,3) h assms(5)] show ?thesis
    using s1 s2 unfolding clear_host_def andThen_apply by auto
qed

lemma mark_deleted_quiet:
  "quiet w \<Longrightarrow> map_of (w_tenants w) tid = Some t \<Longrightarrow>
   \<exists>w1. mark_deleted tid w = (Inr (), w1) \<and> quiet w1 \<and> w_hosts w1 = w_hosts w \<and>
     map_of (w_tenants w1) = (map_of (w_tenants w))(tid \<mapsto>
       t\<lparr>t_status := Some ''deleted'', t_updated_at := Some (At (w_now w))\<rparr>)"
  by (auto simp: mark_deleted_def io_simps now_def update_tenant_def tbl_update_def no_cond_def quiet_def
      set_attrs_def update_conv' fun_eq_iff)

lemma delete_placed:
  assumes "quiet w" "map_of (w_tenants w) tid = Some t" "t_status t \<noteq> Some ''deleted''"
    "t_host_id t = Some hid" "hid \<noteq> []" "t_vcpu t = Some v" "t_mem_mb t = Some m"
    "map_of (w_hosts w) hid = Some h" "release_row v m h = Inr h'"
  shows "\<exists>w1 n k. delete_tenant c tid qp w = (Inr (deleted_resp tid), w1) \<and> quiet w1 \<and>
    map_of (w_hosts w1) = (map_of (w_hosts w))(hid \<mapsto> freed_row h' n) \<and>
    map_of (w_tenants w1) = (map_of (w_tenants w))(tid \<mapsto>
      t\<lparr>t_status := Some ''deleted'', t_updated_at := Some (At k)\<rparr>)"
proof -
  have g: "get_tenant_row tid w = (Inr (Some t), w)"
    using assms(1,2) by (simp add: get_tenant_row_def quiet_def gets_def)
  obtain x1 w1 where s1: "stop_and_forget tid hid t w = (Inr x1, w1)" "quiet w1"
      "w_tenants w1 = w_tenants w" "w_hosts w1 = w_hosts w"
    using calmD [OF calm_stop_and_forget assms(1)] by blast
  obtain x2 w2 where s2: "remove_alb_rule c tid w1 = (Inr x2, w2)" "quiet w2"
      "w_tenants w2 = w_tenants w1" "w_hosts w2 = w_hosts w1"
    using calmD [OF calm_remove_alb_rule s1(2)] by blast
  let ?keep = "ascii_lower (param qp ''keep_data'' ''true'') = ''true''"
  have h: "map_of (w_hosts w2) hid = Some h" using assms(8) s1 s2 by simp
  obtain w3 n where s3: "clear_host c tid hid t ?keep w2 = (Inr (), w3)" "quiet w3" "w_tenants w3 = w_tenants w2"
      "map_of (w_hosts w3) = (map_of (w_hosts w2))(hid \<mapsto> freed_row h' n)"
    using clear_host_quiet [OF s2(2) assms(6,7) h assms(9)] by blast
  have t3: "map_of (w_tenants w3) tid = Some t" using assms(2) s1 s2 s3 by simp
  obtain w4 where s4: "mark_deleted tid w3 = (Inr (), w4)" "quiet w4" "w_hosts w4 = w_hosts w3"
      "map_of (w_tenants w4) = (map_of (w_tenants w3))(tid \<mapsto>
        t\<lparr>t_status := Some ''deleted'', t_updated_at := Some (At (w_now w3))\<rparr>)"
    using mark_deleted_quiet [OF s3(2) t3] by blast
  obtain x5 w5 where s5: "publish_event c ''tenant.deleted'' tid (JObj [(''keep_data'', JBool ?keep)]) w4 = (Inr x5, w5)"
      "quiet w5" "w_tenants w5 = w_tenants w4" "w_hosts w5 = w_hosts w4"
    using calmD [OF calm_publish_event s4(2)] by blast
  have "delete_tenant c tid qp w = (Inr (deleted_resp tid), w5)"
    using g s1(1) s2(1) s3(1) s4(1) s5(1) assms(3,4,5)
    by (simp add: delete_tenant_def andThen_apply Let_def opt_str_def ok_apply)
  then show ?thesis
    using s1 s2 s3 s4 s5 by auto
qed

lemma delete_deleted:
  "quiet w \<Longrightarrow> map_of (w_tenants w) tid = Some t \<Longrightarrow> t_status t = Some ''deleted'' \<Longrightarrow>
   delete_tenant c tid qp w = (Inr (deleted_resp tid), w)"
  by (simp add: delete_tenant_def get_tenant_row_def quiet_def io_simps)

section \<open>Properties\<close>

text \<open>
  A create that is refused leaves no trace: unless it is answered 201 (created or queued) or
  502 (the disks of a clone source could not be copied), no row, no booking, no command on a host
  and no routing rule has changed, whatever calls failed on the way.
\<close>

theorem create_refused_changes_nothing:
  assumes "create_tenant c bd w = (Inr r, w')" "statusCode r \<notin> {201, 502}"
  shows "fleet w' = fleet w"
proof (cases "bd = NoBody")
  case True
  with assms show ?thesis by (simp add: create_tenant_def)
next
  case False
  then obtain b y where run: "early (create_request c b) (create_checked c b) w = (Inr y, w')"
    and r: "r = the_resp y"
    using assms(1) by (auto simp: create_tenant_def andThen_Inr lift_sum_Inr finish_Inr the_resp_def)
  from run consider a where "create_request c b w = (Inr (Inl a), w')"
    | rq t where "create_request c b w = (Inr (Inr rq), t)" "create_checked c b rq t = (Inr y, w')"
    by (auto simp: early_Inr)
  then show ?thesis
  proof cases
    case 1
    then show ?thesis by (rule create_request_fleet)
  next
    case 2
    with create_request_fleet create_checked_refusal assms(2) r show ?thesis by metis
  qed
qed

theorem create_refused_changes_nothing_witness:
  "fleet (snd (create_tenant cfg0 (Json (JObj [(''name'', JStr ''a''), (''config_template'', JStr ''x;y'')])) world0)) =
   fleet world0"
proof -
  let ?b = "Json (JObj [(''name'', JStr ''a''), (''config_template'', JStr ''x;y'')])"
  let ?r = "err_resp 400 ''config_template must match ^[a-z0-9]([a-z0-9-]{0,62}[a-z0-9])?$''"
  have "create_tenant cfg0 ?b world0 = (Inr ?r, snd (create_tenant cfg0 ?b world0))" by code_simp
  from create_refused_changes_nothing [OF this] show ?thesis by simp
qed


definition placed_tenant :: tenant where
  "placed_tenant = (fresh_tenant ''a-1'')\<lparr>t_status := Some ''running'', t_host_id := Some ''i-1'',
     t_vm_num := Some 1, t_vcpu := Some 2, t_mem_mb := Some 4096\<rparr>"

definition full_host :: host where
  "full_host = host4\<lparr>h_used_vcpu := Some 2, h_used_mem_mb := Some 4096, h_vm_count := Some 1,
     h_next_vm_num := Some 2\<rparr>"

definition one_vm_world :: world where
  "one_vm_world = world0\<lparr>w_tenants := [(''a-1'', placed_tenant)], w_hosts := [(''i-1'', full_host)]\<rparr>"


text \<open>
  Nothing a create puts on a host's root command line carries a shell metacharacter: an
  accepted request's group and skill names consist of lowercase letters, digits and hyphens, and
  its template name too, except that the template may end in one newline.
\<close>

theorem create_arguments_are_words:
  assumes "create_request c b w = (Inr (Inr rq), w')"
  shows "(\<forall>ch \<in> set (cr_group rq). label_mid ch) \<and>
    (\<forall>s \<in> set (opt_list (cr_skills rq)). \<forall>ch \<in> set s. label_mid ch) \<and>
    (\<exists>l n. cr_template rq = l @ n \<and> opt_newline n \<and> (\<forall>ch \<in> set l. label_mid ch))"
  using create_request_words [OF assms] .

theorem create_arguments_are_words_witness:
  "\<exists>l n. ''x'' @ [newline] = l @ n \<and> opt_newline n \<and> (\<forall>ch \<in> set l. label_mid ch)"
proof -
  let ?b = "JObj [(''name'', JStr ''a''), (''config_template'', JStr (''x'' @ [newline]))]"
  let ?rq = "\<lparr>cr_name = ''a'', cr_vcpu = 2, cr_mem = 4096, cr_template = ''x'' @ [newline],
     cr_skills = None, cr_group = '''', cr_clone_from = '''', cr_clone_src = None, cr_tags = [],
     cr_ttl = None, cr_schedule = None, cr_restore_key = ''''\<rparr>"
  have "create_request cfg0 ?b world0 = (Inr (Inr ?rq), snd (create_request cfg0 ?b world0))" by code_simp
  from create_arguments_are_words [OF this] show ?thesis by simp
qed

text \<open>
  Placing a waiting tenant sets the host's VM counter from the host row read before, not from
  the row it books on: afterwards the counter is that stale number plus one, even when other
  creates have moved it further, so numbers already granted are granted again.
\<close>

theorem assign_pending_rewinds_counter:
  assumes "quiet w" "map_of (w_tenants w) (t_id t) = Some t" "map_of (w_hosts w) (h_instance_id stale) = Some cur"
    "book_pending_row v m (int_attr_or (h_next_vm_num stale) 1 + 1) cur = Inr cur'"
    "assign_pending c t v m stale w = (r, w')"
  shows "slot_counter stale w' = int_attr_or (h_next_vm_num stale) 1 + 1"
  using assign_pending_counter [OF assms] .

definition stale_host :: host where
  "stale_host = host4\<lparr>h_next_vm_num := Some 5\<rparr>"

definition waiting_tenant :: tenant where
  "waiting_tenant = (fresh_tenant ''b-2'')\<lparr>t_status := Some ''pending'', t_vcpu := Some 2, t_mem_mb := Some 1024\<rparr>"

definition raced_world :: world where
  "raced_world = world0\<lparr>w_tenants := [(''b-2'', waiting_tenant)],
     w_hosts := [(''i-1'', host4\<lparr>h_next_vm_num := Some 7\<rparr>)]\<rparr>"

theorem assign_pending_rewinds_counter_witness:
  "slot_counter stale_host raced_world = 7 \<and>
   slot_counter stale_host (snd (assign_pending cfg0 waiting_tenant 2 1024 stale_host raced_world)) = 6"
proof -
  let ?cur = "host4\<lparr>h_next_vm_num := Some 7\<rparr>"
  let ?cur' = "host4\<lparr>h_used_vcpu := Some 2, h_used_mem_mb := Some 1024, h_vm_count := Some 1, h_next_vm_num := Some 6\<rparr>"
  have h: "quiet raced_world" "map_of (w_tenants raced_world) (t_id waiting_tenant) = Some waiting_tenant"
    "map_of (w_hosts raced_world) (h_instance_id stale_host) = Some ?cur"
    "book_pending_row 2 1024 (int_attr_or (h_next_vm_num stale_host) 1 + 1) ?cur = Inr ?cur'"
    by code_simp+
  have "assign_pending cfg0 waiting_tenant 2 1024 stale_host raced_world =
    (fst (assign_pending cfg0 waiting_tenant 2 1024 stale_host raced_world),
     snd (assign_pending cfg0 waiting_tenant 2 1024 stale_host raced_world))" by simp
  note after = assign_pending_rewinds_counter [OF h this]
  have "slot_counter stale_host raced_world = 7" "int_attr_or (h_next_vm_num stale_host) 1 + 1 = 6" by code_simp+
  with after show ?thesis by simp
qed

end
