(* ===== verification/Actions.thy ===== *)
theory Actions
  imports Tenants
begin

text \<open>
  The operations on an existing tenant (api/handler.py): the lifecycle actions, the start and the
  cancellation of a migration, the growth of the disk and of the vCPU count, batches, backups, and
  the evacuation and teardown of hosts. A request body that is a Python dict, as the internal
  callers pass it, is a \<open>Json\<close> payload.
\<close>

section \<open>Helpers\<close>

definition dq :: "string \<Rightarrow> string" where
  "dq s = [CHR 0x22] @ s @ [CHR 0x22]"

text \<open>\<open>json.loads(body) if isinstance(body, str) else (body or {})\<close>, and \<open>{}\<close> when that raises.\<close>

definition lenient_body :: "payload \<Rightarrow> json" where
  "lenient_body p = (case p of Json j \<Rightarrow> j | _ \<Rightarrow> JObj [])"

definition invoke_lambda :: "string \<Rightarrow> json \<Rightarrow> (world, unit) io" where
  "invoke_lambda fn j = aws (modify (\<lambda>w. w\<lparr>w_invoked := w_invoked w @ [(fn, j)]\<rparr>))"

text \<open>\<open>_ssm_send\<close>; a missing or empty instance id is refused before anything is submitted.\<close>

definition ssm_send :: "string option \<Rightarrow> string \<Rightarrow> int \<Rightarrow> (world, string option) io" where
  "ssm_send inst cmd timeout = (case inst of None \<Rightarrow> ok None
     | Some i \<Rightarrow> if i = [] then ok None else send i cmd timeout)"

section \<open>Cancelling a migration\<close>

text \<open>The removal of everything a migration keeps on the row.\<close>

definition clear_migration :: "tenant \<Rightarrow> tenant" where
  "clear_migration r = r\<lparr>t_migration_target := None, t_migration_target_vm_num := None,
     t_migration_source := None, t_migration_snap_cmd := None, t_migration_restore_cmd := None,
     t_migration_phase := None, t_migration_mode := None, t_migration_started_at := None,
     t_migration_snapshot_uri := None\<rparr>"

definition cancelled_row :: "int \<Rightarrow> tenant \<Rightarrow> tenant" where
  "cancelled_row t r = clear_migration (r\<lparr>t_status := Some ''running'',
     t_migration_failed := Some ''cancelled by operator'', t_updated_at := Some (At t)\<rparr>)"

definition cancel_migration :: "cfg \<Rightarrow> string \<Rightarrow> tenant \<Rightarrow> (world, resp + resp) io" where
  "cancel_migration c tid item =
     early (check_that (t_status item = Some ''migrating'')
        (err_resp 409 (''tenant is '' @ json_str (opt_json JStr (t_status item)) @ '', not migrating''))) (\<lambda>_.
     early (val now) (\<lambda>t.
     early (val (update_tenant tid no_cond (set_attrs (cancelled_row t)))) (\<lambda>_.
     early (val (publish_event c ''migration.cancelled'' tid (JObj []))) (\<lambda>_.
     proceed (mk_resp 200 (JObj [(''id'', JStr tid), (''status'', JStr ''running''),
       (''message'', JStr ''migration cancelled; tenant remains on source host'')]))))))"

section \<open>Growing the disk\<close>

text \<open>\<open>isinstance(v, int)\<close>, which holds of booleans too; a boolean is printed by its name.\<close>

fun int_like :: "json \<Rightarrow> int option" where
  "int_like (JInt i) = Some i"
| "int_like (JBool b) = Some (if b then 1 else 0)"
| "int_like v = None"

definition resize_disk :: "cfg \<Rightarrow> string \<Rightarrow> tenant \<Rightarrow> payload \<Rightarrow> (world, resp + resp) io" where
  "resize_disk c tid item bd =
     early (pure_val (get_or (lenient_body bd) ''new_size_mb'' JNull)) (\<lambda>v.
     case int_like v of None \<Rightarrow> answer (err_resp 400 ''missing or invalid new_size_mb'') | Some new_size \<Rightarrow>
     let current = int_attr_or (t_data_disk_mb item) (vm_data_disk_mb c);
         vm_num = int_attr_or (t_vm_num item) 1; host_id = opt_str (t_host_id item) in
     early (check_that (new_size > current) (err_resp 400 (''new_size_mb must be larger (current '' @
        show_int current @ ''MB); shrink not supported''))) (\<lambda>_.
     early (check_that (new_size \<le> 1024 * 1024) (err_resp 400 ''new_size_mb exceeds 1 TiB ceiling'')) (\<lambda>_.
     early (check_that (host_id \<noteq> []) (err_resp 400 ''tenant has no host (still pending?)'')) (\<lambda>_.
     early (val (ssm_run host_id (''/home/ubuntu/resize-disk.sh '' @ tid @ '' '' @ show_int vm_num @ '' '' @
        json_str v) 120)) (\<lambda>okay.
     early (check_that okay (mk_resp 502 (JObj [(''error'', JStr ''resize-disk.sh failed on host; size unchanged''),
        (''id'', JStr tid), (''data_disk_mb'', JInt current)]))) (\<lambda>_.
     early (val now) (\<lambda>t.
     early (val (update_tenant tid no_cond (set_attrs (\<lambda>r.
        r\<lparr>t_data_disk_mb := Some new_size, t_updated_at := Some (At t)\<rparr>)))) (\<lambda>_.
     proceed (mk_resp 200 (JObj [(''id'', JStr tid), (''status'', JStr ''running''),
       (''old_size_mb'', JInt current), (''new_size_mb'', v)]))))))))))"

section \<open>Starting a migration\<close>

text \<open>None when the configuration rejects migrations.\<close>

definition migrate_mode :: "cfg \<Rightarrow> string option" where
  "migrate_mode c = (if \<not> balloon_enabled c then Some ''live''
     else if balloon_migrate_mode c = ''reject'' then None
     else Some (if balloon_migrate_mode c = ''cold'' then ''cold'' else ''live''))"

definition snapshot_uri :: "cfg \<Rightarrow> string \<Rightarrow> string" where
  "snapshot_uri c tid = ''s3://'' @ assets_bucket c @ ''/migrations/'' @ tid"

definition migrating_row :: "string \<Rightarrow> int \<Rightarrow> string option \<Rightarrow> string \<Rightarrow> string \<Rightarrow> string \<Rightarrow> int
   \<Rightarrow> tenant \<Rightarrow> tenant" where
  "migrating_row tgt tvn src scmd mode uri t r = r\<lparr>t_status := Some ''migrating'',
     t_migration_target := Some tgt, t_migration_target_vm_num := Some tvn, t_migration_source := src,
     t_migration_snap_cmd := Some scmd, t_migration_phase := Some ''snapshot'',
     t_migration_mode := Some mode, t_migration_started_at := Some (At t),
     t_migration_snapshot_uri := Some uri, t_updated_at := Some (At t), t_migration_failed := None\<rparr>"

definition no_room_text :: "cfg \<Rightarrow> host \<Rightarrow> int \<Rightarrow> int \<Rightarrow> string" where
  "no_room_text c h vcpu mem_mb = (case free_of c h of (fv, fm) \<Rightarrow>
     ''target host has insufficient capacity (free vcpu='' @ show_int fv @ '', free mem='' @ show_int fm @
     ''MB; need vcpu='' @ show_int vcpu @ '', mem='' @ show_int mem_mb @ ''MB; vm_count='' @
     show_int (int_attr (h_vm_count h)) @ '', max='' @
     (if max_vms_per_host c = 0 then ''none'' else show_int (max_vms_per_host c)) @ '')'')"

text \<open>The target host of a request, once every check has passed.\<close>

definition migrate_target :: "cfg \<Rightarrow> tenant \<Rightarrow> payload \<Rightarrow> (world, resp + host) io" where
  "migrate_target c item bd =
     early (pure_val (get_or (lenient_body bd) ''target_host_id'' JNull)) (\<lambda>v.
     early (check_that (truthy v) (err_resp 400 ''missing target_host_id'')) (\<lambda>_.
     early (check_that (v \<noteq> opt_json JStr (t_host_id item))
        (err_resp 400 ''target_host_id must be different from source'')) (\<lambda>_.
     early (pure_val (row_key v)) (\<lambda>tgt.
     early (val (get_host_row tgt)) (\<lambda>row. case row of
       None \<Rightarrow> answer (err_resp 404 (''target host '' @ tgt @ '' not found''))
     | Some h \<Rightarrow>
         let vcpu = int_attr (t_vcpu item); mem_mb = int_attr (t_mem_mb item) in
         early (check_that (h_status h \<noteq> Some ''draining'' \<and> h_status h \<noteq> Some ''deleted'')
            (err_resp 409 (''target host '' @ tgt @ '' is '' @ opt_str (h_status h)))) (\<lambda>_.
         early (check_that (fits c h vcpu mem_mb) (err_resp 409 (no_room_text c h vcpu mem_mb))) (\<lambda>_.
         proceed h)))))))"

definition snapshot_command :: "cfg \<Rightarrow> string \<Rightarrow> tenant \<Rightarrow> string \<Rightarrow> string" where
  "snapshot_command c tid item mode = ''/home/ubuntu/migrate-vm.sh '' @
     (if mode = ''cold'' then ''cold-dump'' else ''snapshot'') @ '' '' @ tid @ '' '' @
     show_int (int_attr_or (t_vm_num item) 1) @ '' '' @ snapshot_uri c tid"

definition migrate_tenant :: "cfg \<Rightarrow> string \<Rightarrow> tenant \<Rightarrow> payload \<Rightarrow> (world, resp + resp) io" where
  "migrate_tenant c tid item bd = (case migrate_mode c of
       None \<Rightarrow> answer (mk_resp 409 (JObj [(''error'', JStr ''Live migration is disabled while memory overcommit (balloon) is on (balloon.migrate_mode=reject). Set balloon.migrate_mode to 'cold' (restart-based, always safe) or 'live' (snapshot-based) to enable it.''),
          (''reason'', JStr ''balloon_enabled'')]))
     | Some mode \<Rightarrow>
         early (migrate_target c item bd) (\<lambda>h.
         early (val now) (\<lambda>t.
         let tgt = h_instance_id h; src = opt_json JStr (t_host_id item); uri = snapshot_uri c tid in
         early (val (ssm_send (t_host_id item) (snapshot_command c tid item mode) 600)) (\<lambda>scmd. case scmd of
           None \<Rightarrow> answer (mk_resp 502 (JObj [(''error'', JStr ''failed to start migration (SSM submit)''),
              (''id'', JStr tid), (''source_host_id'', src), (''target_host_id'', JStr tgt)]))
         | Some snap_cmd \<Rightarrow>
             early (val (update_tenant tid no_cond (set_attrs (migrating_row tgt
                (int_attr_or (h_next_vm_num h) 1) (t_host_id item) snap_cmd mode uri t)))) (\<lambda>_.
             proceed (mk_resp 202 (JObj [(''id'', JStr tid), (''status'', JStr ''migrating''),
               (''mode'', JStr mode), (''source_host_id'', src), (''target_host_id'', JStr tgt),
               (''snapshot_uri'', JStr uri), (''poll'', JStr (''/tenants/'' @ tid))])))))))"

section \<open>Lifecycle actions\<close>

definition dnat_part :: "cfg \<Rightarrow> string \<Rightarrow> string \<Rightarrow> tenant \<Rightarrow> string" where
  "dnat_part c flag sfx item = (case (t_guest_ip item, t_host_port item) of
       (Some ip, Some p) \<Rightarrow> if ip \<noteq> [] \<and> p \<noteq> 0
         then '' && sudo iptables -t nat '' @ flag @ '' '' @ dnat_spec c (show_int p) ip @ sfx else ''''
     | _ \<Rightarrow> '''')"

definition stop_text :: "string \<Rightarrow> tenant \<Rightarrow> string" where
  "stop_text tid item = ''/home/ubuntu/stop-vm.sh '' @ tid @ '' '' @ show_int (int_attr_or (t_vm_num item) 1)"

definition launch_text :: "string \<Rightarrow> tenant \<Rightarrow> exn + string" where
  "launch_text tid item =
     bind_sum (required ''vcpu'' (t_vcpu item)) (\<lambda>v.
     bind_sum (required ''mem_mb'' (t_mem_mb item)) (\<lambda>m.
     Inr (''/home/ubuntu/launch-vm.sh '' @ tid @ '' '' @ show_int (int_attr_or (t_vm_num item) 1) @ '' '' @
       show_int v @ '' '' @ show_int m)))"

definition vm_state_text :: "string \<Rightarrow> string \<Rightarrow> string" where
  "vm_state_text tid st = ''curl -s --unix-socket /data/firecracker-vms/'' @ tid @
     ''/fc.sock -X PATCH http://localhost/vm -H '' @ dq ''Content-Type: application/json'' @ '' -d '' @
     quoted (''{'' @ dq ''state'' @ '':'' @ dq st @ ''}'')"

text \<open>The command of an action, its time limit and the status it ends in; None for other actions.\<close>

definition action_command :: "cfg \<Rightarrow> string \<Rightarrow> tenant \<Rightarrow> string \<Rightarrow> (exn + string \<times> int \<times> string) option" where
  "action_command c tid item action = (
     if action = ''restart'' then Some (bind_sum (launch_text tid item) (\<lambda>launch.
       Inr (stop_text tid item @ '' && sleep 2 && '' @ launch @ dnat_part c ''-A'' '''' item, 300, ''running'')))
     else if action = ''stop'' then Some (Inr (stop_text tid item @
       dnat_part c ''-D'' '' 2>/dev/null || true'' item, 30, ''stopped''))
     else if action = ''start'' then Some (bind_sum (launch_text tid item) (\<lambda>launch.
       Inr (launch @ dnat_part c ''-A'' '''' item, 300, ''running'')))
     else if action = ''reset'' then Some (bind_sum (launch_text tid item) (\<lambda>launch.
       Inr (stop_text tid item @ '' && rm -f /data/firecracker-vms/'' @ tid @ ''/overlay.ext4 && sleep 2 && '' @
         launch @ dnat_part c ''-A'' '''' item, 300, ''running'')))
     else if action = ''pause'' then Some (Inr (vm_state_text tid ''Paused'', 30, ''paused''))
     else if action = ''resume'' then Some (Inr (vm_state_text tid ''Resumed'', 30, ''running''))
     else None)"

definition action_events :: "(string \<times> string) list" where
  "action_events = [(''stop'', ''tenant.stopped''), (''start'', ''tenant.started''),
     (''restart'', ''tenant.restarted''), (''pause'', ''tenant.paused''),
     (''resume'', ''tenant.resumed''), (''reset'', ''tenant.reset'')]"

definition reset_version :: "string \<Rightarrow> string \<Rightarrow> (world, string option) io" where
  "reset_version action host_id = (if action = ''reset''
     then andThen (get_host_row host_id) (\<lambda>h. ok (Some (case h of None \<Rightarrow> '''' | Some r \<Rightarrow> opt_str (h_rootfs_version r))))
     else ok None)"

definition set_status_row :: "string \<Rightarrow> int \<Rightarrow> string option \<Rightarrow> tenant \<Rightarrow> tenant" where
  "set_status_row st t rv r = r\<lparr>t_status := Some st, t_updated_at := Some (At t),
     t_rootfs_version := (case rv of None \<Rightarrow> t_rootfs_version r | Some v \<Rightarrow> Some v)\<rparr>"

definition lifecycle_action :: "cfg \<Rightarrow> string \<Rightarrow> tenant \<Rightarrow> string \<Rightarrow> exn + string \<times> int \<times> string
   \<Rightarrow> (world, resp + resp) io" where
  "lifecycle_action c tid item action command =
     early (pure_val command) (\<lambda>(cmd, timeout, new_status).
     early (pure_val (required ''host_id'' (t_host_id item))) (\<lambda>host_id.
     early (val (ssm_run host_id cmd timeout)) (\<lambda>_.
     early (val now) (\<lambda>t.
     early (val (reset_version action host_id)) (\<lambda>rv.
     early (val (update_tenant tid no_cond (set_attrs (set_status_row new_status t rv)))) (\<lambda>_.
     early (val (publish_event c (case map_of action_events action of Some e \<Rightarrow> e | None \<Rightarrow> ''tenant.'' @ new_status)
        tid (JObj [(''action'', JStr action), (''status'', JStr new_status)]))) (\<lambda>_.
     proceed (mk_resp 200 (JObj [(''id'', JStr tid), (''status'', JStr new_status)])))))))))"

section \<open>Growing the vCPU count\<close>

text \<open>\<open>int(v)\<close> under \<open>except (TypeError, ValueError)\<close>; another exception is not caught.\<close>

definition int_or_none :: "json \<Rightarrow> exn + int option" where
  "int_or_none v = (case py_int v of
       Inr n \<Rightarrow> Inr (Some n)
     | Inl (PyError TypeError m) \<Rightarrow> Inr None
     | Inl (PyError ValueError m) \<Rightarrow> Inr None
     | Inl e \<Rightarrow> Inl e)"

definition wanted_vcpu :: "payload \<Rightarrow> (world, resp + int) io" where
  "wanted_vcpu bd = (if bd = NoBody then answer missing_body
     else early (pure_val (load_body bd)) (\<lambda>b.
       early (pure_val (get_or b ''vcpu'' JNull)) (\<lambda>v.
       early (pure_val (get_or b ''mem_mb'' JNull)) (\<lambda>m.
       early (check_that (v \<noteq> JNull \<or> m \<noteq> JNull)
          (err_resp 400 ''specify vcpu (memory live-resize not supported)'')) (\<lambda>_.
       early (check_that (m = JNull) (err_resp 400
          ''memory live-resize is not supported; stop the tenant, recreate with new mem_mb, then start'')) (\<lambda>_.
       early (pure_val (int_or_none v)) (\<lambda>n. case n of
         None \<Rightarrow> answer (err_resp 400 ''vcpu must be an integer'')
       | Some new_vcpu \<Rightarrow> proceed new_vcpu)))))))"

text \<open>The tenant and its host, once the request may be carried out.\<close>

definition resize_checks :: "cfg \<Rightarrow> string \<Rightarrow> int \<Rightarrow> (world, resp + tenant \<times> host) io" where
  "resize_checks c tid new_vcpu =
     early (val (get_tenant_row tid)) (\<lambda>item. case item of None \<Rightarrow> answer tenant_not_found | Some t \<Rightarrow>
     let current_vcpu = int_attr (t_vcpu t); host_id = opt_str (t_host_id t) in
     early (check_that (t_status t = Some ''running'') (err_resp 400 (''tenant must be running (current: '' @
        json_str (opt_json JStr (t_status t)) @ '')''))) (\<lambda>_.
     early (check_that (new_vcpu > current_vcpu) (err_resp 400 (''vcpu must be greater than current ('' @
        show_int current_vcpu @ ''); Firecracker cannot shrink - restart to decrease''))) (\<lambda>_.
     case check_quota c new_vcpu (int_attr (t_mem_mb t)) (int_attr (t_data_disk_mb t)) of
       Some e \<Rightarrow> answer (err_resp 400 e)
     | None \<Rightarrow>
     early (check_that (host_id \<noteq> []) (err_resp 400 ''tenant has no host assigned'')) (\<lambda>_.
     early (val (get_host_row host_id)) (\<lambda>row. case row of
       None \<Rightarrow> answer (err_resp 400 (''host '' @ host_id @ '' not found''))
     | Some h \<Rightarrow>
     early (pure_val (required ''total_vcpu'' (h_total_vcpu h))) (\<lambda>total.
     early (pure_val (required ''used_vcpu'' (h_used_vcpu h))) (\<lambda>used.
     let delta = new_vcpu - current_vcpu; alloc = scaled total (cpu_overcommit c); free = alloc - used in
     early (check_that (delta \<le> free) (err_resp 400 (''insufficient host capacity: need '' @ show_int delta @
        '' more vCPU, host has '' @ show_int free @ '' free (allocatable='' @ show_int alloc @ '', used='' @
        show_int used @ '')''))) (\<lambda>_.
     proceed (t, h)))))))))"

definition machine_config_text :: "string \<Rightarrow> int \<Rightarrow> int \<Rightarrow> string" where
  "machine_config_text tid new_vcpu mem_mb = ''curl -sf --unix-socket /data/firecracker-vms/'' @ tid @
     ''/fc.sock -X PATCH http://localhost/machine-config -H '' @ dq ''Content-Type: application/json'' @
     '' -d '' @ quoted (''{'' @ dq ''vcpu_count'' @ '':'' @ show_int new_vcpu @ '','' @ dq ''mem_size_mib'' @
     '':'' @ show_int mem_mb @ ''}'')"

definition add_vcpu :: "int \<Rightarrow> host \<Rightarrow> exn + host" where
  "add_vcpu delta h = bind_sum (plus_attr (h_used_vcpu h) delta) (\<lambda>u. Inr (h\<lparr>h_used_vcpu := Some u\<rparr>))"

definition tenant_resize :: "cfg \<Rightarrow> string \<Rightarrow> payload \<Rightarrow> (world, resp + resp) io" where
  "tenant_resize c tid bd =
     early (wanted_vcpu bd) (\<lambda>new_vcpu.
     early (resize_checks c tid new_vcpu) (\<lambda>(item, h).
     let host_id = opt_str (t_host_id item); delta = new_vcpu - int_attr (t_vcpu item) in
     early (pure_val (required ''mem_mb'' (t_mem_mb item))) (\<lambda>mem_mb.
     early (val (ssm_run host_id (machine_config_text tid new_vcpu mem_mb) 30)) (\<lambda>okay.
     early (check_that okay (err_resp 502 ''Firecracker machine-config PATCH failed; tenant unchanged'')) (\<lambda>_.
     early (val now) (\<lambda>t.
     early (val (update_tenant tid no_cond (set_attrs (\<lambda>r.
        r\<lparr>t_vcpu := Some new_vcpu, t_updated_at := Some (At t)\<rparr>)))) (\<lambda>_.
     early (val (update_host host_id no_cond (add_vcpu delta))) (\<lambda>_.
     proceed (mk_resp 200 (JObj [(''id'', JStr tid), (''vcpu'', JInt new_vcpu), (''mem_mb'', JInt mem_mb),
       (''delta'', JInt delta)]))))))))))"

section \<open>One action\<close>

definition start_backup :: "cfg \<Rightarrow> string \<Rightarrow> (world, resp + resp) io" where
  "start_backup c tid =
     early (val (invoke_lambda (backup_function c) (JObj [(''tenant_id'', JStr tid)]))) (\<lambda>_.
     early (val (publish_event c ''tenant.backup_started'' tid (JObj []))) (\<lambda>_.
     proceed (mk_resp 202 (JObj [(''id'', JStr tid), (''action'', JStr ''backup''), (''status'', JStr ''started'')]))))"

text \<open>The branch of an action, on the row read.\<close>

definition run_action :: "cfg \<Rightarrow> string \<Rightarrow> string \<Rightarrow> payload \<Rightarrow> tenant \<Rightarrow> (world, resp + resp) io" where
  "run_action c tid action bd item = (
     if action = ''cancel-migration'' then cancel_migration c tid item
     else if action = ''resize'' then tenant_resize c tid bd
     else if action = ''resize-disk'' then resize_disk c tid item bd
     else if action = ''migrate'' then migrate_tenant c tid item bd
     else if action = ''backup'' then start_backup c tid
     else (case action_command c tid item action of
         Some command \<Rightarrow> lifecycle_action c tid item action command
       | None \<Rightarrow> answer (err_resp 400 (''unknown action: '' @ action))))"

definition tenant_action :: "cfg \<Rightarrow> string \<Rightarrow> string \<Rightarrow> payload \<Rightarrow> (world, resp) io" where
  "tenant_action c tid action bd = finish (early (val (get_tenant_row tid)) (\<lambda>row. case row of
       None \<Rightarrow> answer tenant_not_found
     | Some item \<Rightarrow> run_action c tid action bd item))"

section \<open>Batches\<close>

definition batch_actions :: "string list" where
  "batch_actions = [''backup'', ''delete'', ''start'', ''stop'']"

definition batch_max_ids :: nat where
  "batch_max_ids = 100"

text \<open>\<open>x in {...}\<close>: a list or a dict is not hashable.\<close>

definition valid_action :: "json \<Rightarrow> exn + bool" where
  "valid_action v = (case v of
       JStr a \<Rightarrow> Inr (a \<in> set batch_actions)
     | JList xs \<Rightarrow> Inl (PyError TypeError ''unhashable type: list'')
     | JObj kvs \<Rightarrow> Inl (PyError TypeError ''unhashable type: dict'')
     | _ \<Rightarrow> Inr False)"

text \<open>What the tag expression of a filter selects; \<open>in\<close> on other values than text raises or finds nothing.\<close>

definition tag_selects :: "json \<Rightarrow> exn + (tenant \<Rightarrow> bool)" where
  "tag_selects v = (if \<not> truthy v then Inr (\<lambda>t. True) else (case v of
       JStr s \<Rightarrow> if CHR '':'' \<in> set s
         then (case split1 CHR '':'' s of (k, x) \<Rightarrow> Inr (\<lambda>t. map_of (item_tags t) k = Some x))
         else Inr (\<lambda>t. False)
     | JList xs \<Rightarrow> if JStr '':'' \<in> set xs then Inl (no_attribute v ''split'') else Inr (\<lambda>t. False)
     | JObj kvs \<Rightarrow> if '':'' \<in> fst ` set kvs then Inl (no_attribute v ''split'') else Inr (\<lambda>t. False)
     | _ \<Rightarrow> Inl (PyError TypeError (''argument of type '' @ quoted (type_name v) @ '' is not iterable''))))"

definition resolve_filter :: "json \<Rightarrow> (world, json list) io" where
  "resolve_filter flt = andThen (scan_all w_tenants not_deleted) (\<lambda>items.
     andThen (lift_sum (get_or flt ''tag'' (JStr ''''))) (\<lambda>tag_expr.
     andThen (lift_sum (tag_selects tag_expr)) (\<lambda>P.
     ok (map (\<lambda>t. JStr (t_id t)) (filter P items)))))"

definition body_error :: "resp \<Rightarrow> string \<Rightarrow> json" where
  "body_error r d = (case body r of
       JObj kvs \<Rightarrow> (case map_of kvs ''error'' of None \<Rightarrow> JStr d | Some e \<Rightarrow> e)
     | _ \<Rightarrow> JStr d)"

datatype outcome = Succeeded json | Failed json json

definition batch_one :: "cfg \<Rightarrow> string \<Rightarrow> json \<Rightarrow> (world, outcome) io" where
  "batch_one c action tid = try_except
     (andThen (lift_sum (row_key tid)) (\<lambda>k.
      andThen (get_tenant_row k) (\<lambda>tenant. case tenant of
        None \<Rightarrow> ok (Failed tid (JStr ''tenant not found''))
      | Some t \<Rightarrow> andThen (if action = ''delete'' then delete_tenant c k [] else tenant_action c k action NoBody) (\<lambda>r.
          ok (if statusCode r \<ge> 400 then Failed tid (body_error r ''unknown error'') else Succeeded tid)))))
     (\<lambda>e. ok (Failed tid (JStr (exn_str e))))"

primrec batch_run :: "cfg \<Rightarrow> string \<Rightarrow> json list \<Rightarrow> (world, outcome list) io" where
  "batch_run c action [] = ok []"
| "batch_run c action (tid # tids) = andThen (batch_one c action tid) (\<lambda>r.
     andThen (batch_run c action tids) (\<lambda>rs. ok (r # rs)))"

definition succeeded_ids :: "outcome list \<Rightarrow> json list" where
  "succeeded_ids rs = List.map_filter (\<lambda>r. case r of Succeeded i \<Rightarrow> Some i | Failed i e \<Rightarrow> None) rs"

definition failed_ids :: "outcome list \<Rightarrow> (json \<times> json) list" where
  "failed_ids rs = List.map_filter (\<lambda>r. case r of Succeeded i \<Rightarrow> None | Failed i e \<Rightarrow> Some (i, e)) rs"

definition batch_targets :: "json \<Rightarrow> (world, resp + json list) io" where
  "batch_targets b =
     early (pure_val (get_or b ''ids'' JNull)) (\<lambda>ids.
     early (pure_val (get_or b ''filter'' JNull)) (\<lambda>flt.
     early (check_that ((ids = JNull) \<noteq> (flt = JNull))
        (err_resp 400 (''specify exactly one of '' @ quoted ''ids'' @ '' or '' @ quoted ''filter''))) (\<lambda>_.
     if ids \<noteq> JNull then
       (case ids of
          JList xs \<Rightarrow> if length xs > batch_max_ids then answer (err_resp 400 (''too many ids (max '' @ show_nat batch_max_ids @ '')''))
            else proceed xs
        | _ \<Rightarrow> answer (err_resp 400 ''ids must be an array''))
     else
       (case flt of
          JObj kvs \<Rightarrow> (let unknown = sorted_set (filter (\<lambda>k. k \<noteq> ''tag'') (map fst kvs)) in
            if unknown \<noteq> [] then answer (err_resp 400 (''unknown filter key(s): '' @ json_repr (JList (map JStr unknown))))
            else val (resolve_filter flt))
        | _ \<Rightarrow> answer (err_resp 400 ''filter must be an object'')))))"

definition batch_tenants :: "cfg \<Rightarrow> payload \<Rightarrow> (world, resp) io" where
  "batch_tenants c bd = (if bd = NoBody then ok missing_body
     else andThen (lift_sum (load_body bd)) (\<lambda>b. finish (
       early (pure_val (get_or b ''action'' JNull)) (\<lambda>action.
       early (pure_val (valid_action action)) (\<lambda>valid.
       early (check_that valid (err_resp 400 (''action must be one of '' @ json_repr (JList (map JStr batch_actions))))) (\<lambda>_.
       early (batch_targets b) (\<lambda>target_ids.
       early (val (batch_run c (the_str action) target_ids)) (\<lambda>rs.
       proceed (mk_resp 200 (JObj [
         (''succeeded'', JList (map (\<lambda>i. JObj [(''id'', i), (''action'', action)]) (succeeded_ids rs))),
         (''failed'', JList (map (\<lambda>(i, e). JObj [(''id'', i), (''error'', e)]) (failed_ids rs)))]))))))))))"

section \<open>Backups\<close>

definition sort_desc :: "('a \<Rightarrow> 'k::linorder) \<Rightarrow> 'a list \<Rightarrow> 'a list" where
  "sort_desc f xs = rev (sort_key f (rev xs))"

text \<open>\<open>round(n / 1048576, 1)\<close>: the quotient rounded to one decimal, ties to the even digit.\<close>

definition size_mb :: "int \<Rightarrow> pyfloat" where
  "size_mb n = fdiv (float_of_int (round_mag 20 (n * 10))) (float_of_int 10)"

definition list_backups :: "cfg \<Rightarrow> string \<Rightarrow> (world, resp) io" where
  "list_backups c tid = andThen (list_page (backup_prefix c @ ''/'' @ tid @ ''/'')) (\<lambda>objs.
     ok (mk_resp 200 (JObj [(''tenant_id'', JStr tid), (''backups'', JList (map (\<lambda>ob. JObj [
       (''key'', JStr (o_key ob)),
       (''timestamp'', JStr (remove_all ''.gz'' (last (split_on CHR ''/'' (o_key ob))))),
       (''size_mb'', JFloat (size_mb (o_size ob)))]) (sort_desc o_key objs)))])))"

record backup_row =
  b_tenant :: string
  b_name :: "string option"
  b_exists :: bool
  b_timestamp :: string
  b_size :: int
  b_modified :: string

definition tenant_info :: "tenant list \<Rightarrow> string \<Rightarrow> string option \<times> bool" where
  "tenant_info ts i = (case map_of (map (\<lambda>t. (t_id t, t)) (rev ts)) i of
       None \<Rightarrow> (None, False)
     | Some t \<Rightarrow> (Some (opt_str (t_name t)), t_status t \<noteq> Some ''deleted''))"

definition ends_with :: "string \<Rightarrow> string \<Rightarrow> bool" where
  "ends_with sfx s = prefix (rev sfx) (rev s)"

definition backup_of :: "tenant list \<Rightarrow> s3_object \<Rightarrow> backup_row option" where
  "backup_of ts ob = (let parts = split_on CHR ''/'' (o_key ob) in
     if length parts < 3 \<or> \<not> ends_with ''.gz'' (last parts) then None
     else let src = parts ! (length parts - 2) in
       Some \<lparr>b_tenant = src, b_name = fst (tenant_info ts src), b_exists = snd (tenant_info ts src),
         b_timestamp = take (length (last parts) - 3) (last parts), b_size = o_size ob,
         b_modified = iso_format (o_modified ob)\<rparr>)"

definition backup_json :: "backup_row \<Rightarrow> json" where
  "backup_json b = JObj [(''tenant_id'', JStr (b_tenant b)), (''tenant_name'', opt_json JStr (b_name b)),
     (''tenant_exists'', JBool (b_exists b)), (''timestamp'', JStr (b_timestamp b)),
     (''size_bytes'', JInt (b_size b)), (''last_modified'', JStr (b_modified b))]"

definition all_backups :: "cfg \<Rightarrow> (world, backup_row list) io" where
  "all_backups c = andThen (scan_all w_tenants (\<lambda>_. True)) (\<lambda>tenants.
     andThen (list_objects (backup_prefix c @ ''/'')) (\<lambda>objs.
     ok (sort_desc b_modified (List.map_filter (backup_of tenants) objs))))"

definition list_all_backups :: "cfg \<Rightarrow> (world, resp) io" where
  "list_all_backups c = andThen (all_backups c) (\<lambda>bs. ok (mk_resp 200 (JList (map backup_json bs))))"

definition tenant_get_action :: "cfg \<Rightarrow> string \<Rightarrow> string \<Rightarrow> (world, resp) io" where
  "tenant_get_action c tid action = (if action = ''backups'' then list_backups c tid
     else ok (err_resp 400 (''unknown GET action: '' @ action)))"

section \<open>Lemmas\<close>

lemma run_action_simps [simp]:
  "run_action c tid ''migrate'' bd item = migrate_tenant c tid item bd"
  "run_action c tid ''resize'' bd item = tenant_resize c tid bd"
  "run_action c tid ''resize-disk'' bd item = resize_disk c tid item bd"
  "run_action c tid ''cancel-migration'' bd item = cancel_migration c tid item"
  "run_action c tid ''backup'' bd item = start_backup c tid"
  by (simp_all add: run_action_def)

lemma tenant_action_known:
  assumes "quiet w" "map_of (w_tenants w) tid = Some item"
  shows "tenant_action c tid action bd w = finish (run_action c tid action bd item) w"
proof -
  have "early (val (get_tenant_row tid)) (case_option (answer tenant_not_found) (run_action c tid action bd)) w =
      run_action c tid action bd item w"
    using assms by (simp add: io_simps get_tenant_quiet)
  then show ?thesis by (simp add: tenant_action_def finish_def andThen_def)
qed

text \<open>How an action came about: the row could not be read, was missing, or the branch was taken.\<close>

lemma tenant_action_cases:
  assumes "tenant_action c tid action bd w = (r, w')"
  obtains (unread) e where "r = Inl e" "w_tenants w' = w_tenants w" "w_hosts w' = w_hosts w"
  | (missing) "r = Inr tenant_not_found" "map_of (w_tenants w) tid = None" "w_tenants w' = w_tenants w"
      "w_hosts w' = w_hosts w"
  | (taken) item w1 where "map_of (w_tenants w) tid = Some item" "w_tenants w1 = w_tenants w"
      "w_hosts w1 = w_hosts w" "w_replies w1 = w_replies w" "finish (run_action c tid action bd item) w1 = (r, w')"
proof -
  obtain g w1 where g: "get_tenant_row tid w = (g, w1)" by fastforce
  have same: "w_tenants w1 = w_tenants w \<and> w_hosts w1 = w_hosts w \<and> w_replies w1 = w_replies w"
    using g unfolding get_tenant_row_def by (cases rule: aws_elim) (auto simp: gets_def)
  show ?thesis
  proof (cases g)
    case (Inl e)
    with assms g same show ?thesis by (intro unread [of e]) (auto simp: tenant_action_def io_simps)
  next
    case (Inr row)
    note row = get_tenant_Inr [OF g [unfolded Inr]]
    show ?thesis
    proof (cases row)
      case None
      with assms g Inr row show ?thesis by (intro missing) (auto simp: tenant_action_def io_simps the_resp_def)
    next
      case (Some item)
      then have "early (val (get_tenant_row tid)) (case_option (answer tenant_not_found) (run_action c tid action bd)) w =
          run_action c tid action bd item w1"
        using g Inr by (simp add: io_simps)
      then have "finish (run_action c tid action bd item) w1 = (r, w')"
        using assms by (simp add: tenant_action_def finish_def andThen_def)
      with row same Some show ?thesis by (intro taken [of item w1]) simp_all
    qed
  qed
qed

definition lifecycle_actions :: "(string \<times> string) list" where
  "lifecycle_actions = [(''restart'', ''running''), (''stop'', ''stopped''), (''start'', ''running''),
     (''reset'', ''running''), (''pause'', ''paused''), (''resume'', ''running'')]"

lemma action_command_known:
  assumes "map_of lifecycle_actions action = Some st" "t_vcpu item = Some v" "t_mem_mb item = Some m"
  shows "\<exists>cmd timeout. action_command c tid item action = Some (Inr (cmd, timeout, st))"
  using assms
  by (auto simp: lifecycle_actions_def action_command_def launch_text_def required_def split: if_splits)

lemma lifecycle_run_action:
  "map_of lifecycle_actions action = Some st \<Longrightarrow> action_command c tid item action = Some command \<Longrightarrow>
   run_action c tid action bd item = lifecycle_action c tid item action command"
  by (auto simp: lifecycle_actions_def run_action_def split: if_splits)

lemma reset_version_quiet:
  "quiet w \<Longrightarrow> \<exists>rv. reset_version action hid w = (Inr rv, w)"
  by (simp add: reset_version_def andThen_apply get_host_quiet ok_apply)

lemma lifecycle_quiet:
  assumes q: "quiet w" and host: "t_host_id item = Some hid" and row: "map_of (w_tenants w) tid = Some item"
  shows "\<exists>w' t rv. lifecycle_action c tid item action (Inr (cmd, timeout, st)) w =
      (Inr (Inr (mk_resp 200 (JObj [(''id'', JStr tid), (''status'', JStr st)]))), w') \<and> quiet w' \<and>
    w_hosts w' = w_hosts w \<and>
    w_tenants w' = AList.update tid (set_status_row st t rv item) (w_tenants w)"
proof -
  obtain b w1 where s1: "ssm_run hid cmd timeout w = (Inr b, w1)" "quiet w1"
      "w_tenants w1 = w_tenants w" "w_hosts w1 = w_hosts w"
    using calmD [OF calm_ssm_run q] by blast
  obtain rv where s2: "reset_version action hid w1 = (Inr rv, w1)"
    using reset_version_quiet s1(2) by blast
  let ?w2 = "w1\<lparr>w_tenants := AList.update tid (set_status_row st (w_now w1) rv item) (w_tenants w1)\<rparr>"
  have "tenant_or_fresh w1 tid = item" using row s1(3) by (simp add: tenant_or_fresh_def)
  then have s3: "update_tenant tid no_cond (set_attrs (set_status_row st (w_now w1) rv)) w1 =
      (Inr (set_status_row st (w_now w1) rv item), ?w2)"
    using set_tenant_quiet [OF s1(2), of tid "set_status_row st (w_now w1) rv"] by simp
  let ?ev = "case map_of action_events action of Some e \<Rightarrow> e | None \<Rightarrow> ''tenant.'' @ st"
  have "quiet ?w2" using s1(2) by (simp add: quiet_def)
  then obtain x w3 where s4: "publish_event c ?ev tid (JObj [(''action'', JStr action), (''status'', JStr st)]) ?w2
      = (Inr x, w3)" "quiet w3" "w_tenants w3 = w_tenants ?w2" "w_hosts w3 = w_hosts ?w2"
    using calmD [OF calm_publish_event] by blast
  have "lifecycle_action c tid item action (Inr (cmd, timeout, st)) w =
      (Inr (Inr (mk_resp 200 (JObj [(''id'', JStr tid), (''status'', JStr st)]))), w3)"
    by (simp add: lifecycle_action_def io_simps required_def host s1(1) s2 s3 s4(1) now_quiet)
  then show ?thesis using s1 s4 by auto
qed


subsection \<open>Starting a migration\<close>

lemma keeps_migrate:
  "keeps (unchanged w_hosts) (tenant_action c tid ''migrate'' bd)"
  "keeps (unchanged w_rules) (tenant_action c tid ''migrate'' bd)"
  unfolding tenant_action_def run_action_simps migrate_tenant_def migrate_target_def ssm_send_def Let_def
  by (intro keeps_rules)+

lemma migrate_target_same: "migrate_target c item bd w = (r, w') \<Longrightarrow> w_tenants w' = w_tenants w"
proof -
  assume "migrate_target c item bd w = (r, w')"
  moreover have "keeps (unchanged w_tenants) (migrate_target c item bd)"
    unfolding migrate_target_def Let_def by (intro keeps_rules)
  ultimately show ?thesis using keepsD by (fastforce simp: unchanged_def)
qed

lemma migrate_target_Inr:
  assumes "migrate_target c item bd w = (Inr (Inr h), w')"
  shows "\<exists>tgt. map_of (w_hosts w) tgt = Some h \<and> Some tgt \<noteq> t_host_id item \<and>
    h_status h \<notin> {Some ''draining'', Some ''deleted''} \<and> fits c h (int_attr (t_vcpu item)) (int_attr (t_mem_mb item))"
  using assms unfolding migrate_target_def Let_def early_inv
  by (elim disjE exE conjE)
    (auto dest!: get_host_Inr simp: row_key_def opt_json_def split: if_splits json.splits option.splits)

lemma ssm_send_same: "ssm_send i cmd t w = (r, w') \<Longrightarrow> w_tenants w' = w_tenants w \<and> w_hosts w' = w_hosts w"
proof -
  assume r: "ssm_send i cmd t w = (r, w')"
  have "keeps (unchanged w_tenants) (ssm_send i cmd t)" "keeps (unchanged w_hosts) (ssm_send i cmd t)"
    unfolding ssm_send_def by (intro keeps_rules)+
  with r show ?thesis by (auto simp: unchanged_def dest: keepsD)
qed

lemma stops_branches:
  "(b \<Longrightarrow> stops_in S m) \<Longrightarrow> (\<not> b \<Longrightarrow> stops_in S n) \<Longrightarrow> stops_in S (if b then m else n)"
  "stops_in S k \<Longrightarrow> (\<And>x. stops_in S (f x)) \<Longrightarrow> stops_in S (case v of None \<Rightarrow> k | Some x \<Rightarrow> f x)"
  "(\<And>x y. stops_in S (g x y)) \<Longrightarrow> stops_in S (case p of (x, y) \<Rightarrow> g x y)"
  by (auto split: option.split prod.split)

definition starts_migration :: "cfg \<Rightarrow> string \<Rightarrow> tenant \<Rightarrow> tenant \<Rightarrow> bool" where
  "starts_migration c tid item row = (\<exists>tgt tvn scmd mode t.
     row = migrating_row tgt tvn (t_host_id item) scmd mode (snapshot_uri c tid) t item)"

lemma migrate_cases:
  assumes "migrate_tenant c tid item bd w = (r, w')" "map_of (w_tenants w) tid = Some item"
  shows "(w_tenants w' = w_tenants w \<and> (\<forall>y. r = Inr y \<longrightarrow> statusCode (the_resp y) \<noteq> 202)) \<or>
    ((\<exists>y. r = Inr (Inr y) \<and> statusCode y = 202) \<and>
     (\<exists>row. starts_migration c tid item row \<and> w_tenants w' = AList.update tid row (w_tenants w)))"
proof (cases "migrate_mode c")
  case None
  with assms show ?thesis by (auto simp: migrate_tenant_def the_resp_def answer_def ok_def)
next
  case (Some mode)
  have st: "stops_in {400, 404, 409} (migrate_target c item bd)"
    unfolding migrate_target_def Let_def
    by (intro stops_rules stops_branches) simp_all
  from assms(1) show ?thesis
    unfolding migrate_tenant_def Some option.case
  proof (cases rule: early_cases)
    case (raised e)
    with migrate_target_same show ?thesis by blast
  next
    case (answered a)
    with st have "statusCode a \<in> {400, 404, 409}" unfolding stops_in_def by blast
    with answered migrate_target_same show ?thesis by (auto simp: the_resp_def)
  next
    case (passed h w1)
    have t1: "w_tenants w1 = w_tenants w" using passed(1) migrate_target_same by blast
    let ?cmd = "snapshot_command c tid item mode"
    obtain s w2 where s2: "ssm_send (t_host_id item) ?cmd 600 w1 = (s, w2)" by fastforce
    have t2: "w_tenants w2 = w_tenants w" using ssm_send_same [OF s2] t1 by simp
    show ?thesis
    proof (cases s)
      case (Inl e)
      with passed(2) s2 t2 show ?thesis by (auto simp: io_simps now_quiet Let_def)
    next
      case (Inr k)
      show ?thesis
      proof (cases k)
        case None
        with passed(2) s2 t2 Inr show ?thesis by (auto simp: io_simps now_quiet Let_def the_resp_def)
      next
        case k: (Some snap_cmd)
        let ?f = "migrating_row (h_instance_id h) (int_attr_or (h_next_vm_num h) 1) (t_host_id item) snap_cmd mode
            (snapshot_uri c tid) (w_now w1)"
        obtain u w3 where s3: "update_tenant tid no_cond (set_attrs ?f) w2 = (u, w3)" by fastforce
        show ?thesis
        proof (cases u)
          case (Inl e)
          with passed(2) s2 t2 Inr k s3 update_tenant_Inl [OF s3 [unfolded Inl]] show ?thesis
            by (auto simp: io_simps now_quiet Let_def)
        next
          case u: (Inr row)
          from set_tenant_Inr [OF s3 [unfolded u]] t2 assms(2)
          have "row = ?f item" "w_tenants w3 = AList.update tid row (w_tenants w)"
            by (simp_all add: tenant_or_fresh_def)
          moreover have "starts_migration c tid item (?f item)" unfolding starts_migration_def by blast
          ultimately show ?thesis
            using passed(2) s2 Inr k s3 u by (auto simp: io_simps now_quiet Let_def the_resp_def)
        qed
      qed
    qed
  qed
qed

lemma migrate_quiet:
  assumes "quiet w" "map_of (w_tenants w) tid = Some item" "migrate_mode c = Some mode"
    "map_of (w_hosts w) hid = Some h" "h_instance_id h = hid" "hid \<noteq> []"
    "t_host_id item = Some src" "src \<noteq> []" "src \<noteq> hid" "h_status h \<notin> {Some ''draining'', Some ''deleted''}"
    "fits c h (int_attr (t_vcpu item)) (int_attr (t_mem_mb item))"
  shows "\<exists>r w' scmd t. tenant_action c tid ''migrate'' (Json (JObj [(''target_host_id'', JStr hid)])) w = (Inr r, w') \<and>
    statusCode r = 202 \<and> quiet w' \<and> w_hosts w' = w_hosts w \<and>
    w_tenants w' = AList.update tid (migrating_row hid (int_attr_or (h_next_vm_num h) 1) (Some src) scmd mode
      (snapshot_uri c tid) t item) (w_tenants w)"
proof -
  let ?bd = "Json (JObj [(''target_host_id'', JStr hid)])"
  have target: "migrate_target c item ?bd w = (Inr (Inr h), w)"
    using assms by (simp add: migrate_target_def io_simps lenient_body_def get_or_def row_key_def
        get_host_quiet opt_json_def Let_def)
  let ?cmd = "snapshot_command c tid item mode"
  obtain s w1 where s1: "ssm_send (Some src) ?cmd 600 w = (Inr (Some s), w1)" "quiet w1"
      "w_tenants w1 = w_tenants w" "w_hosts w1 = w_hosts w"
    using assms(1,8) by (auto simp: ssm_send_def send_def send_command_def quiet_def io_simps Let_def)
  let ?row = "migrating_row hid (int_attr_or (h_next_vm_num h) 1) (Some src) s mode (snapshot_uri c tid) (w_now w)"
  have row: "tenant_or_fresh w1 tid = item" using assms(2) s1(3) by (simp add: tenant_or_fresh_def)
  have "tenant_action c tid ''migrate'' ?bd w = finish (migrate_tenant c tid item ?bd) w"
    using tenant_action_known [OF assms(1,2)] by simp
  also have "\<dots> = (Inr (mk_resp 202 (JObj [(''id'', JStr tid), (''status'', JStr ''migrating''),
      (''mode'', JStr mode), (''source_host_id'', JStr src), (''target_host_id'', JStr hid),
      (''snapshot_uri'', JStr (snapshot_uri c tid)), (''poll'', JStr (''/tenants/'' @ tid))])),
      w1\<lparr>w_tenants := AList.update tid (?row item) (w_tenants w1)\<rparr>)"
    using assms(3,5,7) s1(1) set_tenant_quiet [OF s1(2), of tid ?row]
    by (simp add: migrate_tenant_def io_simps target now_quiet Let_def opt_json_def row the_resp_def)
  finally show ?thesis using s1 by (auto simp: quiet_def)
qed

subsection \<open>Growing a tenant\<close>

lemma resize_checks_Inr:
  assumes "resize_checks c tid n w = (Inr (Inr (item, h)), w')"
  shows "map_of (w_tenants w) tid = Some item \<and> map_of (w_hosts w) (opt_str (t_host_id item)) = Some h \<and>
    t_status item = Some ''running'' \<and> n > int_attr (t_vcpu item) \<and>
    (\<exists>total used. h_total_vcpu h = Some total \<and> h_used_vcpu h = Some used \<and>
       used + (n - int_attr (t_vcpu item)) \<le> scaled total (cpu_overcommit c)) \<and>
    w_tenants w' = w_tenants w \<and> w_hosts w' = w_hosts w"
  using assms unfolding resize_checks_def Let_def early_inv
  by (elim disjE exE conjE)
    (auto dest!: get_host_Inr get_tenant_Inr simp: required_def split: if_splits option.splits)

lemma keeps_ssm_run_tables:
  "ssm_run i cmd t w = (r, w') \<Longrightarrow> w_tenants w' = w_tenants w \<and> w_hosts w' = w_hosts w"
proof -
  assume r: "ssm_run i cmd t w = (r, w')"
  have "keeps (unchanged w_tenants) (ssm_run i cmd t)" "keeps (unchanged w_hosts) (ssm_run i cmd t)"
    unfolding ssm_run_def by (intro keeps_rules)+
  with r show ?thesis by (auto simp: unchanged_def dest: keepsD)
qed

lemma wanted_vcpu_same: "wanted_vcpu bd w = (Inr y, w') \<Longrightarrow> w' = w"
  unfolding wanted_vcpu_def early_inv by (elim disjE exE conjE) (auto simp: io_simps split: if_splits option.splits)

lemma tenant_resize_200:
  assumes "tenant_resize c tid bd w = (Inr (Inr r), w')"
  shows "\<exists>item h n total used t. map_of (w_tenants w) tid = Some item \<and>
    map_of (w_hosts w) (opt_str (t_host_id item)) = Some h \<and>
    h_total_vcpu h = Some total \<and> h_used_vcpu h = Some used \<and>
    int_attr (t_vcpu item) < n \<and> used + (n - int_attr (t_vcpu item)) \<le> scaled total (cpu_overcommit c) \<and>
    w_tenants w' = AList.update tid (item\<lparr>t_vcpu := Some n, t_updated_at := Some (At t)\<rparr>) (w_tenants w) \<and>
    w_hosts w' = AList.update (opt_str (t_host_id item))
      (h\<lparr>h_used_vcpu := Some (used + (n - int_attr (t_vcpu item)))\<rparr>) (w_hosts w)"
proof -
  obtain n w1 item h w2 mem w3 where
    s1: "wanted_vcpu bd w = (Inr (Inr n), w1)"
    and s2: "resize_checks c tid n w1 = (Inr (Inr (item, h)), w2)"
    and s3: "ssm_run (opt_str (t_host_id item)) (machine_config_text tid n mem) 30 w2 = (Inr True, w3)"
    and rest: "\<exists>t row w4 row2. update_tenant tid no_cond (set_attrs (\<lambda>r. r\<lparr>t_vcpu := Some n, t_updated_at := Some (At t)\<rparr>)) w3 = (Inr row, w4) \<and>
      update_host (opt_str (t_host_id item)) no_cond (add_vcpu (n - int_attr (t_vcpu item))) w4 = (Inr row2, w')"
    using assms unfolding tenant_resize_def Let_def early_inv
    by (elim disjE exE conjE; simp split: if_splits add: now_quiet) blast
  then obtain t row w4 row2 where
    s4: "update_tenant tid no_cond (set_attrs (\<lambda>r. r\<lparr>t_vcpu := Some n, t_updated_at := Some (At t)\<rparr>)) w3 = (Inr row, w4)"
    and s5: "update_host (opt_str (t_host_id item)) no_cond (add_vcpu (n - int_attr (t_vcpu item))) w4 = (Inr row2, w')"
    by blast
  note c = resize_checks_Inr [OF s2] and r = keeps_ssm_run_tables [OF s3]
  have w1: "w1 = w" using wanted_vcpu_same [OF s1] .
  from c obtain total used where tu: "h_total_vcpu h = Some total" "h_used_vcpu h = Some used"
    "used + (n - int_attr (t_vcpu item)) \<le> scaled total (cpu_overcommit c)" by blast
  have item: "tenant_or_fresh w3 tid = item" using c r w1 by (simp add: tenant_or_fresh_def)
  note u4 = set_tenant_Inr [OF s4, unfolded item]
  have h: "host_or_fresh w4 (opt_str (t_host_id item)) = h" using c r w1 u4 by (simp add: host_or_fresh_def)
  note u5 = update_host_Inr [OF s5, unfolded h]
  have row2: "row2 = h\<lparr>h_used_vcpu := Some (used + (n - int_attr (t_vcpu item)))\<rparr>"
    using u5 tu by (auto simp: add_vcpu_def plus_attr_def)
  show ?thesis
    using c w1 tu u4 u5 row2 r by (intro exI [of _ item] exI [of _ h] exI [of _ n] exI [of _ total] exI [of _ used] exI [of _ t]) simp
qed

subsection \<open>Batches\<close>

lemma batch_one_total: "\<exists>x. fst (batch_one c a tid w) = Inr x"
  unfolding batch_one_def by (rule try_except_total) (simp add: ok_apply)

fun outcome_id :: "outcome \<Rightarrow> json" where
  "outcome_id (Succeeded i) = i"
| "outcome_id (Failed i e) = i"

lemma batch_one_id: "batch_one c a tid w = (Inr x, w') \<Longrightarrow> outcome_id x = tid"
  unfolding batch_one_def io_inv by (elim disjE exE conjE) (auto split: if_splits)

lemma batch_run_total:
  "\<exists>rs w'. batch_run c a tids w = (Inr rs, w') \<and> map outcome_id rs = tids"
proof (induction tids arbitrary: w)
  case (Cons tid tids)
  obtain x w1 where x: "batch_one c a tid w = (Inr x, w1)" using batch_one_total by (metis prod.collapse)
  from Cons.IH obtain rs w2 where "batch_run c a tids w1 = (Inr rs, w2)" "map outcome_id rs = tids" by blast
  with x batch_one_id [OF x] show ?case by (simp add: io_simps)
qed (simp add: ok_apply)

subsection \<open>Growing the disk\<close>

lemma ssm_run_success:
  "ssm_run i cmd t w = (Inr True, w') \<Longrightarrow> \<exists>out err. decided_by (Reply ''Success'' out err) w w'"
  by (auto simp: ssm_run_def andThen_Inr split: prod.splits dest!: run_decides) blast


definition disk_grown :: "cfg \<Rightarrow> tenant \<Rightarrow> tenant \<Rightarrow> bool" where
  "disk_grown c item row = (\<exists>n t. int_attr_or (t_data_disk_mb item) (vm_data_disk_mb c) < n \<and> n \<le> 1024 * 1024 \<and>
     row = item\<lparr>t_data_disk_mb := Some n, t_updated_at := Some (At t)\<rparr>)"

lemma resize_disk_cases:
  assumes "resize_disk c tid item bd w = (r, w')" "map_of (w_tenants w) tid = Some item"
  shows "w_tenants w' = w_tenants w \<or> (\<exists>row. disk_grown c item row \<and>
    w_tenants w' = AList.update tid row (w_tenants w) \<and>
    (\<exists>out err. decided_by (Reply ''Success'' out err) w w'))"
proof -
  let ?current = "int_attr_or (t_data_disk_mb item) (vm_data_disk_mb c)"
    and ?hid = "opt_str (t_host_id item)"
  show ?thesis
  proof (cases "get_or (lenient_body bd) ''new_size_mb'' JNull")
    case (Inl e)
    with assms(1) show ?thesis by (auto simp: resize_disk_def io_simps)
  next
    case (Inr v)
    show ?thesis
    proof (cases "int_like v")
      case None
      with Inr assms(1) show ?thesis by (auto simp: resize_disk_def io_simps)
    next
      case n: (Some n)
      let ?cmd = "''/home/ubuntu/resize-disk.sh '' @ tid @ '' '' @ show_int (int_attr_or (t_vm_num item) 1) @ '' '' @ json_str v"
      obtain s w1 where s1: "ssm_run ?hid ?cmd 120 w = (s, w1)" by fastforce
      note t1 = keeps_ssm_run_tables [OF s1]
      show ?thesis
      proof (cases "?current < n \<and> n \<le> 1024 * 1024 \<and> ?hid \<noteq> [] \<and> s = Inr True")
        case False
        with assms(1) Inr n s1 t1 show ?thesis
          by (cases s) (auto simp: resize_disk_def io_simps Let_def split: if_splits)
      next
        case True
        let ?f = "\<lambda>r. r\<lparr>t_data_disk_mb := Some n, t_updated_at := Some (At (w_now w1))\<rparr>"
        obtain u w2 where s2: "update_tenant tid no_cond (set_attrs ?f) w1 = (u, w2)" by fastforce
        have w2: "w2 = w'" using assms(1) Inr n s1 True s2
          by (cases u) (auto simp: resize_disk_def io_simps Let_def now_quiet)
        have "keeps (unchanged w_replies) (update_tenant tid no_cond (set_attrs ?f))" by (rule keeps_rules)
        then have "w_replies w' = w_replies w1" using s2 w2 by (auto simp: unchanged_def dest: keepsD)
        then have d: "\<exists>out err. decided_by (Reply ''Success'' out err) w w'"
          using ssm_run_success [of ?hid ?cmd 120 w w1] s1 True decided_by_replies by blast
        show ?thesis
        proof (cases u)
          case (Inl e)
          with update_tenant_Inl [OF s2 [unfolded Inl]] t1 w2 show ?thesis by simp
        next
          case (Inr row)
          from set_tenant_Inr [OF s2 [unfolded Inr]] t1 assms(2) have "row = ?f item"
            "w_tenants w' = AList.update tid row (w_tenants w)" by (simp_all add: tenant_or_fresh_def w2)
          moreover have "disk_grown c item (?f item)" using True unfolding disk_grown_def by blast
          ultimately show ?thesis using d by blast
        qed
      qed
    qed
  qed
qed

section \<open>Properties\<close>

text \<open>
  A lifecycle action reports and records success whatever the host answers: in a world where
  no call fails, stop, start, restart, reset, pause and resume of a placed tenant always answer
  200, set the tenant's status to the one asked for, and change no booking and no other tenant;
  the outcome of the command on the host plays no part.
\<close>

theorem lifecycle_action_spec:
  assumes "quiet w" "map_of (w_tenants w) tid = Some item" "map_of lifecycle_actions action = Some st"
    "t_host_id item = Some hid" "t_vcpu item = Some v" "t_mem_mb item = Some m"
  shows "\<exists>w' t rv. tenant_action c tid action bd w =
      (Inr (mk_resp 200 (JObj [(''id'', JStr tid), (''status'', JStr st)])), w') \<and>
    w_hosts w' = w_hosts w \<and> w_tenants w' = AList.update tid (set_status_row st t rv item) (w_tenants w)"
proof -
  obtain cmd timeout where cmd: "action_command c tid item action = Some (Inr (cmd, timeout, st))"
    using action_command_known [OF assms(3,5,6)] by blast
  have "tenant_action c tid action bd w = finish (lifecycle_action c tid item action (Inr (cmd, timeout, st))) w"
    using tenant_action_known [OF assms(1,2)] lifecycle_run_action [OF assms(3) cmd] by simp
  with lifecycle_quiet [OF assms(1,4,2), of c action cmd timeout st] show ?thesis
    by (auto simp: finish_apply the_resp_def) blast
qed

theorem lifecycle_action_spec_witness:
  "\<exists>w' t rv. tenant_action cfg0 ''a-1'' ''stop'' NoBody one_vm_world =
      (Inr (mk_resp 200 (JObj [(''id'', JStr ''a-1''), (''status'', JStr ''stopped'')])), w') \<and>
    w_hosts w' = w_hosts one_vm_world \<and>
    w_tenants w' = AList.update ''a-1'' (set_status_row ''stopped'' t rv placed_tenant) (w_tenants one_vm_world)"
proof (rule lifecycle_action_spec)
  show "quiet one_vm_world" "map_of (w_tenants one_vm_world) ''a-1'' = Some placed_tenant"
    "map_of lifecycle_actions ''stop'' = Some ''stopped''" "t_host_id placed_tenant = Some ''i-1''"
    "t_vcpu placed_tenant = Some 2" "t_mem_mb placed_tenant = Some 4096"
    by code_simp+
qed

text \<open>
  C36. Starting a migration is fail-safe: whatever fails on the way, no host row and no routing
  rule changes, and the tenant table is either untouched (then the answer is not 202) or differs
  in the migrated tenant's row alone, which keeps its host, VM number and addresses and only
  records the migration (then the answer is 202).
\<close>

theorem migrate_start_fail_safe:
  assumes "tenant_action c tid ''migrate'' bd w = (r, w')"
  shows "w_hosts w' = w_hosts w \<and> w_rules w' = w_rules w \<and>
    (w_tenants w' = w_tenants w \<and> (\<forall>y. r = Inr y \<longrightarrow> statusCode y \<noteq> 202) \<or>
     (\<exists>item row y. map_of (w_tenants w) tid = Some item \<and> starts_migration c tid item row \<and>
        w_tenants w' = AList.update tid row (w_tenants w) \<and> r = Inr y \<and> statusCode y = 202))"
proof -
  have same: "w_hosts w' = w_hosts w" "w_rules w' = w_rules w"
    using keepsD [OF keeps_migrate(1) assms] keepsD [OF keeps_migrate(2) assms] by (simp_all add: unchanged_def)
  from assms show ?thesis
  proof (cases rule: tenant_action_cases)
    case (taken item w1)
    from taken(5) show ?thesis
    proof (cases rule: finish_cases)
      case (raised e)
      with migrate_cases [of c tid item bd w1 "Inl e" w'] taken same show ?thesis by auto
    next
      case (answered y)
      with migrate_cases [of c tid item bd w1 "Inr y" w'] taken same show ?thesis
        by (auto simp: the_resp_def)
    qed
  qed (use same in \<open>auto simp: tenant_not_found_def\<close>)
qed

definition target_host :: host where
  "target_host = host4\<lparr>h_instance_id := ''i-2'', h_next_vm_num := Some 5\<rparr>"

definition two_vm_world :: world where
  "two_vm_world = world0\<lparr>w_tenants := [(''a-1'', placed_tenant),
     (''b-2'', placed_tenant\<lparr>t_id := ''b-2'', t_vm_num := Some 2, t_vcpu := Some 1, t_mem_mb := Some 1024\<rparr>)],
     w_hosts := [(''i-1'', full_host), (''i-2'', target_host)]\<rparr>"

definition to_i2 :: payload where
  "to_i2 = Json (JObj [(''target_host_id'', JStr ''i-2'')])"

theorem migrate_start_fail_safe_witness:
  "w_hosts (snd (tenant_action cfg0 ''a-1'' ''migrate'' to_i2 two_vm_world)) = w_hosts two_vm_world"
proof -
  have "tenant_action cfg0 ''a-1'' ''migrate'' to_i2 two_vm_world =
    (fst (tenant_action cfg0 ''a-1'' ''migrate'' to_i2 two_vm_world),
     snd (tenant_action cfg0 ''a-1'' ''migrate'' to_i2 two_vm_world))" by simp
  from migrate_start_fail_safe [OF this] show ?thesis by blast
qed

text \<open>
  Two migrations started to the same host are given the same VM number there: the number is
  read from the target's row and not reserved, so both requests are accepted and both tenants are
  to be restored under one guest address and one port. A drain starts its migrations this way.
\<close>

theorem migrations_share_vm_num:
  assumes "quiet w" "a \<noteq> b" "map_of (w_tenants w) a = Some ta" "map_of (w_tenants w) b = Some tb"
    "migrate_mode c = Some mode" "map_of (w_hosts w) hid = Some h" "h_instance_id h = hid" "hid \<noteq> []"
    "t_host_id ta = Some src" "t_host_id tb = Some src" "src \<noteq> []" "src \<noteq> hid"
    "h_status h \<notin> {Some ''draining'', Some ''deleted''}"
    "fits c h (int_attr (t_vcpu ta)) (int_attr (t_mem_mb ta))" "fits c h (int_attr (t_vcpu tb)) (int_attr (t_mem_mb tb))"
  shows "\<exists>ra rb w1 w2 xa xb. tenant_action c a ''migrate'' (Json (JObj [(''target_host_id'', JStr hid)])) w = (Inr ra, w1) \<and>
    tenant_action c b ''migrate'' (Json (JObj [(''target_host_id'', JStr hid)])) w1 = (Inr rb, w2) \<and>
    statusCode ra = 202 \<and> statusCode rb = 202 \<and>
    map_of (w_tenants w2) a = Some xa \<and> map_of (w_tenants w2) b = Some xb \<and>
    t_migration_target xa = Some hid \<and> t_migration_target xb = Some hid \<and>
    t_migration_target_vm_num xa = Some (int_attr_or (h_next_vm_num h) 1) \<and>
    t_migration_target_vm_num xb = Some (int_attr_or (h_next_vm_num h) 1)"
proof -
  obtain ra w1 sa na where m1: "tenant_action c a ''migrate'' (Json (JObj [(''target_host_id'', JStr hid)])) w = (Inr ra, w1)"
    "statusCode ra = 202" "quiet w1" "w_hosts w1 = w_hosts w"
    "w_tenants w1 = AList.update a (migrating_row hid (int_attr_or (h_next_vm_num h) 1) (Some src) sa mode
      (snapshot_uri c a) na ta) (w_tenants w)"
    using migrate_quiet [OF assms(1,3,5,6,7,8,9,11,12,13,14)] by blast
  have tb: "map_of (w_tenants w1) b = Some tb" "map_of (w_hosts w1) hid = Some h"
    using assms(2,4,6) m1(4,5) by (simp_all add: update_conv')
  obtain rb w2 sb nb where m2: "tenant_action c b ''migrate'' (Json (JObj [(''target_host_id'', JStr hid)])) w1 = (Inr rb, w2)"
    "statusCode rb = 202"
    "w_tenants w2 = AList.update b (migrating_row hid (int_attr_or (h_next_vm_num h) 1) (Some src) sb mode
      (snapshot_uri c b) nb tb) (w_tenants w1)"
    using migrate_quiet [OF m1(3) tb(1) assms(5) tb(2) assms(7,8,10,11,12,13,15)] by blast
  from m1 m2 assms(2) show ?thesis by (auto simp: update_conv' migrating_row_def)
qed

theorem migrations_share_vm_num_witness:
  "\<exists>ra rb w1 w2 xa xb. tenant_action cfg0 ''a-1'' ''migrate'' (Json (JObj [(''target_host_id'', JStr ''i-2'')])) two_vm_world = (Inr ra, w1) \<and>
    tenant_action cfg0 ''b-2'' ''migrate'' (Json (JObj [(''target_host_id'', JStr ''i-2'')])) w1 = (Inr rb, w2) \<and>
    statusCode ra = 202 \<and> statusCode rb = 202 \<and>
    map_of (w_tenants w2) ''a-1'' = Some xa \<and> map_of (w_tenants w2) ''b-2'' = Some xb \<and>
    t_migration_target xa = Some ''i-2'' \<and> t_migration_target xb = Some ''i-2'' \<and>
    t_migration_target_vm_num xa = Some (int_attr_or (h_next_vm_num target_host) 1) \<and>
    t_migration_target_vm_num xb = Some (int_attr_or (h_next_vm_num target_host) 1)"
proof (rule migrations_share_vm_num)
  show "quiet two_vm_world" "''a-1'' \<noteq> ''b-2''" "map_of (w_tenants two_vm_world) ''a-1'' = Some placed_tenant"
    "map_of (w_tenants two_vm_world) ''b-2'' =
      Some (placed_tenant\<lparr>t_id := ''b-2'', t_vm_num := Some 2, t_vcpu := Some 1, t_mem_mb := Some 1024\<rparr>)"
    "migrate_mode cfg0 = Some ''live''" "map_of (w_hosts two_vm_world) ''i-2'' = Some target_host"
    "h_instance_id target_host = ''i-2''" "''i-2'' \<noteq> ''''" "t_host_id placed_tenant = Some ''i-1''"
    "t_host_id (placed_tenant\<lparr>t_id := ''b-2'', t_vm_num := Some 2, t_vcpu := Some 1, t_mem_mb := Some 1024\<rparr>) = Some ''i-1''"
    "''i-1'' \<noteq> ''''" "''i-1'' \<noteq> ''i-2''" "h_status target_host \<notin> {Some ''draining'', Some ''deleted''}"
    "fits cfg0 target_host (int_attr (t_vcpu placed_tenant)) (int_attr (t_mem_mb placed_tenant))"
    "fits cfg0 target_host
      (int_attr (t_vcpu (placed_tenant\<lparr>t_id := ''b-2'', t_vm_num := Some 2, t_vcpu := Some 1, t_mem_mb := Some 1024\<rparr>)))
      (int_attr (t_mem_mb (placed_tenant\<lparr>t_id := ''b-2'', t_vm_num := Some 2, t_vcpu := Some 1, t_mem_mb := Some 1024\<rparr>)))"
    by code_simp+
qed

lemma cancelled_migrating:
  "clear_migration item = item \<Longrightarrow>
   cancelled_row t2 (migrating_row hid n src s mode uri t1 item) =
   item\<lparr>t_status := Some ''running'', t_migration_failed := Some ''cancelled by operator'', t_updated_at := Some (At t2)\<rparr>"
  by (cases item) (simp add: cancelled_row_def clear_migration_def migrating_row_def)

lemma cancel_quiet:
  assumes "quiet w" "map_of (w_tenants w) tid = Some item" "t_status item = Some ''migrating''"
  shows "\<exists>r w' t. tenant_action c tid ''cancel-migration'' bd w = (Inr r, w') \<and> statusCode r = 200 \<and>
    w_hosts w' = w_hosts w \<and> w_tenants w' = AList.update tid (cancelled_row t item) (w_tenants w)"
proof -
  let ?w1 = "w\<lparr>w_tenants := AList.update tid (cancelled_row (w_now w) item) (w_tenants w)\<rparr>"
  have u: "update_tenant tid no_cond (set_attrs (cancelled_row (w_now w))) w =
      (Inr (cancelled_row (w_now w) item), ?w1)"
    using set_tenant_quiet [OF assms(1), of tid "cancelled_row (w_now w)"] assms(2) by simp
  have "quiet ?w1" using assms(1) by (simp add: quiet_def)
  then obtain x w2 where p: "publish_event c ''migration.cancelled'' tid (JObj []) ?w1 = (Inr x, w2)"
      "w_tenants w2 = w_tenants ?w1" "w_hosts w2 = w_hosts ?w1"
    using calmD [OF calm_publish_event] by blast
  have "cancel_migration c tid item w = (Inr (Inr (mk_resp 200 (JObj [(''id'', JStr tid), (''status'', JStr ''running''),
      (''message'', JStr ''migration cancelled; tenant remains on source host'')]))), w2)"
    using assms(3) u p(1) by (simp add: cancel_migration_def io_simps now_quiet)
  then show ?thesis
    using tenant_action_known [OF assms(1,2), of c "''cancel-migration''" bd] p
    by (auto simp: finish_apply the_resp_def)
qed

text \<open>
  Cancelling a migration undoes its start: the row ends as it was, with the status running,
  the note that the operator cancelled and the time, whatever its status was before.
\<close>

theorem cancel_undoes_migrate:
  assumes "quiet w" "map_of (w_tenants w) tid = Some item" "migrate_mode c = Some mode"
    "map_of (w_hosts w) hid = Some h" "h_instance_id h = hid" "hid \<noteq> []"
    "t_host_id item = Some src" "src \<noteq> []" "src \<noteq> hid" "h_status h \<notin> {Some ''draining'', Some ''deleted''}"
    "fits c h (int_attr (t_vcpu item)) (int_attr (t_mem_mb item))" "clear_migration item = item"
  shows "\<exists>r1 w1 r2 w2 t. tenant_action c tid ''migrate'' (Json (JObj [(''target_host_id'', JStr hid)])) w = (Inr r1, w1) \<and>
    tenant_action c tid ''cancel-migration'' NoBody w1 = (Inr r2, w2) \<and> statusCode r2 = 200 \<and>
    w_hosts w2 = w_hosts w \<and> w_tenants w2 = AList.update tid (item\<lparr>t_status := Some ''running'',
      t_migration_failed := Some ''cancelled by operator'', t_updated_at := Some (At t)\<rparr>) (w_tenants w)"
proof -
  obtain r1 w1 s n where m: "tenant_action c tid ''migrate'' (Json (JObj [(''target_host_id'', JStr hid)])) w = (Inr r1, w1)"
    "quiet w1" "w_hosts w1 = w_hosts w"
    "w_tenants w1 = AList.update tid (migrating_row hid (int_attr_or (h_next_vm_num h) 1) (Some src) s mode
      (snapshot_uri c tid) n item) (w_tenants w)"
    using migrate_quiet [OF assms(1-11)] by blast
  let ?row = "migrating_row hid (int_attr_or (h_next_vm_num h) 1) (Some src) s mode (snapshot_uri c tid) n item"
  have "map_of (w_tenants w1) tid = Some ?row" "t_status ?row = Some ''migrating''"
    by (simp_all add: m(4) update_conv' migrating_row_def)
  from cancel_quiet [OF m(2) this] obtain r2 w2 t where
    k: "tenant_action c tid ''cancel-migration'' NoBody w1 = (Inr r2, w2)" "statusCode r2 = 200"
      "w_hosts w2 = w_hosts w1" "w_tenants w2 = AList.update tid (cancelled_row t ?row) (w_tenants w1)" by blast
  have "w_tenants w2 = AList.update tid (cancelled_row t ?row) (w_tenants w)"
    by (simp add: k(4) m(4) update_last)
  with m k cancelled_migrating [OF assms(12)] show ?thesis by metis
qed

theorem cancel_undoes_migrate_witness:
  "\<exists>r1 w1 r2 w2 t. tenant_action cfg0 ''a-1'' ''migrate'' (Json (JObj [(''target_host_id'', JStr ''i-2'')])) two_vm_world = (Inr r1, w1) \<and>
    tenant_action cfg0 ''a-1'' ''cancel-migration'' NoBody w1 = (Inr r2, w2) \<and> statusCode r2 = 200 \<and>
    w_hosts w2 = w_hosts two_vm_world \<and> w_tenants w2 = AList.update ''a-1'' (placed_tenant\<lparr>t_status := Some ''running'',
      t_migration_failed := Some ''cancelled by operator'', t_updated_at := Some (At t)\<rparr>) (w_tenants two_vm_world)"
proof (rule cancel_undoes_migrate)
  show "quiet two_vm_world" "map_of (w_tenants two_vm_world) ''a-1'' = Some placed_tenant" "migrate_mode cfg0 = Some ''live''"
    "map_of (w_hosts two_vm_world) ''i-2'' = Some target_host" "h_instance_id target_host = ''i-2''" "''i-2'' \<noteq> ''''"
    "t_host_id placed_tenant = Some ''i-1''" "''i-1'' \<noteq> ''''" "''i-1'' \<noteq> ''i-2''"
    "h_status target_host \<notin> {Some ''draining'', Some ''deleted''}"
    "fits cfg0 target_host (int_attr (t_vcpu placed_tenant)) (int_attr (t_mem_mb placed_tenant))"
    "clear_migration placed_tenant = placed_tenant"
    by code_simp+
qed

lemma ssm_run_success_quiet:
  assumes "quiet w" "w_replies w = Reply ''Success'' out err # rs"
  shows "\<exists>w1. ssm_run i cmd t w = (Inr True, w1) \<and> quiet w1 \<and> w_tenants w1 = w_tenants w \<and> w_hosts w1 = w_hosts w"
  using run_success_quiet [OF assms, of i cmd t 3 2] by (auto simp: ssm_run_def io_simps)

lemma resize_checks_reads: "quiet w \<Longrightarrow> resize_checks c tid n w = (y, w') \<Longrightarrow> w' = w"
  unfolding resize_checks_def
  by (auto simp: io_simps Let_def get_tenant_quiet get_host_quiet split: if_splits sum.splits option.splits)

lemma resize_quiet:
  assumes q: "quiet w" and reply: "w_replies w = Reply ''Success'' out err # rs"
    and item: "map_of (w_tenants w) tid = Some item" "t_host_id item = Some hid" "map_of (w_hosts w) hid = Some h"
    and wants: "fst (wanted_vcpu bd w) = Inr (Inr n)" "fst (resize_checks c tid n w) = Inr (Inr (item, h))"
    and m: "t_mem_mb item = Some mem" "add_vcpu (n - int_attr (t_vcpu item)) h = Inr h'"
  shows "\<exists>r w'. tenant_action c tid ''resize'' bd w = (Inr r, w') \<and> statusCode r = 200"
proof -
  have s1: "wanted_vcpu bd w = (Inr (Inr n), w)" "resize_checks c tid n w = (Inr (Inr (item, h)), w)"
    using wants wanted_vcpu_same resize_checks_reads q by (metis prod.collapse)+
  obtain w1 where s2: "ssm_run hid (machine_config_text tid n mem) 30 w = (Inr True, w1)" "quiet w1"
      "w_tenants w1 = w_tenants w" "w_hosts w1 = w_hosts w"
    using ssm_run_success_quiet [OF q reply] by blast
  let ?f = "\<lambda>r. r\<lparr>t_vcpu := Some n, t_updated_at := Some (At (w_now w1))\<rparr>"
  let ?w2 = "w1\<lparr>w_tenants := AList.update tid (?f item) (w_tenants w1)\<rparr>"
  have s3: "update_tenant tid no_cond (set_attrs ?f) w1 = (Inr (?f item), ?w2)"
    using set_tenant_quiet [OF s2(2), of tid ?f] item s2 by (simp add: tenant_or_fresh_def)
  have "quiet ?w2" "host_or_fresh ?w2 hid = h" using s2 item(3) by (simp_all add: quiet_def host_or_fresh_def)
  then have s4: "fst (update_host hid no_cond (add_vcpu (n - int_attr (t_vcpu item))) ?w2) = Inr h'"
    using update_host_quiet m(2) by simp
  obtain r where r: "fst (tenant_resize c tid bd w) = Inr (Inr r)" "statusCode r = 200"
    using s1 s2(1) s3 s4 item(2) m(1)
    by (simp add: tenant_resize_def io_simps Let_def opt_str_def required_def now_quiet)
  then show ?thesis
    using tenant_action_known [OF q item(1), of c "''resize''" bd]
    by (simp add: finish_apply the_resp_def)
qed

text \<open>
  A vCPU resize that is answered 200 books exactly what it grants: the tenant's row gets the
  new vCPU count and the host's row the difference, the host stays within its overcommitted vCPU
  capacity as it was read, and no other row and no other attribute changes.
\<close>

theorem resize_books_the_difference:
  assumes "tenant_action c tid ''resize'' bd w = (Inr r, w')" "statusCode r = 200"
  shows "\<exists>item h n total used t. map_of (w_tenants w) tid = Some item \<and>
    map_of (w_hosts w) (opt_str (t_host_id item)) = Some h \<and>
    h_total_vcpu h = Some total \<and> h_used_vcpu h = Some used \<and>
    int_attr (t_vcpu item) < n \<and> used + (n - int_attr (t_vcpu item)) \<le> scaled total (cpu_overcommit c) \<and>
    w_tenants w' = AList.update tid (item\<lparr>t_vcpu := Some n, t_updated_at := Some (At t)\<rparr>) (w_tenants w) \<and>
    w_hosts w' = AList.update (opt_str (t_host_id item))
      (h\<lparr>h_used_vcpu := Some (used + (n - int_attr (t_vcpu item)))\<rparr>) (w_hosts w)"
  using assms(1)
proof (cases rule: tenant_action_cases)
  case (taken item w1)
  from taken(5) obtain y where y: "tenant_resize c tid bd w1 = (Inr y, w')" "r = the_resp y"
    by (cases rule: finish_cases) auto
  have "stops_in {400, 404, 502} (tenant_resize c tid bd)"
    unfolding tenant_resize_def wanted_vcpu_def resize_checks_def Let_def missing_body_def tenant_not_found_def
    by (intro stops_rules stops_branches) simp_all
  then obtain z where "y = Inr z" using y assms(2) by (cases y) (fastforce simp: stops_in_def the_resp_def)+
  with tenant_resize_200 [of c tid bd w1 z w'] y taken show ?thesis by simp
qed (use assms(2) in \<open>auto simp: tenant_not_found_def\<close>)

definition answered_world :: world where
  "answered_world = one_vm_world\<lparr>w_replies := [Reply ''Success'' '''' '''']\<rparr>"

theorem resize_books_the_difference_witness:
  "\<exists>r w'. tenant_action cfg0 ''a-1'' ''resize'' (Json (JObj [(''vcpu'', JInt 3)])) answered_world = (Inr r, w') \<and>
    statusCode r = 200 \<and> (\<exists>n. w_hosts w' = AList.update ''i-1'' (full_host\<lparr>h_used_vcpu := Some n\<rparr>) (w_hosts answered_world))"
proof -
  let ?bd = "Json (JObj [(''vcpu'', JInt 3)])"
  have q: "quiet answered_world" "w_replies answered_world = [Reply ''Success'' '''' '''']"
    "map_of (w_tenants answered_world) ''a-1'' = Some placed_tenant" "t_host_id placed_tenant = Some ''i-1''"
    "map_of (w_hosts answered_world) ''i-1'' = Some full_host"
    "fst (wanted_vcpu ?bd answered_world) = Inr (Inr 3)"
    "fst (resize_checks cfg0 ''a-1'' 3 answered_world) = Inr (Inr (placed_tenant, full_host))"
    "t_mem_mb placed_tenant = Some 4096" "add_vcpu (3 - int_attr (t_vcpu placed_tenant)) full_host = Inr (full_host\<lparr>h_used_vcpu := Some 3\<rparr>)"
    by code_simp+
  obtain r w' where run: "tenant_action cfg0 ''a-1'' ''resize'' ?bd answered_world = (Inr r, w')" "statusCode r = 200"
    using resize_quiet [OF q] by blast
  from resize_books_the_difference [OF run] obtain item h n where
    "map_of (w_tenants answered_world) ''a-1'' = Some item"
    "map_of (w_hosts answered_world) (opt_str (t_host_id item)) = Some h"
    "w_hosts w' = AList.update (opt_str (t_host_id item)) (h\<lparr>h_used_vcpu := Some n\<rparr>) (w_hosts answered_world)"
    by blast
  with run q(3,4,5) show ?thesis by (auto simp: opt_str_def)
qed

text \<open>
  The recorded disk size only ever follows the disk: after a disk resize, whatever fails on
  the way, the tenant table is unchanged, or the host has reported success and the row alone has a
  new size, larger than before and at most one TiB.
\<close>

theorem resize_disk_truthful:
  assumes "tenant_action c tid ''resize-disk'' bd w = (r, w')"
  shows "w_tenants w' = w_tenants w \<or>
    (\<exists>item row out err. map_of (w_tenants w) tid = Some item \<and> disk_grown c item row \<and>
      w_tenants w' = AList.update tid row (w_tenants w) \<and> decided_by (Reply ''Success'' out err) w w')"
  using assms
proof (cases rule: tenant_action_cases)
  case (taken item w1)
  from taken(5) obtain q where "resize_disk c tid item bd w1 = (q, w')"
    by (cases rule: finish_cases) auto
  from resize_disk_cases [OF this] taken(1,2) have "w_tenants w' = w_tenants w1 \<or> (\<exists>row. disk_grown c item row \<and>
    w_tenants w' = AList.update tid row (w_tenants w1) \<and> (\<exists>out err. decided_by (Reply ''Success'' out err) w1 w'))"
    by simp
  then show ?thesis
  proof (elim disjE exE conjE)
    fix row out err
    assume d: "disk_grown c item row" "w_tenants w' = AList.update tid row (w_tenants w1)"
      "decided_by (Reply ''Success'' out err) w1 w'"
    have "decided_by (Reply ''Success'' out err) w w'"
      using decided_by_replies [OF d(3)] taken(4) by simp
    with d taken(1,2) show ?thesis by auto
  qed (use taken in simp_all)
qed auto

lemma resize_disk_quiet:
  assumes "quiet w" "w_replies w = Reply ''Success'' out err # rs" "map_of (w_tenants w) tid = Some item"
    "t_host_id item = Some hid" "hid \<noteq> []" "int_attr_or (t_data_disk_mb item) (vm_data_disk_mb c) < n" "n \<le> 1024 * 1024"
  shows "\<exists>r w' t. tenant_action c tid ''resize-disk'' (Json (JObj [(''new_size_mb'', JInt n)])) w = (Inr r, w') \<and>
    w_tenants w' = AList.update tid (item\<lparr>t_data_disk_mb := Some n, t_updated_at := Some (At t)\<rparr>) (w_tenants w)"
proof -
  let ?bd = "Json (JObj [(''new_size_mb'', JInt n)])"
  let ?cmd = "''/home/ubuntu/resize-disk.sh '' @ tid @ '' '' @ show_int (int_attr_or (t_vm_num item) 1) @ '' '' @ json_str (JInt n)"
  obtain w1 where s: "ssm_run hid ?cmd 120 w = (Inr True, w1)" "quiet w1" "w_tenants w1 = w_tenants w"
    using ssm_run_success_quiet [OF assms(1,2)] by blast
  let ?f = "\<lambda>r. r\<lparr>t_data_disk_mb := Some n, t_updated_at := Some (At (w_now w1))\<rparr>"
  have u: "update_tenant tid no_cond (set_attrs ?f) w1 =
      (Inr (?f item), w1\<lparr>w_tenants := AList.update tid (?f item) (w_tenants w1)\<rparr>)"
    using set_tenant_quiet [OF s(2), of tid ?f] assms(3) s(3) by (simp add: tenant_or_fresh_def)
  have "\<exists>r. resize_disk c tid item ?bd w = (Inr (Inr r), w1\<lparr>w_tenants := AList.update tid (?f item) (w_tenants w1)\<rparr>)"
    using s(1) u assms(4-7)
    by (simp add: resize_disk_def io_simps Let_def lenient_body_def get_or_def opt_str_def now_quiet)
  then show ?thesis
    using tenant_action_known [OF assms(1,3), of c "''resize-disk''" ?bd] s(3)
    by (auto simp: finish_apply the_resp_def)
qed

theorem resize_disk_truthful_witness:
  "\<exists>r w' out err. tenant_action cfg0 ''a-1'' ''resize-disk'' (Json (JObj [(''new_size_mb'', JInt 4096)])) answered_world = (r, w') \<and>
    decided_by (Reply ''Success'' out err) answered_world w'"
proof -
  have h: "quiet answered_world" "w_replies answered_world = [Reply ''Success'' '''' '''']"
    "map_of (w_tenants answered_world) ''a-1'' = Some placed_tenant" "t_host_id placed_tenant = Some ''i-1''" "''i-1'' \<noteq> ''''"
    "int_attr_or (t_data_disk_mb placed_tenant) (vm_data_disk_mb cfg0) < 4096" "(4096::int) \<le> 1024 * 1024"
    "t_data_disk_mb placed_tenant = None"
    by code_simp+
  obtain r w' t where run: "tenant_action cfg0 ''a-1'' ''resize-disk'' (Json (JObj [(''new_size_mb'', JInt 4096)])) answered_world = (Inr r, w')"
    "w_tenants w' = AList.update ''a-1'' (placed_tenant\<lparr>t_data_disk_mb := Some 4096, t_updated_at := Some (At t)\<rparr>) (w_tenants answered_world)"
    using resize_disk_quiet [OF h(1-7)] by blast
  let ?row = "placed_tenant\<lparr>t_data_disk_mb := Some 4096, t_updated_at := Some (At t)\<rparr>"
  have "?row \<noteq> placed_tenant"
  proof
    assume "?row = placed_tenant"
    then have "t_data_disk_mb ?row = t_data_disk_mb placed_tenant" by (rule arg_cong)
    with h(8) show False by simp
  qed
  then have "map_of (w_tenants w') ''a-1'' \<noteq> map_of (w_tenants answered_world) ''a-1''"
    using run(2) h(3) by (simp add: update_conv')
  then have "w_tenants w' \<noteq> w_tenants answered_world" by metis
  with resize_disk_truthful [OF run(1)] run(1) show ?thesis by blast
qed

text \<open>
  A batch accounts for every tenant asked for: it always finishes, whatever call fails, with
  one outcome for each id, in their order; the succeeded and the failed ones together are the ids.
\<close>

theorem batch_accounts_for_all:
  "\<exists>rs w'. batch_run c action tids w = (Inr rs, w') \<and> map outcome_id rs = tids \<and>
     mset (succeeded_ids rs) + mset (map fst (failed_ids rs)) = mset tids"
proof -
  obtain rs w' where run: "batch_run c action tids w = (Inr rs, w')" "map outcome_id rs = tids"
    using batch_run_total by blast
  have "mset (succeeded_ids rs) + mset (map fst (failed_ids rs)) = mset (map outcome_id rs)"
    by (induction rs) (auto simp: succeeded_ids_def failed_ids_def List.map_filter_simps split: outcome.split)
  with run show ?thesis by simp
qed

end
