(* ===== verification/Fleet.thy ===== *)
theory Fleet
  imports Actions
begin

text \<open>
  Evacuating and tearing down hosts (api/handler.py): the drain, the manual failover, the cleanup
  after a termination, the refresh of the root file system, and the static information endpoints.
  Environment variables that only these endpoints read are an argument \<open>env\<close>.
\<close>

section \<open>Drain\<close>

definition on_host :: "string \<Rightarrow> tenant \<Rightarrow> bool" where
  "on_host i t = (t_host_id t = Some i)"

datatype drain_step = Started string string | NotStarted string json

text \<open>One tenant of a drained host: a target is looked up and its migration requested.\<close>

definition drain_one :: "cfg \<Rightarrow> string \<Rightarrow> tenant \<Rightarrow> (world, drain_step) io" where
  "drain_one c i t =
     andThen (find_host c (int_attr (t_vcpu t)) (int_attr (t_mem_mb t))) (\<lambda>target. case target of
       None \<Rightarrow> ok (NotStarted (t_id t) (JStr ''no target host with capacity''))
     | Some h \<Rightarrow>
         if h_instance_id h = i then ok (NotStarted (t_id t) (JStr ''no target host with capacity''))
         else andThen (tenant_action c (t_id t) ''migrate'' (Json (JObj [(''target_host_id'', JStr (h_instance_id h))]))) (\<lambda>r.
           ok (if statusCode r = 202 then Started (t_id t) (h_instance_id h)
               else NotStarted (t_id t) (body_error r ''migrate failed''))))"

primrec drain_all :: "cfg \<Rightarrow> string \<Rightarrow> tenant list \<Rightarrow> (world, drain_step list) io" where
  "drain_all c i [] = ok []"
| "drain_all c i (t # ts) = andThen (drain_one c i t) (\<lambda>s. andThen (drain_all c i ts) (\<lambda>ss. ok (s # ss)))"

definition started_json :: "drain_step list \<Rightarrow> json" where
  "started_json ss = JList (List.map_filter (\<lambda>s. case s of
     Started i h \<Rightarrow> Some (JObj [(''id'', JStr i), (''target'', JStr h)]) | NotStarted i e \<Rightarrow> None) ss)"

definition not_started_json :: "drain_step list \<Rightarrow> json" where
  "not_started_json ss = JList (List.map_filter (\<lambda>s. case s of
     Started i h \<Rightarrow> None | NotStarted i e \<Rightarrow> Some (JObj [(''id'', JStr i), (''error'', e)])) ss)"

definition drain_host :: "cfg \<Rightarrow> string \<Rightarrow> (world, resp) io" where
  "drain_host c i = andThen (get_host_row i) (\<lambda>host. case host of
       None \<Rightarrow> ok (err_resp 404 (''host '' @ i @ '' not found''))
     | Some _ \<Rightarrow>
         andThen (scan_all w_tenants (\<lambda>t. on_host i t \<and> t_status t = Some ''running'')) (\<lambda>tenants.
         andThen now (\<lambda>n.
         andThen (update_host i no_cond (set_attrs (\<lambda>h. h\<lparr>h_status := Some ''draining'', h_updated_at := Some (At n)\<rparr>))) (\<lambda>_.
         andThen (drain_all c i tenants) (\<lambda>steps.
         andThen (audit_system c ''host.drain_started'' (''host:'' @ i) i ''api''
            (Some (JObj [(''migrations'', started_json steps), (''failed'', not_started_json steps)]))) (\<lambda>_.
         ok (mk_resp (if started_json steps \<noteq> JList [] \<or> tenants = [] then 202 else 409) (JObj [
            (''instance_id'', JStr i), (''status'', JStr ''draining''),
            (''migrations_started'', started_json steps), (''failed'', not_started_json steps),
            (''message'', JStr ''host will be empty once migrations complete; terminate it then (DELETE /hosts/{id}) - it will NOT hard-delete tenants'')]))))))))"

definition trigger_failover :: "cfg \<Rightarrow> string \<Rightarrow> (world, resp) io" where
  "trigger_failover c az = (if health_check_function c = []
     then ok (err_resp 501 ''manual failover unavailable (HEALTH_CHECK_FUNCTION not configured)'')
     else andThen (try_except
         (andThen (invoke_lambda (health_check_function c) (JObj [(''manual_failover_az'', JStr az)])) (\<lambda>_. ok None))
         (\<lambda>e. ok (Some (err_resp 502 (''failed to invoke health check: '' @ exn_str e))))) (\<lambda>failed.
       case failed of Some r \<Rightarrow> ok r
       | None \<Rightarrow> andThen (audit_system c ''az.failover_requested'' (''az:'' @ az) az ''api'' None) (\<lambda>_.
           ok (mk_resp 202 (JObj [(''az'', JStr az), (''status'', JStr ''failover_triggered''),
             (''message'', JStr ''health-check sweep invoked; poll tenants for recovery'')])))))"

section \<open>After a termination\<close>

definition reap_tenant :: "cfg \<Rightarrow> tenant \<Rightarrow> (world, unit) io" where
  "reap_tenant c t = andThen (remove_alb_rule c (t_id t)) (\<lambda>_. mark_deleted (t_id t))"

text \<open>The hook's name is absent in an event that does not come from the lifecycle hook.\<close>

definition complete_hook :: "string option \<Rightarrow> string \<Rightarrow> (world, unit) io" where
  "complete_hook hook i = best_effort (andThen (lift_sum (required ''LifecycleHookName'' hook)) (\<lambda>_.
     aws (modify (\<lambda>w. w\<lparr>w_completed := w_completed w @ [i]\<rparr>))))"

definition cleanup_terminated_host :: "cfg \<Rightarrow> string \<Rightarrow> string option \<Rightarrow> (world, unit) io" where
  "cleanup_terminated_host c i hook =
     andThen (scan_all w_tenants (\<lambda>t. on_host i t \<and> not_deleted t)) (\<lambda>tenants.
     andThen (for_each tenants (reap_tenant c)) (\<lambda>_.
     andThen (remove_host_tg c i) (\<lambda>_.
     andThen (delete_host_row i) (\<lambda>_.
     andThen (audit_system c ''host.terminated'' (''host:'' @ i) i ''system:asg-lifecycle''
        (Some (JObj [(''instance_id'', JStr i), (''tenants_reaped'', JList (map (\<lambda>t. JStr (t_id t)) tenants))]))) (\<lambda>_.
     complete_hook hook i)))))"

section \<open>Static information\<close>

definition env_or :: "(string \<Rightarrow> string option) \<Rightarrow> string \<Rightarrow> string \<Rightarrow> string" where
  "env_or env k d = (case env k of None \<Rightarrow> d | Some v \<Rightarrow> v)"

definition env_true :: "(string \<Rightarrow> string option) \<Rightarrow> string \<Rightarrow> bool" where
  "env_true env k = (env_or env k ''false'' = ''true'')"

text \<open>\<open>s or None\<close>.\<close>

definition or_null :: "string \<Rightarrow> json" where
  "or_null s = (if s = [] then JNull else JStr s)"

text \<open>The manifest, or an empty dict when anything goes wrong; \<open>parse\<close> is \<open>json.loads\<close>.\<close>

definition get_manifest :: "(string \<Rightarrow> json option) \<Rightarrow> (string \<Rightarrow> string option) \<Rightarrow> (world, json) io" where
  "get_manifest parse env = try_except
     (andThen (get_object (env_or env ''ROOTFS_PREFIX'' ''rootfs'' @ ''/manifest.json'')) (\<lambda>ob.
      case parse (o_text ob) of None \<Rightarrow> raise json_decode_error | Some j \<Rightarrow> ok j))
     (\<lambda>_. ok (JObj []))"

definition rootfs_version :: "(string \<Rightarrow> json option) \<Rightarrow> (string \<Rightarrow> string option) \<Rightarrow> (world, resp) io" where
  "rootfs_version parse env = andThen (get_manifest parse env) (\<lambda>manifest.
     andThen (lift_sum (get_or manifest ''version'' (JStr ''unknown''))) (\<lambda>v.
     ok (mk_resp 200 (JObj [(''version'', v)]))))"

definition agentcore_status :: "(string \<Rightarrow> string option) \<Rightarrow> (world, resp) io" where
  "agentcore_status env = ok (mk_resp 200 (JObj [(''enabled'', JBool (env_true env ''AGENTCORE_ENABLED'')),
     (''gateway_url'', if env_true env ''AGENTCORE_ENABLED'' then JStr (env_or env ''AGENTCORE_GATEWAY_URL'' '''') else JNull)]))"

definition agentcore_builtin_tools :: json where
  "agentcore_builtin_tools = JList [
     JObj [(''name'', JStr ''hello''),
       (''description'', JStr ''Say hello - test tool for verifying AgentCore Gateway connectivity''),
       (''input_schema'', JObj [(''type'', JStr ''object''), (''properties'', JObj [(''name'',
          JObj [(''type'', JStr ''string''), (''description'', JStr ''Name to greet'')])])])],
     JObj [(''name'', JStr ''system_info''), (''description'', JStr ''Get Lambda runtime system information''),
       (''input_schema'', JObj [(''type'', JStr ''object'')])],
     JObj [(''name'', JStr ''timestamp''), (''description'', JStr ''Get current UTC timestamp''),
       (''input_schema'', JObj [(''type'', JStr ''object''), (''properties'', JObj [(''format'',
          JObj [(''type'', JStr ''string''), (''description'', JStr ''iso or unix'')])])])]]"

definition agentcore_tools :: "(string \<Rightarrow> string option) \<Rightarrow> (world, resp) io" where
  "agentcore_tools env = (if \<not> env_true env ''AGENTCORE_ENABLED''
     then ok (mk_resp 200 (JObj [(''enabled'', JBool False), (''tools'', JList [])]))
     else ok (mk_resp 200 (JObj [(''enabled'', JBool True), (''tools'', agentcore_builtin_tools)])))"

definition system_info :: "cfg \<Rightarrow> (string \<Rightarrow> string option) \<Rightarrow> (world, resp) io" where
  "system_info c env =
     andThen (lift_sum (py_int (JStr (if env_or env ''MULTI_AZ_COUNT'' ''1'' = [] then ''1''
        else env_or env ''MULTI_AZ_COUNT'' ''1'')))) (\<lambda>az_count.
     ok (mk_resp 200 (JObj [
       (''version'', JStr (env_or env ''PROJECT_VERSION'' ''dev'')),
       (''region'', JStr (env_or env ''AWS_REGION'' '''')),
       (''agentcore'', JObj [(''enabled'', JBool (env_true env ''AGENTCORE_ENABLED'')),
          (''gateway_url'', or_null (env_or env ''AGENTCORE_GATEWAY_URL'' ''''))]),
       (''metrics'', JObj [(''enabled'', JBool (env_or env ''AMP_REMOTE_WRITE_URL'' '''' \<noteq> [])),
          (''amp_remote_write_url'', or_null (env_or env ''AMP_REMOTE_WRITE_URL'' '''')),
          (''grafana_url'', or_null (env_or env ''GRAFANA_WORKSPACE_URL'' ''''))]),
       (''multi_az'', JObj [(''enabled'', JBool (env_true env ''MULTI_AZ_ENABLED'')), (''az_count'', JInt az_count)]),
       (''waf'', JObj [(''enabled'', JBool (env_true env ''WAF_ENABLED''))]),
       (''cognito'', JObj [(''enabled'', JBool (env_true env ''CONSOLE_AUTH_ENABLED'')),
          (''user_pool_id'', or_null (env_or env ''COGNITO_USER_POOL_ID'' '''')),
          (''rbac_enabled'', JBool (rbac_enabled c))]),
       (''notifications'', JObj [(''enabled'', JBool (notifications_topic c \<noteq> [])),
          (''topic_arn'', or_null (notifications_topic c))]),
       (''quotas'', JObj [(''enabled'', JBool (quotas_enabled c)),
          (''max_vcpu_per_tenant'', JInt (quotas_max_vcpu c)), (''max_mem_mb_per_tenant'', JInt (quotas_max_mem c)),
          (''max_data_disk_mb'', JInt (quotas_max_disk c))]),
       (''host_config'', JObj [(''cpu_overcommit_ratio'', JFloat (cpu_overcommit c)),
          (''mem_overcommit_ratio'', JFloat (mem_overcommit c)), (''vm_default_vcpu'', JInt (vm_default_vcpu c)),
          (''vm_default_mem_mb'', JInt (vm_default_mem c))])])))"

section \<open>Refreshing the root file system\<close>

text \<open>\<open>d["k"]\<close>: raises for a missing key, and for a value that is not a dict.\<close>

fun json_item :: "json \<Rightarrow> string \<Rightarrow> exn + json" where
  "json_item (JObj kvs) k = (case map_of kvs k of None \<Rightarrow> Inl (key_error k) | Some v \<Rightarrow> Inr v)"
| "json_item v k = Inl (PyError TypeError ''indices must be integers or slices, not str'')"

text \<open>A line of the script, with its double quotes written as \<open>~\<close>.\<close>

definition sh :: "string \<Rightarrow> string" where
  "sh s = map (\<lambda>ch. if ch = CHR ''~'' then CHR 0x22 else ch) s"

definition refresh_script :: "cfg \<Rightarrow> (string \<Rightarrow> string option) \<Rightarrow> json \<Rightarrow> json \<Rightarrow> string" where
  "refresh_script c env rootfs data_template = join [newline] [
     ''set -euo pipefail'', ''ASSETS=/data/firecracker-assets'', ''BUCKET='' @ assets_bucket c,
     ''PREFIX='' @ env_or env ''ROOTFS_PREFIX'' ''rootfs'', ''REGION='' @ env_or env ''AWS_REGION'' ''ap-northeast-1'',
     ''ROOTFS_GZ='' @ json_str rootfs, ''DATA_GZ='' @ json_str data_template,
     sh ''aws s3 cp ~s3://$BUCKET/$PREFIX/manifest.json~ ~$ASSETS/manifest.json~ --region ~$REGION~'',
     sh ''aws s3 cp ~s3://$BUCKET/$PREFIX/$ROOTFS_GZ~ ~$ASSETS/rootfs.gz~ --region ~$REGION~'',
     sh ''aws s3 cp ~s3://$BUCKET/$PREFIX/$DATA_GZ~ ~$ASSETS/data.gz~ --region ~$REGION~'',
     sh ''pigz -dc ~$ASSETS/rootfs.gz~ > ~$ASSETS/openclaw-rootfs.ext4.tmp~'',
     sh ''[ -s ~$ASSETS/openclaw-rootfs.ext4.tmp~ ]'',
     sh ''mv ~$ASSETS/openclaw-rootfs.ext4.tmp~ ~$ASSETS/openclaw-rootfs.ext4~'',
     sh ''rm -f ~$ASSETS/rootfs.gz~'',
     sh ''pigz -dc ~$ASSETS/data.gz~ > ~$ASSETS/openclaw-data-template.ext4.tmp~'',
     sh ''[ -s ~$ASSETS/openclaw-data-template.ext4.tmp~ ]'',
     sh ''mv ~$ASSETS/openclaw-data-template.ext4.tmp~ ~$ASSETS/openclaw-data-template.ext4~'',
     sh ''rm -f ~$ASSETS/data.gz~'',
     sh ''fallocate --dig-holes ~$ASSETS/openclaw-data-template.ext4~'']"

definition mark_rootfs :: "json \<Rightarrow> string \<Rightarrow> (world, unit) io" where
  "mark_rootfs version i = andThen (update_host i no_cond
     (set_attrs (\<lambda>h. h\<lparr>h_rootfs_version := Some (json_str version)\<rparr>))) (\<lambda>_. ok ())"

definition refresh_rootfs :: "cfg \<Rightarrow> (string \<Rightarrow> json option) \<Rightarrow> (string \<Rightarrow> string option) \<Rightarrow> (world, resp) io" where
  "refresh_rootfs c parse env = andThen (get_manifest parse env) (\<lambda>manifest.
     if \<not> truthy manifest then ok (err_resp 500 ''manifest.json not found'')
     else andThen (lift_sum (json_item manifest ''version'')) (\<lambda>version.
       andThen (scan_all w_hosts open_host) (\<lambda>hosts.
       if hosts = [] then ok (mk_resp 200 (JObj [(''message'', JStr ''no active hosts''), (''updated'', JInt 0)]))
       else let ids = map h_instance_id hosts in
         andThen (lift_sum (json_item manifest ''rootfs'')) (\<lambda>rootfs.
         andThen (lift_sum (json_item manifest ''data_template'')) (\<lambda>data_template.
         andThen (try_except (andThen (raw_send_command ids (refresh_script c env rootfs data_template) 600) (\<lambda>_. ok None))
            (\<lambda>e. ok (Some (err_resp 500 (exn_str e))))) (\<lambda>failed. case failed of
           Some r \<Rightarrow> ok r
         | None \<Rightarrow> andThen (for_each ids (mark_rootfs version)) (\<lambda>_.
             ok (mk_resp 200 (JObj [(''message'', JStr ''refresh started''), (''version'', version),
               (''hosts'', JList (map JStr ids))])))))))))"

section \<open>Lemmas on the teardown\<close>

definition reaped :: "tenant \<Rightarrow> tenant \<Rightarrow> bool" where
  "reaped t t' = (\<exists>n. t' = t\<lparr>t_status := Some ''deleted'', t_updated_at := Some (At n)\<rparr>)"

lemma reap_quiet:
  assumes "quiet w" "map_of (w_tenants w) (t_id t) = Some r"
  shows "\<exists>w1 r'. reap_tenant c t w = (Inr (), w1) \<and> quiet w1 \<and> w_hosts w1 = w_hosts w \<and> reaped r r' \<and>
    map_of (w_tenants w1) = (map_of (w_tenants w))(t_id t \<mapsto> r')"
proof -
  obtain x w1 where s1: "remove_alb_rule c (t_id t) w = (Inr x, w1)" "quiet w1"
      "w_tenants w1 = w_tenants w" "w_hosts w1 = w_hosts w"
    using calmD [OF calm_remove_alb_rule assms(1)] by blast
  have "map_of (w_tenants w1) (t_id t) = Some r" using assms(2) s1(3) by simp
  from mark_deleted_quiet [OF s1(2) this] s1 show ?thesis
    by (fastforce simp: reap_tenant_def andThen_apply reaped_def)
qed

interpretation reaping: row_sweep "unchanged w_hosts" "reap_tenant c" reaped for c
proof unfold_locales
  fix w t
  assume "quiet w" "map_of (w_tenants w) (t_id t) = Some t"
  from reap_quiet [OF this] show "\<exists>w1 t'. reap_tenant c t w = (Inr (), w1) \<and> quiet w1 \<and> unchanged w_hosts w w1 \<and>
      reaped t t' \<and> map_of (w_tenants w1) = (map_of (w_tenants w))(t_id t \<mapsto> t')"
    by (auto simp: unchanged_def)
qed

lemma remove_host_tg_tables:
  "\<exists>w1. remove_host_tg c i w = (Inr (), w1) \<and> (quiet w \<longrightarrow> quiet w1) \<and> w_tenants w1 = w_tenants w \<and> w_hosts w1 = w_hosts w"
proof -
  have "fst (remove_host_tg c i w) = Inr ()" by (simp add: remove_host_tg_def best_effort_apply)
  then have "remove_host_tg c i w = (Inr (), snd (remove_host_tg c i w))" by (metis prod.collapse)
  moreover have "keeps (inv_rel quiet) (remove_host_tg c i)" "keeps (unchanged w_tenants) (remove_host_tg c i)"
    "keeps (unchanged w_hosts) (remove_host_tg c i)" by (rule keeps_rules)+
  ultimately show ?thesis using keeps_inv_relD keeps_unchangedD by metis
qed

lemma completing_tables: "\<exists>w1. complete_hook hook i w = (Inr (), w1) \<and> w_tenants w1 = w_tenants w \<and> w_hosts w1 = w_hosts w"
proof -
  have "keeps (unchanged w_tenants) (complete_hook hook i)" "keeps (unchanged w_hosts) (complete_hook hook i)"
    unfolding complete_hook_def by (intro keeps_rules; simp add: keeps_def unchanged_def)+
  moreover have "complete_hook hook i w = (Inr (), snd (complete_hook hook i w))"
    by (simp add: complete_hook_def best_effort_apply)
  ultimately show ?thesis using keeps_unchangedD by metis
qed

lemma auditing_tables:
  "\<exists>w1. audit_system c e ob r a d w = (Inr (), w1) \<and> (quiet w \<longrightarrow> quiet w1) \<and> w_tenants w1 = w_tenants w \<and> w_hosts w1 = w_hosts w"
proof -
  obtain w1 where "audit_system c e ob r a d w = (Inr (), w1)"
    using put_audit_row_total unfolding audit_system_def by metis
  moreover have "keeps (inv_rel quiet) (audit_system c e ob r a d)" "keeps (unchanged w_tenants) (audit_system c e ob r a d)"
    "keeps (unchanged w_hosts) (audit_system c e ob r a d)" by (rule keeps_rules)+
  ultimately show ?thesis using keeps_inv_relD keeps_unchangedD by (metis snd_conv)
qed

lemma cleanup_quiet:
  assumes "quiet w" "keyed (w_tenants w)"
  shows "\<exists>w'. cleanup_terminated_host c i hook w = (Inr (), w') \<and> map_of (w_hosts w') = (map_of (w_hosts w))(i := None) \<and>
    (\<forall>k t. map_of (w_tenants w) k = Some t \<longrightarrow> (\<exists>t'. map_of (w_tenants w') k = Some t' \<and>
       (if on_host i t \<and> not_deleted t then reaped t t' else t' = t))) \<and>
    (\<forall>k. map_of (w_tenants w) k = None \<longrightarrow> map_of (w_tenants w') k = None)"
proof -
  let ?P = "\<lambda>t. on_host i t \<and> not_deleted t"
  let ?ts = "filter ?P (map snd (w_tenants w))"
  from reaping.sweep [OF assms, of ?P c] obtain w1 where
    scan: "scan_all w_tenants ?P w = (Inr ?ts, w)"
    and s1: "for_each ?ts (reap_tenant c) w = (Inr (), w1)" "quiet w1" "w_hosts w1 = w_hosts w"
      "\<forall>k t. map_of (w_tenants w) k = Some t \<longrightarrow>
         (\<exists>t'. map_of (w_tenants w1) k = Some t' \<and> (if ?P t then reaped t t' else t' = t))"
      "\<forall>k. map_of (w_tenants w) k = None \<longrightarrow> map_of (w_tenants w1) k = None"
    by (auto simp: unchanged_def)
  obtain w2 where s2: "remove_host_tg c i w1 = (Inr (), w2)" "quiet w2" "w_tenants w2 = w_tenants w1" "w_hosts w2 = w_hosts w1"
    using remove_host_tg_tables [of c i w1] s1(2) by blast
  let ?w3 = "w2\<lparr>w_hosts := AList.delete i (w_hosts w2)\<rparr>"
  have s3: "delete_host_row i w2 = (Inr (), ?w3)"
    using s2(2) by (simp add: delete_host_row_def quiet_def modify_apply)
  let ?d = "Some (JObj [(''instance_id'', JStr i), (''tenants_reaped'', JList (map (\<lambda>t. JStr (t_id t)) ?ts))])"
  obtain w4 where s4: "audit_system c ''host.terminated'' (''host:'' @ i) i ''system:asg-lifecycle'' ?d ?w3 = (Inr (), w4)"
      "w_tenants w4 = w_tenants ?w3" "w_hosts w4 = w_hosts ?w3"
    using auditing_tables [of c "''host.terminated''" "''host:'' @ i" i "''system:asg-lifecycle''" ?d ?w3] by blast
  obtain w5 where s5: "complete_hook hook i w4 = (Inr (), w5)" "w_tenants w5 = w_tenants w4" "w_hosts w5 = w_hosts w4"
    using completing_tables by blast
  have run: "cleanup_terminated_host c i hook w = (Inr (), w5)"
    unfolding cleanup_terminated_host_def andThen_apply scan fst_conv snd_conv sum.case s1(1) s2(1) s3 s4(1) s5(1) ..
  have hosts: "map_of (w_hosts w5) = (map_of (w_hosts w))(i := None)"
    using s1 s2 s4 s5 by (simp add: delete_conv')
  have tenants: "w_tenants w5 = w_tenants w1" using s2 s4 s5 by simp
  show ?thesis
    using run hosts s1(4,5) unfolding tenants [symmetric] by blast
qed

section \<open>Properties\<close>



end
