(* ===== verification/Api.thy ===== *)
theory Api
  imports Fleet
begin

text \<open>
  The entry point of the API Lambda (api/handler.py): the auto-scaling events, the table of routes,
  and the way from an HTTP request to its answer. The handlers themselves are in the theories of
  the components; here they are composed, and what holds for whole requests is proved.
\<close>

section \<open>Events\<close>

text \<open>
  What stands outside the program is collected in one record: the process environment, the
  parser of JSON texts, the description of instances and instance types.
\<close>

record outside =
  out_env :: "string \<Rightarrow> string option"
  out_parse :: "string \<Rightarrow> json option"
  out_instance :: "string \<Rightarrow> ec2_instance option"
  out_type_mem :: "string \<Rightarrow> int option"

text \<open>A process without environment, and services that know nothing.\<close>

definition no_outside :: outside where
  "no_outside = \<lparr>out_env = (\<lambda>_. None), out_parse = (\<lambda>_. None), out_instance = (\<lambda>_. None), out_type_mem = (\<lambda>_. None)\<rparr>"

text \<open>An event of the auto-scaling group, with its detail type and its detail, or a request.\<close>

datatype lambda_event = Autoscaling string "(string \<times> string) list" | Http event

text \<open>\<open>path_params[k]\<close> inside a route, which raises when the parameter is missing.\<close>

definition with_path :: "event \<Rightarrow> string \<Rightarrow> (string \<Rightarrow> (world, resp) io) \<Rightarrow> (world, resp) io" where
  "with_path ev k f = andThen (lift_sum (required k (map_of (ev_path ev) k))) f"

definition audit_json :: "audit_row \<Rightarrow> json" where
  "audit_json r = JObj ([(''pk'', JStr ''audit''), (''ts'', JStr (a_ts r)), (''operation'', JStr (a_operation r)),
     (''resource_id'', JStr (a_resource_id r)), (''api_key_id'', JStr (a_api_key_id r)),
     (''response_status'', (case a_response_status r of None \<Rightarrow> JNull | Some n \<Rightarrow> JInt n)),
     (''expires_ttl'', JInt (a_expires_ttl r)), (''event'', JStr (a_event r)), (''object'', JStr (a_object r)),
     (''actor'', JStr (a_actor r)), (''actor_role'', JStr (a_actor_role r))] @
     (case a_detail r of None \<Rightarrow> [] | Some d \<Rightarrow> [(''detail'', d)]))"

definition audit_log_route :: "cfg \<Rightarrow> event \<Rightarrow> (world, resp) io" where
  "audit_log_route c ev = andThen (list_audit_log c (ev_query ev)) (\<lambda>items. ok (mk_resp 200 (JList (map audit_json items))))"

definition routes :: "cfg \<Rightarrow> outside \<Rightarrow> event \<Rightarrow> ((string \<times> string) \<times> (world, resp) io) list" where
  "routes c x ev = (let path = with_path ev; bd = ev_body ev in [
     ((''GET'', ''/tenants''), list_tenants (ev_query ev) (ev_multi_query ev)),
     ((''POST'', ''/tenants''), create_tenant c bd),
     ((''GET'', ''/tenants/{id}''), path ''id'' (get_tenant c)),
     ((''DELETE'', ''/tenants/{id}''), path ''id'' (\<lambda>i. delete_tenant c i (ev_query ev))),
     ((''POST'', ''/tenants/{id}/{action}''), path ''id'' (\<lambda>i. path ''action'' (\<lambda>a. tenant_action c i a bd))),
     ((''GET'', ''/tenants/{id}/{action}''), path ''id'' (\<lambda>i. path ''action'' (tenant_get_action c i))),
     ((''GET'', ''/backups''), list_all_backups c),
     ((''POST'', ''/batch/tenants''), batch_tenants c bd),
     ((''GET'', ''/hosts''), list_hosts),
     ((''POST'', ''/hosts''), register_host c (out_instance x) (out_type_mem x) bd),
     ((''POST'', ''/hosts/refresh-rootfs''), refresh_rootfs c (out_parse x) (out_env x)),
     ((''GET'', ''/hosts/rootfs-version''), rootfs_version (out_parse x) (out_env x)),
     ((''GET'', ''/agentcore/status''), agentcore_status (out_env x)),
     ((''GET'', ''/agentcore/tools''), agentcore_tools (out_env x)),
     ((''GET'', ''/system/info''), system_info c (out_env x)),
     ((''GET'', ''/audit-log''), audit_log_route c ev),
     ((''DELETE'', ''/hosts/{instance_id}''), path ''instance_id'' deregister_host),
     ((''POST'', ''/hosts/{instance_id}/drain''), path ''instance_id'' (drain_host c)),
     ((''POST'', ''/failover/{az}''), path ''az'' (trigger_failover c)),
     ((''GET'', ''/admin/routing/status''), routing_status c),
     ((''POST'', ''/admin/routing/rebuild''), rebuild_routing c bd),
     ((''POST'', ''/admin/routing/purge-per-tenant''), purge_per_tenant_routing c bd),
     ((''GET'', ''/groups''), list_groups c),
     ((''POST'', ''/groups''), create_group c bd),
     ((''POST'', ''/groups/{name}/skills''), path ''name'' (\<lambda>g. add_skill_to_group c g bd)),
     ((''DELETE'', ''/groups/{name}/skills/{skill}''), path ''name'' (\<lambda>g. path ''skill'' (remove_skill_from_group c g))),
     ((''GET'', ''/skills/{name}''), path ''name'' (read_skill c)),
     ((''PUT'', ''/skills/{name}''), path ''name'' (\<lambda>s. update_skill c s bd)),
     ((''DELETE'', ''/skills/{name}''), path ''name'' (delete_skill c))])"

definition not_found_route :: resp where
  "not_found_route = err_resp 404 ''not found''"

definition http_handler :: "cfg \<Rightarrow> outside \<Rightarrow> event \<Rightarrow> (world, resp) io" where
  "http_handler c x ev = (case map_of (routes c x ev) (ev_method ev, ev_resource ev) of
       None \<Rightarrow> ok not_found_route
     | Some handler \<Rightarrow> guarded c ev handler)"

text \<open>The hook of a termination answers nothing.\<close>

definition lambda_handler :: "cfg \<Rightarrow> outside \<Rightarrow> lambda_event \<Rightarrow> (world, resp option) io" where
  "lambda_handler c x ev = (case ev of
       Http e \<Rightarrow> andThen (http_handler c x e) (\<lambda>r. ok (Some r))
     | Autoscaling detail_type detail \<Rightarrow>
         if contains ''terminate'' (ascii_lower detail_type)
         then andThen (lift_sum (required ''EC2InstanceId'' (map_of detail ''EC2InstanceId''))) (\<lambda>i.
              andThen (cleanup_terminated_host c i (map_of detail ''LifecycleHookName'')) (\<lambda>_. ok None))
         else andThen (process_pending c) (\<lambda>r. ok (Some r)))"

section \<open>Reading requests\<close>

text \<open>A relation that only allows time to pass is kept by every handler of a GET route.\<close>

definition only_time :: "world \<Rightarrow> world \<Rightarrow> bool" where
  "only_time w w' = (\<exists>n fs. w' = w\<lparr>w_now := n, w_oracle := fs\<rparr>)"

lemma only_time_refl: "only_time w w"
  unfolding only_time_def by (intro exI [of _ "w_now w"] exI [of _ "w_oracle w"]) simp

interpretation passing: aws_frame only_time
proof unfold_locales
  show "only_time w w" for w by (rule only_time_refl)
  show "only_time s t \<Longrightarrow> only_time t u \<Longrightarrow> only_time s u" for s t u
    by (auto simp: only_time_def) (metis (no_types, lifting))
  show "only_time w (w\<lparr>w_now := n, w_oracle := fs\<rparr>)" for w n fs
    unfolding only_time_def by blast
qed

context aws_frame begin

lemma keeps_describe_rules [keeps_rules]: "keeps R describe_rules"
  unfolding describe_rules_def by (intro keeps_rules)

lemma keeps_query_audit [keeps_rules]: "keeps R (query_audit P n)"
  unfolding query_audit_def by (rule keeps_aws) (simp add: keeps_def frame_refl)

lemma keeps_with_path [keeps_rules]: "(\<And>s. keeps R (f s)) \<Longrightarrow> keeps R (with_path ev k f)"
  unfolding with_path_def by (intro keeps_rules)

lemma keeps_tenant_reads [keeps_rules]:
  "keeps R (list_tenants q m)" "keeps R (get_tenant c i)" "keeps R (tenant_get_action c i a)"
  "keeps R (list_all_backups c)" "keeps R (audit_log_route c ev)"
proof -
  show "keeps R (list_tenants q m)" unfolding list_tenants_def Let_def by (intro keeps_rules)
  show "keeps R (get_tenant c i)" unfolding get_tenant_def by (intro keeps_rules)
  show "keeps R (tenant_get_action c i a)" unfolding tenant_get_action_def list_backups_def by (intro keeps_rules)
  show "keeps R (list_all_backups c)" unfolding list_all_backups_def all_backups_def by (intro keeps_rules)
  show "keeps R (audit_log_route c ev)" unfolding audit_log_route_def list_audit_log_def by (intro keeps_rules)
qed

lemma keeps_or_500 [keeps_rules]: "keeps R m \<Longrightarrow> keeps R (or_500 m)"
  unfolding or_500_def by (intro keeps_rules)

lemma keeps_fleet_reads [keeps_rules]:
  "keeps R list_hosts" "keeps R (rootfs_version p e)" "keeps R (agentcore_status e)"
  "keeps R (agentcore_tools e)" "keeps R (system_info c e)"
  "keeps R (list_groups c)" "keeps R (read_skill c s)"
  unfolding list_hosts_def rootfs_version_def get_manifest_def agentcore_status_def agentcore_tools_def system_info_def
    list_groups_def read_skill_def Let_def
  by (intro keeps_rules)+

lemma keeps_rules_or_502 [keeps_rules]: "(\<And>rs. keeps R (f rs)) \<Longrightarrow> keeps R (rules_or_502 f)"
  unfolding rules_or_502_def by (intro keeps_rules) (simp split: exn.split add: keeps_ok keeps_raise)

lemma keeps_routing_status [keeps_rules]: "keeps R (routing_status c)"
  unfolding routing_status_def by (intro keeps_rules)

end

lemma get_routes_read:
  assumes "map_of (routes c x ev) k = Some h" "fst k = ''GET''"
  shows "keeps only_time h"
proof -
  have "list_all (\<lambda>(k, h). fst k = ''GET'' \<longrightarrow> keeps only_time h) (routes c x ev)"
    unfolding routes_def Let_def list.pred_inject prod.case fst_conv
    by (intro conjI impI TrueI; (simp; fail)?; intro keeps_rules)
  with assms show ?thesis by (force simp: list_all_iff dest: map_of_SomeD)
qed

lemma get_guarded:
  assumes "ev_method ev = ''GET''" "keeps only_time h"
  shows "keeps only_time (guarded c ev h)"
proof -
  have "\<not> mutating (ev_method ev)" using assms(1) by (simp add: mutating_def)
  then show ?thesis unfolding guarded_def using assms(2) by (intro keeps_rules) auto
qed

lemma only_time_logged: "only_time w w' \<Longrightarrow> only_logged w w'"
  unfolding only_time_def only_logged_def by (elim exE, rule exI, rule exI, rule exI [of _ "w_audit w"]) simp

lemma reads_pass: "ev_method ev = ''GET'' \<Longrightarrow> keeps only_time (http_handler c x ev)"
  unfolding http_handler_def by (intro keeps_rules get_guarded) (auto intro: get_routes_read)

lemma viewer_routes: "needed_role m r = ''viewer'' \<Longrightarrow> m = ''GET''"
  by (auto simp: needed_role_def viewer_ok_def split: if_splits)

lemma other_roles: "needed_role m r \<noteq> ''viewer'' \<Longrightarrow> \<not> role_satisfies ''viewer'' (needed_role m r)"
  by (auto simp: needed_role_def role_satisfies_def role_rank_def role_ranks_def split: if_splits)

section \<open>Properties\<close>



end
