(* ===== verification/Scaler.thy ===== *)
theory Scaler
  imports Hosts Ssm
begin

text \<open>
  The scaler Lambda (scaler/handler.py), which runs on a timer: it carries out what expired
  tenants asked for, starts and stops tenants by their schedules, and retires hosts that have
  been empty for long enough, first to the status idle and on a later run for good.
\<close>

section \<open>Time-to-live\<close>

definition ttl_terminal :: "string list" where
  "ttl_terminal = [''stopped'', ''deleted'', ''failed'']"

definition audit_act :: "cfg \<Rightarrow> string \<Rightarrow> string \<Rightarrow> string \<Rightarrow> string \<Rightarrow> json option \<Rightarrow> (world, unit) io" where
  "audit_act c event_name obj resource_id actor detail =
     put_audit_row c event_name obj resource_id actor ''system'' (Some event_name) (Some 200) detail (Some actor)"

definition status_row :: "string \<Rightarrow> int \<Rightarrow> tenant \<Rightarrow> tenant" where
  "status_row st n r = r\<lparr>t_status := Some st, t_updated_at := Some (At n)\<rparr>"

definition update_tenant_status :: "string \<Rightarrow> string \<Rightarrow> (world, unit) io" where
  "update_tenant_status tid st = best_effort (andThen now (\<lambda>n.
     andThen (update_tenant tid no_cond (set_attrs (status_row st n))) (\<lambda>_. ok ())))"

text \<open>What is due for a tenant at an instant, if anything.\<close>

definition ttl_action :: "int \<Rightarrow> tenant \<Rightarrow> string option" where
  "ttl_action n t = (
     if t_status t \<in> Some ` set ttl_terminal then None
     else (case t_expires_at t of
         Some (At e) \<Rightarrow> if n < e then None
           else Some (case t_on_expiry t of None \<Rightarrow> ''stop'' | Some a \<Rightarrow> a)
       | _ \<Rightarrow> None))"

definition ttl_detail :: "tenant \<Rightarrow> json option" where
  "ttl_detail t = Some (JObj [(''expires_at'', opt_json stamp_json (t_expires_at t))])"

definition stop_command :: "tenant \<Rightarrow> string" where
  "stop_command t = ''/home/ubuntu/stop-vm.sh '' @ t_id t @ '' '' @ show_int (int_attr_or (t_vm_num t) 1)"

definition expire_one :: "cfg \<Rightarrow> int \<Rightarrow> tenant \<Rightarrow> (world, unit) io" where
  "expire_one c n t = (case ttl_action n t of
       None \<Rightarrow> ok ()
     | Some action \<Rightarrow>
         if action = ''stop'' then
           andThen (whenever (opt_str (t_host_id t) \<noteq> [])
             (best_effort (andThen (raw_send_command [opt_str (t_host_id t)] (stop_command t) 60) (\<lambda>_. ok ())))) (\<lambda>_.
           andThen (update_tenant_status (t_id t) ''stopped'') (\<lambda>_.
           audit_act c ''tenant.stopped'' (''tenant:'' @ t_id t) (t_id t) ''system:ttl-expiry'' (ttl_detail t)))
         else if action = ''delete'' then
           andThen (update_tenant_status (t_id t) ''deleted'') (\<lambda>_.
           audit_act c ''tenant.deleted'' (''tenant:'' @ t_id t) (t_id t) ''system:ttl-expiry'' (ttl_detail t))
         else ok ())"

definition has_expiry :: "tenant \<Rightarrow> bool" where
  "has_expiry t = (t_expires_at t \<noteq> None)"

definition process_ttl_expirations :: "cfg \<Rightarrow> (world, unit) io" where
  "process_ttl_expirations c = (if \<not> has_tenants_table c then ok ()
     else andThen (try_except (andThen (scan_all w_tenants has_expiry) (\<lambda>items. ok (Some items))) (\<lambda>_. ok None)) (\<lambda>r.
       case r of None \<Rightarrow> ok ()
       | Some items \<Rightarrow> andThen now (\<lambda>n. for_each items (expire_one c n))))"

section \<open>Schedules\<close>

text \<open>A time of day as \<open>strftime("%H:%M")\<close> writes it.\<close>

definition clock_text :: "nat \<Rightarrow> nat \<Rightarrow> string" where
  "clock_text h m = pad 2 (int h) @ '':'' @ pad 2 (int m)"

definition empty_schedule :: "schedule \<Rightarrow> bool" where
  "empty_schedule s = (sc_start s = None \<and> sc_stop s = None \<and> sc_timezone s = None \<and> sc_days s = None)"

definition selected_days :: "schedule \<Rightarrow> string list" where
  "selected_days s = (case sc_days s of None \<Rightarrow> sched_days | Some ds \<Rightarrow> if ds = [] then sched_days else ds)"

text \<open>Both bounds and the current time are compared as text.\<close>

definition schedule_should_run :: "cfg \<Rightarrow> schedule option \<Rightarrow> int \<Rightarrow> bool" where
  "schedule_should_run c sched n = (case sched of None \<Rightarrow> True | Some s \<Rightarrow>
     if empty_schedule s then True
     else let tz = or_default (sc_timezone s) ''UTC'' in
       if \<not> zone_known c tz then True
       else (case local_clock c tz n of (weekday, h, m) \<Rightarrow>
         if sched_days ! weekday \<notin> set (selected_days s) then False
         else let start = or_default (sc_start s) ''00:00''; stop = or_default (sc_stop s) ''23:59'';
                  cur = clock_text h m in
           if start \<le> stop then start \<le> cur \<and> cur < stop
           else start \<le> cur \<or> cur < stop))"

text \<open>The time limit the service gives to a command that names none.\<close>

definition ssm_default_timeout :: int where
  "ssm_default_timeout = 3600"

definition set_status_only :: "string \<Rightarrow> string \<Rightarrow> (world, unit) io" where
  "set_status_only tid st = andThen (update_tenant tid no_cond (set_attrs (\<lambda>r. r\<lparr>t_status := Some st\<rparr>))) (\<lambda>_. ok ())"

definition start_command :: "tenant \<Rightarrow> string" where
  "start_command t = ''/home/ubuntu/launch-vm.sh '' @ t_id t @ '' '' @ show_int (int_attr_or (t_vm_num t) 1) @ '' '' @
     show_int (int_attr_or (t_vcpu t) 2) @ '' '' @ show_int (int_attr_or (t_mem_mb t) 4096)"

definition reconcile_one :: "cfg \<Rightarrow> int \<Rightarrow> tenant \<Rightarrow> (world, unit) io" where
  "reconcile_one c n t = (
     let host_id = opt_str (t_host_id t); should_run = schedule_should_run c (t_schedule t) n in
     if (case t_schedule t of None \<Rightarrow> True | Some s \<Rightarrow> empty_schedule s) \<or> host_id = [] then ok ()
     else if should_run \<and> t_status t = Some ''stopped'' then
       andThen (raw_send_command [host_id] (start_command t) ssm_default_timeout) (\<lambda>_.
       andThen (set_status_only (t_id t) ''running'') (\<lambda>_.
       audit_act c ''tenant.started'' (''tenant:'' @ t_id t) (t_id t) ''system:schedule'' None))
     else if \<not> should_run \<and> t_status t = Some ''running'' then
       andThen (raw_send_command [host_id] (stop_command t) ssm_default_timeout) (\<lambda>_.
       andThen (set_status_only (t_id t) ''stopped'') (\<lambda>_.
       audit_act c ''tenant.stopped'' (''tenant:'' @ t_id t) (t_id t) ''system:schedule'' None))
     else ok ())"

definition reconcile_schedules :: "cfg \<Rightarrow> (world, unit) io" where
  "reconcile_schedules c = (if \<not> has_tenants_table c then ok ()
     else andThen (scan_all w_tenants (\<lambda>_. True)) (\<lambda>items.
       andThen now (\<lambda>n. for_each items (reconcile_one c n))))"

section \<open>Hosts\<close>

definition set_host_status :: "string \<Rightarrow> string \<Rightarrow> (world, unit) io" where
  "set_host_status i st = andThen (update_host i no_cond (set_attrs (\<lambda>h. h\<lparr>h_status := Some st\<rparr>))) (\<lambda>_. ok ())"

definition set_idle_since :: "string \<Rightarrow> int \<Rightarrow> (world, unit) io" where
  "set_idle_since i n = andThen (update_host i no_cond (set_attrs (\<lambda>h. h\<lparr>h_idle_since := Some (At n)\<rparr>))) (\<lambda>_. ok ())"

definition can_scale_in :: "(world, bool) io" where
  "can_scale_in = andThen (aws (gets w_asg)) (\<lambda>g. ok (asg_desired g > asg_min g))"

definition terminate_in_asg :: "string \<Rightarrow> (world, unit) io" where
  "terminate_in_asg i = aws (modify (\<lambda>w. w\<lparr>w_terminated := w_terminated w @ [i],
     w_asg := (w_asg w)\<lparr>asg_desired := asg_desired (w_asg w) - 1\<rparr>\<rparr>))"

definition retire_host :: "cfg \<Rightarrow> string \<Rightarrow> (world, unit) io" where
  "retire_host c i = andThen can_scale_in (\<lambda>allowed. whenever allowed
     (best_effort (andThen (terminate_in_asg i) (\<lambda>_.
        audit_act c ''host.scale_in'' (''host:'' @ i) i ''system:scaler'' (Some (JObj [(''reason'', JStr ''idle'')]))))))"

text \<open>\<open>datetime.fromisoformat\<close> of text that is no timestamp raises.\<close>

definition idle_check :: "cfg \<Rightarrow> int \<Rightarrow> host \<Rightarrow> (world, unit) io" where
  "idle_check c n h = (case h_idle_since h of
       None \<Rightarrow> set_idle_since (h_instance_id h) n
     | Some (Garbled s) \<Rightarrow> if s = [] then set_idle_since (h_instance_id h) n
         else raise (PyError ValueError (''Invalid isoformat string: '' @ quoted s))
     | Some (At e) \<Rightarrow> whenever (n - e \<ge> seconds (idle_timeout_minutes c * 60))
         (set_host_status (h_instance_id h) ''idle''))"

definition host_tick :: "cfg \<Rightarrow> int \<Rightarrow> host \<Rightarrow> (world, unit) io" where
  "host_tick c n h = (
     if int_attr (h_vm_count h) > 0 then
       whenever (h_status h = Some ''idle'') (set_host_status (h_instance_id h) ''active'')
     else if h_status h = Some ''active'' then idle_check c n h
     else if h_status h = Some ''idle'' then retire_host c (h_instance_id h)
     else ok ())"

definition live_host :: "host \<Rightarrow> bool" where
  "live_host h = (h_status h \<noteq> Some ''deleted'')"

definition scaler_handler :: "cfg \<Rightarrow> (world, unit) io" where
  "scaler_handler c =
     andThen (process_ttl_expirations c) (\<lambda>_.
     andThen (reconcile_schedules c) (\<lambda>_.
     andThen now (\<lambda>n.
     andThen (scan_all w_hosts live_host) (\<lambda>hosts. for_each hosts (host_tick c n)))))"

section \<open>Times of day\<close>

lemma char_eq_code: "c = d \<longleftrightarrow> char_code c = char_code d"
  by (simp add: char_code_def)

lemma char_less_code: "c < d \<longleftrightarrow> char_code c < char_code d"
  by (simp add: char_code_def less_char_def)

lemma digits_less:
  assumes "b \<le> 9" "b' \<le> 9" "d \<le> 5" "d' \<le> 5" "e \<le> 9" "e' \<le> (9::nat)"
  shows "(a < a' \<or> a = a' \<and> (b < b' \<or> b = b' \<and> (d < d' \<or> d = d' \<and> e < e'))) \<longleftrightarrow>
    (a * 10 + b) * 60 + d * 10 + e < (a' * 10 + b') * 60 + d' * 10 + e'"
proof -
  have "(d < d' \<or> d = d' \<and> e < e') \<longleftrightarrow> d * 10 + e < d' * 10 + e'" using assms(5,6) by linarith
  moreover have "(b < b' \<or> b = b' \<and> d * 10 + e < d' * 10 + e') \<longleftrightarrow> b * 60 + d * 10 + e < b' * 60 + d' * 10 + e'"
    using assms(3-6) by linarith
  moreover have "(a < a' \<or> a = a' \<and> b * 60 + d * 10 + e < b' * 60 + d' * 10 + e') \<longleftrightarrow>
      (a * 10 + b) * 60 + d * 10 + e < (a' * 10 + b') * 60 + d' * 10 + e'"
    by (cases a a' rule: linorder_cases) (use assms in auto)
  ultimately show ?thesis by blast
qed

lemma digit_order:
  assumes "is_digit x" "is_digit y"
  shows "x < y \<longleftrightarrow> digit_val x < digit_val y" "x = y \<longleftrightarrow> digit_val x = digit_val y" "digit_val x \<le> 9"
  using assms by (auto simp: char_less_code char_eq_code is_digit_def digit_val_def)

lemma hhmm_less:
  assumes "strptime_hhmm s" "strptime_hhmm t"
  shows "s < t \<longleftrightarrow> hhmm_minutes s < hhmm_minutes t"
proof -
  obtain a b d e where s: "s = [a, b, CHR '':'', d, e]" "is_digit a" "is_digit b" "is_digit d" "is_digit e" "digit_val d \<le> 5"
    using assms(1) by (cases s rule: strptime_hhmm.cases) auto
  obtain a' b' d' e' where t: "t = [a', b', CHR '':'', d', e']" "is_digit a'" "is_digit b'" "is_digit d'" "is_digit e'"
    "digit_val d' \<le> 5"
    using assms(2) by (cases t rule: strptime_hhmm.cases) auto
  have "s < t \<longleftrightarrow> a < a' \<or> a = a' \<and> (b < b' \<or> b = b' \<and> (d < d' \<or> d = d' \<and> e < e'))"
    by (simp add: s(1) t(1))
  also have "\<dots> \<longleftrightarrow> hhmm_minutes s < hhmm_minutes t"
    unfolding s(1) t(1) hhmm_minutes.simps digit_order(1,2) [OF s(2) t(2)] digit_order(1,2) [OF s(3) t(3)]
      digit_order(1,2) [OF s(4) t(4)] digit_order(1,2) [OF s(5) t(5)]
    by (rule digits_less) (use s t digit_order(3) in blast)+
  finally show ?thesis .
qed

lemma hhmm_le:
  "strptime_hhmm s \<Longrightarrow> strptime_hhmm t \<Longrightarrow> s \<le> t \<longleftrightarrow> hhmm_minutes s \<le> hhmm_minutes t"
  using hhmm_less [of t s] by (meson not_le)

lemma pad2: "n < 100 \<Longrightarrow> pad 2 (int n) = [digit_char (n div 10), digit_char (n mod 10)]"
proof -
  assume n: "n < 100"
  show ?thesis
  proof (cases "n < 10")
    case True
    then have "show_nat n = [digit_char n]" by (subst show_nat.simps) simp
    moreover have "CHR ''0'' = digit_char 0" by code_simp
    ultimately show ?thesis using True by (simp add: pad_def show_int_def numeral_2_eq_2)
  next
    case False
    then have "show_nat n = [digit_char (n div 10), digit_char (n mod 10)]"
      using n by (subst show_nat.simps, subst show_nat.simps) simp
    then show ?thesis by (simp add: pad_def show_int_def)
  qed
qed

lemma clock_text_hhmm:
  assumes "h < 24" "m < 60"
  shows "strptime_hhmm (clock_text h m) \<and> hhmm_minutes (clock_text h m) = 60 * h + m"
proof -
  have "h div 10 < 10" "h mod 10 < 10" "m div 10 < 10" "m mod 10 < 10" "m div 10 \<le> 5" using assms by linarith+
  moreover have "h div 10 * 10 + h mod 10 = h" "m div 10 * 10 + m mod 10 = m" by simp_all
  ultimately show ?thesis using assms by (simp add: clock_text_def pad2 is_digit_def) linarith
qed

definition in_window :: "nat \<Rightarrow> nat \<Rightarrow> nat \<Rightarrow> bool" where
  "in_window start stop x = (if start \<le> stop then start \<le> x \<and> x < stop else start \<le> x \<or> x < stop)"

lemma should_run_window:
  assumes "good_schedule (zone_known c) s" "local_clock c (the (sc_timezone s)) n = (wd, h, m)" "h < 24" "m < 60"
  shows "schedule_should_run c (Some s) n \<longleftrightarrow> sched_days ! wd \<in> set (the (sc_days s)) \<and>
    in_window (hhmm_minutes (the (sc_start s))) (hhmm_minutes (the (sc_stop s))) (60 * h + m)"
proof -
  obtain a b z ds where s: "sc_start s = Some a" "sc_stop s = Some b" "sc_timezone s = Some z" "sc_days s = Some ds"
    and g: "strptime_hhmm a" "strptime_hhmm b" "zone_known c z" "ds \<noteq> []"
    using assms(1) by (auto simp: good_schedule_def split: option.splits)
  note k = clock_text_hhmm [OF assms(3,4)]
  note [simp] = hhmm_le [OF g(1) conjunct1 [OF k]] hhmm_less [OF conjunct1 [OF k] g(2)] hhmm_le [OF g(1,2)]
    conjunct2 [OF k]
  show ?thesis
    using s g assms(2)
    by (simp add: schedule_should_run_def empty_schedule_def or_default_def selected_days_def in_window_def Let_def)
qed

section \<open>What a tick may do to the fleet\<close>

text \<open>
  Along the way only instances of \<open>S\<close> were terminated, each terminated instance lowered the desired
  capacity by one, and after a termination the group is still at or above its minimum.
\<close>

definition scale_in :: "string set \<Rightarrow> world \<Rightarrow> world \<Rightarrow> bool" where
  "scale_in S w w' = (\<exists>xs. w_terminated w' = w_terminated w @ xs \<and> set xs \<subseteq> S \<and>
     asg_desired (w_asg w') = asg_desired (w_asg w) - int (length xs) \<and>
     asg_min (w_asg w') = asg_min (w_asg w) \<and>
     (xs \<noteq> [] \<longrightarrow> asg_min (w_asg w') \<le> asg_desired (w_asg w')))"

lemma scale_in_refl: "w_terminated w' = w_terminated w \<Longrightarrow> w_asg w' = w_asg w \<Longrightarrow> scale_in S w w'"
  by (auto simp: scale_in_def)

lemma scale_in_trans:
  assumes "scale_in S u v" "scale_in S v w"
  shows "scale_in S u w"
proof -
  obtain xs where 1: "w_terminated v = w_terminated u @ xs" "set xs \<subseteq> S" "asg_min (w_asg v) = asg_min (w_asg u)"
      "asg_desired (w_asg v) = asg_desired (w_asg u) - int (length xs)"
      "xs \<noteq> [] \<Longrightarrow> asg_min (w_asg v) \<le> asg_desired (w_asg v)"
    using assms(1) unfolding scale_in_def by blast
  obtain ys where 2: "w_terminated w = w_terminated v @ ys" "set ys \<subseteq> S" "asg_min (w_asg w) = asg_min (w_asg v)"
      "asg_desired (w_asg w) = asg_desired (w_asg v) - int (length ys)"
      "ys \<noteq> [] \<Longrightarrow> asg_min (w_asg w) \<le> asg_desired (w_asg w)"
    using assms(2) unfolding scale_in_def by blast
  show ?thesis
    unfolding scale_in_def using 1 2 by (intro exI [of _ "xs @ ys"]) (cases "ys = []"; auto)
qed

interpretation scaling: host_blind "scale_in S" for S
  by unfold_locales (auto intro: scale_in_refl scale_in_trans)

interpretation scaling: tenant_blind "scale_in S" for S
  by unfold_locales (auto intro: scale_in_refl)

interpretation scaling: ssm_blind "scale_in S" for S
  by unfold_locales (auto intro: scale_in_refl)

interpretation scaling: log_blind "scale_in S" for S
  by unfold_locales (auto intro: scale_in_refl)

lemma aws_asg_Inr:
  assumes "aws (gets w_asg) w = (Inr g, w')"
  shows "g = w_asg w \<and> w_asg w' = w_asg w \<and> w_terminated w' = w_terminated w"
  using assms by (cases rule: aws_elim) auto

lemma terminate_scale_in:
  assumes "i \<in> S" "asg_min (w_asg w) < asg_desired (w_asg w)"
  shows "scale_in S w (snd (terminate_in_asg i w))"
proof -
  obtain r w' where r: "terminate_in_asg i w = (r, w')" by fastforce
  then have "scale_in S w w'"
    unfolding terminate_in_asg_def
  proof (cases rule: aws_elim)
    case (acted n fs)
    then show ?thesis
      using assms by (auto simp: modify_def scale_in_def intro!: exI [of _ "[i]"])
  next
    case (fault n fs e)
    then show ?thesis by (auto intro: scale_in_refl)
  qed
  with r show ?thesis by simp
qed

lemma keeps_retire_host: "i \<in> S \<Longrightarrow> keeps (scale_in S) (retire_host c i)"
proof (rule keepsI)
  fix w
  assume i: "i \<in> S"
  obtain r w' where run: "retire_host c i w = (r, w')" by fastforce
  then have "scale_in S w w'"
    unfolding retire_host_def
  proof (cases rule: andThen_cases)
    case (raised e)
    have "keeps (scale_in S) can_scale_in" unfolding can_scale_in_def by (intro keeps_rules)
    from keepsD [OF this raised(1)] show ?thesis .
  next
    case (passed allowed u)
    then have u: "w_asg u = w_asg w" "w_terminated u = w_terminated w" "allowed = (asg_desired (w_asg w) > asg_min (w_asg w))"
      by (auto simp: can_scale_in_def andThen_Inr dest!: aws_asg_Inr)
    let ?log = "\<lambda>_::unit. audit_act c ''host.scale_in'' (''host:'' @ i) i ''system:scaler'' (Some (JObj [(''reason'', JStr ''idle'')]))"
    have "scale_in S u w'"
    proof (cases allowed)
      case False
      with passed(2) show ?thesis by (auto simp: ok_def intro: scale_in_refl)
    next
      case True
      have t: "scale_in S u (snd (terminate_in_asg i u))" using terminate_scale_in [OF i] True u by simp
      have "keeps (scale_in S) (?log ())" unfolding audit_act_def by (rule keeps_rules)
      then have l: "scale_in S v (snd (?log () v))" for v by (simp add: keeps_def)
      have "w' = snd (andThen (terminate_in_asg i) ?log u)" using passed(2) True by (simp add: best_effort_apply)
      then show ?thesis
        using t scale_in_trans [OF t l] by (auto simp: andThen_apply split: sum.splits)
    qed
    with u show ?thesis using scale_in_trans [OF scale_in_refl [OF u(2,1)]] by blast
  qed
  with run show "scale_in S w (snd (retire_host c i w))" by simp
qed

definition idle_hosts :: "world \<Rightarrow> string set" where
  "idle_hosts w = {h_instance_id h | h. h \<in> snd ` set (w_hosts w) \<and> h_status h = Some ''idle'' \<and> int_attr (h_vm_count h) \<le> 0}"

lemma keeps_idle_check: "keeps (scale_in S) (idle_check c n h)"
  unfolding idle_check_def set_host_status_def set_idle_since_def
  by (intro keeps_rules) (auto split: stamp.split intro!: keeps_rules)

lemma keeps_host_tick:
  assumes "h_status h = Some ''idle'' \<Longrightarrow> int_attr (h_vm_count h) \<le> 0 \<Longrightarrow> h_instance_id h \<in> S"
  shows "keeps (scale_in S) (host_tick c n h)"
  unfolding host_tick_def set_host_status_def
  by (intro keeps_rules keeps_idle_check keeps_retire_host) (use assms in simp_all)

lemma keeps_tenant_phases:
  "keeps (scale_in S) (process_ttl_expirations c)" "keeps (scale_in S) (reconcile_schedules c)"
  "keeps (unchanged w_hosts) (process_ttl_expirations c)" "keeps (unchanged w_hosts) (reconcile_schedules c)"
  unfolding process_ttl_expirations_def reconcile_schedules_def expire_one_def reconcile_one_def
    update_tenant_status_def set_status_only_def audit_act_def Let_def
  by (intro keeps_rules)+

lemma scaler_scale_in:
  assumes "scaler_handler c w = (r, w')"
  shows "scale_in (idle_hosts w) w w'"
  using assms unfolding scaler_handler_def
proof (cases rule: andThen_cases)
  case (raised e)
  from keepsD [OF keeps_tenant_phases(1) this(1)] show ?thesis .
next
  case 1: (passed x u)
  note u = keepsD [OF keeps_tenant_phases(1) 1(1)]
  have uh: "w_hosts u = w_hosts w" using keepsD [OF keeps_tenant_phases(3) 1(1)] by (simp add: unchanged_def)
  from 1(2) show ?thesis
  proof (cases rule: andThen_cases)
    case (raised e)
    from keepsD [OF keeps_tenant_phases(2) this(1)] u show ?thesis using scale_in_trans by blast
  next
    case 2: (passed y v)
    note v = scale_in_trans [OF u keepsD [OF keeps_tenant_phases(2) 2(1)]]
    have vh: "w_hosts v = w_hosts w" using keepsD [OF keeps_tenant_phases(4) 2(1)] uh by (simp add: unchanged_def)
    have rest: "andThen (scan_all w_hosts live_host) (\<lambda>hosts. for_each hosts (host_tick c (w_now v))) v = (r, w')"
      using 2(2) by (simp add: andThen_apply now_quiet)
    from this have "scale_in (idle_hosts w) v w'"
    proof (cases rule: andThen_cases)
      case (raised e)
      have "keeps (scale_in (idle_hosts w)) (scan_all w_hosts live_host)" by (rule keeps_rules)
      from keepsD [OF this raised(1)] show ?thesis .
    next
      case (passed hosts z)
      have "hosts = filter live_host (map snd (w_hosts w))" using scan_all_result [OF passed(1)] vh by simp
      then have "keeps (scale_in (idle_hosts w)) (for_each hosts (host_tick c (w_now v)))"
        by (intro keeps_rules keeps_host_tick) (auto simp: idle_hosts_def)
      from keepsD [OF this passed(2)] have "scale_in (idle_hosts w) z w'" .
      moreover have "keeps (scale_in (idle_hosts w)) (scan_all w_hosts live_host)" by (rule keeps_rules)
      from keepsD [OF this passed(1)] have "scale_in (idle_hosts w) v z" .
      ultimately show ?thesis using scale_in_trans by blast
    qed
    with v show ?thesis using scale_in_trans by blast
  qed
qed

section \<open>What a tick does to the tenants\<close>

lemma calm_best_effort: "calm m \<Longrightarrow> calm (best_effort m)"
  by (fastforce simp: calm_def best_effort_apply)

lemma calm_stop: "calm (whenever b (best_effort (andThen (raw_send_command [i] cmd t) (\<lambda>_. ok ()))))"
  by (intro calm_parts calm_best_effort calm_andThen calm_raw_send) simp

lemma calm_audit_act: "calm (audit_act c e ob r a d)"
  unfolding audit_act_def by (rule calm_put_audit_row)

lemma update_tenant_status_quiet:
  assumes "quiet w" "map_of (w_tenants w) k = Some t"
  shows "\<exists>w1. update_tenant_status k st w = (Inr (), w1) \<and> quiet w1 \<and> w_hosts w1 = w_hosts w \<and>
    map_of (w_tenants w1) = (map_of (w_tenants w))(k \<mapsto> status_row st (w_now w) t)"
  using assms
  by (simp add: update_tenant_status_def best_effort_apply andThen_apply now_quiet set_tenant_quiet ok_apply
      update_conv' fun_eq_iff) (simp add: quiet_def)

lemma set_status_only_quiet:
  assumes "quiet w" "map_of (w_tenants w) k = Some t"
  shows "\<exists>w1. set_status_only k st w = (Inr (), w1) \<and> quiet w1 \<and> w_hosts w1 = w_hosts w \<and>
    map_of (w_tenants w1) = (map_of (w_tenants w))(k \<mapsto> t\<lparr>t_status := Some st\<rparr>)"
  using assms
  by (simp add: set_status_only_def andThen_apply set_tenant_quiet ok_apply update_conv' fun_eq_iff)
    (simp add: quiet_def)

text \<open>The row after its time-to-live was checked at an instant.\<close>

definition expired :: "int \<Rightarrow> tenant \<Rightarrow> tenant \<Rightarrow> bool" where
  "expired n t t' = (case ttl_action n t of
       Some a \<Rightarrow> if a = ''stop'' then (\<exists>m. t' = status_row ''stopped'' m t)
         else if a = ''delete'' then (\<exists>m. t' = status_row ''deleted'' m t) else t' = t
     | None \<Rightarrow> t' = t)"

text \<open>A calm step, an update of one row, a calm step.\<close>

lemma around_row:
  fixes aft :: "(world, unit) io"
  assumes "calm pre" "\<And>w. quiet w \<Longrightarrow> map_of (w_tenants w) k = Some t \<Longrightarrow> \<exists>w1. upd w = (Inr (), w1) \<and> quiet w1 \<and>
      w_hosts w1 = w_hosts w \<and> (\<exists>t'. post t' \<and> map_of (w_tenants w1) = (map_of (w_tenants w))(k \<mapsto> t'))"
    "calm aft" "quiet w" "map_of (w_tenants w) k = Some t"
  shows "\<exists>w1 t'. andThen pre (\<lambda>_. andThen upd (\<lambda>_. aft)) w = (Inr (), w1) \<and> quiet w1 \<and> unchanged w_hosts w w1 \<and>
    post t' \<and> map_of (w_tenants w1) = (map_of (w_tenants w))(k \<mapsto> t')"
proof -
  obtain x w1 where 1: "pre w = (Inr x, w1)" "quiet w1" "w_tenants w1 = w_tenants w" "w_hosts w1 = w_hosts w"
    using calmD [OF assms(1,4)] by blast
  have "map_of (w_tenants w1) k = Some t" using 1(3) assms(5) by simp
  from assms(2) [OF 1(2) this] obtain w2 t' where 2: "upd w1 = (Inr (), w2)" "quiet w2" "w_hosts w2 = w_hosts w1" "post t'"
    "map_of (w_tenants w2) = (map_of (w_tenants w1))(k \<mapsto> t')" by blast
  obtain y w3 where 3: "aft w2 = (Inr y, w3)" "quiet w3" "w_tenants w3 = w_tenants w2" "w_hosts w3 = w_hosts w2"
    using calmD [OF assms(3) 2(2)] by blast
  show ?thesis
    using 1 2 3 by (intro exI [of _ w3] exI [of _ t']) (simp add: andThen_apply unchanged_def)
qed

interpretation expiring: row_sweep "unchanged w_hosts" "expire_one c n" "expired n" for c n
proof unfold_locales
  fix w t
  assume q: "quiet w" "map_of (w_tenants w) (t_id t) = Some t"
  let ?claim = "\<exists>w1 t'. expire_one c n t w = (Inr (), w1) \<and> quiet w1 \<and> unchanged w_hosts w w1 \<and>
      expired n t t' \<and> map_of (w_tenants w1) = (map_of (w_tenants w))(t_id t \<mapsto> t')"
  have idle: ?claim if "expire_one c n t = ok ()" "expired n t t"
    using that q by (auto simp: ok_apply unchanged_def fun_upd_idem_iff intro!: exI [of _ t])
  consider "ttl_action n t = Some ''stop''" | "ttl_action n t = Some ''delete''"
    | "\<forall>a. ttl_action n t = Some a \<longrightarrow> a \<notin> {''stop'', ''delete''}" by auto
  then show ?claim
  proof cases
    case 1
    have "\<exists>w1. update_tenant_status (t_id t) ''stopped'' u = (Inr (), w1) \<and> quiet w1 \<and> w_hosts w1 = w_hosts u \<and>
      (\<exists>t'. expired n t t' \<and> map_of (w_tenants w1) = (map_of (w_tenants u))(t_id t \<mapsto> t'))"
      if "quiet u" "map_of (w_tenants u) (t_id t) = Some t" for u
      using update_tenant_status_quiet [OF that] 1 unfolding expired_def by fastforce
    from around_row [OF calm_stop this calm_audit_act q] 1 show ?thesis
      unfolding expire_one_def by simp
  next
    case 2
    have "\<exists>w1. update_tenant_status (t_id t) ''deleted'' u = (Inr (), w1) \<and> quiet w1 \<and> w_hosts w1 = w_hosts u \<and>
      (\<exists>t'. expired n t t' \<and> map_of (w_tenants w1) = (map_of (w_tenants u))(t_id t \<mapsto> t'))"
      if "quiet u" "map_of (w_tenants u) (t_id t) = Some t" for u
      using update_tenant_status_quiet [OF that] 2 unfolding expired_def by fastforce
    from around_row [OF calm_parts(1) [of "()"] this calm_audit_act q] 2 show ?thesis
      unfolding expire_one_def by simp
  next
    case 3
    then show ?thesis by (intro idle) (auto simp: expire_one_def expired_def split: option.split)
  qed
qed

definition scheduled :: "cfg \<Rightarrow> int \<Rightarrow> tenant \<Rightarrow> tenant \<Rightarrow> bool" where
  "scheduled c n t t' = (
     if (case t_schedule t of None \<Rightarrow> True | Some s \<Rightarrow> empty_schedule s) \<or> opt_str (t_host_id t) = [] then t' = t
     else if schedule_should_run c (t_schedule t) n \<and> t_status t = Some ''stopped'' then t' = t\<lparr>t_status := Some ''running''\<rparr>
     else if \<not> schedule_should_run c (t_schedule t) n \<and> t_status t = Some ''running'' then t' = t\<lparr>t_status := Some ''stopped''\<rparr>
     else t' = t)"

interpretation reconciling: row_sweep "unchanged w_hosts" "reconcile_one c n" "scheduled c n" for c n
proof unfold_locales
  fix w t
  assume q: "quiet w" "map_of (w_tenants w) (t_id t) = Some t"
  let ?claim = "\<exists>w1 t'. reconcile_one c n t w = (Inr (), w1) \<and> quiet w1 \<and> unchanged w_hosts w w1 \<and>
      scheduled c n t t' \<and> map_of (w_tenants w1) = (map_of (w_tenants w))(t_id t \<mapsto> t')"
  let ?off = "(case t_schedule t of None \<Rightarrow> True | Some s \<Rightarrow> empty_schedule s) \<or> opt_str (t_host_id t) = []"
  let ?run = "schedule_should_run c (t_schedule t) n"
  have send: "calm (raw_send_command [i] cmd s)" for i cmd s by (rule calm_raw_send) simp
  have idle: ?claim if "reconcile_one c n t = ok ()" "scheduled c n t t"
    using that q by (auto simp: ok_apply unchanged_def fun_upd_idem_iff intro!: exI [of _ t])
  have set: "\<exists>w1. set_status_only (t_id t) st u = (Inr (), w1) \<and> quiet w1 \<and> w_hosts w1 = w_hosts u \<and>
      (\<exists>t'. scheduled c n t t' \<and> map_of (w_tenants w1) = (map_of (w_tenants u))(t_id t \<mapsto> t'))"
    if "quiet u" "map_of (w_tenants u) (t_id t) = Some t" "scheduled c n t (t\<lparr>t_status := Some st\<rparr>)" for u st
    using set_status_only_quiet [OF that(1,2), of st] that(3) by blast
  consider (start) "\<not> ?off" "?run" "t_status t = Some ''stopped''"
    | (stop) "\<not> ?off" "\<not> ?run" "t_status t = Some ''running''"
    | (stay) "?off \<or> (?run \<and> t_status t \<noteq> Some ''stopped'') \<or> (\<not> ?run \<and> t_status t \<noteq> Some ''running'')" by blast
  then show ?claim
  proof cases
    case start
    then have "scheduled c n t (t\<lparr>t_status := Some ''running''\<rparr>)" by (simp add: scheduled_def)
    from around_row [OF send set [OF _ _ this] calm_audit_act q] start show ?thesis
      unfolding reconcile_one_def Let_def by simp
  next
    case stop
    then have "scheduled c n t (t\<lparr>t_status := Some ''stopped''\<rparr>)" by (simp add: scheduled_def)
    from around_row [OF send set [OF _ _ this] calm_audit_act q] stop show ?thesis
      unfolding reconcile_one_def Let_def by simp
  next
    case stay
    then show ?thesis by (intro idle) (auto simp: reconcile_one_def scheduled_def Let_def)
  qed
qed

lemma keyed_after_ttl: "keeps (inv_rel keyed_world) (process_ttl_expirations c)"
  unfolding process_ttl_expirations_def expire_one_def update_tenant_status_def audit_act_def
  by (intro keeps_rules) (simp_all add: status_row_def)

lemma process_ttl_quiet:
  assumes "quiet w" "keyed (w_tenants w)" "has_tenants_table c"
  shows "\<exists>w'. process_ttl_expirations c w = (Inr (), w') \<and> quiet w' \<and> w_hosts w' = w_hosts w \<and>
    keyed (w_tenants w') \<and>
    (\<forall>k t. map_of (w_tenants w) k = Some t \<longrightarrow>
       (\<exists>t'. map_of (w_tenants w') k = Some t' \<and> expired (w_now w) t t'))"
proof -
  from expiring.sweep [OF assms(1,2), of has_expiry c "w_now w"] obtain w' where
    s: "scan_all w_tenants has_expiry w = (Inr (filter has_expiry (map snd (w_tenants w))), w)"
      "for_each (filter has_expiry (map snd (w_tenants w))) (expire_one c (w_now w)) w = (Inr (), w')"
      "quiet w'" "w_hosts w' = w_hosts w"
      "\<forall>k t. map_of (w_tenants w) k = Some t \<longrightarrow>
         (\<exists>t'. map_of (w_tenants w') k = Some t' \<and> (if has_expiry t then expired (w_now w) t t' else t' = t))"
    by (auto simp: unchanged_def)
  have run: "process_ttl_expirations c w = (Inr (), w')"
    using s(1,2) assms(3) by (simp add: process_ttl_expirations_def andThen_apply try_except_apply now_quiet ok_apply)
  have "expired n t t" if "\<not> has_expiry t" for n t
    using that by (auto simp: expired_def ttl_action_def has_expiry_def)
  then have "\<forall>k t. map_of (w_tenants w) k = Some t \<longrightarrow>
      (\<exists>t'. map_of (w_tenants w') k = Some t' \<and> expired (w_now w) t t')"
    using s(5) by (metis (full_types))
  moreover have "keyed (w_tenants w')"
    using keepsD [OF keyed_after_ttl run] assms(2) by (simp add: inv_rel_def keyed_world_def)
  ultimately show ?thesis using run s(3,4) by blast
qed

lemma reconcile_quiet:
  assumes "quiet w" "keyed (w_tenants w)" "has_tenants_table c"
  shows "\<exists>w'. reconcile_schedules c w = (Inr (), w') \<and> w_hosts w' = w_hosts w \<and>
    (\<forall>k t. map_of (w_tenants w) k = Some t \<longrightarrow>
       (\<exists>t'. map_of (w_tenants w') k = Some t' \<and> scheduled c (w_now w) t t'))"
proof -
  from reconciling.sweep [OF assms(1,2), of "\<lambda>_. True" c "w_now w"] show ?thesis
    using assms(3) by (auto simp: unchanged_def reconcile_schedules_def andThen_apply now_quiet)
qed

section \<open>Properties\<close>

text \<open>
  C24. The scaler keeps to the windows the API accepted: a tenant with an accepted schedule should
  run exactly when the local day is one of the selected ones and the local time of day, in minutes,
  lies from the start up to but excluding the stop, past midnight when the stop comes first. The
  comparison of the times as text is the comparison of the minutes. The day is that of the instant,
  so a window past midnight ends at midnight when the next day is not selected.
\<close>

theorem schedule_window:
  assumes "parse_schedule (zone_known c) v = Inr (Some s)"
    "local_clock c (the (sc_timezone s)) n = (wd, h, m)" "h < 24" "m < 60"
  shows "schedule_should_run c (Some s) n \<longleftrightarrow> sched_days ! wd \<in> set (the (sc_days s)) \<and>
    in_window (hhmm_minutes (the (sc_start s))) (hhmm_minutes (the (sc_stop s))) (60 * h + m)"
  using should_run_window [OF accepted_schedule_good [OF assms(1)] assms(2-4)] .

definition night_schedule :: schedule where
  "night_schedule = \<lparr>sc_start = Some ''22:30'', sc_stop = Some ''06:00'', sc_timezone = Some ''UTC'', sc_days = Some [''Thu'']\<rparr>"

theorem schedule_window_witness:
  "schedule_should_run cfg0 (Some night_schedule) (23 * 3600000000) \<and>
   \<not> schedule_should_run cfg0 (Some night_schedule) (25 * 3600000000)"
proof -
  let ?v = "JObj [(''start'', JStr ''22:30''), (''stop'', JStr ''06:00''), (''days'', JList [JStr ''Thu''])]"
  have p: "parse_schedule (zone_known cfg0) ?v = Inr (Some night_schedule)" by code_simp
  have t: "local_clock cfg0 (the (sc_timezone night_schedule)) (23 * 3600000000) = (3, 23, 0)"
    "local_clock cfg0 (the (sc_timezone night_schedule)) (25 * 3600000000) = (4, 1, 0)" by code_simp+
  have d: "sched_days ! 3 \<in> set (the (sc_days night_schedule))"
    "in_window (hhmm_minutes (the (sc_start night_schedule))) (hhmm_minutes (the (sc_stop night_schedule))) (60 * 23 + 0)"
    "sched_days ! 4 \<notin> set (the (sc_days night_schedule))" by code_simp+
  show ?thesis
    using schedule_window [OF p t(1)] schedule_window [OF p t(2)] d by simp
qed

text \<open>
  C23. Scaling in is safe: whatever fails during a run of the scaler, it terminates only instances
  whose row said idle with no VM at the start of the run, each termination lowers the desired
  capacity by one, and after a termination the group is not below its minimum. A host that was
  active at the start is thus never terminated in the same run.
\<close>

theorem scaler_retires_only_idle:
  assumes "scaler_handler c w = (r, w')"
  shows "\<exists>xs. w_terminated w' = w_terminated w @ xs \<and> set xs \<subseteq> idle_hosts w \<and>
    asg_desired (w_asg w') = asg_desired (w_asg w) - int (length xs) \<and>
    (xs \<noteq> [] \<longrightarrow> asg_min (w_asg w') \<le> asg_desired (w_asg w'))"
  using scaler_scale_in [OF assms] unfolding scale_in_def by blast

definition idle_world :: world where
  "idle_world = world0\<lparr>w_hosts := [(''i-1'', host4\<lparr>h_status := Some ''idle''\<rparr>)],
     w_asg := \<lparr>asg_desired = 2, asg_min = 1, asg_max = 5\<rparr>\<rparr>"

theorem scaler_retires_only_idle_witness:
  "\<exists>xs. w_terminated (snd (scaler_handler cfg0 idle_world)) = xs \<and> set xs \<subseteq> idle_hosts idle_world"
proof -
  have "scaler_handler cfg0 idle_world = (fst (scaler_handler cfg0 idle_world), snd (scaler_handler cfg0 idle_world))" by simp
  from scaler_retires_only_idle [OF this] show ?thesis by (auto simp: idle_world_def)
qed

text \<open>
  Expiry does to each tenant what its row asks for: in a world where no call fails, a tenant
  past its expiry that is not already stopped, deleted or failed ends stopped or deleted as its
  on-expiry action says, every other row is unchanged, and no host row changes: the slot of a
  tenant deleted by expiry stays booked.
\<close>

theorem ttl_expires_exactly:
  assumes "quiet w" "keyed (w_tenants w)" "has_tenants_table c"
  shows "\<exists>w'. process_ttl_expirations c w = (Inr (), w') \<and> w_hosts w' = w_hosts w \<and>
    (\<forall>k t. map_of (w_tenants w) k = Some t \<longrightarrow>
       (\<exists>t'. map_of (w_tenants w') k = Some t' \<and> expired (w_now w) t t'))"
  using process_ttl_quiet [OF assms] by blast

definition expired_tenant :: tenant where
  "expired_tenant = (fresh_tenant ''a-1'')\<lparr>t_status := Some ''running'', t_host_id := Some ''i-1'',
     t_expires_at := Some (At (- 1)), t_schedule := Some (night_schedule\<lparr>sc_stop := Some ''03:00''\<rparr>)\<rparr>"

definition expired_world :: world where
  "expired_world = world0\<lparr>w_tenants := [(''a-1'', expired_tenant)], w_hosts := [(''i-1'', host4)]\<rparr>"

theorem ttl_expires_exactly_witness:
  "\<exists>w' t'. process_ttl_expirations cfg0 expired_world = (Inr (), w') \<and> w_hosts w' = w_hosts expired_world \<and>
    map_of (w_tenants w') ''a-1'' = Some t' \<and> t_status t' = Some ''stopped''"
proof -
  have h: "quiet expired_world" "keyed (w_tenants expired_world)" "has_tenants_table cfg0"
    "map_of (w_tenants expired_world) ''a-1'' = Some expired_tenant"
    "ttl_action (w_now expired_world) expired_tenant = Some ''stop''" by code_simp+
  from ttl_expires_exactly [OF h(1-3)] h(4) obtain w' t' where
    "process_ttl_expirations cfg0 expired_world = (Inr (), w')" "w_hosts w' = w_hosts expired_world"
    "map_of (w_tenants w') ''a-1'' = Some t'" "expired (w_now expired_world) expired_tenant t'" by blast
  with h(5) show ?thesis by (auto simp: expired_def status_row_def)
qed

text \<open>
  Expiry and schedule undo each other: a tenant that expiry has just stopped is started again
  in the same run when its schedule's window is open, and stays due, so the next run stops and
  starts it again.
\<close>

theorem expiry_fights_schedule:
  assumes "quiet w" "keyed (w_tenants w)" "has_tenants_table c" "map_of (w_tenants w) k = Some t"
    "ttl_action (w_now w) t = Some ''stop''" "t_schedule t = Some s" "\<not> empty_schedule s" "opt_str (t_host_id t) \<noteq> []"
    "process_ttl_expirations c w = (Inr (), w1)" "schedule_should_run c (Some s) (w_now w1)"
  shows "\<exists>w2 t1 t2. map_of (w_tenants w1) k = Some t1 \<and> t_status t1 = Some ''stopped'' \<and>
    reconcile_schedules c w1 = (Inr (), w2) \<and> map_of (w_tenants w2) k = Some t2 \<and>
    t_status t2 = Some ''running'' \<and> ttl_action (w_now w) t2 = Some ''stop''"
proof -
  from process_ttl_quiet [OF assms(1-3)] assms(4,9) obtain t1 where
    1: "quiet w1" "keyed (w_tenants w1)" "map_of (w_tenants w1) k = Some t1" "expired (w_now w) t t1" by auto
  then obtain n where t1: "t1 = status_row ''stopped'' n t" using assms(5) by (auto simp: expired_def)
  from reconcile_quiet [OF 1(1,2) assms(3)] 1(3) obtain w2 t2 where
    2: "reconcile_schedules c w1 = (Inr (), w2)" "map_of (w_tenants w2) k = Some t2" "scheduled c (w_now w1) t1 t2" by blast
  have "t2 = t1\<lparr>t_status := Some ''running''\<rparr>"
    using 2(3) assms(6-8,10) by (simp add: scheduled_def t1 status_row_def)
  moreover have "ttl_action (w_now w) (t1\<lparr>t_status := Some ''running''\<rparr>) = Some ''stop''"
    using assms(5) by (auto simp: ttl_action_def t1 status_row_def ttl_terminal_def split: option.splits stamp.splits if_splits)
  ultimately show ?thesis using 1(3) 2(1,2) by (auto simp: t1 status_row_def)
qed

definition late_cfg :: cfg where
  "late_cfg = cfg0\<lparr>local_clock := (\<lambda>_ _. (3, 23, 30))\<rparr>"

theorem expiry_fights_schedule_witness:
  "\<exists>w1 w2 t2. process_ttl_expirations late_cfg expired_world = (Inr (), w1) \<and>
    reconcile_schedules late_cfg w1 = (Inr (), w2) \<and>
    map_of (w_tenants w2) ''a-1'' = Some t2 \<and> t_status t2 = Some ''running''"
proof -
  let ?s = "night_schedule\<lparr>sc_stop := Some ''03:00''\<rparr>"
  have h: "quiet expired_world" "keyed (w_tenants expired_world)" "has_tenants_table late_cfg"
    "map_of (w_tenants expired_world) ''a-1'' = Some expired_tenant"
    "ttl_action (w_now expired_world) expired_tenant = Some ''stop''" "t_schedule expired_tenant = Some ?s"
    "\<not> empty_schedule ?s" "opt_str (t_host_id expired_tenant) \<noteq> []"
    by code_simp+
  have run: "schedule_should_run late_cfg (Some ?s) n" for n by code_simp
  obtain w1 where w1: "process_ttl_expirations late_cfg expired_world = (Inr (), w1)"
    using process_ttl_quiet [OF h(1-3)] by blast
  from expiry_fights_schedule [OF h w1 run] w1 show ?thesis by blast
qed

end
