(* ===== verification/Backup.thy ===== *)
theory Backup
  imports Ssm Skills Hosts
begin

text \<open>
  The backup Lambda (backup/handler.py): one tenant on request, or all running tenants one after
  the other on a schedule. A backup is a blocking command on the tenant's host; only when the host
  reports success is the time of the backup recorded.
\<close>

section \<open>The handler\<close>

record backup_result =
  br_tenant :: string
  br_success :: bool
  br_timestamp :: int
  br_error :: "string option"

definition backup_command :: "cfg \<Rightarrow> string \<Rightarrow> string" where
  "backup_command c tid = ''/home/ubuntu/backup-data.sh '' @ tid @ '' '' @ assets_bucket c @ '' '' @ backup_prefix c"

definition backup_ssm_run :: "string \<Rightarrow> string \<Rightarrow> int \<Rightarrow> (world, bool \<times> string) io" where
  "backup_ssm_run inst cmd timeout = run inst cmd timeout 5 3"

definition backup_tenant :: "cfg \<Rightarrow> tenant \<Rightarrow> (world, backup_result) io" where
  "backup_tenant c t =
     andThen (lift_sum (required ''host_id'' (t_host_id t))) (\<lambda>host_id.
     andThen now (\<lambda>n.
     andThen (backup_ssm_run host_id (backup_command c (t_id t)) 300) (\<lambda>(success, output).
     andThen (if success
        then andThen (update_tenant (t_id t) no_cond (set_attrs (\<lambda>r. r\<lparr>t_last_backup_at := Some (At n)\<rparr>))) (\<lambda>_. ok ())
        else ok ()) (\<lambda>_.
     ok \<lparr>br_tenant = t_id t, br_success = success, br_timestamp = n,
         br_error = (if success then None else Some output)\<rparr>))))"

datatype backup_answer = NotRunning | One backup_result | Many "backup_result list"

primrec backup_each :: "cfg \<Rightarrow> tenant list \<Rightarrow> (world, backup_result list) io" where
  "backup_each c [] = ok []"
| "backup_each c (t # ts) = andThen (backup_tenant c t) (\<lambda>r. andThen (backup_each c ts) (\<lambda>rs. ok (r # rs)))"

text \<open>The argument is the event's \<open>tenant_id\<close>, absent in a scheduled event.\<close>

definition backup_handler :: "cfg \<Rightarrow> string option \<Rightarrow> (world, backup_answer) io" where
  "backup_handler c tenant_id = (
     if opt_str tenant_id \<noteq> [] then
       andThen (get_tenant_row (opt_str tenant_id)) (\<lambda>item. case item of
         None \<Rightarrow> ok NotRunning
       | Some t \<Rightarrow> if t_status t \<noteq> Some ''running'' then ok NotRunning
           else andThen (backup_tenant c t) (\<lambda>r. ok (One r)))
     else andThen (scan_all w_tenants (\<lambda>t. t_status t = Some ''running'')) (\<lambda>tenants.
       andThen (backup_each c tenants) (\<lambda>rs. ok (Many rs))))"

section \<open>Lemmas\<close>

lemma update_replies: "update_tenant k cnd u w = (r, w') \<Longrightarrow> w_replies w' = w_replies w"
proof -
  assume r: "update_tenant k cnd u w = (r, w')"
  have "keeps (unchanged w_replies) (update_tenant k cnd u)" by (rule keeps_rules)
  with r show ?thesis by (auto simp: unchanged_def dest: keepsD)
qed

lemma run_tables: "run i cmd t a b w = (r, w') \<Longrightarrow> w_tenants w' = w_tenants w \<and> w_hosts w' = w_hosts w"
proof -
  assume r: "run i cmd t a b w = (r, w')"
  have "keeps (unchanged w_tenants) (run i cmd t a b)" "keeps (unchanged w_hosts) (run i cmd t a b)"
    by (rule keeps_rules)+
  with r show ?thesis by (auto simp: unchanged_def dest: keepsD)
qed

lemma backup_tenant_cases:
  assumes "backup_tenant c t w = (Inr r, w')"
  shows "br_tenant r = t_id t \<and> w_hosts w' = w_hosts w \<and>
    (br_success r \<longrightarrow> br_error r = None \<and> (\<exists>out err. decided_by (Reply ''Success'' out err) w w') \<and>
       w_tenants w' = AList.update (t_id t) ((tenant_or_fresh w (t_id t))\<lparr>t_last_backup_at := Some (At (br_timestamp r))\<rparr>) (w_tenants w)) \<and>
    (\<not> br_success r \<longrightarrow> br_error r \<noteq> None \<and> w_tenants w' = w_tenants w)"
proof -
  obtain hid s out w1 where h: "t_host_id t = Some hid"
    and s: "backup_ssm_run hid (backup_command c (t_id t)) 300 w = (Inr (s, out), w1)"
    and rest: "(s \<and> (\<exists>row. update_tenant (t_id t) no_cond (set_attrs (\<lambda>r. r\<lparr>t_last_backup_at := Some (At (w_now w))\<rparr>)) w1 = (Inr row, w'))) \<or>
      (\<not> s \<and> w' = w1)"
    and r: "r = \<lparr>br_tenant = t_id t, br_success = s, br_timestamp = w_now w, br_error = (if s then None else Some out)\<rparr>"
    using assms
    by (auto simp: backup_tenant_def io_inv required_def now_def split: option.splits if_splits)
  note t = run_tables [OF s [unfolded backup_ssm_run_def]]
  show ?thesis
  proof (cases s)
    case True
    with rest obtain row where
      u: "update_tenant (t_id t) no_cond (set_attrs (\<lambda>r. r\<lparr>t_last_backup_at := Some (At (w_now w))\<rparr>)) w1 = (Inr row, w')" by blast
    have "tenant_or_fresh w1 (t_id t) = tenant_or_fresh w (t_id t)" using t by (simp add: tenant_or_fresh_def)
    moreover obtain err where "decided_by (Reply ''Success'' out err) w w'"
      using run_decides [of hid "backup_command c (t_id t)" 300 5 3 w out w1] s True
        decided_by_replies [OF _ update_replies [OF u] refl] by (auto simp: backup_ssm_run_def)
    ultimately show ?thesis using set_tenant_Inr [OF u] t True r by auto
  next
    case False
    with rest t r show ?thesis by simp
  qed
qed

lemma backup_each_ids: "backup_each c ts w = (Inr rs, w') \<Longrightarrow> map br_tenant rs = map t_id ts"
proof (induction ts arbitrary: w rs)
  case (Cons t ts)
  then obtain r w1 rs' where r: "backup_tenant c t w = (Inr r, w1)" "backup_each c ts w1 = (Inr rs', w')" "rs = r # rs'"
    by (auto simp: andThen_Inr)
  with backup_tenant_cases [OF r(1)] Cons.IH [OF r(2)] show ?case by simp
qed simp

section \<open>Properties\<close>

text \<open>
  A backup is recorded only when it happened: the time of the last backup changes exactly if
  the result says success, which it does only on the host's word, it becomes the time of the
  result, and nothing else of the tenants and hosts changes.
\<close>

theorem backup_recorded_truthfully:
  assumes "backup_tenant c t w = (Inr r, w')"
  shows "br_tenant r = t_id t \<and> w_hosts w' = w_hosts w \<and>
    (br_success r \<longrightarrow> br_error r = None \<and> (\<exists>out err. decided_by (Reply ''Success'' out err) w w') \<and>
       w_tenants w' = AList.update (t_id t) ((tenant_or_fresh w (t_id t))\<lparr>t_last_backup_at := Some (At (br_timestamp r))\<rparr>) (w_tenants w)) \<and>
    (\<not> br_success r \<longrightarrow> br_error r \<noteq> None \<and> w_tenants w' = w_tenants w)"
  using backup_tenant_cases [OF assms] .


definition backup_world :: world where
  "backup_world = world0\<lparr>w_tenants := [(''a-1'', (fresh_tenant ''a-1'')\<lparr>t_host_id := Some ''i-1''\<rparr>)],
     w_replies := [Reply ''Success'' ''done'' '''']\<rparr>"

theorem backup_recorded_truthfully_witness:
  "\<exists>r w'. backup_tenant cfg0 ((fresh_tenant ''a-1'')\<lparr>t_host_id := Some ''i-1''\<rparr>) backup_world = (Inr r, w') \<and>
    br_success r \<and> w_tenants w' = AList.update ''a-1''
      ((fresh_tenant ''a-1'')\<lparr>t_host_id := Some ''i-1'', t_last_backup_at := Some (At (br_timestamp r))\<rparr>) (w_tenants backup_world)"
proof -
  let ?t = "(fresh_tenant ''a-1'')\<lparr>t_host_id := Some ''i-1''\<rparr>"
  let ?cmd = "backup_command cfg0 ''a-1''"
  have w: "quiet backup_world" "w_replies backup_world = Reply ''Success'' ''done'' '''' # []"
    "map_of (w_tenants backup_world) ''a-1'' = Some ?t"
    by (simp_all add: backup_world_def quiet_def)
  have t: "t_id ?t = ''a-1''" "t_host_id ?t = Some ''i-1''" by (simp_all add: fresh_tenant_def)
  obtain w1 where run: "run ''i-1'' ?cmd 300 5 3 backup_world = (Inr (True, ''done''), w1)" "quiet w1"
    using run_success_quiet [OF w(1,2)] by blast
  then obtain r w' where b: "backup_tenant cfg0 ?t backup_world = (Inr r, w')" "br_success r"
    by (simp add: backup_tenant_def backup_ssm_run_def t io_simps required_def now_quiet set_tenant_quiet)
  with backup_recorded_truthfully [OF b(1)] w(3) t show ?thesis by auto
qed

end
