(* ===== verification/Gates.thy ===== *)
theory Gates
  imports Actions
begin

text \<open>
  What the health-check Lambda (health_check/handler.py) and its failover worker share: the audit
  and alarm writers, the booking of a moved VM on its target host, the search for the latest
  backup, the two verification gates (a probe on the host, a probe through the public path) and
  the repointing of a tenant's listener rule. The answers to the public probe are the next entries
  of \<open>w_http\<close>; when the list is used up every further request times out.
\<close>

section \<open>Audit rows and alarms\<close>

definition hc_event_map :: "(string \<times> string) list" where
  "hc_event_map = [
    (''MIGRATION_COMPLETED'', ''vm.migrated''), (''MIGRATION_FAILED'', ''vm.migrate_failed''),
    (''AZ_FAILOVER_TRIGGERED'', ''az.failover_triggered''),
    (''AZ_FAILOVER_COMPLETED'', ''az.failover_completed''),
    (''AZ_FAILOVER_NO_TENANTS_AFFECTED'', ''az.failover_noop''),
    (''AZ_FAILOVER_NO_TARGET'', ''az.failover_no_target''),
    (''AZ_FAILOVER_PARTIAL'', ''az.failover_partial''),
    (''AZ_FAILOVER_SKIPPED_COOLDOWN'', ''az.failover_cooldown''),
    (''HOST_TERMINATED'', ''host.terminated''), (''HOST_REAPED_TENANTS'', ''host.tenants_reaped'')]"

text \<open>A detail that is text; the details the code looks up here are all texts.\<close>

definition detail_text :: "(string \<times> json) list \<Rightarrow> string \<Rightarrow> string" where
  "detail_text d k = (case map_of d k of Some (JStr s) \<Rightarrow> s | _ \<Rightarrow> '''')"

definition audit_subject :: "(string \<times> json) list \<Rightarrow> string \<times> string" where
  "audit_subject d = (
     let tenant_id = detail_text d ''tenant_id''; az = detail_text d ''az'';
         host_id = (if detail_text d ''host_id'' \<noteq> [] then detail_text d ''host_id'' else detail_text d ''instance_id'') in
     if tenant_id \<noteq> [] then (''tenant:'' @ tenant_id, tenant_id)
     else if host_id \<noteq> [] then (''host:'' @ host_id, host_id)
     else if az \<noteq> [] then (''az:'' @ az, az)
     else (''system'', ''''))"

definition audit_source :: "string \<Rightarrow> (string \<times> json) list \<Rightarrow> string" where
  "audit_source operation d = (
     if detail_text d ''source'' \<noteq> [] then detail_text d ''source''
     else if detail_text d ''az'' \<noteq> [] \<and> contains ''FAILOVER'' operation then ''az-failover''
     else ''health-check'')"

definition emit_audit :: "cfg \<Rightarrow> string \<Rightarrow> (string \<times> json) list \<Rightarrow> (world, unit) io" where
  "emit_audit c operation detail = (if \<not> has_audit_table c then ok ()
     else (case audit_subject detail of (obj, rid) \<Rightarrow>
       put_audit_row c
         (case map_of hc_event_map operation of Some e \<Rightarrow> e | None \<Rightarrow> ascii_lower operation)
         obj rid (''system:'' @ audit_source operation detail) ''system'' (Some operation) (Some 200)
         (Some (JObj detail)) (Some ''system:health-check-lambda'')))"

text \<open>\<open>sns.publish\<close> under \<open>try ... except: pass\<close>, only with a topic.\<close>

definition alarm :: "cfg \<Rightarrow> string \<Rightarrow> json \<Rightarrow> (world, unit) io" where
  "alarm c subject message = whenever (sns_topic_arn c \<noteq> [])
     (best_effort (publish (sns_topic_arn c) subject message))"

definition emit_sns_notification :: "cfg \<Rightarrow> string \<Rightarrow> string list \<Rightarrow> int \<Rightarrow> (world, unit) io" where
  "emit_sns_notification c az host_ids recovered_count = andThen now (\<lambda>n.
     alarm c (''[OpenClaw] AZ failover triggered: '' @ az) (JObj [(''event'', JStr ''az_failover''),
       (''az'', JStr az), (''host_ids'', JList (map JStr host_ids)),
       (''host_count'', JInt (int (length host_ids))), (''tenants_recovered'', JInt recovered_count),
       (''timestamp'', JStr (iso_format n))]))"

section \<open>Commands and counters\<close>

definition hc_send :: "string \<Rightarrow> string \<Rightarrow> int \<Rightarrow> (world, string option) io" where
  "hc_send inst cmd timeout = try_except (ssm_send (Some inst) cmd timeout) (\<lambda>_. ok None)"

definition drop_peer_command :: "string \<Rightarrow> string" where
  "drop_peer_command tid = ''rm -f /etc/nginx/conf.d/tenant-peers/'' @ tid @ ''.conf && nginx -s reload''"

text \<open>A conditional write that a concurrent create can only win.\<close>

definition below_next :: "int \<Rightarrow> host option \<Rightarrow> bool" where
  "below_next nn row = (case row of None \<Rightarrow> True
     | Some h \<Rightarrow> (case h_next_vm_num h of None \<Rightarrow> True | Some n \<Rightarrow> n < nn))"

definition bump_target_counters :: "string \<Rightarrow> int \<Rightarrow> int \<Rightarrow> int \<Rightarrow> (world, unit) io" where
  "bump_target_counters tgt tvn vcpu mem_mb =
     andThen (best_effort (andThen (update_host tgt no_cond (set_attrs (booked vcpu mem_mb))) (\<lambda>_. ok ()))) (\<lambda>_.
     best_effort (andThen (update_host tgt (below_next (tvn + 1))
       (set_attrs (\<lambda>h. h\<lparr>h_next_vm_num := Some (tvn + 1)\<rparr>))) (\<lambda>_. ok ())))"

section \<open>The latest backup\<close>

definition find_latest_backup_key :: "cfg \<Rightarrow> string \<Rightarrow> (world, string option) io" where
  "find_latest_backup_key c tid = (if assets_bucket c = [] \<or> tid = [] then ok None
     else try_except (andThen (list_page (''backups/'' @ tid @ ''/'')) (\<lambda>objs.
         case sort_desc o_modified objs of [] \<Rightarrow> ok None | ob # _ \<Rightarrow> ok (Some (o_key ob))))
       (\<lambda>_. ok None))"

section \<open>The gate on the host\<close>

definition probe_command :: "string \<Rightarrow> string" where
  "probe_command tid =
     ''pgrep -f '' @ quoted (''api-sock /data/firecracker-vms/'' @ tid @ ''/fc.sock'') @
     '' >/dev/null || (echo NOT_RUNNING_NO_PROCESS; exit 1); test -f /etc/nginx/conf.d/tenants/'' @ tid @
     ''.conf || (echo NOT_RUNNING_NO_NGINX_CONF; exit 1); code=$(curl -s -o /dev/null -w '' @ quoted ''%{http_code}'' @
     '' --max-time 5 http://127.0.0.1/vm/'' @ tid @ ''/); if [ '' @ dq ''$code'' @ '' = '' @ dq ''000'' @ '' ] || [ '' @
     dq ''$code'' @ '' -ge 500 ] 2>/dev/null; then echo NOT_RUNNING_HTTP_$code; exit 1; else echo VERIFIED_HTTP_$code; fi''"

text \<open>One probe; whatever goes wrong counts as a failed one.\<close>

definition vm_probe :: "string \<Rightarrow> string \<Rightarrow> (world, bool) io" where
  "vm_probe i tid = try_except
     (andThen (raw_send_command [i] (probe_command tid) 15) (\<lambda>cmd_id.
      andThen (wait cmd_id i 20 every_2s) (\<lambda>(okay, err).
      if okay then andThen (get_invocation cmd_id i) (\<lambda>(st, out, err). ok (contains ''VERIFIED'' out))
      else ok False)))
     (\<lambda>_. ok False)"

lemma wait_loop_now: "w_now w \<le> w_now (snd (wait_loop p c i t d l w))"
proof (induction p c i t d l w rule: wait_loop.induct)
  case (1 p c i t d l w)
  let ?w1 = "snd (sleep (numeral p) w)" and ?w2 = "snd (get_invocation c i (snd (sleep (numeral p) w)))"
  have "w_now w \<le> w_now ?w1" by (simp add: sleep_def)
  then have step: "w_now w \<le> w_now ?w2" using get_invocation_now [of ?w1 c i] by linarith
  show ?case
  proof (cases "w_now w < d")
    case True
    from "1.IH" [OF True refl refl] step show ?thesis
      by (subst wait_loop.simps) (auto simp: True Let_def intro: order_trans [OF step] split: sum.splits prod.splits)
  qed (subst wait_loop.simps, simp)
qed

text \<open>Time only moves forward.\<close>

definition later :: "world \<Rightarrow> world \<Rightarrow> bool" where
  "later w w' = (w_now w \<le> w_now w')"

interpretation forward: frame later
  by unfold_locales (auto simp: later_def)

lemma keeps_later_aws: "keeps later m \<Longrightarrow> keeps later (aws m)"
  unfolding keeps_def later_def by (auto intro: aws_now_mono)

lemma keeps_later_calls [keeps_rules]:
  "keeps later (raw_send_command is cmd t)" "keeps later (get_invocation cid i)" "keeps later (wait cid i t p)"
proof -
  show "keeps later (raw_send_command is cmd t)"
    unfolding raw_send_command_def by (rule keeps_later_aws) (simp add: keeps_def later_def Let_def)
qed (simp_all add: keeps_def later_def get_invocation_now wait_def wait_loop_now)

lemma vm_probe_now: "w_now w \<le> w_now (snd (vm_probe i tid w))"
proof -
  have "keeps later (vm_probe i tid)" unfolding vm_probe_def by (intro keeps_rules)
  then show ?thesis by (simp add: keeps_def later_def)
qed

function verify_vm_loop :: "string \<Rightarrow> string \<Rightarrow> int \<Rightarrow> world \<Rightarrow> (exn + bool) \<times> world" where
  "verify_vm_loop i tid deadline w = (if w_now w < deadline
     then (let w1 = snd (vm_probe i tid w) in
       if fst (vm_probe i tid w) = Inr True then (Inr True, w1)
       else verify_vm_loop i tid deadline (snd (sleep 10 w1)))
     else (Inr False, w))"
  by pat_completeness auto
termination
proof (relation "measure (\<lambda>(i, t, d, w). nat (d - w_now w))")
  fix i t :: string and d :: int and w w1 :: world
  assume "w_now w < d" "w1 = snd (vm_probe i t w)"
  moreover have "w_now w1 + 10000000 = w_now (snd (sleep 10 w1))" by (simp add: sleep_def)
  ultimately show "((i, t, d, snd (sleep 10 w1)), i, t, d, w) \<in> measure (\<lambda>(i, t, d, w). nat (d - w_now w))"
    using vm_probe_now [of w i t] by simp
qed simp

declare verify_vm_loop.simps [simp del]

definition verify_vm_actually_running :: "string \<Rightarrow> string \<Rightarrow> int \<Rightarrow> (world, bool) io" where
  "verify_vm_actually_running i tid timeout = (\<lambda>w. verify_vm_loop i tid (w_now w + seconds timeout) w)"


section \<open>The gate on the public path\<close>

definition reachable_status :: "int \<Rightarrow> bool" where
  "reachable_status s = ((200 \<le> s \<and> s < 400) \<or> s \<in> {401, 403})"

text \<open>\<open>urlopen\<close>: an answer below 400 (after redirects), an \<open>HTTPError\<close> with its code, or no answer.\<close>

definition http_get :: "string \<Rightarrow> (world, http_reply) io" where
  "http_get url = aws (\<lambda>w. case w_http w of
       [] \<Rightarrow> (Inr (ConnErr ''timed out''), w) | r # rs \<Rightarrow> (Inr r, w\<lparr>w_http := rs\<rparr>))"

definition serves :: "http_reply \<Rightarrow> bool" where
  "serves r = (case r of HttpOk s \<Rightarrow> reachable_status s | HttpErr s \<Rightarrow> reachable_status s | ConnErr e \<Rightarrow> False)"

lemma serves_simps [simp]:
  "serves (HttpOk s) = reachable_status s" "serves (HttpErr s) = reachable_status s" "\<not> serves (ConnErr e)"
  by (simp_all add: serves_def)

definition public_probe :: "string \<Rightarrow> (world, bool) io" where
  "public_probe url = try_except (andThen (http_get url) (\<lambda>r. ok (serves r))) (\<lambda>_. ok False)"

lemma keeps_later_http [keeps_rules]: "keeps later (http_get url)"
  unfolding http_get_def by (rule keeps_later_aws) (simp add: keeps_def later_def split: list.split)

lemma public_probe_now: "w_now w \<le> w_now (snd (public_probe url w))"
proof -
  have "keeps later (public_probe url)" unfolding public_probe_def by (intro keeps_rules)
  then show ?thesis by (simp add: keeps_def later_def)
qed

text \<open>The streak of successes counts up to \<open>needed\<close>; any failure starts it anew.\<close>

function dashboard_loop :: "num \<Rightarrow> string \<Rightarrow> nat \<Rightarrow> int \<Rightarrow> nat \<Rightarrow> world \<Rightarrow> (exn + bool) \<times> world" where
  "dashboard_loop p url needed deadline streak w = (if w_now w < deadline
     then (let w1 = snd (public_probe url w) in
       if fst (public_probe url w) = Inr True
       then (if Suc streak \<ge> needed then (Inr True, w1)
             else dashboard_loop p url needed deadline (Suc streak) (snd (sleep (numeral p) w1)))
       else dashboard_loop p url needed deadline 0 (snd (sleep (numeral p) w1)))
     else (Inr False, w))"
  by pat_completeness auto
termination
proof (relation "measure (\<lambda>(p, u, k, d, s, w). nat (d - w_now w))")
  fix p :: num and u :: string and k s :: nat and d :: int and w w1 :: world
  assume "w_now w < d" "w1 = snd (public_probe u w)"
  moreover have "w_now w1 < w_now (snd (sleep (numeral p) w1))" by (simp add: sleep_def)
  ultimately have "nat (d - w_now (snd (sleep (numeral p) w1))) < nat (d - w_now w)"
    using public_probe_now [of w u] by simp
  then show "((p, u, k, d, Suc s, snd (sleep (numeral p) w1)), p, u, k, d, s, w) \<in> measure (\<lambda>(p, u, k, d, s, w). nat (d - w_now w))"
    "((p, u, k, d, 0, snd (sleep (numeral p) w1)), p, u, k, d, s, w) \<in> measure (\<lambda>(p, u, k, d, s, w). nat (d - w_now w))"
    by simp_all
qed simp

declare dashboard_loop.simps [simp del]

definition dashboard_url :: "string \<Rightarrow> string \<Rightarrow> string" where
  "dashboard_url base tid = rev (dropWhile (\<lambda>ch. ch = CHR ''/'') (rev base)) @ ''/vm/'' @ tid @ ''/''"

definition verify_dashboard :: "cfg \<Rightarrow> string \<Rightarrow> string \<Rightarrow> int \<Rightarrow> (world, bool) io" where
  "verify_dashboard c tid base timeout = (if base = [] then ok False
     else (\<lambda>w. dashboard_loop every_3s (dashboard_url base tid) (nat (max 1 (verify_consecutive_ok c)))
            (w_now w + seconds timeout) 0 w))"

definition verify_seconds :: "cfg \<Rightarrow> int" where
  "verify_seconds c = (if host_tg_mode c then 90 else 30)"

section \<open>Repointing the listener rule\<close>

definition describe_target_groups :: "(world, target_group list) io" where
  "describe_target_groups = aws (gets w_tgs)"

definition hc_host_tg :: "cfg \<Rightarrow> string \<Rightarrow> (world, string) io" where
  "hc_host_tg c i = (let nm = ''oc-'' @ last8 i in
     andThen (try_except (andThen (describe_target_group nm) (\<lambda>a. ok (Some a))) (\<lambda>_. ok None)) (\<lambda>found. case found of
       Some arn \<Rightarrow> ok arn
     | None \<Rightarrow>
         andThen (if vpc_id c \<noteq> [] then ok (vpc_id c)
            else andThen describe_target_groups (\<lambda>tgs. case tgs of
                [] \<Rightarrow> raise (runtime_error ''cannot create target group: VPC_ID env not set and no existing target group to clone VPC from'')
              | t # _ \<Rightarrow> ok (tg_vpc t))) (\<lambda>vpc.
         create_target_group nm vpc)))"

text \<open>Six attempts; after the sixth conflict the loop just ends.\<close>

primrec hc_rule_attempts :: "cfg \<Rightarrow> string \<Rightarrow> string \<Rightarrow> nat \<Rightarrow> (world, unit) io" where
  "hc_rule_attempts c tid tg_arn 0 = ok ()"
| "hc_rule_attempts c tid tg_arn (Suc n) =
     andThen describe_rules (\<lambda>live.
     if list_ex (mentions tid) live then ok ()
     else let free = free_priorities c live in
       if free = [] then raise (no_free_priority c live)
       else andThen (rand_below (length free)) (\<lambda>k.
         andThen (try_except
             (andThen (create_rule (free ! k) [vm_path tid, vm_path tid @ ''/*''] tg_arn) (\<lambda>_. ok True))
             (\<lambda>e. if error_code e \<noteq> ''PriorityInUseException'' then raise e else ok False)) (\<lambda>created.
         if created then ok () else hc_rule_attempts c tid tg_arn n)))"

definition repoint_alb_rule :: "cfg \<Rightarrow> string \<Rightarrow> string \<Rightarrow> string \<Rightarrow> (world, unit) io" where
  "repoint_alb_rule c tid target_id private_ip = (
     if host_tg_mode c then ok ()
     else if listener_arn c = [] then ok ()
     else andThen (hc_host_tg c target_id) (\<lambda>tg_arn.
       andThen (best_effort (register_target tg_arn private_ip)) (\<lambda>_.
       andThen describe_rules (\<lambda>rules. case find (path_rule_of tid) rules of
         None \<Rightarrow> hc_rule_attempts c tid tg_arn 6
       | Some r \<Rightarrow> modify_rule (r_arn r) tg_arn))))"

section \<open>Frames\<close>

text \<open>
  What these operations touch besides the two tables: commands, the log, the topic, the listener,
  and the answers of the public path.
\<close>

context log_blind
begin

lemma keeps_emit_audit [keeps_rules]: "keeps R (emit_audit c e d)"
  unfolding emit_audit_def by (intro keeps_rules)

lemma keeps_alarm [keeps_rules]: "keeps R (alarm c s m)"
  unfolding alarm_def by (intro keeps_rules)

lemma keeps_emit_sns [keeps_rules]: "keeps R (emit_sns_notification c az hs n)"
  unfolding emit_sns_notification_def by (intro keeps_rules)

end

context ssm_sender
begin

lemma keeps_hc_send [keeps_rules]: "keeps R (hc_send i cmd t)"
  unfolding hc_send_def ssm_send_def by (intro keeps_rules)

end

context aws_frame
begin

lemma keeps_find_latest [keeps_rules]: "keeps R (find_latest_backup_key c tid)"
  unfolding find_latest_backup_key_def by (intro keeps_rules)

end

context alb_blind
begin

lemma keeps_hc_rule_attempts [keeps_rules]: "keeps R (hc_rule_attempts c tid tg n)"
proof (induction n)
  case (Suc n)
  show ?case unfolding hc_rule_attempts.simps Let_def by (intro keeps_rules Suc)
qed (simp add: keeps_ok)

lemma keeps_repoint_rule [keeps_rules]: "keeps R (repoint_alb_rule c tid i ip)"
  unfolding repoint_alb_rule_def hc_host_tg_def describe_target_groups_def Let_def by (intro keeps_rules)

end

context ssm_blind
begin

lemma keeps_vm_probe [keeps_rules]: "keeps R (vm_probe i tid)"
  unfolding vm_probe_def by (intro keeps_rules)

lemma keeps_verify_vm_loop: "R w (snd (verify_vm_loop i tid d w))"
proof (induction i tid d w rule: verify_vm_loop.induct)
  case (1 i tid d w)
  have step: "R w (snd (vm_probe i tid w))" "R w (snd (sleep 10 (snd (vm_probe i tid w))))"
    using keeps_vm_probe keeps_sleep frame_trans unfolding keeps_def by blast+
  with "1.IH" show ?case
    by (subst verify_vm_loop.simps) (auto simp: Let_def frame_refl intro: frame_trans)
qed

lemma keeps_verify_vm [keeps_rules]: "keeps R (verify_vm_actually_running i tid t)"
  unfolding verify_vm_actually_running_def keeps_def using keeps_verify_vm_loop by blast

end

locale http_blind = aws_frame +
  assumes frame_http: "R w (w\<lparr>w_http := rs\<rparr>)"
begin

lemma keeps_public_probe [keeps_rules]: "keeps R (public_probe url)"
  unfolding public_probe_def http_get_def
  by (intro keeps_rules) (simp add: keeps_def frame_refl frame_http split: list.split)

lemma keeps_dashboard_loop: "R w (snd (dashboard_loop p u k d s w))"
proof (induction p u k d s w rule: dashboard_loop.induct)
  case (1 p u k d s w)
  have step: "R w (snd (public_probe u w))" "R w (snd (sleep (numeral p) (snd (public_probe u w))))"
    using keeps_public_probe keeps_sleep frame_trans unfolding keeps_def by blast+
  with "1.IH" show ?case
    by (subst dashboard_loop.simps) (auto simp: Let_def frame_refl intro: frame_trans)
qed

lemma keeps_verify_dashboard [keeps_rules]: "keeps R (verify_dashboard c tid b t)"
  unfolding verify_dashboard_def by (intro keeps_rules) (simp add: keeps_def keeps_dashboard_loop)

end

locale service_blind = ssm_blind + log_blind + alb_blind + http_blind

text \<open>Answers are only ever taken from the front of the list.\<close>

definition reading :: "world \<Rightarrow> world \<Rightarrow> bool" where
  "reading w w' = suffix (w_replies w') (w_replies w)"

interpretation reading_on: host_blind reading
  by unfold_locales (auto simp: reading_def intro: suffix_order.trans)

interpretation reading_on: tenant_blind reading
  by unfold_locales (auto simp: reading_def)

interpretation reading_on: service_blind reading
  by unfold_locales (simp_all add: reading_def)

interpretation replies_same: http_blind "unchanged w_replies"
  by unfold_locales (simp_all add: unchanged_def)

interpretation queue_same: service_blind "unchanged w_queue"
  by unfold_locales (simp_all add: unchanged_def)

interpretation rules_same: http_blind "unchanged w_rules"
  by unfold_locales (simp_all add: unchanged_def)

interpretation staying_quiet: service_blind "inv_rel quiet"
  by unfold_locales (auto simp: inv_rel_def quiet_def)

interpretation keyed_kept: service_blind "inv_rel keyed_world"
  by unfold_locales (simp_all add: inv_rel_def keyed_world_def)

interpretation one_tenant: service_blind "others_same k" for k
  by unfold_locales (simp_all add: others_same_def)

interpretation staying_rows: service_blind rows_stay
  by unfold_locales (simp_all add: rows_stay_def)

interpretation tenants_same: service_blind "unchanged w_tenants"
  by unfold_locales (simp_all add: unchanged_def)

interpretation hosts_same: service_blind "unchanged w_hosts"
  by unfold_locales (simp_all add: unchanged_def)

lemma keeps_bump [keeps_rules]:
  "keeps (unchanged w_tenants) (bump_target_counters tgt n v m)"
  "keeps (inv_rel quiet) (bump_target_counters tgt n v m)"
  "keeps (inv_rel keyed_world) (bump_target_counters tgt n v m)"
  "keeps (others_same k) (bump_target_counters tgt n v m)"
  "keeps rows_stay (bump_target_counters tgt n v m)"
  "keeps (unchanged w_replies) (bump_target_counters tgt n v m)"
  "keeps (unchanged w_http) (bump_target_counters tgt n v m)"
  "keeps (unchanged w_rules) (bump_target_counters tgt n v m)"
  "keeps (unchanged w_queue) (bump_target_counters tgt n v m)"
  "keeps reading (bump_target_counters tgt n v m)"
  unfolding bump_target_counters_def by (intro keeps_rules)+


lemma emit_audit_total: "\<exists>w'. emit_audit c e d w = (Inr (), w')"
  by (auto simp: emit_audit_def put_audit_row_def ok_def best_effort_apply split: prod.splits)

lemma hc_send_total: "\<exists>x w'. hc_send i cmd t w = (Inr x, w')"
proof -
  have "\<exists>x. fst (hc_send i cmd t w) = Inr x" unfolding hc_send_def by (rule try_except_total) (simp add: ok_apply)
  then show ?thesis by (metis prod.collapse)
qed

lemma hc_send_same:
  assumes "hc_send i cmd t w = (r, w')"
  shows "w_tenants w' = w_tenants w" "w_replies w' = w_replies w" "w_http w' = w_http w"
  by (rule tables_of [of _ "hc_send i cmd t", OF _ assms], rule keeps_rules)+

section \<open>What the gates require\<close>

text \<open>
  What the probe script prints when the process and the configuration are there or not and the
  local request is answered \<open>code\<close>: each \<open>exit\<close> of the first two checks leaves only the
  parentheses it stands in, so the script always goes on to the request.
\<close>

definition probe_output :: "bool \<Rightarrow> bool \<Rightarrow> int \<Rightarrow> string" where
  "probe_output has_process has_conf code =
     (if has_process then '''' else ''NOT_RUNNING_NO_PROCESS'' @ [newline]) @
     (if has_conf then '''' else ''NOT_RUNNING_NO_NGINX_CONF'' @ [newline]) @
     (if code = 0 \<or> code \<ge> 500 then ''NOT_RUNNING_HTTP_'' else ''VERIFIED_HTTP_'') @ pad 3 code @ [newline]"

lemma after_sub_append: "contains pat s \<Longrightarrow> contains pat (t @ s)"
  unfolding contains_def by (induction t) (auto split: if_splits)

lemma contains_start: "contains pat (pat @ s)"
proof (cases "pat @ s")
  case (Cons x xs)
  have "prefix pat (x # xs)" unfolding Cons [symmetric] by simp
  with Cons show ?thesis by (simp add: contains_def)
qed (simp add: contains_def)

lemma probe_output_verified:
  assumes "code \<noteq> 0" "code < 500"
  shows "contains ''VERIFIED'' (probe_output p f code)"
proof -
  have "contains ''VERIFIED'' (''VERIFIED_HTTP_'' @ pad 3 code @ [newline])"
    using contains_start [of "''VERIFIED''" "''_HTTP_'' @ pad 3 code @ [newline]"] by simp
  with assms show ?thesis unfolding probe_output_def by (auto intro!: after_sub_append simp del: append.simps)
qed

text \<open>Between \<open>w\<close> and \<open>w'\<close> the answers \<open>rs\<close> were read from the public path.\<close>

definition answered :: "http_reply list \<Rightarrow> world \<Rightarrow> world \<Rightarrow> bool" where
  "answered rs w w' = (w_http w = rs @ w_http w')"

lemma answered_trans: "answered a u v \<Longrightarrow> answered b v w \<Longrightarrow> answered (a @ b) u w"
  by (simp add: answered_def)

lemma public_probe_True:
  assumes "public_probe url w = (Inr True, w')"
  shows "\<exists>r. serves r \<and> answered [r] w w'"
proof -
  obtain r where r: "http_get url w = (Inr r, w')" "serves r"
    using assms by (auto simp: public_probe_def try_except_Inr andThen_Inr)
  from r(1) show ?thesis unfolding http_get_def
    by (cases rule: aws_elim) (use r(2) in \<open>auto simp: answered_def serves_def split: list.splits\<close>)
qed

lemma http_get_any:
  assumes "http_get url w = (r, w')"
  shows "\<exists>rs. answered rs w w'"
  using assms unfolding http_get_def
  by (cases rule: aws_elim) (auto simp: answered_def split: list.splits)

lemma public_probe_any: "\<exists>rs. answered rs w (snd (public_probe url w))"
  using http_get_any [of url w "fst (http_get url w)" "snd (http_get url w)"]
  by (simp add: public_probe_def io_simps split: sum.split)

text \<open>A pass ends with a streak of the length asked for, nothing in between.\<close>

lemma dashboard_loop_streak:
  assumes "dashboard_loop p u k d s w = (Inr True, w')" "s < k"
  shows "\<exists>pre good. answered (pre @ good) w w' \<and> (\<forall>r \<in> set good. serves r) \<and>
    (length good = k \<or> pre = [] \<and> s + length good = k)"
  using assms
proof (induction p u k d s w rule: dashboard_loop.induct)
  case (1 p u k d s w)
  let ?w1 = "snd (public_probe u w)"
  have d: "w_now w < d" using "1.prems"(1) by (subst (asm) dashboard_loop.simps) (auto split: if_splits)
  have slept: "answered rs (snd (sleep (numeral p) v)) w' \<longleftrightarrow> answered rs v w'" for rs v
    by (simp add: answered_def sleep_def)
  show ?case
  proof (cases "fst (public_probe u w) = Inr True")
    case True
    then obtain r where r: "serves r" "answered [r] w ?w1"
      using public_probe_True [of u w ?w1] by (metis prod.collapse)
    show ?thesis
    proof (cases "Suc s \<ge> k")
      case now: True
      with "1.prems" d True have "w' = ?w1" by (subst (asm) dashboard_loop.simps) (simp add: Let_def)
      with r now "1.prems"(2) show ?thesis by (intro exI [of _ "[]"] exI [of _ "[r]"]) auto
    next
      case False
      then have "dashboard_loop p u k d (Suc s) (snd (sleep (numeral p) ?w1)) = (Inr True, w')"
        using "1.prems" d True by (subst (asm) dashboard_loop.simps) (simp add: Let_def)
      from "1.IH"(1) [OF d refl True False this] False obtain pre good where
        g: "answered (pre @ good) ?w1 w'" "\<forall>r \<in> set good. serves r"
          "length good = k \<or> pre = [] \<and> Suc s + length good = k"
        by (auto simp: slept)
      show ?thesis
      proof (cases "length good = k")
        case True
        with g answered_trans [OF r(2) g(1)] show ?thesis
          by (intro exI [of _ "r # pre"] exI [of _ good]) simp
      next
        case False
        with g answered_trans [OF r(2) g(1)] r(1) show ?thesis
          by (intro exI [of _ "[]"] exI [of _ "r # good"]) auto
      qed
    qed
  next
    case False
    obtain rs where rs: "answered rs w ?w1" using public_probe_any by blast
    have "dashboard_loop p u k d 0 (snd (sleep (numeral p) ?w1)) = (Inr True, w')"
      using "1.prems" d False by (subst (asm) dashboard_loop.simps) (simp add: Let_def)
    from "1.IH"(2) [OF d refl False this] "1.prems"(2) obtain pre good where
      g: "answered (pre @ good) ?w1 w'" "\<forall>r \<in> set good. serves r" "length good = k"
      by (auto simp: slept)
    from g answered_trans [OF rs g(1)] show ?thesis
      by (intro exI [of _ "rs @ pre"] exI [of _ good]) simp
  qed
qed

definition dashboard_proven :: "cfg \<Rightarrow> world \<Rightarrow> world \<Rightarrow> bool" where
  "dashboard_proven c w w' = (\<exists>pre good. answered (pre @ good) w w' \<and> (\<forall>r \<in> set good. serves r) \<and>
     length good = nat (max 1 (verify_consecutive_ok c)))"

lemma verify_dashboard_True:
  "verify_dashboard c tid b t w = (Inr True, w') \<Longrightarrow> dashboard_proven c w w'"
  unfolding dashboard_proven_def verify_dashboard_def
  by (auto simp: ok_def split: if_splits dest!: dashboard_loop_streak) (metis append_Nil)+

text \<open>Between \<open>w\<close> and \<open>w'\<close> an answer of a probe on the host was read that says \<open>VERIFIED\<close>.\<close>

definition vm_proven :: "world \<Rightarrow> world \<Rightarrow> bool" where
  "vm_proven w w' = (\<exists>st out err rs. suffix (Reply st out err # rs) (w_replies w) \<and>
     suffix (w_replies w') rs \<and> contains ''VERIFIED'' out)"

lemma vm_proven_reading: "vm_proven u v \<Longrightarrow> reading w u \<Longrightarrow> reading v w' \<Longrightarrow> vm_proven w w'"
  unfolding vm_proven_def reading_def by (blast intro: suffix_order.trans)


lemma get_invocation_verified:
  assumes "get_invocation c i w = (Inr (st, out, err), w')" "contains ''VERIFIED'' out"
  shows "vm_proven w w'"
  using assms(1) unfolding get_invocation_def
proof (cases rule: aws_elim)
  case (acted n fs)
  have "\<not> contains ''VERIFIED'' ''''" by (simp add: contains_def)
  with acted assms(2) obtain rs where "w_replies w = Reply st out err # rs" "w_replies w' = rs"
    by (auto simp: next_reply_def split: list.splits ssm_reply.splits)
  then show ?thesis using assms(2) unfolding vm_proven_def by (intro exI [of _ st] exI [of _ out] exI [of _ err] exI [of _ rs]) simp
qed simp

lemma vm_probe_True:
  assumes "vm_probe i tid w = (Inr True, w')"
  shows "vm_proven w w'"
proof -
  obtain cid w1 r w2 st out err where s: "raw_send_command [i] (probe_command tid) 15 w = (Inr cid, w1)"
      "wait cid i 20 every_2s w1 = (Inr r, w2)" "get_invocation cid i w2 = (Inr (st, out, err), w')"
      "contains ''VERIFIED'' out"
    using assms unfolding vm_probe_def by (auto simp: io_inv)
  have "keeps reading (raw_send_command [i] (probe_command tid) 15)" "keeps reading (wait cid i 20 every_2s)"
    by (rule keeps_rules)+
  with s(1,2) have "reading w w2" using reading_on.frame_trans by (blast dest: keepsD)
  then show ?thesis using vm_proven_reading [OF get_invocation_verified [OF s(3,4)]] reading_on.frame_refl by blast
qed

lemma verify_vm_loop_True: "verify_vm_loop i tid d w = (Inr True, w') \<Longrightarrow> vm_proven w w'"
proof (induction i tid d w rule: verify_vm_loop.induct)
  case (1 i tid d w)
  let ?w1 = "snd (vm_probe i tid w)"
  have d: "w_now w < d" using "1.prems" by (subst (asm) verify_vm_loop.simps) (auto split: if_splits)
  show ?case
  proof (cases "fst (vm_probe i tid w) = Inr True")
    case True
    with "1.prems" d have "w' = ?w1" by (subst (asm) verify_vm_loop.simps) (simp add: Let_def)
    with True show ?thesis using vm_probe_True [of i tid w ?w1] by (metis prod.collapse)
  next
    case False
    then have "verify_vm_loop i tid d (snd (sleep 10 ?w1)) = (Inr True, w')"
      using "1.prems" d by (subst (asm) verify_vm_loop.simps) (simp add: Let_def)
    from "1.IH" [OF d refl False this] have "vm_proven (snd (sleep 10 ?w1)) w'" .
    moreover have "keeps reading (vm_probe i tid)" by (rule keeps_rules)
    then have "reading w (snd (sleep 10 ?w1))" by (simp add: keeps_def sleep_def reading_def)
    ultimately show ?thesis using vm_proven_reading reading_on.frame_refl by blast
  qed
qed

lemma verify_vm_True: "verify_vm_actually_running i tid t w = (Inr True, w') \<Longrightarrow> vm_proven w w'"
  by (simp add: verify_vm_actually_running_def verify_vm_loop_True)

lemma dashboard_loop_Inr: "\<exists>b. fst (dashboard_loop p u k d s w) = Inr b"
proof (induction p u k d s w rule: dashboard_loop.induct)
  case (1 p u k d s w)
  then show ?case by (subst dashboard_loop.simps) (auto simp: Let_def)
qed

lemma verify_vm_loop_Inr: "\<exists>b. fst (verify_vm_loop i tid d w) = Inr b"
proof (induction i tid d w rule: verify_vm_loop.induct)
  case (1 i tid d w)
  then show ?case by (subst verify_vm_loop.simps) (auto simp: Let_def)
qed

lemma gates_Inr:
  "\<exists>b::bool. fst (verify_dashboard c tid base t w) = Inr b" "\<exists>b. fst (verify_vm_actually_running i tid t w) = Inr b"
  by (auto simp: verify_dashboard_def verify_vm_actually_running_def dashboard_loop_Inr verify_vm_loop_Inr ok_apply)


lemma reply_step:
  assumes "quiet w" "w_replies w = Reply st out err # rs"
  shows "get_invocation cid i w = (Inr (st, out, err), w\<lparr>w_replies := rs\<rparr>)"
  using assms by (simp add: get_invocation_def next_reply_def quiet_def)

lemma raw_send_quiet:
  assumes "quiet w" "length is \<le> 50"
  shows "\<exists>cid w1. raw_send_command is cmd t w = (Inr cid, w1) \<and> quiet w1 \<and> w_replies w1 = w_replies w \<and>
    w_tenants w1 = w_tenants w \<and> w_hosts w1 = w_hosts w \<and> w_rules w1 = w_rules w \<and> w_tgs w1 = w_tgs w \<and>
    w_http w1 = w_http w \<and> w_now w1 = w_now w"
  using assms by (simp add: raw_send_command_def quiet_def Let_def)

lemma wait_success_quiet:
  assumes "quiet w" "0 < t" "w_replies w = Reply ''Success'' out err # rs"
  shows "wait cid i t p w = (Inr (True, None), (snd (sleep (numeral p) w))\<lparr>w_replies := rs\<rparr>)"
proof -
  have "quiet (snd (sleep (numeral p) w))" "w_replies (snd (sleep (numeral p) w)) = Reply ''Success'' out err # rs"
    using assms by (simp_all add: sleep_def quiet_def)
  from reply_step [OF this] assms(2) show ?thesis
    by (simp add: wait_def wait_loop.simps seconds_def Let_def)
qed

lemma vm_probe_success_quiet:
  assumes "quiet w" "w_replies w = Reply ''Success'' o1 e1 # Reply ''Success'' out e2 # rs"
  shows "\<exists>w1. vm_probe i tid w = (Inr (contains ''VERIFIED'' out), w1) \<and> quiet w1 \<and> w_replies w1 = rs"
proof -
  obtain cid w1 where s1: "raw_send_command [i] (probe_command tid) 15 w = (Inr cid, w1)" "quiet w1"
      "w_replies w1 = w_replies w"
    using raw_send_quiet [OF assms(1), of "[i]" "probe_command tid" 15] by auto
  let ?w2 = "(snd (sleep 2 w1))\<lparr>w_replies := Reply ''Success'' out e2 # rs\<rparr>"
  have s2: "wait cid i 20 every_2s w1 = (Inr (True, None), ?w2)"
    using wait_success_quiet [OF s1(2), of 20 o1 e1 _ cid i every_2s] s1(3) assms(2) by simp
  have "quiet ?w2" using s1(2) by (simp add: quiet_def sleep_def)
  then have s3: "get_invocation cid i ?w2 = (Inr (''Success'', out, e2), ?w2\<lparr>w_replies := rs\<rparr>)"
    by (rule reply_step) simp
  have "vm_probe i tid w = (Inr (contains ''VERIFIED'' out), ?w2\<lparr>w_replies := rs\<rparr>)"
    unfolding vm_probe_def by (simp add: io_simps s1(1) s2 s3)
  with \<open>quiet ?w2\<close> show ?thesis by (simp add: quiet_def)
qed

lemma public_probe_quiet:
  "quiet w \<Longrightarrow> w_http w = r # rs \<Longrightarrow> public_probe url w = (Inr (serves r), w\<lparr>w_http := rs\<rparr>)"
  "quiet w \<Longrightarrow> w_http w = [] \<Longrightarrow> public_probe url w = (Inr False, w)"
  by (simp_all add: public_probe_def http_get_def quiet_def io_simps serves_def)

lemma dashboard_reached_quiet:
  assumes "quiet w" "base \<noteq> []" "0 < t" "verify_consecutive_ok c \<le> 1" "w_http w = r # rs" "serves r"
  shows "verify_dashboard c tid base t w = (Inr True, w\<lparr>w_http := rs\<rparr>)"
proof -
  have "nat (max 1 (verify_consecutive_ok c)) \<le> 1" using assms(4) by simp
  with assms(2,3,6) public_probe_quiet(1) [OF assms(1,5), of "dashboard_url base tid"] show ?thesis
    by (simp add: verify_dashboard_def) (subst dashboard_loop.simps, simp add: seconds_def Let_def)
qed

lemma dashboard_loop_silent: "quiet w \<Longrightarrow> w_http w = [] \<Longrightarrow> fst (dashboard_loop p u k d s w) = Inr False"
proof (induction p u k d s w rule: dashboard_loop.induct)
  case (1 p u k d s w)
  have probe: "public_probe u w = (Inr False, w)" using public_probe_quiet(2) "1.prems" by simp
  have "quiet (snd (sleep (numeral p) w))" "w_http (snd (sleep (numeral p) w)) = []"
    using "1.prems" by (simp_all add: sleep_def quiet_def)
  with "1.IH"(2) [OF _ refl] probe show ?case by (subst dashboard_loop.simps) (simp add: Let_def)
qed

lemma dashboard_silent_quiet:
  assumes "quiet w" "w_http w = []"
  shows "fst (verify_dashboard c tid base t w) = Inr False"
  using assms dashboard_loop_silent by (simp add: verify_dashboard_def ok_apply)

section \<open>Properties\<close>

text \<open>
  The public gate passes only on a streak: when the dashboard is declared reachable, the
  answers read from the public path end with as many consecutive answers of a serving backend (2xx,
  3xx, 401 or 403) as the configuration asks for, and no fewer than one.
\<close>

theorem public_gate_needs_streak:
  assumes "verify_dashboard c tid base timeout w = (Inr True, w')"
  shows "\<exists>pre good. w_http w = pre @ good @ w_http w' \<and>
    length good = nat (max 1 (verify_consecutive_ok c)) \<and> (\<forall>r \<in> set good. serves r)"
  using verify_dashboard_True [OF assms] unfolding dashboard_proven_def answered_def by auto

theorem public_gate_needs_streak_witness:
  "\<exists>pre good. [HttpOk 302, ConnErr ''''] = pre @ good @ [ConnErr ''''] \<and> length good = 1 \<and> list_all serves good"
proof -
  let ?c = "cfg0\<lparr>verify_consecutive_ok := 1\<rparr>" and ?w = "world0\<lparr>w_http := [HttpOk 302, ConnErr '''']\<rparr>"
  have "verify_dashboard ?c ''a-1'' ''http://alb'' 30 ?w = (Inr True, ?w\<lparr>w_http := [ConnErr '''']\<rparr>)"
    by (rule dashboard_reached_quiet [where r = "HttpOk 302"]) (simp_all add: quiet_def reachable_status_def)
  from public_gate_needs_streak [OF this] show ?thesis by (simp add: list_all_iff)
qed

text \<open>
  The host gate does not need the VM: the exit of its first two checks only leaves a
  subshell, so when the probe script ran on a host that has neither the VM's process nor its web
  server configuration, the gate passes on any local answer below 500, such as the 404 of a host
  that does not know the tenant.
\<close>

theorem host_gate_passes_without_vm:
  assumes "quiet w" "0 < timeout" "code \<noteq> 0" "code < 500"
    and "w_replies w = Reply ''Success'' o1 e1 # Reply ''Success'' (probe_output False False code) e2 # rs"
  shows "fst (verify_vm_actually_running i tid timeout w) = Inr True"
proof -
  obtain w1 where "vm_probe i tid w = (Inr True, w1)"
    using vm_probe_success_quiet [OF assms(1,5), of i tid] probe_output_verified [OF assms(3,4), of False False] by auto
  with assms(2) show ?thesis
    by (simp add: verify_vm_actually_running_def) (subst verify_vm_loop.simps, simp add: seconds_def Let_def)
qed

theorem host_gate_passes_without_vm_witness:
  "fst (verify_vm_actually_running ''i-2'' ''a-1'' 120 (world0\<lparr>w_replies :=
     [Reply ''Success'' '''' '''', Reply ''Success'' (probe_output False False 404) '''']\<rparr>)) = Inr True"
  by (rule host_gate_passes_without_vm [where code = 404 and rs = "[]"]) (simp_all add: quiet_def)

end
