(* ===== verification/Outage.thy ===== *)
theory Outage
  imports Gates
begin

text \<open>
  Detecting an availability-zone outage and choosing where its tenants go
  (health_check/handler.py): the functions without calls. A host that has not been heard of for
  the threshold is unhealthy, a zone all of whose hosts are unhealthy is out, and the target of a
  tenant is the least loaded healthy host outside the excluded zones on which it fits.
\<close>

section \<open>Definitions\<close>

text \<open>A timestamp attribute that is present and not the empty text.\<close>

definition stamped :: "stamp option \<Rightarrow> bool" where
  "stamped v = (case v of None \<Rightarrow> False | Some (At t) \<Rightarrow> True | Some (Garbled s) \<Rightarrow> s \<noteq> [])"

definition last_contact :: "host \<Rightarrow> stamp option" where
  "last_contact h = (if stamped (h_last_health_check h) then h_last_health_check h
     else if stamped (h_last_seen h) then h_last_seen h else None)"

text \<open>Only rows are judged, so the test for a missing host has no counterpart.\<close>

definition is_host_unhealthy :: "host \<Rightarrow> int \<Rightarrow> int \<Rightarrow> bool" where
  "is_host_unhealthy h n threshold_minutes = (
     if h_status h = Some ''deleted'' then True
     else (case last_contact h of
         None \<Rightarrow> True
       | Some (Garbled s) \<Rightarrow> True
       | Some (At t) \<Rightarrow> n - t \<ge> seconds (threshold_minutes * 60)))"

definition az_of :: "host \<Rightarrow> string" where
  "az_of h = opt_str (h_az h)"

text \<open>\<open>out.setdefault(az, []).append(h)\<close>.\<close>

definition add_to_bucket :: "string \<Rightarrow> 'a \<Rightarrow> (string \<times> 'a list) list \<Rightarrow> (string \<times> 'a list) list" where
  "add_to_bucket k x out = (case map_of out k of
     None \<Rightarrow> out @ [(k, [x])] | Some xs \<Rightarrow> AList.update k (xs @ [x]) out)"

definition group_hosts_by_az :: "host list \<Rightarrow> (string \<times> host list) list" where
  "group_hosts_by_az hosts =
     fold (\<lambda>h out. if az_of h = [] then out else add_to_bucket (az_of h) h out) hosts []"

record outage =
  out_az :: string
  out_host_ids :: "string list"

definition detect_unhealthy_azs :: "host list \<Rightarrow> int \<Rightarrow> int \<Rightarrow> outage list" where
  "detect_unhealthy_azs hosts n threshold_minutes =
     map (\<lambda>(az, hl). \<lparr>out_az = az, out_host_ids = map h_instance_id hl\<rparr>)
       (filter (\<lambda>(az, hl). hl \<noteq> [] \<and> list_all (\<lambda>h. is_host_unhealthy h n threshold_minutes) hl)
         (group_hosts_by_az hosts))"

definition pick_target_host :: "cfg \<Rightarrow> host list \<Rightarrow> int \<Rightarrow> int \<Rightarrow> string list \<Rightarrow> int \<Rightarrow> int \<Rightarrow> host option" where
  "pick_target_host c hosts n threshold_minutes exclude_azs required_vcpu required_mem =
     (case rank_hosts
         (filter (\<lambda>h. az_of h \<notin> set exclude_azs \<and> \<not> is_host_unhealthy h n threshold_minutes \<and>
            h_status h \<noteq> Some ''deleted'') hosts)
         required_vcpu required_mem (cpu_overcommit c) (mem_overcommit c) (max_vms_per_host c) [] of
       [] \<Rightarrow> None | h # _ \<Rightarrow> Some h)"

definition should_skip_az_for_cooldown :: "(string \<times> stamp) list \<Rightarrow> string \<Rightarrow> int \<Rightarrow> int \<Rightarrow> bool" where
  "should_skip_az_for_cooldown az_state az n cooldown_minutes = (case map_of az_state az of
       Some (At t) \<Rightarrow> n - t < seconds (cooldown_minutes * 60)
     | _ \<Rightarrow> False)"

text \<open>The outages of one run: the detected ones, then the zones an operator forces.\<close>

definition forced_outages :: "host list \<Rightarrow> string list \<Rightarrow> outage list \<Rightarrow> outage list" where
  "forced_outages hosts force_azs detected =
     map (\<lambda>faz. \<lparr>out_az = faz, out_host_ids = map h_instance_id (filter (\<lambda>h. h_az h = Some faz) hosts)\<rparr>)
       (filter (\<lambda>faz. faz \<notin> set (map out_az detected)) force_azs)"

definition all_outages :: "host list \<Rightarrow> string list \<Rightarrow> int \<Rightarrow> int \<Rightarrow> outage list" where
  "all_outages hosts force_azs n threshold_minutes =
     (let detected = detect_unhealthy_azs hosts n threshold_minutes in detected @ forced_outages hosts force_azs detected)"

definition some_healthy_az :: "host list \<Rightarrow> string list \<Rightarrow> int \<Rightarrow> int \<Rightarrow> bool" where
  "some_healthy_az hosts force_azs n threshold_minutes =
     list_ex (\<lambda>h. az_of h \<noteq> [] \<and> az_of h \<notin> set force_azs \<and> \<not> is_host_unhealthy h n threshold_minutes) hosts"

section \<open>Lemmas\<close>

definition hosts_in :: "string \<Rightarrow> host list \<Rightarrow> host list" where
  "hosts_in az hosts = filter (\<lambda>h. az_of h = az) hosts"

lemma add_to_bucket_lookup:
  "map_of (add_to_bucket az h out) = (map_of out)(az \<mapsto> (case map_of out az of None \<Rightarrow> [] | Some hs \<Rightarrow> hs) @ [h])"
  by (auto simp: add_to_bucket_def update_conv' fun_eq_iff map_add_def split: option.split)

lemma add_to_bucket_distinct: "distinct (map fst out) \<Longrightarrow> distinct (map fst (add_to_bucket az h out))"
  by (auto simp: add_to_bucket_def distinct_update map_of_eq_None_iff split: option.split)

lemma group_snoc:
  "group_hosts_by_az (hosts @ [h]) = (if az_of h = [] then group_hosts_by_az hosts
     else add_to_bucket (az_of h) h (group_hosts_by_az hosts))"
  by (simp add: group_hosts_by_az_def)

lemma group_lookup:
  "map_of (group_hosts_by_az hosts) az = (if az = [] \<or> hosts_in az hosts = [] then None else Some (hosts_in az hosts))"
proof (induction hosts arbitrary: az rule: rev_induct)
  case (snoc h hosts)
  then show ?case
    by (cases "az_of h = az") (auto simp: group_snoc add_to_bucket_lookup hosts_in_def)
qed (simp add: group_hosts_by_az_def hosts_in_def)

lemma group_distinct: "distinct (map fst (group_hosts_by_az hosts))"
proof (induction hosts rule: rev_induct)
  case (snoc h hosts)
  then show ?case by (simp add: group_snoc add_to_bucket_distinct)
qed (simp add: group_hosts_by_az_def)

lemma group_member:
  "(az, hl) \<in> set (group_hosts_by_az hosts) \<longleftrightarrow> az \<noteq> [] \<and> hosts_in az hosts \<noteq> [] \<and> hl = hosts_in az hosts"
  using group_lookup [of hosts az] map_of_eq_Some_iff [OF group_distinct, of hosts az hl] by (auto split: if_splits)

lemma detected_iff:
  "ot \<in> set (detect_unhealthy_azs hosts n th) \<longleftrightarrow>
     out_az ot \<noteq> [] \<and> hosts_in (out_az ot) hosts \<noteq> [] \<and>
     (\<forall>h \<in> set (hosts_in (out_az ot) hosts). is_host_unhealthy h n th) \<and>
     out_host_ids ot = map h_instance_id (hosts_in (out_az ot) hosts)"
  by (cases ot) (auto simp: detect_unhealthy_azs_def group_member list_all_iff image_iff)

lemma detected_distinct: "distinct (map out_az (detect_unhealthy_azs hosts n th))"
proof -
  have "map out_az (detect_unhealthy_azs hosts n th) = map fst (filter (\<lambda>(az, hl). hl \<noteq> [] \<and>
      list_all (\<lambda>h. is_host_unhealthy h n th) hl) (group_hosts_by_az hosts))"
    by (simp add: detect_unhealthy_azs_def case_prod_beta)
  then show ?thesis using group_distinct by (simp add: distinct_map_filter)
qed

text \<open>Where a tenant may be sent.\<close>

definition may_receive :: "cfg \<Rightarrow> int \<Rightarrow> int \<Rightarrow> string list \<Rightarrow> int \<Rightarrow> int \<Rightarrow> host \<Rightarrow> bool" where
  "may_receive c n th excluded v m h = (az_of h \<notin> set excluded \<and> \<not> is_host_unhealthy h n th \<and>
     host_fits h v m (cpu_overcommit c) (mem_overcommit c) (max_vms_per_host c))"

lemma unhealthy_deleted: "h_status h = Some ''deleted'' \<Longrightarrow> is_host_unhealthy h n th"
  by (simp add: is_host_unhealthy_def)

definition eligible :: "cfg \<Rightarrow> host list \<Rightarrow> int \<Rightarrow> int \<Rightarrow> string list \<Rightarrow> int \<Rightarrow> int \<Rightarrow> host list" where
  "eligible c hosts n th ex v m = rank_hosts
     (filter (\<lambda>h. az_of h \<notin> set ex \<and> \<not> is_host_unhealthy h n th \<and> h_status h \<noteq> Some ''deleted'') hosts)
     v m (cpu_overcommit c) (mem_overcommit c) (max_vms_per_host c) []"

lemma pick_candidates: "h \<in> set (eligible c hosts n th ex v m) \<longleftrightarrow> h \<in> set hosts \<and> may_receive c n th ex v m h"
  using unhealthy_deleted by (auto simp: set_rank_hosts may_receive_def eligible_def)

lemma pick_target_head:
  "pick_target_host c hosts n th ex v m = (case eligible c hosts n th ex v m of [] \<Rightarrow> None | h # _ \<Rightarrow> Some h)"
  by (simp add: pick_target_host_def eligible_def)


lemma pick_target_Some:
  assumes "pick_target_host c hosts n th ex v m = Some b"
  shows "b \<in> set hosts \<and> may_receive c n th ex v m b \<and>
    (\<forall>h \<in> set hosts. may_receive c n th ex v m h \<longrightarrow>
       rank_key (cpu_overcommit c) (mem_overcommit c) b \<le> rank_key (cpu_overcommit c) (mem_overcommit c) h)"
proof -
  from assms obtain rest where xs: "eligible c hosts n th ex v m = b # rest"
    by (auto simp: pick_target_head split: list.splits)
  then have "b \<in> set hosts \<and> may_receive c n th ex v m b"
    using pick_candidates [of b c hosts n th ex v m] by simp
  moreover have "rank_key (cpu_overcommit c) (mem_overcommit c) b \<le> rank_key (cpu_overcommit c) (mem_overcommit c) h"
    if "h \<in> set hosts" "may_receive c n th ex v m h" for h
    using rank_hosts_head [OF xs [unfolded eligible_def], of h] that unhealthy_deleted [of h n th]
    by (auto simp: may_receive_def)
  ultimately show ?thesis by blast
qed

lemma pick_target_None:
  "pick_target_host c hosts n th ex v m = None \<longleftrightarrow> (\<forall>h \<in> set hosts. \<not> may_receive c n th ex v m h)"
proof -
  have "pick_target_host c hosts n th ex v m = None \<longleftrightarrow> set (eligible c hosts n th ex v m) = {}"
    by (simp add: pick_target_head split: list.split)
  also have "\<dots> \<longleftrightarrow> (\<forall>h. h \<notin> set (eligible c hosts n th ex v m))" by (rule all_not_in_conv [symmetric])
  also have "\<dots> \<longleftrightarrow> (\<forall>h \<in> set hosts. \<not> may_receive c n th ex v m h)" unfolding pick_candidates by blast
  finally show ?thesis .
qed

section \<open>Properties\<close>

text \<open>
  C26. An outage is exactly a zone that had hosts and lost them all: a zone is reported, once, with
  all of its hosts, if and only if it has hosts and every one of them is deleted or has not been
  heard of for the threshold.
\<close>

theorem outage_detection_exact:
  "(ot \<in> set (detect_unhealthy_azs hosts n th) \<longleftrightarrow>
     out_az ot \<noteq> [] \<and> hosts_in (out_az ot) hosts \<noteq> [] \<and>
     list_all (\<lambda>h. is_host_unhealthy h n th) (hosts_in (out_az ot) hosts) \<and>
     out_host_ids ot = map h_instance_id (hosts_in (out_az ot) hosts)) \<and>
   distinct (map out_az (detect_unhealthy_azs hosts n th))"
  using detected_iff detected_distinct unfolding list_all_iff by blast

text \<open>
  The failover target is never in an excluded zone, is healthy and has room for the tenant, and
  no other such host has more room; there is none only when no host qualifies.
\<close>

theorem failover_target_exact:
  "case pick_target_host c hosts n th ex v m of
     None \<Rightarrow> \<not> (\<exists>h \<in> set hosts. may_receive c n th ex v m h)
   | Some b \<Rightarrow> b \<in> set hosts \<and> may_receive c n th ex v m b \<and>
       Min (rank_key (cpu_overcommit c) (mem_overcommit c) ` {h \<in> set hosts. may_receive c n th ex v m h}) =
         rank_key (cpu_overcommit c) (mem_overcommit c) b"
proof (cases "pick_target_host c hosts n th ex v m")
  case None
  with pick_target_None [of c hosts n th ex v m] show ?thesis by simp
next
  case (Some b)
  from pick_target_Some [OF Some] Some show ?thesis by (auto intro!: Min_eqI)
qed

end
