(* ===== verification/Failover.thy ===== *)
theory Failover
  imports Outage
begin

text \<open>
  Moving the tenants of a lost zone (health_check/handler.py and worker.py): the pipeline that
  launches a tenant from its latest backup on a target host, verifies it, repoints its route and
  takes the row over; the synchronous driver, which claims and moves one tenant after the other;
  the queueing driver, which claims, reserves a VM number and sends a job; the worker that executes
  a job; the watchdog on tenants stuck in between.
\<close>

section \<open>Launching and verifying on the target\<close>

text \<open>\<open>int(x or d)\<close>: zero counts as absent.\<close>

definition some_int :: "int option \<Rightarrow> int \<Rightarrow> int" where
  "some_int v d = (case v of None \<Rightarrow> d | Some i \<Rightarrow> if i = 0 then d else i)"

definition failover_launch_command :: "tenant \<Rightarrow> int \<Rightarrow> string \<Rightarrow> string" where
  "failover_launch_command t target_vm_num backup_key = ''/home/ubuntu/launch-vm.sh '' @ t_id t @ '' '' @
     show_int target_vm_num @ '' '' @ show_int (some_int (t_vcpu t) 2) @ '' '' @ show_int (some_int (t_mem_mb t) 4096) @
     '' '' @ dq (opt_str (t_config_template t)) @ '' '' @ dq backup_key"

definition verify_failed_text :: "string \<Rightarrow> string option \<Rightarrow> string" where
  "verify_failed_text target_id ssm_err = ''VM verify gate failed on target '' @ target_id @
     '' (process / nginx conf / local HTTP all checked); refusing to flip DDB to running. SSM err: '' @
     (if opt_str ssm_err = [] then ''(none)'' else opt_str ssm_err)"

text \<open>The outcome of the launch command only decides what is reported: the probe is the gate.\<close>

definition launch_on_target :: "cfg \<Rightarrow> tenant \<Rightarrow> string \<Rightarrow> string \<Rightarrow> string \<Rightarrow> int \<Rightarrow> (world, unit) io" where
  "launch_on_target c t target_id source_az backup_key target_vm_num =
     andThen (raw_send_command [target_id] (failover_launch_command t target_vm_num backup_key) 600) (\<lambda>cmd_id.
     andThen (wait cmd_id target_id 90 every_3s) (\<lambda>(okay, ssm_err).
     andThen (whenever (host_tg_mode c)
        (best_effort (andThen (hc_send target_id (drop_peer_command (t_id t)) 15) (\<lambda>_. ok ())))) (\<lambda>_.
     andThen (verify_vm_actually_running target_id (t_id t) 120) (\<lambda>up.
     if \<not> up then raise (runtime_error (verify_failed_text target_id ssm_err))
     else whenever (\<not> okay) (emit_audit c ''AZ_FAILOVER_RECOVERED_BY_VERIFY'' [(''tenant_id'', JStr (t_id t)),
       (''from_az'', JStr source_az), (''to_host'', JStr target_id), (''ssm_err'', JStr (take 200 (opt_str ssm_err)))])))))"

section \<open>Routing to the target\<close>

definition route_to_target :: "cfg \<Rightarrow> tenant \<Rightarrow> host \<Rightarrow> (world, unit) io" where
  "route_to_target c t target = (let target_id = h_instance_id target; ip = opt_str (h_private_ip target) in
     whenever (listener_arn c \<noteq> [] \<and> \<not> host_tg_mode c)
       (if ip = [] then raise (runtime_error (''target host '' @ target_id @
          '' has no private_ip in DDB; cannot re-point ALB. Refusing to flip status to running.''))
        else try_except (repoint_alb_rule c (t_id t) target_id ip) (\<lambda>e.
          andThen (emit_audit c ''AZ_FAILOVER_ALB_REPOINT_FAILED''
            [(''tenant_id'', JStr (t_id t)), (''error'', JStr (take 200 (exn_str e)))]) (\<lambda>_.
          raise (runtime_error (''ALB repoint failed: '' @ exn_str e))))))"

definition require_dashboard :: "cfg \<Rightarrow> tenant \<Rightarrow> (world, unit) io" where
  "require_dashboard c t = whenever (public_base_url c \<noteq> [])
     (andThen (verify_dashboard c (t_id t) (public_base_url c) (verify_seconds c)) (\<lambda>reachable.
      if reachable then ok () else raise (runtime_error (''dashboard not reachable via ALB at '' @ public_base_url c @
        ''/vm/'' @ t_id t @ ''/ after 30s of polling (5xx or connection refused). Refusing to flip DDB - operator must investigate.''))))"

section \<open>Taking over\<close>

definition failover_source :: "tenant \<Rightarrow> string" where
  "failover_source t = (if opt_str (t_host_id t) \<noteq> [] then opt_str (t_host_id t) else opt_str (t_previous_host_id t))"

definition clear_source_conf :: "tenant \<Rightarrow> (world, unit) io" where
  "clear_source_conf t = whenever (failover_source t \<noteq> []) (best_effort
     (andThen (raw_send_command [failover_source t] (''sudo rm -f /etc/nginx/conf.d/tenants/'' @ t_id t @
        ''.conf && sudo nginx -s reload || true'') 10) (\<lambda>_. ok ())))"

definition recovered_row :: "string \<Rightarrow> int \<Rightarrow> string \<Rightarrow> tenant \<Rightarrow> tenant" where
  "recovered_row target_id target_vm_num backup_key r = r\<lparr>t_host_id := Some target_id, t_vm_num := Some target_vm_num,
     t_status := Some ''running'', t_restored_from := Some backup_key\<rparr>"

definition take_over :: "cfg \<Rightarrow> tenant \<Rightarrow> host \<Rightarrow> string \<Rightarrow> string \<Rightarrow> int \<Rightarrow> (world, unit) io" where
  "take_over c t target source_az backup_key target_vm_num = (let target_id = h_instance_id target in
     andThen (update_tenant (t_id t) no_cond (set_attrs (recovered_row target_id target_vm_num backup_key))) (\<lambda>_.
     andThen (bump_target_counters target_id target_vm_num (some_int (t_vcpu t) 2) (some_int (t_mem_mb t) 4096)) (\<lambda>_.
     emit_audit c ''AZ_FAILOVER_TENANT_RECOVERED'' [(''tenant_id'', JStr (t_id t)), (''from_az'', JStr source_az),
       (''to_host'', JStr target_id), (''to_az'', JStr (az_of target)), (''restored_from'', JStr backup_key)])))"

definition failover_steps :: "cfg \<Rightarrow> tenant \<Rightarrow> host \<Rightarrow> string \<Rightarrow> string \<Rightarrow> int \<Rightarrow> (world, unit) io" where
  "failover_steps c t target source_az backup_key target_vm_num =
     andThen (launch_on_target c t (h_instance_id target) source_az backup_key target_vm_num) (\<lambda>_.
     andThen (route_to_target c t target) (\<lambda>_.
     andThen (require_dashboard c t) (\<lambda>_.
     andThen (clear_source_conf t) (\<lambda>_.
     take_over c t target source_az backup_key target_vm_num))))"

definition is_partial :: "string \<Rightarrow> bool" where
  "is_partial err = (contains ''ALB repoint failed'' err \<or> contains ''dashboard not reachable'' err \<or> contains ''no private_ip'' err)"

definition failover_failed_row :: "string \<Rightarrow> string \<Rightarrow> tenant \<Rightarrow> tenant" where
  "failover_failed_row status err r = r\<lparr>t_status := Some status, t_failover_error := Some err\<rparr>"

definition execute_failover :: "cfg \<Rightarrow> tenant \<Rightarrow> host \<Rightarrow> string \<Rightarrow> string \<Rightarrow> int \<Rightarrow> (world, bool) io" where
  "execute_failover c t target source_az backup_key target_vm_num = try_except
     (andThen (failover_steps c t target source_az backup_key target_vm_num) (\<lambda>_. ok True))
     (\<lambda>e. let err = exn_str e; status = (if is_partial err then ''failover_failed_partial'' else ''failover_failed'') in
       andThen (best_effort (andThen (update_tenant (t_id t) no_cond
          (set_attrs (failover_failed_row status (take 500 err)))) (\<lambda>_. ok ()))) (\<lambda>_.
       andThen (emit_audit c ''AZ_FAILOVER_TENANT_FAILED'' [(''tenant_id'', JStr (t_id t)),
          (''error'', JStr (take 200 err)), (''status_set'', JStr status)]) (\<lambda>_.
       ok False)))"


section \<open>Refusing and claiming\<close>

datatype failover_outcome = Recovered | Blocked | Queued | Failure

text \<open>Without a backup nothing is launched; both drivers refuse in the same way.\<close>

definition blocked_row :: "tenant \<Rightarrow> tenant" where
  "blocked_row r = r\<lparr>t_status := Some ''failover_blocked'', t_failover_error := Some ''no_backup_available''\<rparr>"

definition refuse_failover :: "cfg \<Rightarrow> string \<Rightarrow> string \<Rightarrow> (world, unit) io" where
  "refuse_failover c tid source_az =
     andThen (emit_audit c ''AZ_FAILOVER_NO_BACKUP'' [(''tenant_id'', JStr tid), (''from_az'', JStr source_az),
       (''reason'', JStr ''no backup available - failover refused to avoid data loss'')]) (\<lambda>_.
     andThen (best_effort (andThen (update_tenant tid no_cond (set_attrs blocked_row)) (\<lambda>_. ok ()))) (\<lambda>_.
     alarm c (''[OpenClaw] AZ failover BLOCKED: '' @ tid @ '' has no backup'') (JObj [
       (''event'', JStr ''az_failover_blocked''), (''tenant_id'', JStr tid), (''reason'', JStr ''no_backup_available''),
       (''source_az'', JStr source_az),
       (''action_required'', JStr ''manual recovery - restore from snapshot or accept data loss'')])))"

definition usable_backup :: "cfg \<Rightarrow> string \<Rightarrow> (world, string option) io" where
  "usable_backup c tid = (if assets_bucket c \<noteq> [] then find_latest_backup_key c tid else ok None)"

definition hosted_on :: "string \<Rightarrow> tenant option \<Rightarrow> bool" where
  "hosted_on p row = (case row of None \<Rightarrow> False | Some t \<Rightarrow> t_host_id t = Some p)"

definition running_on_host :: "string \<Rightarrow> tenant option \<Rightarrow> bool" where
  "running_on_host p row = (case row of None \<Rightarrow> False | Some t \<Rightarrow> t_host_id t = Some p \<and> t_status t = Some ''running'')"

definition claimed_row :: "string \<Rightarrow> string \<Rightarrow> string \<Rightarrow> int \<Rightarrow> tenant \<Rightarrow> tenant" where
  "claimed_row status p source_az n r = r\<lparr>t_previous_host_id := Some p, t_failover_from_az := Some source_az,
     t_failover_at := Some (At n), t_status := Some status\<rparr>"

text \<open>A conditional claim: false when the condition failed, other errors go on.\<close>

definition claim_row :: "string \<Rightarrow> (tenant option \<Rightarrow> bool) \<Rightarrow> (tenant \<Rightarrow> tenant) \<Rightarrow> (world, bool) io" where
  "claim_row tid guard f = try_except (andThen (update_tenant tid guard (set_attrs f)) (\<lambda>_. ok True))
     (\<lambda>e. if is_cond_failed e then ok False else raise e)"

definition skipped_concurrent :: "cfg \<Rightarrow> string \<Rightarrow> string \<Rightarrow> (world, unit) io" where
  "skipped_concurrent c tid source_az = emit_audit c ''AZ_FAILOVER_SKIPPED_CONCURRENT''
     [(''tenant_id'', JStr tid), (''from_az'', JStr source_az)]"

definition failover_tenant_to_host :: "cfg \<Rightarrow> tenant \<Rightarrow> host \<Rightarrow> string \<Rightarrow> int \<Rightarrow> (world, failover_outcome) io" where
  "failover_tenant_to_host c t target source_az n = (let tid = t_id t; source = opt_str (t_host_id t) in
     andThen (usable_backup c tid) (\<lambda>backup_key.
     if opt_str backup_key = [] then andThen (refuse_failover c tid source_az) (\<lambda>_. ok Blocked)
     else andThen (claim_row tid (hosted_on source) (claimed_row ''failover_recovering'' source source_az n)) (\<lambda>held.
       if \<not> held then andThen (skipped_concurrent c tid source_az) (\<lambda>_. ok Failure)
       else andThen (execute_failover c t target source_az (opt_str backup_key) (some_int (h_next_vm_num target) 1)) (\<lambda>moved.
         ok (if moved then Recovered else Failure)))))"

section \<open>Queueing\<close>

text \<open>The update returns the counter as it was before, and 1 stands for an absent one.\<close>

definition counted_up :: "host \<Rightarrow> host" where
  "counted_up h = h\<lparr>h_next_vm_num := Some (int_attr_or (h_next_vm_num h) 1 + 1)\<rparr>"

definition reserve_target_vm_num :: "string \<Rightarrow> (world, int) io" where
  "reserve_target_vm_num target_id = try_except
     (andThen (update_host target_id no_cond (set_attrs counted_up)) (\<lambda>h. ok (int_attr (h_next_vm_num h) - 1)))
     (\<lambda>_. ok 1)"

definition send_job :: "failover_job \<Rightarrow> (world, unit) io" where
  "send_job j = aws (modify (\<lambda>w. w\<lparr>w_queue := w_queue w @ [j]\<rparr>))"

definition try_send :: "cfg \<Rightarrow> failover_job \<Rightarrow> (world, bool) io" where
  "try_send c j = try_except (andThen (send_job j) (\<lambda>_. ok True))
     (\<lambda>e. andThen (emit_audit c ''AZ_FAILOVER_ENQUEUE_FAILED''
        [(''tenant_id'', JStr (j_tenant_id j)), (''error'', JStr (take 200 (exn_str e)))]) (\<lambda>_. ok False))"

definition enqueue_failover :: "cfg \<Rightarrow> tenant \<Rightarrow> host \<Rightarrow> string \<Rightarrow> int \<Rightarrow> (world, failover_outcome) io" where
  "enqueue_failover c t target source_az n = (
     let tid = t_id t; source = opt_str (t_host_id t); target_id = h_instance_id target in
     andThen (usable_backup c tid) (\<lambda>backup_key.
     if opt_str backup_key = [] then andThen (refuse_failover c tid source_az) (\<lambda>_. ok Blocked)
     else andThen (claim_row tid (running_on_host source) (claimed_row ''failover_queued'' source source_az n)) (\<lambda>held.
       if \<not> held then andThen (skipped_concurrent c tid source_az) (\<lambda>_. ok Failure)
       else andThen (reserve_target_vm_num target_id) (\<lambda>target_vm_num.
         andThen (try_send c \<lparr>j_tenant_id = tid, j_source_az = source_az, j_source_host_id = source,
             j_target_host_id = target_id, j_target_vm_num = target_vm_num, j_backup_key = opt_str backup_key,
             j_queued_at = n\<rparr>) (\<lambda>sent.
         if \<not> sent then ok Failure
         else andThen (emit_audit c ''AZ_FAILOVER_TENANT_QUEUED'' [(''tenant_id'', JStr tid), (''from_az'', JStr source_az),
             (''to_host'', JStr target_id), (''target_vm_num'', JInt target_vm_num)]) (\<lambda>_.
           ok Queued))))))"

section \<open>The worker\<close>

definition in_failover :: "tenant option \<Rightarrow> bool" where
  "in_failover row = (case row of None \<Rightarrow> False
     | Some t \<Rightarrow> t_status t = Some ''failover_queued'' \<or> t_status t = Some ''failover_recovering'')"

definition worker_row :: "int \<Rightarrow> tenant \<Rightarrow> tenant" where
  "worker_row n r = r\<lparr>t_status := Some ''failover_recovering'', t_failover_at := Some (At n)\<rparr>"

definition worker_claim :: "string \<Rightarrow> int \<Rightarrow> (world, bool) io" where
  "worker_claim tid n = claim_row tid in_failover (worker_row n)"

text \<open>A message body is a job that the detector sent.\<close>

definition process_record :: "cfg \<Rightarrow> failover_job \<Rightarrow> int \<Rightarrow> (world, unit) io" where
  "process_record c j n = (let tid = j_tenant_id j; target_id = j_target_host_id j in
     andThen (get_tenant_row tid) (\<lambda>row. case row of None \<Rightarrow> ok () | Some t \<Rightarrow>
     andThen (worker_claim tid n) (\<lambda>held. if \<not> held then ok () else
     andThen (get_host_row target_id) (\<lambda>target. case target of
         None \<Rightarrow>
           andThen (update_tenant tid no_cond (set_attrs (failover_failed_row ''failover_failed''
             (''target host '' @ target_id @ '' not found at execution'')))) (\<lambda>_.
           emit_audit c ''AZ_FAILOVER_TENANT_FAILED'' [(''tenant_id'', JStr tid),
             (''error'', JStr ''target host vanished''), (''status_set'', JStr ''failover_failed'')])
       | Some h \<Rightarrow> andThen (execute_failover c t h (j_source_az j) (j_backup_key j) (j_target_vm_num j)) (\<lambda>_. ok ())))))"

definition worker_handler :: "cfg \<Rightarrow> failover_job list \<Rightarrow> (world, int) io" where
  "worker_handler c records = andThen now (\<lambda>n.
     andThen (for_each records (\<lambda>j. process_record c j n)) (\<lambda>_. ok (int (length records))))"

section \<open>The watchdog on failovers\<close>

definition within_grace :: "cfg \<Rightarrow> int \<Rightarrow> tenant \<Rightarrow> bool" where
  "within_grace c n t = (case t_failover_at t of
     Some (At since) \<Rightarrow> n - since < seconds (failover_watchdog_minutes c * 60) | _ \<Rightarrow> False)"

definition reap_stuck :: "cfg \<Rightarrow> int \<Rightarrow> tenant \<Rightarrow> (world, unit) io" where
  "reap_stuck c n t = (if within_grace c n t then ok ()
     else best_effort (andThen (update_tenant (t_id t) in_failover (set_attrs (failover_failed_row ''failover_failed''
          (''watchdog: stuck > '' @ show_int (failover_watchdog_minutes c) @ ''min'')))) (\<lambda>_.
        emit_audit c ''AZ_FAILOVER_WATCHDOG_REAPED'' [(''tenant_id'', JStr (t_id t)),
          (''stuck_since'', case t_failover_at t of None \<Rightarrow> JStr '''' | Some s \<Rightarrow> stamp_json s)])))"

definition sweep_stuck_failovers :: "cfg \<Rightarrow> int \<Rightarrow> (world, unit) io" where
  "sweep_stuck_failovers c n = andThen (scan_all w_tenants (\<lambda>t. in_failover (Some t))) (\<lambda>stuck.
     for_each stuck (reap_stuck c n))"


section \<open>One run over the outages\<close>

record summary =
  su_detected :: int
  su_failed_over :: int
  su_failed :: int
  su_blocked :: int
  su_queued :: int
  su_skipped :: "string list"

definition summary0 :: summary where
  "summary0 = \<lparr>su_detected = 0, su_failed_over = 0, su_failed = 0, su_blocked = 0, su_queued = 0, su_skipped = []\<rparr>"

definition state_key :: string where
  "state_key = ''__az_failover_state__''"

definition cooldown_row :: "(string \<times> stamp) list \<Rightarrow> int \<Rightarrow> host" where
  "cooldown_row az_state n = (fresh_host state_key)\<lparr>h_az_last_failover := Some az_state, h_updated_at := Some (At n)\<rparr>"

text \<open>The rows read at the start of the run are updated in memory as tenants are placed.\<close>

definition with_host :: "string \<Rightarrow> (host \<Rightarrow> host) \<Rightarrow> host list \<Rightarrow> host list" where
  "with_host i f hosts = map (\<lambda>h. if h_instance_id h = i then f h else h) hosts"

definition one_more_vm :: "host \<Rightarrow> host" where
  "one_more_vm h = h\<lparr>h_vm_count := Some (int_attr (h_vm_count h) + 1)\<rparr>"

definition more_vcpu :: "int \<Rightarrow> host \<Rightarrow> host" where
  "more_vcpu v h = h\<lparr>h_used_vcpu := Some (int_attr (h_used_vcpu h) + v)\<rparr>"

definition next_slot :: "host \<Rightarrow> host" where
  "next_slot h = h\<lparr>h_next_vm_num := Some (some_int (h_next_vm_num h) 1 + 1)\<rparr>"

definition after_queueing :: "tenant \<Rightarrow> host \<Rightarrow> failover_outcome \<Rightarrow> host list \<times> summary \<Rightarrow> host list \<times> summary" where
  "after_queueing t target out = (\<lambda>(hosts, su). case out of
       Queued \<Rightarrow> (with_host (h_instance_id target) (more_vcpu (some_int (t_vcpu t) 1) \<circ> one_more_vm) hosts,
                  su\<lparr>su_queued := su_queued su + 1\<rparr>)
     | Blocked \<Rightarrow> (hosts, su\<lparr>su_blocked := su_blocked su + 1\<rparr>)
     | _ \<Rightarrow> (hosts, su\<lparr>su_failed := su_failed su + 1\<rparr>))"

definition after_moving :: "host \<Rightarrow> failover_outcome \<Rightarrow> host list \<times> summary \<Rightarrow> host list \<times> summary" where
  "after_moving target out = (\<lambda>(hosts, su). let i = h_instance_id target in case out of
       Recovered \<Rightarrow> (with_host i (next_slot \<circ> one_more_vm) hosts, su\<lparr>su_failed_over := su_failed_over su + 1\<rparr>)
     | Blocked \<Rightarrow> (hosts, su\<lparr>su_blocked := su_blocked su + 1\<rparr>)
     | _ \<Rightarrow> (with_host i next_slot hosts, su\<lparr>su_failed := su_failed su + 1\<rparr>))"

definition failover_one :: "cfg \<Rightarrow> int \<Rightarrow> string \<Rightarrow> string list \<Rightarrow> tenant \<Rightarrow> host list \<times> summary
    \<Rightarrow> (world, host list \<times> summary) io" where
  "failover_one c n az exclude t st = (
     case pick_target_host c (fst st) n (az_unhealthy_minutes c) exclude (some_int (t_vcpu t) 1) (some_int (t_mem_mb t) 4096) of
       None \<Rightarrow> andThen (emit_audit c ''AZ_FAILOVER_NO_TARGET'' [(''tenant_id'', JStr (t_id t)), (''from_az'', JStr az)]) (\<lambda>_.
         ok (fst st, (snd st)\<lparr>su_failed := su_failed (snd st) + 1\<rparr>))
     | Some target \<Rightarrow>
         if failover_queue_url c \<noteq> []
         then andThen (enqueue_failover c t target az n) (\<lambda>out. ok (after_queueing t target out st))
         else andThen (failover_tenant_to_host c t target az n) (\<lambda>out. ok (after_moving target out st)))"

definition affected_ids :: "outage \<Rightarrow> tenant list \<Rightarrow> string list" where
  "affected_ids ot tenants = map t_id (filter (\<lambda>t. opt_str (t_host_id t) \<in> set (out_host_ids ot)) tenants)"

definition handle_outage :: "cfg \<Rightarrow> int \<Rightarrow> string list \<Rightarrow> string list \<Rightarrow> tenant list \<Rightarrow> outage
    \<Rightarrow> host list \<times> (string \<times> stamp) list \<times> summary \<Rightarrow> (world, host list \<times> (string \<times> stamp) list \<times> summary) io" where
  "handle_outage c n force_azs exclude tenants ot = (\<lambda>(hosts, az_state, su). let az = out_az ot in
     if az \<notin> set force_azs \<and> should_skip_az_for_cooldown az_state az n (az_cooldown_minutes c)
     then ok (hosts, az_state, su\<lparr>su_skipped := su_skipped su @ [az]\<rparr>)
     else let az_state' = AList.update az (At n) az_state; affected = affected_ids ot tenants in
       andThen (best_effort (put_host_row (cooldown_row az_state' n))) (\<lambda>_.
       if affected = []
       then andThen (emit_audit c ''AZ_FAILOVER_NO_TENANTS_AFFECTED'' [(''az'', JStr az),
              (''host_ids'', JList (map JStr (out_host_ids ot)))]) (\<lambda>_.
            andThen (emit_sns_notification c az (out_host_ids ot) 0) (\<lambda>_. ok (hosts, az_state', su)))
       else andThen (fold_io (failover_one c n az exclude) (filter (\<lambda>t. t_id t \<in> set affected) tenants) (hosts, su)) (\<lambda>(hosts', su').
            andThen (emit_sns_notification c az (out_host_ids ot)
               (if failover_queue_url c \<noteq> [] then su_queued su' else su_failed_over su')) (\<lambda>_.
            ok (hosts', az_state', su')))))"

definition check_and_handle_az_failover :: "cfg \<Rightarrow> int \<Rightarrow> tenant list \<Rightarrow> string list \<Rightarrow> (world, summary) io" where
  "check_and_handle_az_failover c n tenants force_azs =
     andThen (scan_all w_hosts (\<lambda>h. True)) (\<lambda>rows.
     let hosts = filter (\<lambda>h. h_status h \<noteq> Some ''deleted'') rows;
         outages = all_outages hosts force_azs n (az_unhealthy_minutes c); outs = map out_az outages;
         su = summary0\<lparr>su_detected := int (length outages)\<rparr> in
     if outages = [] then ok summary0
     else andThen (get_host_row state_key) (\<lambda>row.
       let az_state = or_default (case row of None \<Rightarrow> None | Some h \<Rightarrow> h_az_last_failover h) [] in
       if \<not> some_healthy_az hosts force_azs n (az_unhealthy_minutes c)
       then andThen (emit_audit c ''AZ_FAILOVER_SKIPPED'' [(''reason'', JStr ''no_healthy_az''),
              (''outages'', JList (map JStr outs))]) (\<lambda>_. ok su)
       else andThen (fold_io (handle_outage c n force_azs (outs @ force_azs) tenants) outages (hosts, az_state, su))
            (\<lambda>(_, _, su'). ok su')))"


section \<open>Frames\<close>

definition rows_outside :: "string set \<Rightarrow> world \<Rightarrow> world \<Rightarrow> bool" where
  "rows_outside K w w' = (\<forall>j. j \<notin> K \<longrightarrow> map_of (w_tenants w') j = map_of (w_tenants w) j)"

interpretation outside: host_blind "rows_outside K" for K
  by unfold_locales (auto simp: rows_outside_def)

interpretation outside: service_blind "rows_outside K" for K
  by unfold_locales (simp_all add: rows_outside_def)

lemma keeps_outside: "keeps (others_same k) m \<Longrightarrow> k \<in> K \<Longrightarrow> keeps (rows_outside K) m"
  unfolding keeps_def others_same_def rows_outside_def by metis

lemmas pipeline_defs = launch_on_target_def route_to_target_def require_dashboard_def clear_source_conf_def

lemma keeps_claim_row [keeps_rules]:
  "keeps (unchanged w_hosts) (claim_row k g f)" "keeps (unchanged w_queue) (claim_row k g f)"
  "keeps (unchanged w_ssm) (claim_row k g f)" "keeps (unchanged w_rules) (claim_row k g f)"
  "keeps (inv_rel quiet) (claim_row k g f)" "keeps reading (claim_row k g f)" "keeps (unchanged w_http) (claim_row k g f)"
  "keeps rows_stay (claim_row k g f)" "keeps (others_same k) (claim_row k g f)"
  unfolding claim_row_def by (intro keeps_rules)+

lemma keeps_execute [keeps_rules]:
  "keeps (unchanged w_queue) (execute_failover c t h az bk n)"
  "keeps (inv_rel quiet) (execute_failover c t h az bk n)"
  "keeps rows_stay (execute_failover c t h az bk n)"
  "keeps (others_same (t_id t)) (execute_failover c t h az bk n)"
  unfolding execute_failover_def failover_steps_def pipeline_defs take_over_def Let_def
  by (intro keeps_rules)+

lemma keeps_refuse [keeps_rules]:
  "keeps (unchanged w_queue) (refuse_failover c k az)" "keeps (unchanged w_ssm) (refuse_failover c k az)"
  "keeps (unchanged w_rules) (refuse_failover c k az)" "keeps (unchanged w_hosts) (refuse_failover c k az)"
  "keeps (inv_rel quiet) (refuse_failover c k az)" "keeps rows_stay (refuse_failover c k az)"
  "keeps (others_same k) (refuse_failover c k az)"
  unfolding refuse_failover_def by (intro keeps_rules)+

lemma keeps_send_job [keeps_rules]:
  "keeps (unchanged w_tenants) (send_job j)" "keeps (unchanged w_hosts) (send_job j)" "keeps (unchanged w_ssm) (send_job j)"
  "keeps (unchanged w_rules) (send_job j)" "keeps (inv_rel quiet) (send_job j)" "keeps (others_same k) (send_job j)"
  unfolding send_job_def
  by (intro keeps_rules; simp add: keeps_def unchanged_def inv_rel_def others_same_def quiet_def)+

lemma keeps_reserve [keeps_rules]:
  "keeps (unchanged w_tenants) (reserve_target_vm_num i)" "keeps (unchanged w_ssm) (reserve_target_vm_num i)"
  "keeps (unchanged w_rules) (reserve_target_vm_num i)" "keeps (unchanged w_queue) (reserve_target_vm_num i)"
  "keeps (inv_rel quiet) (reserve_target_vm_num i)" "keeps (others_same k) (reserve_target_vm_num i)"
  unfolding reserve_target_vm_num_def by (intro keeps_rules)+

lemma keeps_try_send [keeps_rules]:
  "keeps (unchanged w_tenants) (try_send c j)" "keeps (unchanged w_hosts) (try_send c j)"
  "keeps (unchanged w_ssm) (try_send c j)" "keeps (unchanged w_rules) (try_send c j)"
  "keeps (inv_rel quiet) (try_send c j)" "keeps (others_same k) (try_send c j)"
  unfolding try_send_def by (intro keeps_rules)+

lemma keeps_drivers [keeps_rules]:
  "keeps (unchanged w_ssm) (enqueue_failover c t h az n)"
  "keeps (unchanged w_rules) (enqueue_failover c t h az n)"
  "keeps (inv_rel quiet) (enqueue_failover c t h az n)"
  "keeps (others_same (t_id t)) (enqueue_failover c t h az n)"
  "keeps (unchanged w_queue) (failover_tenant_to_host c t h az n)"
  "keeps (inv_rel quiet) (failover_tenant_to_host c t h az n)"
  "keeps (others_same (t_id t)) (failover_tenant_to_host c t h az n)"
  unfolding enqueue_failover_def failover_tenant_to_host_def usable_backup_def skipped_concurrent_def Let_def
  by (intro keeps_rules)+


text \<open>Rows stay under their own ids.\<close>

lemma ids_kept [simp]:
  "t_id (recovered_row i m bk r) = t_id r" "t_id (failover_failed_row st e r) = t_id r" "t_id (blocked_row r) = t_id r"
  "t_id (claimed_row st p az n r) = t_id r" "t_id (worker_row n r) = t_id r"
  by (simp_all add: recovered_row_def failover_failed_row_def blocked_row_def claimed_row_def worker_row_def)

lemma keeps_keyed_claim [keeps_rules]: "(\<And>r. t_id (f r) = t_id r) \<Longrightarrow> keeps (inv_rel keyed_world) (claim_row k g f)"
  unfolding claim_row_def by (intro keeps_rules)

lemma keeps_keyed_execute [keeps_rules]: "keeps (inv_rel keyed_world) (execute_failover c t h az bk n)"
  unfolding execute_failover_def failover_steps_def pipeline_defs take_over_def Let_def
  by (intro keeps_rules ids_kept)

lemma keeps_keyed_drivers [keeps_rules]:
  "keeps (inv_rel keyed_world) (enqueue_failover c t h az n)" "keeps (inv_rel keyed_world) (failover_tenant_to_host c t h az n)"
  "keeps (inv_rel keyed_world) (reap_stuck c n t)"
  unfolding enqueue_failover_def failover_tenant_to_host_def usable_backup_def skipped_concurrent_def refuse_failover_def
    reserve_target_vm_num_def try_send_def send_job_def reap_stuck_def Let_def
  by (intro keeps_rules ids_kept; simp add: keeps_def inv_rel_def keyed_world_def)+

section \<open>The pipeline\<close>

lemma keeps_stages:
  "keeps (unchanged w_tenants) (launch_on_target c t i az bk n)" "keeps (unchanged w_http) (launch_on_target c t i az bk n)"
  "keeps (unchanged w_tenants) (route_to_target c t h)" "keeps (unchanged w_http) (route_to_target c t h)"
  "keeps reading (route_to_target c t h)"
  "keeps (unchanged w_tenants) (require_dashboard c t)" "keeps reading (require_dashboard c t)"
  "keeps (unchanged w_tenants) (clear_source_conf t)" "keeps (unchanged w_http) (clear_source_conf t)"
  "keeps reading (clear_source_conf t)"
  unfolding pipeline_defs Let_def by (intro keeps_rules)+

lemma launch_proven:
  assumes "launch_on_target c t i az bk n w = (Inr (), w')"
  shows "vm_proven w w'"
proof -
  obtain cmd w1 p w2 w3 w4 where s: "raw_send_command [i] (failover_launch_command t n bk) 600 w = (Inr cmd, w1)"
      "wait cmd i 90 every_3s w1 = (Inr p, w2)"
      "whenever (host_tg_mode c) (best_effort (andThen (hc_send i (drop_peer_command (t_id t)) 15) (\<lambda>_. ok ()))) w2 = (Inr (), w3)"
      "verify_vm_actually_running i (t_id t) 120 w3 = (Inr True, w4)"
      "whenever (\<not> fst p) (emit_audit c ''AZ_FAILOVER_RECOVERED_BY_VERIFY'' [(''tenant_id'', JStr (t_id t)),
         (''from_az'', JStr az), (''to_host'', JStr i), (''ssm_err'', JStr (take 200 (opt_str (snd p))))]) w4 = (Inr (), w')"
    using assms unfolding launch_on_target_def by (auto simp: io_inv)
  have k: "keeps reading (raw_send_command [i] (failover_launch_command t n bk) 600)"
    "keeps reading (wait cmd i 90 every_3s)"
    "keeps reading (whenever (host_tg_mode c) (best_effort (andThen (hc_send i (drop_peer_command (t_id t)) 15) (\<lambda>_. ok ()))))"
    "keeps reading (whenever (\<not> fst p) (emit_audit c ''AZ_FAILOVER_RECOVERED_BY_VERIFY'' [(''tenant_id'', JStr (t_id t)),
         (''from_az'', JStr az), (''to_host'', JStr i), (''ssm_err'', JStr (take 200 (opt_str (snd p))))]))"
    by (intro keeps_rules)+
  have "reading w w1" "reading w1 w2" "reading w2 w3" "reading w4 w'"
    using keepsD [OF k(1) s(1)] keepsD [OF k(2) s(2)] keepsD [OF k(3) s(3)] keepsD [OF k(4) s(5)] by simp_all
  with vm_proven_reading [OF verify_vm_True [OF s(4)]] reading_on.frame_trans show ?thesis by blast
qed

lemma dashboard_required:
  assumes "require_dashboard c t w = (Inr (), w')" "public_base_url c \<noteq> []"
  shows "dashboard_proven c w w'"
  using assms verify_dashboard_True unfolding require_dashboard_def by (auto simp: io_inv)

lemma audit_returns: "emit_audit c e d w = (r, w') \<Longrightarrow> r = Inr ()"
  using emit_audit_total [of c e d w] by auto

lemma audit_fst: "fst (emit_audit c e d w) = Inr ()"
  using emit_audit_total [of c e d w] by auto

lemma bump_total: "fst (bump_target_counters i n v m w) = Inr ()"
  by (simp add: bump_target_counters_def andThen_apply best_effort_apply)

lemma take_over_cases:
  assumes "take_over c t h az bk n w = (r, w')" "map_of (w_tenants w) (t_id t) = Some row"
  shows "w_http w' = w_http w \<and> reading w w' \<and>
    (if r = Inr () then row_is t (recovered_row (h_instance_id h) n bk row) w w' else w_tenants w' = w_tenants w)"
proof -
  have k: "keeps (unchanged w_http) (take_over c t h az bk n)" "keeps reading (take_over c t h az bk n)"
    unfolding take_over_def Let_def by (intro keeps_rules)+
  have same: "w_http w' = w_http w" "reading w w'" using tables_of [OF k(1) assms(1)] keepsD [OF k(2) assms(1)] by simp_all
  obtain u w1 where u: "update_tenant (t_id t) no_cond (set_attrs (recovered_row (h_instance_id h) n bk)) w = (u, w1)" by fastforce
  show ?thesis
  proof (cases u)
    case (Inl e)
    with assms(1) u have "r = Inl e" "w' = w1" by (simp_all add: take_over_def Let_def io_simps)
    with update_tenant_Inl [OF u [unfolded Inl]] same show ?thesis by simp
  next
    case (Inr x)
    let ?tail = "andThen (bump_target_counters (h_instance_id h) n (some_int (t_vcpu t) 2) (some_int (t_mem_mb t) 4096)) (\<lambda>_.
       emit_audit c ''AZ_FAILOVER_TENANT_RECOVERED'' [(''tenant_id'', JStr (t_id t)), (''from_az'', JStr az),
         (''to_host'', JStr (h_instance_id h)), (''to_az'', JStr (az_of h)), (''restored_from'', JStr bk)])"
    have tail: "?tail w1 = (r, w')" using assms(1) u Inr by (simp add: take_over_def Let_def io_simps)
    have "keeps (unchanged w_tenants) ?tail" by (intro keeps_rules)
    then have "w_tenants w' = w_tenants w1" using tail by (rule tables_of)
    moreover have "tenant_or_fresh w (t_id t) = row" using assms(2) by simp
    ultimately have "row_is t (recovered_row (h_instance_id h) n bk row) w w'"
      using set_tenant_Inr [OF u [unfolded Inr]] by (auto simp: row_is_def update_conv')
    moreover have "r = Inr ()" using tail bump_total by (auto simp: andThen_apply dest: audit_returns)
    ultimately show ?thesis using same by simp
  qed
qed


text \<open>The pipeline either takes the row over, with both proofs, or raises with the table as it was.\<close>

lemma steps_cases:
  assumes "failover_steps c t h az bk n w = (r, w')" "map_of (w_tenants w) (t_id t) = Some row"
  obtains (moved) "r = Inr ()" "row_is t (recovered_row (h_instance_id h) n bk row) w w'" "vm_proven w w'"
      "public_base_url c \<noteq> [] \<longrightarrow> dashboard_proven c w w'"
  | (raised) e where "r = Inl e" "w_tenants w' = w_tenants w"
  using assms(1) unfolding failover_steps_def
proof (cases rule: andThen_cases)
  case (raised e)
  with that(2) tables_of [OF keeps_stages(1) raised(1)] show thesis by simp
next
  case launched: (passed u w1)
  have l: "w_tenants w1 = w_tenants w" "w_http w1 = w_http w" "vm_proven w w1"
    using tables_of [OF keeps_stages(1) launched(1)] tables_of [OF keeps_stages(2) launched(1)] launch_proven launched(1)
    by simp_all
  from launched(2) show thesis
  proof (cases rule: andThen_cases)
    case (raised e)
    with that(2) l tables_of [OF keeps_stages(3) raised(1)] show thesis by simp
  next
    case routed: (passed u2 w2)
    note r = tables_of [OF keeps_stages(3) routed(1)] tables_of [OF keeps_stages(4) routed(1)] keepsD [OF keeps_stages(5) routed(1)]
    from routed(2) show thesis
    proof (cases rule: andThen_cases)
      case (raised e)
      with that(2) l r tables_of [OF keeps_stages(6) raised(1)] show thesis by simp
    next
      case reached: (passed u3 w3)
      note d = tables_of [OF keeps_stages(6) reached(1)] keepsD [OF keeps_stages(7) reached(1)]
      have dash: "public_base_url c \<noteq> [] \<longrightarrow> dashboard_proven c w2 w3" using dashboard_required reached(1) by simp
      from reached(2) show thesis
      proof (cases rule: andThen_cases)
        case (raised e)
        with that(2) l r d tables_of [OF keeps_stages(8) raised(1)] show thesis by simp
      next
        case cleared: (passed u4 w4)
        note k = tables_of [OF keeps_stages(8) cleared(1)] tables_of [OF keeps_stages(9) cleared(1)] keepsD [OF keeps_stages(10) cleared(1)]
        have t4: "w_tenants w4 = w_tenants w" using l r d k by simp
        with assms(2) have "map_of (w_tenants w4) (t_id t) = Some row" by simp
        note o = take_over_cases [OF cleared(2) this]
        show thesis
        proof (cases "r = Inr ()")
          case False
          with o t4 that(2) show thesis by (cases r) auto
        next
          case True
          have "reading w1 w'" using l r d k o reading_on.frame_trans by blast
          then have "vm_proven w w'" using vm_proven_reading [OF l(3) reading_on.frame_refl] by blast
          moreover have "public_base_url c \<noteq> [] \<longrightarrow> dashboard_proven c w w'"
            using dash l r k o by (simp add: dashboard_proven_def answered_def)
          ultimately show thesis using that(1) True o row_is_from [OF _ t4 refl] by simp
        qed
      qed
    qed
  qed
qed


text \<open>What the pipeline does to the row, and the proof it had.\<close>

inductive failover_change :: "cfg \<Rightarrow> host \<Rightarrow> string \<Rightarrow> int \<Rightarrow> world \<Rightarrow> world \<Rightarrow> tenant \<Rightarrow> bool \<Rightarrow> tenant \<Rightarrow> bool"
  for c h bk n w w' row where
  recovered: "vm_proven w w' \<Longrightarrow> public_base_url c \<noteq> [] \<longrightarrow> dashboard_proven c w w' \<Longrightarrow>
    failover_change c h bk n w w' row True (recovered_row (h_instance_id h) n bk row)"
| gave_up: "status \<in> {''failover_failed'', ''failover_failed_partial''} \<Longrightarrow>
    failover_change c h bk n w w' row False (failover_failed_row status err row)"
| not_recorded: "failover_change c h bk n w w' row False row"


lemma execute_cases:
  assumes "execute_failover c t h az bk n w = (r, w')" "map_of (w_tenants w) (t_id t) = Some row"
  shows "\<exists>answer row'. r = Inr answer \<and> failover_change c h bk n w w' row answer row' \<and> row_is t row' w w'"
proof -
  obtain x w1 where s: "failover_steps c t h az bk n w = (x, w1)" by fastforce
  from s assms(2) show ?thesis
  proof (cases rule: steps_cases)
    case moved
    with assms(1) s have "r = Inr True" "w' = w1" by (simp_all add: execute_failover_def io_simps)
    with moved show ?thesis by (auto intro: recovered)
  next
    case (raised e)
    let ?st = "if is_partial (exn_str e) then ''failover_failed_partial'' else ''failover_failed''"
    let ?m = "best_effort (andThen (update_tenant (t_id t) no_cond (set_attrs
        (failover_failed_row ?st (take 500 (exn_str e))))) (\<lambda>_. ok ()))"
    let ?d = "[(''tenant_id'', JStr (t_id t)), (''error'', JStr (take 200 (exn_str e))), (''status_set'', JStr ?st)]"
    obtain y w2 where u: "update_tenant (t_id t) no_cond (set_attrs (failover_failed_row ?st (take 500 (exn_str e)))) w1 = (y, w2)"
      by fastforce
    then have m: "?m w1 = (Inr (), w2)" by (cases y) (simp_all add: io_simps)
    obtain w3 where a: "emit_audit c ''AZ_FAILOVER_TENANT_FAILED'' ?d w2 = (Inr (), w3)" using emit_audit_total by blast
    have "keeps (unchanged w_tenants) (emit_audit c ''AZ_FAILOVER_TENANT_FAILED'' ?d)" by (rule keeps_rules)
    then have t3: "w_tenants w3 = w_tenants w2" using a by (rule tables_of)
    have r: "r = Inr False" "w' = w3"
      using assms(1) s raised(1) m a by (simp_all add: execute_failover_def andThen_apply try_except_apply Let_def ok_apply)
    have row1: "map_of (w_tenants w1) (t_id t) = Some row" using raised(2) assms(2) by simp
    show ?thesis
    proof (cases y)
      case (Inl e')
      with update_tenant_Inl [OF u [unfolded Inl]] t3 r raised(2) have "w_tenants w' = w_tenants w" by simp
      with assms(2) have "row_is t row w w'" by (auto simp: row_is_def)
      with r show ?thesis by (blast intro: not_recorded)
    next
      case (Inr z)
      have "tenant_or_fresh w1 (t_id t) = row" using row1 by simp
      with set_tenant_Inr [OF u [unfolded Inr]] t3 r(2) raised(2)
      have "row_is t (failover_failed_row ?st (take 500 (exn_str e)) row) w w'" by (simp add: row_is_def update_conv')
      moreover have "failover_change c h bk n w w' row False (failover_failed_row ?st (take 500 (exn_str e)) row)"
        by (rule gave_up) simp
      ultimately show ?thesis using r(1) by blast
    qed
  qed
qed


section \<open>Claims\<close>

lemma update_refused:
  assumes "update_tenant k g u w = (r, w')" "\<not> g (map_of (w_tenants w) k)"
  shows "(\<exists>e. r = Inl e) \<and> w_tenants w' = w_tenants w"
  using assms(1) unfolding update_tenant_def
  by (cases rule: aws_elim) (use assms(2) in \<open>auto simp: tbl_update_def Let_def\<close>)

lemma claim_refused:
  assumes "claim_row k g f w = (r, w')" "\<not> g (map_of (w_tenants w) k)"
  shows "r \<noteq> Inr True \<and> w_tenants w' = w_tenants w"
proof -
  obtain u w1 where u: "update_tenant k g (set_attrs f) w = (u, w1)" by fastforce
  from update_refused [OF u assms(2)] obtain e where "u = Inl e" "w_tenants w1 = w_tenants w" by blast
  with assms(1) u show ?thesis by (auto simp: claim_row_def io_simps split: if_splits)
qed

lemma claim_held:
  assumes "claim_row k g f w = (Inr True, w')"
  shows "g (map_of (w_tenants w) k) \<and> map_of (w_tenants w') k = Some (f (tenant_or_fresh w k))"
proof -
  have g: "g (map_of (w_tenants w) k)" using claim_refused [OF assms] by blast
  obtain x where u: "update_tenant k g (set_attrs f) w = (Inr x, w')"
    using assms by (auto simp: claim_row_def io_inv)
  have "map_of (w_tenants w') k = Some (f (tenant_or_fresh w k))"
    using u unfolding update_tenant_def
    by (cases rule: aws_elim)
      (auto simp: tbl_update_Inr update_conv' set_attrs_def tenant_or_fresh_def split: sum.splits)
  with g show ?thesis by simp
qed

lemma claim_quiet:
  "quiet w \<Longrightarrow> g (map_of (w_tenants w) k) \<Longrightarrow> claim_row k g f w =
     (Inr True, w\<lparr>w_tenants := AList.update k (f (tenant_or_fresh w k)) (w_tenants w)\<rparr>)"
  by (simp add: claim_row_def update_tenant_def tbl_update_def set_attrs_def quiet_def tenant_or_fresh_def io_simps Let_def)

lemma claim_same:
  assumes "claim_row k g f w = (r, w')"
  shows "w_hosts w' = w_hosts w" "w_ssm w' = w_ssm w" "w_rules w' = w_rules w" "w_queue w' = w_queue w"
  by (rule tables_of [of _ "claim_row k g f", OF _ assms], rule keeps_rules)+

lemma get_tenant_same:
  assumes "get_tenant_row k w = (r, w')"
  shows "w_tenants w' = w_tenants w" "w_hosts w' = w_hosts w" "w_ssm w' = w_ssm w" "w_rules w' = w_rules w" "w_queue w' = w_queue w"
  by (rule tables_of [of _ "get_tenant_row k", OF _ assms], rule keeps_rules)+

lemma usable_backup_same:
  assumes "usable_backup c k w = (r, w')"
  shows "w_tenants w' = w_tenants w" "w_queue w' = w_queue w" "w_ssm w' = w_ssm w" "w_rules w' = w_rules w"
    "w_hosts w' = w_hosts w"
  by (rule tables_of [of _ "usable_backup c k", OF _ assms], unfold usable_backup_def, intro keeps_rules)+

lemma skipped_same:
  assumes "skipped_concurrent c k az w = (r, w')"
  shows "w_queue w' = w_queue w" "w_tenants w' = w_tenants w"
  by (rule tables_of [of _ "skipped_concurrent c k az", OF _ assms], unfold skipped_concurrent_def, intro keeps_rules)+

lemma enqueue_refused:
  assumes "enqueue_failover c t h az n w = (r, w')"
    and "\<not> running_on_host (opt_str (t_host_id t)) (map_of (w_tenants w) (t_id t))"
  shows "r \<noteq> Inr Queued \<and> w_queue w' = w_queue w"
  using assms(1) unfolding enqueue_failover_def Let_def
proof (cases rule: andThen_cases)
  case (raised e)
  with usable_backup_same(2) [OF raised(1)] show ?thesis by simp
next
  case (passed bk w1)
  note b = usable_backup_same [OF passed(1)]
  show ?thesis
  proof (cases "opt_str bk = []")
    case True
    with passed(2) have "andThen (refuse_failover c (t_id t) az) (\<lambda>_. ok Blocked) w1 = (r, w')" by simp
    then show ?thesis
    proof (cases rule: andThen_cases)
      case (raised e)
      with tables_of [OF keeps_refuse(1) raised(1)] b show ?thesis by simp
    next
      case (passed x u)
      with tables_of [OF keeps_refuse(1) passed(1)] b show ?thesis by (auto simp: ok_def)
    qed
  next
    case False
    let ?cl = "claim_row (t_id t) (running_on_host (opt_str (t_host_id t)))
        (claimed_row ''failover_queued'' (opt_str (t_host_id t)) az n)"
    obtain x w2 where x: "?cl w1 = (x, w2)" by fastforce
    have "\<not> running_on_host (opt_str (t_host_id t)) (map_of (w_tenants w1) (t_id t))" using assms(2) b(1) by simp
    note c = claim_refused [OF x this] tables_of [OF keeps_claim_row(2) x]
    obtain y w3 where y: "skipped_concurrent c (t_id t) az w2 = (y, w3)" by fastforce
    from passed(2) False x c have "(\<exists>e. r = Inl e) \<and> w' = w2 \<or> r \<noteq> Inr Queued \<and> w' = w3"
      using y by (cases x; cases y) (auto simp: io_simps)
    with b(2) c skipped_same(1) [OF y] show ?thesis by auto
  qed
qed

lemma enqueue_queued:
  assumes "enqueue_failover c t h az n w = (Inr Queued, w')"
  shows "\<exists>row. map_of (w_tenants w') (t_id t) = Some row \<and> t_status row = Some ''failover_queued''"
proof -
  let ?f = "claimed_row ''failover_queued'' (opt_str (t_host_id t)) az n"
  obtain w1 w2 i w3 j w4 where s: "claim_row (t_id t) (running_on_host (opt_str (t_host_id t))) ?f w1 = (Inr True, w2)"
      "reserve_target_vm_num (h_instance_id h) w2 = (Inr i, w3)" "try_send c j w3 = (Inr True, w4)"
      "emit_audit c ''AZ_FAILOVER_TENANT_QUEUED'' [(''tenant_id'', JStr (t_id t)), (''from_az'', JStr az),
         (''to_host'', JStr (h_instance_id h)), (''target_vm_num'', JInt i)] w4 = (Inr (), w')"
    using assms unfolding enqueue_failover_def Let_def by (auto simp: io_inv)
  have k: "keeps (unchanged w_tenants) (emit_audit c ''AZ_FAILOVER_TENANT_QUEUED'' [(''tenant_id'', JStr (t_id t)),
      (''from_az'', JStr az), (''to_host'', JStr (h_instance_id h)), (''target_vm_num'', JInt i)])"
    by (intro keeps_rules)
  have "w_tenants w' = w_tenants w2"
    using tables_of [OF keeps_reserve(1) s(2)] tables_of [OF keeps_try_send(1) s(3)] tables_of [OF k s(4)] by simp
  with claim_held [OF s(1)] show ?thesis by (simp add: claimed_row_def)
qed


section \<open>Refusal without a backup\<close>

lemma no_backup_found:
  assumes "under (''backups/'' @ k @ ''/'') (w_objects w) = []"
  shows "\<exists>w1. usable_backup c k w = (Inr None, w1)"
proof -
  have "\<exists>w1. find_latest_backup_key c k w = (Inr None, w1)"
  proof (cases "assets_bucket c = [] \<or> k = []")
    case False
    obtain r w1 where r: "list_page (''backups/'' @ k @ ''/'') w = (r, w1)" by fastforce
    have "r = Inr [] \<or> (\<exists>e. r = Inl e)"
      using r unfolding list_page_def by (cases rule: aws_elim) (use assms in \<open>auto simp: gets_def\<close>)
    with r False show ?thesis by (auto simp: find_latest_backup_key_def io_simps sort_desc_def)
  qed (auto simp: find_latest_backup_key_def ok_def)
  then show ?thesis by (auto simp: usable_backup_def ok_def)
qed

lemma refuse_cases:
  assumes "refuse_failover c k az w = (r, w')"
  shows "r = Inr () \<and> (w_tenants w' = w_tenants w \<or> w_tenants w' = AList.update k (blocked_row (tenant_or_fresh w k)) (w_tenants w))"
proof -
  let ?d = "[(''tenant_id'', JStr k), (''from_az'', JStr az),
       (''reason'', JStr ''no backup available - failover refused to avoid data loss'')]"
  let ?s = "''[OpenClaw] AZ failover BLOCKED: '' @ k @ '' has no backup''"
  let ?m = "JObj [(''event'', JStr ''az_failover_blocked''), (''tenant_id'', JStr k), (''reason'', JStr ''no_backup_available''),
       (''source_az'', JStr az),
       (''action_required'', JStr ''manual recovery - restore from snapshot or accept data loss'')]"
  obtain w1 where a: "emit_audit c ''AZ_FAILOVER_NO_BACKUP'' ?d w = (Inr (), w1)" using emit_audit_total by blast
  obtain u w2 where u: "update_tenant k no_cond (set_attrs blocked_row) w1 = (u, w2)" by fastforce
  obtain v w3 where v: "alarm c ?s ?m w2 = (v, w3)" by fastforce
  have k: "keeps (unchanged w_tenants) (emit_audit c ''AZ_FAILOVER_NO_BACKUP'' ?d)" "keeps (unchanged w_tenants) (alarm c ?s ?m)"
    by (rule keeps_rules)+
  have v_ok: "v = Inr ()" using v by (auto simp: alarm_def whenever_def ok_def best_effort_apply split: if_splits)
  have "w' = w3" "r = v" using assms a u v by (cases u; simp add: refuse_failover_def io_simps)+
  moreover have "w_tenants w1 = w_tenants w" "w_tenants w3 = w_tenants w2" using tables_of [OF k(1) a] tables_of [OF k(2) v] by simp_all
  moreover have "w_tenants w2 = w_tenants w1 \<or> w_tenants w2 = AList.update k (blocked_row (tenant_or_fresh w1 k)) (w_tenants w1)"
    using u update_tenant_Inl [of k no_cond "set_attrs blocked_row" w1] set_tenant_Inr [of k blocked_row w1] by (cases u) auto
  ultimately show ?thesis using v_ok by (simp add: tenant_or_fresh_def)
qed

lemma blocked_driver:
  assumes "under (''backups/'' @ k @ ''/'') (w_objects w) = []"
    and "andThen (usable_backup c k) (\<lambda>bk. if opt_str bk = [] then andThen (refuse_failover c k az) (\<lambda>_. ok Blocked) else m bk) w = (r, w')"
    and "map_of (w_tenants w) k = Some row"
  shows "r = Inr Blocked \<and> w_ssm w' = w_ssm w \<and> w_rules w' = w_rules w \<and> w_queue w' = w_queue w \<and> w_hosts w' = w_hosts w \<and>
    map_of (w_tenants w') k \<in> {Some row, Some (blocked_row row)}"
proof -
  obtain w1 where b: "usable_backup c k w = (Inr None, w1)" using no_backup_found [OF assms(1)] by blast
  obtain x w2 where x: "refuse_failover c k az w1 = (x, w2)" by fastforce
  note f = refuse_cases [OF x] usable_backup_same [OF b] tables_of [OF keeps_refuse(1) x] tables_of [OF keeps_refuse(2) x]
    tables_of [OF keeps_refuse(3) x] tables_of [OF keeps_refuse(4) x]
  have "r = Inr Blocked" "w' = w2" using assms(2) b x f(1) by (simp_all add: andThen_apply ok_apply opt_str_def)
  with f assms(3) show ?thesis by (auto simp: update_conv')
qed


section \<open>The watchdog's sweep\<close>

lemma keeps_reap_stuck [keeps_rules]:
  "keeps (inv_rel quiet) (reap_stuck c n t)" "keeps (unchanged w_hosts) (reap_stuck c n t)"
  "keeps (unchanged w_queue) (reap_stuck c n t)" "keeps (others_same (t_id t)) (reap_stuck c n t)"
  unfolding reap_stuck_def by (intro keeps_rules)+

definition stuck_reaped :: "cfg \<Rightarrow> int \<Rightarrow> tenant \<Rightarrow> tenant \<Rightarrow> bool" where
  "stuck_reaped c n t t' = (t' = (if in_failover (Some t) \<and> \<not> within_grace c n t
     then failover_failed_row ''failover_failed'' (''watchdog: stuck > '' @ show_int (failover_watchdog_minutes c) @ ''min'') t
     else t))"

interpretation stuck: row_sweep "inv_rel quiet" "reap_stuck c n" "stuck_reaped c n" for c n
proof unfold_locales
  fix w t
  assume w: "quiet w" "map_of (w_tenants w) (t_id t) = Some t"
  let ?f = "failover_failed_row ''failover_failed'' (''watchdog: stuck > '' @ show_int (failover_watchdog_minutes c) @ ''min'')"
  obtain r w1 where r: "reap_stuck c n t w = (r, w1)" by fastforce
  have "quiet w1" using keepsD [OF keeps_reap_stuck(1) r] w(1) by (simp add: inv_rel_def)
  moreover have "r = Inr ()" using r by (auto simp: reap_stuck_def ok_def best_effort_apply split: if_splits)
  moreover have "\<exists>t'. stuck_reaped c n t t' \<and> map_of (w_tenants w1) = (map_of (w_tenants w))(t_id t \<mapsto> t')"
  proof (cases "within_grace c n t")
    case True
    with r w(2) show ?thesis by (auto simp: reap_stuck_def stuck_reaped_def ok_def fun_upd_idem)
  next
    case False
    obtain u w2 where u: "update_tenant (t_id t) in_failover (set_attrs ?f) w = (u, w2)" by fastforce
    show ?thesis
    proof (cases "in_failover (Some t)")
      case True
      have "u = Inr (?f t)" "w_tenants w2 = AList.update (t_id t) (?f t) (w_tenants w)"
        using u w True by (simp_all add: update_tenant_def tbl_update_def set_attrs_def quiet_def Let_def) fastforce
      moreover obtain d where d: "w1 = snd (emit_audit c ''AZ_FAILOVER_WATCHDOG_REAPED'' d w2)"
        using r False u calculation(1) by (auto simp: reap_stuck_def best_effort_apply andThen_apply)
      moreover have "w_tenants (snd (emit_audit c ''AZ_FAILOVER_WATCHDOG_REAPED'' d w2)) = w_tenants w2"
        by (rule keeps_unchangedD) (rule keeps_rules)
      ultimately show ?thesis using True False by (simp add: stuck_reaped_def update_conv')
    next
      case no: False
      from update_refused [OF u] w(2) no have "(\<exists>e. u = Inl e) \<and> w_tenants w2 = w_tenants w" by simp
      moreover from this r False u have "w1 = w2" by (auto simp: reap_stuck_def best_effort_apply andThen_apply)
      ultimately show ?thesis using w(2) no by (auto simp: stuck_reaped_def fun_upd_idem)
    qed
  qed
  ultimately show "\<exists>w1 t'. reap_stuck c n t w = (Inr (), w1) \<and> quiet w1 \<and> inv_rel quiet w w1 \<and> stuck_reaped c n t t' \<and>
      map_of (w_tenants w1) = (map_of (w_tenants w))(t_id t \<mapsto> t')"
    using r by (auto simp: inv_rel_def)
qed

definition after_watchdog :: "cfg \<Rightarrow> int \<Rightarrow> tenant \<Rightarrow> tenant" where
  "after_watchdog c n t = (if in_failover (Some t) \<and> \<not> within_grace c n t
     then failover_failed_row ''failover_failed'' (''watchdog: stuck > '' @ show_int (failover_watchdog_minutes c) @ ''min'') t
     else t)"

lemma stuck_reaped_after: "stuck_reaped c n t t' \<longleftrightarrow> t' = after_watchdog c n t"
  by (simp add: stuck_reaped_def after_watchdog_def)

lemma sweep_stuck_rows:
  assumes "quiet w" "keyed (w_tenants w)"
  shows "\<exists>w1. sweep_stuck_failovers c n w = (Inr (), w1) \<and> quiet w1 \<and>
    (\<forall>k. map_of (w_tenants w1) k = map_option (after_watchdog c n) (map_of (w_tenants w) k))"
proof -
  let ?P = "\<lambda>t. in_failover (Some t)"
  from stuck.sweep [OF assms, of ?P c n] obtain w1 where
    s: "scan_all w_tenants ?P w = (Inr (filter ?P (map snd (w_tenants w))), w)"
      "for_each (filter ?P (map snd (w_tenants w))) (reap_stuck c n) w = (Inr (), w1)" "quiet w1"
      "\<forall>k t. map_of (w_tenants w) k = Some t \<longrightarrow>
         (\<exists>t'. map_of (w_tenants w1) k = Some t' \<and> (if ?P t then stuck_reaped c n t t' else t' = t))"
      "\<forall>k. map_of (w_tenants w) k = None \<longrightarrow> map_of (w_tenants w1) k = None"
    by blast
  have "sweep_stuck_failovers c n w = (Inr (), w1)" using s(1,2) by (simp add: sweep_stuck_failovers_def andThen_apply)
  moreover have "map_of (w_tenants w1) k = map_option (after_watchdog c n) (map_of (w_tenants w) k)" for k
  proof (cases "map_of (w_tenants w) k")
    case (Some t)
    with s(4) show ?thesis unfolding stuck_reaped_after by (fastforce simp: after_watchdog_def split: if_splits)
  qed (use s(5) in simp)
  ultimately show ?thesis using s(3) by blast
qed

section \<open>The synchronous driver's memory\<close>

text \<open>Counting a VM without its resources changes no verdict when there is no ceiling on VMs.\<close>

definition placement_same :: "(host \<Rightarrow> host) \<Rightarrow> bool" where
  "placement_same f = (\<forall>h. h_instance_id (f h) = h_instance_id h \<and> h_az (f h) = h_az h \<and> h_status (f h) = h_status h \<and>
     h_last_health_check (f h) = h_last_health_check h \<and> h_last_seen (f h) = h_last_seen h \<and>
     h_total_vcpu (f h) = h_total_vcpu h \<and> h_total_mem_mb (f h) = h_total_mem_mb h \<and>
     h_used_vcpu (f h) = h_used_vcpu h \<and> h_used_mem_mb (f h) = h_used_mem_mb h)"

lemma placement_same_key: "placement_same f \<Longrightarrow> rank_key cr mr (f h) = rank_key cr mr h"
  by (simp add: placement_same_def rank_key_def host_free_def allocatable_def)

lemma placement_same_receive:
  "placement_same f \<Longrightarrow> max_vms_per_host c = 0 \<Longrightarrow> may_receive c n th ex v m (f h) = may_receive c n th ex v m h"
  by (simp add: placement_same_def may_receive_def az_of_def is_host_unhealthy_def last_contact_def host_fits_def
      host_free_def allocatable_def)

lemma rank_key_id: "rank_key cr mr a = rank_key cr mr b \<Longrightarrow> h_instance_id a = h_instance_id b"
  by (simp add: rank_key_def split: prod.splits)

lemma pick_same_host:
  assumes "pick_target_host c hosts n th ex v m = Some b" "placement_same f" "max_vms_per_host c = 0"
  shows "\<exists>b'. pick_target_host c (with_host i f hosts) n th ex v m = Some b' \<and> h_instance_id b' = h_instance_id b"
proof -
  let ?g = "\<lambda>h. if h_instance_id h = i then f h else h" and ?key = "rank_key (cpu_overcommit c) (mem_overcommit c)"
  have g: "placement_same ?g" using assms(2) by (simp add: placement_same_def)
  note key = placement_same_key [OF g] and rec = placement_same_receive [OF g assms(3)]
  note b = pick_target_Some [OF assms(1)]
  have "?g b \<in> set (with_host i f hosts)" "may_receive c n th ex v m (?g b)" using b rec by (auto simp: with_host_def)
  then obtain b' where b': "pick_target_host c (with_host i f hosts) n th ex v m = Some b'"
    using pick_target_None [of c "with_host i f hosts" n th ex v m] by fastforce
  note p = pick_target_Some [OF b']
  obtain a where a: "a \<in> set hosts" "b' = ?g a" using p by (auto simp: with_host_def)
  have "?key b' \<le> ?key (?g b)" using p \<open>?g b \<in> set _\<close> \<open>may_receive c n th ex v m (?g b)\<close> by blast
  then have "?key b' \<le> ?key b" unfolding key .
  moreover have "may_receive c n th ex v m (?g a)" using p a(2) by blast
  then have "may_receive c n th ex v m a" unfolding rec .
  with b a(1) have "?key b \<le> ?key a" by blast
  then have "?key b \<le> ?key b'" unfolding a(2) key .
  ultimately have "?key b' = ?key b" by (rule order_antisym)
  with b' rank_key_id show ?thesis by blast
qed


section \<open>Who can be touched\<close>

definition lost_host :: "cfg \<Rightarrow> host list \<Rightarrow> string list \<Rightarrow> int \<Rightarrow> string \<Rightarrow> bool" where
  "lost_host c hosts force_azs n i = (\<exists>h \<in> set hosts. h_instance_id h = i \<and>
     (az_of h \<in> set force_azs \<or> (\<forall>g \<in> set (hosts_in (az_of h) hosts). is_host_unhealthy g n (az_unhealthy_minutes c))))"

lemma outage_hosts_lost:
  assumes "ot \<in> set (all_outages hosts force_azs n (az_unhealthy_minutes c))" "i \<in> set (out_host_ids ot)"
  shows "lost_host c hosts force_azs n i"
proof -
  from assms(1) consider (seen) "ot \<in> set (detect_unhealthy_azs hosts n (az_unhealthy_minutes c))"
    | (forced) faz where "faz \<in> set force_azs" "out_host_ids ot = map h_instance_id (filter (\<lambda>h. h_az h = Some faz) hosts)"
    by (auto simp: all_outages_def forced_outages_def Let_def)
  then show ?thesis
  proof cases
    case seen
    with assms(2) show ?thesis unfolding detected_iff by (auto simp: lost_host_def hosts_in_def)
  next
    case forced
    with assms(2) show ?thesis by (auto simp: lost_host_def az_of_def opt_str_def)
  qed
qed

text \<open>
  What a whole run may do to a relation that both drivers keep for the tenants in \<open>movable\<close>.
\<close>

locale run_frame = service_blind R + host_blind R for R :: "world \<Rightarrow> world \<Rightarrow> bool" +
  fixes movable :: "tenant \<Rightarrow> bool"
  assumes frame_enqueue: "movable t \<Longrightarrow> keeps R (enqueue_failover c t h az n)"
    and frame_move: "movable t \<Longrightarrow> keeps R (failover_tenant_to_host c t h az n)"
begin

lemma keeps_failover_one: "movable t \<Longrightarrow> keeps R (failover_one c n az ex t st)"
  unfolding failover_one_def by (intro keeps_rules frame_enqueue frame_move)

lemma keeps_handle_outage:
  assumes "\<And>t. t \<in> set tenants \<Longrightarrow> t_id t \<in> set (affected_ids ot tenants) \<Longrightarrow> movable t"
  shows "keeps R (handle_outage c n force_azs ex tenants ot st)"
  unfolding handle_outage_def Let_def using assms
  by (cases st) (auto intro!: keeps_rules keeps_failover_one)

lemma keeps_outage_run:
  assumes "\<And>t. t \<in> set tenants \<Longrightarrow> movable t"
  shows "keeps R (check_and_handle_az_failover c n tenants force_azs)"
  unfolding check_and_handle_az_failover_def Let_def
  by (intro keeps_rules keeps_handle_outage) (rule assms)

end

interpretation staying_quiet: run_frame "inv_rel quiet" "\<lambda>t. True"
  by unfold_locales (rule keeps_rules)+

interpretation keyed_kept: run_frame "inv_rel keyed_world" "\<lambda>t. True"
  by unfold_locales (rule keeps_rules)+

interpretation outside: run_frame "rows_outside K" "\<lambda>t. t_id t \<in> K" for K
  by unfold_locales (rule keeps_outside, rule keeps_drivers, assumption)+

lemma run_outside:
  assumes "check_and_handle_az_failover c n tenants force_azs w = (r, w')"
    and "\<And>t. t \<in> set tenants \<Longrightarrow>
      lost_host c (filter (\<lambda>h. h_status h \<noteq> Some ''deleted'') (map snd (w_hosts w))) force_azs n (opt_str (t_host_id t)) \<Longrightarrow> t_id t \<in> K"
  shows "rows_outside K w w'"
  using assms(1) unfolding check_and_handle_az_failover_def
proof (cases rule: andThen_cases)
  case (raised e)
  have "keeps (rows_outside K) (scan_all w_hosts (\<lambda>h. True))" by (rule keeps_rules)
  with raised(1) show ?thesis by (auto dest: keepsD)
next
  case (passed rows w1)
  let ?hosts = "filter (\<lambda>h. h_status h \<noteq> Some ''deleted'') rows"
  let ?outages = "all_outages ?hosts force_azs n (az_unhealthy_minutes c)"
  have "rows = map snd (w_hosts w)" using scan_all_result [OF passed(1)] by simp
  then have affected: "set (affected_ids ot tenants) \<subseteq> K" if "ot \<in> set ?outages" for ot
    using assms(2) outage_hosts_lost [OF that] by (auto simp: affected_ids_def)
  have "keeps (rows_outside K) (scan_all w_hosts (\<lambda>h. True))" by (rule keeps_rules)
  then have first: "rows_outside K w w1" using passed(1) by (rule keepsD)
  define rest where "rest = (let hosts = ?hosts; outages = ?outages; outs = map out_az outages;
         su = summary0\<lparr>su_detected := int (length outages)\<rparr> in
     if outages = [] then ok summary0
     else andThen (get_host_row state_key) (\<lambda>row.
       let az_state = or_default (case row of None \<Rightarrow> None | Some h \<Rightarrow> h_az_last_failover h) [] in
       if \<not> some_healthy_az hosts force_azs n (az_unhealthy_minutes c)
       then andThen (emit_audit c ''AZ_FAILOVER_SKIPPED'' [(''reason'', JStr ''no_healthy_az''),
              (''outages'', JList (map JStr outs))]) (\<lambda>_. ok su)
       else andThen (fold_io (handle_outage c n force_azs (outs @ force_azs) tenants) outages (hosts, az_state, su))
            (\<lambda>(_, _, su'). ok su')))"
  have "keeps (rows_outside K) rest"
    unfolding rest_def Let_def
    by (intro keeps_rules outside.keeps_handle_outage) (use affected in blast)
  moreover have "rest w1 = (r, w')" using passed(2) by (simp add: rest_def Let_def)
  ultimately have "rows_outside K w1 w'" by (rule keepsD)
  with first outside.frame_trans show ?thesis by blast
qed

lemma reserve_quiet:
  "quiet w \<Longrightarrow> reserve_target_vm_num i w = (Inr (int_attr_or (h_next_vm_num (host_or_fresh w i)) 1),
     w\<lparr>w_hosts := AList.update i (counted_up (host_or_fresh w i)) (w_hosts w)\<rparr>)"
  by (simp add: reserve_target_vm_num_def io_simps set_host_quiet counted_up_def)

lemma reservations_quiet:
  assumes "quiet w" "int_attr_or (h_next_vm_num (host_or_fresh w i)) 1 = b"
  shows "\<exists>w'. fold_io (\<lambda>_ got. andThen (reserve_target_vm_num i) (\<lambda>m. ok (got @ [m]))) ks got w =
    (Inr (got @ map (\<lambda>j. b + int j) [0..<length ks]), w')"
  using assms
proof (induction ks arbitrary: w b got)
  case (Cons k ks)
  let ?w1 = "w\<lparr>w_hosts := AList.update i (counted_up (host_or_fresh w i)) (w_hosts w)\<rparr>"
  have q: "quiet ?w1" "int_attr_or (h_next_vm_num (host_or_fresh ?w1 i)) 1 = b + 1"
    using Cons.prems by (simp_all add: quiet_def host_or_fresh_def update_conv' counted_up_def)
  have "map (\<lambda>j. b + int j) [0..<length (k # ks)] = b # map (\<lambda>j. b + 1 + int j) [0..<length ks]"
    by (simp add: upt_conv_Cons map_Suc_upt [symmetric] o_def add.assoc del: upt_Suc map_Suc_upt)
  with Cons.IH [OF q, of "got @ [b]"] Cons.prems show ?case
    by (auto simp: andThen_apply reserve_quiet ok_apply)
qed (simp add: ok_apply)


section \<open>A successful run\<close>

lemma verify_success_quiet:
  assumes "quiet w" "0 < t" "w_replies w = Reply ''Success'' o1 e1 # Reply ''Success'' out e2 # rs" "contains ''VERIFIED'' out"
  shows "\<exists>w'. verify_vm_actually_running i tid t w = (Inr True, w') \<and> quiet w'"
proof -
  obtain w1 where "vm_probe i tid w = (Inr True, w1)" "quiet w1"
    using vm_probe_success_quiet [OF assms(1,3), of i tid] assms(4) by auto
  with assms(2) show ?thesis
    by (simp add: verify_vm_actually_running_def) (subst verify_vm_loop.simps, simp add: seconds_def Let_def)
qed

lemma launch_quiet:
  assumes "quiet w" "\<not> host_tg_mode c"
    "w_replies w = [Reply ''Success'' o1 e1, Reply ''Success'' o2 e2, Reply ''Success'' out e3]" "contains ''VERIFIED'' out"
  shows "\<exists>w'. launch_on_target c t i az bk n w = (Inr (), w') \<and> quiet w'"
proof -
  obtain cid w1 where s1: "raw_send_command [i] (failover_launch_command t n bk) 600 w = (Inr cid, w1)" "quiet w1"
      "w_replies w1 = w_replies w"
    using raw_send_quiet [OF assms(1), of "[i]" "failover_launch_command t n bk" 600] by auto
  let ?w2 = "(snd (sleep 3 w1))\<lparr>w_replies := [Reply ''Success'' o2 e2, Reply ''Success'' out e3]\<rparr>"
  have s2: "wait cid i 90 every_3s w1 = (Inr (True, None), ?w2)"
    using wait_success_quiet [OF s1(2), of 90 o1 e1 _ cid i every_3s] s1(3) assms(3) by simp
  have "quiet ?w2" using s1(2) by (simp add: quiet_def sleep_def)
  then obtain w3 where "verify_vm_actually_running i (t_id t) 120 ?w2 = (Inr True, w3)" "quiet w3"
    using verify_success_quiet [of ?w2 120 o2 e2 out e3 "[]" i "t_id t"] assms(4) by auto
  with s1(1) s2 assms(2) show ?thesis by (simp add: launch_on_target_def andThen_apply ok_apply)
qed

lemma execute_quiet:
  assumes "quiet w" "\<not> host_tg_mode c" "listener_arn c = []" "public_base_url c = []"
    "w_replies w = [Reply ''Success'' o1 e1, Reply ''Success'' o2 e2, Reply ''Success'' out e3]" "contains ''VERIFIED'' out"
  shows "\<exists>w'. execute_failover c t h az bk n w = (Inr True, w')"
proof -
  obtain w1 where l: "launch_on_target c t (h_instance_id h) az bk n w = (Inr (), w1)" "quiet w1"
    using launch_quiet [OF assms(1,2,5,6)] by blast
  obtain w2 where k: "clear_source_conf t w1 = (Inr (), w2)"
    by (cases "failover_source t = []") (auto simp: clear_source_conf_def ok_def best_effort_apply)
  have "keeps (inv_rel quiet) (clear_source_conf t)" unfolding clear_source_conf_def by (intro keeps_rules)
  then have "quiet w2" using k l(2) keepsD by (fastforce simp: inv_rel_def)
  then have "fst (take_over c t h az bk n w2) = Inr ()"
    using bump_total audit_fst by (simp add: take_over_def Let_def andThen_apply set_tenant_quiet)
  then obtain w3 where "take_over c t h az bk n w2 = (Inr (), w3)" by (metis prod.collapse)
  with l(1) k assms(3,4) have "failover_steps c t h az bk n w = (Inr (), w3)"
    by (simp add: failover_steps_def route_to_target_def require_dashboard_def Let_def andThen_apply ok_apply)
  then show ?thesis by (simp add: execute_failover_def try_except_apply andThen_apply ok_apply)
qed


lemma unclaimable_job_noop:
  assumes "process_record c j n w = (r, w')" "\<not> in_failover (map_of (w_tenants w) (j_tenant_id j))"
  shows "w_tenants w' = w_tenants w \<and> w_hosts w' = w_hosts w \<and> w_ssm w' = w_ssm w \<and> w_rules w' = w_rules w \<and> w_queue w' = w_queue w"
  using assms(1) unfolding process_record_def Let_def
proof (cases rule: andThen_cases)
  case (raised e)
  then show ?thesis using get_tenant_same [OF raised(1)] by simp
next
  case (passed row w1)
  note g = get_tenant_same [OF passed(1)]
  show ?thesis
  proof (cases row)
    case None
    with passed(2) g show ?thesis by (simp add: ok_def)
  next
    case (Some t)
    obtain x w2 where x: "worker_claim (j_tenant_id j) n w1 = (x, w2)" by fastforce
    from claim_refused [OF x [unfolded worker_claim_def]] assms(2) g(1)
    have c: "x \<noteq> Inr True" "w_tenants w2 = w_tenants w1" by simp_all
    with passed(2) Some x have "w' = w2" by (cases x) (auto simp: andThen_apply ok_apply)
    with c g claim_same [OF x [unfolded worker_claim_def]] show ?thesis by simp
  qed
qed

section \<open>Properties\<close>

text \<open>
  C3. A failover is recorded only on proof and never raises: whatever fails in it, the pipeline
  returns; it answers true only after a probe on the target said VERIFIED and, with a public address
  configured, the dashboard gate passed with its full streak, and then the row is on the target,
  running, with the backup it was restored from; it answers false with the row where it was, at most
  marked as failed. No other row changes.
\<close>

theorem failover_only_on_proof:
  assumes "execute_failover c t h az bk n w = (r, w')" "map_of (w_tenants w) (t_id t) = Some row"
  shows "\<exists>answer row'. r = Inr answer \<and> map_of (w_tenants w') = (map_of (w_tenants w))(t_id t \<mapsto> row') \<and>
    (if answer then row' = recovered_row (h_instance_id h) n bk row \<and> vm_proven w w' \<and>
         (public_base_url c \<noteq> [] \<longrightarrow> dashboard_proven c w w')
     else t_host_id row' = t_host_id row \<and> t_vm_num row' = t_vm_num row \<and> (row' = row \<or> t_status row' \<in> {Some ''failover_failed'', Some ''failover_failed_partial''}))"
proof -
  from execute_cases [OF assms] obtain answer row' where e: "r = Inr answer" "failover_change c h bk n w w' row answer row'" "row_is t row' w w'"
    by blast
  from e(2) have "if answer then row' = recovered_row (h_instance_id h) n bk row \<and> vm_proven w w' \<and>
         (public_base_url c \<noteq> [] \<longrightarrow> dashboard_proven c w w')
     else t_host_id row' = t_host_id row \<and> t_vm_num row' = t_vm_num row \<and> (row' = row \<or> t_status row' \<in> {Some ''failover_failed'', Some ''failover_failed_partial''})"
    by cases (auto simp: failover_failed_row_def)
  then show ?thesis using e(1) e(3) [unfolded row_is_def] by (intro exI conjI)
qed

definition lost_tenant :: tenant where
  "lost_tenant = placed_tenant\<lparr>t_status := Some ''failover_recovering'', t_previous_host_id := Some ''i-1''\<rparr>"

definition lost_world :: world where
  "lost_world = world0\<lparr>w_tenants := [(''a-1'', lost_tenant)], w_hosts := [(''i-2'', target_host)],
     w_replies := [Reply ''Success'' '''' '''', Reply ''Success'' '''' '''', Reply ''Success'' ''VERIFIED_HTTP_200'' '''']\<rparr>"

lemma lost_world_facts:
  "quiet lost_world" "map_of (w_tenants lost_world) ''a-1'' = Some lost_tenant" "t_id lost_tenant = ''a-1''"
  by (simp_all add: lost_world_def lost_tenant_def placed_tenant_def fresh_tenant_def quiet_def)

theorem failover_only_on_proof_witness:
  "\<exists>w'. map_of (w_tenants w') ''a-1'' = Some (recovered_row ''i-2'' 5 ''backups/a-1/x.gz'' lost_tenant) \<and> vm_proven lost_world w'"
proof -
  let ?c = "cfg0\<lparr>listener_arn := ''''\<rparr>"
  have v: "contains ''VERIFIED'' ''VERIFIED_HTTP_200''" by code_simp
  obtain w' where w': "execute_failover ?c lost_tenant target_host ''az-1'' ''backups/a-1/x.gz'' 5 lost_world = (Inr True, w')"
    using execute_quiet [OF lost_world_facts(1), where c = ?c and t = lost_tenant and h = target_host and az = "''az-1''"
        and bk = "''backups/a-1/x.gz''" and n = 5] v
    by (auto simp: lost_world_def host_tg_mode_def)
  from failover_only_on_proof [OF w'] lost_world_facts
  have "map_of (w_tenants w') ''a-1'' = Some (recovered_row ''i-2'' 5 ''backups/a-1/x.gz'' lost_tenant) \<and> vm_proven lost_world w'"
    by (auto simp: target_host_def)
  then show ?thesis by (rule exI)
qed

text \<open>
  C21. A job delivered again after its tenant was recovered, failed or reaped does nothing: unless the
  tenant is still queued or recovering, processing the job changes no row, no host, no rule and no
  queue, and sends no command, whatever fails in it.
\<close>

theorem redelivered_job_is_noop:
  assumes "process_record c j n w = (r, w')" "\<not> in_failover (map_of (w_tenants w) (j_tenant_id j))"
  shows "w_tenants w' = w_tenants w \<and> w_hosts w' = w_hosts w \<and> w_ssm w' = w_ssm w \<and> w_rules w' = w_rules w \<and> w_queue w' = w_queue w"
  using unclaimable_job_noop [OF assms] .

definition sample_job :: failover_job where
  "sample_job = \<lparr>j_tenant_id = ''a-1'', j_source_az = ''az-1'', j_source_host_id = ''i-1'', j_target_host_id = ''i-2'',
     j_target_vm_num = 5, j_backup_key = ''backups/a-1/x.gz'', j_queued_at = 0\<rparr>"

theorem redelivered_job_is_noop_witness:
  "w_ssm (snd (process_record cfg0 sample_job 0 (world0\<lparr>w_tenants := [(''a-1'', placed_tenant)]\<rparr>))) = []"
proof -
  let ?w = "world0\<lparr>w_tenants := [(''a-1'', placed_tenant)]\<rparr>"
  obtain r w' where r: "process_record cfg0 sample_job 0 ?w = (r, w')" by fastforce
  have "\<not> in_failover (map_of (w_tenants ?w) (j_tenant_id sample_job))"
    by (simp add: in_failover_def sample_job_def placed_tenant_def)
  from redelivered_job_is_noop [OF r this] r show ?thesis by simp
qed


text \<open>
  C6. The queueing driver claims a tenant once: after it queued a tenant, another run that meets the
  tenant in its old snapshot does not queue it again and sends no job, whatever fails in it.
\<close>

theorem enqueue_claims_once:
  assumes "enqueue_failover c t h az n w = (Inr Queued, w1)" "w_tenants w2 = w_tenants w1"
    and "enqueue_failover c t h' az' n' w2 = (r, w3)"
  shows "r \<noteq> Inr Queued \<and> w_queue w3 = w_queue w2"
proof -
  from enqueue_queued [OF assms(1)] obtain row where
    "map_of (w_tenants w1) (t_id t) = Some row" "t_status row = Some ''failover_queued''" by blast
  then have "\<not> running_on_host (opt_str (t_host_id t)) (map_of (w_tenants w2) (t_id t))"
    using assms(2) by (simp add: running_on_host_def)
  from enqueue_refused [OF assms(3) this] show ?thesis .
qed

definition backed_world :: world where
  "backed_world = world0\<lparr>w_tenants := [(''a-1'', placed_tenant)], w_hosts := [(''i-2'', target_host)],
     w_objects := [\<lparr>o_key = ''backups/a-1/x.gz'', o_modified = 0, o_size = 1, o_text = ''''\<rparr>]\<rparr>"

lemma backed_facts:
  "quiet backed_world" "running_on_host (opt_str (t_host_id placed_tenant)) (map_of (w_tenants backed_world) (t_id placed_tenant))"
  by (simp_all add: backed_world_def placed_tenant_def fresh_tenant_def quiet_def running_on_host_def opt_str_def)

lemma enqueue_quiet:
  assumes "quiet w" "find_latest_backup_key c (t_id t) w = (Inr (Some bk), w)" "bk \<noteq> []" "assets_bucket c \<noteq> []"
    and "running_on_host (opt_str (t_host_id t)) (map_of (w_tenants w) (t_id t))"
  shows "\<exists>w'. enqueue_failover c t h az n w = (Inr Queued, w')"
proof -
  let ?f = "claimed_row ''failover_queued'' (opt_str (t_host_id t)) az n"
  obtain w2 where c: "claim_row (t_id t) (running_on_host (opt_str (t_host_id t))) ?f w = (Inr True, w2)"
    using claim_quiet [OF assms(1), of "running_on_host (opt_str (t_host_id t))"] assms(5) by blast
  have q2: "quiet w2" using keepsD [OF keeps_claim_row(5) c] assms(1) by (simp add: inv_rel_def)
  obtain i w3 where s: "reserve_target_vm_num (h_instance_id h) w2 = (Inr i, w3)" using reserve_quiet [OF q2] by blast
  have "quiet w3" using keepsD [OF keeps_reserve(5) s] q2 by (simp add: inv_rel_def)
  then have sent: "fst (try_send c j w3) = Inr True" for j
    by (simp add: try_send_def send_job_def quiet_def io_simps)
  have "fst (enqueue_failover c t h az n w) = Inr Queued"
    using assms(2-4) c s sent audit_fst
    by (simp add: enqueue_failover_def usable_backup_def Let_def andThen_apply opt_str_def ok_apply)
  then show ?thesis by (metis prod.collapse)
qed

theorem enqueue_claims_once_witness:
  "\<exists>w1. enqueue_failover cfg0 placed_tenant target_host ''az-1'' 0 backed_world = (Inr Queued, w1) \<and>
    fst (enqueue_failover cfg0 placed_tenant target_host ''az-1'' 60000000 w1) \<noteq> Inr Queued"
proof -
  have "find_latest_backup_key cfg0 (t_id placed_tenant) backed_world = (Inr (Some ''backups/a-1/x.gz''), backed_world)"
    by (simp add: find_latest_backup_key_def list_page_def under_def backed_world_def placed_tenant_def fresh_tenant_def
        sort_desc_def io_simps)
  from enqueue_quiet [OF backed_facts(1) this _ _ backed_facts(2), of target_host "''az-1''" 0] obtain w1 where w1: "enqueue_failover cfg0 placed_tenant target_host ''az-1'' 0 backed_world = (Inr Queued, w1)"
    by auto
  obtain r w3 where "enqueue_failover cfg0 placed_tenant target_host ''az-1'' 60000000 w1 = (r, w3)" by fastforce
  from enqueue_claims_once [OF w1 refl this] w1 this show ?thesis by auto
qed

text \<open>
  The synchronous driver's claim does not exclude a second run: its condition asks only for the
  host, which the claim does not change, so a concurrent run that read the same rows claims the
  tenant as well and launches it a second time.
\<close>

theorem sync_claim_not_exclusive:
  assumes "quiet w" "hosted_on p (map_of (w_tenants w) k)"
  shows "\<exists>w1. claim_row k (hosted_on p) (claimed_row ''failover_recovering'' p az n) w = (Inr True, w1) \<and>
    fst (claim_row k (hosted_on p) (claimed_row ''failover_recovering'' p az' n') w1) = Inr True"
proof -
  obtain w1 where w1: "claim_row k (hosted_on p) (claimed_row ''failover_recovering'' p az n) w = (Inr True, w1)"
    using claim_quiet [OF assms(1), of "hosted_on p"] assms(2) by blast
  have "quiet w1" using keepsD [OF keeps_claim_row(5) w1] assms(1) by (simp add: inv_rel_def)
  moreover have "hosted_on p (map_of (w_tenants w1) k)"
    using claim_held [OF w1] by (auto simp: hosted_on_def claimed_row_def split: option.splits)
  ultimately have "fst (claim_row k (hosted_on p) (claimed_row ''failover_recovering'' p az' n') w1) = Inr True"
    using claim_quiet by simp
  with w1 show ?thesis by blast
qed

theorem sync_claim_not_exclusive_witness:
  "\<exists>w1. claim_row ''a-1'' (hosted_on ''i-1'') (claimed_row ''failover_recovering'' ''i-1'' ''az-1'' 0) backed_world = (Inr True, w1) \<and>
    fst (claim_row ''a-1'' (hosted_on ''i-1'') (claimed_row ''failover_recovering'' ''i-1'' ''az-1'' 7) w1) = Inr True"
  by (rule sync_claim_not_exclusive) (simp_all add: quiet_def backed_world_def hosted_on_def placed_tenant_def)


text \<open>
  Data is never given up silently: when no backup of a tenant lies under \<open>backups/\<close>, both
  drivers answer "blocked", whatever fails; no command is sent, no host, rule or job changes, and
  the tenant's row is as it was or marked blocked. A deployment that keeps its backups under another
  prefix thus has every tenant blocked.
\<close>

theorem no_backup_no_failover:
  assumes "under (''backups/'' @ t_id t @ ''/'') (w_objects w) = []" "map_of (w_tenants w) (t_id t) = Some row"
    and "driver \<in> {enqueue_failover, failover_tenant_to_host}" "driver c t h az n w = (r, w')"
  shows "r = Inr Blocked \<and> w_ssm w' = w_ssm w \<and> w_rules w' = w_rules w \<and> w_queue w' = w_queue w \<and> w_hosts w' = w_hosts w \<and>
    map_of (w_tenants w') (t_id t) \<in> {Some row, Some (blocked_row row)}"
proof -
  from assms(3,4) consider (queueing) "enqueue_failover c t h az n w = (r, w')"
    | (sync) "failover_tenant_to_host c t h az n w = (r, w')" by blast
  then show ?thesis
  proof cases
    case queueing
    show ?thesis by (rule blocked_driver [OF assms(1) queueing [unfolded enqueue_failover_def Let_def] assms(2)])
  next
    case sync
    show ?thesis by (rule blocked_driver [OF assms(1) sync [unfolded failover_tenant_to_host_def Let_def] assms(2)])
  qed
qed

definition elsewhere_world :: world where
  "elsewhere_world = backed_world\<lparr>w_objects := [\<lparr>o_key = ''nightly/a-1/x.gz'', o_modified = 0, o_size = 1, o_text = ''''\<rparr>]\<rparr>"

theorem no_backup_no_failover_witness:
  "fst (failover_tenant_to_host (cfg0\<lparr>backup_prefix := ''nightly''\<rparr>) placed_tenant target_host ''az-1'' 0 elsewhere_world) = Inr Blocked \<and>
   w_objects elsewhere_world \<noteq> []"
proof -
  let ?c = "cfg0\<lparr>backup_prefix := ''nightly''\<rparr>"
  obtain r w' where r: "failover_tenant_to_host ?c placed_tenant target_host ''az-1'' 0 elsewhere_world = (r, w')" by fastforce
  have u: "under (''backups/'' @ t_id placed_tenant @ ''/'') (w_objects elsewhere_world) = []"
    by (simp add: under_def elsewhere_world_def placed_tenant_def fresh_tenant_def)
  have m: "map_of (w_tenants elsewhere_world) (t_id placed_tenant) = Some placed_tenant"
    by (simp add: elsewhere_world_def backed_world_def placed_tenant_def fresh_tenant_def)
  from no_backup_no_failover [where driver = failover_tenant_to_host, OF u m _ r] r show ?thesis by (simp add: elsewhere_world_def)
qed

text \<open>
  The synchronous driver sends a whole zone to one host: it counts the VMs it has placed but not
  their resources, so with no ceiling on VMs, after any number of placements on the chosen host the
  next tenant of the same size is sent to that host again, full or not.
\<close>

theorem sync_driver_piles_up:
  assumes "pick_target_host c hosts n th ex v m = Some b" "max_vms_per_host c = 0"
  shows "\<exists>b'. pick_target_host c (fst (foldr (after_moving b) outs (hosts, su))) n th ex v m = Some b' \<and>
    h_instance_id b' = h_instance_id b"
proof (induction outs)
  case Nil
  with assms(1) show ?case by simp
next
  case (Cons out outs)
  let ?hs = "fst (foldr (after_moving b) outs (hosts, su))"
  from Cons obtain a where a: "pick_target_host c ?hs n th ex v m = Some a" "h_instance_id a = h_instance_id b" by blast
  have "placement_same next_slot" "placement_same (next_slot \<circ> one_more_vm)"
    by (simp_all add: placement_same_def next_slot_def one_more_vm_def)
  note same = this [THEN pick_same_host [OF a(1) _ assms(2), of _ "h_instance_id b"]]
  have "fst (foldr (after_moving b) (out # outs) (hosts, su)) \<in>
      {?hs, with_host (h_instance_id b) next_slot ?hs, with_host (h_instance_id b) (next_slot \<circ> one_more_vm) ?hs}"
    by (cases out; cases "foldr (after_moving b) outs (hosts, su)") (simp_all add: after_moving_def Let_def)
  with a same show ?case by fastforce
qed

theorem sync_driver_piles_up_witness:
  "\<exists>b'. pick_target_host cfg0 (fst (foldr (after_moving (target_host\<lparr>h_last_seen := Some (At 0)\<rparr>)) [Recovered, Recovered, Recovered]
       ([target_host\<lparr>h_last_seen := Some (At 0)\<rparr>], summary0))) 0 3 [''az-1''] 2 4096 = Some b' \<and> h_instance_id b' = ''i-2''"
proof -
  let ?h = "target_host\<lparr>h_last_seen := Some (At 0)\<rparr>"
  have "pick_target_host cfg0 [?h] 0 3 [''az-1''] 2 4096 = Some ?h" by code_simp
  from sync_driver_piles_up [OF this, of "[Recovered, Recovered, Recovered]" summary0] show ?thesis
    by (simp add: target_host_def)
qed

text \<open>
  Reserved VM numbers never repeat: in a world where nothing fails, any number of reservations
  on a host returns consecutive numbers from its counter on. A reservation that fails returns 1
  instead of failing, even when that number is taken.
\<close>

theorem reservations_distinct:
  assumes "quiet w"
  shows "(\<exists>w'. fold_io (\<lambda>_ got. andThen (reserve_target_vm_num i) (\<lambda>m. ok (got @ [m]))) [0..<k] [] w =
      (Inr (map (\<lambda>j. int_attr_or (h_next_vm_num (host_or_fresh w i)) 1 + int j) [0..<k]), w')) \<and>
    fst (reserve_target_vm_num i (w\<lparr>w_oracle := [(d, Some e)]\<rparr>)) = Inr 1"
proof
  show "\<exists>w'. fold_io (\<lambda>_ got. andThen (reserve_target_vm_num i) (\<lambda>m. ok (got @ [m]))) [0..<k] [] w =
      (Inr (map (\<lambda>j. int_attr_or (h_next_vm_num (host_or_fresh w i)) 1 + int j) [0..<k]), w')"
    using reservations_quiet [OF assms refl, of i "[0..<k]" "[]"] by simp
  show "fst (reserve_target_vm_num i (w\<lparr>w_oracle := [(d, Some e)]\<rparr>)) = Inr 1"
    by (simp add: reserve_target_vm_num_def update_host_def aws_def io_simps Let_def)
qed


theorem reservations_distinct_witness:
  "(\<exists>w'. fold_io (\<lambda>_ got. andThen (reserve_target_vm_num ''i-2'') (\<lambda>m. ok (got @ [m]))) [0..<3] [] lost_world = (Inr [5, 6, 7], w')) \<and>
   fst (reserve_target_vm_num ''i-2'' (lost_world\<lparr>w_oracle := [(0, Some cond_failed)]\<rparr>)) = Inr 1"
proof -
  have "int_attr_or (h_next_vm_num (host_or_fresh lost_world ''i-2'')) 1 = 5"
    by (simp add: lost_world_def target_host_def host_or_fresh_def)
  with reservations_distinct [OF lost_world_facts(1), of "''i-2''" 3 0 cond_failed] show ?thesis
    by (simp add: upt_conv_Cons)
qed

text \<open>
  No failover hangs for ever: when nothing fails, the watchdog's sweep returns, every tenant that
  has been queued or recovering for the watchdog's minutes (or carries no readable time) is marked
  failed, and every other row is as it was.
\<close>

theorem stuck_failovers_surface:
  assumes "quiet w" "keyed (w_tenants w)"
  shows "\<exists>w1. sweep_stuck_failovers c n w = (Inr (), w1) \<and>
    (\<forall>k. map_of (w_tenants w1) k = map_option (\<lambda>t. if in_failover (Some t) \<and> \<not> within_grace c n t
       then t\<lparr>t_status := Some ''failover_failed'',
              t_failover_error := Some (''watchdog: stuck > '' @ show_int (failover_watchdog_minutes c) @ ''min'')\<rparr>
       else t) (map_of (w_tenants w) k))"
  using sweep_stuck_rows [OF assms, of c n] unfolding after_watchdog_def failover_failed_row_def by blast

theorem stuck_failovers_surface_witness:
  "\<exists>w1. sweep_stuck_failovers cfg0 (seconds 1000) lost_world = (Inr (), w1) \<and>
    map_of (w_tenants w1) ''a-1'' = Some (lost_tenant\<lparr>t_status := Some ''failover_failed'',
      t_failover_error := Some (''watchdog: stuck > '' @ show_int 15 @ ''min'')\<rparr>)"
proof -
  have "keyed (w_tenants lost_world)" by (simp add: keyed_def lost_world_def lost_world_facts(3))
  from stuck_failovers_surface [OF lost_world_facts(1) this, of cfg0 "seconds 1000"] obtain w1 where
    w1: "sweep_stuck_failovers cfg0 (seconds 1000) lost_world = (Inr (), w1)"
      "\<forall>k. map_of (w_tenants w1) k = map_option (\<lambda>t. if in_failover (Some t) \<and> \<not> within_grace cfg0 (seconds 1000) t
       then t\<lparr>t_status := Some ''failover_failed'',
              t_failover_error := Some (''watchdog: stuck > '' @ show_int (failover_watchdog_minutes cfg0) @ ''min'')\<rparr>
       else t) (map_of (w_tenants lost_world) k)" by blast
  have "in_failover (Some lost_tenant) \<and> \<not> within_grace cfg0 (seconds 1000) lost_tenant"
    by (simp add: in_failover_def within_grace_def lost_tenant_def placed_tenant_def fresh_tenant_def)
  with w1 lost_world_facts(2) show ?thesis by simp
qed

text \<open>
  C10. A run over the outages touches no tenant outside them: whatever fails in it, a row changes only
  if it is the row of one of the run's tenants whose host was read in a zone that the operator
  forced or in which every host read was unhealthy.
\<close>

theorem failover_blast_radius:
  assumes "check_and_handle_az_failover c n tenants force_azs w = (r, w')"
    and "map_of (w_tenants w') k \<noteq> map_of (w_tenants w) k"
  shows "\<exists>t \<in> set tenants. t_id t = k \<and>
    lost_host c (filter (\<lambda>h. h_status h \<noteq> Some ''deleted'') (map snd (w_hosts w))) force_azs n (opt_str (t_host_id t))"
proof (rule ccontr)
  let ?lost = "lost_host c (filter (\<lambda>h. h_status h \<noteq> Some ''deleted'') (map snd (w_hosts w))) force_azs n"
  assume none: "\<not> (\<exists>t \<in> set tenants. t_id t = k \<and> ?lost (opt_str (t_host_id t)))"
  have "rows_outside (t_id ` {t \<in> set tenants. ?lost (opt_str (t_host_id t))}) w w'"
    by (rule run_outside [OF assms(1)]) blast
  with assms(2) have "k \<in> t_id ` {t \<in> set tenants. ?lost (opt_str (t_host_id t))}" unfolding rows_outside_def by blast
  with none show False by blast
qed


definition outage_world :: world where
  "outage_world = world0\<lparr>w_now := seconds 3600, w_tenants := [(''a-1'', placed_tenant)],
     w_hosts := [(''i-1'', full_host\<lparr>h_az := Some ''az-1''\<rparr>),
       (''i-2'', target_host\<lparr>h_az := Some ''az-2'', h_last_seen := Some (At (seconds 3590))\<rparr>)]\<rparr>"

theorem failover_blast_radius_witness:
  "lost_host (cfg0\<lparr>has_audit_table := False, assets_bucket := ''''\<rparr>) (map snd (w_hosts outage_world)) [] (seconds 3600) ''i-1''"
proof -
  let ?c = "cfg0\<lparr>has_audit_table := False, assets_bucket := ''''\<rparr>"
  obtain r w' where r: "check_and_handle_az_failover ?c (seconds 3600) [placed_tenant] [] outage_world = (r, w')" by fastforce
  have "map_option t_status (map_of (w_tenants (snd (check_and_handle_az_failover ?c (seconds 3600) [placed_tenant] [] outage_world))) ''a-1'')
      = Some (Some ''failover_blocked'')" by code_simp
  moreover have "map_of (w_tenants outage_world) ''a-1'' = Some placed_tenant" "t_status placed_tenant = Some ''running''"
    by (simp_all add: outage_world_def placed_tenant_def)
  ultimately have "map_of (w_tenants w') ''a-1'' \<noteq> map_of (w_tenants outage_world) ''a-1''" using r by auto
  from failover_blast_radius [OF r this] show ?thesis
    by (auto simp: placed_tenant_def opt_str_def outage_world_def full_host_def target_host_def host4_def fresh_host_def)
qed

end
