(* ===== verification/Migration.thy ===== *)
theory Migration
  imports Gates
begin

text \<open>
  The out-of-band driver of live and cold migrations (health_check/handler.py): every run of the
  health-check Lambda advances each migrating tenant by one step, from the snapshot on the source
  through the restore on the target to the switch of the tenant's row, or rolls it back. The
  abstract machine at the end of the definitions is what an operator is promised: a tenant stays
  where it is until the move is committed.
\<close>

section \<open>Rolling back\<close>

definition rolled_back_row :: "string \<Rightarrow> int \<Rightarrow> tenant \<Rightarrow> tenant" where
  "rolled_back_row reason n r = clear_migration (r\<lparr>t_status := Some ''running'',
     t_migration_failed := Some (take 500 reason), t_updated_at := Some (At n)\<rparr>)"

definition mode_of :: "tenant \<Rightarrow> string" where
  "mode_of t = or_default (t_migration_mode t) ''live''"

definition relaunch_command :: "tenant \<Rightarrow> string" where
  "relaunch_command t = ''/home/ubuntu/launch-vm.sh '' @ t_id t @ '' '' @ show_int (int_attr_or (t_vm_num t) 1) @ '' '' @
     show_int (int_attr_or (t_vcpu t) 2) @ '' '' @ show_int (int_attr_or (t_mem_mb t) 4096)"

text \<open>A cold migration has stopped the source VM, so it is launched again.\<close>

definition relaunch_source :: "tenant \<Rightarrow> (world, unit) io" where
  "relaunch_source t = whenever (mode_of t = ''cold'')
     (let src = (if opt_str (t_migration_source t) \<noteq> [] then opt_str (t_migration_source t) else opt_str (t_host_id t)) in
      whenever (src \<noteq> []) (andThen (hc_send src (relaunch_command t) 300) (\<lambda>_. ok ())))"

definition rollback_migration :: "cfg \<Rightarrow> tenant \<Rightarrow> string \<Rightarrow> (world, unit) io" where
  "rollback_migration c t reason =
     andThen (relaunch_source t) (\<lambda>_.
     andThen now (\<lambda>n.
     andThen (update_tenant (t_id t) no_cond (set_attrs (rolled_back_row reason n))) (\<lambda>_.
     emit_audit c ''MIGRATION_FAILED'' [(''tenant_id'', JStr (t_id t)), (''reason'', JStr (take 200 reason)),
       (''mode'', JStr (mode_of t))])))"

text \<open>
  The watchdog: true when it rolled the tenant back. A roll-back that raises is swallowed together
  with a timestamp that does not parse, and the tick goes on with the phase.
\<close>

definition migration_watchdog :: "cfg \<Rightarrow> int \<Rightarrow> tenant \<Rightarrow> (world, bool) io" where
  "migration_watchdog c n t = (case t_migration_started_at t of
       Some (At started) \<Rightarrow>
         if n - started > seconds (60 * migration_watchdog_minutes c)
         then try_except (andThen (rollback_migration c t (''watchdog: stuck in '' @ opt_str (t_migration_phase t) @
             '' for '' @ show_int ((n - started) div seconds 60) @ ''min'')) (\<lambda>_. ok True)) (\<lambda>_. ok False)
         else ok False
     | _ \<Rightarrow> ok False)"

section \<open>The snapshot phase\<close>

definition restore_row :: "string \<Rightarrow> int \<Rightarrow> tenant \<Rightarrow> tenant" where
  "restore_row rc n r = r\<lparr>t_migration_phase := Some ''restore'', t_migration_restore_cmd := Some rc, t_updated_at := Some (At n)\<rparr>"

definition restore_command :: "tenant \<Rightarrow> string" where
  "restore_command t = ''/home/ubuntu/migrate-vm.sh '' @
     (if mode_of t = ''cold'' then ''cold-restore'' else ''restore'') @ '' '' @ t_id t @ '' '' @
     show_int (int_attr_or (t_migration_target_vm_num t) 1) @ '' '' @ opt_str (t_migration_snapshot_uri t)"

definition advance_snapshot :: "cfg \<Rightarrow> tenant \<Rightarrow> (world, unit) io" where
  "advance_snapshot c t = (let cmd_id = opt_str (t_migration_snap_cmd t) in
     if cmd_id = [] then rollback_migration c t ''snapshot phase but no migration_snap_cmd''
     else andThen (poll cmd_id (opt_str (t_migration_source t))) (\<lambda>(finished, okay).
       if \<not> finished then ok ()
       else if \<not> okay then rollback_migration c t ''snapshot command failed on source host''
       else andThen (hc_send (opt_str (t_migration_target t)) (restore_command t) 600) (\<lambda>rc. case rc of
           None \<Rightarrow> rollback_migration c t ''failed to submit restore SSM command''
         | Some restore_cmd \<Rightarrow> andThen now (\<lambda>n.
             andThen (update_tenant (t_id t) no_cond (set_attrs (restore_row restore_cmd n))) (\<lambda>_. ok ())))))"

section \<open>The restore phase\<close>

text \<open>
  Routing to the target; false when the migration was rolled back instead. The roll-back for a
  missing address stands inside the \<open>try\<close>, so when it raises a second one follows.
\<close>

definition switch_route :: "cfg \<Rightarrow> tenant \<Rightarrow> string \<Rightarrow> (world, bool) io" where
  "switch_route c t target_ip = (let tgt = opt_str (t_migration_target t) in
     if host_tg_mode c
     then andThen (best_effort (andThen (hc_send tgt (drop_peer_command (t_id t)) 15) (\<lambda>_. ok ()))) (\<lambda>_. ok True)
     else try_except
       (if target_ip \<noteq> [] then andThen (repoint_alb_rule c (t_id t) tgt target_ip) (\<lambda>_. ok True)
        else andThen (rollback_migration c t ''target host has no private_ip'') (\<lambda>_. ok False))
       (\<lambda>e. andThen (rollback_migration c t (''ALB repoint failed: '' @ exn_str e)) (\<lambda>_. ok False)))"

definition public_gate :: "cfg \<Rightarrow> string \<Rightarrow> (world, bool) io" where
  "public_gate c tid = (if public_base_url c = [] then ok True
     else verify_dashboard c tid (public_base_url c) (verify_seconds c))"

definition moved_row :: "string \<Rightarrow> int \<Rightarrow> int \<Rightarrow> tenant \<Rightarrow> tenant" where
  "moved_row tgt tvn n r = (clear_migration (r\<lparr>t_host_id := Some tgt, t_vm_num := Some tvn,
     t_status := Some ''running'', t_updated_at := Some (At n)\<rparr>))\<lparr>t_migration_failed := None\<rparr>"

definition unbooked :: "int \<Rightarrow> int \<Rightarrow> host \<Rightarrow> host" where
  "unbooked v m h = h\<lparr>h_used_vcpu := Some (int_attr (h_used_vcpu h) - v),
     h_used_mem_mb := Some (int_attr (h_used_mem_mb h) - m), h_vm_count := Some (int_attr (h_vm_count h) - 1)\<rparr>"

definition clean_source_command :: "tenant \<Rightarrow> string" where
  "clean_source_command t = ''/home/ubuntu/stop-vm.sh '' @ t_id t @ '' '' @ show_int (int_attr_or (t_vm_num t) 1) @
     '' ; sudo rm -f /etc/nginx/conf.d/tenants/'' @ t_id t @ ''.conf && sudo nginx -s reload''"

definition complete_migration :: "cfg \<Rightarrow> tenant \<Rightarrow> (world, unit) io" where
  "complete_migration c t = (
     let tgt = opt_str (t_migration_target t); tvn = int_attr_or (t_migration_target_vm_num t) 1;
         src = opt_str (t_migration_source t); vcpu = int_attr (t_vcpu t); mem_mb = int_attr (t_mem_mb t) in
     andThen now (\<lambda>n.
     andThen (update_tenant (t_id t) no_cond (set_attrs (moved_row tgt tvn n))) (\<lambda>_.
     andThen (whenever (src \<noteq> []) (best_effort
        (andThen (update_host src no_cond (set_attrs (unbooked vcpu mem_mb))) (\<lambda>_. ok ())))) (\<lambda>_.
     andThen (bump_target_counters tgt tvn vcpu mem_mb) (\<lambda>_.
     andThen (whenever (src \<noteq> []) (best_effort
        (andThen (hc_send src (clean_source_command t) 60) (\<lambda>_. ok ())))) (\<lambda>_.
     emit_audit c ''MIGRATION_COMPLETED'' [(''tenant_id'', JStr (t_id t)), (''source_host_id'', JStr src),
       (''target_host_id'', JStr tgt)]))))))"

definition advance_restore :: "cfg \<Rightarrow> tenant \<Rightarrow> (world, unit) io" where
  "advance_restore c t = (let cmd_id = opt_str (t_migration_restore_cmd t); tgt = opt_str (t_migration_target t) in
     if cmd_id = [] then rollback_migration c t ''restore phase but no migration_restore_cmd''
     else andThen (poll cmd_id tgt) (\<lambda>(finished, okay).
       if \<not> finished then ok ()
       else if \<not> okay then rollback_migration c t ''restore command failed on target host''
       else andThen (get_host_row tgt) (\<lambda>target.
         andThen (switch_route c t (case target of None \<Rightarrow> '''' | Some h \<Rightarrow> opt_str (h_private_ip h))) (\<lambda>routed.
         if \<not> routed then ok ()
         else andThen (public_gate c (t_id t)) (\<lambda>reachable.
           if \<not> reachable then rollback_migration c t ''dashboard not reachable via ALB after restore''
           else complete_migration c t)))))"

section \<open>One step, one sweep\<close>

definition advance_migration :: "cfg \<Rightarrow> int \<Rightarrow> tenant \<Rightarrow> (world, unit) io" where
  "advance_migration c n t = (let phase = opt_str (t_migration_phase t) in
     if phase = [] then ok ()
     else andThen (migration_watchdog c n t) (\<lambda>fired.
       if fired then ok ()
       else if phase = ''snapshot'' then advance_snapshot c t
       else if phase = ''restore'' then advance_restore c t
       else rollback_migration c t (''unknown migration_phase: '' @ quoted phase)))"

definition in_migration :: "tenant \<Rightarrow> bool" where
  "in_migration t = (t_status t = Some ''migrating'')"

definition sweep_one :: "cfg \<Rightarrow> int \<Rightarrow> tenant \<Rightarrow> (world, unit) io" where
  "sweep_one c n t = (if t_status t \<noteq> Some ''migrating'' \<or> opt_str (t_migration_phase t) = [] then ok ()
     else best_effort (advance_migration c n t))"

definition sweep_migrations :: "cfg \<Rightarrow> int \<Rightarrow> (world, unit) io" where
  "sweep_migrations c n = best_effort (andThen (scan_all w_tenants in_migration) (\<lambda>migrating.
     for_each migrating (sweep_one c n)))"


section \<open>The promise\<close>

text \<open>
  A tenant's place is its host and VM number. The abstract machine moves a tenant only by a
  commit out of the restore phase; every other way out of a migration leaves the tenant in place.
\<close>

type_synonym place = "string option \<times> int option"

datatype mphase = Snapshotting | Restoring

datatype mstate = Settled place | Moving mphase place place

text \<open>
  The steps are labelled by who takes them: the operator asks for a move or cancels it, the sweep
  ticks. Only a tick commits, and only to the place the last request named.
\<close>

datatype mlabel = Asked | Cancelled | Ticked

inductive mig_step :: "mlabel \<Rightarrow> mstate \<Rightarrow> mstate \<Rightarrow> bool" where
  idle: "mig_step l s s"
| begin_move: "mig_step Asked (Settled p) (Moving Snapshotting p q)"
| begin_again: "mig_step Asked (Moving ph p q) (Moving Snapshotting p q')"
| cancel: "mig_step Cancelled (Moving ph p q) (Settled p)"
| snapshot_done: "mig_step Ticked (Moving Snapshotting p q) (Moving Restoring p q)"
| commit: "mig_step Ticked (Moving Restoring p q) (Settled q)"
| abort: "mig_step Ticked (Moving ph p q) (Settled p)"

inductive_cases from_settled: "mig_step l (Settled p) s"
inductive_cases from_moving: "mig_step l (Moving ph p q) s"

inductive mig_path :: "mlabel list \<Rightarrow> mstate \<Rightarrow> mstate \<Rightarrow> bool" where
  finished: "mig_path [] s s"
| stepped: "mig_step l s s' \<Longrightarrow> mig_path ls s' s'' \<Longrightarrow> mig_path (l # ls) s s''"

fun place_of :: "mstate \<Rightarrow> place" where
  "place_of (Settled p) = p"
| "place_of (Moving ph p q) = p"

fun bound_for :: "mstate \<Rightarrow> place set" where
  "bound_for (Settled p) = {p}"
| "bound_for (Moving ph p q) = {p, q}"

lemma place_changes_by_commit:
  "mig_step l s s' \<Longrightarrow> place_of s' \<noteq> place_of s \<Longrightarrow> \<exists>p q. l = Ticked \<and> s = Moving Restoring p q \<and> s' = Settled q"
  by (induction rule: mig_step.induct) auto

lemma bound_grows_by_request: "mig_step l s s' \<Longrightarrow> l \<noteq> Asked \<Longrightarrow> bound_for s' \<subseteq> bound_for s"
  by (induction rule: mig_step.induct) auto

lemma place_bound: "place_of s \<in> bound_for s"
  by (cases s) auto

text \<open>What follows for runs: two ticks at least between a place and another, a request before.\<close>

lemma path_place:
  "mig_path ls s s' \<Longrightarrow> Ticked \<notin> set ls \<Longrightarrow> place_of s' = place_of s"
  "mig_path ls s s' \<Longrightarrow> Asked \<notin> set ls \<Longrightarrow> bound_for s' \<subseteq> bound_for s"
  by (induction rule: mig_path.induct) (use place_changes_by_commit bound_grows_by_request in fastforce)+

definition place_of_row :: "tenant \<Rightarrow> place" where
  "place_of_row t = (t_host_id t, t_vm_num t)"

definition target_of_row :: "tenant \<Rightarrow> place" where
  "target_of_row t = (Some (opt_str (t_migration_target t)), Some (int_attr_or (t_migration_target_vm_num t) 1))"

definition migration_of :: "tenant \<Rightarrow> mstate" where
  "migration_of t = (
     if t_status t = Some ''migrating'' \<and> t_migration_phase t = Some ''snapshot''
     then Moving Snapshotting (place_of_row t) (target_of_row t)
     else if t_status t = Some ''migrating'' \<and> t_migration_phase t = Some ''restore''
     then Moving Restoring (place_of_row t) (target_of_row t)
     else Settled (place_of_row t))"

section \<open>Lemmas\<close>

lemma keeps_rollback [keeps_rules]:
  "keeps (unchanged w_hosts) (rollback_migration c t reason)"
  "keeps (unchanged w_replies) (rollback_migration c t reason)"
  "keeps (unchanged w_http) (rollback_migration c t reason)"
  "keeps (unchanged w_rules) (rollback_migration c t reason)"
  "keeps (inv_rel quiet) (rollback_migration c t reason)"
  "keeps rows_stay (rollback_migration c t reason)"
  "t_id t = k \<Longrightarrow> keeps (others_same k) (rollback_migration c t reason)"
  unfolding rollback_migration_def relaunch_source_def Let_def by (intro keeps_rules; simp)+

lemma relaunch_total: "\<exists>w1. relaunch_source t w = (Inr (), w1) \<and> w_tenants w1 = w_tenants w"
proof -
  have "\<exists>w1. andThen (hc_send i cmd s) (\<lambda>_. ok ()) w = (Inr (), w1) \<and> w_tenants w1 = w_tenants w" for i cmd s
    using hc_send_total [of i cmd s w] hc_send_same(1) [of i cmd s w] by (auto simp: io_simps)
  then show ?thesis by (simp add: relaunch_source_def Let_def whenever_def ok_apply)
qed

text \<open>A roll-back returns with the row rolled back, or raises with the table as it was.\<close>

lemma rollback_row:
  assumes "rollback_migration c t reason w = (r, w')"
  shows "(\<exists>e. r = Inl e \<and> w_tenants w' = w_tenants w) \<or>
    (\<exists>n. r = Inr () \<and> w_tenants w' = AList.update (t_id t) (rolled_back_row reason n (tenant_or_fresh w (t_id t))) (w_tenants w))"
proof -
  obtain w1 where s1: "relaunch_source t w = (Inr (), w1)" "w_tenants w1 = w_tenants w"
    using relaunch_total by blast
  obtain u w2 where s2: "update_tenant (t_id t) no_cond (set_attrs (rolled_back_row reason (w_now w1))) w1 = (u, w2)"
    by fastforce
  show ?thesis
  proof (cases u)
    case (Inl e)
    with assms s1 s2 update_tenant_Inl [OF s2 [unfolded Inl]] show ?thesis
      by (auto simp: rollback_migration_def io_simps now_quiet)
  next
    case (Inr row)
    let ?d = "[(''tenant_id'', JStr (t_id t)), (''reason'', JStr (take 200 reason)), (''mode'', JStr (mode_of t))]"
    obtain w3 where s3: "emit_audit c ''MIGRATION_FAILED'' ?d w2 = (Inr (), w3)" using emit_audit_total by blast
    have "keeps (unchanged w_tenants) (emit_audit c ''MIGRATION_FAILED'' ?d)" by (rule keeps_rules)
    with s3 have "w_tenants w3 = w_tenants w2" by (auto simp: unchanged_def dest: keepsD)
    moreover have "r = Inr ()" "w' = w3"
      using assms s1 s2 s3 Inr by (simp_all add: rollback_migration_def io_simps now_quiet)
    ultimately show ?thesis
      using set_tenant_Inr [OF s2 [unfolded Inr]] s1(2) by (auto simp: tenant_or_fresh_def)
  qed
qed


text \<open>What one tick may do to the tenant's row, and on what evidence.\<close>

inductive mig_change :: "cfg \<Rightarrow> tenant \<Rightarrow> world \<Rightarrow> world \<Rightarrow> tenant \<Rightarrow> bool" for c t w w' where
  stayed: "mig_change c t w w' t"
| rolled: "mig_change c t w w' (rolled_back_row reason n t)"
| restoring: "t_migration_phase t = Some ''snapshot'' \<Longrightarrow> decided_by (Reply ''Success'' out err) w w' \<Longrightarrow>
    mig_change c t w w' (restore_row rc n t)"
| moved: "t_migration_phase t = Some ''restore'' \<Longrightarrow> decided_by (Reply ''Success'' out err) w w' \<Longrightarrow>
    public_base_url c \<noteq> [] \<longrightarrow> dashboard_proven c w w' \<Longrightarrow>
    mig_change c t w w' (moved_row (opt_str (t_migration_target t)) (int_attr_or (t_migration_target_vm_num t) 1) n t)"

definition settles :: "tenant \<Rightarrow> world \<Rightarrow> world \<Rightarrow> bool" where
  "settles t w w' = (\<exists>t'. (t' = t \<or> (\<exists>reason n. t' = rolled_back_row reason n t)) \<and> row_is t t' w w')"

lemma settles_same: "stored t w \<Longrightarrow> w_tenants w' = w_tenants w \<Longrightarrow> settles t w w'"
  unfolding settles_def using same_row by blast

lemma settles_from: "settles t w1 w' \<Longrightarrow> w_tenants w1 = w_tenants w \<Longrightarrow> settles t w w'"
  by (simp add: settles_def row_is_def)

lemma settles_change: "settles t w w' \<Longrightarrow> \<exists>t'. mig_change c t w w' t' \<and> row_is t t' w w'"
  unfolding settles_def by (blast intro: mig_change.intros)

lemma rollback_settles:
  assumes "rollback_migration c t reason w = (r, w')" "stored t w"
  shows "settles t w w'"
  using rollback_row [OF assms(1)]
proof (elim disjE exE conjE)
  fix n
  assume "w_tenants w' = AList.update (t_id t) (rolled_back_row reason n (tenant_or_fresh w (t_id t))) (w_tenants w)"
  moreover have "tenant_or_fresh w (t_id t) = t" using assms(2) by (simp add: stored_def)
  ultimately have "row_is t (rolled_back_row reason n t) w w'" by (simp add: row_is_def update_conv')
  then show ?thesis unfolding settles_def by blast
qed (use assms(2) settles_same in blast)

lemma poll_Inr:
  assumes "poll cid i w = (r, w')"
  shows "\<exists>p. r = Inr p \<and> w_tenants w' = w_tenants w \<and> w_http w' = w_http w \<and>
    (p = (True, True) \<longrightarrow> (\<exists>out err. decided_by (Reply ''Success'' out err) w w'))"
proof -
  have same: "w_tenants w' = w_tenants w" "w_http w' = w_http w"
    by (rule tables_of [of _ "poll cid i", OF _ assms], rule keeps_rules)+
  obtain g w1 where g: "get_invocation cid i w = (g, w1)" by fastforce
  show ?thesis
  proof (cases g)
    case (Inl e)
    with assms g same show ?thesis by (auto simp: poll_def io_simps)
  next
    case (Inr x)
    obtain st out err where x: "x = (st, out, err)" by (cases x)
    with assms g Inr have "w' = w1" "r = Inr (if st = ''Success'' then (True, True)
        else if st \<in> set failed_statuses then (True, False) else (False, False))"
      by (auto simp: poll_def io_simps split: if_splits)
    with same g Inr x decided_Inr [of cid i w st out err w1] show ?thesis by (auto simp: decisive_def)
  qed
qed

lemma watchdog_cases:
  assumes "migration_watchdog c n t w = (r, w')" "stored t w"
  obtains (fired) "r = Inr True" "settles t w w'"
  | (quiet) "r = Inr False" "w_tenants w' = w_tenants w" "w_replies w' = w_replies w" "w_http w' = w_http w"
proof -
  have same: "w_replies w' = w_replies w" "w_http w' = w_http w"
    by (rule tables_of [of _ "migration_watchdog c n t", OF _ assms(1)], unfold migration_watchdog_def,
        auto split: option.split stamp.split intro: keeps_rules)+
  let ?fires = "\<exists>started. t_migration_started_at t = Some (At started) \<and>
      n - started > seconds (60 * migration_watchdog_minutes c)"
  show thesis
  proof (cases ?fires)
    case False
    with assms(1) have "r = Inr False" "w' = w"
      by (auto simp: migration_watchdog_def ok_def split: option.splits stamp.splits if_splits)
    with quiet show thesis by simp
  next
    case True
    then obtain reason where m: "migration_watchdog c n t =
        try_except (andThen (rollback_migration c t reason) (\<lambda>_. ok True)) (\<lambda>_. ok False)"
      by (auto simp: migration_watchdog_def)
    obtain x w1 where x: "rollback_migration c t reason w = (x, w1)" by fastforce
    show thesis
    proof (cases x)
      case (Inl e)
      with x have "w_tenants w1 = w_tenants w" using rollback_row [OF x] by simp
      with assms(1) m x Inl same quiet show thesis by (simp add: io_simps)
    next
      case (Inr u)
      with assms(1) m x fired rollback_settles [OF x assms(2)] show thesis by (simp add: io_simps)
    qed
  qed
qed


lemma update_same:
  assumes "update_tenant k cnd u w = (r, w')"
  shows "w_replies w' = w_replies w" "w_http w' = w_http w"
  by (rule tables_of [of _ "update_tenant k cnd u", OF _ assms], rule keeps_rules)+

lemma snapshot_change:
  assumes "advance_snapshot c t w = (r, w')" "stored t w" "t_migration_phase t = Some ''snapshot''"
  shows "\<exists>t'. mig_change c t w w' t' \<and> row_is t t' w w'"
proof (cases "opt_str (t_migration_snap_cmd t) = []")
  case True
  with assms(1) have "rollback_migration c t ''snapshot phase but no migration_snap_cmd'' w = (r, w')"
    by (simp add: advance_snapshot_def)
  from rollback_settles [OF this assms(2)] show ?thesis by (rule settles_change)
next
  case False
  obtain p w1 where p: "poll (opt_str (t_migration_snap_cmd t)) (opt_str (t_migration_source t)) w = (p, w1)" by fastforce
  from poll_Inr [OF p] obtain d k where q: "p = Inr (d, k)" and t1: "w_tenants w1 = w_tenants w"
    and ev: "d \<and> k \<longrightarrow> (\<exists>out err. decided_by (Reply ''Success'' out err) w w1)" by auto
  note st1 = stored_same [OF assms(2) t1]
  have undone: ?thesis if "rollback_migration c t reason w1 = (r, w')" for reason
    using settles_change [OF settles_from [OF rollback_settles [OF that st1] t1]] .
  show ?thesis
  proof (cases "d \<and> k")
    case no: False
    with assms(1) False p q have "\<not> d \<and> w' = w1 \<or> rollback_migration c t ''snapshot command failed on source host'' w1 = (r, w')"
      by (auto simp: advance_snapshot_def Let_def io_simps split: if_splits)
    with undone settles_change [OF settles_same [OF assms(2)]] t1 show ?thesis by blast
  next
    case True
    then obtain out err where dec: "decided_by (Reply ''Success'' out err) w w1" using ev by blast
    obtain x w2 where x: "hc_send (opt_str (t_migration_target t)) (restore_command t) 600 w1 = (Inr x, w2)"
      using hc_send_total by blast
    note same = hc_send_same [OF x]
    show ?thesis
    proof (cases x)
      case None
      with assms(1) False p q True x have b: "rollback_migration c t ''failed to submit restore SSM command'' w2 = (r, w')"
        by (auto simp: advance_snapshot_def Let_def io_simps)
      have t2: "w_tenants w2 = w_tenants w" using same(1) t1 by simp
      show ?thesis
        using settles_change [OF settles_from [OF rollback_settles [OF b stored_same [OF assms(2) t2]] t2]] .
    next
      case (Some rc)
      obtain u w3 where u: "update_tenant (t_id t) no_cond (set_attrs (restore_row rc (w_now w2))) w2 = (u, w3)" by fastforce
      have w': "w' = w3" using assms(1) False p q True x Some u
        by (cases u) (simp_all add: advance_snapshot_def Let_def io_simps now_quiet)
      have t2: "w_tenants w2 = w_tenants w" using same(1) t1 by simp
      show ?thesis
      proof (cases u)
        case (Inl e)
        with update_tenant_Inl [OF u [unfolded Inl]] t2 w' have "w_tenants w' = w_tenants w" by simp
        then show ?thesis using settles_change [OF settles_same [OF assms(2)]] by blast
      next
        case (Inr row)
        have "row_is t (restore_row rc (w_now w2) t) w w'"
          using row_is_from [OF set_row_is [OF u [unfolded Inr] stored_same [OF assms(2) t2]] t2] w' by simp
        moreover have "decided_by (Reply ''Success'' out err) w w'"
          using decided_by_replies [OF dec, of w' w] update_same(1) [OF u] same(2) w' by simp
        ultimately show ?thesis using restoring [OF assms(3)] by blast
      qed
    qed
  qed
qed


lemma switch_route_cases:
  assumes "switch_route c t ip w = (r, w')" "stored t w"
  obtains (routed) "r = Inr True" "w_tenants w' = w_tenants w" "w_replies w' = w_replies w" "w_http w' = w_http w"
  | (gave_up) "r \<noteq> Inr True" "settles t w w'"
proof -
  let ?tgt = "opt_str (t_migration_target t)"
  have same: "w_replies w' = w_replies w" "w_http w' = w_http w"
    by (rule tables_of [of _ "switch_route c t ip", OF _ assms(1)], unfold switch_route_def Let_def, intro keeps_rules)+
  have retry: "settles t w w' \<and> r \<noteq> Inr True"
    if "w_tenants v = w_tenants w" "andThen (rollback_migration c t reason) (\<lambda>_. ok False) v = (r, w')" for reason v
    using that(2)
  proof (cases rule: andThen_cases)
    case (raised e)
    from settles_from [OF rollback_settles [OF raised(1) stored_same [OF assms(2) that(1)]] that(1)] raised(2)
    show ?thesis by simp
  next
    case (passed x u)
    from settles_from [OF rollback_settles [OF passed(1) stored_same [OF assms(2) that(1)]] that(1)] passed(2)
    show ?thesis by (auto simp: ok_apply)
  qed
  show thesis
  proof (cases "host_tg_mode c")
    case True
    have "keeps (unchanged w_tenants) (switch_route c t ip)"
      unfolding switch_route_def Let_def using True by (simp, intro keeps_rules)
    then have "w_tenants w' = w_tenants w" using assms(1) by (rule tables_of)
    moreover have "r = Inr True" using assms(1) True by (simp add: switch_route_def Let_def io_simps)
    ultimately show thesis using routed same by blast
  next
    case ptr: False
    show thesis
    proof (cases "ip = []")
      case True
      let ?m = "andThen (rollback_migration c t ''target host has no private_ip'') (\<lambda>_. ok False)"
      obtain x v where x: "rollback_migration c t ''target host has no private_ip'' w = (x, v)" by fastforce
      show thesis
      proof (cases x)
        case (Inl e)
        from rollback_row [OF x] Inl have "w_tenants v = w_tenants w" by simp
        moreover have "andThen (rollback_migration c t (''ALB repoint failed: '' @ exn_str e)) (\<lambda>_. ok False) v = (r, w')"
          using assms(1) ptr True x Inl by (simp add: switch_route_def io_simps)
        ultimately show thesis using retry gave_up by blast
      next
        case (Inr u)
        with assms(1) ptr True x have "r = Inr False" "w' = v" by (simp_all add: switch_route_def io_simps)
        with rollback_settles [OF x assms(2)] gave_up show thesis by simp
      qed
    next
      case False
      obtain x v where x: "repoint_alb_rule c (t_id t) ?tgt ip w = (x, v)" by fastforce
      have v: "w_tenants v = w_tenants w"
        by (rule tables_of [of _ "repoint_alb_rule c (t_id t) ?tgt ip", OF _ x], rule keeps_rules)
      show thesis
      proof (cases x)
        case (Inl e)
        have "andThen (rollback_migration c t (''ALB repoint failed: '' @ exn_str e)) (\<lambda>_. ok False) v = (r, w')"
          using assms(1) ptr False x Inl by (simp add: switch_route_def io_simps)
        with v retry gave_up show thesis by blast
      next
        case (Inr u)
        with assms(1) ptr False x have "r = Inr True" "w' = v" by (simp_all add: switch_route_def io_simps)
        with v same routed show thesis by simp
      qed
    qed
  qed
qed

lemma complete_tenants:
  assumes "complete_migration c t w = (r, w')" "update_tenant (t_id t) no_cond (set_attrs
      (moved_row (opt_str (t_migration_target t)) (int_attr_or (t_migration_target_vm_num t) 1) (w_now w))) w = (Inr row, w1)"
  shows "w_tenants w' = w_tenants w1"
proof -
  let ?src = "opt_str (t_migration_source t)" and ?tgt = "opt_str (t_migration_target t)"
  let ?tail = "andThen (whenever (?src \<noteq> []) (best_effort (andThen (update_host
      ?src no_cond (set_attrs (unbooked (int_attr (t_vcpu t)) (int_attr (t_mem_mb t))))) (\<lambda>_. ok ())))) (\<lambda>_.
    andThen (bump_target_counters ?tgt (int_attr_or (t_migration_target_vm_num t) 1) (int_attr (t_vcpu t)) (int_attr (t_mem_mb t))) (\<lambda>_.
    andThen (whenever (?src \<noteq> []) (best_effort (andThen (hc_send ?src (clean_source_command t) 60) (\<lambda>_. ok ())))) (\<lambda>_.
    emit_audit c ''MIGRATION_COMPLETED'' [(''tenant_id'', JStr (t_id t)),
      (''source_host_id'', JStr ?src), (''target_host_id'', JStr ?tgt)])))"
  have "keeps (unchanged w_tenants) ?tail" by (intro keeps_rules)
  moreover have "?tail w1 = (r, w')"
    using assms by (simp add: complete_migration_def io_simps now_quiet Let_def del: best_effort_apply)
  ultimately show ?thesis by (rule tables_of)
qed

lemma complete_change:
  assumes "complete_migration c t w = (r, w')" "stored t w"
  shows "w_replies w' = w_replies w \<and> w_http w' = w_http w \<and> (settles t w w' \<or>
    (\<exists>n. row_is t (moved_row (opt_str (t_migration_target t)) (int_attr_or (t_migration_target_vm_num t) 1) n t) w w'))"
proof -
  let ?tgt = "opt_str (t_migration_target t)" and ?tvn = "int_attr_or (t_migration_target_vm_num t) 1"
  have same: "w_replies w' = w_replies w" "w_http w' = w_http w"
    by (rule tables_of [of _ "complete_migration c t", OF _ assms(1)], unfold complete_migration_def Let_def, intro keeps_rules)+
  obtain u w1 where u: "update_tenant (t_id t) no_cond (set_attrs (moved_row ?tgt ?tvn (w_now w))) w = (u, w1)" by fastforce
  show ?thesis
  proof (cases u)
    case (Inl e)
    with assms(1) u have "w' = w1" by (simp add: complete_migration_def io_simps now_quiet Let_def)
    with update_tenant_Inl [OF u [unfolded Inl]] settles_same [OF assms(2)] same show ?thesis by simp
  next
    case (Inr row)
    have "w_tenants w' = w_tenants w1" using complete_tenants [OF assms(1)] u Inr by simp

    with set_row_is [OF u [unfolded Inr] assms(2)] same show ?thesis unfolding row_is_def by auto
  qed
qed


lemma restore_change:
  assumes "advance_restore c t w = (r, w')" "stored t w" "t_migration_phase t = Some ''restore''"
  shows "\<exists>t'. mig_change c t w w' t' \<and> row_is t t' w w'"
proof (cases "opt_str (t_migration_restore_cmd t) = []")
  case True
  with assms(1) have "rollback_migration c t ''restore phase but no migration_restore_cmd'' w = (r, w')"
    by (simp add: advance_restore_def)
  from rollback_settles [OF this assms(2)] show ?thesis by (rule settles_change)
next
  case False
  let ?cmd = "opt_str (t_migration_restore_cmd t)" and ?tgt = "opt_str (t_migration_target t)"
  obtain p w1 where p: "poll ?cmd ?tgt w = (p, w1)" by fastforce
  from poll_Inr [OF p] obtain d k where q: "p = Inr (d, k)" and t1: "w_tenants w1 = w_tenants w" "w_http w1 = w_http w"
    and ev: "d \<and> k \<longrightarrow> (\<exists>out err. decided_by (Reply ''Success'' out err) w w1)" by auto
  have undone: ?thesis if "rollback_migration c t reason v = (r, w')" "w_tenants v = w_tenants w" for reason v
    using settles_change [OF settles_from [OF rollback_settles [OF that(1) stored_same [OF assms(2) that(2)]] that(2)]] .
  have same: ?thesis if "w_tenants w' = w_tenants w"
    using settles_change [OF settles_same [OF assms(2) that]] .
  show ?thesis
  proof (cases "d \<and> k")
    case no: False
    with assms(1) False p q have "\<not> d \<and> w' = w1 \<or> rollback_migration c t ''restore command failed on target host'' w1 = (r, w')"
      by (auto simp: advance_restore_def Let_def io_simps split: if_splits)
    with undone same t1 show ?thesis by blast
  next
    case True
    then obtain out err where dec: "decided_by (Reply ''Success'' out err) w w1" using ev by blast
    obtain h w2 where h: "get_host_row ?tgt w1 = (h, w2)" by fastforce
    have h2: "w_tenants w2 = w_tenants w1" "w_replies w2 = w_replies w1" "w_http w2 = w_http w1"
      by (rule tables_of [of _ "get_host_row ?tgt", OF _ h], rule keeps_rules)+
    show ?thesis
    proof (cases h)
      case (Inl e)
      with assms(1) False p q True h have "w' = w2" by (simp add: advance_restore_def Let_def io_simps)
      with same h2 t1 show ?thesis by simp
    next
      case (Inr row)
      let ?ip = "case row of None \<Rightarrow> '''' | Some x \<Rightarrow> opt_str (h_private_ip x)"
      obtain b w3 where b: "switch_route c t ?ip w2 = (b, w3)" by fastforce
      have st2: "stored t w2" "w_tenants w2 = w_tenants w" using stored_same assms(2) h2 t1 by simp_all
      from b st2(1) show ?thesis
      proof (cases rule: switch_route_cases)
        case gave_up
        with assms(1) False p q True h Inr b have "w' = w3"
          by (cases b) (auto simp: advance_restore_def Let_def io_simps)
        with settles_change [OF settles_from [OF gave_up(2) st2(2)]] show ?thesis by blast
      next
        case routed
        obtain g w4 where g: "public_gate c (t_id t) w3 = (g, w4)" by fastforce
        have g4: "w_tenants w4 = w_tenants w3" "w_replies w4 = w_replies w3"
          by (rule tables_of [of _ "public_gate c (t_id t)", OF _ g], unfold public_gate_def, intro keeps_rules)+
        obtain reach where reach: "g = Inr reach"
          using g gates_Inr(1) [of c "t_id t" "public_base_url c" "verify_seconds c" w3]
          by (auto simp: public_gate_def ok_def split: if_splits)
        have t4: "w_tenants w4 = w_tenants w" using g4 routed st2 by simp
        show ?thesis
        proof (cases reach)
          case no: False
          with assms(1) False p q True h Inr b routed g reach
          have "rollback_migration c t ''dashboard not reachable via ALB after restore'' w4 = (r, w')"
            by (simp add: advance_restore_def Let_def io_simps)
          with undone t4 show ?thesis by blast
        next
          case yes: True
          with assms(1) False p q True h Inr b routed g reach have m: "complete_migration c t w4 = (r, w')"
            by (simp add: advance_restore_def Let_def io_simps)
          note c4 = complete_change [OF m stored_same [OF assms(2) t4]]
          have "decided_by (Reply ''Success'' out err) w w'"
            using decided_by_replies [OF dec, of w' w] c4 g4 routed h2 by simp
          moreover have "public_base_url c \<noteq> [] \<longrightarrow> dashboard_proven c w w'"
          proof
            assume "public_base_url c \<noteq> []"
            then have "dashboard_proven c w3 w4"
              using g reach yes verify_dashboard_True by (simp add: public_gate_def)
            then show "dashboard_proven c w w'"
              using c4 routed h2 t1 by (simp add: dashboard_proven_def answered_def)
          qed
          ultimately show ?thesis
            using c4 settles_change settles_from [OF _ t4] row_is_from [OF _ t4 refl] moved [OF assms(3)] by blast
        qed
      qed
    qed
  qed
qed

lemma advance_change:
  assumes "advance_migration c n t w = (r, w')" "stored t w"
  shows "\<exists>t'. mig_change c t w w' t' \<and> row_is t t' w w'"
proof (cases "opt_str (t_migration_phase t) = []")
  case True
  with assms(1) have "w' = w" by (simp add: advance_migration_def ok_def)
  with settles_change [OF settles_same [OF assms(2) refl]] show ?thesis by simp
next
  case False
  obtain b w1 where b: "migration_watchdog c n t w = (b, w1)" by fastforce
  from b assms(2) show ?thesis
  proof (cases rule: watchdog_cases)
    case fired
    with assms(1) False b have "w' = w1" by (simp add: advance_migration_def Let_def io_simps)
    with settles_change [OF fired(2)] show ?thesis by simp
  next
    case quiet
    note st1 = stored_same [OF assms(2) quiet(2)]
    have lift: ?thesis if "\<exists>t'. mig_change c t w1 w' t' \<and> row_is t t' w1 w'"
    proof -
      from that obtain t' where t': "mig_change c t w1 w' t'" "row_is t t' w1 w'" by blast
      have "decided_by q w1 w' \<Longrightarrow> decided_by q w w'" "dashboard_proven c w1 w' \<Longrightarrow> dashboard_proven c w w'" for q
        using decided_by_replies [OF _ refl quiet(3) [symmetric]] quiet(4) by (simp_all add: dashboard_proven_def answered_def)
      with t'(1) have "mig_change c t w w' t'" by cases (blast intro: mig_change.intros)+
      with row_is_from [OF t'(2) quiet(2) refl] show ?thesis by blast
    qed
    consider (snap) "t_migration_phase t = Some ''snapshot''" | (rest) "t_migration_phase t = Some ''restore''"
      | (other) "t_migration_phase t \<notin> {Some ''snapshot'', Some ''restore''}" by blast
    then show ?thesis
    proof cases
      case snap
      with assms(1) b quiet(1) have "advance_snapshot c t w1 = (r, w')"
        by (simp add: advance_migration_def Let_def io_simps opt_str_def)
      from lift [OF snapshot_change [OF this st1 snap]] show ?thesis .
    next
      case rest
      with assms(1) b quiet(1) have "advance_restore c t w1 = (r, w')"
        by (simp add: advance_migration_def Let_def io_simps opt_str_def)
      from lift [OF restore_change [OF this st1 rest]] show ?thesis .
    next
      case other
      with assms(1) b quiet(1) False obtain reason where "rollback_migration c t reason w1 = (r, w')"
        by (auto simp: advance_migration_def Let_def io_simps opt_str_def split: option.splits)
      from settles_change [OF settles_from [OF rollback_settles [OF this st1] quiet(2)]] show ?thesis .
    qed
  qed
qed

lemma sweep_one_change:
  assumes "sweep_one c n t w = (r, w')" "stored t w"
  shows "\<exists>t'. (t' = t \<or> in_migration t \<and> mig_change c t w w' t') \<and> row_is t t' w w'"
proof (cases "t_status t \<noteq> Some ''migrating'' \<or> opt_str (t_migration_phase t) = []")
  case True
  with assms(1) have "w' = w" by (simp add: sweep_one_def ok_def)
  with same_row [OF assms(2)] show ?thesis by blast
next
  case False
  then have "advance_migration c n t w = (fst (advance_migration c n t w), w')"
    using assms(1) by (auto simp: sweep_one_def best_effort_apply)
  from advance_change [OF this assms(2)] False show ?thesis by (auto simp: in_migration_def)
qed

text \<open>Every change of a migrating row is a step of the abstract machine.\<close>

lemma row_shapes:
  "migration_of (rolled_back_row reason n t) = Settled (place_of_row t)"
  "migration_of (moved_row h v n t) = Settled (Some h, Some v)"
  "t_status t = Some ''migrating'' \<Longrightarrow> migration_of (restore_row rc n t) = Moving Restoring (place_of_row t) (target_of_row t)"
  "migration_of (cancelled_row n t) = Settled (place_of_row t)"
  by (simp_all add: migration_of_def rolled_back_row_def moved_row_def restore_row_def cancelled_row_def
      clear_migration_def place_of_row_def target_of_row_def)

lemma mig_change_step:
  assumes "mig_change c t w w' t'" "in_migration t"
  shows "mig_step Ticked (migration_of t) (migration_of t')"
  using assms(1)
proof cases
  case (rolled reason n)
  then show ?thesis unfolding rolled(1) row_shapes
    by (auto simp: migration_of_def intro: mig_step.intros)
next
  case (restoring out err rc n)
  with assms(2) have "migration_of t = Moving Snapshotting (place_of_row t) (target_of_row t)"
    "migration_of t' = Moving Restoring (place_of_row t) (target_of_row t)"
    by (simp_all add: row_shapes in_migration_def) (simp add: migration_of_def)
  then show ?thesis by (simp add: snapshot_done)
next
  case (moved out err n)
  with assms(2) have "migration_of t = Moving Restoring (place_of_row t) (target_of_row t)"
    "migration_of t' = Settled (target_of_row t)"
    by (simp_all add: row_shapes in_migration_def target_of_row_def) (simp add: migration_of_def target_of_row_def)
  then show ?thesis by (simp add: commit)
qed (simp add: idle)


text \<open>The two requests of an operator, on the tenant's row.\<close>

lemma finish_state: "finish m w = (r, w') \<Longrightarrow> \<exists>x. m w = (x, w')"
  by (cases "m w") (auto simp: finish_def andThen_def ok_def split: sum.splits)

lemma migrate_request_row:
  assumes "tenant_action c tid ''migrate'' bd w = (r, w')" "map_of (w_tenants w) tid = Some t"
  shows "\<exists>t'. (t' = t \<or> starts_migration c tid t t') \<and> map_of (w_tenants w') = (map_of (w_tenants w))(tid \<mapsto> t')"
  using assms(1)
proof (cases rule: tenant_action_cases)
  case (taken item w1)
  then have i: "item = t" using assms(2) by simp
  from taken(5) obtain x where "migrate_tenant c tid t bd w1 = (x, w')" using finish_state i by fastforce
  from migrate_cases [OF this] taken(2) assms(2) show ?thesis
    by (auto simp: update_conv' fun_upd_idem)
qed (use assms(2) in \<open>auto simp: fun_upd_idem\<close>)

lemma cancel_request_row:
  assumes "tenant_action c tid ''cancel-migration'' bd w = (r, w')" "map_of (w_tenants w) tid = Some t"
  shows "\<exists>t'. (t' = t \<or> in_migration t \<and> (\<exists>n. t' = cancelled_row n t)) \<and> map_of (w_tenants w') = (map_of (w_tenants w))(tid \<mapsto> t')"
  using assms(1)
proof (cases rule: tenant_action_cases)
  case (taken item w1)
  then have i: "item = t" using assms(2) by simp
  from taken(5) obtain x where x: "cancel_migration c tid t w1 = (x, w')" using finish_state i by fastforce
  show ?thesis
  proof (cases "t_status t = Some ''migrating''")
    case False
    with x have "w_tenants w' = w_tenants w1" by (auto simp: cancel_migration_def io_simps)
    with taken(2) assms(2) show ?thesis by (auto simp: fun_upd_idem)
  next
    case True
    obtain u w2 where u: "update_tenant tid no_cond (set_attrs (cancelled_row (w_now w1))) w1 = (u, w2)" by fastforce
    have "w_tenants w' = w_tenants w2"
    proof (cases u)
      case (Inr row)
      obtain z w3 where z: "publish_event c ''migration.cancelled'' tid (JObj []) w2 = (z, w3)" by fastforce
      have "w_tenants w3 = w_tenants w2"
        by (rule tables_of [of _ "publish_event c ''migration.cancelled'' tid (JObj [])", OF _ z], rule keeps_rules)
      moreover have "w' = w3" using x True u Inr z by (cases z) (auto simp: cancel_migration_def io_simps now_quiet)
      ultimately show ?thesis by simp
    qed (use x True u in \<open>auto simp: cancel_migration_def io_simps now_quiet\<close>)
    moreover have "\<exists>t'. (t' = t \<or> t' = cancelled_row (w_now w1) t) \<and> map_of (w_tenants w2) = (map_of (w_tenants w))(tid \<mapsto> t')"
    proof (cases u)
      case (Inl e)
      with update_tenant_Inl [OF u [unfolded Inl]] taken(2) assms(2) show ?thesis by (auto simp: fun_upd_idem)
    next
      case (Inr row)
      have "tenant_or_fresh w1 tid = t" using taken(2) assms(2) by (simp add: tenant_or_fresh_def)
      with set_tenant_Inr [OF u [unfolded Inr]] taken(2) show ?thesis by (auto simp: update_conv')
    qed
    ultimately show ?thesis using True by (auto simp: in_migration_def)
  qed
qed (use assms(2) in \<open>auto simp: fun_upd_idem\<close>)

lemma place_of_migration [simp]: "place_of (migration_of t) = place_of_row t"
  by (simp add: migration_of_def)

lemma request_steps:
  "starts_migration c tid t t' \<Longrightarrow> mig_step Asked (migration_of t) (migration_of t')"
  "mig_step Cancelled (migration_of t) (migration_of (cancelled_row n t))"
proof -
  show "mig_step Cancelled (migration_of t) (migration_of (cancelled_row n t))"
    unfolding row_shapes by (auto simp: migration_of_def intro: mig_step.intros)
  assume "starts_migration c tid t t'"
  then have "migration_of t' = Moving Snapshotting (place_of_row t) (target_of_row t')"
    by (auto simp: starts_migration_def migration_of_def migrating_row_def place_of_row_def)
  then show "mig_step Asked (migration_of t) (migration_of t')"
    by (auto simp: migration_of_def [of t] intro: mig_step.intros)
qed


section \<open>Runs\<close>

text \<open>
  What can happen to a migrating tenant, in any order: requests for a migration, cancellations,
  and ticks of the sweep, which read the row first.
\<close>

datatype mig_op = Request payload | Cancel payload | Tick int

fun mig_run_one :: "cfg \<Rightarrow> string \<Rightarrow> mig_op \<Rightarrow> world \<Rightarrow> world" where
  "mig_run_one c tid (Request bd) w = snd (tenant_action c tid ''migrate'' bd w)"
| "mig_run_one c tid (Cancel bd) w = snd (tenant_action c tid ''cancel-migration'' bd w)"
| "mig_run_one c tid (Tick n) w = (case map_of (w_tenants w) tid of None \<Rightarrow> w | Some t \<Rightarrow> snd (sweep_one c n t w))"

definition mig_run :: "cfg \<Rightarrow> string \<Rightarrow> mig_op list \<Rightarrow> world \<Rightarrow> world" where
  "mig_run c tid ops w = fold (mig_run_one c tid) ops w"

fun label_of :: "mig_op \<Rightarrow> mlabel" where
  "label_of (Request bd) = Asked"
| "label_of (Cancel bd) = Cancelled"
| "label_of (Tick n) = Ticked"

definition row_moves :: "string \<Rightarrow> world \<Rightarrow> world \<Rightarrow> (mstate \<Rightarrow> mstate \<Rightarrow> bool) \<Rightarrow> tenant \<Rightarrow> bool" where
  "row_moves tid w w' S t = (\<exists>t'. map_of (w_tenants w') = (map_of (w_tenants w))(tid \<mapsto> t') \<and> t_id t' = t_id t \<and>
     S (migration_of t) (migration_of t'))"

lemma shapes_id [simp]:
  "t_id (rolled_back_row reason n t) = t_id t" "t_id (restore_row rc n t) = t_id t"
  "t_id (moved_row h v n t) = t_id t" "t_id (cancelled_row n t) = t_id t"
  "starts_migration c tid t t' \<Longrightarrow> t_id t' = t_id t"
  by (auto simp: rolled_back_row_def restore_row_def moved_row_def cancelled_row_def clear_migration_def
      starts_migration_def migrating_row_def)

lemma mig_change_id: "mig_change c t w w' t' \<Longrightarrow> t_id t' = t_id t"
  by (induction rule: mig_change.induct) simp_all

lemma mig_run_one_steps:
  assumes "map_of (w_tenants w) tid = Some t" "t_id t = tid"
  shows "row_moves tid w (mig_run_one c tid op w) (mig_step (label_of op)) t"
proof (cases op)
  case (Request bd)
  obtain r w' where r: "tenant_action c tid ''migrate'' bd w = (r, w')" by fastforce
  from migrate_request_row [OF r assms(1)] obtain t' where t': "t' = t \<or> starts_migration c tid t t'"
    "map_of (w_tenants w') = (map_of (w_tenants w))(tid \<mapsto> t')" by blast
  then have "mig_step Asked (migration_of t) (migration_of t')" "t_id t' = t_id t"
    using request_steps(1) by (auto intro: idle)
  with t'(2) r Request show ?thesis unfolding row_moves_def by auto
next
  case (Cancel bd)
  obtain r w' where r: "tenant_action c tid ''cancel-migration'' bd w = (r, w')" by fastforce
  from cancel_request_row [OF r assms(1)] obtain t' where t': "t' = t \<or> (\<exists>n. t' = cancelled_row n t)"
    "map_of (w_tenants w') = (map_of (w_tenants w))(tid \<mapsto> t')" by blast
  then have "mig_step Cancelled (migration_of t) (migration_of t')" "t_id t' = t_id t"
    using request_steps(2) by (auto intro: idle)
  with t'(2) r Cancel show ?thesis unfolding row_moves_def by auto
next
  case (Tick n)
  obtain r w' where r: "sweep_one c n t w = (r, w')" by fastforce
  have "stored t w" using assms by (simp add: stored_def)
  from sweep_one_change [OF r this] obtain t' where t': "t' = t \<or> in_migration t \<and> mig_change c t w w' t'" "row_is t t' w w'"
    by blast
  then have "mig_step Ticked (migration_of t) (migration_of t')" "t_id t' = t_id t"
    using mig_change_step mig_change_id idle by blast+
  with t'(2) assms r Tick show ?thesis unfolding row_moves_def row_is_def by auto
qed

lemma mig_run_steps:
  assumes "map_of (w_tenants w) tid = Some t" "t_id t = tid"
  shows "row_moves tid w (mig_run c tid ops w) (mig_path (map label_of ops)) t"
  using assms
proof (induction ops arbitrary: w t)
  case Nil
  then show ?case unfolding mig_run_def row_moves_def by (intro exI [of _ t]) (auto simp: fun_upd_idem intro: finished)
next
  case (Cons op ops)
  from mig_run_one_steps [OF Cons.prems] obtain t' where
    t': "map_of (w_tenants (mig_run_one c tid op w)) = (map_of (w_tenants w))(tid \<mapsto> t')" "t_id t' = tid"
      "mig_step (label_of op) (migration_of t) (migration_of t')"
    using Cons.prems(2) unfolding row_moves_def by metis
  have "row_moves tid (mig_run_one c tid op w) (mig_run c tid ops (mig_run_one c tid op w)) (mig_path (map label_of ops)) t'"
    using Cons.IH t' by simp
  with t' Cons.prems(2) show ?case
    unfolding row_moves_def mig_run_def by (auto intro: stepped)
qed


section \<open>The watchdog's sweep\<close>

lemma keeps_sweep_one [keeps_rules]: "keeps (inv_rel quiet) (sweep_one c n t)"
  unfolding sweep_one_def advance_migration_def migration_watchdog_def advance_snapshot_def advance_restore_def
    switch_route_def public_gate_def complete_migration_def Let_def
  by (auto intro!: keeps_rules split: option.split stamp.split)

lemma rollback_quiet:
  assumes "quiet w" "stored t w"
  shows "\<exists>w1 m. rollback_migration c t reason w = (Inr (), w1) \<and> row_is t (rolled_back_row reason m t) w w1"
proof -
  obtain w1 where s1: "relaunch_source t w = (Inr (), w1)" "w_tenants w1 = w_tenants w" using relaunch_total by blast
  have "keeps (inv_rel quiet) (relaunch_source t)" unfolding relaunch_source_def Let_def by (intro keeps_rules)
  with s1(1) assms(1) have q1: "quiet w1" using keepsD by (fastforce simp: inv_rel_def)
  obtain row w2 where s2: "update_tenant (t_id t) no_cond (set_attrs (rolled_back_row reason (w_now w1))) w1 = (Inr row, w2)"
    using set_tenant_quiet [OF q1] by blast
  obtain r w3 where r: "rollback_migration c t reason w = (r, w3)" by fastforce
  let ?d = "[(''tenant_id'', JStr (t_id t)), (''reason'', JStr (take 200 reason)), (''mode'', JStr (mode_of t))]"
  obtain w4 where "emit_audit c ''MIGRATION_FAILED'' ?d w2 = (Inr (), w4)" using emit_audit_total by blast
  with r s1(1) s2 have "r = Inr ()" by (simp add: rollback_migration_def io_simps now_quiet)
  moreover have "tenant_or_fresh w (t_id t) = t" using assms(2) by (simp add: stored_def)
  ultimately show ?thesis using rollback_row [OF r] r by (auto simp: row_is_def update_conv')
qed

definition overdue :: "cfg \<Rightarrow> int \<Rightarrow> tenant \<Rightarrow> bool" where
  "overdue c n t = (in_migration t \<and> opt_str (t_migration_phase t) \<noteq> [] \<and>
     (\<exists>started. t_migration_started_at t = Some (At started) \<and> n - started > seconds (60 * migration_watchdog_minutes c)))"

definition swept :: "cfg \<Rightarrow> int \<Rightarrow> tenant \<Rightarrow> tenant \<Rightarrow> bool" where
  "swept c n t t' = (overdue c n t \<longrightarrow> (\<exists>reason m. t' = rolled_back_row reason m t))"

lemma sweep_overdue_quiet:
  assumes "quiet w" "stored t w" "overdue c n t"
  shows "\<exists>w1 reason m. sweep_one c n t w = (Inr (), w1) \<and> row_is t (rolled_back_row reason m t) w w1"
proof -
  from assms(3) obtain reason where m: "migration_watchdog c n t =
      try_except (andThen (rollback_migration c t reason) (\<lambda>_. ok True)) (\<lambda>_. ok False)"
    by (auto simp: migration_watchdog_def overdue_def)
  obtain w1 k where w1: "rollback_migration c t reason w = (Inr (), w1)" "row_is t (rolled_back_row reason k t) w w1"
    using rollback_quiet [OF assms(1,2)] by blast
  then have "migration_watchdog c n t w = (Inr True, w1)" by (simp add: m io_simps)
  with assms(3) have "sweep_one c n t w = (Inr (), w1)"
    by (auto simp: sweep_one_def advance_migration_def io_simps overdue_def in_migration_def Let_def)
  with w1(2) show ?thesis by blast
qed

interpretation migrations: row_sweep "inv_rel quiet" "sweep_one c n" "swept c n" for c n
proof unfold_locales
  fix w t
  assume w: "quiet w" "map_of (w_tenants w) (t_id t) = Some t"
  then have st: "stored t w" by (simp add: stored_def)
  obtain r w1 where r: "sweep_one c n t w = (r, w1)" by fastforce
  have "quiet w1" using keepsD [OF keeps_sweep_one r] w(1) by (simp add: inv_rel_def)
  moreover have "r = Inr ()" using r by (auto simp: sweep_one_def ok_def best_effort_apply split: if_splits)
  moreover have "\<exists>t'. swept c n t t' \<and> row_is t t' w w1"
  proof (cases "overdue c n t")
    case True
    with sweep_overdue_quiet [OF w(1) st True] r show ?thesis by (auto simp: swept_def)
  next
    case False
    with sweep_one_change [OF r st] show ?thesis by (auto simp: swept_def)
  qed
  ultimately show "\<exists>w1 t'. sweep_one c n t w = (Inr (), w1) \<and> quiet w1 \<and> inv_rel quiet w w1 \<and> swept c n t t' \<and>
      map_of (w_tenants w1) = (map_of (w_tenants w))(t_id t \<mapsto> t')"
    using r by (auto simp: inv_rel_def row_is_def)
qed

lemma sweep_migrations_rows:
  assumes "quiet w" "keyed (w_tenants w)"
  shows "\<exists>w1. sweep_migrations c n w = (Inr (), w1) \<and>
    (\<forall>k t. map_of (w_tenants w) k = Some t \<and> overdue c n t \<longrightarrow>
       (\<exists>reason m. map_of (w_tenants w1) k = Some (rolled_back_row reason m t))) \<and>
    (\<forall>k t. map_of (w_tenants w) k = Some t \<and> \<not> in_migration t \<longrightarrow> map_of (w_tenants w1) k = Some t)"
proof -
  from migrations.sweep [OF assms, of in_migration c n] obtain w1 where
    s: "scan_all w_tenants in_migration w = (Inr (filter in_migration (map snd (w_tenants w))), w)"
      "for_each (filter in_migration (map snd (w_tenants w))) (sweep_one c n) w = (Inr (), w1)"
      "\<forall>k t. map_of (w_tenants w) k = Some t \<longrightarrow>
         (\<exists>t'. map_of (w_tenants w1) k = Some t' \<and> (if in_migration t then swept c n t t' else t' = t))"
    by blast
  have "sweep_migrations c n w = (Inr (), w1)"
    using s(1,2) by (simp add: sweep_migrations_def best_effort_apply andThen_apply)
  moreover have "\<exists>reason m. map_of (w_tenants w1) k = Some (rolled_back_row reason m t)"
    if "map_of (w_tenants w) k = Some t" "overdue c n t" for k t
    using s(3) that by (fastforce simp: swept_def overdue_def)
  moreover have "map_of (w_tenants w1) k = Some t" if "map_of (w_tenants w) k = Some t" "\<not> in_migration t" for k t
    using s(3) that by fastforce
  ultimately show ?thesis by blast
qed

section \<open>A tick in a quiet world\<close>

lemma complete_quiet:
  assumes "quiet w" "stored t w" "complete_migration c t w = (r, w')"
  shows "\<exists>n. row_is t (moved_row (opt_str (t_migration_target t)) (int_attr_or (t_migration_target_vm_num t) 1) n t) w w'"
proof -
  obtain row w1 where u: "update_tenant (t_id t) no_cond (set_attrs
      (moved_row (opt_str (t_migration_target t)) (int_attr_or (t_migration_target_vm_num t) 1) (w_now w))) w = (Inr row, w1)"
    using set_tenant_quiet [OF assms(1)] by blast
  with complete_tenants [OF assms(3) u] set_row_is [OF u assms(2)] show ?thesis by (auto simp: row_is_def)
qed

lemma repoint_quiet:
  assumes "quiet w" "\<not> host_tg_mode c" "listener_arn c \<noteq> []"
    "find (\<lambda>g. tg_name g = ''oc-'' @ last8 i) (w_tgs w) = Some g" "find (path_rule_of tid) (w_rules w) = Some r"
  shows "\<exists>w'. repoint_alb_rule c tid i ip w = (Inr (), w') \<and> quiet w' \<and>
    w_rules w' = map (\<lambda>q. if r_arn q = r_arn r then q\<lparr>r_targets := [tg_ref g]\<rparr> else q) (w_rules w)"
proof -
  have tg: "hc_host_tg c i w = (Inr (tg_ref g), w)"
    using assms(1,4) by (simp add: hc_host_tg_def describe_target_group_def quiet_def io_simps Let_def)
  let ?w1 = "snd (register_target (tg_ref g) ip w)"
  have w1: "w_rules ?w1 = w_rules w" "w_oracle ?w1 = []"
    using assms(1) by (simp_all add: register_target_def quiet_def modify_def)
  have rule: "r \<in> set (w_rules w)" using assms(5) by (auto simp: find_Some_iff)
  have run: "repoint_alb_rule c tid i ip w = modify_rule (r_arn r) (tg_ref g) ?w1"
    using assms(2,3,5) tg w1 by (simp add: repoint_alb_rule_def io_simps describe_rules_def)
  show ?thesis
    unfolding run using w1 rule by (auto simp: modify_rule_def quiet_def)
qed


text \<open>
  A tenant whose restore has just succeeded, on a deployment with per-tenant rules, whose target
  is reachable: the tick repoints the rule and comes to the public gate.
\<close>

definition ready_to_move :: "cfg \<Rightarrow> int \<Rightarrow> tenant \<Rightarrow> host \<Rightarrow> target_group \<Rightarrow> alb_rule \<Rightarrow> world \<Rightarrow> bool" where
  "ready_to_move c n t h g r w = (quiet w \<and> stored t w \<and> in_migration t \<and> t_migration_phase t = Some ''restore'' \<and>
     opt_str (t_migration_restore_cmd t) \<noteq> [] \<and> \<not> overdue c n t \<and> \<not> host_tg_mode c \<and> listener_arn c \<noteq> [] \<and>
     (\<exists>out err rs. w_replies w = Reply ''Success'' out err # rs) \<and>
     map_of (w_hosts w) (opt_str (t_migration_target t)) = Some h \<and> opt_str (h_private_ip h) \<noteq> [] \<and>
     find (\<lambda>g. tg_name g = ''oc-'' @ last8 (opt_str (t_migration_target t))) (w_tgs w) = Some g \<and>
     find (path_rule_of (t_id t)) (w_rules w) = Some r)"

lemma tick_reaches_gate:
  assumes "ready_to_move c n t h g r w"
  shows "\<exists>w2. quiet w2 \<and> w_tenants w2 = w_tenants w \<and> w_http w2 = w_http w \<and>
    w_rules w2 = map (\<lambda>q. if r_arn q = r_arn r then q\<lparr>r_targets := [tg_ref g]\<rparr> else q) (w_rules w) \<and>
    sweep_one c n t w = best_effort (andThen (public_gate c (t_id t)) (\<lambda>reachable.
      if \<not> reachable then rollback_migration c t ''dashboard not reachable via ALB after restore''
      else complete_migration c t)) w2"
proof -
  let ?cmd = "opt_str (t_migration_restore_cmd t)" and ?tgt = "opt_str (t_migration_target t)"
  let ?ip = "opt_str (h_private_ip h)"
  from assms obtain out err rs where q: "quiet w" and replies: "w_replies w = Reply ''Success'' out err # rs"
    by (auto simp: ready_to_move_def)
  let ?w1 = "w\<lparr>w_replies := rs\<rparr>"
  have q1: "quiet ?w1" using q by (simp add: quiet_def)
  have poll: "poll ?cmd ?tgt w = (Inr (True, True), ?w1)"
    using reply_step [OF q replies] by (simp add: poll_def io_simps)
  have host: "get_host_row ?tgt ?w1 = (Inr (Some h), ?w1)"
    using get_host_quiet [OF q1] assms by (simp add: ready_to_move_def)
  obtain w2 where w2: "repoint_alb_rule c (t_id t) ?tgt ?ip ?w1 = (Inr (), w2)" "quiet w2"
      "w_rules w2 = map (\<lambda>q. if r_arn q = r_arn r then q\<lparr>r_targets := [tg_ref g]\<rparr> else q) (w_rules ?w1)"
    using repoint_quiet [OF q1, of c ?tgt g "t_id t" r ?ip] assms by (auto simp: ready_to_move_def)
  have same: "w_tenants w2 = w_tenants ?w1" "w_http w2 = w_http ?w1"
    by (rule tables_of [of _ "repoint_alb_rule c (t_id t) ?tgt ?ip", OF _ w2(1)], rule keeps_rules)+
  have watch: "migration_watchdog c n t w = (Inr False, w)"
    using assms by (auto simp: ready_to_move_def migration_watchdog_def overdue_def opt_str_def ok_def
        split: option.split stamp.split)
  have route: "switch_route c t ?ip ?w1 = (Inr True, w2)"
    using assms w2(1) by (simp add: switch_route_def Let_def io_simps ready_to_move_def)
  have "sweep_one c n t w = best_effort (andThen (public_gate c (t_id t)) (\<lambda>reachable.
      if \<not> reachable then rollback_migration c t ''dashboard not reachable via ALB after restore''
      else complete_migration c t)) w2"
    using assms watch poll host route
    by (simp add: sweep_one_def best_effort_apply advance_migration_def advance_restore_def andThen_apply
        ready_to_move_def in_migration_def opt_str_def Let_def)
  with w2 same show ?thesis by auto
qed

section \<open>Properties\<close>


definition moving_tenant :: tenant where
  "moving_tenant = placed_tenant\<lparr>t_status := Some ''migrating'', t_migration_phase := Some ''restore'',
     t_migration_restore_cmd := Some ''cmd-9'', t_migration_source := Some ''i-1'', t_migration_target := Some ''i-2'',
     t_migration_target_vm_num := Some 5, t_migration_started_at := Some (At 0)\<rparr>"

definition moving_host :: host where
  "moving_host = target_host\<lparr>h_private_ip := Some ''10.0.0.2''\<rparr>"

definition moving_tg :: target_group where
  "moving_tg = \<lparr>tg_name = ''oc-i-2'', tg_ref = ''tg-2'', tg_vpc = ''vpc'', tg_members = []\<rparr>"

definition moving_rule :: alb_rule where
  "moving_rule = \<lparr>r_arn = ''rule-1'', r_priority = Some 10,
     r_conditions = [\<lparr>ac_field = ''path-pattern'', ac_values = [''/vm/a-1'', ''/vm/a-1/*'']\<rparr>], r_targets = [''tg-1'']\<rparr>"

definition moving_world :: world where
  "moving_world = world0\<lparr>w_tenants := [(''a-1'', moving_tenant)], w_hosts := [(''i-2'', moving_host)],
     w_replies := [Reply ''Success'' '''' ''''], w_tgs := [moving_tg], w_rules := [moving_rule]\<rparr>"

lemma moving_world_facts:
  "quiet moving_world" "map_of (w_tenants moving_world) ''a-1'' = Some moving_tenant" "t_id moving_tenant = ''a-1''"
  by (simp_all add: moving_world_def moving_tenant_def placed_tenant_def fresh_tenant_def quiet_def)


text \<open>
  C9. A tenant is only ever moved on proof: when a tick changes the place recorded for a tenant,
  whatever failed in it, the tenant was in the restore phase, the new place is its migration
  target, the first decisive answer read in the tick was the success of the restore command, and,
  when a public address is configured, the dashboard gate was passed with its full streak.
\<close>

theorem tenant_moves_only_on_proof:
  assumes "sweep_one c n t w = (r, w')" "map_of (w_tenants w) (t_id t) = Some t"
    and "map_of (w_tenants w') (t_id t) = Some t'" "place_of_row t' \<noteq> place_of_row t"
  shows "t_migration_phase t = Some ''restore'' \<and> place_of_row t' = target_of_row t \<and>
    (\<exists>out err. decided_by (Reply ''Success'' out err) w w') \<and>
    (public_base_url c \<noteq> [] \<longrightarrow> dashboard_proven c w w')"
proof -
  have "stored t w" using assms(2) by (simp add: stored_def)
  from sweep_one_change [OF assms(1) this] assms(3,4) have "mig_change c t w w' t'"
    by (auto simp: row_is_def)
  then show ?thesis
    using assms(4)
    by cases (auto simp: place_of_row_def target_of_row_def rolled_back_row_def restore_row_def moved_row_def
        clear_migration_def)
qed


lemma moving_path: "path_rule_of ''a-1'' moving_rule"
  by code_simp

lemma moving_ready:
  "ready_to_move (cfg0\<lparr>public_base_url := b\<rparr>) 60000000 moving_tenant moving_host moving_tg moving_rule moving_world"
  by (simp add: ready_to_move_def stored_def moving_world_facts, simp add: moving_world_def moving_tenant_def
      moving_host_def moving_tg_def moving_path in_migration_def overdue_def seconds_def opt_str_def
      host_tg_mode_def last8_def target_host_def)

theorem tenant_moves_only_on_proof_witness:
  "\<exists>w' t'. map_of (w_tenants w') ''a-1'' = Some t' \<and> place_of_row t' = (Some ''i-2'', Some 5) \<and>
    (\<exists>out err. decided_by (Reply ''Success'' out err) moving_world w')"
proof -
  let ?c = "cfg0\<lparr>public_base_url := ''''\<rparr>"
  obtain w2 where w2: "quiet w2" "w_tenants w2 = w_tenants moving_world" "sweep_one ?c 60000000 moving_tenant moving_world =
      best_effort (complete_migration ?c moving_tenant) w2"
    using tick_reaches_gate [OF moving_ready [of "''''"]] by (auto simp: public_gate_def andThen_def ok_def best_effort_def)
  obtain r w' where r: "complete_migration ?c moving_tenant w2 = (r, w')" by fastforce
  have "stored moving_tenant w2" using w2(2) moving_world_facts by (simp add: stored_def)
  from complete_quiet [OF w2(1) this r] obtain n where
    row: "map_of (w_tenants w') ''a-1'' = Some (moved_row ''i-2'' 5 n moving_tenant)"
    using moving_world_facts(3) by (auto simp: row_is_def moving_tenant_def opt_str_def)
  have run: "sweep_one ?c 60000000 moving_tenant moving_world = (Inr (), w')" using w2(3) r by (simp add: io_simps)
  have place: "place_of_row (moved_row ''i-2'' 5 n moving_tenant) = (Some ''i-2'', Some 5)"
    "place_of_row moving_tenant \<noteq> (Some ''i-2'', Some 5)"
    by (simp_all add: place_of_row_def moved_row_def clear_migration_def moving_tenant_def placed_tenant_def)
  from tenant_moves_only_on_proof [OF run] row moving_world_facts(2,3) place show ?thesis by (metis place(1))
qed

text \<open>
  No migration is stuck for ever: when nothing fails, the sweep returns and every tenant that
  has been migrating for longer than the watchdog's minutes is back to running in its old place,
  with its migration cleared.
\<close>

theorem watchdog_frees_overdue:
  assumes "quiet w" "keyed (w_tenants w)"
  shows "\<exists>w1. sweep_migrations c n w = (Inr (), w1) \<and>
    (\<forall>k t. map_of (w_tenants w) k = Some t \<and> overdue c n t \<longrightarrow>
       (\<exists>reason m. map_of (w_tenants w1) k = Some (rolled_back_row reason m t)))"
  using sweep_migrations_rows [OF assms, of c n] by blast

theorem watchdog_frees_overdue_witness:
  "\<exists>w1. sweep_migrations cfg0 (seconds 1000) moving_world = (Inr (), w1) \<and>
    (\<exists>reason m. map_of (w_tenants w1) ''a-1'' = Some (rolled_back_row reason m moving_tenant))"
proof -
  have "overdue cfg0 (seconds 1000) moving_tenant"
    by (simp add: overdue_def in_migration_def moving_tenant_def opt_str_def seconds_def)
  moreover have "keyed (w_tenants moving_world)"
    by (simp add: keyed_def moving_world_def moving_world_facts(3))
  ultimately show ?thesis
    using watchdog_frees_overdue [OF moving_world_facts(1), of cfg0 "seconds 1000"] moving_world_facts(2) by metis
qed

text \<open>
  A failed migration does not undo its routing: with per-tenant rules, when the restored
  tenant's dashboard does not answer, the tick rolls the row back to the source host but leaves
  the tenant's listener rule pointing at the target group of the target host.
\<close>

theorem failed_gate_leaves_rule_on_target:
  assumes "ready_to_move c n t h g r w" "public_base_url c \<noteq> []" "w_http w = []"
  shows "\<exists>w' reason m. sweep_one c n t w = (Inr (), w') \<and>
    map_of (w_tenants w') (t_id t) = Some (rolled_back_row reason m t) \<and>
    w_rules w' = map (\<lambda>q. if r_arn q = r_arn r then q\<lparr>r_targets := [tg_ref g]\<rparr> else q) (w_rules w)"
proof -
  obtain w2 where w2: "quiet w2" "w_tenants w2 = w_tenants w" "w_http w2 = w_http w"
      "w_rules w2 = map (\<lambda>q. if r_arn q = r_arn r then q\<lparr>r_targets := [tg_ref g]\<rparr> else q) (w_rules w)"
      "sweep_one c n t w = best_effort (andThen (public_gate c (t_id t)) (\<lambda>reachable.
        if \<not> reachable then rollback_migration c t ''dashboard not reachable via ALB after restore''
        else complete_migration c t)) w2"
    using tick_reaches_gate [OF assms(1)] by blast
  obtain v w3 where g: "public_gate c (t_id t) w2 = (v, w3)" by fastforce
  have kept: "keeps (inv_rel quiet) (public_gate c (t_id t))" "keeps (unchanged w_tenants) (public_gate c (t_id t))"
    "keeps (unchanged w_rules) (public_gate c (t_id t))"
    unfolding public_gate_def by (intro keeps_rules)+
  have v: "v = Inr False"
    using dashboard_silent_quiet [OF w2(1), of c "t_id t" "public_base_url c" "verify_seconds c"] g w2(3) assms(2,3)
    by (simp add: public_gate_def)
  have "quiet w3" "w_tenants w3 = w_tenants w" "w_rules w3 = w_rules w2"
    using keepsD [OF kept(1) g] tables_of [OF kept(2) g] tables_of [OF kept(3) g] w2 by (simp_all add: inv_rel_def)
  moreover from this assms(1) have "stored t w3" by (simp add: stored_def ready_to_move_def)
  ultimately obtain w4 m where w4: "rollback_migration c t ''dashboard not reachable via ALB after restore'' w3 = (Inr (), w4)"
      "row_is t (rolled_back_row ''dashboard not reachable via ALB after restore'' m t) w3 w4"
    using rollback_quiet by blast
  have "w_rules w4 = w_rules w3"
    by (rule tables_of [OF keeps_rollback(4) w4(1)])
  moreover have "sweep_one c n t w = (Inr (), w4)" using w2(5) g v w4(1) by (simp add: io_simps)
  ultimately show ?thesis using w4(2) w2(4) \<open>w_rules w3 = w_rules w2\<close> by (auto simp: row_is_def)
qed

theorem failed_gate_leaves_rule_on_target_witness:
  "\<exists>w' reason m. sweep_one (cfg0\<lparr>public_base_url := ''http://alb''\<rparr>) 60000000 moving_tenant moving_world = (Inr (), w') \<and>
    map_of (w_tenants w') ''a-1'' = Some (rolled_back_row reason m moving_tenant) \<and> map r_targets (w_rules w') = [[''tg-2'']]"
proof -
  have rules: "w_rules moving_world = [moving_rule]" "w_http moving_world = []" by (simp_all add: moving_world_def)
  with failed_gate_leaves_rule_on_target [OF moving_ready, of "''http://alb''"]
  obtain w' reason m where w': "sweep_one (cfg0\<lparr>public_base_url := ''http://alb''\<rparr>) 60000000 moving_tenant moving_world = (Inr (), w')"
      "map_of (w_tenants w') ''a-1'' = Some (rolled_back_row reason m moving_tenant)"
      "w_rules w' = [moving_rule\<lparr>r_targets := [tg_ref moving_tg]\<rparr>]"
    by (auto simp: moving_world_facts(3))
  from w'(3) have "map r_targets (w_rules w') = [[''tg-2'']]" by (simp add: moving_tg_def)
  then show ?thesis using w'(1,2) by (intro exI conjI)
qed

end
