(* ===== verification/HealthCheck.thy ===== *)
theory HealthCheck
  imports Failover Migration
begin

text \<open>
  One run of the health-check Lambda (\<open>lambda_handler\<close> of health_check/handler.py): it marks the
  running tenants whose agent has gone quiet, restarts the agent of a host all of whose tenants
  have, looks for lost zones, reaps stuck failovers and drives the migrations.
\<close>

section \<open>The watchdog on agents\<close>

definition fresh_health :: "int \<Rightarrow> tenant \<Rightarrow> bool" where
  "fresh_health n t = (case t_last_health_check t of Some (At l) \<Rightarrow> n - l < seconds 120 | _ \<Rightarrow> False)"

definition stale_row :: "tenant \<Rightarrow> tenant" where
  "stale_row r = r\<lparr>t_vm_health := Some ''stale'', t_app_health := Some ''unknown''\<rparr>"

text \<open>The stale tenants of each host, in the order in which they were met.\<close>

definition check_stale :: "int \<Rightarrow> tenant \<Rightarrow> (string \<times> string list) list \<Rightarrow> (world, (string \<times> string list) list) io" where
  "check_stale n t by_host = (if fresh_health n t then ok by_host
     else andThen (update_tenant (t_id t) no_cond (set_attrs stale_row)) (\<lambda>_.
       ok (if opt_str (t_host_id t) \<noteq> [] then add_to_bucket (opt_str (t_host_id t)) (t_id t) by_host else by_host)))"

definition restart_cooling :: "int \<Rightarrow> host \<Rightarrow> bool" where
  "restart_cooling n h = (case h_agent_restart_at h of Some (At l) \<Rightarrow> n - l < seconds 600 | _ \<Rightarrow> False)"

definition agent_restart_command :: string where
  "agent_restart_command = ''systemctl restart host-agent''"

definition restart_host_agent :: "string \<Rightarrow> int \<Rightarrow> (world, bool) io" where
  "restart_host_agent i n = andThen (get_host_row i) (\<lambda>row. case row of
       None \<Rightarrow> ok False
     | Some h \<Rightarrow>
         if h_status h = Some ''deleted'' then ok False
         else if restart_cooling n h then ok False
         else try_except
           (andThen (raw_send_command [i] agent_restart_command 30) (\<lambda>_.
            andThen (update_host i no_cond (set_attrs (\<lambda>r. r\<lparr>h_agent_restart_at := Some (At n)\<rparr>))) (\<lambda>_. ok True)))
           (\<lambda>_. ok False))"

definition recover_host :: "int \<Rightarrow> tenant list \<Rightarrow> string \<times> string list \<Rightarrow> int \<Rightarrow> (world, int) io" where
  "recover_host n tenants entry recovered = (case entry of (i, tids) \<Rightarrow>
     if length tids < length (filter (\<lambda>t. t_host_id t = Some i) tenants) then ok recovered
     else andThen (restart_host_agent i n) (\<lambda>issued. ok (if issued then recovered + 1 else recovered)))"

definition watch_agents :: "int \<Rightarrow> tenant list \<Rightarrow> (world, int) io" where
  "watch_agents n tenants = andThen (fold_io (check_stale n) tenants []) (\<lambda>by_host.
     fold_io (recover_host n tenants) by_host 0)"

section \<open>The whole run\<close>

definition is_running :: "tenant \<Rightarrow> bool" where
  "is_running t = (t_status t = Some ''running'')"

text \<open>The event carries the zone of a manual failover, or none; the empty text counts as none.\<close>

definition health_check_handler :: "cfg \<Rightarrow> string option \<Rightarrow> (world, unit) io" where
  "health_check_handler c manual_az = (let force_azs = (if opt_str manual_az = [] then [] else [opt_str manual_az]) in
     andThen (scan_all w_tenants is_running) (\<lambda>tenants.
     andThen now (\<lambda>n.
     andThen (watch_agents n tenants) (\<lambda>_.
     andThen (whenever (az_failover_enabled c \<or> force_azs \<noteq> [])
        (best_effort (andThen (check_and_handle_az_failover c n tenants force_azs) (\<lambda>_. ok ())))) (\<lambda>_.
     andThen (whenever (failover_queue_url c \<noteq> []) (best_effort (sweep_stuck_failovers c n))) (\<lambda>_.
     sweep_migrations c n))))))"

section \<open>Frames\<close>

lemma stale_row_id [simp]: "t_id (stale_row r) = t_id r"
  by (simp add: stale_row_def)

lemma keeps_check_stale [keeps_rules]:
  "keeps (inv_rel quiet) (check_stale n t st)" "keeps (inv_rel keyed_world) (check_stale n t st)"
  "keeps (unchanged w_ssm) (check_stale n t st)" "keeps (unchanged w_hosts) (check_stale n t st)"
  "keeps (others_same (t_id t)) (check_stale n t st)"
  unfolding check_stale_def by (intro keeps_rules stale_row_id)+

lemma keeps_restart_agent [keeps_rules]:
  "keeps (inv_rel quiet) (restart_host_agent i n)" "keeps (inv_rel keyed_world) (restart_host_agent i n)"
  "keeps (unchanged w_tenants) (restart_host_agent i n)"
  unfolding restart_host_agent_def by (intro keeps_rules)+

lemma keeps_recover_host [keeps_rules]:
  "keeps (inv_rel quiet) (recover_host n ts st r)" "keeps (inv_rel keyed_world) (recover_host n ts st r)"
  "keeps (unchanged w_tenants) (recover_host n ts st r)"
  unfolding recover_host_def by (intro keeps_rules)+

lemma keeps_watch [keeps_rules]:
  "keeps (inv_rel quiet) (watch_agents n ts)" "keeps (inv_rel keyed_world) (watch_agents n ts)"
  "t_id ` set ts \<subseteq> K \<Longrightarrow> keeps (rows_outside K) (watch_agents n ts)"
proof -
  show "keeps (inv_rel quiet) (watch_agents n ts)" "keeps (inv_rel keyed_world) (watch_agents n ts)"
    unfolding watch_agents_def by (intro keeps_rules)+
  assume "t_id ` set ts \<subseteq> K"
  then have "keeps (rows_outside K) (check_stale n t st)" if "t \<in> set ts" for t st
    using that keeps_outside [OF keeps_check_stale(5)] by blast
  moreover have "keeps (rows_outside K) (recover_host n ts st r)" for st r
    unfolding recover_host_def restart_host_agent_def by (intro keeps_rules)
  ultimately show "keeps (rows_outside K) (watch_agents n ts)"
    unfolding watch_agents_def by (intro keeps_rules)
qed


section \<open>The agents that are restarted\<close>

definition stale_buckets :: "int \<Rightarrow> tenant list \<Rightarrow> (string \<times> string list) list \<Rightarrow> (string \<times> string list) list" where
  "stale_buckets n = fold (\<lambda>t b. if fresh_health n t \<or> opt_str (t_host_id t) = [] then b
     else add_to_bucket (opt_str (t_host_id t)) (t_id t) b)"

lemma stale_buckets_snoc:
  "stale_buckets n (ts @ [t]) b = (if fresh_health n t \<or> opt_str (t_host_id t) = [] then stale_buckets n ts b
     else add_to_bucket (opt_str (t_host_id t)) (t_id t) (stale_buckets n ts b))"
  by (simp add: stale_buckets_def)

lemma check_stale_result:
  "fold_io (check_stale n) ts b w = (Inr r, w') \<Longrightarrow> r = stale_buckets n ts b"
proof (induction ts arbitrary: b w)
  case (Cons t ts)
  from Cons.prems obtain b1 w1 where s: "check_stale n t b w = (Inr b1, w1)" "fold_io (check_stale n) ts b1 w1 = (Inr r, w')"
    by (auto simp: andThen_Inr)
  have "b1 = stale_buckets n [t] b" using s(1) by (auto simp: check_stale_def stale_buckets_def io_inv)
  with Cons.IH [OF s(2)] show ?case by (simp add: stale_buckets_def)
qed (simp add: stale_buckets_def)

definition stale_ids :: "int \<Rightarrow> string \<Rightarrow> tenant list \<Rightarrow> string list" where
  "stale_ids n i ts = map t_id (filter (\<lambda>t. \<not> fresh_health n t \<and> opt_str (t_host_id t) = i) ts)"

lemma stale_ids_snoc:
  "stale_ids n i (ts @ [t]) = (if fresh_health n t \<or> opt_str (t_host_id t) \<noteq> i then stale_ids n i ts
     else stale_ids n i ts @ [t_id t])"
  by (simp add: stale_ids_def)

lemma stale_buckets_lookup:
  "map_of (stale_buckets n ts []) i = (if i = [] \<or> stale_ids n i ts = [] then None else Some (stale_ids n i ts))"
proof (induction ts arbitrary: i rule: rev_induct)
  case (snoc t ts)
  show ?case
  proof (cases "fresh_health n t \<or> opt_str (t_host_id t) = []")
    case True
    then show ?thesis using snoc [of i] by (auto simp: stale_buckets_snoc stale_ids_snoc)
  next
    case False
    show ?thesis
    proof (cases "opt_str (t_host_id t) = i")
      case True
      then show ?thesis using False snoc [of i] by (simp add: stale_buckets_snoc stale_ids_snoc add_to_bucket_lookup)
    next
      case other: False
      then show ?thesis using False snoc [of i] by (simp add: stale_buckets_snoc stale_ids_snoc add_to_bucket_lookup)
    qed
  qed
qed (simp add: stale_buckets_def stale_ids_def)

lemma stale_buckets_distinct: "distinct (map fst (stale_buckets n ts []))"
proof (induction ts rule: rev_induct)
  case (snoc t ts)
  then show ?case by (simp add: stale_buckets_snoc add_to_bucket_distinct)
qed (simp add: stale_buckets_def)

lemma filter_all:
  assumes "length (filter Q xs) \<le> length (filter (\<lambda>x. P x \<and> Q x) xs)" "x \<in> set xs" "Q x"
  shows "P x"
proof (rule ccontr)
  assume no: "\<not> P x"
  have "length (filter (\<lambda>x. P x \<and> Q x) xs) = length (filter P (filter Q xs))" by (simp add: conj_commute)
  also have "\<dots> < length (filter Q xs)" by (rule length_filter_less [of x]) (use assms(2,3) no in auto)
  finally show False using assms(1) by simp
qed

lemma bucket_all_stale:
  assumes "(i, tids) \<in> set (stale_buckets n ts [])" "\<not> length tids < length (filter (\<lambda>t. t_host_id t = Some i) ts)"
    "t \<in> set ts" "t_host_id t = Some i"
  shows "\<not> fresh_health n t"
proof -
  have "map_of (stale_buckets n ts []) i = Some tids" using assms(1) stale_buckets_distinct by simp
  then have b: "i \<noteq> []" "tids = map t_id (filter (\<lambda>t. \<not> fresh_health n t \<and> opt_str (t_host_id t) = i) ts)"
    by (auto simp: stale_buckets_lookup stale_ids_def split: if_splits)
  have "(\<lambda>t. opt_str (t_host_id t) = i) = (\<lambda>t. t_host_id t = Some i)"
    using b(1) by (auto simp: opt_str_def split: option.split)
  then have "filter (\<lambda>t. \<not> fresh_health n t \<and> opt_str (t_host_id t) = i) ts =
      filter (\<lambda>t. \<not> fresh_health n t \<and> t_host_id t = Some i) ts" by metis
  with b(2) assms(2) have "length (filter (\<lambda>t. t_host_id t = Some i) ts) \<le>
      length (filter (\<lambda>t. \<not> fresh_health n t \<and> t_host_id t = Some i) ts)" by simp
  from filter_all [OF this assms(3,4)] show ?thesis .
qed

definition restart_command_for :: "int \<Rightarrow> world \<Rightarrow> string \<Rightarrow> ssm_command \<Rightarrow> bool" where
  "restart_command_for n w i cmd = (s_instances cmd = [i] \<and> s_command cmd = agent_restart_command \<and>
     (\<exists>h. map_of (w_hosts w) i = Some h \<and> h_status h \<noteq> Some ''deleted'' \<and> \<not> restart_cooling n h))"

lemma raw_send_effect:
  assumes "raw_send_command is cmd t w = (r, w')"
  shows "w_hosts w' = w_hosts w \<and> (w_ssm w' = w_ssm w \<or>
    (\<exists>k. w_ssm w' = w_ssm w @ [\<lparr>s_id = k, s_instances = is, s_command = cmd, s_timeout = t\<rparr>]))"
  using assms unfolding raw_send_command_def
  by (cases rule: aws_elim) (auto simp: Let_def split: if_splits)

lemma restart_agent_effect:
  assumes "restart_host_agent i n w = (r, w')"
  shows "(\<forall>j. j \<noteq> i \<longrightarrow> map_of (w_hosts w') j = map_of (w_hosts w) j) \<and>
    (w_ssm w' = w_ssm w \<or> (\<exists>cmd. w_ssm w' = w_ssm w @ [cmd] \<and> restart_command_for n w i cmd))"
proof -
  obtain x w1 where g: "get_host_row i w = (x, w1)" by fastforce
  have g1: "w_hosts w1 = w_hosts w" "w_ssm w1 = w_ssm w"
    by (rule tables_of [of _ "get_host_row i", OF _ g], rule keeps_rules)+
  consider (quit) "w' = w1"
    | (go) h where "x = Inr (Some h)" "h_status h \<noteq> Some ''deleted''" "\<not> restart_cooling n h"
        "fst (restart_host_agent i n w) = r" "snd (try_except
           (andThen (raw_send_command [i] agent_restart_command 30) (\<lambda>_.
            andThen (update_host i no_cond (set_attrs (\<lambda>r. r\<lparr>h_agent_restart_at := Some (At n)\<rparr>))) (\<lambda>_. ok True)))
           (\<lambda>_. ok False) w1) = w'"
    using assms g by (cases x) (auto simp: restart_host_agent_def andThen_apply ok_def split: option.splits if_splits)
  then show ?thesis
  proof cases
    case quit
    with g1 show ?thesis by simp
  next
    case go
    have row: "map_of (w_hosts w) i = Some h" using get_host_Inr [OF g [unfolded go(1)]] by simp
    obtain y w2 where s: "raw_send_command [i] agent_restart_command 30 w1 = (y, w2)" by fastforce
    obtain z w3 where u: "update_host i no_cond (set_attrs (\<lambda>r. r\<lparr>h_agent_restart_at := Some (At n)\<rparr>)) w2 = (z, w3)" by fastforce
    have ssm: "w_ssm w3 = w_ssm w2"
      by (rule tables_of [of _ "update_host i no_cond (set_attrs (\<lambda>r. r\<lparr>h_agent_restart_at := Some (At n)\<rparr>))", OF _ u]) (rule keeps_rules)
    have hosts: "\<forall>j. j \<noteq> i \<longrightarrow> map_of (w_hosts w3) j = map_of (w_hosts w2) j"
    proof (cases z)
      case (Inl e)
      with update_host_Inl [OF u [unfolded Inl]] show ?thesis by simp
    next
      case (Inr v)
      with update_host_Inr [OF u [unfolded Inr]] show ?thesis by (simp add: update_conv')
    qed
    have w': "w' = w2 \<or> w' = w3" using go(5) s u by (cases y; cases z) (auto simp: io_simps)
    have sent: "w_ssm w2 = w_ssm w \<or> (\<exists>cmd. w_ssm w2 = w_ssm w @ [cmd] \<and> restart_command_for n w i cmd)"
      using raw_send_effect [OF s] g1 row go(2,3) by (auto simp: restart_command_for_def)
    have "w_hosts w2 = w_hosts w" using raw_send_effect [OF s] g1 by simp
    with w' sent ssm hosts show ?thesis by auto
  qed
qed

lemma recover_effect:
  assumes "fold_io (recover_host n ts) entries k w = (r, w')" "distinct (map fst entries)"
    "\<forall>j \<in> set (map fst entries). map_of (w_hosts w) j = map_of (w_hosts w0) j"
  shows "\<exists>cmds. w_ssm w' = w_ssm w @ cmds \<and> distinct (map s_instances cmds) \<and>
    (\<forall>cmd \<in> set cmds. \<exists>(i, tids) \<in> set entries. \<not> length tids < length (filter (\<lambda>t. t_host_id t = Some i) ts) \<and>
       restart_command_for n w0 i cmd)"
  using assms
proof (induction entries arbitrary: k w)
  case Nil
  then show ?case by (auto simp: ok_def)
next
  case (Cons e entries)
  obtain i tids where e: "e = (i, tids)" by (cases e)
  obtain x w1 where x: "recover_host n ts e k w = (x, w1)" by fastforce
  let ?few = "length tids < length (filter (\<lambda>t. t_host_id t = Some i) ts)"
  have step: "(\<forall>j. j \<noteq> i \<longrightarrow> map_of (w_hosts w1) j = map_of (w_hosts w) j) \<and>
      (w_ssm w1 = w_ssm w \<or> \<not> ?few \<and> (\<exists>cmd. w_ssm w1 = w_ssm w @ [cmd] \<and> restart_command_for n w i cmd))"
  proof (cases ?few)
    case True
    with x e show ?thesis by (simp add: recover_host_def ok_def)
  next
    case False
    obtain y v where y: "restart_host_agent i n w = (y, v)" by fastforce
    with x e False have "w1 = v" by (cases y) (auto simp: recover_host_def andThen_apply ok_apply)
    with restart_agent_effect [OF y] False show ?thesis by blast
  qed
  have here: "restart_command_for n w i cmd \<Longrightarrow> restart_command_for n w0 i cmd" for cmd
    using Cons.prems(3) e by (simp add: restart_command_for_def)
  obtain pre where pre: "w_ssm w1 = w_ssm w @ pre" "pre = [] \<or> (\<exists>cmd. pre = [cmd] \<and> \<not> ?few \<and> restart_command_for n w0 i cmd)"
    using step here by fastforce
  show ?case
  proof (cases x)
    case (Inl ex)
    with Cons.prems(1) x have "w' = w1" by (simp add: andThen_apply)
    with pre e show ?thesis by (intro exI [of _ pre]) auto
  next
    case (Inr k1)
    with Cons.prems(1) x have next_: "fold_io (recover_host n ts) entries k1 w1 = (r, w')" by (simp add: andThen_apply)
    have "\<forall>j \<in> set (map fst entries). map_of (w_hosts w1) j = map_of (w_hosts w0) j"
    proof
      fix j
      assume j: "j \<in> set (map fst entries)"
      then have "j \<noteq> i" using Cons.prems(2) e by auto
      then have "map_of (w_hosts w1) j = map_of (w_hosts w) j" using step by blast
      also have "\<dots> = map_of (w_hosts w0) j" using j Cons.prems(3) by auto
      finally show "map_of (w_hosts w1) j = map_of (w_hosts w0) j" .
    qed
    from Cons.IH [OF next_ _ this] Cons.prems(2) obtain cmds where
      cmds: "w_ssm w' = w_ssm w1 @ cmds" "distinct (map s_instances cmds)"
        "\<forall>cmd \<in> set cmds. \<exists>(i, tids) \<in> set entries. \<not> length tids < length (filter (\<lambda>t. t_host_id t = Some i) ts) \<and>
          restart_command_for n w0 i cmd" by auto
    have "i \<notin> fst ` set entries" using Cons.prems(2) e by simp
    then have "[i] \<notin> s_instances ` set cmds" using cmds(3) by (force simp: restart_command_for_def)
    with pre cmds e show ?thesis
      by (intro exI [of _ "pre @ cmds"]) (auto simp: restart_command_for_def)
  qed
qed


lemma watch_agents_effect:
  assumes "watch_agents n ts w = (r, w')"
  shows "\<exists>cmds. w_ssm w' = w_ssm w @ cmds \<and> distinct (map s_instances cmds) \<and>
    (\<forall>cmd \<in> set cmds. \<exists>i. restart_command_for n w i cmd \<and> (\<forall>t \<in> set ts. t_host_id t = Some i \<longrightarrow> \<not> fresh_health n t))"
  using assms unfolding watch_agents_def
proof (cases rule: andThen_cases)
  case (raised e)
  have "keeps (unchanged w_ssm) (fold_io (check_stale n) ts [])" by (intro keeps_rules)
  then have "w_ssm w' = w_ssm w" using raised(1) by (rule tables_of)
  then show ?thesis by (intro exI [of _ "[]"]) simp
next
  case (passed b w1)
  have k: "keeps (unchanged w_ssm) (fold_io (check_stale n) ts [])" "keeps (unchanged w_hosts) (fold_io (check_stale n) ts [])"
    by (intro keeps_rules)+
  note same = tables_of [OF k(1) passed(1)] tables_of [OF k(2) passed(1)]
  have b: "b = stale_buckets n ts []" using check_stale_result [OF passed(1)] .
  obtain cmds where cmds: "w_ssm w' = w_ssm w1 @ cmds" "distinct (map s_instances cmds)"
      "\<forall>cmd \<in> set cmds. \<exists>(i, tids) \<in> set b. \<not> length tids < length (filter (\<lambda>t. t_host_id t = Some i) ts) \<and>
         restart_command_for n w1 i cmd"
    using recover_effect [OF passed(2), of w1] b stale_buckets_distinct by auto
  have "\<exists>i. restart_command_for n w i cmd \<and> (\<forall>t \<in> set ts. t_host_id t = Some i \<longrightarrow> \<not> fresh_health n t)"
    if "cmd \<in> set cmds" for cmd
  proof -
    from cmds(3) that obtain i tids where i: "(i, tids) \<in> set (stale_buckets n ts [])"
        "\<not> length tids < length (filter (\<lambda>t. t_host_id t = Some i) ts)" "restart_command_for n w1 i cmd" unfolding b by blast
    with bucket_all_stale [OF i(1,2)] same show ?thesis by (auto simp: restart_command_for_def)
  qed
  with cmds(1,2) same show ?thesis by (intro exI [of _ cmds]) simp
qed

section \<open>A run in which nothing fails\<close>

lemma check_stale_quiet: "quiet w \<Longrightarrow> \<exists>r w'. check_stale n t b w = (Inr r, w')"
  using set_tenant_quiet [of w "t_id t" stale_row] by (simp add: check_stale_def andThen_apply ok_apply)

lemma recover_host_quiet: "quiet w \<Longrightarrow> \<exists>r w'. recover_host n ts e k w = (Inr r, w')"
proof -
  assume "quiet w"
  then have "\<exists>b w'. restart_host_agent i n w = (Inr b, w')" for i
    using get_host_quiet [of w i]
    by (auto simp: restart_host_agent_def andThen_apply ok_apply try_except_apply split: option.split sum.split)
  then show ?thesis
    by (cases e) (auto simp: recover_host_def andThen_apply ok_apply split: sum.split, metis fst_conv sum.distinct(1))
qed

lemma fold_io_quiet:
  assumes "\<And>x a w. quiet w \<Longrightarrow> \<exists>r w'. f x a w = (Inr r, w')" "\<And>x a. keeps (inv_rel quiet) (f x a)" "quiet w"
  shows "\<exists>r w'. fold_io f xs a w = (Inr r, w')"
  using assms(3)
proof (induction xs arbitrary: a w)
  case (Cons x xs)
  obtain r w1 where s: "f x a w = (Inr r, w1)" using assms(1) [OF Cons.prems] by blast
  then have "quiet w1" using keepsD [OF assms(2) s] Cons.prems by (simp add: inv_rel_def)
  from Cons.IH [OF this] s show ?case by (simp add: andThen_apply)
qed (simp add: ok_apply)

lemma watch_quiet: "quiet w \<Longrightarrow> \<exists>r w'. watch_agents n ts w = (Inr r, w')"
proof -
  assume q: "quiet w"
  have "\<exists>b w1. fold_io (check_stale n) ts [] w = (Inr b, w1)"
    by (rule fold_io_quiet) (use check_stale_quiet keeps_check_stale(1) q in auto)
  then obtain b w1 where s: "fold_io (check_stale n) ts [] w = (Inr b, w1)" by blast
  have "keeps (inv_rel quiet) (fold_io (check_stale n) ts [])" by (intro keeps_rules)
  then have "quiet w1" using s q keepsD by (fastforce simp: inv_rel_def)
  have "\<exists>r w'. fold_io (recover_host n ts) b 0 w1 = (Inr r, w')"
    by (rule fold_io_quiet) (use recover_host_quiet keeps_recover_host(1) \<open>quiet w1\<close> in auto)
  with s show ?thesis by (simp add: watch_agents_def andThen_apply)
qed

text \<open>The phases before the two sweeps touch running tenants only.\<close>

definition before_sweeps :: "cfg \<Rightarrow> string list \<Rightarrow> int \<Rightarrow> tenant list \<Rightarrow> (world, unit) io" where
  "before_sweeps c force_azs n tenants = andThen (watch_agents n tenants) (\<lambda>_.
     whenever (az_failover_enabled c \<or> force_azs \<noteq> [])
        (best_effort (andThen (check_and_handle_az_failover c n tenants force_azs) (\<lambda>_. ok ()))))"

lemma keeps_before_sweeps:
  "keeps (inv_rel quiet) (before_sweeps c fs n ts)" "keeps (inv_rel keyed_world) (before_sweeps c fs n ts)"
  "t_id ` set ts \<subseteq> K \<Longrightarrow> keeps (rows_outside K) (before_sweeps c fs n ts)"
  unfolding before_sweeps_def
  by (intro keeps_rules staying_quiet.keeps_outage_run keyed_kept.keeps_outage_run outside.keeps_outage_run, simp | blast)+

lemma before_sweeps_quiet: "quiet w \<Longrightarrow> \<exists>w'. before_sweeps c fs n ts w = (Inr (), w')"
  using watch_quiet [of w n ts] by (auto simp: before_sweeps_def andThen_apply whenever_def ok_apply best_effort_apply)

lemma handler_phases:
  "health_check_handler c az = andThen (scan_all w_tenants is_running) (\<lambda>tenants. andThen now (\<lambda>n.
     andThen (before_sweeps c (if opt_str az = [] then [] else [opt_str az]) n tenants) (\<lambda>_.
     andThen (whenever (failover_queue_url c \<noteq> []) (best_effort (sweep_stuck_failovers c n))) (\<lambda>_.
     sweep_migrations c n))))"
  by (simp add: health_check_handler_def before_sweeps_def andThen_assoc Let_def)


lemma keeps_keyed_sweep [keeps_rules]: "keeps (inv_rel keyed_world) (sweep_stuck_failovers c n)"
  unfolding sweep_stuck_failovers_def by (intro keeps_rules)

lemma running_ids:
  assumes "keyed tb" "map_of tb k = Some t" "\<not> is_running t"
  shows "k \<notin> t_id ` set (filter is_running (map snd tb))"
proof
  assume "k \<in> t_id ` set (filter is_running (map snd tb))"
  then obtain u where u: "u \<in> snd ` set tb" "is_running u" "t_id u = k" by auto
  with keyed_lookup [OF assms(1) u(1)] assms(2,3) show False by simp
qed

text \<open>A run in which nothing fails, up to the two sweeps, which find the rows that were not running as they were.\<close>

lemma quiet_run:
  assumes "quiet w" "keyed (w_tenants w)"
  shows "\<exists>w2. quiet w2 \<and> keyed (w_tenants w2) \<and>
    (\<forall>k t. map_of (w_tenants w) k = Some t \<and> \<not> is_running t \<longrightarrow> map_of (w_tenants w2) k = Some t) \<and>
    health_check_handler c az w = andThen (whenever (failover_queue_url c \<noteq> []) (best_effort (sweep_stuck_failovers c (w_now w)))) (\<lambda>_.
      sweep_migrations c (w_now w)) w2"
proof -
  let ?ts = "filter is_running (map snd (w_tenants w))" and ?fs = "if opt_str az = [] then [] else [opt_str az]"
  have scan: "scan_all w_tenants is_running w = (Inr ?ts, w)" using assms(1) scan_all_quiet by (simp add: quiet_def)
  obtain w2 where s: "before_sweeps c ?fs (w_now w) ?ts w = (Inr (), w2)" using before_sweeps_quiet [OF assms(1)] by blast
  have "quiet w2" "keyed_world w2"
    using keepsD [OF keeps_before_sweeps(1) s] keepsD [OF keeps_before_sweeps(2) s] assms by (simp_all add: inv_rel_def keyed_world_def)
  moreover have "rows_outside (t_id ` set ?ts) w w2" by (rule keepsD [OF keeps_before_sweeps(3) s]) simp
  then have "map_of (w_tenants w2) k = Some t" if "map_of (w_tenants w) k = Some t" "\<not> is_running t" for k t
    using running_ids [OF assms(2) that] that(1) by (simp add: rows_outside_def)
  moreover have "health_check_handler c az w = andThen (whenever (failover_queue_url c \<noteq> []) (best_effort (sweep_stuck_failovers c (w_now w)))) (\<lambda>_.
      sweep_migrations c (w_now w)) w2"
    unfolding handler_phases by (simp only: andThen_apply scan now_quiet s fst_conv snd_conv sum.case)
  ultimately show ?thesis by (auto simp: keyed_world_def)
qed

section \<open>Properties\<close>

text \<open>
  An agent is restarted only when its whole host has gone quiet: the commands a run of the
  watchdog sends are restarts, at most one for each host, and each goes to a host that was read as
  not deleted and out of its cooldown, on which every running tenant of the run is stale.
\<close>

theorem agents_restarted_only_when_silent:
  assumes "watch_agents n tenants w = (r, w')"
  shows "\<exists>cmds. w_ssm w' = w_ssm w @ cmds \<and> distinct (map s_instances cmds) \<and>
    (\<forall>cmd \<in> set cmds. s_command cmd = agent_restart_command \<and> (\<exists>i h. s_instances cmd = [i] \<and>
       map_of (w_hosts w) i = Some h \<and> h_status h \<noteq> Some ''deleted'' \<and> \<not> restart_cooling n h \<and>
       (\<forall>t \<in> set tenants. t_host_id t = Some i \<longrightarrow> \<not> fresh_health n t)))"
  using watch_agents_effect [OF assms] unfolding restart_command_for_def by blast

definition two_on_a_host :: "tenant list" where
  "two_on_a_host = [placed_tenant, placed_tenant\<lparr>t_id := ''b-2'', t_last_health_check := Some (At (seconds 900))\<rparr>]"

theorem agents_restarted_only_when_silent_witness:
  "[''i-1''] \<notin> s_instances ` set (w_ssm (snd (watch_agents (seconds 1000) two_on_a_host outage_world)))"
proof -
  obtain r w' where r: "watch_agents (seconds 1000) two_on_a_host outage_world = (r, w')" by fastforce
  have "w_ssm outage_world = []" by (simp add: outage_world_def)
  moreover have "\<exists>t \<in> set two_on_a_host. t_host_id t = Some ''i-1'' \<and> fresh_health (seconds 1000) t"
    by (simp add: two_on_a_host_def placed_tenant_def fresh_health_def seconds_def)
  ultimately show ?thesis using agents_restarted_only_when_silent [OF r] r by fastforce
qed

text \<open>
  C20. A run in which nothing fails leaves nothing stuck: whatever the earlier phases do, it
  returns, every migration past its watchdog is rolled back, and, when failovers are queued, every
  failover past its watchdog is marked failed.
\<close>

theorem quiet_run_unsticks:
  assumes "quiet w" "keyed (w_tenants w)"
  shows "\<exists>w1. health_check_handler c az w = (Inr (), w1) \<and>
    (\<forall>k t. map_of (w_tenants w) k = Some t \<and> overdue c (w_now w) t \<longrightarrow>
       (\<exists>reason m. map_of (w_tenants w1) k = Some (rolled_back_row reason m t))) \<and>
    (failover_queue_url c \<noteq> [] \<longrightarrow> (\<forall>k t. map_of (w_tenants w) k = Some t \<and> in_failover (Some t) \<and>
       \<not> within_grace c (w_now w) t \<longrightarrow> (\<exists>err. map_of (w_tenants w1) k = Some (failover_failed_row ''failover_failed'' err t))))"
proof -
  let ?n = "w_now w"
  from quiet_run [OF assms, of c az] obtain w2 where w2: "quiet w2" "keyed (w_tenants w2)"
      "\<forall>k t. map_of (w_tenants w) k = Some t \<and> \<not> is_running t \<longrightarrow> map_of (w_tenants w2) k = Some t"
      "health_check_handler c az w = andThen (whenever (failover_queue_url c \<noteq> []) (best_effort (sweep_stuck_failovers c ?n))) (\<lambda>_.
        sweep_migrations c ?n) w2" by blast
  obtain w3 where w3: "whenever (failover_queue_url c \<noteq> []) (best_effort (sweep_stuck_failovers c ?n)) w2 = (Inr (), w3)" "quiet w3"
      "\<forall>k. map_of (w_tenants w3) k = map_option (if failover_queue_url c \<noteq> [] then after_watchdog c ?n else id) (map_of (w_tenants w2) k)"
    using sweep_stuck_rows [OF w2(1,2), of c ?n] w2(1)
    by (cases "failover_queue_url c = []") (auto simp: whenever_def ok_def best_effort_apply option.map_id)
  have "keeps (inv_rel keyed_world) (whenever (failover_queue_url c \<noteq> []) (best_effort (sweep_stuck_failovers c ?n)))"
    by (intro keeps_rules)
  from keepsD [OF this w3(1)] w2(2) have "keyed (w_tenants w3)" by (simp add: inv_rel_def keyed_world_def)
  from sweep_migrations_rows [OF w3(2) this, of c ?n] obtain w4 where w4: "sweep_migrations c ?n w3 = (Inr (), w4)"
      "\<forall>k t. map_of (w_tenants w3) k = Some t \<and> overdue c ?n t \<longrightarrow> (\<exists>reason m. map_of (w_tenants w4) k = Some (rolled_back_row reason m t))"
      "\<forall>k t. map_of (w_tenants w3) k = Some t \<and> \<not> in_migration t \<longrightarrow> map_of (w_tenants w4) k = Some t" by blast
  have "health_check_handler c az w = (Inr (), w4)" using w2(4) w3(1) w4(1) by (simp add: andThen_apply)
  moreover have "\<exists>reason m. map_of (w_tenants w4) k = Some (rolled_back_row reason m t)"
    if t: "map_of (w_tenants w) k = Some t" "overdue c ?n t" for k t
  proof -
    have "\<not> is_running t" "\<not> in_failover (Some t)"
      using t(2) by (auto simp: overdue_def in_migration_def is_running_def in_failover_def)
    with w2(3) w3(3) t(1) have "map_of (w_tenants w3) k = Some t" by (simp add: after_watchdog_def)
    with w4(2) t(2) show ?thesis by blast
  qed
  moreover have "\<exists>err. map_of (w_tenants w4) k = Some (failover_failed_row ''failover_failed'' err t)"
    if "failover_queue_url c \<noteq> []" and t: "map_of (w_tenants w) k = Some t" "in_failover (Some t)" "\<not> within_grace c ?n t" for k t
  proof -
    have "\<not> is_running t" using t(2) by (auto simp: is_running_def in_failover_def)
    with w2(3) w3(3) t(1) that(1) have "map_of (w_tenants w3) k = Some (after_watchdog c ?n t)" by simp
    moreover have "after_watchdog c ?n t = failover_failed_row ''failover_failed''
        (''watchdog: stuck > '' @ show_int (failover_watchdog_minutes c) @ ''min'') t"
      using t(2,3) unfolding after_watchdog_def by (simp only: if_True simp_thms)
    ultimately have "\<exists>err. map_of (w_tenants w3) k = Some (failover_failed_row ''failover_failed'' err t)" by metis
    moreover have "\<not> in_migration (failover_failed_row ''failover_failed'' err t)" for err
      by (simp add: in_migration_def failover_failed_row_def)
    ultimately show ?thesis using w4(3) by blast
  qed
  ultimately show ?thesis by blast
qed

theorem quiet_run_unsticks_witness:
  "\<exists>w1. health_check_handler cfg0 (Some ''az-1'') (moving_world\<lparr>w_now := seconds 1000\<rparr>) = (Inr (), w1) \<and>
    (\<exists>reason m. map_of (w_tenants w1) ''a-1'' = Some (rolled_back_row reason m moving_tenant))"
proof -
  let ?w = "moving_world\<lparr>w_now := seconds 1000\<rparr>"
  have "quiet ?w" "keyed (w_tenants ?w)"
    using moving_world_facts by (simp_all add: quiet_def keyed_def moving_world_def)
  moreover have "overdue cfg0 (w_now ?w) moving_tenant"
    by (simp add: overdue_def in_migration_def moving_tenant_def opt_str_def seconds_def)
  moreover have "map_of (w_tenants ?w) ''a-1'' = Some moving_tenant" using moving_world_facts(2) by simp
  ultimately show ?thesis using quiet_run_unsticks [of ?w cfg0 "Some ''az-1''"] by blast
qed

end
