(* ===== verification/Agent.thy ===== *)
theory Agent
  imports World
begin

text \<open>
  The agent that runs on every host (userdata/host-agent.py): its state, the machine it looks at,
  and the supervision of the VMs, from the migration sentinel to the relaunch of a dead VM. The
  state is the world shared with the Lambdas, the variables of the agent's process, and the host
  itself. Whatever happens on the host between two looks of the agent is the list \<open>nd_future\<close>:
  every system call first takes the next machine state and lets its delay pass, so that a theorem
  that says nothing of \<open>nd_future\<close> speaks of every change of the host under the agent's feet.
\<close>

section \<open>The machine\<close>

text \<open>How a command ends: with an exit code and output, out of time, or not started at all.\<close>

datatype cmd_result = Exit int string | TimedOut | NotStarted

text \<open>The contents of vm.json (written by launch-vm.sh), \<open>None\<close> for a missing key.\<close>

record vm_config =
  vj_guest_ip :: "string option"
  vj_vm_num :: "int option"
  vj_vcpu :: "int option"
  vj_mem_mb :: "int option"

text \<open>
  What the agent can see of one VM: its directory (vm.json if it is there, unreadable or parsed;
  the markers, with the time the sentinel was written; the socket, the data disk) and the answers
  to the commands that ask for it.
\<close>

record vm_dir =
  vd_config :: "(exn + vm_config) option"
  vd_stopped :: bool
  vd_migrating :: "int option"
  vd_sock :: bool
  vd_disk :: bool
  vd_pgrep :: cmd_result
  vd_ping :: cmd_result
  vd_curl :: cmd_result
  vd_ssh :: cmd_result
  vd_balloon :: cmd_result
  vd_dumpe2fs :: cmd_result

definition no_dir :: vm_dir where
  "no_dir = \<lparr>vd_config = None, vd_stopped = False, vd_migrating = None, vd_sock = False, vd_disk = False,
     vd_pgrep = Exit 1 '''', vd_ping = Exit 1 '''', vd_curl = Exit 1 '''', vd_ssh = Exit 1 '''', vd_balloon = Exit 1 '''',
     vd_dumpe2fs = Exit 1 ''''\<rparr>"

text \<open>
  The host: the directory of VMs (\<open>None\<close> when it does not exist), the files of \<^verbatim>\<open>/proc\<close>
  (\<open>Inr None\<close> for a missing or forbidden one, \<open>Inl\<close> for a read that fails otherwise), the local
  routes, and what starting a script, patching a balloon and nginx answer; whether files can be written,
  removed, and the readiness marker published (where not, \<open>OSError\<close> is raised).
\<close>

record machine =
  bx_dirs :: "(string \<times> vm_dir) list option"
  bx_stat :: "int \<Rightarrow> exn + string option"
  bx_status :: "int \<Rightarrow> exn + string option"
  bx_meminfo :: "exn + string"
  bx_launch :: cmd_result
  bx_stop :: cmd_result
  bx_patch :: cmd_result
  bx_local :: "string list option"
  bx_write :: bool
  bx_remove :: bool
  bx_ready :: bool
  bx_nginx_test :: cmd_result
  bx_nginx_reload :: cmd_result

definition machine0 :: machine where
  "machine0 = \<lparr>bx_dirs = Some [], bx_stat = (\<lambda>_. Inr None), bx_status = (\<lambda>_. Inr None), bx_meminfo = Inr '''',
     bx_launch = Exit 0 '''', bx_stop = Exit 0 '''', bx_patch = Exit 0 '''', bx_local = Some [], bx_write = True,
     bx_remove = True, bx_ready = True, bx_nginx_test = Exit 0 '''', bx_nginx_reload = Exit 0 ''''\<rparr>"

section \<open>The agent\<close>

text \<open>
  The settings of the agent and the name of its host, with the hash function and the JSON parser it calls. Times are seconds.
\<close>

record agent_cfg =
  ag_tenants_table :: bool
  ag_hosts_table :: bool
  ag_instance :: string
  ag_refresh :: int
  ag_sentinel_ttl :: int
  ag_route_sync :: int
  ag_balloon :: bool
  ag_max_ratio :: pyfloat
  ag_min_guest :: int
  ag_clk_tck :: int
  ag_sha256 :: "string \<Rightarrow> string"
  ag_parse :: "string \<Rightarrow> json option"

definition agent_cfg0 :: agent_cfg where
  "agent_cfg0 = \<lparr>ag_tenants_table = True, ag_hosts_table = True, ag_instance = ''i-1'', ag_refresh = 60,
     ag_sentinel_ttl = 900, ag_route_sync = 60, ag_balloon = True, ag_max_ratio = fdiv (float_of_int 4) (float_of_int 10),
     ag_min_guest = 512, ag_clk_tck = 100, ag_sha256 = (\<lambda>s. s), ag_parse = (\<lambda>_. None)\<rparr>"

type_synonym metrics = "(string \<times> int) list"

text \<open>The result of a probe; \<open>None\<close> where the key is absent.\<close>

record probe_info =
  pi_vm :: string
  pi_app :: string
  pi_ip :: string
  pi_pid :: "int option"
  pi_metrics :: "metrics option"
  pi_updated :: "int option"

text \<open>
  The process and its surroundings. \<open>nd_boot\<close> is the difference between the wall clock and the
  monotonic clock. \<open>nd_cmds\<close> logs the commands that change something, with the VM they are for; \<open>nd_peers\<close> are the files of
  the peer directory, \<open>nd_loaded\<close> what they held when nginx last reloaded for the agent, and \<open>nd_ready\<close>
  the readiness marker.
\<close>

record node =
  nd_world :: world
  nd_box :: machine
  nd_future :: "(nat \<times> machine) list"
  nd_boot :: int
  nd_cmds :: "(string \<times> string list) list"
  nd_recovering :: "string set"
  nd_net_dead :: "string \<Rightarrow> nat option"
  nd_promoted :: "string set"
  nd_last_write :: "string \<Rightarrow> (string \<times> string \<times> int) option"
  nd_cpu :: "string \<Rightarrow> (int \<times> pyfloat) option"
  nd_status :: "(string \<times> probe_info) list"
  nd_last_sync :: int
  nd_peer_hash :: "string option"
  nd_failures :: nat
  nd_last_success :: int
  nd_entries :: nat
  nd_peers :: "(string \<times> string) list"
  nd_loaded :: "(string \<times> string) list option"
  nd_ready :: bool

text \<open>An agent that has just started on an empty host.\<close>

definition node0 :: node where
  "node0 = \<lparr>nd_world = world0, nd_box = machine0, nd_future = [], nd_boot = - 1000000000, nd_cmds = [],
     nd_recovering = {}, nd_net_dead = Map.empty, nd_promoted = {}, nd_last_write = Map.empty, nd_cpu = Map.empty,
     nd_status = [], nd_last_sync = 0, nd_peer_hash = None, nd_failures = 0, nd_last_success = 0, nd_entries = 0,
     nd_peers = [], nd_loaded = None, nd_ready = False\<rparr>"

subsection \<open>Calls\<close>

definition on_world :: "(world, 'a) io \<Rightarrow> (node, 'a) io" where
  "on_world m = (\<lambda>s. case m (nd_world s) of (r, w) \<Rightarrow> (r, s\<lparr>nd_world := w\<rparr>))"

definition sys :: "(node, 'a) io \<Rightarrow> (node, 'a) io" where
  "sys m = (\<lambda>s. case nd_future s of
       [] \<Rightarrow> m s
     | (d, b) # fs \<Rightarrow> m (s\<lparr>nd_future := fs, nd_box := b,
                         nd_world := (nd_world s)\<lparr>w_now := w_now (nd_world s) + int d\<rparr>\<rparr>))"

text \<open>\<open>time.time()\<close>, \<open>time.monotonic()\<close> and the current second of \<open>time.strftime\<close>.\<close>

definition wall :: "(node, int) io" where
  "wall = gets (\<lambda>s. w_now (nd_world s))"

definition mono_at :: "node \<Rightarrow> int" where
  "mono_at s = w_now (nd_world s) - nd_boot s"

definition monotonic :: "(node, int) io" where
  "monotonic = gets mono_at"

definition to_second :: "int \<Rightarrow> int" where
  "to_second n = n - n mod 1000000"

definition look :: "(machine \<Rightarrow> 'a) \<Rightarrow> (node, 'a) io" where
  "look f = sys (gets (\<lambda>s. f (nd_box s)))"

definition dir_of :: "machine \<Rightarrow> string \<Rightarrow> vm_dir" where
  "dir_of b tid = (case bx_dirs b of None \<Rightarrow> no_dir
     | Some ds \<Rightarrow> (case map_of ds tid of None \<Rightarrow> no_dir | Some d \<Rightarrow> d))"

definition look_vm :: "string \<Rightarrow> (vm_dir \<Rightarrow> 'a) \<Rightarrow> (node, 'a) io" where
  "look_vm tid f = look (\<lambda>b. f (dir_of b tid))"

definition timeout_expired :: exn where
  "timeout_expired = PyError OtherError ''Command timed out''"

definition not_started :: exn where
  "not_started = PyError OSError ''No such file or directory''"

text \<open>\<open>subprocess.run\<close> of a command that only asks.\<close>

definition finished :: "cmd_result \<Rightarrow> exn + int \<times> string" where
  "finished r = (case r of Exit rc out \<Rightarrow> Inr (rc, out) | TimedOut \<Rightarrow> Inl timeout_expired | NotStarted \<Rightarrow> Inl not_started)"

definition ask :: "(machine \<Rightarrow> cmd_result) \<Rightarrow> (node, int \<times> string) io" where
  "ask f = andThen (look f) (\<lambda>r. lift_sum (finished r))"

text \<open>A command that changes something is logged once it has started.\<close>

definition act :: "string \<Rightarrow> string list \<Rightarrow> (machine \<Rightarrow> cmd_result) \<Rightarrow> (node, int \<times> string) io" where
  "act tid argv f = andThen (look f) (\<lambda>r.
     andThen (whenever (r \<noteq> NotStarted) (modify (\<lambda>s. s\<lparr>nd_cmds := nd_cmds s @ [(tid, argv)]\<rparr>))) (\<lambda>_.
     lift_sum (finished r)))"

text \<open>\<open>open\<close> and \<open>json.load\<close> of vm.json.\<close>

definition read_config :: "string \<Rightarrow> (node, vm_config) io" where
  "read_config tid = andThen (look_vm tid vd_config) (\<lambda>r. lift_sum (case r of None \<Rightarrow> Inl not_started | Some x \<Rightarrow> x))"

definition or_else :: "'a option \<Rightarrow> 'a \<Rightarrow> 'a" where
  "or_else v d = (case v of None \<Rightarrow> d | Some x \<Rightarrow> x)"

text \<open>\<open>subprocess.Popen\<close> does not wait for the script.\<close>

definition spawn :: "string \<Rightarrow> string list \<Rightarrow> (machine \<Rightarrow> cmd_result) \<Rightarrow> (node, unit) io" where
  "spawn tid argv f = andThen (look f) (\<lambda>r. if r = NotStarted then raise not_started
     else modify (\<lambda>s. s\<lparr>nd_cmds := nd_cmds s @ [(tid, argv)]\<rparr>))"

section \<open>Supervision\<close>

definition is_migrating :: "agent_cfg \<Rightarrow> string \<Rightarrow> (node, bool) io" where
  "is_migrating a tid = andThen wall (\<lambda>n.
     andThen (look_vm tid vd_migrating) (\<lambda>mtime. case mtime of
       None \<Rightarrow> ok False
     | Some m \<Rightarrow> if n - m > seconds (ag_sentinel_ttl a) then ok False else ok True))"

definition net_dead_threshold :: nat where
  "net_dead_threshold = 3"

definition register_net_poll :: "string \<Rightarrow> bool \<Rightarrow> (node, bool) io" where
  "register_net_poll tid guest_reachable = (\<lambda>s.
     if guest_reachable then (Inr False, s\<lparr>nd_net_dead := (nd_net_dead s)(tid := None)\<rparr>)
     else (let n = or_else (nd_net_dead s tid) 0 + 1 in
       if n \<ge> net_dead_threshold then (Inr True, s\<lparr>nd_net_dead := (nd_net_dead s)(tid := None)\<rparr>)
       else (Inr False, s\<lparr>nd_net_dead := (nd_net_dead s)(tid \<mapsto> n)\<rparr>)))"

definition launch_argv :: "string \<Rightarrow> vm_config \<Rightarrow> string list" where
  "launch_argv tid cfg = [''bash'', ''/home/ubuntu/launch-vm.sh'', tid, show_int (or_else (vj_vm_num cfg) 1),
     show_int (or_else (vj_vcpu cfg) 2), show_int (or_else (vj_mem_mb cfg) 4096)]"

definition stop_argv :: "string \<Rightarrow> vm_config \<Rightarrow> string list" where
  "stop_argv tid cfg = [''bash'', ''/home/ubuntu/stop-vm.sh'', tid, show_int (or_else (vj_vm_num cfg) 1)]"

definition add_recovering :: "string \<Rightarrow> (node, unit) io" where
  "add_recovering tid = modify (\<lambda>s. s\<lparr>nd_recovering := insert tid (nd_recovering s)\<rparr>)"

definition discard_recovering :: "string \<Rightarrow> (node, unit) io" where
  "discard_recovering tid = modify (\<lambda>s. s\<lparr>nd_recovering := nd_recovering s - {tid}\<rparr>)"

definition recover_vm :: "string \<Rightarrow> vm_config \<Rightarrow> (node, unit) io" where
  "recover_vm tid cfg = andThen (gets nd_recovering) (\<lambda>busy. if tid \<in> busy then ok ()
     else andThen (add_recovering tid) (\<lambda>_.
       try_except (spawn tid (launch_argv tid cfg) bx_launch) (\<lambda>_. discard_recovering tid)))"

definition force_relaunch_vm :: "string \<Rightarrow> vm_config \<Rightarrow> (node, unit) io" where
  "force_relaunch_vm tid cfg = andThen (gets nd_recovering) (\<lambda>busy. if tid \<in> busy then ok ()
     else andThen (add_recovering tid) (\<lambda>_.
       try_except (andThen (act tid (stop_argv tid cfg) bx_stop) (\<lambda>_. spawn tid (launch_argv tid cfg) bx_launch))
         (\<lambda>_. discard_recovering tid)))"

definition probed :: "string \<Rightarrow> string \<Rightarrow> string \<Rightarrow> int option \<Rightarrow> probe_info" where
  "probed vm app ip pid = \<lparr>pi_vm = vm, pi_app = app, pi_ip = ip, pi_pid = pid, pi_metrics = None, pi_updated = None\<rparr>"

text \<open>The process id from the output of \<open>pgrep\<close>, if there is one.\<close>

definition first_pid :: "int \<times> string \<Rightarrow> int option" where
  "first_pid r = (case r of (rc, out) \<Rightarrow>
     if rc \<noteq> 0 then None else (case words (strip out) of [] \<Rightarrow> None | w # ws \<Rightarrow> parse_int w))"

definition succeeds :: "string \<Rightarrow> (vm_dir \<Rightarrow> cmd_result) \<Rightarrow> (node, bool) io" where
  "succeeds tid f = try_except (andThen (ask (\<lambda>b. f (dir_of b tid))) (\<lambda>r. ok (fst r = 0))) (\<lambda>_. ok False)"

text \<open>
  A VM whose Firecracker process runs: the ping decides between up and down, and the third failed
  poll in a row rebuilds the VM.
\<close>

definition probe_guest :: "string \<Rightarrow> vm_config \<Rightarrow> string \<Rightarrow> int \<Rightarrow> (node, probe_info) io" where
  "probe_guest tid cfg ip pid = andThen (discard_recovering tid) (\<lambda>_.
     andThen (succeeds tid vd_ping) (\<lambda>reachable.
       if reachable
       then andThen (register_net_poll tid True) (\<lambda>_.
            andThen (succeeds tid vd_curl) (\<lambda>serving.
            ok (probed ''up'' (if serving then ''up'' else ''down'') ip (Some pid))))
       else andThen (register_net_poll tid False) (\<lambda>dead.
            if dead then andThen (force_relaunch_vm tid cfg) (\<lambda>_. ok (probed ''recovering'' ''down'' ip None))
            else ok (probed ''down'' ''down'' ip (Some pid)))))"

text \<open>
  One entry of the VM directory; \<open>None\<close> where the loop goes on without a result. A VM without a
  Firecracker process is launched, unless that is under way.
\<close>

definition probe_process :: "string \<Rightarrow> vm_config \<Rightarrow> string \<Rightarrow> (node, probe_info) io" where
  "probe_process tid cfg ip = andThen (ask (\<lambda>b. vd_pgrep (dir_of b tid))) (\<lambda>r. case first_pid r of
       None \<Rightarrow> andThen (recover_vm tid cfg) (\<lambda>_. ok (probed ''recovering'' ''down'' ip None))
     | Some pid \<Rightarrow> probe_guest tid cfg ip pid)"

definition probe_vm :: "agent_cfg \<Rightarrow> string \<Rightarrow> (node, probe_info option) io" where
  "probe_vm a tid = andThen (look_vm tid (\<lambda>d. vd_config d \<noteq> None)) (\<lambda>is_file. if \<not> is_file then ok None
     else andThen (try_except (andThen (read_config tid) (\<lambda>cfg. ok (Some cfg))) (\<lambda>_. ok None)) (\<lambda>config. case config of
       None \<Rightarrow> ok None
     | Some cfg \<Rightarrow> (let ip = or_else (vj_guest_ip cfg) '''' in if ip = [] then ok None
         else andThen (look_vm tid vd_stopped) (\<lambda>stopped. if stopped then ok None
         else andThen (is_migrating a tid) (\<lambda>migrating.
           if migrating then ok (Some (probed ''migrating'' ''down'' '''' None))
           else andThen (probe_process tid cfg ip) (\<lambda>i. ok (Some i)))))))"

definition probe_into :: "agent_cfg \<Rightarrow> string \<Rightarrow> (string \<times> probe_info) list \<Rightarrow> (node, (string \<times> probe_info) list) io" where
  "probe_into a tid results = andThen (probe_vm a tid) (\<lambda>i. case i of
       None \<Rightarrow> ok results
     | Some x \<Rightarrow> ok (AList.update tid x results))"

definition probe_all :: "agent_cfg \<Rightarrow> (node, (string \<times> probe_info) list) io" where
  "probe_all a = andThen (look bx_dirs) (\<lambda>entries. case entries of
       None \<Rightarrow> ok []
     | Some ds \<Rightarrow> fold_io (probe_into a) (map fst ds) [])"

section \<open>Frames\<close>

text \<open>The machine states a run can see: the present one and those to come.\<close>

definition boxes :: "node \<Rightarrow> machine set" where
  "boxes s = insert (nd_box s) (snd ` set (nd_future s))"

text \<open>The state when a system call is made: the host has gone on.\<close>

definition turned :: "node \<Rightarrow> node" where
  "turned s = (case nd_future s of
       [] \<Rightarrow> s
     | (d, b) # fs \<Rightarrow> s\<lparr>nd_future := fs, nd_box := b, nd_world := (nd_world s)\<lparr>w_now := w_now (nd_world s) + int d\<rparr>\<rparr>)"

lemma sys_turned: "sys m s = m (turned s)"
  by (simp add: sys_def turned_def split: list.split prod.split)

lemma turned_same [simp]:
  "nd_boot (turned s) = nd_boot s" "nd_cmds (turned s) = nd_cmds s" "nd_recovering (turned s) = nd_recovering s"
  "nd_net_dead (turned s) = nd_net_dead s" "nd_promoted (turned s) = nd_promoted s"
  "nd_last_write (turned s) = nd_last_write s" "nd_cpu (turned s) = nd_cpu s" "nd_status (turned s) = nd_status s"
  "nd_last_sync (turned s) = nd_last_sync s" "nd_peer_hash (turned s) = nd_peer_hash s"
  "nd_failures (turned s) = nd_failures s" "nd_last_success (turned s) = nd_last_success s"
  "nd_entries (turned s) = nd_entries s" "nd_peers (turned s) = nd_peers s" "nd_loaded (turned s) = nd_loaded s"
  "nd_ready (turned s) = nd_ready s"
  by (simp_all add: turned_def split: list.split)

lemma turned_tables [simp]:
  "w_tenants (nd_world (turned s)) = w_tenants (nd_world s)" "w_hosts (nd_world (turned s)) = w_hosts (nd_world s)"
  "w_oracle (nd_world (turned s)) = w_oracle (nd_world s)"
  by (simp_all add: turned_def split: list.split)

lemma turned_boxes: "boxes (turned s) \<subseteq> boxes s" "nd_box (turned s) \<in> boxes s"
  by (auto simp: boxes_def turned_def split: list.split)

lemma look_turned: "look f s = (Inr (f (nd_box (turned s))), turned s)"
  by (simp add: look_def sys_turned gets_apply)

lemma turned_still [simp]: "nd_future s = [] \<Longrightarrow> turned s = s"
  by (simp add: turned_def)

locale agent_frame = frame R for R :: "node \<Rightarrow> node \<Rightarrow> bool" +
  assumes frame_turn: "R s (turned s)"
begin

lemma keeps_sys [keeps_rules]: "keeps R m \<Longrightarrow> keeps R (sys m)"
  by (rule keepsI) (metis frame_trans frame_turn keeps_def sys_turned)

lemma keeps_looks [keeps_rules]: "keeps R (look f)" "keeps R (look_vm tid g)"
  unfolding look_vm_def look_def by (intro keeps_rules)+

lemma keeps_clocks [keeps_rules]: "keeps R wall" "keeps R monotonic"
  unfolding wall_def monotonic_def by (intro keeps_rules)+

lemma keeps_questions [keeps_rules]:
  "keeps R (ask f)" "keeps R (read_config tid)" "keeps R (is_migrating a tid)" "keeps R (succeeds tid g)"
  unfolding ask_def read_config_def is_migrating_def succeeds_def by (intro keeps_rules)+

end

lemma keeps_on_world:
  "(\<And>s r w. m (nd_world s) = (r, w) \<Longrightarrow> R s (s\<lparr>nd_world := w\<rparr>)) \<Longrightarrow> keeps R (on_world m)"
  by (rule keepsI) (simp add: on_world_def split: prod.split)

text \<open>
  A relation that does not look at the log of commands, the supervision variables and the CPU samples
  is kept by every probe.
\<close>

locale memory_blind = agent_frame +
  assumes frame_cmds: "R s (s\<lparr>nd_cmds := cs\<rparr>)"
    and frame_recovering: "R s (s\<lparr>nd_recovering := rs\<rparr>)"
    and frame_net_dead: "R s (s\<lparr>nd_net_dead := ds\<rparr>)"
    and frame_cpu: "R s (s\<lparr>nd_cpu := cpu\<rparr>)"
begin

lemma keeps_commands [keeps_rules]: "keeps R (act tid argv f)" "keeps R (spawn tid argv f)"
  unfolding act_def spawn_def by (intro keeps_rules; simp add: keeps_def frame_cmds)+

lemma keeps_supervision [keeps_rules]:
  "keeps R (register_net_poll tid b)" "keeps R (add_recovering tid)" "keeps R (discard_recovering tid)"
  by (simp_all add: keeps_def register_net_poll_def add_recovering_def discard_recovering_def Let_def
      frame_net_dead frame_recovering)

lemma keeps_probe_all [keeps_rules]: "keeps R (probe_all a)"
  unfolding probe_all_def probe_into_def probe_vm_def probe_process_def probe_guest_def recover_vm_def
    force_relaunch_vm_def Let_def
  by (intro keeps_rules)

end

text \<open>A relation between worlds, seen on the nodes that share them.\<close>

definition seen :: "(world \<Rightarrow> world \<Rightarrow> bool) \<Rightarrow> node \<Rightarrow> node \<Rightarrow> bool" where
  "seen R s t = R (nd_world s) (nd_world t)"

lemma keeps_seen [keeps_rules]: "keeps R m \<Longrightarrow> keeps (seen R) (on_world m)"
  by (rule keeps_on_world) (auto simp: seen_def dest: keepsD)

sublocale aws_frame \<subseteq> node: memory_blind "seen R"
proof unfold_locales
  show "seen R s (turned s)" for s
    by (simp add: seen_def turned_def frame_refl frame_time split: list.split)
qed (auto simp: seen_def frame_refl intro: frame_trans)

section \<open>Properties\<close>

text \<open>A history of polls, and how often a VM has been missed in a row at its end.\<close>

fun net_polls :: "(string \<times> bool) list \<Rightarrow> (node, unit) io" where
  "net_polls [] = ok ()"
| "net_polls ((tid, b) # ps) = andThen (register_net_poll tid b) (\<lambda>_. net_polls ps)"

definition misses :: "string \<Rightarrow> (string \<times> bool) list \<Rightarrow> nat" where
  "misses tid ps = length (takeWhile (\<lambda>(_, b). \<not> b) (rev (filter (\<lambda>(t, _). t = tid) ps)))"

lemma misses_snoc:
  "misses tid (ps @ [(t, b)]) = (if t \<noteq> tid then misses tid ps else if b then 0 else Suc (misses tid ps))"
  by (simp add: misses_def)

lemma net_polls_append: "net_polls (ps @ qs) = andThen (net_polls ps) (\<lambda>_. net_polls qs)"
  by (induction ps rule: net_polls.induct) (simp_all add: andThen_assoc)

lemma register_counts:
  "or_else (nd_net_dead (snd (register_net_poll x b s)) tid) 0 =
     (if tid \<noteq> x then or_else (nd_net_dead s tid) 0 else if b then 0
      else (let n = Suc (or_else (nd_net_dead s tid) 0) in if n \<ge> 3 then 0 else n))"
  by (auto simp: register_net_poll_def net_dead_threshold_def or_else_def Let_def)

lemma net_polls_counts:
  "nd_net_dead s = Map.empty \<Longrightarrow>
   \<exists>t. net_polls ps s = (Inr (), t) \<and> (\<forall>tid. or_else (nd_net_dead t tid) 0 = misses tid ps mod 3)"
proof (induction ps rule: rev_induct)
  case Nil
  then show ?case by (simp add: ok_apply or_else_def misses_def)
next
  case (snoc p ps)
  obtain x b where p: "p = (x, b)" by (cases p)
  from snoc obtain t where t: "net_polls ps s = (Inr (), t)" "\<forall>tid. or_else (nd_net_dead t tid) 0 = misses tid ps mod 3"
    by blast
  have step: "Suc n mod 3 = (let k = Suc (n mod 3) in if k \<ge> 3 then 0 else k)" for n :: nat
    unfolding Let_def by presburger
  have "net_polls (ps @ [p]) s = (Inr (), snd (register_net_poll x b t))"
    using t(1) by (simp add: net_polls_append p andThen_apply ok_apply register_net_poll_def Let_def split: sum.split)
  moreover have "or_else (nd_net_dead (snd (register_net_poll x b t)) tid) 0 = misses tid (ps @ [p]) mod 3" for tid
    using t(2) by (simp add: p misses_snoc register_counts step)
  ultimately show ?case by blast
qed

text \<open>
  The detector of dead guest networks: after any history of polls since the agent started, of this
  VM and of others, the next poll of the VM asks for a rebuild exactly if the guest is unreachable and
  the number of its unreachable polls in a row is a multiple of three.
\<close>

theorem network_rebuilt_every_third_miss:
  "nd_net_dead s = Map.empty \<Longrightarrow>
   fst (andThen (net_polls ps) (\<lambda>_. register_net_poll tid b) s) = Inr (\<not> b \<and> 3 dvd Suc (misses tid ps))"
proof -
  assume "nd_net_dead s = Map.empty"
  from net_polls_counts [OF this, of ps] obtain t where
    t: "net_polls ps s = (Inr (), t)" "or_else (nd_net_dead t tid) 0 = misses tid ps mod 3" by blast
  have "3 dvd Suc (misses tid ps) \<longleftrightarrow> Suc (misses tid ps mod 3) \<ge> 3" by presburger
  then show ?thesis using t by (simp add: andThen_apply register_net_poll_def net_dead_threshold_def Let_def)
qed

theorem network_rebuilt_every_third_miss_witness:
  "fst (andThen (net_polls [(''t-1'', False), (''t-2'', True), (''t-1'', False)]) (\<lambda>_. register_net_poll ''t-1'' False) node0) = Inr True"
proof -
  have "nd_net_dead node0 = Map.empty" by (simp add: node0_def)
  moreover have "3 dvd Suc (misses ''t-1'' [(''t-1'', False), (''t-2'', True), (''t-1'', False)])"
    by (simp add: misses_def eval_nat_numeral)
  ultimately show ?thesis
    using network_rebuilt_every_third_miss [of node0 "[(''t-1'', False), (''t-2'', True), (''t-1'', False)]" "''t-1''" False]
    by (simp del: net_polls.simps)
qed

end
