(* ===== verification/AgentMetrics.thy ===== *)
theory AgentMetrics
  imports Agent
begin

text \<open>
  What the agent measures (userdata/host-agent.py): disk usage from \<^verbatim>\<open>dumpe2fs\<close>, memory and CPU from
  \<^verbatim>\<open>/proc\<close>, the balloon statistics and the adjustment of the balloons to the memory of the host, and
  the text the metrics endpoint serves.
\<close>

section \<open>Numbers\<close>

text \<open>\<open>a / b\<close> of two integers: the exact quotient, rounded once.\<close>

definition true_div :: "int \<Rightarrow> int \<Rightarrow> pyfloat" where
  "true_div a b = fdiv (PyFloat a 0) (PyFloat b 0)"

text \<open>
  A JSON value as an operand of integer arithmetic. Firecracker reports integers; any other number
  is treated like a value that is no number.
\<close>

fun whole :: "json \<Rightarrow> exn + int" where
  "whole (JInt i) = Inr i"
| "whole (JBool b) = Inr (if b then 1 else 0)"
| "whole v = Inl (PyError TypeError ''unsupported operand type(s)'')"

definition mib :: int where
  "mib = 1024 * 1024"

section \<open>Disk\<close>

text \<open>\<open>re.match("^<key>\\s+(\\d+)", line)\<close>, with the number.\<close>

definition match_number :: "string \<Rightarrow> string \<Rightarrow> int option" where
  "match_number key l = (if \<not> prefix key l then None
     else (let rest = drop (length key) l; digits = takeWhile is_digit (dropWhile is_space rest) in
       if takeWhile is_space rest = [] \<or> digits = [] then None else map_option int (digits_val 0 digits)))"

text \<open>The loop keeps the last block count, block size and number of free blocks it has met.\<close>

fun dumpe2fs_line :: "string \<Rightarrow> int option \<times> int option \<times> int option \<Rightarrow> int option \<times> int option \<times> int option" where
  "dumpe2fs_line l (bc, bs, fb) = (case match_number ''Block count:'' l of Some n \<Rightarrow> (Some n, bs, fb)
     | None \<Rightarrow> (case match_number ''Block size:'' l of Some n \<Rightarrow> (bc, Some n, fb)
     | None \<Rightarrow> (case match_number ''Free blocks:'' l of Some n \<Rightarrow> (bc, bs, Some n)
     | None \<Rightarrow> (bc, bs, fb))))"

definition parse_dumpe2fs_blocks :: "string \<Rightarrow> int \<times> int" where
  "parse_dumpe2fs_blocks output = (case fold dumpe2fs_line (splitlines output) (None, None, None) of
       (Some block_count, Some block_size, Some free_blocks) \<Rightarrow>
         (let total_bytes = block_count * block_size; used_bytes = (block_count - free_blocks) * block_size
          in (used_bytes div mib, total_bytes div mib))
     | _ \<Rightarrow> (0, 0))"

definition disk_pct :: "int \<Rightarrow> int \<Rightarrow> int" where
  "disk_pct used size_mb = (if size_mb = 0 then 0 else int_of_float (true_div (used * 100) size_mb))"

definition get_disk_usage :: "string \<Rightarrow> (node, int \<times> int \<times> int) io" where
  "get_disk_usage tid = andThen (look_vm tid vd_disk) (\<lambda>exists. if \<not> exists then ok (0, 0, 0)
     else try_except (andThen (ask (\<lambda>b. vd_dumpe2fs (dir_of b tid))) (\<lambda>(rc, out). if rc \<noteq> 0 then ok (0, 0, 0)
       else (case parse_dumpe2fs_blocks out of (used, size_mb) \<Rightarrow> ok (used, size_mb, disk_pct used size_mb))))
       (\<lambda>_. ok (0, 0, 0)))"

section \<open>Balloon statistics\<close>

definition get_balloon_stats :: "agent_cfg \<Rightarrow> string \<Rightarrow> (node, json option) io" where
  "get_balloon_stats a tid = try_except
     (andThen (ask (\<lambda>b. vd_balloon (dir_of b tid))) (\<lambda>(rc, out).
       if rc = 0 \<and> strip out \<noteq> [] then (case ag_parse a out of None \<Rightarrow> raise (PyError JSONDecodeError '''') | Some j \<Rightarrow> ok (Some j))
       else ok None))
     (\<lambda>_. ok None)"

text \<open>\<open>if not stats\<close>.\<close>

definition no_stats :: "json option \<Rightarrow> bool" where
  "no_stats stats = (case stats of None \<Rightarrow> True | Some j \<Rightarrow> \<not> truthy j)"

text \<open>\<open>stats.get("stats", {}).get("available_memory", 0) // (1024 * 1024)\<close> and \<open>stats.get("actual_mib", 0)\<close>.\<close>

definition available_mb :: "json \<Rightarrow> exn + int" where
  "available_mb stats = bind_sum (get_or stats ''stats'' (JObj [])) (\<lambda>inner.
     bind_sum (get_or inner ''available_memory'' (JInt 0)) (\<lambda>v.
     bind_sum (whole v) (\<lambda>bytes. Inr (bytes div mib))))"

definition actual_mib :: "json \<Rightarrow> exn + int" where
  "actual_mib stats = bind_sum (get_or stats ''actual_mib'' (JInt 0)) whole"

definition get_memory_usage :: "json option \<Rightarrow> int \<Rightarrow> exn + int \<times> int" where
  "get_memory_usage stats vm_mem_mb = (case stats of
       None \<Rightarrow> Inr (0, 0)
     | Some j \<Rightarrow> if \<not> truthy j then Inr (0, 0)
         else bind_sum (available_mb j) (\<lambda>available.
              bind_sum (actual_mib j) (\<lambda>balloon. Inr (max 0 (vm_mem_mb - available), balloon))))"

section \<open>CPU and memory of a process\<close>

text \<open>The text after the last closing parenthesis of \<^verbatim>\<open>/proc/<pid>/stat\<close>; fields 14 and 15 of the line.\<close>

definition after_last :: "char \<Rightarrow> string \<Rightarrow> string option" where
  "after_last c s = (if c \<in> set s then Some (rev (takeWhile (\<lambda>x. x \<noteq> c) (rev s))) else None)"

definition stat_jiffies :: "string \<Rightarrow> int option" where
  "stat_jiffies l = (case after_last CHR '')'' l of None \<Rightarrow> None
     | Some rest \<Rightarrow> (let fields = words rest in
         if length fields \<le> 12 then None
         else (case (parse_int (fields ! 11), parse_int (fields ! 12)) of (Some u, Some t) \<Rightarrow> Some (u + t) | _ \<Rightarrow> None)))"

definition read_proc_stat_cpu_jiffies :: "int option \<Rightarrow> (node, int option) io" where
  "read_proc_stat_cpu_jiffies pid = (case pid of None \<Rightarrow> ok None
     | Some p \<Rightarrow> if p = 0 then ok None
         else andThen (look (\<lambda>b. bx_stat b p)) (\<lambda>r. andThen (lift_sum r) (\<lambda>content. case content of
           None \<Rightarrow> ok None | Some l \<Rightarrow> ok (stat_jiffies l))))"

text \<open>The first \<open>VmRSS:\<close> line with a second word decides.\<close>

fun status_rss :: "string list \<Rightarrow> int option" where
  "status_rss [] = None"
| "status_rss (l # ls) =
     (if prefix ''VmRSS:'' l \<and> length (words l) \<ge> 2 then parse_int (words l ! 1) else status_rss ls)"

definition read_proc_status_rss_kb :: "int option \<Rightarrow> (node, int option) io" where
  "read_proc_status_rss_kb pid = (case pid of None \<Rightarrow> ok None
     | Some p \<Rightarrow> if p = 0 then ok None
         else andThen (look (\<lambda>b. bx_status b p)) (\<lambda>r. andThen (lift_sum r) (\<lambda>content. case content of
           None \<Rightarrow> ok None | Some text \<Rightarrow> ok (status_rss (split_on newline text)))))"

text \<open>The clock is read in seconds as a double.\<close>

definition float_seconds :: "int \<Rightarrow> pyfloat" where
  "float_seconds n = true_div n 1000000"

definition compute_cpu_pct :: "int \<Rightarrow> pyfloat \<Rightarrow> int \<Rightarrow> pyfloat \<Rightarrow> int \<Rightarrow> int \<Rightarrow> int" where
  "compute_cpu_pct prev_jiffies prev_ts cur_jiffies cur_ts vcpu clk_tck =
     (if \<not> fless prev_ts cur_ts then 0
      else if cur_jiffies < prev_jiffies then 0
      else if vcpu = 0 \<or> vcpu \<le> 0 \<or> clk_tck \<le> 0 then 0
      else (let elapsed_s = fsub cur_ts prev_ts;
                cpu_seconds = true_div (cur_jiffies - prev_jiffies) clk_tck;
                pct = int_of_float (fmul (fdiv (fdiv cpu_seconds elapsed_s) (float_of_int vcpu)) (float_of_int 100))
            in max 0 (min 100 pct)))"

definition sample_cpu_pct :: "agent_cfg \<Rightarrow> string \<Rightarrow> int option \<Rightarrow> int \<Rightarrow> (node, int) io" where
  "sample_cpu_pct a tid fc_pid vcpu = andThen monotonic (\<lambda>n.
     andThen (read_proc_stat_cpu_jiffies fc_pid) (\<lambda>cur.
     andThen (gets (\<lambda>s. nd_cpu s tid)) (\<lambda>prev. case cur of
       None \<Rightarrow> ok 0
     | Some cur_jiffies \<Rightarrow>
         (let pct = (case prev of None \<Rightarrow> 0
              | Some (prev_jiffies, prev_ts) \<Rightarrow>
                  compute_cpu_pct prev_jiffies prev_ts cur_jiffies (float_seconds n) vcpu (ag_clk_tck a))
          in andThen (modify (\<lambda>s. s\<lparr>nd_cpu := (nd_cpu s)(tid \<mapsto> (cur_jiffies, float_seconds n))\<rparr>)) (\<lambda>_. ok pct)))))"

section \<open>The metrics of a VM\<close>

definition compose_metrics :: "agent_cfg \<Rightarrow> string \<Rightarrow> int \<Rightarrow> int option \<Rightarrow> int \<Rightarrow> (node, metrics) io" where
  "compose_metrics a tid vm_mem_mb fc_pid vcpu =
     andThen (sample_cpu_pct a tid fc_pid vcpu) (\<lambda>cpu_pct.
     andThen (read_proc_status_rss_kb fc_pid) (\<lambda>rss_kb.
     (let rss_mb = or_else rss_kb 0 div 1024 in
     andThen (get_balloon_stats a tid) (\<lambda>stats.
     andThen (lift_sum (get_memory_usage stats vm_mem_mb)) (\<lambda>(balloon_used, balloon_mib).
     andThen (get_disk_usage tid) (\<lambda>(disk_used, disk_total, pct).
     ok [(''memory_used_mb'', if rss_mb = 0 then balloon_used else rss_mb), (''memory_balloon_mib'', balloon_mib),
         (''disk_used_mb'', disk_used), (''disk_total_mb'', disk_total), (''disk_used_pct'', pct), (''cpu_pct'', cpu_pct)]))))))"

text \<open>The declared memory and CPU count, with their defaults when vm.json cannot be read.\<close>

definition declared_size :: "string \<Rightarrow> (node, int \<times> int) io" where
  "declared_size tid = try_except
     (andThen (read_config tid) (\<lambda>cfg. let v = or_else (vj_vcpu cfg) 1 in
        ok (or_else (vj_mem_mb cfg) 4096, if v = 0 then 1 else v)))
     (\<lambda>_. ok (4096, 1))"

definition enrich_one :: "agent_cfg \<Rightarrow> string \<times> probe_info \<Rightarrow> (node, string \<times> probe_info) io" where
  "enrich_one a ti = (case ti of (tid, info) \<Rightarrow>
     if pi_vm info \<noteq> ''up'' then ok (tid, info)
     else andThen (declared_size tid) (\<lambda>(vm_mem_mb, vm_vcpu).
       try_except (andThen (compose_metrics a tid vm_mem_mb (pi_pid info) vm_vcpu) (\<lambda>m.
           ok (tid, info\<lparr>pi_metrics := Some m\<rparr>)))
         (\<lambda>_. ok (tid, info))))"

primrec map_io :: "('a \<Rightarrow> ('s, 'b) io) \<Rightarrow> 'a list \<Rightarrow> ('s, 'b list) io" where
  "map_io f [] = ok []"
| "map_io f (x # xs) = andThen (f x) (\<lambda>y. andThen (map_io f xs) (\<lambda>ys. ok (y # ys)))"

definition enrich_metrics :: "agent_cfg \<Rightarrow> (string \<times> probe_info) list \<Rightarrow> (node, (string \<times> probe_info) list) io" where
  "enrich_metrics a results = map_io (enrich_one a) results"

section \<open>Balloons\<close>

definition sock_path :: "string \<Rightarrow> string" where
  "sock_path tid = ''/data/firecracker-vms/'' @ tid @ ''/fc.sock''"

definition balloon_argv :: "string \<Rightarrow> int \<Rightarrow> string list" where
  "balloon_argv sock amount_mib = [''curl'', ''-sf'', ''--unix-socket'', sock, ''-X'', ''PATCH'',
     ''http://localhost/balloon'', ''-H'', ''Content-Type: application/json'', ''-d'',
     CHR ''{'' # CHR 0x22 # ''amount_mib'' @ [CHR 0x22] @ '': '' @ show_int amount_mib @ ''}'']"

definition set_balloon_target :: "string \<Rightarrow> int \<Rightarrow> (node, unit) io" where
  "set_balloon_target tid amount_mib =
     best_effort (andThen (act tid (balloon_argv (sock_path tid) amount_mib) bx_patch) (\<lambda>_. ok ()))"

text \<open>\<^verbatim>\<open>/proc/meminfo\<close>: the last line of a name counts, a number that does not parse spoils all.\<close>

definition strip_colons :: "string \<Rightarrow> string" where
  "strip_colons s = rev (dropWhile (\<lambda>c. c = CHR '':'') (rev s))"

fun meminfo_lines :: "string list \<Rightarrow> (string \<times> int) list \<Rightarrow> (string \<times> int) list option" where
  "meminfo_lines [] info = Some info"
| "meminfo_lines (l # ls) info = (let parts = words l in
     if length parts < 2 then meminfo_lines ls info
     else (case parse_int (parts ! 1) of None \<Rightarrow> None
       | Some n \<Rightarrow> meminfo_lines ls (AList.update (strip_colons (parts ! 0)) n info)))"

definition host_memory :: "string \<Rightarrow> int \<times> int" where
  "host_memory text = (case meminfo_lines (split_on newline text) [] of
       None \<Rightarrow> (0, 0)
     | Some info \<Rightarrow> (or_else (map_of info ''MemTotal'') 0 div 1024, or_else (map_of info ''MemAvailable'') 0 div 1024))"

definition get_host_mem_info :: "(node, int \<times> int) io" where
  "get_host_mem_info = andThen (look bx_meminfo) (\<lambda>r. ok (case r of Inl e \<Rightarrow> (0, 0) | Inr text \<Rightarrow> host_memory text))"

text \<open>What the balloon of a VM shall become, from the memory of the host and of the guest.\<close>

definition low_memory :: pyfloat where
  "low_memory = true_div 20 100"

definition plenty_memory :: pyfloat where
  "plenty_memory = true_div 40 100"

definition balloon_target :: "agent_cfg \<Rightarrow> pyfloat \<Rightarrow> int \<Rightarrow> int \<Rightarrow> int \<Rightarrow> int option" where
  "balloon_target a host_pressure vm_mem_mb current available =
     (if fless host_pressure low_memory
      then (let reclaimable = available - ag_min_guest a; max_balloon = int_of_float (fmul (float_of_int vm_mem_mb) (ag_max_ratio a));
                target = min (current + reclaimable) max_balloon
            in if reclaimable > 0 \<and> target > current then Some target else None)
      else if fless plenty_memory host_pressure then (if current > 0 then Some 0 else None)
      else None)"

definition adjust_one :: "agent_cfg \<Rightarrow> pyfloat \<Rightarrow> string \<times> probe_info \<Rightarrow> (node, unit) io" where
  "adjust_one a host_pressure ti = (case ti of (tid, info) \<Rightarrow>
     if pi_vm info \<noteq> ''up'' then ok ()
     else andThen (is_migrating a tid) (\<lambda>migrating. if migrating then ok ()
     else andThen (look_vm tid vd_sock) (\<lambda>exists. if \<not> exists then ok ()
     else andThen (try_except (andThen (read_config tid) (\<lambda>cfg. ok (Some cfg))) (\<lambda>_. ok None)) (\<lambda>config. case config of
       None \<Rightarrow> ok ()
     | Some cfg \<Rightarrow> andThen (get_balloon_stats a tid) (\<lambda>stats. if no_stats stats then ok ()
         else andThen (lift_sum (actual_mib (the stats))) (\<lambda>current.
              andThen (lift_sum (available_mb (the stats))) (\<lambda>available.
              (case balloon_target a host_pressure (or_else (vj_mem_mb cfg) 4096) current available of
                 None \<Rightarrow> ok ()
               | Some target \<Rightarrow> set_balloon_target tid target))))))))"

definition adjust_balloons :: "agent_cfg \<Rightarrow> (string \<times> probe_info) list \<Rightarrow> (node, unit) io" where
  "adjust_balloons a results = (if \<not> ag_balloon a then ok ()
     else andThen get_host_mem_info (\<lambda>(host_total, available). if host_total = 0 then ok ()
       else for_each results (adjust_one a (true_div available host_total))))"

section \<open>The shape of the metrics\<close>

definition metric_keys :: "string list" where
  "metric_keys = [''memory_used_mb'', ''memory_balloon_mib'', ''disk_used_mb'', ''disk_total_mb'', ''disk_used_pct'', ''cpu_pct'']"

definition well_formed_metrics :: "metrics \<Rightarrow> bool" where
  "well_formed_metrics m = (map fst m = metric_keys \<and> (case map_of m ''cpu_pct'' of None \<Rightarrow> False | Some v \<Rightarrow> 0 \<le> v \<and> v \<le> 100))"

lemma cpu_pct_range: "0 \<le> compute_cpu_pct j t j' t' v clk" "compute_cpu_pct j t j' t' v clk \<le> 100"
  by (simp_all add: compute_cpu_pct_def Let_def)

lemma sampled_range:
  assumes "sample_cpu_pct a tid pid v s = (Inr x, t)"
  shows "0 \<le> x \<and> x \<le> 100"
  using assms by (auto simp: sample_cpu_pct_def io_inv Let_def cpu_pct_range split: option.splits)

lemma composed_shape:
  assumes "compose_metrics a tid mem pid v s = (Inr m, t)"
  shows "well_formed_metrics m"
proof -
  obtain cpu s1 where "sample_cpu_pct a tid pid v s = (Inr cpu, s1)" "well_formed_metrics m \<longleftrightarrow> 0 \<le> cpu \<and> cpu \<le> 100"
    using assms by (auto simp: compose_metrics_def andThen_Inr case_prod_io Let_def well_formed_metrics_def metric_keys_def)
  then show ?thesis using sampled_range by blast
qed

definition enriched :: "string \<times> probe_info \<Rightarrow> string \<times> probe_info \<Rightarrow> bool" where
  "enriched x y = (fst y = fst x \<and> (snd y = snd x \<or>
     (\<exists>m. pi_vm (snd x) = ''up'' \<and> well_formed_metrics m \<and> snd y = (snd x)\<lparr>pi_metrics := Some m\<rparr>)))"

lemma enrich_one_shape: "\<exists>y t. enrich_one a x s = (Inr y, t) \<and> enriched x y"
proof -
  obtain tid info where x: "x = (tid, info)" by (cases x)
  show ?thesis
  proof (cases "pi_vm info = ''up''")
    case False
    then show ?thesis using x by (simp add: enrich_one_def ok_apply enriched_def)
  next
    case True
    have "\<exists>r. fst (declared_size tid s) = Inr r"
      unfolding declared_size_def by (rule try_except_total) simp
    then obtain mem v s1 where d: "declared_size tid s = (Inr (mem, v), s1)" by (metis prod.collapse)
    obtain r s2 where c: "compose_metrics a tid mem (pi_pid info) v s1 = (r, s2)" by (metis prod.collapse)
    have run: "enrich_one a x s = (Inr (tid, case r of Inl e \<Rightarrow> info | Inr m \<Rightarrow> info\<lparr>pi_metrics := Some m\<rparr>), s2)"
      using True x d c by (simp add: enrich_one_def io_simps split: sum.split)
    show ?thesis
    proof (cases r)
      case (Inl e)
      then show ?thesis using run x by (simp add: enriched_def)
    next
      case (Inr m)
      then have "well_formed_metrics m" using c composed_shape by simp
      then show ?thesis using run x Inr True by (auto simp: enriched_def)
    qed
  qed
qed

text \<open>
  The metrics of a poll are complete and cannot stop it: whatever the host answers, the enrichment
  returns the probe results in their order, each unchanged or, for a VM that is up, with exactly the six
  metrics under their names and a CPU percentage between 0 and 100.
\<close>

theorem enriched_metrics_typed:
  "\<exists>out t. enrich_metrics a results s = (Inr out, t) \<and> list_all2 enriched results out"
  unfolding enrich_metrics_def
proof (induction results arbitrary: s)
  case Nil
  then show ?case by (simp add: ok_apply)
next
  case (Cons x xs)
  obtain y s1 where y: "enrich_one a x s = (Inr y, s1)" "enriched x y" using enrich_one_shape by blast
  from Cons.IH [of s1] obtain ys s2 where "map_io (enrich_one a) xs s1 = (Inr ys, s2)" "list_all2 enriched xs ys" by blast
  with y show ?case by (simp add: io_simps)
qed

section \<open>Balloons stay within their bounds\<close>

text \<open>
  A balloon command is safe when it sets the size to zero, or enlarges the balloon the VM has reported
  to at most the allowed share of its declared memory and leaves the guest at least the minimum.
\<close>

definition max_balloon :: "agent_cfg \<Rightarrow> vm_config \<Rightarrow> int" where
  "max_balloon a cfg = int_of_float (fmul (float_of_int (or_else (vj_mem_mb cfg) 4096)) (ag_max_ratio a))"

definition safe_size :: "agent_cfg \<Rightarrow> vm_config \<Rightarrow> int \<Rightarrow> int \<Rightarrow> int \<Rightarrow> bool" where
  "safe_size a cfg current available n = (n = 0 \<and> 0 < current \<or>
     current < n \<and> n \<le> max_balloon a cfg \<and> ag_min_guest a \<le> available - (n - current))"

definition config_seen :: "machine set \<Rightarrow> string \<Rightarrow> vm_config \<Rightarrow> bool" where
  "config_seen S tid cfg = (\<exists>b \<in> S. vd_config (dir_of b tid) = Some (Inr cfg))"

definition stats_seen :: "agent_cfg \<Rightarrow> machine set \<Rightarrow> string \<Rightarrow> json \<Rightarrow> bool" where
  "stats_seen a S tid j = (\<exists>b \<in> S. \<exists>out. vd_balloon (dir_of b tid) = Exit 0 out \<and> ag_parse a out = Some j)"

definition safe_command :: "agent_cfg \<Rightarrow> machine set \<Rightarrow> string \<times> string list \<Rightarrow> bool" where
  "safe_command a S c = (\<exists>cfg j current available n. config_seen S (fst c) cfg \<and> stats_seen a S (fst c) j \<and>
     actual_mib j = Inr current \<and> available_mb j = Inr available \<and> safe_size a cfg current available n \<and>
     snd c = balloon_argv (sock_path (fst c)) n)"

lemma target_safe:
  "balloon_target a p (or_else (vj_mem_mb cfg) 4096) current available = Some n \<Longrightarrow> safe_size a cfg current available n"
  by (auto simp: balloon_target_def safe_size_def max_balloon_def Let_def split: if_splits)

definition adds_safe :: "agent_cfg \<Rightarrow> machine set \<Rightarrow> node \<Rightarrow> node \<Rightarrow> bool" where
  "adds_safe a S s t = (boxes s \<subseteq> S \<longrightarrow> boxes t \<subseteq> S \<and> (\<exists>cs. nd_cmds t = nd_cmds s @ cs \<and> list_all (safe_command a S) cs))"

lemma adds_nothing: "boxes t \<subseteq> boxes s \<Longrightarrow> nd_cmds t = nd_cmds s \<Longrightarrow> adds_safe a S s t"
  by (auto simp: adds_safe_def)

interpretation adding: agent_frame "adds_safe a S" for a S
proof unfold_locales
  show "adds_safe a S s t \<Longrightarrow> adds_safe a S t u \<Longrightarrow> adds_safe a S s u" for s t u
    unfolding adds_safe_def by (metis append_assoc list_all_append)
qed (simp_all add: adds_nothing turned_boxes)

text \<open>A step that learns something of the host.\<close>

lemma keeps_learned:
  assumes "keeps (adds_safe a S) m" "\<And>s x t. boxes s \<subseteq> S \<Longrightarrow> m s = (Inr x, t) \<Longrightarrow> K x" "\<And>x. K x \<Longrightarrow> keeps (adds_safe a S) (f x)"
  shows "keeps (adds_safe a S) (andThen m f)"
proof (rule keepsI)
  fix s
  show "adds_safe a S s (snd (andThen m f s))"
  proof (cases "boxes s \<subseteq> S")
    case True
    obtain r t where m: "m s = (r, t)" by (metis prod.collapse)
    have t: "adds_safe a S s t" using assms(1) m by (metis keepsD)
    show ?thesis
    proof (cases r)
      case (Inr x)
      then have "keeps (adds_safe a S) (f x)" using assms(2,3) True m by blast
      then have "adds_safe a S t (snd (f x t))" by (simp add: keeps_def)
      with t have "adds_safe a S s (snd (f x t))" by (rule adding.frame_trans)
      then show ?thesis using m Inr by (simp add: andThen_apply)
    qed (use m t in \<open>simp add: andThen_apply\<close>)
  qed (simp add: adds_safe_def)
qed

lemma config_learned:
  assumes "boxes s \<subseteq> S" "try_except (andThen (read_config tid) (\<lambda>cfg. ok (Some cfg))) (\<lambda>_. ok None) s = (Inr x, t)"
  shows "case x of None \<Rightarrow> True | Some cfg \<Rightarrow> config_seen S tid cfg"
  using assms turned_boxes(2) [of s]
  by (auto simp: read_config_def look_vm_def look_turned config_seen_def io_simps split: option.splits sum.splits)

lemma stats_learned:
  assumes "boxes s \<subseteq> S" "get_balloon_stats a tid s = (Inr x, t)"
  shows "case x of None \<Rightarrow> True | Some j \<Rightarrow> stats_seen a S tid j"
  using assms turned_boxes(2) [of s]
  by (auto simp: get_balloon_stats_def ask_def look_turned finished_def stats_seen_def io_simps
      split: option.splits cmd_result.splits if_splits)

lemma lifted_learned: "lift_sum r s = (Inr x, t) \<Longrightarrow> r = Inr x"
  by (simp add: lift_sum_def)

lemma keeps_stats_adding: "keeps (adds_safe a S) (get_balloon_stats a tid)"
  unfolding get_balloon_stats_def by (intro keeps_rules)

lemma keeps_safe_target:
  assumes "safe_command a S (tid, balloon_argv (sock_path tid) n)"
  shows "keeps (adds_safe a S) (set_balloon_target tid n)"
  unfolding set_balloon_target_def act_def
  by (intro keeps_rules) (use assms in \<open>simp add: keeps_def adds_safe_def boxes_def\<close>)

lemma keeps_adjust: "keeps (adds_safe a S) (adjust_one a p (tid, info))"
proof -
  have final: "keeps (adds_safe a S) (case balloon_target a p (or_else (vj_mem_mb cfg) 4096) current available of
      None \<Rightarrow> ok () | Some target \<Rightarrow> set_balloon_target tid target)"
    if "config_seen S tid cfg" "stats_seen a S tid j" "actual_mib j = Inr current" "available_mb j = Inr available"
    for cfg j current available
  proof (rule adding.keeps_case_option [OF adding.keeps_ok], rule keeps_safe_target)
    fix n
    assume "balloon_target a p (or_else (vj_mem_mb cfg) 4096) current available = Some n"
    from target_safe [OF this] that show "safe_command a S (tid, balloon_argv (sock_path tid) n)"
      unfolding safe_command_def fst_conv snd_conv by blast
  qed
  have stats: "keeps (adds_safe a S) (andThen (get_balloon_stats a tid) (\<lambda>stats. if no_stats stats then ok ()
      else andThen (lift_sum (actual_mib (the stats))) (\<lambda>current. andThen (lift_sum (available_mb (the stats))) (\<lambda>available.
        (case balloon_target a p (or_else (vj_mem_mb cfg) 4096) current available of
           None \<Rightarrow> ok () | Some target \<Rightarrow> set_balloon_target tid target)))))"
    if cfg: "config_seen S tid cfg" for cfg
  proof (rule keeps_learned [OF keeps_stats_adding stats_learned], assumption, assumption, rule adding.keeps_if [OF adding.keeps_ok])
    fix x
    assume x: "case x of None \<Rightarrow> True | Some j \<Rightarrow> stats_seen a S tid j" "\<not> no_stats x"
    then have j: "stats_seen a S tid (the x)" by (cases x) (simp_all add: no_stats_def)
    show "keeps (adds_safe a S) (andThen (lift_sum (actual_mib (the x))) (\<lambda>current. andThen (lift_sum (available_mb (the x))) (\<lambda>available.
        (case balloon_target a p (or_else (vj_mem_mb cfg) 4096) current available of
           None \<Rightarrow> ok () | Some target \<Rightarrow> set_balloon_target tid target))))"
      by (rule keeps_learned [OF adding.keeps_lift_sum lifted_learned], assumption,
          rule keeps_learned [OF adding.keeps_lift_sum lifted_learned], assumption, rule final [OF cfg j])
  qed
  show ?thesis
    unfolding adjust_one_def prod.case
    by (intro adding.keeps_if adding.keeps_ok adding.keeps_andThen [OF adding.keeps_questions(3)]
        adding.keeps_andThen [OF adding.keeps_looks(2)] keeps_learned [OF _ config_learned])
      (auto intro!: keeps_rules stats split: option.split)
qed

text \<open>
  C35. Balloons stay within their bounds: whatever the host answers and however it changes meanwhile, every
  command of an adjustment sets the balloon of a VM to zero, or enlarges it beyond what the VM reported
  to at most the allowed share of the memory in its vm.json and only so far that, by the VM's own
  statistics, the guest keeps the configured minimum.
\<close>

theorem balloons_within_bounds:
  "\<exists>cs. nd_cmds (snd (adjust_balloons a results s)) = nd_cmds s @ cs \<and> list_all (safe_command a (boxes s)) cs"
proof -
  have "keeps (adds_safe a (boxes s)) (adjust_balloons a results)"
    unfolding adjust_balloons_def get_host_mem_info_def
    by (intro keeps_rules) (metis surj_pair keeps_adjust)
  then have "adds_safe a (boxes s) s (snd (adjust_balloons a results s))" by (simp add: keeps_def)
  then show ?thesis by (simp add: adds_safe_def)
qed

text \<open>
  Firecracker's statistics are one flat object, without the inner object \<open>stats\<close> the code looks into. With
  such an answer the guest seems to have no memory to spare, and no balloon is ever enlarged.
\<close>

lemma flat_statistics_available: "map_of kvs ''stats'' = None \<Longrightarrow> available_mb (JObj kvs) = Inr 0"
  by (simp add: available_mb_def get_or_def)

lemma flat_statistics_never_inflate:
  assumes "map_of kvs ''stats'' = None" "0 \<le> ag_min_guest a" "available_mb (JObj kvs) = Inr available"
    "safe_size a cfg current available n"
  shows "n = 0"
  using assms flat_statistics_available by (auto simp: safe_size_def)

end
