(* ===== verification/AgentReport.thy ===== *)
theory AgentReport
  imports AgentMetrics
begin

text \<open>
  What the agent writes to the tables (userdata/host-agent.py): the heartbeat of its host, and the
  health of its tenants, with the promotion of a created tenant to running. A row is written only
  when its health has changed since the last successful write, or when that is long enough ago.
\<close>

section \<open>The heartbeat\<close>

definition heartbeat_row :: "int \<Rightarrow> host \<Rightarrow> host" where
  "heartbeat_row n r = r\<lparr>h_last_seen := Some (At n), h_last_health_check := Some (At n)\<rparr>"

definition write_host_heartbeat :: "agent_cfg \<Rightarrow> (node, unit) io" where
  "write_host_heartbeat a = (if \<not> ag_hosts_table a \<or> ag_instance a = [] then ok ()
     else best_effort (andThen wall (\<lambda>n.
       andThen (on_world (update_host (ag_instance a) no_cond (set_attrs (heartbeat_row (to_second n))))) (\<lambda>_. ok ()))))"

section \<open>The health of the tenants\<close>

definition ddb_refresh :: "agent_cfg \<Rightarrow> int" where
  "ddb_refresh a = min (ag_refresh a) 110"

definition read_gateway_token :: "string \<Rightarrow> (node, string) io" where
  "read_gateway_token tid = try_except (andThen (ask (\<lambda>b. vd_ssh (dir_of b tid))) (\<lambda>r.
     let token = strip (snd r) in ok (if token \<noteq> [] \<and> token \<noteq> ''null'' then token else ''''))) (\<lambda>_. ok '''')"

definition promoted_row :: "probe_info \<Rightarrow> metrics \<Rightarrow> string \<Rightarrow> int \<Rightarrow> tenant \<Rightarrow> tenant" where
  "promoted_row info m token n r = r\<lparr>t_status := Some ''running'', t_vm_health := Some (pi_vm info),
     t_app_health := Some (pi_app info), t_health_failures := Some 0, t_last_health_check := Some (At n),
     t_updated_at := Some (At n), t_gateway_token := Some token, t_metrics := Some m\<rparr>"

definition health_row :: "probe_info \<Rightarrow> metrics option \<Rightarrow> int \<Rightarrow> tenant \<Rightarrow> tenant" where
  "health_row info m n r = (let r1 = r\<lparr>t_vm_health := Some (pi_vm info), t_app_health := Some (pi_app info),
       t_last_health_check := Some (At n)\<rparr>
     in case m of None \<Rightarrow> r1 | Some x \<Rightarrow> r1\<lparr>t_metrics := Some x\<rparr>)"

definition is_creating :: "tenant option \<Rightarrow> bool" where
  "is_creating row = (case row of None \<Rightarrow> False | Some t \<Rightarrow> t_status t = Some ''creating'')"

definition mark_promoted :: "string \<Rightarrow> (node, unit) io" where
  "mark_promoted tid = modify (\<lambda>s. s\<lparr>nd_promoted := insert tid (nd_promoted s)\<rparr>)"

text \<open>\<open>_last_ddb_write[tid] = (vm, app, time.monotonic())\<close>.\<close>

definition note_write :: "string \<Rightarrow> probe_info \<Rightarrow> (node, unit) io" where
  "note_write tid info = andThen monotonic (\<lambda>m.
     modify (\<lambda>s. s\<lparr>nd_last_write := (nd_last_write s)(tid \<mapsto> (pi_vm info, pi_app info, m))\<rparr>))"

text \<open>The metrics of a VM that is up.\<close>

definition live_metrics :: "probe_info \<Rightarrow> metrics option" where
  "live_metrics info = (if pi_vm info = ''up'' then pi_metrics info else None)"

text \<open>
  The promotion. \<open>True\<close> sends the caller on to the steady-state writer, \<open>False\<close> ends the work on
  this tenant for the tick: no token yet, promoted just now, or a failed call.
\<close>

definition try_promote :: "int \<Rightarrow> string \<Rightarrow> probe_info \<Rightarrow> (node, bool) io" where
  "try_promote n tid info = andThen (read_gateway_token tid) (\<lambda>token. if token = [] then ok False
     else try_except
       (andThen (on_world (update_tenant tid is_creating
           (set_attrs (promoted_row info (or_else (live_metrics info) []) token n)))) (\<lambda>_.
        andThen (mark_promoted tid) (\<lambda>_.
        andThen (note_write tid info) (\<lambda>_. ok False))))
       (\<lambda>e. if is_cond_failed e then andThen (mark_promoted tid) (\<lambda>_. ok True) else ok False))"

definition write_due :: "agent_cfg \<Rightarrow> (string \<times> string \<times> int) option \<Rightarrow> probe_info \<Rightarrow> int \<Rightarrow> bool" where
  "write_due a prev info m = (case prev of None \<Rightarrow> True
     | Some (vm, app, written) \<Rightarrow> (vm, app) \<noteq> (pi_vm info, pi_app info) \<or> m - written \<ge> seconds (ddb_refresh a))"

definition write_health :: "agent_cfg \<Rightarrow> int \<Rightarrow> string \<Rightarrow> probe_info \<Rightarrow> (node, unit) io" where
  "write_health a n tid info = andThen (gets (\<lambda>s. nd_last_write s tid)) (\<lambda>prev.
     andThen monotonic (\<lambda>m. if \<not> write_due a prev info m then ok ()
       else best_effort (andThen (on_world (update_tenant tid no_cond (set_attrs (health_row info (live_metrics info) n)))) (\<lambda>_.
         note_write tid info))))"

definition write_one :: "agent_cfg \<Rightarrow> int \<Rightarrow> string \<times> probe_info \<Rightarrow> (node, unit) io" where
  "write_one a n ti = (case ti of (tid, info) \<Rightarrow> andThen (gets nd_promoted) (\<lambda>promoted.
     if pi_vm info = ''up'' \<and> tid \<notin> promoted
     then andThen (try_promote n tid info) (\<lambda>steady. whenever steady (write_health a n tid info))
     else write_health a n tid info))"

text \<open>The records of tenants no longer on the host are dropped.\<close>

definition forget_gone :: "string set \<Rightarrow> (node, unit) io" where
  "forget_gone present = modify (\<lambda>s. s\<lparr>nd_promoted := nd_promoted s \<inter> present, nd_last_write := nd_last_write s |` present\<rparr>)"

definition write_ddb :: "agent_cfg \<Rightarrow> (string \<times> probe_info) list \<Rightarrow> (node, unit) io" where
  "write_ddb a results = (if \<not> ag_tenants_table a then ok ()
     else if results = [] then forget_gone {}
     else andThen wall (\<lambda>n. andThen (for_each results (write_one a (to_second n))) (\<lambda>_. forget_gone (fst ` set results))))"

end
