(* ===== verification/PeerMap.thy ===== *)
theory PeerMap
  imports AgentReport
begin

text \<open>
  The peer map (\<open>_sync_tenant_routes\<close> of userdata/host-agent.py): every host renders one nginx location
  for each tenant that another host owns, so that any host can pass a request for any tenant on to
  its owner. The set of locations is applied only when its hash has changed, and the hash is
  recorded only after nginx has accepted and loaded the files.
\<close>

section \<open>The wanted locations\<close>

definition routable_statuses :: "string list" where
  "routable_statuses = [''running'', ''failover_queued'', ''failover_recovering'']"

definition conf_line :: "string \<Rightarrow> string" where
  "conf_line l = l @ [newline]"

definition render_peer_conf :: "string \<Rightarrow> string \<Rightarrow> string" where
  "render_peer_conf tid owner_ip = concat (map conf_line [
     ''location ~ ^/vm/'' @ tid @ ''(/.*)?$ {'',
     ''    proxy_pass http://'' @ owner_ip @ '':8081;'',
     ''    proxy_http_version 1.1;'',
     ''    proxy_set_header Upgrade $http_upgrade;'',
     ''    proxy_set_header Connection $connection_upgrade;'',
     ''    proxy_set_header Host $host;'',
     ''    proxy_set_header X-Real-IP $remote_addr;'',
     ''    proxy_set_header X-Forwarded-For $proxy_add_x_forwarded_for;'',
     ''    proxy_set_header X-Forwarded-Proto $scheme;'',
     ''    proxy_read_timeout 86400s;'',
     ''    proxy_send_timeout 86400s;'',
     ''}''])"

definition filled :: "string option \<Rightarrow> bool" where
  "filled v = (case v of None \<Rightarrow> False | Some s \<Rightarrow> s \<noteq> [])"

text \<open>A dictionary built entry by entry: a later entry for a key replaces an earlier one.\<close>

definition ip_by_host :: "host list \<Rightarrow> string \<Rightarrow> string option" where
  "ip_by_host hosts = map_of (rev (map (\<lambda>h. (h_instance_id h, the (h_private_ip h))) (filter (\<lambda>h. filled (h_private_ip h)) hosts)))"

definition conf_suffix :: string where
  "conf_suffix = ''.conf''"

definition conf_file :: "string \<Rightarrow> string" where
  "conf_file tid = tid @ conf_suffix"

definition is_conf :: "string \<Rightarrow> bool" where
  "is_conf f = suffix conf_suffix f"

definition local_tids :: "string list option \<Rightarrow> string set" where
  "local_tids files = (case files of None \<Rightarrow> {}
     | Some fs \<Rightarrow> set (map (\<lambda>f. take (length f - length conf_suffix) f) (filter is_conf fs)))"

definition peer_routable :: "tenant \<Rightarrow> bool" where
  "peer_routable t = (case t_status t of None \<Rightarrow> False | Some st \<Rightarrow> st \<in> set routable_statuses)"

text \<open>The address a tenant's requests are passed on to; \<open>None\<close> where the loop skips the tenant.\<close>

definition peer_ip :: "agent_cfg \<Rightarrow> (string \<Rightarrow> string option) \<Rightarrow> string set \<Rightarrow> tenant \<Rightarrow> string option" where
  "peer_ip a ips here t =
     (if t_id t = [] \<or> \<not> peer_routable t then None
      else if t_host_id t = Some (ag_instance a) \<or> t_id t \<in> here then None
      else (case t_host_id t of None \<Rightarrow> None | Some owner \<Rightarrow> ips owner))"

definition desired_confs :: "agent_cfg \<Rightarrow> (string \<Rightarrow> string option) \<Rightarrow> string set \<Rightarrow> tenant list \<Rightarrow> (string \<times> string) list" where
  "desired_confs a ips here tenants = fold (\<lambda>t out. case peer_ip a ips here t of
       None \<Rightarrow> out
     | Some ip \<Rightarrow> AList.update (t_id t) (render_peer_conf (t_id t) ip) out) tenants []"

definition peer_digest :: "agent_cfg \<Rightarrow> (string \<times> string) list \<Rightarrow> string" where
  "peer_digest a desired = ag_sha256 a
     (concat (map (\<lambda>k. k @ [newline] @ the (map_of desired k)) (sort (map fst desired))))"

section \<open>Applying them\<close>

text \<open>A removal that fails is passed over.\<close>

definition remove_peer_file :: "string \<Rightarrow> (node, unit) io" where
  "remove_peer_file f = andThen (look bx_remove) (\<lambda>removable.
     whenever removable (modify (\<lambda>s. s\<lparr>nd_peers := AList.delete f (nd_peers s)\<rparr>)))"

definition write_peer_file :: "string \<times> string \<Rightarrow> (node, unit) io" where
  "write_peer_file kc = andThen (look bx_write) (\<lambda>writable. if \<not> writable then raise not_started
     else modify (\<lambda>s. s\<lparr>nd_peers := AList.update (conf_file (fst kc)) (snd kc) (nd_peers s)\<rparr>))"

definition write_peer_files :: "(string \<times> string) list \<Rightarrow> (node, unit) io" where
  "write_peer_files desired = (let want_files = set (map (conf_file \<circ> fst) desired) in
     andThen (gets (\<lambda>s. map fst (nd_peers s))) (\<lambda>files.
     andThen (for_each files (\<lambda>f. whenever (f \<notin> want_files \<and> is_conf f) (remove_peer_file f))) (\<lambda>_.
     for_each desired write_peer_file)))"

definition count_failure :: "(node, unit) io" where
  "count_failure = modify (\<lambda>s. s\<lparr>nd_failures := Suc (nd_failures s)\<rparr>)"

definition mark_ready :: "(node, unit) io" where
  "mark_ready = andThen (look bx_ready) (\<lambda>writable. whenever writable (modify (\<lambda>s. s\<lparr>nd_ready := True\<rparr>)))"

text \<open>A reload makes nginx read the files as they are.\<close>

definition reload_nginx :: "(node, int) io" where
  "reload_nginx = andThen (ask bx_nginx_reload) (\<lambda>r.
     andThen (whenever (fst r = 0) (modify (\<lambda>s. s\<lparr>nd_loaded := Some (nd_peers s)\<rparr>))) (\<lambda>_. ok (fst r)))"

definition apply_peer_map :: "string \<Rightarrow> (string \<times> string) list \<Rightarrow> (node, unit) io" where
  "apply_peer_map digest desired = andThen (write_peer_files desired) (\<lambda>_.
     andThen (ask bx_nginx_test) (\<lambda>check. if fst check \<noteq> 0 then count_failure
     else andThen reload_nginx (\<lambda>rc. if rc \<noteq> 0 then count_failure
     else andThen wall (\<lambda>n.
       andThen (modify (\<lambda>s. s\<lparr>nd_peer_hash := Some digest, nd_last_success := n, nd_entries := length desired\<rparr>)) (\<lambda>_.
       mark_ready)))))"

definition scan_peer_map :: "agent_cfg \<Rightarrow> (node, unit) io" where
  "scan_peer_map a =
     andThen (on_world (scan_all w_tenants (\<lambda>_. True))) (\<lambda>tenants.
     andThen (on_world (scan_all w_hosts (\<lambda>_. True))) (\<lambda>hosts.
     andThen (look bx_local) (\<lambda>files.
     (let desired = desired_confs a (ip_by_host hosts) (local_tids files) tenants; digest = peer_digest a desired in
     andThen (gets nd_peer_hash) (\<lambda>applied.
       if applied = Some digest then ok () else apply_peer_map digest desired)))))"

definition sync_tenant_routes :: "agent_cfg \<Rightarrow> (node, unit) io" where
  "sync_tenant_routes a = (if \<not> ag_tenants_table a \<or> \<not> ag_hosts_table a \<or> ag_instance a = [] then ok ()
     else andThen monotonic (\<lambda>m. andThen (gets nd_last_sync) (\<lambda>synced.
       if m - synced < seconds (ag_route_sync a) then ok ()
       else andThen (modify (\<lambda>s. s\<lparr>nd_last_sync := m\<rparr>)) (\<lambda>_. best_effort (scan_peer_map a)))))"

section \<open>What is wanted\<close>

lemma desired_step:
  "map_of (desired_confs a ips here (ts @ [t])) k =
     (if k = t_id t \<and> peer_ip a ips here t \<noteq> None then Some (render_peer_conf k (the (peer_ip a ips here t)))
      else map_of (desired_confs a ips here ts) k)"
  by (simp add: desired_confs_def update_conv' split: option.split)

text \<open>On a table in which every row is stored under its own id, the locations are those of the rows.\<close>

lemma desired_none: "k \<notin> t_id ` set ts \<Longrightarrow> map_of (desired_confs a ips here ts) k = None"
proof (induction ts rule: rev_induct)
  case Nil
  then show ?case by (simp add: desired_confs_def)
next
  case (snoc t ts)
  then show ?case by (simp add: desired_step)
qed

lemma desired_row:
  "distinct (map t_id ts) \<Longrightarrow> t \<in> set ts \<Longrightarrow>
   map_of (desired_confs a ips here ts) (t_id t) = map_option (render_peer_conf (t_id t)) (peer_ip a ips here t)"
proof (induction ts rule: rev_induct)
  case (snoc x ts)
  show ?case
  proof (cases "t_id t = t_id x")
    case True
    have "t_id x \<notin> t_id ` set ts" using snoc.prems(1) by simp
    moreover from this have "t \<notin> set ts" using True by (metis image_eqI)
    ultimately have "t = x" using snoc.prems(2) by simp
    then show ?thesis using \<open>t_id x \<notin> t_id ` set ts\<close> by (auto simp: desired_step desired_none)
  next
    case False
    then have "t \<in> set ts" using snoc.prems(2) by auto
    then show ?thesis using snoc False by (simp add: desired_step)
  qed
qed simp

lemma distinct_desired: "distinct (map fst (desired_confs a ips here ts))"
  by (induction ts rule: rev_induct) (simp_all add: desired_confs_def distinct_update split: option.split)

lemma ip_by_host_row:
  assumes "distinct (map h_instance_id hs)" "h \<in> set hs"
  shows "ip_by_host hs (h_instance_id h) = (if filled (h_private_ip h) then h_private_ip h else None)"
proof -
  let ?hs = "filter (\<lambda>h. filled (h_private_ip h)) hs"
  let ?ps = "map (\<lambda>h. (h_instance_id h, the (h_private_ip h))) ?hs"
  have d: "distinct (map fst (rev ?ps))"
    using assms(1) by (simp add: rev_map [symmetric] comp_def distinct_map_filter)
  show ?thesis
  proof (cases "filled (h_private_ip h)")
    case True
    then have "(h_instance_id h, the (h_private_ip h)) \<in> set (rev ?ps)" using assms(2) by auto
    with d have "map_of (rev ?ps) (h_instance_id h) = Some (the (h_private_ip h))" by (rule map_of_is_SomeI)
    then show ?thesis using True by (auto simp: ip_by_host_def filled_def split: option.splits)
  next
    case False
    have "h_instance_id h \<notin> fst ` set (rev ?ps)"
    proof
      assume "h_instance_id h \<in> fst ` set (rev ?ps)"
      then obtain g where g: "g \<in> set ?hs" "h_instance_id g = h_instance_id h" by auto
      then have "g = h" using assms by (auto simp: distinct_map dest: inj_onD)
      with g False show False by simp
    qed
    then show ?thesis using False by (simp add: ip_by_host_def map_of_eq_None_iff)
  qed
qed

lemma ip_by_host_none: "i \<notin> h_instance_id ` set hs \<Longrightarrow> ip_by_host hs i = None"
  by (force simp: ip_by_host_def map_of_eq_None_iff)

section \<open>Applying, when the host stays as it is\<close>

text \<open>No call fails or takes time, the host stays as it is, and files can be written and removed.\<close>

definition steady :: "node \<Rightarrow> bool" where
  "steady s = (w_oracle (nd_world s) = [] \<and> nd_future s = [] \<and> bx_write (nd_box s) \<and> bx_remove (nd_box s))"

lemma remove_steady:
  "steady s \<Longrightarrow> remove_peer_file f s = (Inr (), s\<lparr>nd_peers := AList.delete f (nd_peers s)\<rparr>)"
  by (simp add: steady_def remove_peer_file_def look_turned io_simps)

lemma write_steady:
  "steady s \<Longrightarrow> write_peer_file kc s = (Inr (), s\<lparr>nd_peers := AList.update (conf_file (fst kc)) (snd kc) (nd_peers s)\<rparr>)"
  by (simp add: steady_def write_peer_file_def look_turned io_simps)

lemma steady_peers [simp]: "steady (s\<lparr>nd_peers := ps\<rparr>) = steady s"
  by (simp add: steady_def)

lemma removes_steady:
  "steady s \<Longrightarrow> \<exists>ps. for_each fs (\<lambda>f. whenever (P f) (remove_peer_file f)) (s\<lparr>nd_peers := p\<rparr>) = (Inr (), s\<lparr>nd_peers := ps\<rparr>) \<and>
     map_of ps = (\<lambda>f. if f \<in> set fs \<and> P f then None else map_of p f)"
proof (induction fs arbitrary: p)
  case Nil
  then show ?case by (intro exI [of _ p]) (simp add: ok_apply)
next
  case (Cons f fs)
  show ?case
  proof (cases "P f")
    case True
    from Cons.IH [OF Cons.prems, of "AList.delete f p"] obtain ps where
      "for_each fs (\<lambda>f. whenever (P f) (remove_peer_file f)) (s\<lparr>nd_peers := AList.delete f p\<rparr>) = (Inr (), s\<lparr>nd_peers := ps\<rparr>)"
        "map_of ps = (\<lambda>g. if g \<in> set fs \<and> P g then None else map_of (AList.delete f p) g)" by blast
    then show ?thesis
      using True Cons.prems by (intro exI [of _ ps]) (auto simp: remove_steady io_simps delete_conv' fun_eq_iff)
  next
    case False
    from Cons.IH [OF Cons.prems, of p] obtain ps where
      "for_each fs (\<lambda>f. whenever (P f) (remove_peer_file f)) (s\<lparr>nd_peers := p\<rparr>) = (Inr (), s\<lparr>nd_peers := ps\<rparr>)"
        "map_of ps = (\<lambda>g. if g \<in> set fs \<and> P g then None else map_of p g)" by blast
    then show ?thesis using False by (intro exI [of _ ps]) (auto simp: io_simps fun_eq_iff)
  qed
qed

lemma conf_file_inj: "conf_file x = conf_file y \<longleftrightarrow> x = y"
  by (simp add: conf_file_def)

lemma writes_steady:
  "steady s \<Longrightarrow> distinct (map fst ds) \<Longrightarrow>
   \<exists>ps. for_each ds write_peer_file (s\<lparr>nd_peers := p\<rparr>) = (Inr (), s\<lparr>nd_peers := ps\<rparr>) \<and>
     (\<forall>k. map_of ps (conf_file k) = (case map_of ds k of Some c \<Rightarrow> Some c | None \<Rightarrow> map_of p (conf_file k))) \<and>
     (\<forall>f. f \<notin> conf_file ` fst ` set ds \<longrightarrow> map_of ps f = map_of p f)"
proof (induction ds arbitrary: p)
  case Nil
  then show ?case by (intro exI [of _ p]) (simp add: ok_apply)
next
  case (Cons d ds)
  obtain k c where d: "d = (k, c)" by (cases d)
  have dist: "distinct (map fst ds)" using Cons.prems(2) by simp
  from Cons.IH [OF Cons.prems(1) dist, of "AList.update (conf_file k) c p"] obtain ps where
    ps: "for_each ds write_peer_file (s\<lparr>nd_peers := AList.update (conf_file k) c p\<rparr>) = (Inr (), s\<lparr>nd_peers := ps\<rparr>)"
      "\<forall>x. map_of ps (conf_file x) = (case map_of ds x of Some c \<Rightarrow> Some c
         | None \<Rightarrow> map_of (AList.update (conf_file k) c p) (conf_file x))"
      "\<forall>f. f \<notin> conf_file ` fst ` set ds \<longrightarrow> map_of ps f = map_of (AList.update (conf_file k) c p) f" by blast
  have "map_of ds k = None" using Cons.prems(2) d by (simp add: map_of_eq_None_iff)
  then show ?case
    using ps Cons.prems(1) d
    by (intro exI [of _ ps]) (auto simp: write_steady io_simps update_conv' conf_file_inj split: option.split)
qed

lemma is_conf_file: "is_conf (conf_file k)"
  by (simp add: is_conf_def conf_file_def suffixI)

lemma conf_file_of: "is_conf f \<Longrightarrow> \<exists>k. f = conf_file k"
  by (auto simp: is_conf_def conf_file_def suffix_def)

text \<open>The files after a write are the wanted ones, and what is not a location is left alone.\<close>

lemma write_files_steady:
  assumes "steady s" "distinct (map fst desired)"
  shows "\<exists>ps. write_peer_files desired s = (Inr (), s\<lparr>nd_peers := ps\<rparr>) \<and> (\<forall>k. map_of ps (conf_file k) = map_of desired k) \<and>
    (\<forall>f. \<not> is_conf f \<longrightarrow> map_of ps f = map_of (nd_peers s) f)"
proof -
  let ?want = "set (map (conf_file \<circ> fst) desired)"
  have same: "s\<lparr>nd_peers := nd_peers s\<rparr> = s" by simp
  from removes_steady [OF assms(1), of "map fst (nd_peers s)" "\<lambda>f. f \<notin> ?want \<and> is_conf f" "nd_peers s", unfolded same] obtain ps where
    ps: "for_each (map fst (nd_peers s)) (\<lambda>f. whenever (f \<notin> ?want \<and> is_conf f) (remove_peer_file f)) s = (Inr (), s\<lparr>nd_peers := ps\<rparr>)"
      "map_of ps = (\<lambda>f. if f \<in> set (map fst (nd_peers s)) \<and> f \<notin> ?want \<and> is_conf f then None else map_of (nd_peers s) f)"
    by blast
  from writes_steady [OF assms, of ps] obtain qs where
    qs: "for_each desired write_peer_file (s\<lparr>nd_peers := ps\<rparr>) = (Inr (), s\<lparr>nd_peers := qs\<rparr>)"
      "\<forall>k. map_of qs (conf_file k) = (case map_of desired k of Some c \<Rightarrow> Some c | None \<Rightarrow> map_of ps (conf_file k))"
      "\<forall>f. f \<notin> conf_file ` fst ` set desired \<longrightarrow> map_of qs f = map_of ps f" by blast
  have "map_of qs (conf_file k) = map_of desired k" for k
  proof (cases "map_of desired k")
    case None
    then have "conf_file k \<notin> ?want" by (force simp: map_of_eq_None_iff conf_file_inj)
    then have "map_of ps (conf_file k) = None"
      unfolding ps(2) by (simp add: is_conf_file map_of_eq_None_iff)
    then show ?thesis using qs(2) None by simp
  qed (use qs(2) in simp)
  moreover have "map_of qs f = map_of (nd_peers s) f" if "\<not> is_conf f" for f
  proof -
    have "f \<notin> conf_file ` fst ` set desired" using that is_conf_file by auto
    then show ?thesis using qs(3) ps(2) that by simp
  qed
  moreover have "write_peer_files desired s = (Inr (), s\<lparr>nd_peers := qs\<rparr>)"
    using ps(1) qs(1) by (simp add: write_peer_files_def io_simps)
  ultimately show ?thesis by blast
qed

section \<open>One synchronisation\<close>

definition wanted_confs :: "agent_cfg \<Rightarrow> node \<Rightarrow> (string \<times> string) list" where
  "wanted_confs a s = desired_confs a (ip_by_host (map snd (w_hosts (nd_world s)))) (local_tids (bx_local (nd_box s)))
     (map snd (w_tenants (nd_world s)))"

definition wanted_digest :: "agent_cfg \<Rightarrow> node \<Rightarrow> string" where
  "wanted_digest a s = peer_digest a (wanted_confs a s)"

definition keyed_hosts :: "world \<Rightarrow> bool" where
  "keyed_hosts w = (distinct (map fst (w_hosts w)) \<and> list_all (\<lambda>(k, h). h_instance_id h = k) (w_hosts w))"

lemma keyed_hosts_ids: "keyed_hosts w \<Longrightarrow> map h_instance_id (map snd (w_hosts w)) = map fst (w_hosts w)"
  by (auto simp: keyed_hosts_def list_all_iff)

lemma ip_of_row:
  assumes "keyed_hosts w"
  shows "ip_by_host (map snd (w_hosts w)) i = (case map_of (w_hosts w) i of None \<Rightarrow> None
     | Some h \<Rightarrow> if filled (h_private_ip h) then h_private_ip h else None)"
proof (cases "map_of (w_hosts w) i")
  case None
  then have "i \<notin> set (map h_instance_id (map snd (w_hosts w)))"
    unfolding keyed_hosts_ids [OF assms] by (simp add: map_of_eq_None_iff)
  then have "ip_by_host (map snd (w_hosts w)) i = None" by (intro ip_by_host_none) (simp add: image_image)
  then show ?thesis using None by simp
next
  case (Some h)
  have d: "distinct (map h_instance_id (map snd (w_hosts w)))"
    unfolding keyed_hosts_ids [OF assms] using assms by (simp add: keyed_hosts_def)
  have mem: "h \<in> set (map snd (w_hosts w))" "h_instance_id h = i"
    using map_of_SomeD [OF Some] assms by (force simp: keyed_hosts_def list_all_iff)+
  then show ?thesis using ip_by_host_row [OF d mem(1)] Some by simp
qed

text \<open>The location for a row of the tenant table, said without the loop.\<close>

definition location_of :: "agent_cfg \<Rightarrow> node \<Rightarrow> string \<Rightarrow> string option" where
  "location_of a s k = (case map_of (w_tenants (nd_world s)) k of None \<Rightarrow> None
     | Some t \<Rightarrow> if k = [] \<or> \<not> peer_routable t \<or> t_host_id t = Some (ag_instance a) \<or> k \<in> local_tids (bx_local (nd_box s)) then None
         else (case t_host_id t of None \<Rightarrow> None | Some owner \<Rightarrow> (case map_of (w_hosts (nd_world s)) owner of None \<Rightarrow> None
           | Some h \<Rightarrow> if filled (h_private_ip h) then Some (render_peer_conf k (the (h_private_ip h))) else None)))"

lemma wanted_is_location:
  assumes "keyed (w_tenants (nd_world s))" "keyed_hosts (nd_world s)"
  shows "map_of (wanted_confs a s) k = location_of a s k"
proof (cases "map_of (w_tenants (nd_world s)) k")
  case None
  then have "k \<notin> t_id ` set (map snd (w_tenants (nd_world s)))"
    using assms(1) by (force simp: map_of_eq_None_iff keyed_def)
  then show ?thesis using None by (simp add: wanted_confs_def location_of_def desired_none)
next
  case (Some t)
  have d: "distinct (map t_id (map snd (w_tenants (nd_world s))))"
    using keyed_distinct_ids [OF assms(1), of "\<lambda>_. True"] by simp
  have t: "t \<in> set (map snd (w_tenants (nd_world s)))" "t_id t = k"
    using map_of_SomeD [OF Some] keyed_row [OF assms(1) Some] by force+
  from desired_row [OF d t(1)] t(2) Some show ?thesis
    by (auto simp: wanted_confs_def location_of_def peer_ip_def ip_of_row [OF assms(2)] filled_def split: option.split)
qed

lemma scans_steady:
  "steady s \<Longrightarrow> on_world (scan_all w_tenants (\<lambda>_. True)) s = (Inr (map snd (w_tenants (nd_world s))), s)"
  "steady s \<Longrightarrow> on_world (scan_all w_hosts (\<lambda>_. True)) s = (Inr (map snd (w_hosts (nd_world s))), s)"
  by (simp_all add: steady_def on_world_def scan_all_quiet)

definition sync_due :: "agent_cfg \<Rightarrow> node \<Rightarrow> bool" where
  "sync_due a s = (ag_tenants_table a \<and> ag_hosts_table a \<and> ag_instance a \<noteq> [] \<and>
     mono_at s - nd_last_sync s \<ge> seconds (ag_route_sync a))"

lemma sync_steady:
  assumes "steady s" "sync_due a s"
  shows "sync_tenant_routes a s = (let s1 = s\<lparr>nd_last_sync := mono_at s\<rparr> in
     (Inr (), if nd_peer_hash s = Some (wanted_digest a s) then s1
       else snd (apply_peer_map (wanted_digest a s) (wanted_confs a s) s1)))"
proof -
  let ?s1 = "s\<lparr>nd_last_sync := mono_at s\<rparr>"
  have "steady ?s1" using assms(1) by (simp add: steady_def)
  moreover have "nd_future ?s1 = []" using assms(1) by (simp add: steady_def)
  ultimately have "scan_peer_map a ?s1 = (if nd_peer_hash s = Some (wanted_digest a s) then (Inr (), ?s1)
       else apply_peer_map (wanted_digest a s) (wanted_confs a s) ?s1)"
    by (simp add: scan_peer_map_def scans_steady look_turned io_simps Let_def wanted_digest_def wanted_confs_def)
  then show ?thesis
    using assms(2) by (simp add: sync_tenant_routes_def sync_due_def monotonic_def best_effort_apply io_simps Let_def)
qed

text \<open>The verdict of nginx: the exit codes of the test and, when that passed, of the reload.\<close>

definition nginx_accepts :: "machine \<Rightarrow> bool" where
  "nginx_accepts b = (case (bx_nginx_test b, bx_nginx_reload b) of (Exit r1 o1, Exit r2 o2) \<Rightarrow> r1 = 0 \<and> r2 = 0 | _ \<Rightarrow> False)"

definition nginx_rejects :: "machine \<Rightarrow> bool" where
  "nginx_rejects b = (case bx_nginx_test b of Exit r1 o1 \<Rightarrow> r1 \<noteq> 0 \<or>
       (case bx_nginx_reload b of Exit r2 o2 \<Rightarrow> r2 \<noteq> 0 | _ \<Rightarrow> False) | _ \<Rightarrow> False)"

lemma apply_accepted:
  assumes "steady s" "distinct (map fst desired)" "nginx_accepts (nd_box s)"
  shows "\<exists>ps. (\<forall>k. map_of ps (conf_file k) = map_of desired k) \<and>
    snd (apply_peer_map digest desired s) = s\<lparr>nd_peers := ps, nd_loaded := Some ps, nd_peer_hash := Some digest,
      nd_last_success := w_now (nd_world s), nd_entries := length desired, nd_ready := (nd_ready s \<or> bx_ready (nd_box s))\<rparr>"
proof -
  from write_files_steady [OF assms(1,2)] obtain ps where
    ps: "write_peer_files desired s = (Inr (), s\<lparr>nd_peers := ps\<rparr>)" "\<forall>k. map_of ps (conf_file k) = map_of desired k" by blast
  have fut: "nd_future s = []" using assms(1) by (simp add: steady_def)
  obtain o1 o2 where "bx_nginx_test (nd_box s) = Exit 0 o1" "bx_nginx_reload (nd_box s) = Exit 0 o2"
    using assms(3) by (auto simp: nginx_accepts_def split: cmd_result.splits)
  with ps fut show ?thesis
    by (intro exI [of _ ps]) (simp add: apply_peer_map_def ask_def look_turned finished_def reload_nginx_def wall_def
        mark_ready_def whenever_def io_simps)
qed

lemma apply_rejected:
  assumes "steady s" "distinct (map fst desired)" "nginx_rejects (nd_box s)"
  shows "\<exists>ps. (\<forall>k. map_of ps (conf_file k) = map_of desired k) \<and>
    snd (apply_peer_map digest desired s) = s\<lparr>nd_peers := ps, nd_failures := Suc (nd_failures s)\<rparr>"
proof -
  from write_files_steady [OF assms(1,2)] obtain ps where
    ps: "write_peer_files desired s = (Inr (), s\<lparr>nd_peers := ps\<rparr>)" "\<forall>k. map_of ps (conf_file k) = map_of desired k" by blast
  have fut: "nd_future s = []" using assms(1) by (simp add: steady_def)
  obtain r1 o1 where "bx_nginx_test (nd_box s) = Exit r1 o1"
      "r1 \<noteq> 0 \<or> (\<exists>r2 o2. bx_nginx_reload (nd_box s) = Exit r2 o2 \<and> r2 \<noteq> 0)"
    using assms(3) by (auto simp: nginx_rejects_def split: cmd_result.splits)
  with ps fut show ?thesis
    by (intro exI [of _ ps]) (auto simp: apply_peer_map_def ask_def look_turned finished_def count_failure_def reload_nginx_def
        whenever_def io_simps)
qed

lemma sync_accepted:
  assumes "steady s" "sync_due a s" "nd_peer_hash s \<noteq> Some (wanted_digest a s)" "nginx_accepts (nd_box s)"
  shows "\<exists>t. sync_tenant_routes a s = (Inr (), t) \<and> (\<forall>k. map_of (nd_peers t) (conf_file k) = map_of (wanted_confs a s) k) \<and>
    nd_loaded t = Some (nd_peers t) \<and> nd_peer_hash t = Some (wanted_digest a s) \<and> wanted_digest a t = wanted_digest a s \<and>
    nd_last_success t = w_now (nd_world t) \<and> (bx_ready (nd_box s) \<longrightarrow> nd_ready t)"
proof -
  let ?s1 = "s\<lparr>nd_last_sync := mono_at s\<rparr>"
  have st: "steady ?s1" "nginx_accepts (nd_box ?s1)" using assms(1,4) by (simp_all add: steady_def)
  have "distinct (map fst (wanted_confs a s))" by (simp add: wanted_confs_def distinct_desired)
  from apply_accepted [OF st(1) this st(2), of "wanted_digest a s"] obtain ps where
    ps: "\<forall>k. map_of ps (conf_file k) = map_of (wanted_confs a s) k"
      "snd (apply_peer_map (wanted_digest a s) (wanted_confs a s) ?s1) = ?s1\<lparr>nd_peers := ps, nd_loaded := Some ps,
        nd_peer_hash := Some (wanted_digest a s), nd_last_success := w_now (nd_world ?s1),
        nd_entries := length (wanted_confs a s), nd_ready := (nd_ready ?s1 \<or> bx_ready (nd_box ?s1))\<rparr>"
    by blast
  then show ?thesis
    using sync_steady [OF assms(1,2)] assms(3) by (simp add: Let_def wanted_digest_def wanted_confs_def)
qed

section \<open>Properties\<close>


definition owned_tenant :: tenant where
  "owned_tenant = (fresh_tenant ''t-2'')\<lparr>t_status := Some ''running'', t_host_id := Some ''i-2''\<rparr>"

definition owner_host :: host where
  "owner_host = (fresh_host ''i-2'')\<lparr>h_private_ip := Some ''10.0.0.2''\<rparr>"

definition routing_node :: node where
  "routing_node = node0\<lparr>nd_world := world0\<lparr>w_tenants := [(''t-2'', owned_tenant)], w_hosts := [(''i-2'', owner_host)]\<rparr>\<rparr>"

lemma routing_setting:
  "steady routing_node" "sync_due agent_cfg0 routing_node" "keyed (w_tenants (nd_world routing_node))"
  "keyed_hosts (nd_world routing_node)" "nd_peer_hash routing_node = None" "nginx_accepts (nd_box routing_node)"
  "location_of agent_cfg0 routing_node ''t-2'' = Some (render_peer_conf ''t-2'' ''10.0.0.2'')"
  by (simp_all add: routing_node_def steady_def sync_due_def keyed_def keyed_hosts_def nginx_accepts_def node0_def agent_cfg0_def
      machine0_def seconds_def mono_at_def owned_tenant_def owner_host_def fresh_tenant_def fresh_host_def location_of_def
      peer_routable_def routable_statuses_def local_tids_def filled_def)


text \<open>
  A rejected map is tried again, and its files stay: when nginx refuses the files or the reload,
  the failure is counted, nginx keeps what it had loaded and the hash keeps its value, so that the next
  synchronisation that is due, with the same tables and nginx content again, applies the map. But the
  refused files are in the directory nginx reads by then, where the reload of any launch script meets
  them.
\<close>

theorem rejected_map_retried:
  assumes "steady s" "sync_due a s" "keyed (w_tenants (nd_world s))" "keyed_hosts (nd_world s)"
    and "nd_peer_hash s \<noteq> Some (wanted_digest a s)" "nginx_rejects (nd_box s)"
  shows "\<exists>t. sync_tenant_routes a s = (Inr (), t) \<and> nd_failures t = Suc (nd_failures s) \<and> nd_loaded t = nd_loaded s \<and>
    nd_peer_hash t = nd_peer_hash s \<and> nd_ready t = nd_ready s \<and> (\<forall>k. map_of (nd_peers t) (conf_file k) = location_of a s k) \<and>
    (let later = t\<lparr>nd_boot := nd_boot t - seconds (max 0 (ag_route_sync a)), nd_box := machine0\<lparr>bx_local := bx_local (nd_box s)\<rparr>\<rparr> in
      \<exists>u. sync_tenant_routes a later = (Inr (), u) \<and> nd_peer_hash u = Some (wanted_digest a s) \<and> nd_loaded u = Some (nd_peers u))"
proof -
  let ?s1 = "s\<lparr>nd_last_sync := mono_at s\<rparr>"
  have st: "steady ?s1" "nginx_rejects (nd_box ?s1)" using assms(1,6) by (simp_all add: steady_def)
  have "distinct (map fst (wanted_confs a s))" by (simp add: wanted_confs_def distinct_desired)
  from apply_rejected [OF st(1) this st(2), of "wanted_digest a s"] obtain ps where
    ps: "\<forall>k. map_of ps (conf_file k) = map_of (wanted_confs a s) k"
      "snd (apply_peer_map (wanted_digest a s) (wanted_confs a s) ?s1) = ?s1\<lparr>nd_peers := ps, nd_failures := Suc (nd_failures ?s1)\<rparr>"
    by blast
  let ?t = "?s1\<lparr>nd_peers := ps, nd_failures := Suc (nd_failures s)\<rparr>"
  let ?later = "?t\<lparr>nd_boot := nd_boot ?t - seconds (max 0 (ag_route_sync a)), nd_box := machine0\<lparr>bx_local := bx_local (nd_box s)\<rparr>\<rparr>"
  have sync: "sync_tenant_routes a s = (Inr (), ?t)" using sync_steady [OF assms(1,2)] assms(5) ps(2) by (simp add: Let_def)
  have same: "wanted_digest a ?later = wanted_digest a s" by (simp add: wanted_digest_def wanted_confs_def)
  have later: "steady ?later" "sync_due a ?later" "nd_peer_hash ?later \<noteq> Some (wanted_digest a ?later)" "nginx_accepts (nd_box ?later)"
    using assms same by (simp_all add: steady_def sync_due_def machine0_def nginx_accepts_def mono_at_def seconds_def)
  from sync_accepted [OF later]
  have "\<exists>u. sync_tenant_routes a ?later = (Inr (), u) \<and> nd_peer_hash u = Some (wanted_digest a s) \<and> nd_loaded u = Some (nd_peers u)"
    unfolding same by blast
  then show ?thesis
    using sync ps(1) wanted_is_location [OF assms(3,4)] by (simp add: Let_def)
qed

theorem rejected_map_retried_witness:
  "\<exists>t. sync_tenant_routes agent_cfg0 (routing_node\<lparr>nd_box := machine0\<lparr>bx_nginx_test := Exit 1 ''''\<rparr>\<rparr>) = (Inr (), t) \<and>
    nd_failures t = 1 \<and> nd_loaded t = None \<and> map_of (nd_peers t) ''t-2.conf'' = Some (render_peer_conf ''t-2'' ''10.0.0.2'')"
proof -
  let ?s = "routing_node\<lparr>nd_box := machine0\<lparr>bx_nginx_test := Exit 1 ''''\<rparr>\<rparr>"
  have set: "steady ?s" "sync_due agent_cfg0 ?s" "keyed (w_tenants (nd_world ?s))" "keyed_hosts (nd_world ?s)"
      "nd_peer_hash ?s \<noteq> Some (wanted_digest agent_cfg0 ?s)" "nginx_rejects (nd_box ?s)"
    using routing_setting by (simp_all add: steady_def sync_due_def mono_at_def machine0_def nginx_rejects_def)
  from rejected_map_retried [OF set] obtain t where
    t: "sync_tenant_routes agent_cfg0 ?s = (Inr (), t)" "nd_failures t = Suc (nd_failures ?s)" "nd_loaded t = nd_loaded ?s"
      "\<forall>k. map_of (nd_peers t) (conf_file k) = location_of agent_cfg0 ?s k" by blast
  have "location_of agent_cfg0 ?s ''t-2'' = location_of agent_cfg0 routing_node ''t-2''"
    by (simp add: location_of_def routing_node_def machine0_def node0_def cong: option.case_cong if_cong)
  moreover have "conf_file ''t-2'' = ''t-2.conf''" by (simp add: conf_file_def conf_suffix_def)
  moreover have "nd_failures ?s = 0" "nd_loaded ?s = None" by (simp_all add: routing_node_def node0_def)
  ultimately show ?thesis using t routing_setting(7) by (intro exI [of _ t]) (metis One_nat_def)
qed

text \<open>
  An unchanged map is not touched again: while the tables and the local routes call for the map
  applied last, a synchronisation changes nothing but the time of the attempt. So a readiness marker
  that could not be written with that map is not written later either (the host stays out of the
  target group), and the age of the last success grows on a host whose map is in order.
\<close>

theorem unchanged_map_not_reapplied:
  assumes "steady s" "sync_due a s" "nd_peer_hash s = Some (wanted_digest a s)"
  shows "sync_tenant_routes a s = (Inr (), s\<lparr>nd_last_sync := mono_at s\<rparr>)"
  using sync_steady [OF assms(1,2)] assms(3) by (simp add: Let_def)

theorem unchanged_map_not_reapplied_witness:
  "nd_ready (snd (sync_tenant_routes agent_cfg0
     (routing_node\<lparr>nd_peer_hash := Some (wanted_digest agent_cfg0 routing_node)\<rparr>))) = False"
proof -
  let ?s = "routing_node\<lparr>nd_peer_hash := Some (wanted_digest agent_cfg0 routing_node)\<rparr>"
  have "steady ?s" "sync_due agent_cfg0 ?s" "nd_peer_hash ?s = Some (wanted_digest agent_cfg0 ?s)"
    using routing_setting(1,2) by (simp_all add: steady_def sync_due_def mono_at_def wanted_digest_def wanted_confs_def)
  from unchanged_map_not_reapplied [OF this] show ?thesis by (simp add: routing_node_def node0_def)
qed

end
