(* ===== verification/AgentLoop.thy ===== *)
theory AgentLoop
  imports PeerMap
begin

text \<open>
  The agent's poll (userdata/host-agent.py): heartbeat, probes, metrics, the reports to the tables,
  the balloons and the peer map, in this order, and what its HTTP endpoint answers. An exception of
  any step ends the poll, not the agent.
\<close>

section \<open>One poll\<close>

definition stamp_results :: "int \<Rightarrow> (string \<times> probe_info) list \<Rightarrow> (string \<times> probe_info) list" where
  "stamp_results n results = map (\<lambda>(tid, info). (tid, info\<lparr>pi_updated := Some n\<rparr>)) results"

definition publish_status :: "(string \<times> probe_info) list \<Rightarrow> (node, unit) io" where
  "publish_status results = modify (\<lambda>s. s\<lparr>nd_status := results\<rparr>)"

definition poll_once :: "agent_cfg \<Rightarrow> (node, unit) io" where
  "poll_once a = best_effort (
     andThen (write_host_heartbeat a) (\<lambda>_.
     andThen (probe_all a) (\<lambda>probes.
     andThen (enrich_metrics a probes) (\<lambda>enriched.
     andThen wall (\<lambda>n.
     (let results = stamp_results (to_second n) enriched in
     andThen (publish_status results) (\<lambda>_.
     andThen (write_ddb a results) (\<lambda>_.
     andThen (adjust_balloons a results) (\<lambda>_.
     sync_tenant_routes a)))))))))"

definition poll_interval :: int where
  "poll_interval = 15"

primrec poll_loop :: "agent_cfg \<Rightarrow> nat \<Rightarrow> (node, unit) io" where
  "poll_loop a 0 = ok ()"
| "poll_loop a (Suc n) = andThen (poll_once a) (\<lambda>_. andThen (on_world (sleep poll_interval)) (\<lambda>_. poll_loop a n))"

section \<open>The endpoint\<close>

definition prom_gauges :: "(string \<times> string \<times> string) list" where
  "prom_gauges = [
     (''openclaw_vm_memory_used_mb'', ''Per-VM memory in active use (MB)'', ''memory_used_mb''),
     (''openclaw_vm_memory_balloon_mib'', ''Balloon size held by the host (MiB)'', ''memory_balloon_mib''),
     (''openclaw_vm_disk_used_mb'', ''Per-VM data disk used (MB)'', ''disk_used_mb''),
     (''openclaw_vm_disk_total_mb'', ''Per-VM data disk capacity (MB)'', ''disk_total_mb''),
     (''openclaw_vm_disk_used_pct'', ''Per-VM data disk used (percent)'', ''disk_used_pct''),
     (''openclaw_vm_cpu_pct'', ''Per-VM CPU usage (percent of allocated vcpus)'', ''cpu_pct'')]"

definition gauge_line :: "string \<Rightarrow> string \<Rightarrow> int \<Rightarrow> string" where
  "gauge_line name tid v = name @ ''{tenant='' @ [CHR 0x22] @ tid @ [CHR 0x22] @ ''} '' @ show_int v"

definition gauge_lines :: "(string \<times> probe_info) list \<Rightarrow> string \<times> string \<times> string \<Rightarrow> string list" where
  "gauge_lines snapshots g = (case g of (name, help, key) \<Rightarrow>
     [''# HELP '' @ name @ '' '' @ help, ''# TYPE '' @ name @ '' gauge''] @
     List.map_filter (\<lambda>(tid, info). case pi_metrics info of
         None \<Rightarrow> None
       | Some m \<Rightarrow> if m = [] then None else Some (gauge_line name tid (or_else (map_of m key) 0))) snapshots)"

definition health_lines :: "(string \<times> probe_info) list \<Rightarrow> string list" where
  "health_lines snapshots = [''# HELP openclaw_vm_health 1 if the VM responded to ping, else 0'', ''# TYPE openclaw_vm_health gauge''] @
     map (\<lambda>(tid, info). gauge_line ''openclaw_vm_health'' tid (if pi_vm info = ''up'' then 1 else 0)) snapshots"

text \<open>The age of the last success in whole seconds, \<open>-1\<close> when there was none.\<close>

definition success_age :: "int \<Rightarrow> int \<Rightarrow> int" where
  "success_age n last_success = (if last_success \<le> 0 then - 1 else max 0 (n - last_success) div 1000000)"

definition peer_lines :: "int \<Rightarrow> nat \<Rightarrow> int \<Rightarrow> nat \<Rightarrow> string list" where
  "peer_lines n failures last_success entries = [
     ''# HELP openclaw_peer_map_reload_failures_total nginx -t/reload rejections while applying the peer-map'',
     ''# TYPE openclaw_peer_map_reload_failures_total counter'',
     ''openclaw_peer_map_reload_failures_total '' @ show_nat failures,
     ''# HELP openclaw_peer_map_last_success_age_seconds seconds since the peer-map was last fully applied (-1 = never applied)'',
     ''# TYPE openclaw_peer_map_last_success_age_seconds gauge'',
     ''openclaw_peer_map_last_success_age_seconds '' @ show_int (success_age n last_success),
     ''# HELP openclaw_peer_map_entries peer routes in the last applied generation'',
     ''# TYPE openclaw_peer_map_entries gauge'',
     ''openclaw_peer_map_entries '' @ show_nat entries]"

definition render_metrics_text :: "int \<Rightarrow> (string \<times> probe_info) list \<Rightarrow> nat \<Rightarrow> int \<Rightarrow> nat \<Rightarrow> string" where
  "render_metrics_text n snapshots failures last_success entries =
     join [newline] (concat (map (gauge_lines snapshots) prom_gauges) @ health_lines snapshots @
       peer_lines n failures last_success entries) @ [newline]"

text \<open>\<open>time.strftime("%Y-%m-%dT%H:%M:%SZ")\<close> of a whole second.\<close>

definition utc_text :: "int \<Rightarrow> string" where
  "utc_text n = (let s = iso_format n in take (length s - length ''+00:00'') s @ ''Z'')"

text \<open>The JSON of a probe result, with the keys it has.\<close>

definition probe_json :: "probe_info \<Rightarrow> json" where
  "probe_json i = JObj ([(''vm_health'', JStr (pi_vm i)), (''app_health'', JStr (pi_app i)), (''guest_ip'', JStr (pi_ip i))] @
     (case pi_pid i of None \<Rightarrow> [] | Some p \<Rightarrow> [(''fc_pid'', JInt p)]) @
     (case pi_metrics i of None \<Rightarrow> [] | Some m \<Rightarrow> [(''metrics'', JObj (map (\<lambda>(k, v). (k, JInt v)) m))]) @
     (case pi_updated i of None \<Rightarrow> [] | Some n \<Rightarrow> [(''updated_at'', JStr (utc_text n))]))"

datatype agent_body = Text string | Dump json | Empty

definition do_GET :: "string \<Rightarrow> (node, int \<times> agent_body) io" where
  "do_GET path = (\<lambda>s.
     if path = ''/metrics''
     then (Inr (200, Text (render_metrics_text (w_now (nd_world s)) (nd_status s) (nd_failures s) (nd_last_success s) (nd_entries s))), s)
     else if path \<in> {''/health'', ''/''}
     then (Inr (200, Dump (JObj (map (\<lambda>(tid, i). (tid, probe_json i)) (nd_status s)))), s)
     else (Inr (404, Empty), s))"

end
