(* ===== verification/AgentSafety.thy ===== *)
theory AgentSafety
  imports AgentLoop
begin

text \<open>
  What a whole poll of the agent leaves alone. The locale \<open>sparing\<close> collects what a relation on
  states must allow so that every poll keeps it, except for the probe and the balloon of one VM; it
  is interpreted for a VM whose launch hangs, and for a VM under a migration sentinel.
\<close>

section \<open>Sparing one VM\<close>

locale sparing = agent_frame R for R :: "node \<Rightarrow> node \<Rightarrow> bool" +
  fixes a :: agent_cfg and vm :: string
  assumes frame_other_cmd: "tid \<noteq> vm \<Longrightarrow> R s (s\<lparr>nd_cmds := nd_cmds s @ [(tid, argv)]\<rparr>)"
    and frame_other_added: "tid \<noteq> vm \<Longrightarrow> R s (s\<lparr>nd_recovering := insert tid (nd_recovering s)\<rparr>)"
    and frame_other_removed: "tid \<noteq> vm \<Longrightarrow> R s (s\<lparr>nd_recovering := nd_recovering s - {tid}\<rparr>)"
    and frame_counters: "R s (s\<lparr>nd_net_dead := ds\<rparr>)" "R s (s\<lparr>nd_cpu := cpu\<rparr>)"
    and frame_reports: "R s (s\<lparr>nd_status := st\<rparr>)" "R s (s\<lparr>nd_promoted := ps\<rparr>)" "R s (s\<lparr>nd_last_write := lw\<rparr>)"
    and frame_sync: "R s (s\<lparr>nd_last_sync := m\<rparr>)" "R s (s\<lparr>nd_failures := k\<rparr>)" "R s (s\<lparr>nd_peers := fs\<rparr>)"
      "R s (s\<lparr>nd_loaded := l\<rparr>)" "R s (s\<lparr>nd_ready := r\<rparr>)"
      "R s (s\<lparr>nd_peer_hash := h, nd_last_success := m, nd_entries := k\<rparr>)"
    and frame_calls: "keeps R (on_world (update_host (ag_instance a) no_cond (set_attrs (heartbeat_row m))))"
      "keeps R (on_world (update_tenant tid is_creating (set_attrs (promoted_row info mtr token m))))"
      "keeps R (on_world (update_tenant tid no_cond (set_attrs (health_row info omtr m))))"
      "keeps R (on_world (scan_all w_tenants (\<lambda>_. True)))" "keeps R (on_world (scan_all w_hosts (\<lambda>_. True)))"
    and own_probe: "keeps R (probe_vm a vm)"
    and own_balloon: "keeps R (adjust_one a p (vm, info))"
begin

lemma keeps_other_commands:
  assumes "tid \<noteq> vm"
  shows "keeps R (act tid argv f)" "keeps R (spawn tid argv f)" "keeps R (add_recovering tid)" "keeps R (discard_recovering tid)"
  unfolding act_def spawn_def add_recovering_def discard_recovering_def
  by ((intro keeps_rules)?; simp add: keeps_def frame_other_cmd frame_other_added frame_other_removed assms)+

lemma keeps_net_poll: "keeps R (register_net_poll tid b)"
  by (simp add: keeps_def register_net_poll_def Let_def frame_counters)

lemma keeps_probe: "keeps R (probe_vm a tid)"
proof (cases "tid = vm")
  case True
  then show ?thesis by (simp add: own_probe)
next
  case False
  then show ?thesis
    unfolding probe_vm_def probe_process_def probe_guest_def recover_vm_def force_relaunch_vm_def Let_def
    by (intro keeps_rules keeps_net_poll keeps_other_commands)
qed

lemma keeps_probes: "keeps R (probe_all a)"
  unfolding probe_all_def probe_into_def by (intro keeps_rules keeps_probe)

lemma keeps_stats: "keeps R (get_balloon_stats a tid)"
  unfolding get_balloon_stats_def by (intro keeps_rules)

lemma keeps_map_io: "(\<And>x. keeps R (f x)) \<Longrightarrow> keeps R (map_io f xs)"
  by (induction xs) (auto intro!: keeps_rules)

lemma keeps_enrich: "keeps R (enrich_metrics a results)"
proof -
  have "keeps R (sample_cpu_pct a tid pid v)" for tid pid v
    unfolding sample_cpu_pct_def read_proc_stat_cpu_jiffies_def Let_def
    by (intro keeps_rules) (simp add: keeps_def frame_counters)
  then have "keeps R (compose_metrics a tid m pid v)" for tid m pid v
    unfolding compose_metrics_def read_proc_status_rss_kb_def get_disk_usage_def Let_def
    by (intro keeps_rules keeps_stats)
  then have "keeps R (enrich_one a ti)" for ti
    unfolding enrich_one_def declared_size_def Let_def by (intro keeps_rules)
  then show ?thesis unfolding enrich_metrics_def by (rule keeps_map_io)
qed

lemma keeps_balloons: "keeps R (adjust_balloons a results)"
proof -
  have "keeps R (adjust_one a p (tid, info))" for p tid info
  proof (cases "tid = vm")
    case True
    then show ?thesis by (simp add: own_balloon)
  next
    case False
    then show ?thesis
      unfolding adjust_one_def set_balloon_target_def prod.case by (intro keeps_rules keeps_stats keeps_other_commands)
  qed
  then show ?thesis
    unfolding adjust_balloons_def get_host_mem_info_def by (intro keeps_rules) (metis surj_pair)
qed

lemma keeps_reports: "keeps R (write_host_heartbeat a)" "keeps R (write_ddb a results)"
proof -
  show "keeps R (write_host_heartbeat a)" unfolding write_host_heartbeat_def by (intro keeps_rules frame_calls)
  have marks: "keeps R (mark_promoted tid)" "keeps R (note_write tid info)" "keeps R (forget_gone tids)" for tid info tids
  proof -
    show "keeps R (mark_promoted tid)" by (simp add: mark_promoted_def keeps_def frame_reports)
    show "keeps R (note_write tid info)"
      unfolding note_write_def by (intro keeps_rules) (simp add: keeps_def frame_reports)
    have "R s ((s\<lparr>nd_promoted := x\<rparr>)\<lparr>nd_last_write := y\<rparr>)" for s x y
      using frame_reports(2,3) frame_trans by blast
    then show "keeps R (forget_gone tids)" by (simp add: forget_gone_def keeps_def)
  qed
  show "keeps R (write_ddb a results)"
    unfolding write_ddb_def write_one_def write_health_def try_promote_def read_gateway_token_def Let_def
    by (intro keeps_rules frame_calls marks)
qed

lemma keeps_sync: "keeps R (sync_tenant_routes a)"
proof -
  have "keeps R (write_peer_files d)" for d
    unfolding write_peer_files_def remove_peer_file_def write_peer_file_def Let_def
    by (intro keeps_rules; simp add: keeps_def frame_sync)
  then have "keeps R (apply_peer_map h d)" for h d
    unfolding apply_peer_map_def reload_nginx_def mark_ready_def count_failure_def
    by (intro keeps_rules; simp add: keeps_def frame_sync)
  then show ?thesis
    unfolding sync_tenant_routes_def scan_peer_map_def Let_def
    by (intro keeps_rules frame_calls) (simp_all add: keeps_def frame_sync)
qed

lemma keeps_poll: "keeps R (poll_once a)"
  unfolding poll_once_def publish_status_def Let_def
  by (intro keeps_rules keeps_reports keeps_probes keeps_enrich keeps_balloons keeps_sync) (simp add: keeps_def frame_reports)

lemma keeps_polls: "keeps R (on_world (sleep poll_interval)) \<Longrightarrow> keeps R (poll_loop a n)"
  by (induction n) (auto intro!: keeps_rules keeps_poll)

end

text \<open>The same for a relation between worlds that the rows the agent writes respect.\<close>

locale agent_rows = aws_frame R for R :: "world \<Rightarrow> world \<Rightarrow> bool" +
  fixes a :: agent_cfg
  assumes keeps_heartbeat: "keeps R (update_host (ag_instance a) no_cond (set_attrs (heartbeat_row m)))"
    and keeps_promotion: "keeps R (update_tenant tid is_creating (set_attrs (promoted_row info mtr token m)))"
    and keeps_health: "keeps R (update_tenant tid no_cond (set_attrs (health_row info omtr m)))"

sublocale agent_rows \<subseteq> polled: sparing "seen R" a vm for vm
proof unfold_locales
  have balloon: "keeps (seen R) (set_balloon_target tid n)" for tid n
    unfolding set_balloon_target_def by (intro keeps_rules)
  show "keeps (seen R) (probe_vm a vm)"
    unfolding probe_vm_def probe_process_def probe_guest_def recover_vm_def force_relaunch_vm_def Let_def
    by (intro keeps_rules)
  show "keeps (seen R) (adjust_one a p (vm, info))" for p info
    unfolding adjust_one_def get_balloon_stats_def prod.case by (intro keeps_rules balloon)
qed (simp add: seen_def frame_refl | rule keeps_seen keeps_heartbeat keeps_promotion keeps_health keeps_scan_all)+

section \<open>A launch that hangs\<close>

text \<open>No look at the host, now or later, finds a Firecracker process of the VM.\<close>

definition no_process :: "string \<Rightarrow> machine \<Rightarrow> bool" where
  "no_process tid b = (case finished (vd_pgrep (dir_of b tid)) of Inl e \<Rightarrow> True | Inr r \<Rightarrow> first_pid r = None)"

definition hung :: "string \<Rightarrow> node \<Rightarrow> bool" where
  "hung tid s = (tid \<in> nd_recovering s \<and> (\<forall>b \<in> boxes s. no_process tid b))"

text \<open>The scripts started for a VM.\<close>

definition scripts_for :: "string \<Rightarrow> node \<Rightarrow> (string \<times> string list) list" where
  "scripts_for tid s = filter (\<lambda>(t, argv). t = tid \<and> hd argv = ''bash'') (nd_cmds s)"

definition left_hanging :: "string \<Rightarrow> node \<Rightarrow> node \<Rightarrow> bool" where
  "left_hanging tid s t = (hung tid s \<longrightarrow> hung tid t \<and> scripts_for tid t = scripts_for tid s)"

lemma hung_turned: "hung tid s \<Longrightarrow> hung tid (turned s)"
  using turned_boxes(1) [of s] by (auto simp: hung_def)

lemma left_hangingI:
  "nd_recovering t = nd_recovering s \<Longrightarrow> nd_box t = nd_box s \<Longrightarrow> nd_future t = nd_future s \<Longrightarrow>
   scripts_for tid t = scripts_for tid s \<Longrightarrow> left_hanging tid s t"
  by (simp add: left_hanging_def hung_def boxes_def)

interpretation hanging: agent_frame "left_hanging tid" for tid
  by unfold_locales (auto simp: left_hanging_def hung_turned scripts_for_def)

lemma hanging_probe: "keeps (left_hanging tid) (probe_process tid cfg ip)"
proof (rule keepsI)
  fix s
  show "left_hanging tid s (snd (probe_process tid cfg ip s))"
  proof (cases "hung tid s")
    case True
    have "no_process tid (nd_box (turned s))" using True turned_boxes(2) by (auto simp: hung_def)
    then have "snd (probe_process tid cfg ip s) = turned s"
      using True by (cases "finished (vd_pgrep (dir_of (nd_box (turned s)) tid))")
        (auto simp: no_process_def probe_process_def ask_def recover_vm_def hung_def look_turned io_simps)
    then show ?thesis by (simp add: hanging.frame_turn)
  qed (simp add: left_hanging_def)
qed

lemma hanging_world: "keeps (left_hanging tid) (on_world m)"
  by (rule keeps_on_world) (simp add: left_hangingI scripts_for_def)

lemma hanging_balloon: "keeps (left_hanging tid) (adjust_one a p (tid, info))"
proof -
  have "keeps (left_hanging tid) (set_balloon_target tid n)" for n
    unfolding set_balloon_target_def act_def balloon_argv_def
    by (intro keeps_rules) (simp add: keeps_def left_hangingI scripts_for_def)
  then show ?thesis
    unfolding adjust_one_def get_balloon_stats_def prod.case by (intro keeps_rules)
qed

interpretation hanging: sparing "left_hanging tid" a tid for tid a
proof unfold_locales
  show "keeps (left_hanging tid) (probe_vm a tid)"
    unfolding probe_vm_def Let_def by (intro keeps_rules hanging_probe)
  show "keeps (left_hanging tid) (adjust_one a p (tid, info))" for p info by (rule hanging_balloon)
qed (auto simp: left_hanging_def hung_def boxes_def scripts_for_def intro: hanging_world)

section \<open>A VM under a migration sentinel\<close>

text \<open>The latest time a poll can read: the present time and all delays to come.\<close>

definition world_horizon :: "world \<Rightarrow> int" where
  "world_horizon w = w_now w + sum_list (map (int \<circ> fst) (w_oracle w))"

definition horizon :: "node \<Rightarrow> int" where
  "horizon s = world_horizon (nd_world s) + sum_list (map (int \<circ> fst) (nd_future s))"

definition guarded_vm :: "agent_cfg \<Rightarrow> string \<Rightarrow> node \<Rightarrow> bool" where
  "guarded_vm a tid s = (\<forall>b \<in> boxes s. \<exists>m. vd_migrating (dir_of b tid) = Some m \<and> horizon s - m \<le> seconds (ag_sentinel_ttl a))"

definition commands_for :: "string \<Rightarrow> node \<Rightarrow> (string \<times> string list) list" where
  "commands_for tid s = filter (\<lambda>(t, argv). t = tid) (nd_cmds s)"

definition left_migrating :: "agent_cfg \<Rightarrow> string \<Rightarrow> node \<Rightarrow> node \<Rightarrow> bool" where
  "left_migrating a tid s t = (guarded_vm a tid s \<longrightarrow> guarded_vm a tid t \<and> commands_for tid t = commands_for tid s)"

lemma horizon_turned [simp]: "horizon (turned s) = horizon s"
  by (simp add: horizon_def world_horizon_def turned_def split: list.split)

lemma left_migratingI:
  "nd_box t = nd_box s \<Longrightarrow> nd_future t = nd_future s \<Longrightarrow> world_horizon (nd_world t) = world_horizon (nd_world s) \<Longrightarrow>
   commands_for tid t = commands_for tid s \<Longrightarrow> left_migrating a tid s t"
  by (simp add: left_migrating_def guarded_vm_def boxes_def horizon_def)

lemma world_horizon_aws: "keeps (unchanged world_horizon) m \<Longrightarrow> keeps (unchanged world_horizon) (aws m)"
  by (auto simp: keeps_def unchanged_def aws_def Let_def world_horizon_def split: list.split option.split)

lemma world_horizon_calls:
  "keeps (unchanged world_horizon) (update_host i c u)" "keeps (unchanged world_horizon) (update_tenant k d v)"
  "keeps (unchanged world_horizon) (scan_all tb P)"
proof -
  have "keeps (unchanged world_horizon) (scan_from n P rows k)" for n P rows k
  proof (induction n P rows k rule: scan_from.induct)
    case (1 n P rows k)
    show ?case by (subst scan_from.simps) (auto intro!: keeps_rules world_horizon_aws "1.IH" simp del: add_Suc_right)
  qed
  then show "keeps (unchanged world_horizon) (scan_all tb P)" unfolding scan_all_def keeps_def by blast
  show "keeps (unchanged world_horizon) (update_host i c u)" "keeps (unchanged world_horizon) (update_tenant k d v)"
    unfolding update_host_def update_tenant_def
    by (intro world_horizon_aws; simp add: keeps_def unchanged_def world_horizon_def split: sum.split prod.split)+
qed

interpretation migrating: agent_frame "left_migrating a tid" for a tid
proof unfold_locales
  show "left_migrating a tid s (turned s)" for s
    using turned_boxes(1) [of s] by (auto simp: left_migrating_def guarded_vm_def commands_for_def)
qed (auto simp: left_migrating_def)

lemma migrating_world: "keeps (unchanged world_horizon) m \<Longrightarrow> keeps (left_migrating a tid) (on_world m)"
  by (rule keeps_on_world) (auto simp: commands_for_def unchanged_def intro!: left_migratingI dest: keepsD)

lemma delays_nonneg: "0 \<le> sum_list (map (int \<circ> fst) xs)"
  by (induction xs) auto

text \<open>What stands behind the check of the sentinel is not reached.\<close>

lemma sentinel_seen:
  assumes "guarded_vm a tid s"
  shows "is_migrating a tid s = (Inr True, turned s)"
proof -
  obtain m where m: "vd_migrating (dir_of (nd_box (turned s)) tid) = Some m" "horizon s - m \<le> seconds (ag_sentinel_ttl a)"
    using assms turned_boxes(2) by (auto simp: guarded_vm_def)
  have "w_now (nd_world s) \<le> horizon s" by (simp add: horizon_def world_horizon_def delays_nonneg)
  with m show ?thesis by (simp add: is_migrating_def wall_def look_vm_def look_turned io_simps)
qed

lemma migrating_checked:
  assumes "keeps (left_migrating a tid) X"
  shows "keeps (left_migrating a tid) (andThen (is_migrating a tid) (\<lambda>m. if m then X else Y))"
proof (rule keepsI)
  fix s
  show "left_migrating a tid s (snd (andThen (is_migrating a tid) (\<lambda>m. if m then X else Y) s))"
  proof (cases "guarded_vm a tid s")
    case True
    have "left_migrating a tid (turned s) (snd (X (turned s)))" using assms by (simp add: keeps_def)
    with migrating.frame_turn have "left_migrating a tid s (snd (X (turned s)))" by (rule migrating.frame_trans)
    then show ?thesis by (simp add: sentinel_seen [OF True] andThen_apply)
  qed (simp add: left_migrating_def)
qed

interpretation migrating: sparing "left_migrating a tid" a tid for a tid
proof unfold_locales
  show "keeps (left_migrating a tid) (probe_vm a tid)"
    unfolding probe_vm_def Let_def by (intro migrating_checked keeps_rules)
  show "keeps (left_migrating a tid) (adjust_one a p (tid, info))" for p info
    unfolding adjust_one_def prod.case by (intro migrating_checked keeps_rules)
qed (rule migrating_world world_horizon_calls left_migratingI; simp add: commands_for_def world_horizon_calls)+

section \<open>Properties\<close>

text \<open>A host with one VM directory.\<close>

definition sample_config :: vm_config where
  "sample_config = \<lparr>vj_guest_ip = Some ''172.16.1.2'', vj_vm_num = Some 1, vj_vcpu = Some 2, vj_mem_mb = Some 4096\<rparr>"

definition sample_dir :: vm_dir where
  "sample_dir = no_dir\<lparr>vd_config := Some (Inr sample_config), vd_sock := True\<rparr>"

definition host_with :: "string \<Rightarrow> vm_dir \<Rightarrow> node" where
  "host_with tid d = node0\<lparr>nd_box := machine0\<lparr>bx_dirs := Some [(tid, d)]\<rparr>\<rparr>"

lemma host_with_boxes [simp]: "boxes (host_with tid d) = {machine0\<lparr>bx_dirs := Some [(tid, d)]\<rparr>}"
  by (simp add: boxes_def host_with_def node0_def)

text \<open>
  A launch that comes to nothing is never tried again: once the agent has started the launch script
  of a VM, then as long as no Firecracker process of the VM appears, no number of polls starts a
  script for it, whatever happens on the host and in the tables meanwhile; the agent waits for ever.
\<close>

theorem hung_launch_never_retried:
  assumes "tid \<in> nd_recovering s" "\<forall>b \<in> boxes s. no_process tid b"
  shows "scripts_for tid (snd (poll_loop a n s)) = scripts_for tid s \<and> tid \<in> nd_recovering (snd (poll_loop a n s))"
proof -
  have "left_hanging tid s (snd (poll_loop a n s))"
    using hanging.keeps_polls [OF hanging_world] by (simp add: keeps_def)
  then show ?thesis using assms by (simp add: left_hanging_def hung_def)
qed

theorem hung_launch_never_retried_witness:
  "scripts_for ''t-1'' (snd (poll_loop agent_cfg0 1000 ((host_with ''t-1'' sample_dir)\<lparr>nd_recovering := {''t-1''}\<rparr>))) = []"
proof -
  let ?s = "(host_with ''t-1'' sample_dir)\<lparr>nd_recovering := {''t-1''}\<rparr>"
  have "boxes ?s = boxes (host_with ''t-1'' sample_dir)" by (simp add: boxes_def)
  then have "\<forall>b \<in> boxes ?s. no_process ''t-1'' b"
    by (simp add: no_process_def dir_of_def sample_dir_def no_dir_def finished_def first_pid_def)
  moreover have "scripts_for ''t-1'' ?s = []" by (simp add: scripts_for_def host_with_def node0_def)
  ultimately show ?thesis using hung_launch_never_retried [of "''t-1''" ?s agent_cfg0 1000] by simp
qed

text \<open>
  C13. A migrating VM is left alone: while its sentinel is there and will not be older than the limit
  before the poll ends, the poll starts, stops and balloons nothing for it, whatever else is on the
  host and whatever fails.
\<close>

theorem migrating_vm_left_alone:
  assumes "\<forall>b \<in> boxes s. \<exists>m. vd_migrating (dir_of b tid) = Some m \<and> horizon s - m \<le> seconds (ag_sentinel_ttl a)"
  shows "commands_for tid (snd (poll_once a s)) = commands_for tid s"
proof -
  have "left_migrating a tid s (snd (poll_once a s))" using migrating.keeps_poll by (simp add: keeps_def)
  then show ?thesis using assms by (simp add: left_migrating_def guarded_vm_def)
qed

theorem migrating_vm_left_alone_witness:
  "commands_for ''t-1'' (snd (poll_once agent_cfg0 (host_with ''t-1'' (sample_dir\<lparr>vd_migrating := Some 0\<rparr>)))) = []"
proof -
  let ?s = "host_with ''t-1'' (sample_dir\<lparr>vd_migrating := Some 0\<rparr>)"
  have "horizon ?s = 0" by (simp add: horizon_def world_horizon_def host_with_def node0_def)
  then have "\<forall>b \<in> boxes ?s. \<exists>m. vd_migrating (dir_of b ''t-1'') = Some m \<and> horizon ?s - m \<le> seconds (ag_sentinel_ttl agent_cfg0)"
    by (simp add: dir_of_def agent_cfg0_def seconds_def)
  from migrating_vm_left_alone [OF this] show ?thesis by (simp add: commands_for_def host_with_def node0_def)
qed

end
