(* ===== verification/AgentTables.thy ===== *)
theory AgentTables
  imports AgentSafety
begin

text \<open>
  The agent's writes seen from the tables: what they can change, how old the health of a tenant can
  become, and the cases in which nothing is reported.
\<close>

section \<open>What a poll can change in the tables\<close>

text \<open>A row without the attributes the agent writes.\<close>

definition bare :: "tenant \<Rightarrow> tenant" where
  "bare t = t\<lparr>t_status := None, t_vm_health := None, t_app_health := None, t_health_failures := None,
     t_last_health_check := None, t_updated_at := None, t_gateway_token := None, t_metrics := None\<rparr>"

definition bare_host :: "host \<Rightarrow> host" where
  "bare_host h = h\<lparr>h_last_seen := None, h_last_health_check := None\<rparr>"

definition status_step :: "string option \<Rightarrow> string option \<Rightarrow> bool" where
  "status_step st st' = (st' = st \<or> st = Some ''creating'' \<and> st' = Some ''running'')"

definition agent_edit :: "tenant \<Rightarrow> tenant \<Rightarrow> bool" where
  "agent_edit t t' = (bare t' = bare t \<and> status_step (t_status t) (t_status t'))"

text \<open>A row that was not there may be created by a report, without a status and a host.\<close>

definition tenant_rows_edited :: "world \<Rightarrow> world \<Rightarrow> bool" where
  "tenant_rows_edited w w' = (\<forall>k. case map_of (w_tenants w) k of
       None \<Rightarrow> (\<forall>t'. map_of (w_tenants w') k = Some t' \<longrightarrow> agent_edit (fresh_tenant k) t')
     | Some t \<Rightarrow> (\<exists>t'. map_of (w_tenants w') k = Some t' \<and> agent_edit t t'))"

definition host_rows_edited :: "string \<Rightarrow> world \<Rightarrow> world \<Rightarrow> bool" where
  "host_rows_edited i w w' = (\<forall>k. map_option bare_host (map_of (w_hosts w') k) = map_option bare_host (map_of (w_hosts w) k) \<and>
       (k \<noteq> i \<longrightarrow> map_of (w_hosts w') k = map_of (w_hosts w) k) \<or>
     k = i \<and> map_of (w_hosts w) k = None \<and> map_option bare_host (map_of (w_hosts w') k) = Some (fresh_host k))"

definition agent_writes :: "string \<Rightarrow> world \<Rightarrow> world \<Rightarrow> bool" where
  "agent_writes i w w' = (tenant_rows_edited w w' \<and> host_rows_edited i w w')"

lemma agent_edit_refl: "agent_edit t t"
  by (simp add: agent_edit_def status_step_def)

lemma agent_edit_trans: "agent_edit t u \<Longrightarrow> agent_edit u v \<Longrightarrow> agent_edit t v"
  by (auto simp: agent_edit_def status_step_def)

lemma tenant_rows_refl: "w_tenants w' = w_tenants w \<Longrightarrow> tenant_rows_edited w w'"
  by (simp add: tenant_rows_edited_def agent_edit_refl split: option.split)

lemma tenant_rows_trans:
  assumes "tenant_rows_edited u v" "tenant_rows_edited v w"
  shows "tenant_rows_edited u w"
  unfolding tenant_rows_edited_def
proof
  fix k
  have 1: "case map_of (w_tenants u) k of None \<Rightarrow> (\<forall>t'. map_of (w_tenants v) k = Some t' \<longrightarrow> agent_edit (fresh_tenant k) t')
     | Some t \<Rightarrow> (\<exists>t'. map_of (w_tenants v) k = Some t' \<and> agent_edit t t')"
    using assms(1) unfolding tenant_rows_edited_def by blast
  have 2: "case map_of (w_tenants v) k of None \<Rightarrow> (\<forall>t'. map_of (w_tenants w) k = Some t' \<longrightarrow> agent_edit (fresh_tenant k) t')
     | Some t \<Rightarrow> (\<exists>t'. map_of (w_tenants w) k = Some t' \<and> agent_edit t t')"
    using assms(2) unfolding tenant_rows_edited_def by blast
  show "case map_of (w_tenants u) k of None \<Rightarrow> (\<forall>t'. map_of (w_tenants w) k = Some t' \<longrightarrow> agent_edit (fresh_tenant k) t')
     | Some t \<Rightarrow> (\<exists>t'. map_of (w_tenants w) k = Some t' \<and> agent_edit t t')"
    using 1 2 agent_edit_trans by (auto split: option.splits)
qed

lemma host_rows_refl: "w_hosts w' = w_hosts w \<Longrightarrow> host_rows_edited i w w'"
  by (simp add: host_rows_edited_def)

lemma bare_fresh_host: "bare_host (fresh_host k) = fresh_host k"
  by (simp add: bare_host_def fresh_host_def)

lemma host_rows_trans: "host_rows_edited i u v \<Longrightarrow> host_rows_edited i v w \<Longrightarrow> host_rows_edited i u w"
  unfolding host_rows_edited_def by (metis option.map_disc_iff)

interpretation agent_world: aws_frame "agent_writes i" for i
proof unfold_locales
  show "agent_writes i u v \<Longrightarrow> agent_writes i v w \<Longrightarrow> agent_writes i u w" for u v w
    unfolding agent_writes_def using tenant_rows_trans host_rows_trans by blast
qed (simp_all add: agent_writes_def tenant_rows_refl host_rows_refl)

lemma keeps_agent_tenant:
  assumes "\<And>t. c (Some t) \<Longrightarrow> agent_edit t (f t)" "c None \<Longrightarrow> agent_edit (fresh_tenant k) (f (fresh_tenant k))"
  shows "keeps (agent_writes i) (update_tenant k c (set_attrs f))"
  unfolding update_tenant_def
proof (rule agent_world.keeps_aws, rule keepsI)
  fix w
  show "agent_writes i w (snd (case tbl_update fresh_tenant k c (set_attrs f) (w_tenants w) of
      Inl e \<Rightarrow> (Inl e, w) | Inr (tb, r) \<Rightarrow> (Inr r, w\<lparr>w_tenants := tb\<rparr>)))"
  proof (cases "tbl_update fresh_tenant k c (set_attrs f) (w_tenants w)")
    case (Inr p)
    let ?old = "case map_of (w_tenants w) k of None \<Rightarrow> fresh_tenant k | Some t \<Rightarrow> t"
    have "fst p = AList.update k (f ?old) (w_tenants w)" "c (map_of (w_tenants w) k)"
      using Inr by (cases p; auto simp: tbl_update_Inr set_attrs_def)+
    then have "tenant_rows_edited w (w\<lparr>w_tenants := fst p\<rparr>)"
      using assms by (auto simp: tenant_rows_edited_def update_conv' agent_edit_refl split: option.splits)
    then show ?thesis using Inr by (cases p) (simp add: agent_writes_def host_rows_refl)
  qed (simp add: agent_world.frame_refl)
qed

lemma keeps_agent_host: "keeps (agent_writes i) (update_host i no_cond (set_attrs (heartbeat_row n)))"
  unfolding update_host_def
proof (rule agent_world.keeps_aws, rule keepsI)
  fix w
  have "bare_host (heartbeat_row n h) = bare_host h" for h by (simp add: bare_host_def heartbeat_row_def)
  then show "agent_writes i w (snd (case tbl_update fresh_host i no_cond (set_attrs (heartbeat_row n)) (w_hosts w) of
      Inl e \<Rightarrow> (Inl e, w) | Inr (tb, r) \<Rightarrow> (Inr r, w\<lparr>w_hosts := tb\<rparr>)))"
    by (cases "map_of (w_hosts w) i")
      (auto simp: tbl_update_def no_cond_def set_attrs_def Let_def agent_writes_def tenant_rows_refl host_rows_edited_def
        update_conv' bare_fresh_host)
qed

interpretation agent_world: agent_rows "agent_writes (ag_instance a)" a for a
proof unfold_locales
  show "keeps (agent_writes (ag_instance a)) (update_host (ag_instance a) no_cond (set_attrs (heartbeat_row m)))" for m
    by (rule keeps_agent_host)
  show "keeps (agent_writes (ag_instance a)) (update_tenant tid is_creating (set_attrs (promoted_row info mtr token m)))"
    for tid info mtr token m
    by (rule keeps_agent_tenant)
      (simp_all add: is_creating_def agent_edit_def bare_def promoted_row_def status_step_def)
  show "keeps (agent_writes (ag_instance a)) (update_tenant tid no_cond (set_attrs (health_row info omtr m)))"
    for tid info omtr m
    by (rule keeps_agent_tenant)
      (simp_all add: agent_edit_def bare_def health_row_def status_step_def Let_def split: option.split)
qed

text \<open>
  C28. An agent reports, it does not place: whatever its poll meets and whatever calls fail, no tenant
  row disappears, every attribute but the health, the token and the metrics keeps its value, the
  status changes at most from creating to running, and of the hosts table at most the two time
  stamps of its own row change (the row is created when it was not there).
\<close>

theorem agent_only_reports:
  "agent_writes (ag_instance a) (nd_world s) (nd_world (snd (poll_loop a n s)))"
proof -
  have "keeps (seen (agent_writes (ag_instance a))) (poll_loop a n)"
    by (rule agent_world.polled.keeps_polls) (intro keeps_rules)
  then show ?thesis by (simp add: keeps_def seen_def)
qed

end
