(* ===== verification/System.thy ===== *)
theory System
  imports Api Scaler Backup HealthCheck AgentTables
begin

text \<open>
  The control plane as one transition system: requests and auto-scaling events to the API, the
  timers of the scaler, the backup and the health check, the messages of the failover queue, and
  the polls of the agents on the hosts, in any order and with any pattern of failing service calls. Invariants of the shared tenant table
  are proved here once for all entry points.
\<close>

section \<open>What every entry point does to the tenant table\<close>

text \<open>The vocabulary of the status attribute.\<close>

definition statuses :: "string list" where
  "statuses = [''pending'', ''creating'', ''running'', ''stopped'', ''paused'', ''migrating'', ''deleted'',
     ''failover_queued'', ''failover_recovering'', ''failover_blocked'', ''failover_failed'', ''failover_failed_partial'']"

definition known_status :: "tenant \<Rightarrow> bool" where
  "known_status t = (case t_status t of None \<Rightarrow> True | Some s \<Rightarrow> s \<in> set statuses)"

text \<open>An edit of a row keeps its id, and its status unless it sets one of the vocabulary.\<close>

definition row_edit :: "(tenant \<Rightarrow> tenant) \<Rightarrow> bool" where
  "row_edit f = (\<forall>r. t_id (f r) = t_id r \<and> (known_status r \<longrightarrow> known_status (f r)))"

lemma known_update [simp]:
  "t_status r = Some s \<Longrightarrow> known_status r \<longleftrightarrow> s \<in> set statuses"
  "t_status r = None \<Longrightarrow> known_status r"
  by (simp_all add: known_status_def)

lemma row_edits:
  "row_edit (cancelled_row n)" "row_edit (migrating_row tgt tvn src sc md uri n)" "row_edit (restore_row rc n)"
  "row_edit (rolled_back_row reason n)" "row_edit (moved_row tgt tvn n)" "row_edit (assign_pending_row c h vn n)"
  "row_edit (recovered_row i m bk)" "row_edit blocked_row" "row_edit (worker_row n)" "row_edit stale_row"
  unfolding row_edit_def
  by (simp_all add: cancelled_row_def clear_migration_def migrating_row_def restore_row_def rolled_back_row_def
      moved_row_def assign_pending_row_def recovered_row_def blocked_row_def worker_row_def stale_row_def statuses_def
      known_status_def)

lemma status_edits:
  assumes "st \<in> set statuses"
  shows "row_edit (set_status_row st n rv)" "row_edit (status_row st n)" "row_edit (\<lambda>r. r\<lparr>t_status := Some st\<rparr>)"
    "row_edit (\<lambda>r. r\<lparr>t_status := Some st, t_updated_at := Some (At n)\<rparr>)"
    "row_edit (failover_failed_row st err)" "row_edit (claimed_row st p az n)"
  using assms unfolding row_edit_def
  by (simp_all add: set_status_row_def status_row_def failover_failed_row_def claimed_row_def)

lemma other_edits:
  "row_edit (\<lambda>r. r\<lparr>t_vcpu := v, t_updated_at := n\<rparr>)" "row_edit (\<lambda>r. r\<lparr>t_data_disk_mb := v, t_updated_at := n\<rparr>)"
  "row_edit (\<lambda>r. r\<lparr>t_last_backup_at := n\<rparr>)"
  unfolding row_edit_def by (simp_all add: known_status_def)

lemma new_rows_known: "known_status (pending_row rq tid n)" "known_status (creating_row c rq tid n h vn)"
  by (simp_all add: pending_row_def creating_row_def statuses_def)

lemma vocabulary [simp]:
  "''running'' \<in> set statuses" "''stopped'' \<in> set statuses" "''paused'' \<in> set statuses" "''deleted'' \<in> set statuses"
  "''failover_queued'' \<in> set statuses" "''failover_recovering'' \<in> set statuses" "''failover_failed'' \<in> set statuses"
  "''failover_failed_partial'' \<in> set statuses"
  by (simp_all add: statuses_def)

lemma agent_edits: "row_edit (promoted_row info mtr token n)" "row_edit (health_row info omtr n)"
  unfolding row_edit_def
  by (simp_all add: promoted_row_def health_row_def statuses_def known_status_def Let_def split: option.split)

lemmas edits = row_edits status_edits other_edits agent_edits

lemma known_answer: "early (pure_val (Inr y)) f = f y"
  by (simp add: fun_eq_iff early_apply early_part_apply)

context aws_frame begin

lemma keeps_case_stamp [keeps_rules]:
  "(\<And>n. keeps R (f n)) \<Longrightarrow> (\<And>s. keeps R (g s)) \<Longrightarrow> keeps R (case x of At n \<Rightarrow> f n | Garbled s \<Rightarrow> g s)"
  by (cases x) simp_all

lemma keeps_case_json [keeps_rules]:
  assumes "keeps R n" "\<And>b. keeps R (fb b)" "\<And>i. keeps R (fi i)" "\<And>x. keeps R (fx x)" "\<And>b. keeps R (ff b)" "keeps R na"
    "\<And>s. keeps R (fs s)" "\<And>xs. keeps R (fl xs)" "\<And>kvs. keeps R (fo kvs)"
  shows "keeps R (case_json n fb fi fx ff na fs fl fo j)"
  using assms by (cases j) simp_all

lemma keeps_batch_targets [keeps_rules]: "keeps R (batch_targets b)"
  unfolding batch_targets_def resolve_filter_def Let_def by (intro keeps_rules)

end

locale row_keeping = service_blind R + host_blind R for R :: "world \<Rightarrow> world \<Rightarrow> bool" +
  assumes frame_edit: "row_edit f \<Longrightarrow> keeps R (update_tenant k cnd (set_attrs f))"
    and frame_put: "known_status t \<Longrightarrow> keeps R (put_tenant_row t)"
    and frame_groups: "R w (w\<lparr>w_groups := gs\<rparr>)"
    and frame_objects: "R w (w\<lparr>w_objects := os\<rparr>)"
    and frame_asg: "R w (w\<lparr>w_asg := a\<rparr>)"
    and frame_terminated: "R w (w\<lparr>w_terminated := ts\<rparr>)"
    and frame_completed: "R w (w\<lparr>w_completed := cs\<rparr>)"
    and frame_queue: "R w (w\<lparr>w_queue := q\<rparr>)"
    and frame_invoked: "R w (w\<lparr>w_invoked := js\<rparr>)"
begin

lemmas frames = frame_groups frame_objects frame_asg frame_terminated frame_completed frame_queue frame_invoked frame_refl

lemma keeps_more_services [keeps_rules]:
  "keeps R (put_object k s)" "keeps R (delete_keys ks)" "keeps R (invoke_lambda fn j)" "keeps R (send_job jb)"
  "keeps R (terminate_instance i)" "keeps R (set_group_skills g ss)" "keeps R (put_new_group gr)" "keeps R scale_out"
  unfolding put_object_def delete_keys_def invoke_lambda_def send_job_def terminate_instance_def set_group_skills_def
    put_new_group_def scale_out_def
  by (intro keeps_rules; simp add: keeps_def frames split: option.split)+

lemma keeps_slots [keeps_rules]:
  "keeps R (reserve_host_slot c h v m)" "keeps R (release_host_slot i v m)"
  "keeps R (register_host c e tm bd)" "keeps R (deregister_host i)"
  unfolding reserve_host_slot_def release_host_slot_def register_host_def deregister_host_def Let_def
  by (intro keeps_rules)+

lemma keeps_group_routes [keeps_rules]:
  "keeps R (create_group c bd)" "keeps R (add_skill_to_group c g bd)" "keeps R (remove_skill_from_group c g sk)"
  "keeps R (update_skill c sk bd)" "keeps R (delete_skill c sk)"
  unfolding create_group_def add_skill_to_group_def remove_skill_from_group_def edit_group_def
    update_skill_def delete_skill_def or_500_def Let_def
  by (intro keeps_rules)+

lemma keeps_routing_routes [keeps_rules]:
  "keeps R (rebuild_routing c bd)" "keeps R (purge_per_tenant_routing c bd)"
  unfolding rebuild_routing_def purge_per_tenant_routing_def purge_one_def Let_def
  by (intro keeps_rules)+

lemma keeps_launch [keeps_rules]:
  "keeps R (ssm_run i cmd t)" "keeps R (launch_vm c i tid n v m ip port tmpl rk sk)"
  unfolding ssm_run_def launch_vm_def Let_def by (intro keeps_rules)+

lemma keeps_reserve_first [keeps_rules]: "keeps R (reserve_first c hs v m)"
  by (induction hs) (auto intro!: keeps_rules)

lemma keeps_mark_deleted [keeps_rules]: "keeps R (mark_deleted tid)"
  unfolding mark_deleted_def by (intro keeps_rules frame_edit edits vocabulary)

lemma keeps_create [keeps_rules]: "keeps R (create_tenant c bd)"
  unfolding create_tenant_def create_checked_def create_placed_def launch_created_def clone_disks_def queue_pending_def Let_def
  by (intro keeps_rules frame_put new_rows_known)

lemma keeps_delete [keeps_rules]: "keeps R (delete_tenant c tid q)"
  unfolding delete_tenant_def stop_and_forget_def clear_host_def free_slot_def Let_def by (intro keeps_rules)

lemma keeps_place_pending [keeps_rules]: "keeps R (place_pending c ts n)"
proof (induction ts arbitrary: n)
  case (Cons t ts)
  then show ?case unfolding place_pending.simps assign_pending_def Let_def by (intro keeps_rules frame_edit edits)
qed (simp add: keeps_ok)

lemma keeps_process_pending [keeps_rules]: "keeps R (process_pending c)"
  unfolding process_pending_def by (intro keeps_rules)

lemma keeps_actions [keeps_rules]:
  "keeps R (cancel_migration c tid t)" "keeps R (resize_disk c tid t bd)" "keeps R (migrate_tenant c tid t bd)"
  "keeps R (tenant_resize c tid bd)" "keeps R (start_backup c tid)"
proof -
  show "keeps R (cancel_migration c tid t)" unfolding cancel_migration_def by (intro keeps_rules frame_edit edits)
  show "keeps R (resize_disk c tid t bd)" unfolding resize_disk_def Let_def by (intro keeps_rules frame_edit edits)
  show "keeps R (migrate_tenant c tid t bd)"
    unfolding migrate_tenant_def migrate_target_def ssm_send_def Let_def by (intro keeps_rules frame_edit edits)
  show "keeps R (tenant_resize c tid bd)"
    unfolding tenant_resize_def wanted_vcpu_def resize_checks_def Let_def by (intro keeps_rules frame_edit edits)
  show "keeps R (start_backup c tid)" unfolding start_backup_def by (intro keeps_rules)
qed

lemma keeps_lifecycle:
  assumes "\<And>cmd tm st. command = Inr (cmd, tm, st) \<Longrightarrow> st \<in> set statuses"
  shows "keeps R (lifecycle_action c tid t a command)"
proof (cases command)
  case (Inl e)
  then have "lifecycle_action c tid t a command = (\<lambda>w. (Inl e, w))"
    by (simp add: lifecycle_action_def io_simps fun_eq_iff)
  then show ?thesis by (simp add: keeps_def frame_refl)
next
  case (Inr x)
  obtain cmd tm st where x: "x = (cmd, tm, st)" by (cases x)
  have "row_edit (set_status_row st n rv)" for n rv using assms Inr x status_edits(1) by blast
  then show ?thesis
    unfolding lifecycle_action_def Inr x known_answer reset_version_def prod.case by (intro keeps_rules frame_edit)
qed

lemma action_statuses: "action_command c tid t a = Some (Inr (cmd, tm, st)) \<Longrightarrow> st \<in> set statuses"
  by (auto simp: action_command_def bind_sum_Inr split: if_splits)

lemma keeps_tenant_action [keeps_rules]: "keeps R (tenant_action c tid a bd)"
  unfolding tenant_action_def run_action_def
  by (intro keeps_rules keeps_lifecycle) (use action_statuses in blast)

lemma keeps_batch [keeps_rules]: "keeps R (batch_tenants c bd)"
proof -
  have "keeps R (batch_run c a ids)" for a ids
    by (induction ids) (auto simp: batch_one_def intro!: keeps_rules)
  then show ?thesis unfolding batch_tenants_def Let_def by (intro keeps_rules)
qed

lemma keeps_fleet [keeps_rules]:
  "keeps R (drain_host c i)" "keeps R (trigger_failover c az)" "keeps R (cleanup_terminated_host c i hook)"
  "keeps R (refresh_rootfs c p e)"
proof -
  have "keeps R (drain_all c i ts)" for ts
    by (induction ts) (auto simp: drain_one_def intro!: keeps_rules)
  then show "keeps R (drain_host c i)" unfolding drain_host_def by (intro keeps_rules)
  show "keeps R (trigger_failover c az)" unfolding trigger_failover_def by (intro keeps_rules)
  have "keeps R (complete_hook hook i)"
    unfolding complete_hook_def by (intro keeps_rules) (simp add: keeps_def frames)
  then show "keeps R (cleanup_terminated_host c i hook)"
    unfolding cleanup_terminated_host_def reap_tenant_def by (intro keeps_rules)
  show "keeps R (refresh_rootfs c p e)"
    unfolding refresh_rootfs_def get_manifest_def mark_rootfs_def Let_def by (intro keeps_rules)
qed

lemma keeps_scaler [keeps_rules]: "keeps R (scaler_handler c)"
proof -
  have "keeps R (terminate_in_asg i)" for i
    unfolding terminate_in_asg_def
    by (rule keeps_aws) (use frame_trans [OF frame_terminated frame_asg] in \<open>simp add: keeps_def\<close>)
  then show ?thesis
    unfolding scaler_handler_def process_ttl_expirations_def expire_one_def update_tenant_status_def audit_act_def
      reconcile_schedules_def reconcile_one_def set_status_only_def host_tick_def idle_check_def retire_host_def can_scale_in_def
      set_host_status_def set_idle_since_def Let_def
    by (intro keeps_rules frame_edit edits vocabulary)
qed

lemma keeps_backup [keeps_rules]: "keeps R (backup_handler c i)"
proof -
  have "keeps R (backup_tenant c t)" for t
    unfolding backup_tenant_def backup_ssm_run_def by (intro keeps_rules frame_edit edits)
  then have "keeps R (backup_each c ts)" for ts
    by (induction ts) (auto intro!: keeps_rules)
  with \<open>\<And>t. keeps R (backup_tenant c t)\<close> show ?thesis unfolding backup_handler_def by (intro keeps_rules)
qed

lemma keeps_counter_bump [keeps_rules]: "keeps R (bump_target_counters i n v m)"
  unfolding bump_target_counters_def by (intro keeps_rules)

lemma keeps_migration_driver [keeps_rules]: "keeps R (sweep_migrations c n)"
proof -
  have undo: "keeps R (rollback_migration c t reason)" for t reason
    unfolding rollback_migration_def relaunch_source_def Let_def by (intro keeps_rules frame_edit edits)
  have "keeps R (migration_watchdog c n t)" "keeps R (advance_snapshot c t)" for t
    unfolding migration_watchdog_def advance_snapshot_def Let_def by (intro keeps_rules undo frame_edit edits)+
  moreover have "keeps R (advance_restore c t)" for t
    unfolding advance_restore_def switch_route_def public_gate_def complete_migration_def Let_def
    by (intro keeps_rules undo frame_edit edits)
  ultimately have "keeps R (advance_migration c n t)" for t
    unfolding advance_migration_def Let_def by (intro keeps_rules undo)
  then show ?thesis unfolding sweep_migrations_def sweep_one_def by (intro keeps_rules)
qed

lemma keeps_failover_parts [keeps_rules]:
  "row_edit f \<Longrightarrow> keeps R (claim_row tid g f)" "keeps R (refuse_failover c tid az)" "keeps R (usable_backup c tid)"
  "keeps R (reserve_target_vm_num i)" "keeps R (try_send c jb)" "keeps R (sweep_stuck_failovers c n)"
  unfolding claim_row_def refuse_failover_def usable_backup_def reserve_target_vm_num_def try_send_def
    sweep_stuck_failovers_def reap_stuck_def
  by (intro keeps_rules frame_edit edits vocabulary; assumption?)+

lemma keeps_execute_failover [keeps_rules]: "keeps R (execute_failover c t h az bk n)"
  unfolding execute_failover_def failover_steps_def pipeline_defs take_over_def Let_def
  by (intro keeps_rules frame_edit edits) simp

lemma keeps_failover_drivers [keeps_rules]:
  "keeps R (enqueue_failover c t h az n)" "keeps R (failover_tenant_to_host c t h az n)" "keeps R (worker_handler c jobs)"
  unfolding enqueue_failover_def failover_tenant_to_host_def worker_handler_def process_record_def worker_claim_def
    skipped_concurrent_def Let_def
  by (intro keeps_rules frame_edit edits vocabulary)+

lemma keeps_outages [keeps_rules]: "keeps R (check_and_handle_az_failover c n ts fs)"
proof -
  have "keeps R (failover_one c n az ex t st)" for az ex t st
    unfolding failover_one_def by (intro keeps_rules)
  then have "keeps R (handle_outage c n fs ex ts ot st)" for ex ot st
    unfolding handle_outage_def Let_def by (cases st) (auto intro!: keeps_rules)
  then show ?thesis unfolding check_and_handle_az_failover_def Let_def by (intro keeps_rules)
qed

lemma keeps_health_check [keeps_rules]: "keeps R (health_check_handler c az)"
  unfolding health_check_handler_def watch_agents_def check_stale_def recover_host_def restart_host_agent_def Let_def
  by (intro keeps_rules frame_edit edits)

lemma keeps_routes:
  assumes "map_of (routes c x e) k = Some h"
  shows "keeps R h"
proof -
  have "list_all (\<lambda>(k, h). keeps R h) (routes c x e)"
    unfolding routes_def Let_def list.pred_inject prod.case
    by (intro conjI list.pred_inject(1); intro keeps_rules)
  with assms show ?thesis by (force simp: list_all_iff dest: map_of_SomeD)
qed

lemma keeps_lambda [keeps_rules]: "keeps R (lambda_handler c x ev)"
proof -
  have "keeps R (http_handler c x e)" for e
    unfolding http_handler_def guarded_def audit_write_def by (intro keeps_rules) (rule keeps_routes)
  then show ?thesis unfolding lambda_handler_def by (auto intro!: keeps_rules split: lambda_event.split)
qed

end

sublocale row_keeping \<subseteq> agents: agent_rows R a for a
  by unfold_locales (intro keeps_rules frame_edit edits)+

text \<open>A table whose rows are stored under their ids and hold a status of the vocabulary.\<close>

definition known_rows :: "(string \<times> tenant) list \<Rightarrow> bool" where
  "known_rows tb = list_all (\<lambda>kt. known_status (snd kt)) tb"

definition well_kept :: "world \<Rightarrow> bool" where
  "well_kept w = (keyed (w_tenants w) \<and> known_rows (w_tenants w))"

lemma well_kept_frame: "w_tenants w' = w_tenants w \<Longrightarrow> inv_rel well_kept w w'"
  by (simp add: inv_rel_def well_kept_def)

lemma known_table_update:
  "known_rows tb \<Longrightarrow> known_status r \<Longrightarrow> known_rows (AList.update k r tb)"
  unfolding known_rows_def by (induction tb) auto

lemma known_lookup:
  "known_rows tb \<Longrightarrow> map_of tb k = Some t \<Longrightarrow> known_status t"
  by (auto simp: known_rows_def list_all_iff dest!: map_of_SomeD)

interpretation well: aws_frame "inv_rel well_kept"
  by unfold_locales (auto simp: inv_rel_def well_kept_def)

lemma well_kept_edit:
  assumes "row_edit f"
  shows "keeps (inv_rel well_kept) (update_tenant k cnd (set_attrs f))"
  unfolding update_tenant_def
proof (rule well.keeps_aws, rule keepsI)
  fix w
  show "inv_rel well_kept w (snd (case tbl_update fresh_tenant k cnd (set_attrs f) (w_tenants w) of
      Inl e \<Rightarrow> (Inl e, w) | Inr (tb, r) \<Rightarrow> (Inr r, w\<lparr>w_tenants := tb\<rparr>)))"
  proof (cases "tbl_update fresh_tenant k cnd (set_attrs f) (w_tenants w)")
    case (Inr p)
    let ?old = "case map_of (w_tenants w) k of None \<Rightarrow> fresh_tenant k | Some t \<Rightarrow> t"
    have tb: "fst p = AList.update k (f ?old) (w_tenants w)"
      using Inr by (cases p) (auto simp: tbl_update_Inr set_attrs_def)
    have "t_id (f ?old) = k \<and> known_status (f ?old)" if "well_kept w"
      using that assms keyed_row [of "w_tenants w" k] known_lookup [of "w_tenants w" k]
      by (auto simp: well_kept_def row_edit_def fresh_tenant_def known_status_def split: option.splits)
    then have "well_kept (w\<lparr>w_tenants := fst p\<rparr>)" if "well_kept w"
      using that tb keyed_update known_table_update by (simp add: well_kept_def)
    then show ?thesis using Inr by (cases p) (simp add: inv_rel_def)
  qed (simp add: well_kept_frame)
qed

interpretation well: row_keeping "inv_rel well_kept"
proof unfold_locales
  show "keeps (inv_rel well_kept) (put_tenant_row t)" if "known_status t" for t
    unfolding put_tenant_row_def using that
    by (intro keeps_rules) (simp add: keeps_def inv_rel_def well_kept_def keyed_update known_table_update)
  show "row_edit f \<Longrightarrow> keeps (inv_rel well_kept) (update_tenant k cnd (set_attrs f))" for f k cnd
    by (rule well_kept_edit)
qed (rule well_kept_frame, simp)+

interpretation staying: row_keeping rows_stay
proof unfold_locales
  show "keeps rows_stay (put_tenant_row t)" for t
    unfolding put_tenant_row_def by (intro keeps_rules) (auto simp: keeps_def rows_stay_def update_conv')
qed (auto simp: rows_stay_def intro: keeps_rules)

interpretation calm: row_keeping "inv_rel quiet"
proof unfold_locales
  show "keeps (inv_rel quiet) (put_tenant_row t)" for t by (rule keeps_rules)
  show "keeps (inv_rel quiet) (update_tenant k cnd (set_attrs f))" for k cnd f by (rule keeps_rules)
qed (simp_all add: inv_rel_def quiet_def)

section \<open>The transition system\<close>

text \<open>
  What can happen next, with the argument of the entry point. The poll of an agent comes with the
  state of its process and its host, whatever that is.
\<close>

datatype happening = Request cfg outside lambda_event | ScalerTick cfg | BackupTick cfg "string option"
  | HealthTick cfg "string option" | Worker cfg "failover_job list" | AgentPoll agent_cfg node

fun happens :: "happening \<Rightarrow> world \<Rightarrow> world" where
  "happens (Request c x ev) w = snd (lambda_handler c x ev w)"
| "happens (ScalerTick c) w = snd (scaler_handler c w)"
| "happens (BackupTick c i) w = snd (backup_handler c i w)"
| "happens (HealthTick c az) w = snd (health_check_handler c az w)"
| "happens (Worker c jobs) w = snd (worker_handler c jobs w)"
| "happens (AgentPoll a s) w = nd_world (snd (poll_once a (s\<lparr>nd_world := w\<rparr>)))"

text \<open>
  Between two events the outside world goes on: time passes, other calls will fail, hosts and the
  public address answer other things. The environment does not touch the tables.
\<close>

inductive fleet_step :: "world \<Rightarrow> world \<Rightarrow> bool" where
  event: "fleet_step w (happens h w)"
| outside: "fleet_step w (w\<lparr>w_now := n, w_oracle := fs, w_replies := rs, w_http := hs, w_rand := xs\<rparr>)"

inductive_cases fleet_stepE: "fleet_step w w'"

lemma happens_keeps:
  assumes "\<And>c x ev. keeps R (lambda_handler c x ev)" "\<And>c. keeps R (scaler_handler c)" "\<And>c i. keeps R (backup_handler c i)"
    "\<And>c az. keeps R (health_check_handler c az)" "\<And>c js. keeps R (worker_handler c js)" "\<And>a. keeps (seen R) (poll_once a)"
  shows "R w (happens h w)"
proof (cases h)
  case (AgentPoll a s)
  have "seen R (s\<lparr>nd_world := w\<rparr>) (snd (poll_once a (s\<lparr>nd_world := w\<rparr>)))" using assms(6) by (simp add: keeps_def)
  then show ?thesis using AgentPoll by (simp add: seen_def)
qed (use assms in \<open>simp_all add: keeps_def\<close>)

lemma step_well_kept: "fleet_step w w' \<Longrightarrow> well_kept w \<Longrightarrow> well_kept w' \<and> rows_stay w w'"
proof (erule fleet_stepE)
  fix h
  assume "w' = happens h w" "well_kept w"
  moreover have "inv_rel well_kept w (happens h w)" "rows_stay w (happens h w)"
    by (rule happens_keeps; rule well.agents.polled.keeps_poll staying.agents.polled.keeps_poll keeps_rules)+
  ultimately show ?thesis by (simp add: inv_rel_def)
qed (simp add: well_kept_def rows_stay_def)

lemma steps_well_kept: "fleet_step\<^sup>*\<^sup>* w w' \<Longrightarrow> well_kept w \<Longrightarrow> well_kept w' \<and> rows_stay w w'"
proof (induction rule: rtranclp_induct)
  case base
  then show ?case by (simp add: rows_stay_def)
next
  case (step y z)
  with step_well_kept [of y z] show ?case unfolding rows_stay_def by blast
qed

section \<open>Properties\<close>

text \<open>
  C4. The tenant table stays well-formed: from a deployment without tenants, whatever requests,
  timers and queue messages come in whatever order, and whatever calls fail in them, every row is
  stored once and under its own id, every status is one of the vocabulary, and a tenant once known
  is known for ever.
\<close>

theorem tenant_table_invariant:
  assumes "fleet_step\<^sup>*\<^sup>* w0 w" "w_tenants w0 = []" "fleet_step\<^sup>*\<^sup>* w w'"
  shows "distinct (map fst (w_tenants w')) \<and>
    (\<forall>k t. map_of (w_tenants w') k = Some t \<longrightarrow> t_id t = k \<and> (t_status t = None \<or> the (t_status t) \<in> set statuses)) \<and>
    dom (map_of (w_tenants w)) \<subseteq> dom (map_of (w_tenants w'))"
proof -
  have "well_kept w0" using assms(2) by (simp add: well_kept_def keyed_def known_rows_def)
  from steps_well_kept [OF assms(1) this] have "well_kept w" by simp
  from steps_well_kept [OF assms(3) this] have w': "well_kept w'" "rows_stay w w'" by auto
  then have "t_id t = k \<and> (t_status t = None \<or> the (t_status t) \<in> set statuses)" if "map_of (w_tenants w') k = Some t" for k t
    using keyed_row [OF _ that] known_lookup [OF _ that] by (auto simp: well_kept_def known_status_def split: option.splits)
  with w' show ?thesis by (auto simp: well_kept_def keyed_def rows_stay_def)
qed

theorem tenant_table_invariant_witness:
  "distinct (map fst (w_tenants (happens (ScalerTick cfg0) (happens (HealthTick cfg0 None) world0)))) \<and>
   dom (map_of (w_tenants (happens (HealthTick cfg0 None) world0))) \<subseteq>
     dom (map_of (w_tenants (happens (ScalerTick cfg0) (happens (HealthTick cfg0 None) world0))))"
proof -
  have "w_tenants world0 = []" by (simp add: world0_def)
  from tenant_table_invariant [OF r_into_rtranclp [of fleet_step, OF event] this r_into_rtranclp [of fleet_step, OF event]]
  show ?thesis by blast
qed

text \<open>
  A lost host takes its queued tenants with it: when the auto-scaling group replaces a host
  whose tenants wait in the failover queue, the termination event marks them deleted, and the
  worker then drops their jobs: no command is sent and the tenants stay deleted, although their
  backups and their targets are there.
\<close>

theorem terminated_host_loses_queued_tenants:
  assumes "quiet w" "keyed (w_tenants w)" "map_of (w_tenants w) (j_tenant_id j) = Some t"
    and "t_host_id t = Some i" "t_status t = Some ''failover_queued''"
  shows "\<exists>n w1. happens (Request c x (Autoscaling ''EC2 Instance-terminate Lifecycle Action'' [(''EC2InstanceId'', i)])) w = w1 \<and>
    w_ssm (happens (Worker c [j]) w1) = w_ssm w1 \<and>
    map_of (w_tenants (happens (Worker c [j]) w1)) (j_tenant_id j) =
      Some (t\<lparr>t_status := Some ''deleted'', t_updated_at := Some (At n)\<rparr>)"
proof -
  let ?ev = "Autoscaling ''EC2 Instance-terminate Lifecycle Action'' [(''EC2InstanceId'', i)]"
  from cleanup_quiet [OF assms(1,2), of c i None] obtain w1 where
    w1: "cleanup_terminated_host c i None w = (Inr (), w1)"
      "\<forall>k t. map_of (w_tenants w) k = Some t \<longrightarrow> (\<exists>t'. map_of (w_tenants w1) k = Some t' \<and>
         (if on_host i t \<and> not_deleted t then reaped t t' else t' = t))" by blast
  have "on_host i t" "not_deleted t" using assms(4,5) by (simp_all add: on_host_def not_deleted_def)
  with w1(2) assms(3) obtain n where n:
      "map_of (w_tenants w1) (j_tenant_id j) = Some (t\<lparr>t_status := Some ''deleted'', t_updated_at := Some (At n)\<rparr>)"
    unfolding reaped_def by metis
  have terminating: "contains ''terminate'' (ascii_lower ''EC2 Instance-terminate Lifecycle Action'')" by code_simp
  have "happens (Request c x ?ev) w = w1"
    using w1(1) terminating by (simp add: lambda_handler_def required_def io_simps)
  moreover obtain r w2 where r: "process_record c j (w_now w1) w1 = (r, w2)" by fastforce
  have "\<not> in_failover (map_of (w_tenants w1) (j_tenant_id j))" using n by (simp add: in_failover_def)
  from unclaimable_job_noop [OF r this] have "w_tenants w2 = w_tenants w1" "w_ssm w2 = w_ssm w1" by simp_all
  moreover have "happens (Worker c [j]) w1 = w2"
    using r by (cases r) (simp_all add: worker_handler_def for_each_def now_quiet io_simps)
  ultimately show ?thesis using n by metis
qed

theorem terminated_host_loses_queued_tenants_witness:
  "\<exists>n w1. w_ssm (happens (Worker cfg0 [sample_job]) w1) = w_ssm w1 \<and>
    map_of (w_tenants (happens (Worker cfg0 [sample_job]) w1)) ''a-1'' =
      Some (placed_tenant\<lparr>t_status := Some ''deleted'', t_updated_at := Some (At n)\<rparr>)"
proof -
  let ?t = "placed_tenant\<lparr>t_status := Some ''failover_queued''\<rparr>"
  let ?w = "world0\<lparr>w_tenants := [(''a-1'', ?t)]\<rparr>"
  have "quiet ?w" "keyed (w_tenants ?w)" "map_of (w_tenants ?w) (j_tenant_id sample_job) = Some ?t"
    "t_host_id ?t = Some ''i-1''" "t_status ?t = Some ''failover_queued''" "j_tenant_id sample_job = ''a-1''"
    by (simp_all add: quiet_def keyed_def sample_job_def placed_tenant_def fresh_tenant_def)
  from terminated_host_loses_queued_tenants [OF this(1-5), of cfg0 no_outside] this(6) show ?thesis by fastforce
qed

definition recorded :: "event \<Rightarrow> string \<Rightarrow> resp \<Rightarrow> world \<Rightarrow> bool" where
  "recorded ev actor r w = (w_audit w \<noteq> [] \<and> a_operation (last (w_audit w)) = ev_method ev @ '' '' @ ev_resource ev \<and>
     a_actor (last (w_audit w)) = actor \<and> a_response_status (last (w_audit w)) = Some (statusCode r))"

lemma audit_write_records:
  assumes "quiet w" "has_audit_table c" "get_principal c ev = Inr (actor, role)"
  shows "\<exists>w'. audit_write c ev r w = (Inr (), w') \<and> recorded ev actor r w'"
  using assms
  by (auto simp: audit_write_def put_audit_row_def put_audit_item_def recorded_def quiet_def io_simps now_quiet
      best_effort_apply split: prod.split)

text \<open>
  C27. Every change asked for leaves a record: in a world where no call fails, a POST, PUT or DELETE
  to a route, allowed or denied, is answered, and the audit log then ends with a row that names the
  operation, the caller and the status of the answer. The one exception is a handler that raises: the
  caller gets a 500 and nothing is recorded, whatever the handler had already changed.
\<close>

theorem mutations_are_recorded:
  assumes "quiet w" "has_audit_table c" "mutating (ev_method ev)"
    and "map_of (routes c x ev) (ev_method ev, ev_resource ev) = Some h"
    and "get_principal c ev = Inr (actor, arole)" "get_user_role c ev = Inr role"
  shows "\<exists>r w'. http_handler c x ev w = (Inr r, w') \<and>
    (recorded ev actor r w' \<or> (\<exists>e. h w = (Inl e, w') \<and> r = err_resp 500 (exn_str e)))"
proof -
  obtain forbidden where f: "rbac_check c ev (ev_method ev) (ev_resource ev) = Inr forbidden"
    using that assms(6) by (cases "rbac_enabled c"; cases "role_satisfies role (needed_role (ev_method ev) (ev_resource ev))")
      (simp_all add: rbac_check_def Let_def)
  have run: "http_handler c x ev w = guarded c ev h w" using assms(4) by (simp add: http_handler_def)
  show ?thesis
  proof (cases forbidden)
    case (Some r)
    from audit_write_records [OF assms(1,2,5), of r] obtain w' where
      "audit_write c ev r w = (Inr (), w')" "recorded ev actor r w'" by blast
    then show ?thesis using run f Some assms(3) by (auto simp: guarded_def io_simps)
  next
    case None
    obtain y w1 where y: "h w = (y, w1)" by fastforce
    have "quiet w1"
      using keepsD [OF calm.keeps_routes [OF assms(4)] y] assms(1) by (simp add: inv_rel_def)
    show ?thesis
    proof (cases y)
      case (Inl e)
      then show ?thesis using run f None y by (auto simp: guarded_def io_simps)
    next
      case (Inr r)
      from audit_write_records [OF \<open>quiet w1\<close> assms(2,5), of r] obtain w' where
        "audit_write c ev r w1 = (Inr (), w')" "recorded ev actor r w'" by blast
      then show ?thesis using run f None y Inr assms(3) by (auto simp: guarded_def io_simps)
    qed
  qed
qed

theorem mutations_are_recorded_witness:
  "\<exists>r w'. http_handler (cfg0\<lparr>has_audit_table := True\<rparr>) no_outside (request ''DELETE'' ''/hosts/{instance_id}'' [(''instance_id'', ''i-1'')])
      two_vm_world = (Inr r, w') \<and> recorded (request ''DELETE'' ''/hosts/{instance_id}'' [(''instance_id'', ''i-1'')]) ''api-key'' r w'"
proof -
  let ?c = "cfg0\<lparr>has_audit_table := True\<rparr>" and ?ev = "request ''DELETE'' ''/hosts/{instance_id}'' [(''instance_id'', ''i-1'')]"
  let ?h = "with_path ?ev ''instance_id'' deregister_host"
  have a: "quiet two_vm_world" "has_audit_table ?c" "mutating (ev_method ?ev)" by code_simp+
  have b: "map_of (routes ?c no_outside ?ev) (ev_method ?ev, ev_resource ?ev) = Some ?h"
    unfolding routes_def Let_def request_def by simp
  have d: "get_principal ?c ?ev = Inr (''api-key'', ''viewer'')" "get_user_role ?c ?ev = Inr ''viewer''" by code_simp+
  have "quiet two_vm_world \<Longrightarrow> \<exists>x. fst (?h two_vm_world) = Inr x"
    by (simp add: with_path_def required_def request_def deregister_host_def update_host_def tbl_update_def set_attrs_def quiet_def
        io_simps best_effort_apply Let_def no_cond_def)
  with a(1) mutations_are_recorded [OF a b d] show ?thesis by (metis fst_conv sum.distinct(1))
qed

end
