(* ===== verification/AgentHealth.thy ===== *)
theory AgentHealth
  imports AgentTables HealthCheck
begin

text \<open>
  The agent's reports and the watchdog that reads them: how fresh a reported tenant stays in the eyes
  of the health check, which tenants are not reported at all, and what an agent does with the VM of
  a tenant that has moved away.
\<close>

section \<open>Reports when nothing fails\<close>

text \<open>No call fails or takes time, and the host stays as it is.\<close>

definition still :: "node \<Rightarrow> bool" where
  "still s = (quiet (nd_world s) \<and> nd_future s = [])"

definition gateway_token :: "node \<Rightarrow> string \<Rightarrow> string" where
  "gateway_token s tid = (case finished (vd_ssh (dir_of (nd_box s) tid)) of Inl e \<Rightarrow> ''''
     | Inr r \<Rightarrow> if strip (snd r) \<noteq> ''null'' then strip (snd r) else '''')"

lemma token_still: "still s \<Longrightarrow> read_gateway_token tid s = (Inr (gateway_token s tid), s)"
  by (cases "finished (vd_ssh (dir_of (nd_box s) tid))")
    (simp_all add: still_def read_gateway_token_def gateway_token_def ask_def look_turned io_simps Let_def)

definition row_of :: "node \<Rightarrow> string \<Rightarrow> tenant option" where
  "row_of s = map_of (w_tenants (nd_world s))"

text \<open>One successful write of the row of \<open>tid\<close>, and its note.\<close>

definition with_row :: "string \<Rightarrow> tenant \<Rightarrow> probe_info \<Rightarrow> node \<Rightarrow> node" where
  "with_row tid r info s = s\<lparr>nd_world := (nd_world s)\<lparr>w_tenants := AList.update tid r (w_tenants (nd_world s))\<rparr>,
     nd_last_write := (nd_last_write s)(tid \<mapsto> (pi_vm info, pi_app info, mono_at s))\<rparr>"

lemma with_row_simps [simp]:
  "row_of (with_row tid r info s) = (row_of s)(tid \<mapsto> r)" "still (with_row tid r info s) = still s"
  "nd_last_write (with_row tid r info s) = (nd_last_write s)(tid \<mapsto> (pi_vm info, pi_app info, mono_at s))"
  "nd_promoted (with_row tid r info s) = nd_promoted s" "nd_box (with_row tid r info s) = nd_box s"
  "nd_boot (with_row tid r info s) = nd_boot s" "w_now (nd_world (with_row tid r info s)) = w_now (nd_world s)"
  "mono_at (with_row tid r info s) = mono_at s"
  by (simp_all add: with_row_def row_of_def still_def quiet_def update_conv' mono_at_def)

lemma write_health_still:
  assumes "still s"
  shows "write_health a n tid info s = (Inr (),
     if write_due a (nd_last_write s tid) info (mono_at s)
     then with_row tid (health_row info (live_metrics info) n (tenant_or_fresh (nd_world s) tid)) info s else s)"
  using assms
  by (simp add: write_health_def monotonic_def note_write_def on_world_def set_tenant_quiet still_def with_row_def io_simps
      mono_at_def)

lemma try_promote_still:
  assumes "still s"
  shows "try_promote n tid info s =
     (if gateway_token s tid = [] then (Inr False, s)
      else if is_creating (row_of s tid)
      then (Inr False, with_row tid (promoted_row info (or_else (live_metrics info) []) (gateway_token s tid) n (the (row_of s tid))) info
             (s\<lparr>nd_promoted := insert tid (nd_promoted s)\<rparr>))
      else (Inr True, s\<lparr>nd_promoted := insert tid (nd_promoted s)\<rparr>))"
  using assms
  by (auto simp: try_promote_def token_still on_world_def update_tenant_def tbl_update_def quiet_def still_def with_row_def
      set_attrs_def Let_def mark_promoted_def note_write_def monotonic_def mono_at_def row_of_def io_simps is_creating_def
      split: option.splits)

text \<open>A tenant whose health the agent writes: not up, known to be past creation, or with a token.\<close>

definition reportable :: "node \<Rightarrow> string \<times> probe_info \<Rightarrow> bool" where
  "reportable s ti = (pi_vm (snd ti) \<noteq> ''up'' \<or> fst ti \<in> nd_promoted s \<or> gateway_token s (fst ti) \<noteq> [])"

text \<open>What has become of a reported tenant: written at \<open>n\<close>, or not due.\<close>

definition written :: "int \<Rightarrow> string \<times> probe_info \<Rightarrow> node \<Rightarrow> node \<Rightarrow> bool" where
  "written n ti s t = (nd_last_write t (fst ti) = Some (pi_vm (snd ti), pi_app (snd ti), mono_at s) \<and>
     (\<exists>r. row_of t (fst ti) = Some r \<and> t_last_health_check r = Some (At n) \<and>
       t_vm_health r = Some (pi_vm (snd ti)) \<and> t_app_health r = Some (pi_app (snd ti))))"

definition untouched :: "string \<Rightarrow> node \<Rightarrow> node \<Rightarrow> bool" where
  "untouched tid s t = (row_of t tid = row_of s tid \<and> nd_last_write t tid = nd_last_write s tid)"

definition same_setting :: "node \<Rightarrow> node \<Rightarrow> bool" where
  "same_setting s t = (w_now (nd_world t) = w_now (nd_world s) \<and> nd_boot t = nd_boot s \<and> nd_box t = nd_box s \<and> (still s \<longrightarrow> still t))"

definition outcome_of :: "agent_cfg \<Rightarrow> int \<Rightarrow> string \<times> probe_info \<Rightarrow> node \<Rightarrow> node \<Rightarrow> bool" where
  "outcome_of a n ti s t = (if reportable s ti
     then written n ti s t \<or> untouched (fst ti) s t \<and> \<not> write_due a (nd_last_write s (fst ti)) (snd ti) (mono_at s)
     else untouched (fst ti) s t \<and> (fst ti \<in> nd_promoted t \<longleftrightarrow> fst ti \<in> nd_promoted s))"

lemma same_setting_mono: "same_setting s t \<Longrightarrow> mono_at t = mono_at s"
  by (simp add: same_setting_def mono_at_def)

lemma same_settingI: "same_setting s (with_row tid r info s)" "same_setting s (s\<lparr>nd_promoted := ps\<rparr>)" "same_setting s s"
  by (simp_all add: same_setting_def) (simp add: still_def)

lemma promoted_simps [simp]:
  "row_of (s\<lparr>nd_promoted := ps\<rparr>) = row_of s" "still (s\<lparr>nd_promoted := ps\<rparr>) = still s"
  "mono_at (s\<lparr>nd_promoted := ps\<rparr>) = mono_at s" "gateway_token (s\<lparr>nd_promoted := ps\<rparr>) tid = gateway_token s tid"
  by (simp_all add: row_of_def still_def mono_at_def gateway_token_def)

lemma row_attributes [simp]:
  "t_last_health_check (health_row info m n r) = Some (At n)" "t_vm_health (health_row info m n r) = Some (pi_vm info)"
  "t_app_health (health_row info m n r) = Some (pi_app info)"
  "t_last_health_check (promoted_row info x tk n r) = Some (At n)" "t_vm_health (promoted_row info x tk n r) = Some (pi_vm info)"
  "t_app_health (promoted_row info x tk n r) = Some (pi_app info)"
  by (simp_all add: health_row_def promoted_row_def Let_def split: option.split)

lemma write_one_still:
  assumes "still s"
  shows "\<exists>t. write_one a n ti s = (Inr (), t) \<and> same_setting s t \<and> outcome_of a n ti s t \<and>
    (\<forall>k. k \<noteq> fst ti \<longrightarrow> untouched k s t \<and> (k \<in> nd_promoted t \<longleftrightarrow> k \<in> nd_promoted s))"
  using assms
  by (cases ti)
    (auto simp: write_one_def gets_apply andThen_apply write_health_still try_promote_still outcome_of_def reportable_def
      written_def untouched_def same_setting_def ok_apply split: if_splits)

lemma untouched_trans: "untouched k s t \<Longrightarrow> untouched k t u \<Longrightarrow> untouched k s u"
  by (simp add: untouched_def)

lemma same_setting_trans: "same_setting s t \<Longrightarrow> same_setting t u \<Longrightarrow> same_setting s u"
  by (simp add: same_setting_def)

lemma outcome_later:
  assumes "outcome_of a n ti s t" "untouched (fst ti) t u" "fst ti \<in> nd_promoted u \<longleftrightarrow> fst ti \<in> nd_promoted t"
  shows "outcome_of a n ti s u"
  using assms by (auto simp: outcome_of_def written_def untouched_def split: if_splits)

lemma outcome_earlier:
  assumes "outcome_of a n ti t u" "untouched (fst ti) s t" "fst ti \<in> nd_promoted t \<longleftrightarrow> fst ti \<in> nd_promoted s" "same_setting s t"
  shows "outcome_of a n ti s u"
proof -
  have "reportable t ti = reportable s ti" "mono_at t = mono_at s"
    using assms(3,4) by (simp_all add: reportable_def gateway_token_def same_setting_def mono_at_def)
  with assms show ?thesis by (auto simp: outcome_of_def written_def untouched_def split: if_splits)
qed

lemma write_all_still:
  assumes "still s" "distinct (map fst results)"
  shows "\<exists>t. for_each results (write_one a n) s = (Inr (), t) \<and> same_setting s t \<and>
    (\<forall>ti \<in> set results. outcome_of a n ti s t) \<and>
    (\<forall>k. k \<notin> fst ` set results \<longrightarrow> untouched k s t \<and> (k \<in> nd_promoted t \<longleftrightarrow> k \<in> nd_promoted s))"
  using assms
proof (induction results arbitrary: s)
  case Nil
  then show ?case by (simp add: ok_apply same_settingI untouched_def)
next
  case (Cons x xs)
  from write_one_still [OF Cons.prems(1), of a n x] obtain t where
    t: "write_one a n x s = (Inr (), t)" "same_setting s t" "outcome_of a n x s t"
      "\<forall>k. k \<noteq> fst x \<longrightarrow> untouched k s t \<and> (k \<in> nd_promoted t \<longleftrightarrow> k \<in> nd_promoted s)" by blast
  have st: "still t" using t(2) Cons.prems(1) by (simp add: same_setting_def)
  have dist: "distinct (map fst xs)" "fst x \<notin> fst ` set xs" using Cons.prems(2) by simp_all
  from Cons.IH [OF st dist(1)] obtain u where
    u: "for_each xs (write_one a n) t = (Inr (), u)" "same_setting t u" "\<forall>ti \<in> set xs. outcome_of a n ti t u"
      "\<forall>k. k \<notin> fst ` set xs \<longrightarrow> untouched k t u \<and> (k \<in> nd_promoted u \<longleftrightarrow> k \<in> nd_promoted t)" by blast
  have "outcome_of a n x s u" using t(3) u(4) dist(2) outcome_later by blast
  moreover have "outcome_of a n ti s u" if ti: "ti \<in> set xs" for ti
  proof -
    have "fst ti \<noteq> fst x" using ti dist(2) by (metis image_eqI)
    then show ?thesis using u(3) ti t(2,4) outcome_earlier by blast
  qed
  moreover have "untouched k s u \<and> (k \<in> nd_promoted u \<longleftrightarrow> k \<in> nd_promoted s)" if "k \<notin> fst ` set (x # xs)" for k
    using that t(4) u(4) untouched_trans by (metis (no_types, lifting) image_insert insertCI list.simps(15))
  moreover have "for_each (x # xs) (write_one a n) s = (Inr (), u)" using t(1) u(1) by (simp add: andThen_apply)
  ultimately show ?case using same_setting_trans [OF t(2) u(2)] by auto
qed

lemma write_ddb_still:
  assumes "still s" "distinct (map fst results)" "ag_tenants_table a" "ti \<in> set results"
  shows "\<exists>t. write_ddb a results s = (Inr (), t) \<and> same_setting s t \<and>
    outcome_of a (to_second (w_now (nd_world s))) ti s t"
proof -
  let ?n = "to_second (w_now (nd_world s))"
  from write_all_still [OF assms(1,2), of a ?n] obtain t where
    t: "for_each results (write_one a ?n) s = (Inr (), t)" "same_setting s t" "\<forall>x \<in> set results. outcome_of a ?n x s t" by blast
  let ?u = "snd (forget_gone (fst ` set results) t)"
  have "write_ddb a results s = (Inr (), ?u)"
    using assms(3,4) t(1) by (auto simp: write_ddb_def wall_def forget_gone_def io_simps)
  moreover have "same_setting s ?u"
    using t(2) by (simp add: same_setting_def forget_gone_def still_def)
  moreover have "outcome_of a ?n ti s ?u"
  proof (rule outcome_later [OF t(3) [rule_format, OF assms(4)]])
    have "fst ti \<in> fst ` set results" using assms(4) by (rule imageI)
    then show "untouched (fst ti) t ?u" "fst ti \<in> nd_promoted ?u \<longleftrightarrow> fst ti \<in> nd_promoted t"
      by (simp_all add: untouched_def forget_gone_def row_of_def)
  qed
  ultimately show ?thesis by blast
qed

section \<open>Properties\<close>

text \<open>The row of a tenant is stamped no earlier than the last write the agent remembers, to the second.\<close>

definition noted_truly :: "string \<Rightarrow> node \<Rightarrow> bool" where
  "noted_truly tid s = (case nd_last_write s tid of None \<Rightarrow> True
     | Some (vm, app, m) \<Rightarrow> (case row_of s tid of None \<Rightarrow> False
         | Some r \<Rightarrow> (case t_last_health_check r of Some (At l) \<Rightarrow> l + 1000000 \<ge> m + nd_boot s | _ \<Rightarrow> False)))"

lemma to_second_bounds: "to_second n \<le> n" "n < to_second n + 1000000"
  by (simp_all add: to_second_def)


definition creating_tenant :: tenant where
  "creating_tenant = (fresh_tenant ''t-1'')\<lparr>t_status := Some ''creating'', t_host_id := Some ''i-1''\<rparr>"

definition reporting_node :: node where
  "reporting_node = (host_with ''t-1'' sample_dir)\<lparr>nd_world := world0\<lparr>w_tenants := [(''t-1'', creating_tenant)]\<rparr>\<rparr>"

lemma still_reporting [simp]: "still reporting_node"
  by (simp add: still_def quiet_def reporting_node_def host_with_def node0_def)


text \<open>
  A running tenant without a gateway token is not reported: after a restart of the agent, a tenant
  whose VM is up but whose token cannot be read (its gateway is down or SSH fails) is not written at
  all, neither its health nor the time, and the agent does not come to know it; its row goes stale
  although the agent has probed it.
\<close>

theorem tokenless_tenant_unreported:
  assumes "still s" "distinct (map fst results)" "ag_tenants_table a" "(tid, info) \<in> set results"
    and "pi_vm info = ''up''" "tid \<notin> nd_promoted s" "gateway_token s tid = []"
  shows "\<exists>t. write_ddb a results s = (Inr (), t) \<and> row_of t tid = row_of s tid \<and> tid \<notin> nd_promoted t"
proof -
  from write_ddb_still [OF assms(1-4)] obtain t where
    t: "write_ddb a results s = (Inr (), t)" "outcome_of a (to_second (w_now (nd_world s))) (tid, info) s t" by blast
  have "\<not> reportable s (tid, info)" using assms(5-7) by (simp add: reportable_def)
  with t assms(6) show ?thesis by (simp add: outcome_of_def untouched_def)
qed

theorem tokenless_tenant_unreported_witness:
  "\<exists>t. write_ddb agent_cfg0 [(''t-1'', probed ''up'' ''down'' ''172.16.1.2'' (Some 7))] reporting_node = (Inr (), t) \<and>
    row_of t ''t-1'' = Some creating_tenant"
proof -
  let ?i = "probed ''up'' ''down'' ''172.16.1.2'' (Some 7)"
  have "distinct (map fst [(''t-1'', ?i)])" "ag_tenants_table agent_cfg0" "(''t-1'', ?i) \<in> set [(''t-1'', ?i)]"
    "pi_vm ?i = ''up''" "''t-1'' \<notin> nd_promoted reporting_node" "gateway_token reporting_node ''t-1'' = []"
    by (simp_all add: agent_cfg0_def probed_def reporting_node_def host_with_def node0_def gateway_token_def dir_of_def
        sample_dir_def no_dir_def finished_def strip_def lstrip_def rstrip_def)
  moreover have "row_of reporting_node ''t-1'' = Some creating_tenant" by (simp add: row_of_def reporting_node_def)
  ultimately show ?thesis using tokenless_tenant_unreported [OF still_reporting] by metis
qed

text \<open>
  C11. The agent trusts its disk, not the tables: on a host whose only VM directory is that of a tenant
  the tables place on another host (its own host was lost and has come back after the failover), a poll
  that finds no Firecracker process starts the old VM again, beside the one on the new host, and
  reports it as the tenant's health.
\<close>

theorem moved_tenant_started_again:
  assumes "still s" "ag_tenants_table a" "bx_dirs (nd_box s) = Some [(tid, d)]" "row_of s tid = Some r" "t_host_id r = Some other"
    and "other \<noteq> ag_instance a" "vd_config d = Some (Inr cfg)" "or_else (vj_guest_ip cfg) '''' \<noteq> ''''"
    and "\<not> vd_stopped d" "vd_migrating d = None" "no_process tid (nd_box s)" "vd_pgrep d = Exit rc out"
    and "tid \<notin> nd_recovering s" "bx_launch (nd_box s) \<noteq> NotStarted" "nd_last_write s tid = None"
  shows "\<exists>t r'. andThen (probe_all a) (write_ddb a) s = (Inr (), t) \<and> nd_cmds t = nd_cmds s @ [(tid, launch_argv tid cfg)] \<and>
    row_of t tid = Some r' \<and> t_host_id r' = Some other \<and> t_vm_health r' = Some ''recovering''"
proof -
  let ?s1 = "s\<lparr>nd_recovering := insert tid (nd_recovering s), nd_cmds := nd_cmds s @ [(tid, launch_argv tid cfg)]\<rparr>"
  let ?i = "probed ''recovering'' ''down'' (or_else (vj_guest_ip cfg) '''') None"
  have fut: "nd_future s = []" using assms(1) by (simp add: still_def)
  have dir: "dir_of (nd_box s) tid = d" using assms(3) by (simp add: dir_of_def)
  have proc: "first_pid (rc, out) = None" using assms(11,12) dir by (simp add: no_process_def finished_def)
  have "probe_vm a tid s = (Inr (Some ?i), ?s1)"
    using assms(7-14) dir proc fut
    by (simp add: probe_vm_def probe_process_def recover_vm_def add_recovering_def spawn_def is_migrating_def wall_def read_config_def
        look_vm_def look_turned ask_def finished_def io_simps Let_def)
  then have "probe_all a s = (Inr [(tid, ?i)], ?s1)"
    using assms(3) fut by (simp add: probe_all_def probe_into_def look_turned io_simps)
  moreover have "still ?s1" using assms(1) by (simp add: still_def)
  moreover have "nd_last_write ?s1 tid = None" using assms(15) by simp
  moreover have "tenant_or_fresh (nd_world ?s1) tid = r" using assms(4) by (simp add: tenant_or_fresh_def row_of_def)
  ultimately show ?thesis
    using assms(2,5) write_health_still [of ?s1 a _ tid ?i]
    by (simp add: write_ddb_def write_one_def wall_def forget_gone_def probed_def write_due_def live_metrics_def health_row_def
        io_simps row_of_def with_row_def update_conv')
qed

theorem moved_tenant_started_again_witness:
  "\<exists>t r'. andThen (probe_all agent_cfg0) (write_ddb agent_cfg0)
      (reporting_node\<lparr>nd_world := world0\<lparr>w_tenants := [(''t-1'', creating_tenant\<lparr>t_host_id := Some ''i-2''\<rparr>)]\<rparr>\<rparr>) = (Inr (), t) \<and>
    nd_cmds t = [(''t-1'', launch_argv ''t-1'' sample_config)] \<and> row_of t ''t-1'' = Some r' \<and> t_host_id r' = Some ''i-2''"
proof -
  let ?s = "reporting_node\<lparr>nd_world := world0\<lparr>w_tenants := [(''t-1'', creating_tenant\<lparr>t_host_id := Some ''i-2''\<rparr>)]\<rparr>\<rparr>"
  have "still ?s" "ag_tenants_table agent_cfg0" "bx_dirs (nd_box ?s) = Some [(''t-1'', sample_dir)]"
    "row_of ?s ''t-1'' = Some (creating_tenant\<lparr>t_host_id := Some ''i-2''\<rparr>)"
    "t_host_id (creating_tenant\<lparr>t_host_id := Some ''i-2''\<rparr>) = Some ''i-2''" "''i-2'' \<noteq> ag_instance agent_cfg0"
    "vd_config sample_dir = Some (Inr sample_config)" "or_else (vj_guest_ip sample_config) '''' \<noteq> ''''"
    "\<not> vd_stopped sample_dir" "vd_migrating sample_dir = None" "no_process ''t-1'' (nd_box ?s)" "vd_pgrep sample_dir = Exit 1 ''''"
    "''t-1'' \<notin> nd_recovering ?s" "bx_launch (nd_box ?s) \<noteq> NotStarted" "nd_last_write ?s ''t-1'' = None" "nd_cmds ?s = []"
    by (simp_all add: still_def quiet_def row_of_def reporting_node_def host_with_def node0_def machine0_def agent_cfg0_def
        sample_dir_def no_dir_def sample_config_def or_else_def no_process_def dir_of_def finished_def first_pid_def)
  from moved_tenant_started_again [OF this(1-15)] this(16) show ?thesis by auto
qed

end
