(* ===== verification/Runtimes.thy ===== *)
theory Runtimes
  imports AgentMetrics
begin

text \<open>
  The seam for VM runtimes (userdata/runtimes/__init__.py): the drivers with their four operations, and
  the factory that hands out only the one driver that exists.
\<close>

section \<open>Drivers\<close>

datatype runtime = Firecracker (launch_script: string) (stop_script: string) | CloudHypervisor | Qemu

definition not_implemented :: "string \<Rightarrow> exn" where
  "not_implemented m = PyError OtherError m"

text \<open>What a stub raises from every operation.\<close>

definition reserved :: "string \<Rightarrow> exn" where
  "reserved name = not_implemented (name @ '' driver is reserved but not yet implemented'')"

fun driver_launch :: "runtime \<Rightarrow> string \<Rightarrow> int \<Rightarrow> int \<Rightarrow> int \<Rightarrow> (node, unit) io" where
  "driver_launch (Firecracker launch stop) tid vm_num vcpu mem_mb =
     spawn tid [''bash'', launch, tid, show_int vm_num, show_int vcpu, show_int mem_mb] bx_launch"
| "driver_launch CloudHypervisor tid vm_num vcpu mem_mb = raise (reserved ''cloud_hypervisor'')"
| "driver_launch Qemu tid vm_num vcpu mem_mb = raise (reserved ''qemu'')"

fun stop_vm :: "runtime \<Rightarrow> string \<Rightarrow> int \<Rightarrow> (node, unit) io" where
  "stop_vm (Firecracker launch stop) tid vm_num =
     andThen (act tid [''bash'', stop, tid, show_int vm_num] bx_stop) (\<lambda>_. ok ())"
| "stop_vm CloudHypervisor tid vm_num = raise (reserved ''cloud_hypervisor'')"
| "stop_vm Qemu tid vm_num = raise (reserved ''qemu'')"

fun restart_vm :: "runtime \<Rightarrow> string \<Rightarrow> int \<Rightarrow> (node, unit) io" where
  "restart_vm (Firecracker launch stop) tid vm_num = stop_vm (Firecracker launch stop) tid vm_num"
| "restart_vm CloudHypervisor tid vm_num = raise (reserved ''cloud_hypervisor'')"
| "restart_vm Qemu tid vm_num = raise (reserved ''qemu'')"

fun balloon_set :: "runtime \<Rightarrow> string \<Rightarrow> int \<Rightarrow> (node, unit) io" where
  "balloon_set (Firecracker launch stop) tid amount_mib = andThen (look_vm tid vd_sock) (\<lambda>exists.
     if \<not> exists then ok ()
     else andThen (act tid (balloon_argv (sock_path tid) amount_mib) bx_patch) (\<lambda>_. ok ()))"
| "balloon_set CloudHypervisor tid amount_mib = raise (reserved ''cloud_hypervisor'')"
| "balloon_set Qemu tid amount_mib = raise (reserved ''qemu'')"

section \<open>The factory\<close>

definition supported_runtimes :: "string list" where
  "supported_runtimes = [''firecracker'', ''cloud_hypervisor'', ''qemu'']"

definition unexpected_argument :: exn where
  "unexpected_argument = PyError TypeError ''got an unexpected keyword argument''"

text \<open>The keyword arguments go to the constructor; the stubs have none.\<close>

definition construct :: "string \<Rightarrow> (string \<times> string) list \<Rightarrow> exn + runtime" where
  "construct name kwargs =
     (if name = ''firecracker''
      then (if set (map fst kwargs) \<subseteq> {''launch_script'', ''stop_script''}
            then Inr (Firecracker (or_else (map_of kwargs ''launch_script'') ''/home/ubuntu/launch-vm.sh'')
                                  (or_else (map_of kwargs ''stop_script'') ''/home/ubuntu/stop-vm.sh''))
            else Inl unexpected_argument)
      else if kwargs \<noteq> [] then Inl unexpected_argument
      else Inr (if name = ''qemu'' then Qemu else CloudHypervisor))"

definition get_runtime :: "string \<Rightarrow> (string \<times> string) list \<Rightarrow> exn + runtime" where
  "get_runtime name kwargs =
     (if name \<notin> set supported_runtimes
      then Inl (PyError ValueError (''unknown runtime '' @ [CHR 0x27] @ name @ [CHR 0x27] @ ''; supported: '' @
             join '', '' (sort supported_runtimes)))
      else bind_sum (construct name kwargs) (\<lambda>r.
        if name \<noteq> ''firecracker''
        then Inl (not_implemented (''runtime '' @ [CHR 0x27] @ name @ [CHR 0x27] @
               '' is reserved in the protocol but not yet implemented''))
        else Inr r))"

section \<open>Properties\<close>

text \<open>
  The seam changes nothing: the factory hands out a driver exactly for the name firecracker (with
  no other arguments than the two scripts), and the driver it hands out by default runs, for the values
  of a vm.json, exactly the launch command of the agent; every other name is refused before an object
  is returned.
\<close>

theorem runtime_seam_equivalent:
  "((\<exists>r. get_runtime name kwargs = Inr r) \<longleftrightarrow> name = ''firecracker'' \<and> set (map fst kwargs) \<subseteq> {''launch_script'', ''stop_script''}) \<and>
   (get_runtime ''firecracker'' [] = Inr (Firecracker ''/home/ubuntu/launch-vm.sh'' ''/home/ubuntu/stop-vm.sh'')) \<and>
   driver_launch (Firecracker ''/home/ubuntu/launch-vm.sh'' ''/home/ubuntu/stop-vm.sh'') tid
       (or_else (vj_vm_num cfg) 1) (or_else (vj_vcpu cfg) 2) (or_else (vj_mem_mb cfg) 4096) =
     spawn tid (launch_argv tid cfg) bx_launch"
  by (auto simp: get_runtime_def construct_def supported_runtimes_def launch_argv_def or_else_def)

text \<open>A restart only stops: nothing is launched.\<close>

lemma restart_only_stops:
  "nd_future s = [] \<Longrightarrow> bx_stop (nd_box s) = Exit rc out \<Longrightarrow>
   restart_vm (Firecracker launch stop) tid n s = (Inr (), s\<lparr>nd_cmds := nd_cmds s @ [(tid, [''bash'', stop, tid, show_int n])]\<rparr>)"
  by (simp add: act_def look_turned finished_def whenever_def io_simps)

end
