(* ===== verification/CliParse.thy ===== *)
theory CliParse
  imports PyLib
begin

text \<open>
  The command line of the \<open>oc\<close> tool (cli/oc.py): the table of its sub-commands with their arguments, and
  argparse as far as that table uses it. A parser reads its arguments from left to right; options may be
  written in full, with \<open>=\<close> before the value, or shortened to an unambiguous prefix. The separator
  \<^verbatim>\<open>--\<close> is modelled where a positional argument is expected after it, and refused elsewhere.
\<close>

section \<open>Declarations of arguments\<close>

text \<open>A value that is text, one converted by \<open>int\<close>, and \<open>store_true\<close>.\<close>

datatype arg_kind = TakesText | TakesInt | StoreTrue

datatype arg_value = VText string | VInt int | VTrue

type_synonym args = "(string \<times> arg_value) list"

text \<open>The positional arguments with their choices (none for any text), and the options, with \<open>required\<close>.\<close>

type_synonym sub_parser = "(string \<times> string list) list \<times> (string \<times> arg_kind \<times> bool) list"

definition action_verbs :: "string list" where
  "action_verbs = [''restart'', ''start'', ''stop'', ''pause'', ''resume'', ''backup'', ''reset'']"

definition build_parser :: "(string \<times> sub_parser) list" where
  "build_parser = [
     (''list'', [], []),
     (''get'', [(''id'', [])], []),
     (''create'', [(''name'', [])],
        [(''--vcpu'', TakesInt, False), (''--mem-mb'', TakesInt, False), (''--config-template'', TakesText, False)]),
     (''delete'', [(''id'', [])], [(''--force'', StoreTrue, False), (''--keep-data'', StoreTrue, False)])] @
     map (\<lambda>verb. (verb, [(''id'', [])], [])) action_verbs @ [
     (''resize'', [(''id'', [])], [(''--vcpu'', TakesInt, True)]),
     (''resize-disk'', [(''id'', [])], [(''--new-size-mb'', TakesInt, True)]),
     (''migrate'', [(''id'', [])], [(''--target-host-id'', TakesText, True)]),
     (''batch'', [(''action'', [''stop'', ''start'', ''delete'', ''backup''])],
        [(''--ids'', TakesText, False), (''--tag'', TakesText, False)]),
     (''audit-log'', [],
        [(''--since'', TakesText, False), (''--before'', TakesText, False), (''--limit'', TakesInt, False)]),
     (''backups'', [], []),
     (''hosts'', [], []),
     (''version'', [], [])]"

text \<open>The attribute of the namespace an option is stored in.\<close>

definition dest :: "string \<Rightarrow> string" where
  "dest opt = map (\<lambda>c. if c = CHR ''-'' then CHR ''_'' else c) (dropWhile (\<lambda>c. c = CHR ''-'') opt)"

section \<open>Kinds of words\<close>

datatype word_kind = Positional | Option string "string option" | NoSuchOption | AmbiguousOption

text \<open>A negative number, as argparse recognises it.\<close>

definition digits :: "string \<Rightarrow> bool" where
  "digits s = list_all is_digit s"

definition negative_number :: "string \<Rightarrow> bool" where
  "negative_number s = (case s of [] \<Rightarrow> False
     | c # r \<Rightarrow> let t = (if r \<noteq> [] \<and> last r = newline then butlast r else r) in
         c = CHR ''-'' \<and> ((t \<noteq> [] \<and> digits t) \<or>
           (CHR ''.'' \<in> set t \<and> (case split1 CHR ''.'' t of (a, b) \<Rightarrow> digits a \<and> b \<noteq> [] \<and> digits b))))"

text \<open>The declared options a word may stand for, with the value written in it.\<close>

definition long_matches :: "string list \<Rightarrow> string \<Rightarrow> (string \<times> string option) list" where
  "long_matches opts w = (case split1 CHR ''='' w of (p, v) \<Rightarrow>
     map (\<lambda>n. (n, if CHR ''='' \<in> set w then Some v else None)) (filter (prefix p) opts))"

definition short_matches :: "string list \<Rightarrow> string \<Rightarrow> (string \<times> string option) list" where
  "short_matches opts w = List.map_filter (\<lambda>n. if n = take 2 w then Some (n, Some (drop 2 w))
     else if prefix w n then Some (n, None) else None) opts"

definition word_kind :: "string list \<Rightarrow> string \<Rightarrow> word_kind" where
  "word_kind opts w = (
     if w = [] \<or> hd w \<noteq> CHR ''-'' then Positional
     else if w \<in> set opts then Option w None
     else if length w = 1 then Positional
     else case split1 CHR ''='' w of (p, v) \<Rightarrow>
       if CHR ''='' \<in> set w \<and> p \<in> set opts then Option p (Some v)
       else (case (if prefix ''--'' w then long_matches opts w else short_matches opts w) of
           [(n, e)] \<Rightarrow> Option n e
         | [] \<Rightarrow> if negative_number w \<or> CHR '' '' \<in> set w then Positional else NoSuchOption
         | _ \<Rightarrow> AmbiguousOption))"

section \<open>Parsing\<close>

text \<open>Parsed arguments, a usage error (exit code 2), or the help text (exit code 0).\<close>

datatype 'a parsed = Parsed 'a | Usage | ShowHelp

definition help_options :: "string list" where
  "help_options = [''-h'', ''--help'']"

text \<open>The help option takes no value; letters after \<open>-h\<close> are read as more short options.\<close>

definition help_with :: "string \<Rightarrow> string option \<Rightarrow> 'a parsed" where
  "help_with n e = (case e of None \<Rightarrow> ShowHelp
     | Some v \<Rightarrow> if n = ''-h'' \<and> v \<noteq> [] \<and> list_all (\<lambda>c. c = CHR ''h'') v then ShowHelp else Usage)"

definition convert :: "arg_kind \<Rightarrow> string \<Rightarrow> arg_value option" where
  "convert k v = (case k of TakesText \<Rightarrow> Some (VText v) | TakesInt \<Rightarrow> map_option VInt (parse_int v)
     | StoreTrue \<Rightarrow> None)"

text \<open>What was read is kept with the latest value first; \<open>extra\<close> tells that a word was not recognised.\<close>

definition finish_parse :: "(string \<times> arg_kind \<times> bool) list \<Rightarrow> (string \<times> string list) list \<Rightarrow> args \<Rightarrow> bool \<Rightarrow> args parsed" where
  "finish_parse opts pos vals extra =
     (if pos \<noteq> [] \<or> extra \<or> list_ex (\<lambda>(n, k, needed). needed \<and> dest n \<notin> fst ` set vals) opts then Usage
      else Parsed vals)"

text \<open>
  The entry an option makes, and whether it has used up the word after it: a flag takes no value, the
  others take the value written in the word or else the next word, if that is not an option.
\<close>

definition option_entry :: "(string \<times> arg_kind \<times> bool) list \<Rightarrow> string \<Rightarrow> arg_kind \<Rightarrow> string option \<Rightarrow> string list \<Rightarrow>
    ((string \<times> arg_value) \<times> bool) option" where
  "option_entry opts n k e ws = (case (k, e, ws) of
       (StoreTrue, None, _) \<Rightarrow> Some ((dest n, VTrue), False)
     | (StoreTrue, Some v, _) \<Rightarrow> None
     | (_, Some v, _) \<Rightarrow> map_option (\<lambda>x. ((dest n, x), False)) (convert k v)
     | (_, None, []) \<Rightarrow> None
     | (_, None, v # rest) \<Rightarrow> if v = ''--'' \<or> word_kind (help_options @ map fst opts) v \<noteq> Positional then None
         else map_option (\<lambda>x. ((dest n, x), True)) (convert k v))"

fun scan_args :: "(string \<times> arg_kind \<times> bool) list \<Rightarrow> bool \<Rightarrow> string list \<Rightarrow> (string \<times> string list) list \<Rightarrow>
    args \<Rightarrow> bool \<Rightarrow> args parsed" where
  "scan_args opts raw [] pos vals extra = finish_parse opts pos vals extra"
| "scan_args opts raw (w # ws) pos vals extra = (
     if w = ''--'' \<and> \<not> raw then (if pos = [] then Usage else scan_args opts True ws pos vals extra)
     else case (if raw then Positional else word_kind (help_options @ map fst opts) w) of
       Positional \<Rightarrow> (case pos of
           [] \<Rightarrow> scan_args opts raw ws [] vals True
         | (n, choices) # more \<Rightarrow> if choices \<noteq> [] \<and> w \<notin> set choices then Usage
             else scan_args opts raw ws more ((n, VText w) # vals) extra)
     | AmbiguousOption \<Rightarrow> Usage
     | NoSuchOption \<Rightarrow> scan_args opts raw ws pos vals True
     | Option n e \<Rightarrow> (case map_of opts n of
           None \<Rightarrow> help_with n e
         | Some (k, needed) \<Rightarrow> (case option_entry opts n k e ws of
               None \<Rightarrow> Usage
             | Some (entry, took) \<Rightarrow> scan_args opts raw (if took then tl ws else ws) pos (entry # vals) extra)))"

text \<open>The parser of a sub-command gets every word after its name.\<close>

definition parse_sub :: "string \<Rightarrow> sub_parser \<Rightarrow> string list \<Rightarrow> (string \<times> args) parsed" where
  "parse_sub name p ws = (case p of (pos, opts) \<Rightarrow>
     (case scan_args opts False ws pos [] False of Parsed vals \<Rightarrow> Parsed (name, vals) | Usage \<Rightarrow> Usage | ShowHelp \<Rightarrow> ShowHelp))"

fun parse_args :: "string list \<Rightarrow> (string \<times> args) parsed" where
  "parse_args [] = Usage"
| "parse_args (w # ws) = (
     if w = ''--'' then Usage
     else case word_kind help_options w of
       Positional \<Rightarrow> (case map_of build_parser w of None \<Rightarrow> Usage | Some p \<Rightarrow> parse_sub w p ws)
     | Option n e \<Rightarrow> help_with n e
     | AmbiguousOption \<Rightarrow> Usage
     | NoSuchOption \<Rightarrow> (case parse_args ws of ShowHelp \<Rightarrow> ShowHelp | _ \<Rightarrow> Usage))"


section \<open>Well-typed arguments\<close>

fun of_kind :: "arg_kind \<Rightarrow> arg_value \<Rightarrow> bool" where
  "of_kind TakesText (VText t) = True"
| "of_kind TakesInt (VInt i) = True"
| "of_kind StoreTrue VTrue = True"
| "of_kind k v = False"

text \<open>An entry of the namespace agrees with a declaration; every positional and every required option is there.\<close>

fun declared :: "sub_parser \<Rightarrow> string \<times> arg_value \<Rightarrow> bool" where
  "declared (pos, opts) (n, v) = (
     list_ex (\<lambda>(m, choices). m = n \<and> (case v of VText t \<Rightarrow> choices = [] \<or> t \<in> set choices | _ \<Rightarrow> False)) pos \<or>
     list_ex (\<lambda>(opt, k, needed). dest opt = n \<and> of_kind k v) opts)"

fun well_typed :: "sub_parser \<Rightarrow> args \<Rightarrow> bool" where
  "well_typed (pos, opts) vals = (list_all (declared (pos, opts)) vals \<and>
     list_all (\<lambda>(n, choices). n \<in> fst ` set vals) pos \<and>
     list_all (\<lambda>(opt, k, needed). needed \<longrightarrow> dest opt \<in> fst ` set vals) opts)"

lemma convert_of_kind: "convert k v = Some x \<Longrightarrow> of_kind k x"
  by (cases k) (auto simp: convert_def)

lemma declared_option:
  "map_of opts n = Some (k, needed) \<Longrightarrow> of_kind k x \<Longrightarrow> declared (pos, opts) (dest n, x)"
  by (auto simp: list_ex_iff dest: map_of_SomeD intro!: bexI [of _ "(n, k, needed)"])

lemma help_with_not_parsed [simp]: "help_with n e \<noteq> Parsed vals"
  by (simp add: help_with_def split: option.splits)

lemma declared_positional:
  "(n, choices) \<in> set P \<Longrightarrow> choices = [] \<or> w \<in> set choices \<Longrightarrow> declared (P, opts) (n, VText w)"
  by (auto simp: list_ex_iff intro!: bexI [of _ "(n, choices)"])

lemma option_entry_declared:
  "map_of opts n = Some (k, needed) \<Longrightarrow> option_entry opts n k e ws = Some (entry, took) \<Longrightarrow> declared (pos, opts) entry"
  by (auto simp: option_entry_def simp del: declared.simps split: arg_kind.splits option.splits list.splits if_splits
      dest!: convert_of_kind intro: declared_option)

text \<open>What a scan has read and what it still wants.\<close>

definition scanned :: "sub_parser \<Rightarrow> (string \<times> string list) list \<Rightarrow> args \<Rightarrow> bool" where
  "scanned p pos vals = (list_all (declared p) vals \<and> set pos \<subseteq> set (fst p) \<and>
     (\<forall>(n, choices) \<in> set (fst p). (n, choices) \<in> set pos \<or> n \<in> fst ` set vals))"

lemma scanned_option:
  "scanned p pos vals \<Longrightarrow> declared p e \<Longrightarrow> scanned p pos (e # vals)"
  by (auto simp: scanned_def)

lemma scanned_positional:
  "scanned p ((n, choices) # more) vals \<Longrightarrow> choices = [] \<or> w \<in> set choices \<Longrightarrow>
   scanned p more ((n, VText w) # vals)"
  by (cases p) (auto simp: scanned_def simp del: declared.simps intro: declared_positional)

lemma scan_args_well_typed:
  "scan_args opts raw ws pos vals extra = Parsed vals' \<Longrightarrow> scanned (P, opts) pos vals \<Longrightarrow> well_typed (P, opts) vals'"
proof (induction opts raw ws pos vals extra rule: scan_args.induct)
  case (1 opts raw pos vals extra)
  then show ?case
    by (auto simp: finish_parse_def scanned_def list_all_iff list_ex_iff split: if_splits)
next
  case (2 opts raw w ws pos vals extra)
  note ok = "2.prems"(2)
  let ?k = "if raw then Positional else word_kind (help_options @ map fst opts) w"
  show ?case
  proof (cases "w = ''--'' \<and> \<not> raw")
    case True
    then show ?thesis using 2 by (simp del: well_typed.simps split: if_splits)
  next
    case False
    note res = "2.prems"(1) [unfolded scan_args.simps if_not_P [OF False]]
    show ?thesis
    proof (cases ?k)
      case Positional
      then show ?thesis using res "2.IH"(2,3) [OF False] ok scanned_positional
        by (cases pos) (auto simp del: well_typed.simps split: if_splits)
    next
      case (Option n e)
      then obtain k needed entry took where opt: "map_of opts n = Some (k, needed)" "option_entry opts n k e ws = Some (entry, took)"
        using res by (auto split: option.splits)
      with Option res "2.IH"(4) [OF False Option opt(1) refl opt(2) refl]
        scanned_option [OF ok option_entry_declared [OF opt]]
      show ?thesis by simp
    next
      case NoSuchOption
      then show ?thesis using res "2.IH"(5) [OF False] ok by simp
    next
      case AmbiguousOption
      then show ?thesis using res by simp
    qed
  qed
qed
lemma parse_args_typed:
  assumes "parse_args argv = Parsed (cmd, vals)"
  shows "\<exists>p. map_of build_parser cmd = Some p \<and> well_typed p vals"
  using assms
proof (induction argv)
  case (Cons w ws)
  have "scanned (pos, opts) pos []" for pos opts by (simp add: scanned_def)
  with Cons show ?case
    by (auto simp: parse_sub_def simp del: well_typed.simps dest!: scan_args_well_typed
        split: if_splits word_kind.splits option.splits prod.splits parsed.splits)
qed simp



lemma typed_positional:
  assumes "well_typed (pos, opts) a" "(n, choices) \<in> set pos" "n \<notin> dest ` fst ` set opts"
  shows "\<exists>t. map_of a n = Some (VText t)"
proof -
  from assms(1,2) have "n \<in> fst ` set a" "list_all (declared (pos, opts)) a" by (auto simp: list_all_iff)
  then obtain v where v: "map_of a n = Some v" "declared (pos, opts) (n, v)"
    by (metis (no_types, lifting) domIff dom_map_of_conv_image_fst list_all_iff map_of_SomeD not_None_eq)
  then show ?thesis using assms(3) by (cases v) (force simp: list_ex_iff)+
qed

text \<open>Shortened options, values that look like negative numbers, and words that are refused.\<close>

lemma parse_examples:
  "parse_args [''resize'', ''--vc'', ''-4'', ''t1''] = Parsed (''resize'', [(''id'', VText ''t1''), (''vcpu'', VInt (- 4))])"
  "parse_args [''get'', ''--'', ''-x''] = Parsed (''get'', [(''id'', VText ''-x'')])"
  "parse_args [''get'', ''-x''] = Usage" "parse_args [''resize'', ''t1''] = Usage"
  "parse_args [''batch'', ''resize'', ''--ids'', ''t1''] = Usage"
  "parse_args [''delete'', ''t1'', ''-hh''] = ShowHelp" "parse_args [''-v'', ''list''] = Usage"
  by code_simp+

end
