(* ===== verification/Gateway.thy ===== *)
theory Gateway
  imports Api
begin

text \<open>
  The REST API in front of the Lambdas (\<open>_build_api_routes\<close>, \<open>_build_skills_lambda\<close> and
  \<open>_build_templates_lambda\<close> of deploy/stack.py): the declared resources with their methods and the
  function behind each, and how API Gateway takes a call to one of them. The declarations are compared with
  the table of routes of the API Lambda. The CORS preflight methods are not modelled.
\<close>

section \<open>Declared methods\<close>

datatype integration = ApiFn | SkillsFn | TemplatesFn

type_synonym gateway = "((string \<times> string) \<times> integration) list"

definition add_resource :: "string \<Rightarrow> string \<Rightarrow> string" where
  "add_resource parent part = parent @ ''/'' @ part"

definition root :: string where
  "root = []"

text \<open>\<open>add_method\<close> with the integration of the API function.\<close>

definition li :: "string \<Rightarrow> string \<Rightarrow> (string \<times> string) \<times> integration" where
  "li resource meth = ((meth, resource), ApiFn)"

definition build_api_routes :: gateway where
  "build_api_routes = (let
       tenants_resource = add_resource root ''tenants'';
       tenant_resource = add_resource tenants_resource ''{id}'';
       tenant_action = add_resource tenant_resource ''{action}'';
       hosts_resource = add_resource root ''hosts'';
       host_resource = add_resource hosts_resource ''{instance_id}'';
       backups_resource = add_resource root ''backups'';
       groups_resource = add_resource root ''groups'';
       group_resource = add_resource groups_resource ''{name}'';
       group_skills_resource = add_resource group_resource ''skills'';
       group_skill_resource = add_resource group_skills_resource ''{skill}'';
       batch_resource = add_resource root ''batch'';
       batch_tenants_resource = add_resource batch_resource ''tenants'';
       refresh_rootfs_resource = add_resource hosts_resource ''refresh-rootfs'';
       rootfs_version_resource = add_resource hosts_resource ''rootfs-version'';
       agentcore_resource = add_resource root ''agentcore'';
       agentcore_status_resource = add_resource agentcore_resource ''status'';
       agentcore_tools_resource = add_resource agentcore_resource ''tools'';
       system_resource = add_resource root ''system'';
       system_info_resource = add_resource system_resource ''info'';
       audit_log_resource = add_resource root ''audit-log'';
       admin_resource = add_resource root ''admin'';
       admin_routing_resource = add_resource admin_resource ''routing''
     in [li tenants_resource ''GET'', li tenants_resource ''POST'',
       li tenant_resource ''GET'', li tenant_resource ''DELETE'',
       li tenant_action ''POST'', li tenant_action ''GET'',
       li hosts_resource ''GET'', li hosts_resource ''POST'', li host_resource ''DELETE'',
       li backups_resource ''GET'', li groups_resource ''GET'', li groups_resource ''POST'',
       li group_skills_resource ''POST'', li group_skill_resource ''DELETE'',
       li batch_tenants_resource ''POST'', li refresh_rootfs_resource ''POST'',
       li rootfs_version_resource ''GET'', li agentcore_status_resource ''GET'',
       li agentcore_tools_resource ''GET'', li system_info_resource ''GET'', li audit_log_resource ''GET'',
       li (add_resource admin_routing_resource ''status'') ''GET'',
       li (add_resource admin_routing_resource ''rebuild'') ''POST'',
       li (add_resource admin_routing_resource ''purge-per-tenant'') ''POST''])"

definition build_skills_lambda :: gateway where
  "build_skills_lambda = (let skills_resource = add_resource root ''skills''; skill_resource = add_resource skills_resource ''{name}''
     in [((''GET'', skills_resource), SkillsFn), li skill_resource ''GET'', li skill_resource ''PUT'', li skill_resource ''DELETE''])"

definition build_templates_lambda :: gateway where
  "build_templates_lambda = (let templates_resource = add_resource root ''templates''; template_item = add_resource templates_resource ''{name}''
     in [((''GET'', templates_resource), TemplatesFn), ((''GET'', template_item), TemplatesFn),
       ((''PUT'', template_item), TemplatesFn), ((''DELETE'', template_item), TemplatesFn)])"

definition rest_api :: gateway where
  "rest_api = build_api_routes @ build_skills_lambda @ build_templates_lambda"

lemma rest_api_methods: "rest_api = [
     ((''GET'', ''/tenants''), ApiFn), ((''POST'', ''/tenants''), ApiFn),
     ((''GET'', ''/tenants/{id}''), ApiFn), ((''DELETE'', ''/tenants/{id}''), ApiFn),
     ((''POST'', ''/tenants/{id}/{action}''), ApiFn), ((''GET'', ''/tenants/{id}/{action}''), ApiFn),
     ((''GET'', ''/hosts''), ApiFn), ((''POST'', ''/hosts''), ApiFn), ((''DELETE'', ''/hosts/{instance_id}''), ApiFn),
     ((''GET'', ''/backups''), ApiFn), ((''GET'', ''/groups''), ApiFn), ((''POST'', ''/groups''), ApiFn),
     ((''POST'', ''/groups/{name}/skills''), ApiFn), ((''DELETE'', ''/groups/{name}/skills/{skill}''), ApiFn),
     ((''POST'', ''/batch/tenants''), ApiFn), ((''POST'', ''/hosts/refresh-rootfs''), ApiFn),
     ((''GET'', ''/hosts/rootfs-version''), ApiFn), ((''GET'', ''/agentcore/status''), ApiFn),
     ((''GET'', ''/agentcore/tools''), ApiFn), ((''GET'', ''/system/info''), ApiFn), ((''GET'', ''/audit-log''), ApiFn),
     ((''GET'', ''/admin/routing/status''), ApiFn), ((''POST'', ''/admin/routing/rebuild''), ApiFn),
     ((''POST'', ''/admin/routing/purge-per-tenant''), ApiFn), ((''GET'', ''/skills''), SkillsFn),
     ((''GET'', ''/skills/{name}''), ApiFn), ((''PUT'', ''/skills/{name}''), ApiFn), ((''DELETE'', ''/skills/{name}''), ApiFn),
     ((''GET'', ''/templates''), TemplatesFn), ((''GET'', ''/templates/{name}''), TemplatesFn),
     ((''PUT'', ''/templates/{name}''), TemplatesFn), ((''DELETE'', ''/templates/{name}''), TemplatesFn)]"
  by (simp add: rest_api_def build_api_routes_def build_skills_lambda_def build_templates_lambda_def add_resource_def root_def
      li_def Let_def)

section \<open>Calls\<close>

record http_call =
  hc_method :: string
  hc_url :: string
  hc_headers :: "(string \<times> string) list"
  hc_body :: "json option"

text \<open>
  API Gateway: the declared resource a request matches, with the parameters of its path and the query, both
  decoded.
\<close>

definition hex_val :: "char \<Rightarrow> nat" where
  "hex_val c = (if is_digit c then digit_val c else if is_lower c then char_code c - 87 else char_code c - 55)"

fun percent_decode :: "string \<Rightarrow> char list" where
  "percent_decode (c # a # b # s) = (if c = CHR ''%'' then char_of (16 * hex_val a + hex_val b) # percent_decode s
     else c # percent_decode (a # b # s))"
| "percent_decode s = s"

fun from_utf8 :: "char list \<Rightarrow> string" where
  "from_utf8 (c # d # s) = (if char_code c < 128 then c # from_utf8 (d # s)
     else char_of ((char_code c - 192) * 64 + (char_code d - 128)) # from_utf8 s)"
| "from_utf8 s = s"

definition url_decode :: "string \<Rightarrow> string" where
  "url_decode s = from_utf8 (percent_decode s)"

definition is_param :: "string \<Rightarrow> bool" where
  "is_param seg = prefix ''{'' seg"

fun match_segments :: "string list \<Rightarrow> string list \<Rightarrow> (string \<times> string) list option" where
  "match_segments [] [] = Some []"
| "match_segments (t # ts) (p # ps) =
     (if is_param t then (if p = [] then None else map_option (\<lambda>m. (butlast (tl t), url_decode p) # m) (match_segments ts ps))
      else if t = p then match_segments ts ps else None)"
| "match_segments ts ps = None"

definition path_part :: "string \<Rightarrow> string" where
  "path_part rest = takeWhile (\<lambda>c. c \<noteq> CHR ''?'') rest"

definition query_part :: "string \<Rightarrow> (string \<times> string) list" where
  "query_part rest = (let q = tl (dropWhile (\<lambda>c. c \<noteq> CHR ''?'') rest) in
     if q = [] then [] else map (\<lambda>kv. case split1 CHR ''='' kv of (k, v) \<Rightarrow> (url_decode k, url_decode v)) (split_on CHR ''&'' q))"

definition find_route :: "(string \<times> string) list \<Rightarrow> string \<Rightarrow> string \<Rightarrow> (string \<times> (string \<times> string) list) option" where
  "find_route keys meth path = (case List.map_filter (\<lambda>(m, template). if m \<noteq> meth then None
       else map_option (Pair template) (match_segments (split_on CHR ''/'' template) (split_on CHR ''/'' path))) keys of
     [] \<Rightarrow> None | found # _ \<Rightarrow> Some found)"

definition gateway_event :: "(string \<times> string) list \<Rightarrow> string \<Rightarrow> http_call \<Rightarrow> event option" where
  "gateway_event keys base r = (let rest = drop (length base) (hc_url r) in
     map_option (\<lambda>(template, path). \<lparr>ev_method = hc_method r, ev_resource = template, ev_path = path,
         ev_query = query_part rest, ev_multi_query = map (\<lambda>(k, v). (k, [v])) (query_part rest),
         ev_headers = hc_headers r, ev_api_key_id = None,
         ev_body = (case hc_body r of None \<Rightarrow> NoBody | Some j \<Rightarrow> Json j)\<rparr>)
       (find_route keys (hc_method r) (path_part rest)))"

lemma split_on_plain: "c \<notin> set a \<Longrightarrow> split_on c a = [a]"
  by (induction a) auto

lemma split_on_append: "c \<notin> set a \<Longrightarrow> split_on c (a @ c # b) = a # split_on c b"
  by (induction a) auto

lemma percent_decode_plain: "CHR ''%'' \<notin> set s \<Longrightarrow> percent_decode s = s"
  by (induction s rule: percent_decode.induct) auto

lemma from_utf8_ascii: "list_all (\<lambda>c. char_code c < 128) s \<Longrightarrow> from_utf8 s = s"
  by (induction s rule: from_utf8.induct) auto

section \<open>Declarations and routes\<close>

definition drain_key :: "string \<times> string" where
  "drain_key = (''POST'', ''/hosts/{instance_id}/drain'')"

definition failover_key :: "string \<times> string" where
  "failover_key = (''POST'', ''/failover/{az}'')"

definition api_keys :: "(string \<times> string) list" where
  "api_keys = map fst (filter (\<lambda>(k, f). f = ApiFn) rest_api)"

lemma api_keys_list: "api_keys = [
     (''GET'', ''/tenants''), (''POST'', ''/tenants''), (''GET'', ''/tenants/{id}''), (''DELETE'', ''/tenants/{id}''),
     (''POST'', ''/tenants/{id}/{action}''), (''GET'', ''/tenants/{id}/{action}''), (''GET'', ''/hosts''), (''POST'', ''/hosts''),
     (''DELETE'', ''/hosts/{instance_id}''), (''GET'', ''/backups''), (''GET'', ''/groups''), (''POST'', ''/groups''),
     (''POST'', ''/groups/{name}/skills''), (''DELETE'', ''/groups/{name}/skills/{skill}''),
     (''POST'', ''/batch/tenants''), (''POST'', ''/hosts/refresh-rootfs''), (''GET'', ''/hosts/rootfs-version''),
     (''GET'', ''/agentcore/status''), (''GET'', ''/agentcore/tools''), (''GET'', ''/system/info''), (''GET'', ''/audit-log''),
     (''GET'', ''/admin/routing/status''), (''POST'', ''/admin/routing/rebuild''), (''POST'', ''/admin/routing/purge-per-tenant''),
     (''GET'', ''/skills/{name}''), (''PUT'', ''/skills/{name}''), (''DELETE'', ''/skills/{name}'')]"
  by (simp add: api_keys_def rest_api_methods)

lemma route_keys: "fst ` set (routes c x e) = set api_keys \<union> {drain_key, failover_key}"
proof -
  have "list_all (\<lambda>k. k \<in> set (drain_key # failover_key # api_keys)) (map fst (routes c x e))"
    "list_all (\<lambda>k. k \<in> set (map fst (routes c x e))) (drain_key # failover_key # api_keys)"
    by (simp_all add: routes_def Let_def api_keys_list drain_key_def failover_key_def)
  then have "set (map fst (routes c x e)) = set (drain_key # failover_key # api_keys)" unfolding list_all_iff by blast
  then show ?thesis by (simp add: insert_commute)
qed

lemma distinct_rest_api: "distinct (map fst rest_api)"
  unfolding rest_api_methods by simp

lemma api_method_iff: "map_of rest_api k = Some ApiFn \<longleftrightarrow> k \<in> set api_keys"
  unfolding api_keys_def map_of_eq_Some_iff [OF distinct_rest_api] by force

lemma undeclared: "map_of rest_api drain_key = None" "map_of rest_api failover_key = None"
  unfolding rest_api_methods drain_key_def failover_key_def by simp_all

lemma api_method_has_route: "map_of rest_api k = Some ApiFn \<Longrightarrow> \<exists>h. map_of (routes c x e) k = Some h"
proof -
  assume "map_of rest_api k = Some ApiFn"
  then have "k \<in> fst ` set (routes c x e)" by (simp add: api_method_iff route_keys)
  then show ?thesis by (cases "map_of (routes c x e) k") (simp_all add: map_of_eq_None_iff)
qed

text \<open>
  C30. The declared methods and the table of routes agree but for two: a method is handed to the API
  Lambda exactly if the Lambda has a route for it, with the exceptions of the drain of a host and the
  manual failover of a zone, which have handlers but are declared nowhere, so that no call reaches them.
\<close>

theorem gateway_matches_routes:
  "{k. map_of rest_api k = Some ApiFn} = fst ` set (routes c x e) - {drain_key, failover_key} \<and>
   {drain_key, failover_key} \<subseteq> fst ` set (routes c x e) \<and>
   map_of rest_api drain_key = None \<and> map_of rest_api failover_key = None"
proof -
  have "drain_key \<notin> set api_keys" "failover_key \<notin> set api_keys" using undeclared by (auto simp flip: api_method_iff)
  then show ?thesis using undeclared by (auto simp: api_method_iff route_keys)
qed

text \<open>Whatever the host or the zone, these two calls are taken to no method at all.\<close>

lemma drain_unreachable:
  assumes "CHR ''/'' \<notin> set i"
  shows "find_route (map fst rest_api) ''POST'' (''/hosts/'' @ i @ ''/drain'') = None"
  using assms unfolding rest_api_methods
  by (simp add: find_route_def map_filter_simps is_param_def split_on_append split_on_plain)

lemma failover_unreachable:
  assumes "CHR ''/'' \<notin> set z"
  shows "find_route (map fst rest_api) ''POST'' (''/failover/'' @ z) = None"
  using assms unfolding rest_api_methods
  by (simp add: find_route_def map_filter_simps is_param_def split_on_append split_on_plain)

end
