(* ===== verification/Cli.thy ===== *)
theory Cli
  imports CliParse Gateway
begin

text \<open>
  The \<open>oc\<close> tool (cli/oc.py): the credentials from the environment or from a \<open>.env.deploy\<close> file, the request
  each sub-command sends to the API, its answer printed, and the exit code. The network is an answer for
  every call; the sub-commands' requests are followed through API Gateway to the routes of the API Lambda.
\<close>

section \<open>The shell\<close>

text \<open>A file \<open>.env.deploy\<close> beside the working directory or a parent of it.\<close>

datatype env_file = NoFile | EnvText string | UnreadableFile string

text \<open>
  What \<open>urlopen\<close> does: it returns a body, raises \<open>HTTPError\<close> with a status, a reason and a body that can be
  read and decoded or not, or raises another exception with its text.
\<close>

datatype http_answer = Answered string | ErrorStatus int string "string option" | NoAnswer string

text \<open>
  The process: its environment, the files of the directories upwards, the line typed at the prompt (None at
  the end of the input), the network, the parser of JSON texts and the printer of floats; and what the
  run leaves behind: calls sent, text printed on both outputs.
\<close>

record shell =
  sh_env :: "string \<Rightarrow> string option"
  sh_dirs :: "env_file list"
  sh_typed :: "string option"
  sh_net :: "http_call \<Rightarrow> http_answer"
  sh_loads :: "string \<Rightarrow> json option"
  sh_float :: "pyfloat \<Rightarrow> string"
  sh_sent :: "http_call list"
  sh_out :: "string list"
  sh_err :: "string list"

text \<open>A \<open>RuntimeError\<close> of missing credentials, an \<open>HTTPError\<close>, or any other exception.\<close>

datatype cli_error = MissingCredentials string | HttpFailure int string "string option" | Broken string

type_synonym 'a cli = "shell \<Rightarrow> (cli_error + 'a) \<times> shell"

section \<open>Configuration\<close>

definition env_line :: "string \<Rightarrow> (string \<times> string) list \<Rightarrow> (string \<times> string) list" where
  "env_line l env = (let line = strip l in
     if line = [] \<or> prefix ''#'' line \<or> CHR ''='' \<notin> set line then env
     else case split1 CHR ''='' line of (k, v) \<Rightarrow> AList.update (strip k) (strip v) env)"

fun load_env_deploy_file :: "env_file list \<Rightarrow> cli_error + (string \<times> string) list" where
  "load_env_deploy_file [] = Inr []"
| "load_env_deploy_file (NoFile # dirs) = load_env_deploy_file dirs"
| "load_env_deploy_file (EnvText t # dirs) = Inr (fold env_line (splitlines t) [])"
| "load_env_deploy_file (UnreadableFile e # dirs) = Inl (Broken e)"

text \<open>\<open>os.environ.get(k) or file_env.get(k', \"\")\<close>.\<close>

definition setting :: "(string \<Rightarrow> string option) \<Rightarrow> (string \<times> string) list \<Rightarrow> string \<Rightarrow> string \<Rightarrow> string" where
  "setting env file_env k k' = (case env k of Some (c # v) \<Rightarrow> c # v | _ \<Rightarrow> param file_env k' '''')"

definition load_env :: "shell \<Rightarrow> cli_error + string \<times> string" where
  "load_env s = bind_sum (load_env_deploy_file (sh_dirs s)) (\<lambda>file_env.
     Inr (setting (sh_env s) file_env ''OC_API_URL'' ''API_URL'', setting (sh_env s) file_env ''OC_API_KEY'' ''API_KEY''))"

definition build_url :: "string \<Rightarrow> string \<Rightarrow> string" where
  "build_url base endpoint = (let base' = (if suffix ''/'' base then butlast base else base);
     endpoint' = (if prefix ''/'' endpoint then endpoint else ''/'' @ endpoint) in base' @ endpoint')"

section \<open>Requests\<close>

text \<open>
  \<open>urllib.request.Request(url)\<close>: surrounding space, angle brackets and \<open>URL:\<close> are taken off, and what
  follows the last number sign is the fragment, which is not sent.
\<close>

definition unwrap :: "string \<Rightarrow> string" where
  "unwrap u = (let u1 = strip u;
     u2 = (if prefix ''<'' u1 \<and> suffix ''>'' u1 then strip (butlast (tl u1)) else u1)
   in if prefix ''URL:'' u2 then strip (drop 4 u2) else u2)"

definition before_last :: "char \<Rightarrow> string \<Rightarrow> string" where
  "before_last c s = (if c \<in> set s then rev (tl (dropWhile (\<lambda>x. x \<noteq> c) (rev s))) else s)"

definition full_url :: "string \<Rightarrow> string" where
  "full_url u = before_last CHR ''#'' (unwrap u)"

text \<open>\<open>http.client\<close> refuses control characters and spaces, and encodes the rest as ASCII.\<close>

definition sendable :: "string \<Rightarrow> bool" where
  "sendable u = list_all (\<lambda>c. 33 \<le> char_code c \<and> char_code c \<le> 126) u"

definition credentials_text :: string where
  "credentials_text = ''missing credentials: set OC_API_URL and OC_API_KEY (or run setup.sh to populate .env.deploy)''"

definition send_call :: "http_call \<Rightarrow> string cli" where
  "send_call r s = (if \<not> sendable (hc_url r) then (Inl (Broken ''URL can't be sent''), s)
     else let t = s\<lparr>sh_sent := sh_sent s @ [r]\<rparr> in
       (case sh_net s r of Answered text \<Rightarrow> (Inr text, t)
         | ErrorStatus code reason text \<Rightarrow> (Inl (HttpFailure code reason text), t)
         | NoAnswer e \<Rightarrow> (Inl (Broken e), t)))"

definition api_call :: "string \<Rightarrow> string \<Rightarrow> string \<Rightarrow> string \<Rightarrow> json option \<Rightarrow> http_call" where
  "api_call api_url api_key meth endpoint bd = \<lparr>hc_method = meth, hc_url = full_url (build_url api_url endpoint),
     hc_headers = (''X-api-key'', api_key) # (if bd = None then [] else [(''Content-Type'', ''application/json'')]),
     hc_body = bd\<rparr>"

definition request_api :: "string \<Rightarrow> string \<Rightarrow> json option \<Rightarrow> string cli" where
  "request_api meth endpoint bd s = (case load_env s of
       Inl e \<Rightarrow> (Inl e, s)
     | Inr (api_url, api_key) \<Rightarrow>
         if api_url = [] \<or> api_key = [] then (Inl (MissingCredentials credentials_text), s)
         else send_call (api_call api_url api_key meth endpoint bd) s)"


section \<open>Printing answers\<close>

definition hex_digit :: "nat \<Rightarrow> char" where
  "hex_digit d = (if d < 10 then digit_char d else char_of (87 + d))"

definition json_char :: "char \<Rightarrow> string" where
  "json_char c = (let n = char_code c in
     if n = 0x22 \<or> n = 0x5C then [CHR 0x5C, c]
     else if n = 8 then [CHR 0x5C, CHR ''b''] else if n = 9 then [CHR 0x5C, CHR ''t'']
     else if n = 10 then [CHR 0x5C, CHR ''n''] else if n = 12 then [CHR 0x5C, CHR ''f'']
     else if n = 13 then [CHR 0x5C, CHR ''r'']
     else if n < 32 then CHR 0x5C # ''u00'' @ [hex_digit (n div 16), hex_digit (n mod 16)]
     else [c])"

definition json_text :: "string \<Rightarrow> string" where
  "json_text s = [CHR 0x22] @ concat (map json_char s) @ [CHR 0x22]"

definition indent_line :: "nat \<Rightarrow> string" where
  "indent_line n = newline # replicate (2 * n) CHR '' ''"

definition block :: "char \<Rightarrow> char \<Rightarrow> nat \<Rightarrow> string list \<Rightarrow> string" where
  "block l r n items = (if items = [] then [l, r]
     else [l] @ indent_line (Suc n) @ join ('','' @ indent_line (Suc n)) items @ indent_line n @ [r])"

text \<open>\<open>json.dumps(v, indent=2, ensure_ascii=False)\<close> at a level of nesting.\<close>

fun dumps_indented :: "(pyfloat \<Rightarrow> string) \<Rightarrow> nat \<Rightarrow> json \<Rightarrow> string" where
  "dumps_indented fl n JNull = ''null''"
| "dumps_indented fl n (JBool b) = (if b then ''true'' else ''false'')"
| "dumps_indented fl n (JInt i) = show_int i"
| "dumps_indented fl n (JFloat x) = fl x"
| "dumps_indented fl n (JInf neg) = (if neg then ''-Infinity'' else ''Infinity'')"
| "dumps_indented fl n JNaN = ''NaN''"
| "dumps_indented fl n (JStr s) = json_text s"
| "dumps_indented fl n (JList xs) = block CHR ''['' CHR '']'' n (map (dumps_indented fl (Suc n)) xs)"
| "dumps_indented fl n (JObj kvs) = block CHR ''{'' CHR ''}'' n
     (map (\<lambda>kv. json_text (fst kv) @ '': '' @ dumps_indented fl (Suc n) (snd kv)) kvs)"

definition fmt_response :: "shell \<Rightarrow> string \<Rightarrow> string" where
  "fmt_response s text = (case sh_loads s text of Some v \<Rightarrow> dumps_indented (sh_float s) 0 v | None \<Rightarrow> text)"

definition print_line :: "string \<Rightarrow> shell \<Rightarrow> shell" where
  "print_line l s = s\<lparr>sh_out := sh_out s @ [l]\<rparr>"

definition print_error :: "string \<Rightarrow> shell \<Rightarrow> shell" where
  "print_error l s = s\<lparr>sh_err := sh_err s @ [l]\<rparr>"

section \<open>Sub-commands\<close>

text \<open>The body of most of them: one request, the answer printed, exit code 0.\<close>

definition show_answer :: "string \<Rightarrow> string \<Rightarrow> json option \<Rightarrow> int cli" where
  "show_answer meth endpoint bd s = (case request_api meth endpoint bd s of
       (Inl e, t) \<Rightarrow> (Inl e, t)
     | (Inr text, t) \<Rightarrow> (Inr 0, print_line (fmt_response t text) t))"

text \<open>Attributes of the namespace.\<close>

definition text_arg :: "args \<Rightarrow> string \<Rightarrow> string" where
  "text_arg a k = (case map_of a k of Some (VText t) \<Rightarrow> t | _ \<Rightarrow> '''')"

definition int_arg :: "args \<Rightarrow> string \<Rightarrow> int option" where
  "int_arg a k = (case map_of a k of Some (VInt i) \<Rightarrow> Some i | _ \<Rightarrow> None)"

definition flag_arg :: "args \<Rightarrow> string \<Rightarrow> bool" where
  "flag_arg a k = (map_of a k = Some VTrue)"

definition tenant_path :: "args \<Rightarrow> string" where
  "tenant_path a = ''/tenants/'' @ text_arg a ''id''"

definition cmd_list :: "args \<Rightarrow> int cli" where
  "cmd_list a = show_answer ''GET'' ''/tenants'' None"

definition cmd_get :: "args \<Rightarrow> int cli" where
  "cmd_get a = show_answer ''GET'' (tenant_path a) None"

definition create_payload :: "args \<Rightarrow> json" where
  "create_payload a = JObj ([(''name'', JStr (text_arg a ''name''))] @
     (case int_arg a ''vcpu'' of None \<Rightarrow> [] | Some n \<Rightarrow> [(''vcpu'', JInt n)]) @
     (case int_arg a ''mem_mb'' of None \<Rightarrow> [] | Some n \<Rightarrow> [(''mem_mb'', JInt n)]) @
     (if text_arg a ''config_template'' = [] then [] else [(''config_template'', JStr (text_arg a ''config_template''))]))"

definition cmd_create :: "args \<Rightarrow> int cli" where
  "cmd_create a = show_answer ''POST'' ''/tenants'' (Some (create_payload a))"

text \<open>\<open>--keep-data\<close> is a flag whose default is already true.\<close>

definition keep_data_default :: bool where
  "keep_data_default = True"

definition keep_data_arg :: "args \<Rightarrow> bool" where
  "keep_data_arg a = (flag_arg a ''keep_data'' \<or> keep_data_default)"

definition confirmed :: "shell \<Rightarrow> bool" where
  "confirmed s = (case sh_typed s of None \<Rightarrow> False | Some l \<Rightarrow> ascii_lower (strip l) \<in> {''y'', ''yes''})"

definition cmd_delete :: "args \<Rightarrow> int cli" where
  "cmd_delete a s =
     (let t = (if flag_arg a ''force'' then s else print_line (''Delete tenant '' @ text_arg a ''id'' @ ''? [y/N]: '') s) in
      if \<not> flag_arg a ''force'' \<and> \<not> confirmed s then (Inr 1, print_error ''aborted'' t)
      else show_answer ''DELETE'' (tenant_path a @ ''?keep_data='' @ (if keep_data_arg a then ''true'' else ''false'')) None t)"

definition cmd_action :: "string \<Rightarrow> args \<Rightarrow> int cli" where
  "cmd_action verb a = show_answer ''POST'' (tenant_path a @ ''/'' @ verb) None"

definition cmd_resize :: "args \<Rightarrow> int cli" where
  "cmd_resize a = show_answer ''POST'' (tenant_path a @ ''/resize'')
     (Some (JObj [(''vcpu'', opt_json JInt (int_arg a ''vcpu''))]))"

definition cmd_resize_disk :: "args \<Rightarrow> int cli" where
  "cmd_resize_disk a = show_answer ''POST'' (tenant_path a @ ''/resize-disk'')
     (Some (JObj [(''new_size_mb'', opt_json JInt (int_arg a ''new_size_mb''))]))"

definition cmd_migrate :: "args \<Rightarrow> int cli" where
  "cmd_migrate a = show_answer ''POST'' (tenant_path a @ ''/migrate'')
     (Some (JObj [(''target_host_id'', JStr (text_arg a ''target_host_id''))]))"

definition batch_ids :: "string \<Rightarrow> string list" where
  "batch_ids ids = filter (\<lambda>t. t \<noteq> []) (map strip (split_on CHR '','' ids))"

definition cmd_batch :: "args \<Rightarrow> int cli" where
  "cmd_batch a s = (let action = (''action'', JStr (text_arg a ''action'')); ids = text_arg a ''ids''; tag = text_arg a ''tag'' in
     if ids \<noteq> [] then show_answer ''POST'' ''/batch/tenants''
       (Some (JObj [action, (''ids'', JList (map JStr (batch_ids ids)))])) s
     else if tag \<noteq> [] then show_answer ''POST'' ''/batch/tenants''
       (Some (JObj [action, (''filter'', JObj [(''tag'', JStr tag)])])) s
     else (Inr 2, print_error ''error: provide --ids or --tag'' s))"

text \<open>\<open>urllib.parse.quote\<close>: the UTF-8 bytes of a text, all but the safe ones as percent and two digits.\<close>

definition utf8 :: "char \<Rightarrow> char list" where
  "utf8 c = (let n = char_code c in if n < 128 then [c] else [char_of (192 + n div 64), char_of (128 + n mod 64)])"

definition upper_hex :: "nat \<Rightarrow> char" where
  "upper_hex d = (if d < 10 then digit_char d else char_of (55 + d))"

definition url_safe :: "char \<Rightarrow> bool" where
  "url_safe c = (is_lower c \<or> (65 \<le> char_code c \<and> char_code c \<le> 90) \<or> is_digit c \<or> c \<in> set ''_.-~/'')"

definition quote_byte :: "char \<Rightarrow> string" where
  "quote_byte c = (if url_safe c then [c] else [CHR ''%'', upper_hex (char_code c div 16), upper_hex (char_code c mod 16)])"

definition url_quote :: "string \<Rightarrow> string" where
  "url_quote s = concat (map quote_byte (concat (map utf8 s)))"

definition audit_params :: "args \<Rightarrow> string list" where
  "audit_params a =
     (if text_arg a ''since'' = [] then [] else [''since='' @ url_quote (text_arg a ''since'')]) @
     (if text_arg a ''before'' = [] then [] else [''before='' @ url_quote (text_arg a ''before'')]) @
     (case int_arg a ''limit'' of None \<Rightarrow> [] | Some n \<Rightarrow> if n = 0 then [] else [''limit='' @ show_int n])"

definition cmd_audit_log :: "args \<Rightarrow> int cli" where
  "cmd_audit_log a = (let params = audit_params a; qs = (if params = [] then '''' else ''?'' @ join ''&'' params)
     in show_answer ''GET'' (''/audit-log'' @ qs) None)"

definition cmd_backups :: "args \<Rightarrow> int cli" where
  "cmd_backups a = show_answer ''GET'' ''/backups'' None"

definition cmd_hosts :: "args \<Rightarrow> int cli" where
  "cmd_hosts a = show_answer ''GET'' ''/hosts'' None"

definition cmd_version :: "args \<Rightarrow> int cli" where
  "cmd_version a s = (Inr 0, print_line ''oc 0.7.0'' s)"

section \<open>The program\<close>

text \<open>The function each sub-parser sets as default.\<close>

definition commands :: "(string \<times> (args \<Rightarrow> int cli)) list" where
  "commands = [(''list'', cmd_list), (''get'', cmd_get), (''create'', cmd_create), (''delete'', cmd_delete)] @
     map (\<lambda>verb. (verb, cmd_action verb)) action_verbs @
     [(''resize'', cmd_resize), (''resize-disk'', cmd_resize_disk), (''migrate'', cmd_migrate), (''batch'', cmd_batch),
      (''audit-log'', cmd_audit_log), (''backups'', cmd_backups), (''hosts'', cmd_hosts), (''version'', cmd_version)]"

definition http_error_text :: "int \<Rightarrow> string \<Rightarrow> string option \<Rightarrow> string" where
  "http_error_text code reason text = ''HTTP '' @ show_int code @ '': '' @
     (case text of Some b \<Rightarrow> b | None \<Rightarrow> ''HTTP Error '' @ show_int code @ '': '' @ reason)"

definition report_error :: "cli_error \<Rightarrow> shell \<Rightarrow> int \<times> shell" where
  "report_error e s = (case e of
       MissingCredentials m \<Rightarrow> (2, print_error (''error: '' @ m) s)
     | HttpFailure code reason text \<Rightarrow> (1, print_error (http_error_text code reason text) s)
     | Broken m \<Rightarrow> (1, print_error (''error: '' @ m) s))"

definition run_command :: "string \<Rightarrow> args \<Rightarrow> shell \<Rightarrow> int \<times> shell" where
  "run_command cmd a s = (case map_of commands cmd of
       None \<Rightarrow> (2, s)
     | Some f \<Rightarrow> (case f a s of (Inl e, t) \<Rightarrow> report_error e t | (Inr code, t) \<Rightarrow> (code, t)))"

definition oc_main :: "string list \<Rightarrow> shell \<Rightarrow> int \<times> shell" where
  "oc_main argv s = (case parse_args argv of
       ShowHelp \<Rightarrow> (0, print_line ''usage: oc'' s)
     | Usage \<Rightarrow> (2, print_error ''usage: oc'' s)
     | Parsed (cmd, a) \<Rightarrow> run_command cmd a s)"

section \<open>Exit codes\<close>

text \<open>There is a function for every sub-command that is parsed.\<close>

lemma parser_has_command: "map_of build_parser cmd = Some p \<Longrightarrow> \<exists>f. map_of commands cmd = Some f"
proof -
  have "map fst build_parser = map fst commands"
    by (simp add: build_parser_def commands_def action_verbs_def)
  then have "fst ` set build_parser = fst ` set commands" by (metis set_map)
  then show "map_of build_parser cmd = Some p \<Longrightarrow> \<exists>f. map_of commands cmd = Some f"
    by (metis domIff dom_map_of_conv_image_fst not_None_eq option.distinct(1))
qed

text \<open>What a run of a sub-command that sends a request may end in.\<close>

definition sh_outcome :: "shell \<Rightarrow> (cli_error + int) \<times> shell \<Rightarrow> bool" where
  "sh_outcome s res = (case res of
       (Inr code, t) \<Rightarrow> if code = 0
         then \<exists>r text. sh_net s r = Answered text \<and> sh_sent t = sh_sent s @ [r] \<and> suffix [fmt_response s text] (sh_out t)
         else code \<in> {1, 2} \<and> sh_sent t = sh_sent s
     | (Inl (MissingCredentials m), t) \<Rightarrow> sh_sent t = sh_sent s
     | (Inl (HttpFailure code reason text), t) \<Rightarrow>
         \<exists>r. sh_net s r = ErrorStatus code reason text \<and> sh_sent t = sh_sent s @ [r]
     | (Inl (Broken m), t) \<Rightarrow> sh_sent t = sh_sent s \<or> (\<exists>r. sh_net s r = NoAnswer m \<and> sh_sent t = sh_sent s @ [r]))"

definition sh_same_setting :: "shell \<Rightarrow> shell \<Rightarrow> bool" where
  "sh_same_setting s t = (sh_net t = sh_net s \<and> sh_loads t = sh_loads s \<and> sh_float t = sh_float s \<and> sh_sent t = sh_sent s)"

lemma fmt_response_same: "sh_same_setting s t \<Longrightarrow> fmt_response t = fmt_response s"
  by (rule ext) (simp add: fmt_response_def sh_same_setting_def cong: option.case_cong)

lemma fmt_response_sent [simp]: "fmt_response (s\<lparr>sh_sent := x\<rparr>) = fmt_response s"
  by (rule ext) (simp add: fmt_response_def cong: option.case_cong)

lemma load_env_error: "load_env s = Inl e \<Longrightarrow> \<exists>m. e = Broken m"
proof -
  have "load_env_deploy_file dirs = Inl e \<Longrightarrow> \<exists>m. e = Broken m" for dirs
    by (induction dirs rule: load_env_deploy_file.induct) auto
  then show "load_env s = Inl e \<Longrightarrow> \<exists>m. e = Broken m"
    by (cases "load_env_deploy_file (sh_dirs s)") (auto simp: load_env_def)
qed

lemma show_answer_outcome: "sh_outcome s (show_answer meth endpoint bd s)"
  by (auto simp: show_answer_def request_api_def send_call_def sh_outcome_def Let_def print_line_def
      split: sum.splits http_answer.splits cli_error.splits dest: load_env_error)

lemma outcome_same: "sh_outcome t res \<Longrightarrow> sh_same_setting s t \<Longrightarrow> sh_outcome s res"
  using fmt_response_same [of s t]
  by (auto simp: sh_outcome_def sh_same_setting_def split: sum.splits cli_error.splits if_splits)

lemma command_outcome:
  assumes "map_of commands cmd = Some f" "cmd \<noteq> ''version''"
  shows "sh_outcome s (f a s)"
proof -
  have "sh_outcome s (cmd_delete a s)"
  proof (cases "flag_arg a ''force'' \<or> confirmed s")
    case True
    then show ?thesis
      by (auto simp: cmd_delete_def Let_def print_line_def sh_same_setting_def intro!: outcome_same [OF show_answer_outcome])
  next
    case False
    then show ?thesis by (simp add: cmd_delete_def sh_outcome_def print_line_def print_error_def)
  qed
  moreover have "sh_outcome s (cmd_batch a s)"
    by (auto simp: cmd_batch_def Let_def show_answer_outcome) (simp add: sh_outcome_def print_error_def)
  ultimately have "list_all (\<lambda>(k, f). k \<noteq> ''version'' \<longrightarrow> sh_outcome s (f a s)) commands"
    by (simp add: commands_def action_verbs_def cmd_list_def cmd_get_def cmd_create_def cmd_action_def cmd_resize_def
        cmd_resize_disk_def cmd_migrate_def cmd_audit_log_def cmd_backups_def cmd_hosts_def Let_def show_answer_outcome)
  with assms show ?thesis by (auto simp: list_all_iff dest: map_of_SomeD)
qed

lemma outcome_sent: "sh_outcome s (res, u) \<Longrightarrow> \<exists>rs. length rs \<le> 1 \<and> sh_sent u = sh_sent s @ rs"
proof -
  assume "sh_outcome s (res, u)"
  then have "sh_sent u = sh_sent s @ [] \<or> (\<exists>r. sh_sent u = sh_sent s @ [r])"
    by (cases res; cases "projl res") (auto simp: sh_outcome_def split: if_splits)
  then show ?thesis by (metis le_numeral_extra(4) length_Cons list.size(3) One_nat_def zero_le_one)
qed

text \<open>How an outcome becomes an exit code.\<close>

lemma outcome_code:
  assumes "sh_outcome s (res, u)"
    "(case res of Inl e \<Rightarrow> report_error e u | Inr c \<Rightarrow> (c, u)) = (code, t)"
  shows "sh_sent t = sh_sent u \<and> sh_out t = sh_out u \<and> code \<in> {0, 1, 2} \<and>
    (code = 0 \<longrightarrow> (\<exists>r text. sh_net s r = Answered text \<and> sh_sent t = sh_sent s @ [r] \<and> suffix [fmt_response s text] (sh_out t))) \<and>
    (code = 2 \<longrightarrow> sh_sent t = sh_sent s) \<and>
    (code = 1 \<longrightarrow> sh_sent t = sh_sent s \<or> (\<exists>r. sh_sent t = sh_sent s @ [r] \<and> (\<forall>text. sh_net s r \<noteq> Answered text)))"
proof (cases res)
  case (Inl e)
  with assms show ?thesis by (cases e) (auto simp: sh_outcome_def report_error_def print_error_def)
next
  case (Inr c)
  with assms show ?thesis by (auto simp: sh_outcome_def split: if_splits)
qed



text \<open>A shell with credentials and a network that answers every call.\<close>

definition shell0 :: shell where
  "shell0 = \<lparr>sh_env = (\<lambda>_. None), sh_dirs = [NoFile, EnvText (''# made by setup.sh'' @ [newline] @
       ''API_URL = https://a.b/v1/'' @ [newline] @ ''API_KEY=k'')], sh_typed = None, sh_net = (\<lambda>_. Answered ''{}''),
     sh_loads = (\<lambda>_. Some (JObj [])), sh_float = (\<lambda>_. ''''), sh_sent = [], sh_out = [], sh_err = []\<rparr>"


section \<open>Quoting\<close>

lemma char_code_char_of [simp]: "n < 256 \<Longrightarrow> char_code (char_of n) = n"
  by (simp add: char_code_def)

lemma char_code_less [simp]: "char_code c < 256"
  using range_nat_of_char by (auto simp: char_code_def)

lemma char_of_char_code [simp]: "char_of (char_code c) = c"
  by (simp add: char_code_def)

lemma hex_val_upper [simp]: "d < 16 \<Longrightarrow> hex_val (upper_hex d) = d"
  by (auto simp: hex_val_def upper_hex_def is_digit_def is_lower_def)

lemma percent_decode_byte: "percent_decode (quote_byte c @ s) = c # percent_decode s"
proof (cases "url_safe c")
  case True
  then have "c \<noteq> CHR ''%''" by (auto simp: url_safe_def is_lower_def is_digit_def char_code_def)
  then have "percent_decode (c # s) = c # percent_decode s" by (cases s; cases "tl s") auto
  with True show ?thesis by (simp add: quote_byte_def)
next
  case False
  have "char_code c div 16 < 16" using char_code_less [of c] by linarith
  then show ?thesis using False by (simp add: quote_byte_def)
qed

lemma percent_decode_quote: "percent_decode (concat (map quote_byte bs)) = bs"
  by (induction bs) (simp_all add: percent_decode_byte)

lemma from_utf8_char: "from_utf8 (utf8 c @ s) = c # from_utf8 s"
proof (cases "char_code c < 128")
  case True
  then show ?thesis by (cases s) (simp_all add: utf8_def)
next
  case False
  have "192 + char_code c div 64 < 256" "128 + char_code c mod 64 < 256" using char_code_less [of c] by linarith+
  moreover have "char_code c div 64 * 64 + char_code c mod 64 = char_code c" by simp
  ultimately show ?thesis using False by (simp add: utf8_def Let_def)
qed

lemma from_utf8_text: "from_utf8 (concat (map utf8 s)) = s"
  by (induction s) (simp_all add: from_utf8_char)

lemma url_decode_quote [simp]: "url_decode (url_quote s) = s"
  by (simp add: url_decode_def url_quote_def percent_decode_quote from_utf8_text)


section \<open>Requests on their way\<close>

definition clean :: "string \<Rightarrow> bool" where
  "clean s = list_all (\<lambda>c. 33 \<le> char_code c \<and> char_code c \<le> 126 \<and> c \<noteq> CHR ''#'') s"

text \<open>An id that is one segment of a path as it stands.\<close>

definition plain_id :: "string \<Rightarrow> bool" where
  "plain_id i = (i \<noteq> [] \<and> clean i \<and> set ''/?%'' \<inter> set i = {})"

definition web_address :: "string \<Rightarrow> bool" where
  "web_address u = (prefix ''http'' u \<and> clean u)"

definition base_url :: "string \<Rightarrow> string" where
  "base_url u = (if suffix ''/'' u then butlast u else u)"

lemma clean_simps [simp]:
  "clean []" "clean (a @ b) \<longleftrightarrow> clean a \<and> clean b"
  "clean (c # s) \<longleftrightarrow> 33 \<le> char_code c \<and> char_code c \<le> 126 \<and> c \<noteq> CHR ''#'' \<and> clean s"
  by (auto simp: clean_def)

lemma clean_sendable: "clean s \<Longrightarrow> sendable s"
  by (auto simp: clean_def sendable_def list_all_iff)

lemma strip_clean: "clean s \<Longrightarrow> strip s = s"
proof -
  have gap: "33 \<le> char_code c \<and> char_code c \<le> 126 \<Longrightarrow> \<not> is_space c" for c by (simp add: is_space_def Let_def)
  assume "clean s"
  then have "list_all (\<lambda>c. \<not> is_space c) s"
    unfolding clean_def by (rule list.pred_mono_strong) (use gap in blast)
  then show ?thesis by (rule strip_no_space)
qed

lemma full_url_clean: "prefix ''http'' u \<Longrightarrow> clean u \<Longrightarrow> full_url u = u"
proof -
  assume u: "prefix ''http'' u" "clean u"
  then have "\<not> prefix ''<'' u" "\<not> prefix ''URL:'' u" by (cases u; simp)+
  moreover have "CHR ''#'' \<notin> set u" using u(2) by (auto simp: clean_def list_all_iff)
  ultimately show ?thesis using u by (simp add: full_url_def unwrap_def Let_def strip_clean before_last_def)
qed

lemma base_url_parts:
  assumes "web_address u"
  shows "prefix ''http'' (base_url u)" "clean (base_url u)" "u \<noteq> []"
proof -
  from assms obtain r where r: "u = ''http'' @ r" "clean r" by (auto simp: web_address_def prefix_def)
  then have "base_url u = ''http'' @ (if suffix ''/'' u then butlast r else r)"
    by (cases r) (auto simp: base_url_def suffix_def)
  moreover have "clean (butlast r)" using r by (cases r rule: rev_cases) auto
  ultimately show "prefix ''http'' (base_url u)" "clean (base_url u)" "u \<noteq> []" using r by (auto simp: char_code_def)
qed

text \<open>The one call a request makes.\<close>

definition call_of :: "string \<Rightarrow> string \<Rightarrow> string \<Rightarrow> string \<Rightarrow> json option \<Rightarrow> http_call" where
  "call_of url key meth endpoint bd = \<lparr>hc_method = meth, hc_url = base_url url @ endpoint,
     hc_headers = (''X-api-key'', key) # (if bd = None then [] else [(''Content-Type'', ''application/json'')]), hc_body = bd\<rparr>"

lemma api_call_clean:
  assumes "web_address url" "prefix ''/'' endpoint" "clean endpoint"
  shows "api_call url key meth endpoint bd = call_of url key meth endpoint bd"
proof -
  have "build_url url endpoint = base_url url @ endpoint" using assms(2) by (simp add: build_url_def base_url_def Let_def)
  moreover have "full_url (base_url url @ endpoint) = base_url url @ endpoint"
    using base_url_parts [OF assms(1)] assms(3) by (intro full_url_clean) (auto simp: prefix_def)
  ultimately show ?thesis by (simp add: api_call_def call_of_def)
qed

lemma show_answer_sends:
  assumes "load_env s = Inr (url, key)" "web_address url" "prefix ''/'' endpoint" "clean endpoint"
  shows "sh_sent (snd (show_answer meth endpoint bd s)) =
    (if key = [] then sh_sent s else sh_sent s @ [call_of url key meth endpoint bd])"
proof -
  have "sendable (hc_url (call_of url key meth endpoint bd))"
    using base_url_parts [OF assms(2)] assms(4) by (simp add: call_of_def clean_sendable)
  then show ?thesis using base_url_parts(3) [OF assms(2)] assms(1) api_call_clean [OF assms(2-4)]
    by (simp add: show_answer_def request_api_def send_call_def Let_def print_line_def split: http_answer.splits)
qed

lemma gateway_call:
  "gateway_event keys (base_url url) (call_of url key meth endpoint bd) =
   map_option (\<lambda>(template, path). \<lparr>ev_method = meth, ev_resource = template, ev_path = path,
       ev_query = query_part endpoint, ev_multi_query = map (\<lambda>(k, v). (k, [v])) (query_part endpoint),
       ev_headers = hc_headers (call_of url key meth endpoint bd), ev_api_key_id = None,
       ev_body = (case bd of None \<Rightarrow> NoBody | Some j \<Rightarrow> Json j)\<rparr>) (find_route keys meth (path_part endpoint))"
  by (simp add: gateway_event_def call_of_def Let_def)


text \<open>Where the paths of the tool lead.\<close>

lemma plain_id_parts:
  assumes "plain_id i"
  shows "i \<noteq> []" "clean i" "CHR ''/'' \<notin> set i" "CHR ''?'' \<notin> set i" "url_decode i = i"
proof -
  show "i \<noteq> []" "clean i" "CHR ''/'' \<notin> set i" "CHR ''?'' \<notin> set i" using assms by (auto simp: plain_id_def)
  have "CHR ''%'' \<notin> set i" using assms by (auto simp: plain_id_def)
  moreover have "list_all (\<lambda>c. char_code c < 128) i"
    using assms unfolding plain_id_def clean_def by (auto elim!: list.pred_mono_strong)
  ultimately show "url_decode i = i" by (simp add: url_decode_def percent_decode_plain from_utf8_ascii)
qed

lemma path_part_query: "CHR ''?'' \<notin> set p \<Longrightarrow> path_part (p @ CHR ''?'' # q) = p"
  by (induction p) (auto simp: path_part_def)

lemma path_part_plain: "CHR ''?'' \<notin> set p \<Longrightarrow> path_part p = p"
  by (induction p) (auto simp: path_part_def)

lemma find_fixed_routes:
  "find_route (map fst rest_api) ''GET'' ''/tenants'' = Some (''/tenants'', [])"
  "find_route (map fst rest_api) ''POST'' ''/tenants'' = Some (''/tenants'', [])"
  "find_route (map fst rest_api) ''POST'' ''/batch/tenants'' = Some (''/batch/tenants'', [])"
  "find_route (map fst rest_api) ''GET'' ''/audit-log'' = Some (''/audit-log'', [])"
  "find_route (map fst rest_api) ''GET'' ''/backups'' = Some (''/backups'', [])"
  "find_route (map fst rest_api) ''GET'' ''/hosts'' = Some (''/hosts'', [])"
  by (simp_all add: find_route_def rest_api_methods map_filter_simps is_param_def)

lemma find_tenant_routes:
  assumes "plain_id i"
  shows "find_route (map fst rest_api) ''GET'' (''/tenants/'' @ i) = Some (''/tenants/{id}'', [(''id'', i)])"
    "find_route (map fst rest_api) ''DELETE'' (''/tenants/'' @ i) = Some (''/tenants/{id}'', [(''id'', i)])"
  using plain_id_parts [OF assms]
  by (simp_all add: find_route_def rest_api_methods map_filter_simps is_param_def split_on_plain)

lemma find_action_route:
  assumes "plain_id i" "plain_id verb"
  shows "find_route (map fst rest_api) ''POST'' (''/tenants/'' @ i @ ''/'' @ verb) =
    Some (''/tenants/{id}/{action}'', [(''id'', i), (''action'', verb)])"
  using plain_id_parts [OF assms(1)] plain_id_parts [OF assms(2)]
  by (simp add: find_route_def rest_api_methods map_filter_simps is_param_def split_on_plain split_on_append)

section \<open>Queries\<close>

definition audit_pairs :: "args \<Rightarrow> (string \<times> string) list" where
  "audit_pairs a =
     (if text_arg a ''since'' = [] then [] else [(''since'', text_arg a ''since'')]) @
     (if text_arg a ''before'' = [] then [] else [(''before'', text_arg a ''before'')]) @
     (case int_arg a ''limit'' of None \<Rightarrow> [] | Some n \<Rightarrow> if n = 0 then [] else [(''limit'', show_int n)])"

definition query_item :: "string \<times> string \<Rightarrow> string" where
  "query_item kv = fst kv @ ''='' @ url_quote (snd kv)"

lemma url_safe_hex: "d < 16 \<Longrightarrow> url_safe (upper_hex d)"
  by (auto simp: url_safe_def upper_hex_def is_digit_def)

lemma url_safe_clean: "url_safe c \<Longrightarrow> 33 \<le> char_code c \<and> char_code c \<le> 126 \<and> c \<notin> set ''#&=?%''"
  by (auto simp: url_safe_def is_digit_def is_lower_def char_code_def)

lemma url_quote_chars: "c \<in> set (url_quote s) \<Longrightarrow> url_safe c \<or> c = CHR ''%''"
proof -
  have byte: "c \<in> set (quote_byte b) \<Longrightarrow> url_safe c \<or> c = CHR ''%''" for b
  proof -
    have "char_code b div 16 < 16" "char_code b mod 16 < 16" using char_code_less [of b] by linarith+
    then show "c \<in> set (quote_byte b) \<Longrightarrow> url_safe c \<or> c = CHR ''%''"
      by (auto simp: quote_byte_def url_safe_hex split: if_splits)
  qed
  show "c \<in> set (url_quote s) \<Longrightarrow> url_safe c \<or> c = CHR ''%''"
    by (auto simp: url_quote_def simp del: quote_byte_def dest: byte)
qed

lemma url_quote_clean: "clean (url_quote s)"
  using url_quote_chars url_safe_clean by (force simp: clean_def list_all_iff char_code_def)

lemma url_quote_no: "c \<in> set ''&=?'' \<Longrightarrow> c \<notin> set (url_quote s)"
  using url_quote_chars [of c s] url_safe_clean [of c] by auto

lemma quote_show_int: "url_quote (show_int n) = show_int n"
proof -
  have "\<forall>c \<in> set (show_int n). is_digit c \<or> c = CHR ''-''" by (auto simp: show_int_def dest: show_nat_digits)
  then have "\<forall>c \<in> set (show_int n). utf8 c = [c] \<and> quote_byte c = [c]"
    by (auto simp: utf8_def quote_byte_def url_safe_def is_digit_def Let_def char_code_def)
  moreover have "\<forall>c \<in> set r. f c = [c] \<Longrightarrow> concat (map f r) = r" for f :: "char \<Rightarrow> string" and r by (induction r) auto
  ultimately show ?thesis by (simp add: url_quote_def)
qed

lemma audit_params_items: "audit_params a = map query_item (audit_pairs a)"
  by (auto simp: audit_params_def audit_pairs_def query_item_def quote_show_int split: option.splits)

lemma split_on_join: "ws \<noteq> [] \<Longrightarrow> \<forall>w \<in> set ws. c \<notin> set w \<Longrightarrow> split_on c (join [c] ws) = ws"
proof (induction ws)
  case (Cons w ws)
  then show ?case by (cases ws) (simp_all add: join_def split_on_plain split_on_append)
qed simp

lemma split1_item: "c \<notin> set k \<Longrightarrow> split1 c (k @ c # v) = (k, v)"
  by (induction k) (auto simp: split1_def)

definition plain_key :: "string \<Rightarrow> bool" where
  "plain_key k = list_all url_safe k"

lemma url_decode_plain_key: "plain_key k \<Longrightarrow> url_decode k = k"
proof -
  assume k: "plain_key k"
  then have "CHR ''%'' \<notin> set k" "list_all (\<lambda>c. char_code c < 128) k"
    using url_safe_clean by (force simp: plain_key_def list_all_iff)+
  then show ?thesis by (simp add: url_decode_def percent_decode_plain from_utf8_ascii)
qed

text \<open>Decoding a query gives back the pairs it was built from.\<close>

lemma query_roundtrip:
  assumes "CHR ''?'' \<notin> set p" "pairs \<noteq> []" "list_all (\<lambda>(k, v). plain_key k) pairs"
  shows "query_part (p @ ''?'' @ join ''&'' (map query_item pairs)) = pairs"
proof -
  have plain: "plain_key k \<and> CHR ''&'' \<notin> set k \<and> CHR ''='' \<notin> set k" if "(k, v) \<in> set pairs" for k v
    using that assms(3) url_safe_clean by (force simp: list_all_iff plain_key_def)
  have "\<forall>w \<in> set (map query_item pairs). CHR ''&'' \<notin> set w"
    using plain url_quote_no by (auto simp: query_item_def)
  then have "split_on CHR ''&'' (join ''&'' (map query_item pairs)) = map query_item pairs"
    using assms(2) by (intro split_on_join) simp_all
  moreover have "map (\<lambda>kv. case split1 CHR ''='' kv of (k, v) \<Rightarrow> (url_decode k, url_decode v)) (map query_item pairs) = pairs"
    using plain by (auto simp: query_item_def split1_item url_decode_plain_key intro!: map_idI)
  moreover have "tl (dropWhile (\<lambda>c. c \<noteq> CHR ''?'') (p @ ''?'' @ r)) = r" for r using assms(1) by (induction p) auto
  moreover have "join ''&'' (map query_item pairs) \<noteq> []" using assms(2) by (cases pairs) (auto simp: join_def query_item_def)
  ultimately show ?thesis unfolding query_part_def Let_def by simp
qed

section \<open>Every sub-command reaches its handler\<close>

text \<open>The resource a sub-command is for, and the parameters of its path.\<close>

definition arrival :: "string \<Rightarrow> args \<Rightarrow> (string \<times> string) \<times> (string \<times> string) list" where
  "arrival cmd a = (
     if cmd = ''list'' then ((''GET'', ''/tenants''), [])
     else if cmd = ''create'' then ((''POST'', ''/tenants''), [])
     else if cmd = ''get'' then ((''GET'', ''/tenants/{id}''), [(''id'', text_arg a ''id'')])
     else if cmd = ''delete'' then ((''DELETE'', ''/tenants/{id}''), [(''id'', text_arg a ''id'')])
     else if cmd = ''batch'' then ((''POST'', ''/batch/tenants''), [])
     else if cmd \<in> {''audit-log'', ''backups'', ''hosts''} then ((''GET'', ''/'' @ cmd), [])
     else ((''POST'', ''/tenants/{id}/{action}''), [(''id'', text_arg a ''id''), (''action'', cmd)]))"

definition arrival_query :: "string \<Rightarrow> args \<Rightarrow> (string \<times> string) list" where
  "arrival_query cmd a = (if cmd = ''delete'' then [(''keep_data'', ''true'')]
     else if cmd = ''audit-log'' then audit_pairs a else [])"

text \<open>A request to an endpoint arrives as expected.\<close>

definition arrives :: "(string \<times> string) list \<Rightarrow> string \<Rightarrow> string \<Rightarrow> string \<Rightarrow> args \<Rightarrow> bool" where
  "arrives keys meth endpoint cmd a = (prefix ''/'' endpoint \<and> clean endpoint \<and> meth = fst (fst (arrival cmd a)) \<and>
     find_route keys meth (path_part endpoint) = Some (snd (fst (arrival cmd a)), snd (arrival cmd a)) \<and>
     query_part endpoint = arrival_query cmd a)"

lemma query_part_none: "CHR ''?'' \<notin> set p \<Longrightarrow> query_part p = []"
  by (induction p) (auto simp: query_part_def)

lemmas endpoint_facts = path_part_plain query_part_none find_fixed_routes find_tenant_routes plain_id_parts
  arrives_def arrival_def arrival_query_def tenant_path_def char_code_def

lemma fixed_arrivals:
  "arrives (map fst rest_api) ''GET'' ''/tenants'' ''list'' a"
  "arrives (map fst rest_api) ''POST'' ''/tenants'' ''create'' a"
  "arrives (map fst rest_api) ''POST'' ''/batch/tenants'' ''batch'' a"
  "arrives (map fst rest_api) ''GET'' ''/backups'' ''backups'' a"
  "arrives (map fst rest_api) ''GET'' ''/hosts'' ''hosts'' a"
  by (simp_all add: endpoint_facts)

lemma tenant_arrivals:
  assumes "plain_id (text_arg a ''id'')"
  shows "arrives (map fst rest_api) ''GET'' (tenant_path a) ''get'' a"
    "arrives (map fst rest_api) ''DELETE'' (tenant_path a @ ''?keep_data=true'') ''delete'' a"
proof -
  note i = plain_id_parts [OF assms] find_tenant_routes [OF assms]
  show "arrives (map fst rest_api) ''GET'' (tenant_path a) ''get'' a"
    using i by (simp add: endpoint_facts)
  have "query_part (tenant_path a @ ''?'' @ join ''&'' (map query_item [(''keep_data'', ''true'')])) = [(''keep_data'', ''true'')]"
    using i by (intro query_roundtrip) (simp_all add: tenant_path_def, code_simp)
  moreover have "join ''&'' (map query_item [(''keep_data'', ''true'')]) = ''keep_data=true''" by code_simp
  moreover have "path_part (tenant_path a @ ''?'' @ ''keep_data=true'') = tenant_path a"
    using i path_part_query [of "tenant_path a"] by (simp add: tenant_path_def)
  ultimately show "arrives (map fst rest_api) ''DELETE'' (tenant_path a @ ''?keep_data=true'') ''delete'' a"
    using i by (simp add: endpoint_facts)
qed

lemma action_arrives:
  assumes "plain_id (text_arg a ''id'')" "cmd \<in> set (action_verbs @ [''resize'', ''resize-disk'', ''migrate''])"
  shows "arrives (map fst rest_api) ''POST'' (tenant_path a @ ''/'' @ cmd) cmd a"
proof -
  have verb: "plain_id cmd" "cmd \<notin> {''list'', ''create'', ''get'', ''delete'', ''batch'', ''audit-log'', ''backups'', ''hosts''}"
    using assms(2) by (auto simp: action_verbs_def plain_id_def char_code_def)
  note i = plain_id_parts [OF assms(1)] plain_id_parts [OF verb(1)] find_action_route [OF assms(1) verb(1)]
  show ?thesis using i verb(2) by (simp add: endpoint_facts)
qed

lemma audit_arrives:
  "arrives (map fst rest_api) ''GET''
     (''/audit-log'' @ (if audit_params a = [] then '''' else ''?'' @ join ''&'' (audit_params a))) ''audit-log'' a"
proof (cases "audit_pairs a = []")
  case True
  then show ?thesis by (simp add: audit_params_items endpoint_facts)
next
  case False
  have "list_all (\<lambda>(k, v). plain_key k) (audit_pairs a)"
    by (auto simp: audit_pairs_def plain_key_def url_safe_def is_lower_def char_code_def split: option.splits)
  then have "query_part (''/audit-log'' @ ''?'' @ join ''&'' (map query_item (audit_pairs a))) = audit_pairs a"
    using False by (intro query_roundtrip) simp_all
  moreover have "clean (join ''&'' (map query_item (audit_pairs a)))"
    by (auto simp: audit_pairs_def join_def query_item_def url_quote_clean char_code_def split: option.splits)
  moreover have "path_part (''/audit-log'' @ ''?'' @ q) = ''/audit-log''" for q
    using path_part_query [of "''/audit-log''" q] by simp
  ultimately show ?thesis using False by (simp add: audit_params_items endpoint_facts)
qed

text \<open>What one command leaves in the log of calls: at most one, which arrives where it should.\<close>

definition leads :: "(string \<times> string) list \<Rightarrow> string \<Rightarrow> args \<Rightarrow> shell \<Rightarrow> shell \<Rightarrow> bool" where
  "leads keys cmd a s t = (\<forall>url key. load_env s = Inr (url, key) \<longrightarrow> web_address url \<longrightarrow> sh_sent t \<noteq> sh_sent s \<longrightarrow>
     (\<exists>r e. sh_sent t = sh_sent s @ [r] \<and> gateway_event keys (base_url url) r = Some e \<and>
        ((ev_method e, ev_resource e), ev_path e) = arrival cmd a \<and> ev_query e = arrival_query cmd a \<and>
        map_of (ev_headers e) ''X-api-key'' = Some key))"

lemma call_of_key [simp]: "map_of (hc_headers (call_of url key meth endpoint bd)) ''X-api-key'' = Some key"
  by (simp add: call_of_def)

lemma arrives_leads:
  assumes "arrives keys meth endpoint cmd a"
  shows "leads keys cmd a s (snd (show_answer meth endpoint bd s))"
  unfolding leads_def
proof (intro allI impI)
  fix url key
  assume a: "load_env s = Inr (url, key)" "web_address url" "sh_sent (snd (show_answer meth endpoint bd s)) \<noteq> sh_sent s"
  have "sh_sent (snd (show_answer meth endpoint bd s)) = sh_sent s @ [call_of url key meth endpoint bd]"
    using show_answer_sends [OF a(1,2), of endpoint meth bd] assms a(3) by (auto simp: arrives_def split: if_splits)
  moreover have "\<exists>e. gateway_event keys (base_url url) (call_of url key meth endpoint bd) = Some e \<and>
      ((ev_method e, ev_resource e), ev_path e) = arrival cmd a \<and> ev_query e = arrival_query cmd a \<and>
      map_of (ev_headers e) ''X-api-key'' = Some key"
    using assms by (auto simp: gateway_call arrives_def)
  ultimately show "\<exists>r e. sh_sent (snd (show_answer meth endpoint bd s)) = sh_sent s @ [r] \<and>
      gateway_event keys (base_url url) r = Some e \<and> ((ev_method e, ev_resource e), ev_path e) = arrival cmd a \<and>
      ev_query e = arrival_query cmd a \<and> map_of (ev_headers e) ''X-api-key'' = Some key" by blast
qed

lemma leads_same: "leads keys cmd a t u \<Longrightarrow> load_env t = load_env s \<Longrightarrow> sh_sent t = sh_sent s \<Longrightarrow> leads keys cmd a s u"
  by (simp add: leads_def)

lemma leads_silent: "sh_sent t = sh_sent s \<Longrightarrow> leads keys cmd a s t"
  by (simp add: leads_def)

lemma load_env_printed [simp]: "load_env (print_line l s) = load_env s" "sh_sent (print_line l s) = sh_sent s"
  by (simp_all add: load_env_def print_line_def)

lemma delete_leads:
  assumes "plain_id (text_arg a ''id'')"
  shows "leads (map fst rest_api) ''delete'' a s (snd (cmd_delete a s))"
proof (cases "flag_arg a ''force'' \<or> confirmed s")
  case True
  then show ?thesis
    by (auto simp: cmd_delete_def Let_def keep_data_arg_def keep_data_default_def
        intro!: arrives_leads leads_same [OF arrives_leads] tenant_arrivals(2) [OF assms, simplified])
next
  case False
  then show ?thesis by (intro leads_silent) (simp add: cmd_delete_def Let_def print_error_def)
qed

lemma batch_leads: "leads (map fst rest_api) ''batch'' a s (snd (cmd_batch a s))"
  by (simp add: cmd_batch_def Let_def arrives_leads [OF fixed_arrivals(3)]) (simp add: leads_silent print_error_def)

lemma audit_leads: "leads (map fst rest_api) ''audit-log'' a s (snd (cmd_audit_log a s))"
  using arrives_leads [OF audit_arrives, of a s None] by (simp add: cmd_audit_log_def Let_def)

text \<open>Only the sub-commands for one tenant have parameters in their path.\<close>

definition without_id :: "string list" where
  "without_id = [''list'', ''create'', ''batch'', ''audit-log'', ''backups'', ''hosts'', ''version'']"

lemma command_leads:
  assumes "map_of commands cmd = Some f" "cmd \<in> set without_id \<or> plain_id (text_arg a ''id'')"
  shows "leads (map fst rest_api) cmd a s (snd (f a s))"
proof -
  let ?K = "map fst rest_api" and ?i = "plain_id (text_arg a ''id'')"
  have "list_all (\<lambda>(cmd, f). leads ?K cmd a s (snd (f a s)))
      [(''list'', cmd_list), (''create'', cmd_create), (''batch'', cmd_batch), (''audit-log'', cmd_audit_log),
       (''backups'', cmd_backups), (''hosts'', cmd_hosts), (''version'', cmd_version)]"
    using batch_leads audit_leads leads_silent
    by (simp add: cmd_list_def cmd_create_def cmd_backups_def cmd_hosts_def cmd_version_def print_line_def
        Let_def arrives_leads [OF fixed_arrivals(1)] arrives_leads [OF fixed_arrivals(2)] arrives_leads [OF fixed_arrivals(4)]
        arrives_leads [OF fixed_arrivals(5)])
  moreover have "list_all (\<lambda>(cmd, f). leads ?K cmd a s (snd (f a s))) ([(''get'', cmd_get), (''delete'', cmd_delete)] @
      map (\<lambda>verb. (verb, cmd_action verb)) action_verbs @
      [(''resize'', cmd_resize), (''resize-disk'', cmd_resize_disk), (''migrate'', cmd_migrate)])" if ?i
  proof -
    note verb = arrives_leads [OF action_arrives [OF that]]
    have "\<forall>v \<in> set action_verbs. leads ?K v a s (snd (cmd_action v a s))"
      using verb by (simp add: cmd_action_def)
    then show ?thesis
      using delete_leads [OF that] arrives_leads [OF tenant_arrivals(1) [OF that]] verb [of "''resize''"]
        verb [of "''resize-disk''"] verb [of "''migrate''"]
      by (simp add: list.pred_map cmd_get_def cmd_resize_def cmd_resize_disk_def cmd_migrate_def) (simp add: list_all_iff)
  qed
  moreover have "\<forall>v \<in> set (action_verbs @ [''get'', ''delete'', ''resize'', ''resize-disk'', ''migrate'']). v \<notin> set without_id"
    by (simp add: action_verbs_def without_id_def)
  moreover have "(cmd, f) \<in> set commands" using assms(1) by (rule map_of_SomeD)
  ultimately show ?thesis using assms(2)
    unfolding commands_def list_all_iff by auto
qed

text \<open>Where the path has parameters, the parser has asked for the id.\<close>

lemma typed_id:
  assumes "map_of build_parser cmd = Some p" "well_typed p a"
  shows "cmd \<in> set without_id \<or> (\<exists>i. map_of a ''id'' = Some (VText i))"
proof -
  obtain pos opts where p: "p = (pos, opts)" by (cases p)
  have table: "list_all (\<lambda>(cmd, (pos, opts)). cmd \<in> set without_id \<or>
      ((''id'', []) \<in> set pos \<and> ''id'' \<notin> dest ` fst ` set opts)) build_parser"
    by code_simp
  have "cmd \<in> set without_id \<or> ((''id'', []) \<in> set pos \<and> ''id'' \<notin> dest ` fst ` set opts)"
    using table map_of_SomeD [OF assms(1)] unfolding p list_all_iff by (metis (no_types, lifting) case_prod_conv)
  then show ?thesis using typed_positional assms(2) p by blast
qed

lemma arrival_declared: "map_of rest_api (fst (arrival cmd a)) = Some ApiFn"
  by (auto simp: arrival_def rest_api_methods)




text \<open>The API knows every verb the tool offers, alone and in batches.\<close>

lemma verbs_known:
  "verb \<in> set action_verbs \<Longrightarrow> verb = ''backup'' \<or> action_command c tid item verb \<noteq> None"
  by (auto simp: action_verbs_def action_command_def)

lemma batch_choices_known:
  "map_of build_parser ''batch'' = Some (pos, opts) \<Longrightarrow> pos = [(''action'', choices)] \<Longrightarrow> set choices = set batch_actions"
  by (auto simp: build_parser_def action_verbs_def batch_actions_def)

text \<open>The flag that should keep the data changes nothing: no command line of the tool gives the data up.\<close>

lemma keep_data_always: "keep_data_arg a"
  by (simp add: keep_data_arg_def keep_data_default_def)

text \<open>Ids are not quoted: one with a number sign drops the query, one with a question mark replaces it.\<close>

lemma unquoted_ids:
  "map hc_url (sh_sent (snd (oc_main [''delete'', ''--force'', ''t1#x''] shell0))) = [''https://a.b/v1/tenants/t1'']"
  "query_part (drop 14 (hc_url (hd (sh_sent (snd (oc_main [''delete'', ''--force'', ''t1?keep_data=false&x=''] shell0)))))) =
     [(''keep_data'', ''false''), (''x'', ''?keep_data=true'')]"
  by code_simp+

text \<open>A setting of the environment takes precedence over the file; an empty one counts as missing.\<close>

lemma environment_first:
  "env k = Some v \<Longrightarrow> v \<noteq> [] \<Longrightarrow> setting env file_env k k' = v"
  "env k = None \<or> env k = Some [] \<Longrightarrow> setting env file_env k k' = param file_env k' ''''"
  by (auto simp: setting_def split: list.splits)

text \<open>The nearest file counts, and a later line for the same key.\<close>

lemma nearest_file: "load_env_deploy_file (replicate n NoFile @ EnvText t # dirs) = Inr (fold env_line (splitlines t) [])"
  by (induction n) simp_all

lemma later_line: "split1 CHR ''='' (strip l) = (k, v) \<Longrightarrow> CHR ''='' \<in> set (strip l) \<Longrightarrow> \<not> prefix ''#'' (strip l) \<Longrightarrow>
    map_of (env_line l env) (strip k) = Some (strip v)"
  by (auto simp: env_line_def Let_def AList.update_conv)

text \<open>Without credentials nothing is sent, and the program ends with 2.\<close>

lemma missing_credentials:
  assumes "load_env s = Inr (url, key)" "url = [] \<or> key = []" "parse_args argv = Parsed (cmd, a)"
    "cmd \<in> set action_verbs"
  shows "oc_main argv s = (2, print_error (''error: '' @ credentials_text) s)"
proof -
  have "list_all (\<lambda>verb. map_of commands verb = Some (cmd_action verb)) action_verbs"
    by (simp add: commands_def action_verbs_def)
  then have cmd: "map_of commands cmd = Some (cmd_action cmd)" using assms(4) by (simp add: list_all_iff)
  have "show_answer meth endpoint bd s = (Inl (MissingCredentials credentials_text), s)" for meth endpoint bd
    using assms(1,2) by (auto simp: show_answer_def request_api_def)
  then show ?thesis by (simp add: oc_main_def assms(3) run_command_def cmd cmd_action_def report_error_def)
qed

end
