(* ===== verification/AgentCoreTools.thy ===== *)
theory AgentCoreTools
  imports Validate
begin

text \<open>
  The tools of the AgentCore gateway (agentcore_tools/handler.py): an event names a tool and its arguments,
  the answer is a dictionary. The process environment, the version of Python and the time are parameters;
  the arrow in the greeting is written \<open>->\<close>.
\<close>

record lambda_host =
  lh_env :: "string \<Rightarrow> string option"
  lh_python :: string
  lh_now :: int

definition handle_hello :: "lambda_host \<Rightarrow> json \<Rightarrow> exn + json" where
  "handle_hello lh args = bind_sum (get_or args ''name'' (JStr ''World'')) (\<lambda>name.
     Inr (JObj [(''message'', JStr (''Hello, '' @ json_str name @ ''! This response comes from AgentCore Gateway -> Lambda.''))]))"

definition handle_system_info :: "lambda_host \<Rightarrow> json \<Rightarrow> exn + json" where
  "handle_system_info lh args = (let env = (\<lambda>k. JStr (case lh_env lh k of None \<Rightarrow> ''unknown'' | Some v \<Rightarrow> v)) in
     Inr (JObj [(''runtime'', JStr ''AWS Lambda''), (''python'', JStr (lh_python lh)),
       (''region'', env ''AWS_REGION''), (''function'', env ''AWS_LAMBDA_FUNCTION_NAME'')]))"

definition handle_timestamp :: "lambda_host \<Rightarrow> json \<Rightarrow> exn + json" where
  "handle_timestamp lh args = bind_sum (get_or args ''format'' (JStr ''iso'')) (\<lambda>fmt.
     Inr (JObj [(''timestamp'', if fmt = JStr ''unix'' then JInt (lh_now lh div 1000000) else JStr (iso_format (lh_now lh)))]))"

definition tools :: "(string \<times> (lambda_host \<Rightarrow> json \<Rightarrow> exn + json)) list" where
  "tools = [(''hello'', handle_hello), (''system_info'', handle_system_info), (''timestamp'', handle_timestamp)]"

text \<open>\<open>tools.get(name)\<close>: a list or a dict is not hashable.\<close>

definition find_tool :: "json \<Rightarrow> exn + (lambda_host \<Rightarrow> json \<Rightarrow> exn + json) option" where
  "find_tool name = (case name of
       JStr s \<Rightarrow> Inr (map_of tools s)
     | JList xs \<Rightarrow> Inl (PyError TypeError ''unhashable type: list'')
     | JObj kvs \<Rightarrow> Inl (PyError TypeError ''unhashable type: dict'')
     | _ \<Rightarrow> Inr None)"

text \<open>\<open>event.get(k, event.get(k', d))\<close>.\<close>

definition either_key :: "json \<Rightarrow> string \<Rightarrow> string \<Rightarrow> json \<Rightarrow> exn + json" where
  "either_key event k k' d = bind_sum (get_or event k' d) (\<lambda>v. get_or event k v)"

definition tools_handler :: "lambda_host \<Rightarrow> json \<Rightarrow> exn + json" where
  "tools_handler lh event =
     bind_sum (either_key event ''toolName'' ''name'' (JStr '''')) (\<lambda>tool_name.
     bind_sum (either_key event ''arguments'' ''input'' (JObj [])) (\<lambda>args.
     bind_sum (find_tool tool_name) (\<lambda>handler. case handler of
       None \<Rightarrow> Inr (JObj [(''error'', JStr (''Unknown tool: '' @ json_str tool_name)),
                 (''available'', JList (map (\<lambda>kv. JStr (fst kv)) tools))])
     | Some f \<Rightarrow> f lh args)))"

text \<open>Every known tool answers when its arguments are a dictionary; any other name gets the list of tools.\<close>

lemma tools_answer:
  assumes "map_of kvs ''toolName'' = Some (JStr name)" "map_of kvs ''arguments'' = Some (JObj args)"
  shows "tools_handler lh (JObj kvs) = (case map_of tools name of
       Some f \<Rightarrow> f lh (JObj args)
     | None \<Rightarrow> Inr (JObj [(''error'', JStr (''Unknown tool: '' @ name)),
         (''available'', JList [JStr ''hello'', JStr ''system_info'', JStr ''timestamp''])]))"
proof -
  have "get_or (JObj kvs) k d = Inr (case map_of kvs k of None \<Rightarrow> d | Some x \<Rightarrow> x)" for k d
    by (simp add: get_or_def split: option.splits)
  then show ?thesis using assms by (simp add: tools_handler_def either_key_def find_tool_def json_str_def tools_def)
qed

text \<open>Arguments that are not a dictionary raise in the tools that read them.\<close>

lemma tools_raise: "handle_hello lh (JStr s) = Inl (no_attribute (JStr s) ''get'')"
  "handle_timestamp lh (JList xs) = Inl (no_attribute (JList xs) ''get'')"
  by (simp_all add: handle_hello_def handle_timestamp_def get_or_def)

end
