(* ===== verification/DeployConfig.thy ===== *)
theory DeployConfig
  imports Fleet
begin

text \<open>
  The configuration of a deployment (deploy/stack.py): \<open>config.yml\<close> as a value of the json kind, with the
  clamps and checks that run before anything is built from it. Floats in quotes are read as plain decimals:
  exponents and underscores are not modelled.
\<close>

section \<open>Numbers and dictionaries\<close>

text \<open>\<open>float(s)\<close> of digits with an optional sign and fraction, correctly rounded up to 15 digits.\<close>

definition decimal :: "string \<Rightarrow> pyfloat option" where
  "decimal s = (case split1 CHR ''.'' s of (a, b) \<Rightarrow>
     if a @ b \<noteq> [] \<and> list_all is_digit (a @ b)
     then map_option (\<lambda>n. if b = [] then float_of_int (int n) else fdiv (float_of_int (int n)) (float_of_int (10 ^ length b)))
       (digits_val 0 (a @ b))
     else None)"

definition float_text :: "string \<Rightarrow> json option" where
  "float_text s = (let t = ascii_lower (strip s);
       (neg, u) = (case t of [] \<Rightarrow> (False, []) | c # r \<Rightarrow> if c = CHR ''-'' then (True, r) else if c = CHR ''+'' then (False, r) else (False, t))
     in if u = ''inf'' \<or> u = ''infinity'' then Some (JInf neg) else if u = ''nan'' then Some JNaN
        else map_option (\<lambda>x. JFloat (if neg then PyFloat (- mant x) (expo x) else x)) (decimal u))"

text \<open>\<open>float(v)\<close>; the result is one of the three kinds of floats.\<close>

fun py_float :: "json \<Rightarrow> exn + json" where
  "py_float (JFloat x) = Inr (JFloat x)"
| "py_float (JInf neg) = Inr (JInf neg)"
| "py_float JNaN = Inr JNaN"
| "py_float (JInt i) = (if \<bar>i\<bar> \<ge> 2 ^ 1024 then Inl (PyError OverflowError ''int too large to convert to float'')
     else Inr (JFloat (float_of_int i)))"
| "py_float (JBool b) = Inr (JFloat (float_of_int (if b then 1 else 0)))"
| "py_float (JStr s) = (case float_text s of Some v \<Rightarrow> Inr v
     | None \<Rightarrow> Inl (PyError ValueError (''could not convert string to float: '' @ quoted s)))"
| "py_float v = Inl (PyError TypeError (''float() argument must be a string or a real number, not '' @ quoted (type_name v)))"

text \<open>\<open>v > x\<close> for a float v; no comparison with NaN holds.\<close>

fun above :: "json \<Rightarrow> pyfloat \<Rightarrow> bool" where
  "above (JFloat y) x = fless x y"
| "above (JInf neg) x = (\<not> neg)"
| "above v x = False"

definition cfg_section :: "json \<Rightarrow> string \<Rightarrow> exn + json" where
  "cfg_section cfg k = get_or cfg k (JObj [])"

text \<open>\<open>cfg.get(section, {}).get(key, default)\<close>.\<close>

definition cfg_get :: "json \<Rightarrow> string \<Rightarrow> string \<Rightarrow> json \<Rightarrow> exn + json" where
  "cfg_get cfg sec k d = bind_sum (cfg_section cfg sec) (\<lambda>s. get_or s k d)"

text \<open>\<open>d[key] = v\<close>.\<close>

fun obj_put :: "json \<Rightarrow> string \<Rightarrow> json \<Rightarrow> exn + json" where
  "obj_put (JObj kvs) k v = Inr (JObj (AList.update k v kvs))"
| "obj_put d k v = Inl (PyError TypeError (quoted (type_name d) @ '' object does not support item assignment''))"

text \<open>\<open>cfg.setdefault(section, {})[key] = v\<close>.\<close>

definition cfg_put :: "json \<Rightarrow> string \<Rightarrow> string \<Rightarrow> json \<Rightarrow> exn + json" where
  "cfg_put cfg sec k v = bind_sum (cfg_section cfg sec) (\<lambda>s. bind_sum (obj_put s k v) (\<lambda>s'. obj_put cfg sec s'))"

section \<open>Normalising\<close>

definition float_one :: json where
  "float_one = JFloat one_float"

definition ratio_ceiling :: pyfloat where
  "ratio_ceiling = float_of_int 4"

text \<open>Memory may be promised more than once only where the balloon can take it back.\<close>

definition clamp_without_balloon :: "json \<Rightarrow> exn + json" where
  "clamp_without_balloon cfg =
     bind_sum (bind_sum (cfg_get cfg ''host'' ''mem_overcommit_ratio'' float_one) py_float) (\<lambda>mem_ratio.
     bind_sum (cfg_get cfg ''balloon'' ''enabled'' (JBool False)) (\<lambda>balloon.
     if above mem_ratio one_float \<and> \<not> truthy balloon then cfg_put cfg ''host'' ''mem_overcommit_ratio'' float_one else Inr cfg))"

text \<open>The ceiling on a ratio.\<close>

definition clamp_ratio :: "string \<Rightarrow> json \<Rightarrow> exn + json" where
  "clamp_ratio k cfg = bind_sum (bind_sum (cfg_get cfg ''host'' k float_one) py_float) (\<lambda>ratio.
     if above ratio ratio_ceiling then cfg_put cfg ''host'' k (JFloat ratio_ceiling) else Inr cfg)"

definition migrate_modes :: "string list" where
  "migrate_modes = [''cold'', ''live'', ''reject'']"

definition check_migrate_mode :: "json \<Rightarrow> exn + json" where
  "check_migrate_mode cfg = bind_sum (cfg_get cfg ''balloon'' ''migrate_mode'' (JStr ''cold'')) (\<lambda>mode.
     if ascii_lower (json_str mode) \<notin> set migrate_modes then cfg_put cfg ''balloon'' ''migrate_mode'' (JStr ''cold'') else Inr cfg)"

definition routing_modes :: "string list" where
  "routing_modes = [''per-tenant'', ''host-tg'']"

definition check_routing_mode :: "json \<Rightarrow> exn + json" where
  "check_routing_mode cfg = bind_sum (cfg_get cfg ''routing'' ''mode'' (JStr ''per-tenant'')) (\<lambda>mode.
     let rmode = ascii_lower (json_str mode) in
     if rmode \<notin> set routing_modes
     then Inl (PyError ValueError (''config.yml routing.mode='' @ quoted rmode @ '' invalid - must be one of (per-tenant, host-tg)''))
     else cfg_put cfg ''routing'' ''mode'' (JStr rmode))"

definition normalize_config :: "json \<Rightarrow> exn + json" where
  "normalize_config cfg = bind_sum (clamp_without_balloon cfg) (\<lambda>c1.
     bind_sum (clamp_ratio ''cpu_overcommit_ratio'' c1) (\<lambda>c2.
     bind_sum (clamp_ratio ''mem_overcommit_ratio'' c2) (\<lambda>c3.
     bind_sum (check_migrate_mode c3) check_routing_mode)))"

section \<open>What a normalised configuration promises\<close>

text \<open>The settings of a configuration, and their bounds.\<close>

definition ratio_of :: "string \<Rightarrow> json \<Rightarrow> exn + json" where
  "ratio_of k cfg = bind_sum (cfg_get cfg ''host'' k float_one) py_float"

lemma get_or_put: "obj_put d k v = Inr d' \<Longrightarrow> get_or d' j x = (if j = k then Inr v else get_or d j x)"
  by (cases d) (auto simp: get_or_def update_conv split: option.splits)

lemma cfg_section_put:
  assumes "cfg_put cfg sec k v = Inr cfg'"
  shows "cfg_section cfg' s = (if s = sec then bind_sum (cfg_section cfg sec) (\<lambda>d. obj_put d k v) else cfg_section cfg s)"
  using assms by (auto simp: cfg_put_def bind_sum_Inr cfg_section_def get_or_put)

lemma cfg_get_put:
  assumes "cfg_put cfg sec k v = Inr cfg'"
  shows "cfg_get cfg' s j d = (if s = sec \<and> j = k then Inr v else cfg_get cfg s j d)"
proof (cases "s = sec")
  case True
  from assms obtain t t' where t: "cfg_section cfg sec = Inr t" "obj_put t k v = Inr t'"
    by (auto simp: cfg_put_def bind_sum_Inr)
  with cfg_section_put [OF assms, of sec] have "cfg_section cfg' sec = Inr t'" by simp
  with True t get_or_put [OF t(2)] show ?thesis by (simp add: cfg_get_def)
next
  case False
  with cfg_section_put [OF assms, of s] show ?thesis by (simp add: cfg_get_def)
qed


definition sound_config :: "json \<Rightarrow> bool" where
  "sound_config cfg = (
     (\<exists>c. ratio_of ''cpu_overcommit_ratio'' cfg = Inr c \<and> \<not> above c ratio_ceiling) \<and>
     (\<exists>m b. ratio_of ''mem_overcommit_ratio'' cfg = Inr m \<and> \<not> above m ratio_ceiling \<and>
        cfg_get cfg ''balloon'' ''enabled'' (JBool False) = Inr b \<and> (above m one_float \<longrightarrow> truthy b)) \<and>
     (\<exists>mode. cfg_get cfg ''balloon'' ''migrate_mode'' (JStr ''cold'') = Inr mode \<and> ascii_lower (json_str mode) \<in> set migrate_modes) \<and>
     (\<exists>r. cfg_get cfg ''routing'' ''mode'' (JStr ''per-tenant'') = Inr (JStr r) \<and> r \<in> set routing_modes))"

text \<open>Each check, as a relation of the settings before and after.\<close>

definition same_settings :: "(string \<times> string) set \<Rightarrow> json \<Rightarrow> json \<Rightarrow> bool" where
  "same_settings ks cfg cfg' = (\<forall>sec k d. (sec, k) \<notin> ks \<longrightarrow> cfg_get cfg' sec k d = cfg_get cfg sec k d)"

lemma not_above: "\<not> above float_one one_float" "\<not> above float_one ratio_ceiling" "\<not> above (JFloat ratio_ceiling) ratio_ceiling"
  by code_simp+

lemma above_ceiling: "\<not> above float_one ratio_ceiling" "above v ratio_ceiling \<Longrightarrow> above v one_float"
proof -
  have c: "ratio_ceiling = PyFloat 4 0" "one_float = PyFloat 1 0" by code_simp+
  show "\<not> above float_one ratio_ceiling" by (rule not_above)
  have "fless (PyFloat 4 0) (PyFloat n f) \<Longrightarrow> fless (PyFloat 1 0) (PyFloat n f)" for n f
  proof (cases "f \<le> 0")
    case True
    have "(0::int) < 2 ^ nat (- f)" by simp
    then have "4 * 2 ^ nat (- f) < n \<Longrightarrow> 2 ^ nat (- f) < n" by linarith
    then show "fless (PyFloat 4 0) (PyFloat n f) \<Longrightarrow> fless (PyFloat 1 0) (PyFloat n f)" using True by simp
  next
    case False
    then show "fless (PyFloat 4 0) (PyFloat n f) \<Longrightarrow> fless (PyFloat 1 0) (PyFloat n f)" by simp
  qed
  then have "fless (PyFloat 4 0) x \<Longrightarrow> fless (PyFloat 1 0) x" for x by (cases x) blast
  then show "above v ratio_ceiling \<Longrightarrow> above v one_float" by (cases v) (auto simp: c)
qed

lemma clamp_without_balloon_spec:
  assumes "clamp_without_balloon cfg = Inr cfg'"
  shows "\<exists>m b. ratio_of ''mem_overcommit_ratio'' cfg' = Inr m \<and> cfg_get cfg' ''balloon'' ''enabled'' (JBool False) = Inr b \<and>
      (above m one_float \<longrightarrow> truthy b)"
    "same_settings {(''host'', ''mem_overcommit_ratio'')} cfg cfg'"
proof -
  from assms obtain v m b where read: "cfg_get cfg ''host'' ''mem_overcommit_ratio'' float_one = Inr v" "py_float v = Inr m"
    "cfg_get cfg ''balloon'' ''enabled'' (JBool False) = Inr b"
    and res: "(if above m one_float \<and> \<not> truthy b then cfg_put cfg ''host'' ''mem_overcommit_ratio'' float_one else Inr cfg) = Inr cfg'"
    by (auto simp: clamp_without_balloon_def bind_sum_Inr)
  have one: "py_float float_one = Inr float_one" by (simp add: float_one_def)
  have "(\<exists>m b. ratio_of ''mem_overcommit_ratio'' cfg' = Inr m \<and> cfg_get cfg' ''balloon'' ''enabled'' (JBool False) = Inr b \<and>
      (above m one_float \<longrightarrow> truthy b)) \<and> same_settings {(''host'', ''mem_overcommit_ratio'')} cfg cfg'"
  proof (cases "above m one_float \<and> \<not> truthy b")
    case True
    with res have put: "cfg_put cfg ''host'' ''mem_overcommit_ratio'' float_one = Inr cfg'" by simp
    show ?thesis using read(3) one not_above(1) by (auto simp: ratio_of_def cfg_get_put [OF put] same_settings_def)
  next
    case False
    with res read show ?thesis by (auto simp: ratio_of_def same_settings_def)
  qed
  then show "\<exists>m b. ratio_of ''mem_overcommit_ratio'' cfg' = Inr m \<and> cfg_get cfg' ''balloon'' ''enabled'' (JBool False) = Inr b \<and>
      (above m one_float \<longrightarrow> truthy b)" "same_settings {(''host'', ''mem_overcommit_ratio'')} cfg cfg'" by blast+
qed

lemma clamp_ratio_spec:
  assumes "clamp_ratio k cfg = Inr cfg'"
  shows "\<exists>m. ratio_of k cfg = Inr m \<and> ratio_of k cfg' = Inr (if above m ratio_ceiling then JFloat ratio_ceiling else m)"
    "same_settings {(''host'', k)} cfg cfg'"
  using assms by (auto simp: clamp_ratio_def bind_sum_Inr ratio_of_def cfg_get_put same_settings_def split: if_splits)

lemma check_migrate_mode_spec:
  assumes "check_migrate_mode cfg = Inr cfg'"
  shows "\<exists>mode. cfg_get cfg' ''balloon'' ''migrate_mode'' (JStr ''cold'') = Inr mode \<and> ascii_lower (json_str mode) \<in> set migrate_modes"
    "same_settings {(''balloon'', ''migrate_mode'')} cfg cfg'"
proof -
  have "ascii_lower (json_str (JStr ''cold'')) \<in> set migrate_modes" by code_simp
  then show "\<exists>mode. cfg_get cfg' ''balloon'' ''migrate_mode'' (JStr ''cold'') = Inr mode \<and> ascii_lower (json_str mode) \<in> set migrate_modes"
    "same_settings {(''balloon'', ''migrate_mode'')} cfg cfg'"
    using assms by (auto simp: check_migrate_mode_def bind_sum_Inr cfg_get_put same_settings_def split: if_splits)
qed

lemma check_routing_mode_spec:
  assumes "check_routing_mode cfg = Inr cfg'"
  shows "\<exists>r. cfg_get cfg' ''routing'' ''mode'' (JStr ''per-tenant'') = Inr (JStr r) \<and> r \<in> set routing_modes"
    "same_settings {(''routing'', ''mode'')} cfg cfg'"
  using assms by (auto simp: check_routing_mode_def bind_sum_Inr cfg_get_put same_settings_def Let_def split: if_splits)

lemma same_settingsD: "same_settings ks cfg cfg' \<Longrightarrow> (sec, k) \<notin> ks \<Longrightarrow> cfg_get cfg' sec k d = cfg_get cfg sec k d"
  by (simp add: same_settings_def)

lemma same_ratio: "same_settings ks cfg cfg' \<Longrightarrow> (''host'', k) \<notin> ks \<Longrightarrow> ratio_of k cfg' = ratio_of k cfg"
  by (simp add: ratio_of_def same_settingsD)

lemma get_or_Inr: "get_or s k d = Inr v \<longleftrightarrow> (\<exists>kvs. s = JObj kvs \<and> v = (case map_of kvs k of None \<Rightarrow> d | Some x \<Rightarrow> x))"
  by (cases s) (auto simp: get_or_def split: option.splits)

text \<open>A sound configuration whose routing mode is written out is a fixed point.\<close>

lemma put_same:
  assumes "cfg_get cfg sec k d = Inr v" "v \<noteq> d"
  shows "cfg_put cfg sec k v = Inr cfg"
proof -
  from assms obtain s kvs where s: "cfg_section cfg sec = Inr s" "s = JObj kvs" "map_of kvs k = Some v"
    by (auto simp: cfg_get_def bind_sum_Inr get_or_Inr split: option.splits)
  then have sec: "obj_put s k v = Inr s" by (simp add: update_triv)
  from s obtain top where "cfg = JObj top" "map_of top sec = Some s"
    by (auto simp: cfg_section_def get_or_Inr split: option.splits)
  then show ?thesis using s(1) sec by (simp add: cfg_put_def update_triv)
qed

lemma normalize_sound: "normalize_config cfg = Inr cfg' \<Longrightarrow> sound_config cfg'"
proof -
  assume "normalize_config cfg = Inr cfg'"
  then obtain c1 c2 c3 c4 where steps: "clamp_without_balloon cfg = Inr c1" "clamp_ratio ''cpu_overcommit_ratio'' c1 = Inr c2"
    "clamp_ratio ''mem_overcommit_ratio'' c2 = Inr c3" "check_migrate_mode c3 = Inr c4" "check_routing_mode c4 = Inr cfg'"
    by (auto simp: normalize_config_def bind_sum_Inr)
  note s1 = clamp_without_balloon_spec [OF steps(1)]
  note s2 = clamp_ratio_spec [OF steps(2)]
  note s3 = clamp_ratio_spec [OF steps(3)]
  note s4 = check_migrate_mode_spec [OF steps(4)]
  note s5 = check_routing_mode_spec [OF steps(5)]
  have cpu: "ratio_of ''cpu_overcommit_ratio'' cfg' = ratio_of ''cpu_overcommit_ratio'' c2"
    using same_ratio [OF s3(2)] same_ratio [OF s4(2)] same_ratio [OF s5(2)] by simp
  have mem: "ratio_of ''mem_overcommit_ratio'' cfg' = ratio_of ''mem_overcommit_ratio'' c3"
    "ratio_of ''mem_overcommit_ratio'' c2 = ratio_of ''mem_overcommit_ratio'' c1"
    using same_ratio [OF s2(2)] same_ratio [OF s4(2)] same_ratio [OF s5(2)] by simp_all
  have balloon: "cfg_get cfg' ''balloon'' ''enabled'' d = cfg_get c1 ''balloon'' ''enabled'' d" for d
    using same_settingsD [OF s2(2)] same_settingsD [OF s3(2)] same_settingsD [OF s4(2)] same_settingsD [OF s5(2)] by simp
  have mode: "cfg_get cfg' ''balloon'' ''migrate_mode'' d = cfg_get c4 ''balloon'' ''migrate_mode'' d" for d
    using same_settingsD [OF s5(2)] by simp
  show "sound_config cfg'"
    unfolding sound_config_def cpu mem balloon mode
    using s1(1) s2(1) s3(1) s4(1) s5(1) not_above(3) above_ceiling(2) by (auto simp: mem)
qed

lemma normalize_same:
  assumes "normalize_config cfg = Inr cfg'"
  shows "same_settings {(''host'', ''cpu_overcommit_ratio''), (''host'', ''mem_overcommit_ratio''),
      (''balloon'', ''migrate_mode''), (''routing'', ''mode'')} cfg cfg'"
proof -
  from assms obtain c1 c2 c3 c4 where steps: "clamp_without_balloon cfg = Inr c1" "clamp_ratio ''cpu_overcommit_ratio'' c1 = Inr c2"
    "clamp_ratio ''mem_overcommit_ratio'' c2 = Inr c3" "check_migrate_mode c3 = Inr c4" "check_routing_mode c4 = Inr cfg'"
    by (auto simp: normalize_config_def bind_sum_Inr)
  show ?thesis
    using clamp_without_balloon_spec(2) [OF steps(1)] clamp_ratio_spec(2) [OF steps(2)] clamp_ratio_spec(2) [OF steps(3)]
      check_migrate_mode_spec(2) [OF steps(4)] check_routing_mode_spec(2) [OF steps(5)]
    by (simp add: same_settings_def)
qed

lemma sound_fixed:
  assumes "sound_config cfg" "cfg_get cfg ''routing'' ''mode'' JNull \<noteq> Inr JNull"
  shows "normalize_config cfg = Inr cfg"
proof -
  have balloon: "clamp_without_balloon cfg = Inr cfg"
    using assms(1) by (auto simp: sound_config_def clamp_without_balloon_def ratio_of_def)
  have ratios: "clamp_ratio ''cpu_overcommit_ratio'' cfg = Inr cfg" "clamp_ratio ''mem_overcommit_ratio'' cfg = Inr cfg"
    using assms(1) by (auto simp: sound_config_def clamp_ratio_def ratio_of_def)
  have mode: "check_migrate_mode cfg = Inr cfg"
    using assms(1) by (auto simp: sound_config_def check_migrate_mode_def)
  obtain r where r: "cfg_get cfg ''routing'' ''mode'' (JStr ''per-tenant'') = Inr (JStr r)" "r \<in> set routing_modes"
    using assms(1) by (auto simp: sound_config_def)
  then have "cfg_get cfg ''routing'' ''mode'' JNull = Inr (JStr r)"
    using assms(2) by (auto simp: cfg_get_def bind_sum_Inr get_or_Inr split: option.splits)
  then have "cfg_put cfg ''routing'' ''mode'' (JStr r) = Inr cfg" by (rule put_same) simp
  moreover have "ascii_lower r = r" using r(2) by (auto simp: routing_modes_def ascii_lower_def char_code_def)
  ultimately have "check_routing_mode cfg = Inr cfg" using r by (simp add: check_routing_mode_def json_str_def)
  then show ?thesis by (simp add: normalize_config_def balloon ratios mode)
qed

text \<open>
  C29. A configuration that is accepted is safe to deploy: afterwards neither overcommit ratio exceeds
  4, memory is promised more than once only with the balloon enabled, and the migration mode and the
  routing mode are known ones; every other setting is as it was, and normalising again changes nothing.
\<close>

theorem configuration_clamped:
  assumes "normalize_config cfg = Inr cfg'"
  shows "sound_config cfg' \<and> normalize_config cfg' = Inr cfg' \<and>
    same_settings {(''host'', ''cpu_overcommit_ratio''), (''host'', ''mem_overcommit_ratio''),
      (''balloon'', ''migrate_mode''), (''routing'', ''mode'')} cfg cfg'"
proof -
  from assms obtain c1 c2 c3 c4 where steps: "clamp_without_balloon cfg = Inr c1" "clamp_ratio ''cpu_overcommit_ratio'' c1 = Inr c2"
    "clamp_ratio ''mem_overcommit_ratio'' c2 = Inr c3" "check_migrate_mode c3 = Inr c4" "check_routing_mode c4 = Inr cfg'"
    by (auto simp: normalize_config_def bind_sum_Inr)
  have "cfg_get cfg' ''routing'' ''mode'' JNull \<noteq> Inr JNull"
    using steps(5) by (auto simp: check_routing_mode_def bind_sum_Inr Let_def cfg_get_put split: if_splits)
  then have "normalize_config cfg' = Inr cfg'" using sound_fixed normalize_sound [OF assms] by blast
  then show ?thesis using normalize_sound [OF assms] normalize_same [OF assms] by blast
qed

text \<open>An overcommitted configuration without a balloon.\<close>

definition greedy_config :: json where
  "greedy_config = JObj [(''host'', JObj [(''cpu_overcommit_ratio'', JInt 8), (''mem_overcommit_ratio'', JStr ''2.5'')]),
     (''routing'', JObj [(''mode'', JStr ''Host-TG'')])]"

definition tamed_config :: json where
  "tamed_config = JObj [(''host'', JObj [(''cpu_overcommit_ratio'', JFloat ratio_ceiling), (''mem_overcommit_ratio'', float_one)]),
     (''routing'', JObj [(''mode'', JStr ''host-tg'')])]"

theorem configuration_clamped_witness:
  "sound_config tamed_config \<and> normalize_config tamed_config = Inr tamed_config \<and>
    same_settings {(''host'', ''cpu_overcommit_ratio''), (''host'', ''mem_overcommit_ratio''),
      (''balloon'', ''migrate_mode''), (''routing'', ''mode'')} greedy_config tamed_config"
proof (rule configuration_clamped)
  show "normalize_config greedy_config = Inr tamed_config" by code_simp
qed

text \<open>The switch of the balloon is read with \<open>bool\<close> here: a quoted false counts as on.\<close>

lemma quoted_false_overcommits:
  "clamp_without_balloon (JObj [(''host'', JObj [(''mem_overcommit_ratio'', JInt 2)]), (''balloon'', JObj [(''enabled'', JStr ''false'')])]) =
   Inr (JObj [(''host'', JObj [(''mem_overcommit_ratio'', JInt 2)]), (''balloon'', JObj [(''enabled'', JStr ''false'')])])"
  by code_simp

text \<open>NaN escapes every clamp.\<close>

lemma nan_passes: "clamp_ratio k (JObj [(''host'', JObj [(k, JNaN)])]) = Inr (JObj [(''host'', JObj [(k, JNaN)])])"
  by (simp add: clamp_ratio_def cfg_get_def cfg_section_def get_or_def)

end
