(* ===== verification/Settings.thy ===== *)
theory Settings
  imports DeployConfig
begin

text \<open>
  The environments the stack gives its Lambdas (deploy/stack.py) and what the Lambdas read from them when
  they are loaded (the settings at the head of api/handler.py, health_check/handler.py and scaler/handler.py).
  Every other theory works with one record of settings; here it is read from one configuration file, and the
  readings of the API, the health check and the failover worker are compared.
\<close>

section \<open>Environments\<close>

text \<open>
  The text of a variable. The text \<open>str\<close> gives for a float is kept as that float: reading it back gives
  the same float.
\<close>

datatype env_text = Txt string | FloatText pyfloat

type_synonym environment = "(string \<times> env_text) list"

definition py_str :: "json \<Rightarrow> env_text" where
  "py_str v = (case v of JFloat x \<Rightarrow> FloatText x | _ \<Rightarrow> Txt (json_str v))"

definition env_lower :: "env_text \<Rightarrow> env_text" where
  "env_lower t = (case t of Txt s \<Rightarrow> Txt (ascii_lower s) | FloatText x \<Rightarrow> FloatText x)"

definition text_of :: "env_text \<Rightarrow> string" where
  "text_of t = (case t of Txt s \<Rightarrow> s | FloatText x \<Rightarrow> json_repr (JFloat x))"

text \<open>A value of the configuration used as a variable without \<open>str\<close> has to be text.\<close>

definition plain_text :: "json \<Rightarrow> exn + env_text" where
  "plain_text v = (case v of JStr s \<Rightarrow> Inr (Txt s)
     | _ \<Rightarrow> Inl (PyError TypeError (''type of argument environment must be a str; got '' @ type_name v)))"

text \<open>A dictionary of fallible values, evaluated in order.\<close>

fun collect :: "(string \<times> (exn + 'a)) list \<Rightarrow> exn + (string \<times> 'a) list" where
  "collect [] = Inr []"
| "collect ((k, r) # rs) = bind_sum r (\<lambda>v. bind_sum (collect rs) (\<lambda>vs. Inr ((k, v) # vs)))"

section \<open>Reading\<close>

definition missing_variable :: "string \<Rightarrow> exn" where
  "missing_variable k = key_error k"

definition env_need :: "environment \<Rightarrow> string \<Rightarrow> exn + string" where
  "env_need env k = (case map_of env k of None \<Rightarrow> Inl (missing_variable k) | Some t \<Rightarrow> Inr (text_of t))"

definition env_text_or :: "environment \<Rightarrow> string \<Rightarrow> string \<Rightarrow> string" where
  "env_text_or env k d = (case map_of env k of None \<Rightarrow> d | Some t \<Rightarrow> text_of t)"

definition int_of_text :: "env_text \<Rightarrow> exn + int" where
  "int_of_text t = (case t of Txt s \<Rightarrow> py_int (JStr s)
     | FloatText x \<Rightarrow> Inl (PyError ValueError ''invalid literal for int() with base 10''))"

text \<open>\<open>int(os.environ.get(k, d))\<close>, and the same with \<open>or \"0\"\<close>.\<close>

definition env_int :: "environment \<Rightarrow> string \<Rightarrow> int \<Rightarrow> exn + int" where
  "env_int env k d = (case map_of env k of None \<Rightarrow> Inr d | Some t \<Rightarrow> int_of_text t)"

definition env_count :: "environment \<Rightarrow> string \<Rightarrow> exn + int" where
  "env_count env k = (case map_of env k of None \<Rightarrow> Inr 0 | Some t \<Rightarrow> if t = Txt [] then Inr 0 else int_of_text t)"

text \<open>
  \<open>float(os.environ.get(k, 1.0))\<close>. A ratio that is infinite or NaN is not modelled: the reading fails here.
\<close>

definition env_ratio :: "environment \<Rightarrow> string \<Rightarrow> exn + pyfloat" where
  "env_ratio env k = (case map_of env k of None \<Rightarrow> Inr one_float
     | Some (FloatText x) \<Rightarrow> Inr x
     | Some (Txt s) \<Rightarrow> bind_sum (py_float (JStr s)) (\<lambda>v. case v of JFloat x \<Rightarrow> Inr x
         | _ \<Rightarrow> Inl (PyError OverflowError ''not a finite ratio'')))"

definition env_flag :: "environment \<Rightarrow> string \<Rightarrow> bool" where
  "env_flag env k = (ascii_lower (env_text_or env k ''false'') = ''true'')"

section \<open>Resources\<close>

text \<open>Names and addresses of what the stack creates, known when it is deployed.\<close>

record resources =
  rs_tenants_table :: string
  rs_hosts_table :: string
  rs_groups_table :: string
  rs_audit_table :: string
  rs_bucket :: string
  rs_topic_arn :: string
  rs_health_function :: string
  rs_queue_url :: string
  rs_listener_arn :: string
  rs_vpc_id :: string
  rs_alb_dns :: string
  rs_gateway_url :: string
  rs_remote_write_url :: string
  rs_grafana_url :: string
  rs_pool_id :: string
  rs_client_id :: string
  rs_version :: string

text \<open>\<open>CFG[s][k]\<close>, \<open>CFG[s].get(k, d)\<close> and \<open>(CFG.get(s, {}) or {})\<close>.\<close>

definition cfg_item :: "json \<Rightarrow> string \<Rightarrow> string \<Rightarrow> exn + json" where
  "cfg_item cfg s k = bind_sum (json_item cfg s) (\<lambda>d. json_item d k)"

definition cfg_item_or :: "json \<Rightarrow> string \<Rightarrow> string \<Rightarrow> json \<Rightarrow> exn + json" where
  "cfg_item_or cfg s k d = bind_sum (json_item cfg s) (\<lambda>v. get_or v k d)"

definition section_or_empty :: "json \<Rightarrow> string \<Rightarrow> exn + json" where
  "section_or_empty cfg s = bind_sum (cfg_section cfg s) (\<lambda>v. Inr (if truthy v then v else JObj []))"

definition cfg_or_get :: "json \<Rightarrow> string \<Rightarrow> string \<Rightarrow> json \<Rightarrow> exn + json" where
  "cfg_or_get cfg s k d = bind_sum (section_or_empty cfg s) (\<lambda>v. get_or v k d)"

definition as_text :: "exn + json \<Rightarrow> exn + env_text" where
  "as_text r = bind_sum r (\<lambda>v. Inr (py_str v))"

definition as_flag :: "exn + json \<Rightarrow> exn + env_text" where
  "as_flag r = bind_sum r (\<lambda>v. Inr (env_lower (py_str v)))"

text \<open>\<open>int(audit_cfg.get("retention_days", 90))\<close> and the ARN of the optional topic.\<close>

definition audit_retention_days :: "json \<Rightarrow> exn + int" where
  "audit_retention_days cfg = bind_sum (cfg_or_get cfg ''audit'' ''retention_days'' (JInt 90)) py_int"

definition notifications_topic_arn :: "json \<Rightarrow> resources \<Rightarrow> exn + string" where
  "notifications_topic_arn cfg rs = bind_sum (cfg_or_get cfg ''notifications'' ''enabled'' (JBool False)) (\<lambda>on.
     Inr (if truthy on then rs_topic_arn rs else ''''))"

section \<open>What the stack sets\<close>

definition api_lambda_env :: "json \<Rightarrow> resources \<Rightarrow> exn + environment" where
  "api_lambda_env cfg rs = collect [
     (''TENANTS_TABLE'', Inr (Txt (rs_tenants_table rs))), (''HOSTS_TABLE'', Inr (Txt (rs_hosts_table rs))),
     (''GROUPS_TABLE'', Inr (Txt (rs_groups_table rs))), (''AUDIT_TABLE'', Inr (Txt (rs_audit_table rs))),
     (''AUDIT_TTL_DAYS'', bind_sum (audit_retention_days cfg) (\<lambda>n. Inr (Txt (show_int n)))),
     (''ASSETS_BUCKET'', Inr (Txt (rs_bucket rs))),
     (''NOTIFICATIONS_TOPIC_ARN'', bind_sum (notifications_topic_arn cfg rs) (\<lambda>a. Inr (Txt a))),
     (''ROOTFS_PREFIX'', bind_sum (cfg_item cfg ''s3'' ''rootfs_prefix'') plain_text),
     (''HOST_RESERVED_VCPU'', as_text (cfg_item cfg ''host'' ''reserved_vcpu'')),
     (''HOST_RESERVED_MEM'', as_text (cfg_item cfg ''host'' ''reserved_mem_mb'')),
     (''CPU_OVERCOMMIT_RATIO'', as_text (cfg_item_or cfg ''host'' ''cpu_overcommit_ratio'' float_one)),
     (''MEM_OVERCOMMIT_RATIO'', as_text (cfg_item_or cfg ''host'' ''mem_overcommit_ratio'' float_one)),
     (''MAX_VMS_PER_HOST'', as_text (cfg_item_or cfg ''host'' ''max_vms_per_host'' (JInt 0))),
     (''VM_DEFAULT_VCPU'', as_text (cfg_item cfg ''vm'' ''default_vcpu'')),
     (''VM_DEFAULT_MEM'', as_text (cfg_item cfg ''vm'' ''default_mem_mb'')),
     (''VM_DATA_DISK_MB'', as_text (cfg_item cfg ''vm'' ''data_disk_mb'')),
     (''VM_PORT_BASE'', as_text (cfg_item cfg ''vm'' ''gateway_port_base'')),
     (''VM_SUBNET_PREFIX'', bind_sum (cfg_item cfg ''vm'' ''subnet_prefix'') plain_text),
     (''ASG_NAME'', Inr (Txt ''openclaw-hosts-asg'')),
     (''BACKUP_PREFIX'', bind_sum (cfg_item cfg ''s3'' ''backup_prefix'') plain_text),
     (''QUOTAS_ENABLED'', as_flag (cfg_get cfg ''quotas'' ''enabled'' (JBool False))),
     (''QUOTAS_MAX_VCPU'', as_text (cfg_get cfg ''quotas'' ''max_vcpu_per_tenant'' (JInt 0))),
     (''QUOTAS_MAX_MEM_MB'', as_text (cfg_get cfg ''quotas'' ''max_mem_mb_per_tenant'' (JInt 0))),
     (''QUOTAS_MAX_DATA_DISK_MB'', as_text (cfg_get cfg ''quotas'' ''max_data_disk_mb'' (JInt 0))),
     (''MULTI_AZ_ENABLED'', as_flag (cfg_get cfg ''multi_az'' ''enabled'' (JBool False))),
     (''MULTI_AZ_COUNT'', as_text (cfg_get cfg ''multi_az'' ''az_count'' (JInt 1))),
     (''WAF_ENABLED'', as_flag (cfg_get cfg ''waf'' ''enabled'' (JBool False))),
     (''BALLOON_ENABLED'', as_flag (cfg_get cfg ''balloon'' ''enabled'' (JBool False))),
     (''BALLOON_MIGRATE_MODE'', as_flag (cfg_get cfg ''balloon'' ''migrate_mode'' (JStr ''cold''))),
     (''CONSOLE_AUTH_ENABLED'', as_flag (cfg_or_get cfg ''console_auth'' ''enabled'' (JBool False))),
     (''DEFAULT_NO_JWT_ROLE'', as_text (cfg_get cfg ''console_auth'' ''default_no_jwt_role'' (JStr ''viewer''))),
     (''RBAC_ENABLED'', as_flag (cfg_or_get cfg ''console_auth'' ''rbac_enabled'' (JBool False))),
     (''PROJECT_VERSION'', Inr (Txt (rs_version rs)))]"

definition az_failover_item :: "json \<Rightarrow> string \<Rightarrow> json \<Rightarrow> exn + json" where
  "az_failover_item cfg k d = bind_sum (section_or_empty cfg ''health_check'') (\<lambda>hc.
     bind_sum (section_or_empty hc ''az_failover'') (\<lambda>af. get_or af k d))"

definition as_int_text :: "exn + json \<Rightarrow> exn + env_text" where
  "as_int_text r = bind_sum (bind_sum r py_int) (\<lambda>n. Inr (Txt (show_int n)))"

text \<open>The environment of the health check, and that of the failover worker, written out a second time there.\<close>

definition health_lambda_env :: "json \<Rightarrow> resources \<Rightarrow> exn + environment" where
  "health_lambda_env cfg rs = collect [
     (''TENANTS_TABLE'', Inr (Txt (rs_tenants_table rs))), (''HOSTS_TABLE'', Inr (Txt (rs_hosts_table rs))),
     (''AUDIT_TABLE'', Inr (Txt (rs_audit_table rs))),
     (''SNS_TOPIC_ARN'', bind_sum (notifications_topic_arn cfg rs) (\<lambda>a. Inr (Txt a))),
     (''ASSETS_BUCKET'', Inr (Txt (rs_bucket rs))),
     (''CPU_OVERCOMMIT_RATIO'', as_text (cfg_item_or cfg ''host'' ''cpu_overcommit_ratio'' float_one)),
     (''MEM_OVERCOMMIT_RATIO'', as_text (cfg_item_or cfg ''host'' ''mem_overcommit_ratio'' float_one)),
     (''MAX_VMS_PER_HOST'', as_text (cfg_item_or cfg ''host'' ''max_vms_per_host'' (JInt 0))),
     (''AZ_FAILOVER_ENABLED'', as_flag (bind_sum (az_failover_item cfg ''enabled'' (JBool True)) (\<lambda>v. Inr (JBool (truthy v))))),
     (''AZ_UNHEALTHY_THRESHOLD_MINUTES'', as_int_text (az_failover_item cfg ''unhealthy_threshold_minutes'' (JInt 10))),
     (''AZ_COOLDOWN_MINUTES'', as_int_text (az_failover_item cfg ''cooldown_minutes'' (JInt 30)))]"

definition worker_lambda_env :: "json \<Rightarrow> resources \<Rightarrow> exn + environment" where
  "worker_lambda_env cfg rs = collect [
     (''TENANTS_TABLE'', Inr (Txt (rs_tenants_table rs))), (''HOSTS_TABLE'', Inr (Txt (rs_hosts_table rs))),
     (''AUDIT_TABLE'', Inr (Txt (rs_audit_table rs))),
     (''SNS_TOPIC_ARN'', bind_sum (notifications_topic_arn cfg rs) (\<lambda>a. Inr (Txt a))),
     (''ASSETS_BUCKET'', Inr (Txt (rs_bucket rs))),
     (''CPU_OVERCOMMIT_RATIO'', as_text (cfg_item_or cfg ''host'' ''cpu_overcommit_ratio'' float_one)),
     (''MEM_OVERCOMMIT_RATIO'', as_text (cfg_item_or cfg ''host'' ''mem_overcommit_ratio'' float_one)),
     (''MAX_VMS_PER_HOST'', as_text (cfg_item_or cfg ''host'' ''max_vms_per_host'' (JInt 0))),
     (''AZ_FAILOVER_ENABLED'', as_flag (bind_sum (az_failover_item cfg ''enabled'' (JBool True)) (\<lambda>v. Inr (JBool (truthy v))))),
     (''AZ_UNHEALTHY_THRESHOLD_MINUTES'', as_int_text (az_failover_item cfg ''unhealthy_threshold_minutes'' (JInt 10))),
     (''AZ_COOLDOWN_MINUTES'', as_int_text (az_failover_item cfg ''cooldown_minutes'' (JInt 30)))]"

definition scaler_lambda_env :: "json \<Rightarrow> resources \<Rightarrow> exn + environment" where
  "scaler_lambda_env cfg rs = collect [
     (''HOSTS_TABLE'', Inr (Txt (rs_hosts_table rs))), (''TENANTS_TABLE'', Inr (Txt (rs_tenants_table rs))),
     (''ASG_NAME'', Inr (Txt ''openclaw-hosts-asg'')),
     (''IDLE_TIMEOUT_MINUTES'', as_text (cfg_item cfg ''scaler'' ''idle_timeout_minutes'')),
     (''AUDIT_TABLE'', Inr (Txt (rs_audit_table rs))),
     (''AUDIT_TTL_DAYS'', bind_sum (audit_retention_days cfg) (\<lambda>n. Inr (Txt (show_int n))))]"


text \<open>\<open>add_environment\<close>, in the order of the calls: a later value replaces an earlier one.\<close>

definition add_env :: "environment \<Rightarrow> environment \<Rightarrow> environment" where
  "add_env vars env = fold (\<lambda>(k, v). AList.update k v) vars env"

definition metrics_vars :: "json \<Rightarrow> resources \<Rightarrow> exn + environment" where
  "metrics_vars cfg rs = bind_sum (cfg_get cfg ''metrics'' ''enabled'' (JBool False)) (\<lambda>on.
     Inr (if truthy on then [(''AMP_REMOTE_WRITE_URL'', Txt (rs_remote_write_url rs)), (''GRAFANA_WORKSPACE_URL'', Txt (rs_grafana_url rs))] else []))"

definition gateway_url :: "json \<Rightarrow> resources \<Rightarrow> exn + string" where
  "gateway_url cfg rs = bind_sum (cfg_section cfg ''agentcore'') (\<lambda>ac.
     bind_sum (get_or ac ''enabled'' (JBool False)) (\<lambda>on.
     if \<not> truthy on then Inr '''' else bind_sum (cfg_get ac ''gateway'' ''enabled'' (JBool True)) (\<lambda>gw.
     Inr (if truthy gw then rs_gateway_url rs else ''''))))"

definition agentcore_vars :: "json \<Rightarrow> resources \<Rightarrow> exn + environment" where
  "agentcore_vars cfg rs = bind_sum (cfg_get cfg ''agentcore'' ''enabled'' (JBool False)) (\<lambda>on.
     if \<not> truthy on then Inr []
     else bind_sum (gateway_url cfg rs) (\<lambda>url.
       Inr ((''AGENTCORE_ENABLED'', Txt ''true'') # (if url = [] then [] else [(''AGENTCORE_GATEWAY_URL'', Txt url)]))))"

definition routing_vars :: "json \<Rightarrow> exn + environment" where
  "routing_vars cfg = bind_sum (bind_sum (cfg_get cfg ''routing'' ''mode'' (JStr ''per-tenant'')) plain_text) (\<lambda>m.
     Inr [(''ROUTING_MODE'', m)])"

definition verify_vars :: "json \<Rightarrow> exn + environment" where
  "verify_vars cfg = bind_sum (cfg_get cfg ''routing'' ''mode'' (JStr ''per-tenant'')) (\<lambda>m.
     bind_sum (as_int_text (cfg_or_get cfg ''routing'' ''verify_consecutive_ok'' (JInt (if m = JStr ''host-tg'' then 3 else 1)))) (\<lambda>n.
     Inr [(''VERIFY_CONSECUTIVE_OK'', n)]))"

definition public_base :: "resources \<Rightarrow> env_text" where
  "public_base rs = Txt (''http://'' @ rs_alb_dns rs)"

text \<open>The pool is the configured one, or the one the stack creates.\<close>

definition cognito_vars :: "json \<Rightarrow> resources \<Rightarrow> exn + environment" where
  "cognito_vars cfg rs = bind_sum (cfg_get cfg ''console_auth'' ''enabled'' (JBool False)) (\<lambda>on.
     if \<not> truthy on then Inr []
     else bind_sum (cfg_get cfg ''console_auth'' ''user_pool_id'' (JStr '''')) (\<lambda>pool.
     bind_sum (if truthy pool then plain_text pool else Inr (Txt (rs_pool_id rs))) (\<lambda>p.
     Inr [(''COGNITO_USER_POOL_ID'', p), (''COGNITO_CLIENT_ID'', Txt (rs_client_id rs))])))"

text \<open>The environments as deployed.\<close>

definition api_env :: "json \<Rightarrow> resources \<Rightarrow> exn + environment" where
  "api_env cfg rs = bind_sum (api_lambda_env cfg rs) (\<lambda>env.
     bind_sum (metrics_vars cfg rs) (\<lambda>metrics.
     bind_sum (agentcore_vars cfg rs) (\<lambda>agentcore.
     bind_sum (routing_vars cfg) (\<lambda>routing.
     bind_sum (cognito_vars cfg rs) (\<lambda>cognito.
     Inr (add_env ([(''HEALTH_CHECK_FUNCTION'', Txt (rs_health_function rs))] @ metrics @ agentcore @
       [(''ALB_LISTENER_ARN'', Txt (rs_listener_arn rs)), (''VPC_ID'', Txt (rs_vpc_id rs))] @ routing @ cognito) env))))))"

definition health_env :: "json \<Rightarrow> resources \<Rightarrow> exn + environment" where
  "health_env cfg rs = bind_sum (health_lambda_env cfg rs) (\<lambda>env.
     bind_sum (routing_vars cfg) (\<lambda>routing.
     bind_sum (verify_vars cfg) (\<lambda>verify.
     Inr (add_env ([(''FAILOVER_QUEUE_URL'', Txt (rs_queue_url rs)), (''ALB_LISTENER_ARN'', Txt (rs_listener_arn rs)),
       (''VPC_ID'', Txt (rs_vpc_id rs)), (''PUBLIC_BASE_URL'', public_base rs)] @ routing @ verify) env))))"

definition worker_env :: "json \<Rightarrow> resources \<Rightarrow> exn + environment" where
  "worker_env cfg rs = bind_sum (worker_lambda_env cfg rs) (\<lambda>env.
     bind_sum (routing_vars cfg) (\<lambda>routing.
     bind_sum (verify_vars cfg) (\<lambda>verify.
     Inr (add_env ([(''VPC_ID'', Txt (rs_vpc_id rs)), (''ALB_LISTENER_ARN'', Txt (rs_listener_arn rs)),
       (''PUBLIC_BASE_URL'', public_base rs)] @ routing @ verify) env))))"

section \<open>What the Lambdas read\<close>

text \<open>
  The settings at the head of api/handler.py. The record carries also what other modules read and the
  functions of libraries; they stay as they are in the given record.
\<close>

definition api_settings :: "cfg \<Rightarrow> environment \<Rightarrow> exn + cfg" where
  "api_settings c env =
     bind_sum (env_need env ''TENANTS_TABLE'') (\<lambda>_. bind_sum (env_need env ''HOSTS_TABLE'') (\<lambda>_.
     bind_sum (env_int env ''AUDIT_TTL_DAYS'' 90) (\<lambda>ttl.
     bind_sum (env_int env ''HOST_RESERVED_VCPU'' 1) (\<lambda>rv. bind_sum (env_int env ''HOST_RESERVED_MEM'' 2048) (\<lambda>rm.
     bind_sum (env_ratio env ''CPU_OVERCOMMIT_RATIO'') (\<lambda>cpu. bind_sum (env_ratio env ''MEM_OVERCOMMIT_RATIO'') (\<lambda>mem.
     bind_sum (env_count env ''MAX_VMS_PER_HOST'') (\<lambda>vms.
     bind_sum (env_int env ''VM_DEFAULT_VCPU'' 2) (\<lambda>dv. bind_sum (env_int env ''VM_DEFAULT_MEM'' 4096) (\<lambda>dm.
     bind_sum (env_int env ''VM_DATA_DISK_MB'' 2048) (\<lambda>dd. bind_sum (env_int env ''VM_PORT_BASE'' 18789) (\<lambda>port.
     bind_sum (env_count env ''QUOTAS_MAX_VCPU'') (\<lambda>qv. bind_sum (env_count env ''QUOTAS_MAX_MEM_MB'') (\<lambda>qm.
     bind_sum (env_count env ''QUOTAS_MAX_DATA_DISK_MB'') (\<lambda>qd.
     Inr (c\<lparr>has_tenants_table := True, has_groups_table := env_text_or env ''GROUPS_TABLE'' '''' \<noteq> [],
       has_audit_table := env_text_or env ''AUDIT_TABLE'' '''' \<noteq> [], audit_ttl_days := ttl,
       notifications_topic := env_text_or env ''NOTIFICATIONS_TOPIC_ARN'' '''',
       host_reserved_vcpu := rv, host_reserved_mem := rm, cpu_overcommit := cpu, mem_overcommit := mem,
       max_vms_per_host := vms, vm_default_vcpu := dv, vm_default_mem := dm, vm_data_disk_mb := dd,
       vm_port_base := port, vm_subnet_prefix := env_text_or env ''VM_SUBNET_PREFIX'' ''172.16'',
       listener_arn := env_text_or env ''ALB_LISTENER_ARN'' '''', vpc_id := env_text_or env ''VPC_ID'' '''',
       routing_mode := env_text_or env ''ROUTING_MODE'' ''per-tenant'',
       quotas_enabled := env_flag env ''QUOTAS_ENABLED'', quotas_max_vcpu := qv, quotas_max_mem := qm, quotas_max_disk := qd,
       balloon_enabled := env_flag env ''BALLOON_ENABLED'',
       balloon_migrate_mode := ascii_lower (env_text_or env ''BALLOON_MIGRATE_MODE'' ''cold''),
       cognito_configured := env_text_or env ''COGNITO_USER_POOL_ID'' '''' \<noteq> [],
       cognito_client_id := env_text_or env ''COGNITO_CLIENT_ID'' '''',
       default_no_jwt_role := env_text_or env ''DEFAULT_NO_JWT_ROLE'' ''viewer'',
       rbac_enabled := env_flag env ''RBAC_ENABLED''\<rparr>))))))))))))))))"

definition verify_default :: "environment \<Rightarrow> int" where
  "verify_default env = (if env_text_or env ''ROUTING_MODE'' ''per-tenant'' = ''host-tg'' then 3 else 1)"

text \<open>The settings at the head of health_check/handler.py, which the worker loads too.\<close>

definition health_settings :: "cfg \<Rightarrow> environment \<Rightarrow> exn + cfg" where
  "health_settings c env =
     bind_sum (env_need env ''TENANTS_TABLE'') (\<lambda>_. bind_sum (env_need env ''HOSTS_TABLE'') (\<lambda>_.
     bind_sum (env_int env ''AUDIT_TTL_DAYS'' 90) (\<lambda>ttl.
     bind_sum (env_ratio env ''CPU_OVERCOMMIT_RATIO'') (\<lambda>cpu. bind_sum (env_ratio env ''MEM_OVERCOMMIT_RATIO'') (\<lambda>mem.
     bind_sum (env_count env ''MAX_VMS_PER_HOST'') (\<lambda>vms.
     bind_sum (env_int env ''AZ_UNHEALTHY_THRESHOLD_MINUTES'' 10) (\<lambda>unhealthy.
     bind_sum (env_int env ''AZ_COOLDOWN_MINUTES'' 30) (\<lambda>cooldown.
     bind_sum (env_int env ''VERIFY_CONSECUTIVE_OK'' (verify_default env)) (\<lambda>verify.
     bind_sum (env_int env ''PER_TENANT_PRIORITY_MIN'' 10) (\<lambda>lo. bind_sum (env_int env ''PER_TENANT_PRIORITY_MAX'' 499) (\<lambda>hi.
     bind_sum (env_int env ''FAILOVER_WATCHDOG_MINUTES'' 30) (\<lambda>watchdog.
     bind_sum (env_int env ''MIGRATION_WATCHDOG_MINUTES'' 15) (\<lambda>migration.
     Inr (c\<lparr>has_tenants_table := True, has_audit_table := env_text_or env ''AUDIT_TABLE'' '''' \<noteq> [], audit_ttl_days := ttl,
       sns_topic_arn := env_text_or env ''SNS_TOPIC_ARN'' '''', cpu_overcommit := cpu, mem_overcommit := mem, max_vms_per_host := vms,
       az_failover_enabled := env_flag env ''AZ_FAILOVER_ENABLED'', az_unhealthy_minutes := unhealthy, az_cooldown_minutes := cooldown,
       assets_bucket := env_text_or env ''ASSETS_BUCKET'' '''', public_base_url := env_text_or env ''PUBLIC_BASE_URL'' '''',
       listener_arn := env_text_or env ''ALB_LISTENER_ARN'' '''', routing_mode := env_text_or env ''ROUTING_MODE'' ''per-tenant'',
       verify_consecutive_ok := verify, priority_min := lo, priority_max := hi, vpc_id := env_text_or env ''VPC_ID'' '''',
       failover_queue_url := env_text_or env ''FAILOVER_QUEUE_URL'' '''', failover_watchdog_minutes := watchdog,
       migration_watchdog_minutes := migration\<rparr>))))))))))))))"

text \<open>The settings of the scaler.\<close>

definition scaler_settings :: "cfg \<Rightarrow> environment \<Rightarrow> exn + cfg" where
  "scaler_settings c env =
     bind_sum (env_need env ''HOSTS_TABLE'') (\<lambda>_. bind_sum (env_int env ''AUDIT_TTL_DAYS'' 90) (\<lambda>ttl.
     bind_sum (env_need env ''ASG_NAME'') (\<lambda>_.
     bind_sum (bind_sum (env_need env ''IDLE_TIMEOUT_MINUTES'') (\<lambda>_. env_int env ''IDLE_TIMEOUT_MINUTES'' 0)) (\<lambda>idle.
     Inr (c\<lparr>has_tenants_table := env_text_or env ''TENANTS_TABLE'' '''' \<noteq> [],
       has_audit_table := env_text_or env ''AUDIT_TABLE'' '''' \<noteq> [], audit_ttl_days := ttl, idle_timeout_minutes := idle\<rparr>)))))"


text \<open>Settings read elsewhere in api/handler.py: the placement, and the variables read at every call.\<close>

definition placement_settings :: "cfg \<Rightarrow> environment \<Rightarrow> exn + cfg" where
  "placement_settings c env =
     bind_sum (env_int env ''PER_TENANT_PRIORITY_MIN'' 10) (\<lambda>lo. bind_sum (env_int env ''PER_TENANT_PRIORITY_MAX'' 499) (\<lambda>hi.
     bind_sum (env_int env ''HOST_PICK_TOP_K'' 8) (\<lambda>top_k. bind_sum (env_int env ''HOST_RESERVE_ATTEMPTS'' 3) (\<lambda>attempts.
     Inr (c\<lparr>priority_min := lo, priority_max := hi, host_pick_top_k := top_k, host_reserve_attempts := attempts\<rparr>)))))"

section \<open>One configuration\<close>

lemma collect_lookup:
  "collect rs = Inr env \<Longrightarrow> map_of env k = map_option projr (map_of rs k)"
  by (induction rs arbitrary: env rule: collect.induct) (auto simp: bind_sum_Inr)

lemma collect_all: "collect rs = Inr env \<Longrightarrow> map_of rs k = Some r \<Longrightarrow> \<exists>v. r = Inr v"
  by (induction rs arbitrary: env rule: collect.induct) (auto simp: bind_sum_Inr split: if_splits)

lemma add_env_lookup:
  "map_of (add_env vars env) k = (case map_of (rev vars) k of Some v \<Rightarrow> Some v | None \<Rightarrow> map_of env k)"
  unfolding add_env_def
  by (induction vars arbitrary: env) (auto simp: update_conv' map_add_def map_of_append split: option.splits)

text \<open>The variables all three Lambdas depend on.\<close>

definition shared_vars :: "string list" where
  "shared_vars = [''CPU_OVERCOMMIT_RATIO'', ''MEM_OVERCOMMIT_RATIO'', ''MAX_VMS_PER_HOST'', ''ALB_LISTENER_ARN'', ''VPC_ID'',
     ''ROUTING_MODE'', ''PER_TENANT_PRIORITY_MIN'', ''PER_TENANT_PRIORITY_MAX'']"

lemma optional_vars_names:
  "metrics_vars cfg rs = Inr vars \<Longrightarrow> map_of vars k \<noteq> None \<Longrightarrow> k \<in> {''AMP_REMOTE_WRITE_URL'', ''GRAFANA_WORKSPACE_URL''}"
  "agentcore_vars cfg rs = Inr vars \<Longrightarrow> map_of vars k \<noteq> None \<Longrightarrow> k \<in> {''AGENTCORE_ENABLED'', ''AGENTCORE_GATEWAY_URL''}"
  "cognito_vars cfg rs = Inr vars \<Longrightarrow> map_of vars k \<noteq> None \<Longrightarrow> k \<in> {''COGNITO_USER_POOL_ID'', ''COGNITO_CLIENT_ID''}"
  "verify_vars cfg = Inr vars \<Longrightarrow> map_of vars k \<noteq> None \<Longrightarrow> k \<in> {''VERIFY_CONSECUTIVE_OK''}"
  "routing_vars cfg = Inr vars \<Longrightarrow> map_of vars k \<noteq> None \<Longrightarrow> k \<in> {''ROUTING_MODE''}"
  by (auto simp: metrics_vars_def agentcore_vars_def cognito_vars_def verify_vars_def routing_vars_def bind_sum_Inr split: if_splits)


text \<open>What they hold, whichever Lambda has them.\<close>

definition shared_values :: "json \<Rightarrow> resources \<Rightarrow> (string \<times> env_text) list" where
  "shared_values cfg rs = [
     (''CPU_OVERCOMMIT_RATIO'', projr (as_text (cfg_item_or cfg ''host'' ''cpu_overcommit_ratio'' float_one))),
     (''MEM_OVERCOMMIT_RATIO'', projr (as_text (cfg_item_or cfg ''host'' ''mem_overcommit_ratio'' float_one))),
     (''MAX_VMS_PER_HOST'', projr (as_text (cfg_item_or cfg ''host'' ''max_vms_per_host'' (JInt 0)))),
     (''ALB_LISTENER_ARN'', Txt (rs_listener_arn rs)), (''VPC_ID'', Txt (rs_vpc_id rs)),
     (''ROUTING_MODE'', projr (bind_sum (cfg_get cfg ''routing'' ''mode'' (JStr ''per-tenant'')) plain_text))]"

definition holds_shared :: "json \<Rightarrow> resources \<Rightarrow> environment \<Rightarrow> bool" where
  "holds_shared cfg rs env = list_all (\<lambda>k. map_of env k = map_of (shared_values cfg rs) k) shared_vars"

lemma absent_rev: "map_of vars k = None \<Longrightarrow> map_of (rev vars) k = None"
  by (simp add: map_of_eq_None_iff)

lemma optional_absent:
  "metrics_vars cfg rs = Inr vars \<Longrightarrow> k \<in> set shared_vars \<Longrightarrow> map_of (rev vars) k = None"
  "agentcore_vars cfg rs = Inr vars \<Longrightarrow> k \<in> set shared_vars \<Longrightarrow> map_of (rev vars) k = None"
  "cognito_vars cfg rs = Inr vars \<Longrightarrow> k \<in> set shared_vars \<Longrightarrow> map_of (rev vars) k = None"
  "verify_vars cfg = Inr vars \<Longrightarrow> k \<in> set shared_vars \<Longrightarrow> map_of (rev vars) k = None"
  by (rule absent_rev; rule ccontr; drule (1) optional_vars_names; auto simp: shared_vars_def)+

lemma routing_vars_are:
  "routing_vars cfg = Inr vars \<Longrightarrow>
   vars = [(''ROUTING_MODE'', projr (bind_sum (cfg_get cfg ''routing'' ''mode'' (JStr ''per-tenant'')) plain_text))]"
  by (auto simp: routing_vars_def bind_sum_Inr)

lemma api_env_shared:
  assumes "api_env cfg rs = Inr env"
  shows "holds_shared cfg rs env"
proof -
  from assms obtain base metrics agentcore routing cognito where parts: "api_lambda_env cfg rs = Inr base"
    "metrics_vars cfg rs = Inr metrics" "agentcore_vars cfg rs = Inr agentcore" "routing_vars cfg = Inr routing"
    "cognito_vars cfg rs = Inr cognito"
    and env: "env = add_env ([(''HEALTH_CHECK_FUNCTION'', Txt (rs_health_function rs))] @ metrics @ agentcore @
       [(''ALB_LISTENER_ARN'', Txt (rs_listener_arn rs)), (''VPC_ID'', Txt (rs_vpc_id rs))] @ routing @ cognito) base"
    by (auto simp: api_env_def bind_sum_Inr)
  show ?thesis
    using optional_absent(1) [OF parts(2)] optional_absent(2) [OF parts(3)] optional_absent(3) [OF parts(5)]
    unfolding holds_shared_def shared_vars_def list.pred_inject
    by (simp add: env add_env_lookup map_add_def routing_vars_are [OF parts(4)] shared_values_def
        collect_lookup [OF parts(1) [unfolded api_lambda_env_def]])
qed

lemma health_env_shared:
  assumes "health_env cfg rs = Inr env"
  shows "holds_shared cfg rs env"
proof -
  from assms obtain base routing verify where parts: "health_lambda_env cfg rs = Inr base" "routing_vars cfg = Inr routing"
    "verify_vars cfg = Inr verify"
    and env: "env = add_env ([(''FAILOVER_QUEUE_URL'', Txt (rs_queue_url rs)), (''ALB_LISTENER_ARN'', Txt (rs_listener_arn rs)),
       (''VPC_ID'', Txt (rs_vpc_id rs)), (''PUBLIC_BASE_URL'', public_base rs)] @ routing @ verify) base"
    by (auto simp: health_env_def bind_sum_Inr)
  show ?thesis
    using optional_absent(4) [OF parts(3)]
    unfolding holds_shared_def shared_vars_def list.pred_inject
    by (simp add: env add_env_lookup map_add_def routing_vars_are [OF parts(2)] shared_values_def
        collect_lookup [OF parts(1) [unfolded health_lambda_env_def]])
qed

lemma worker_env_shared:
  assumes "worker_env cfg rs = Inr env"
  shows "holds_shared cfg rs env"
proof -
  from assms obtain base routing verify where parts: "worker_lambda_env cfg rs = Inr base" "routing_vars cfg = Inr routing"
    "verify_vars cfg = Inr verify"
    and env: "env = add_env ([(''VPC_ID'', Txt (rs_vpc_id rs)), (''ALB_LISTENER_ARN'', Txt (rs_listener_arn rs)),
       (''PUBLIC_BASE_URL'', public_base rs)] @ routing @ verify) base"
    by (auto simp: worker_env_def bind_sum_Inr)
  show ?thesis
    using optional_absent(4) [OF parts(3)]
    unfolding holds_shared_def shared_vars_def list.pred_inject
    by (simp add: env add_env_lookup map_add_def routing_vars_are [OF parts(2)] shared_values_def
        collect_lookup [OF parts(1) [unfolded worker_lambda_env_def]])
qed

text \<open>A ratio survives the way through the environment.\<close>

lemma strip_numeral: "\<forall>c \<in> set s. is_digit c \<or> c = CHR ''-'' \<Longrightarrow> strip s = s"
proof -
  have "is_digit c \<or> c = CHR ''-'' \<Longrightarrow> \<not> is_space c" for c
    by (auto simp: is_digit_def is_space_def char_code_def Let_def)
  then show "\<forall>c \<in> set s. is_digit c \<or> c = CHR ''-'' \<Longrightarrow> strip s = s"
    by (intro strip_no_space) (simp add: list_all_iff)
qed

lemma lower_numeral: "\<forall>c \<in> set s. is_digit c \<or> c = CHR ''-'' \<Longrightarrow> ascii_lower s = s"
  unfolding ascii_lower_def by (rule map_idI) (auto simp: is_digit_def char_code_def)

lemma decimal_digits: "decimal (show_nat n) = Some (float_of_int (int n))"
proof -
  have no_dot: "\<forall>c \<in> set (show_nat n). c \<noteq> CHR ''.''" by (auto dest!: show_nat_digits simp: is_digit_def char_code_def)
  then have "takeWhile (\<lambda>c. c \<noteq> CHR ''.'') (show_nat n) = show_nat n" "dropWhile (\<lambda>c. c \<noteq> CHR ''.'') (show_nat n) = []"
    by (simp_all add: takeWhile_eq_all_conv dropWhile_eq_Nil_conv)
  then have "split1 CHR ''.'' (show_nat n) = (show_nat n, [])" by (simp only: split1_def list.sel)
  moreover have "list_all is_digit (show_nat n)" by (auto simp: list_all_iff dest: show_nat_digits)
  ultimately show ?thesis by (simp add: decimal_def digits_val_show_nat)
qed

lemma float_of_minus: "float_of_int (- i) = (case float_of_int i of PyFloat m e \<Rightarrow> PyFloat (- m) e)"
  by (simp add: float_of_int_def round53_def Let_def sgn_minus)

lemma float_of_numeral: "float_text (show_int i) = Some (JFloat (float_of_int i))"
proof -
  have chars: "\<forall>c \<in> set (show_int i). is_digit c \<or> c = CHR ''-''" by (auto simp: show_int_def dest: show_nat_digits)
  then have same: "ascii_lower (strip (show_int i)) = show_int i" by (simp add: strip_numeral lower_numeral)
  obtain c r where n: "show_nat (nat i) = c # r" by (cases "show_nat (nat i)") simp_all
  have "is_digit c" using show_nat_digits [of c "nat i"] n by simp
  then have c: "c \<noteq> CHR ''-''" "c \<noteq> CHR ''+''" "c \<noteq> CHR ''i''" "c \<noteq> CHR ''n''" by (auto simp: is_digit_def char_code_def)
  obtain d q where m: "show_nat (nat (- i)) = d # q" by (cases "show_nat (nat (- i))") simp_all
  have "is_digit d" using show_nat_digits [of d "nat (- i)"] m by simp
  then have d: "d \<noteq> CHR ''i''" "d \<noteq> CHR ''n''" by (auto simp: is_digit_def char_code_def)
  show ?thesis
  proof (cases "i < 0")
    case True
    have "decimal (d # q) = Some (float_of_int (- i))" using decimal_digits [of "nat (- i)"] m True by simp
    moreover have "ascii_lower (strip (CHR ''-'' # d # q)) = CHR ''-'' # d # q" using same True m by (simp add: show_int_def)
    ultimately show ?thesis using True d float_of_minus [of "- i"]
      by (simp add: float_text_def show_int_def m Let_def split: pyfloat.splits)
  next
    case False
    have "decimal (c # r) = Some (float_of_int i)" using decimal_digits [of "nat i"] n False by simp
    moreover have "ascii_lower (strip (c # r)) = c # r" using same False n by (simp add: show_int_def)
    ultimately show ?thesis using False c by (simp add: float_text_def show_int_def n Let_def)
  qed
qed

lemma read_ratio:
  assumes "env_ratio env k = Inr x" "map_of env k = Some (py_str v)" "py_float v = Inr w"
  shows "w = JFloat x"
proof (cases v)
  case (JBool b)
  have "float_text ''True'' = None" "float_text ''False'' = None" by code_simp+
  then show ?thesis using assms JBool by (cases b) (simp_all add: env_ratio_def py_str_def json_str_def bind_sum_Inr)
next
  case (JInt i)
  then show ?thesis using assms
    by (auto simp: env_ratio_def py_str_def json_str_def float_of_numeral bind_sum_Inr split: if_splits)
next
  case (JInf n)
  have "float_text ''-inf'' = Some (JInf True)" "float_text ''inf'' = Some (JInf False)" by code_simp+
  then show ?thesis using assms JInf by (cases n) (simp_all add: env_ratio_def py_str_def json_str_def bind_sum_Inr)
next
  case JNaN
  have "float_text ''nan'' = Some JNaN" by code_simp
  then show ?thesis using assms JNaN by (simp add: env_ratio_def py_str_def json_str_def bind_sum_Inr)
next
  case (JStr s)
  then show ?thesis using assms
    by (auto simp: env_ratio_def py_str_def json_str_def bind_sum_Inr split: option.splits json.splits)
qed (use assms in \<open>auto simp: env_ratio_def py_str_def\<close>)

section \<open>Settings that agree\<close>

definition same_placement :: "cfg \<Rightarrow> cfg \<Rightarrow> bool" where
  "same_placement c d = (cpu_overcommit c = cpu_overcommit d \<and> mem_overcommit c = mem_overcommit d \<and>
     max_vms_per_host c = max_vms_per_host d \<and> listener_arn c = listener_arn d \<and> vpc_id c = vpc_id d \<and>
     routing_mode c = routing_mode d \<and> priority_min c = priority_min d \<and> priority_max c = priority_max d)"

text \<open>What placement and routing read from an environment.\<close>

definition placement_reading :: "environment \<Rightarrow> exn + pyfloat \<times> pyfloat \<times> int \<times> int \<times> int" where
  "placement_reading env = bind_sum (env_ratio env ''CPU_OVERCOMMIT_RATIO'') (\<lambda>cpu.
     bind_sum (env_ratio env ''MEM_OVERCOMMIT_RATIO'') (\<lambda>mem. bind_sum (env_count env ''MAX_VMS_PER_HOST'') (\<lambda>vms.
     bind_sum (env_int env ''PER_TENANT_PRIORITY_MIN'' 10) (\<lambda>lo. bind_sum (env_int env ''PER_TENANT_PRIORITY_MAX'' 499) (\<lambda>hi.
     Inr (cpu, mem, vms, lo, hi))))))"

definition placed_by :: "environment \<Rightarrow> cfg \<Rightarrow> bool" where
  "placed_by env c = (placement_reading env = Inr (cpu_overcommit c, mem_overcommit c, max_vms_per_host c, priority_min c, priority_max c) \<and>
     listener_arn c = env_text_or env ''ALB_LISTENER_ARN'' [] \<and> vpc_id c = env_text_or env ''VPC_ID'' [] \<and>
     routing_mode c = env_text_or env ''ROUTING_MODE'' ''per-tenant'')"

lemma api_placed_by:
  assumes "bind_sum (api_settings c0 env) (\<lambda>c. placement_settings c env) = Inr c"
  shows "placed_by env c" "balloon_enabled c = env_flag env ''BALLOON_ENABLED''"
  using assms by (auto simp: api_settings_def placement_settings_def placed_by_def placement_reading_def bind_sum_Inr)

lemma health_placed_by: "health_settings c0 env = Inr c \<Longrightarrow> placed_by env c"
  by (auto simp: health_settings_def placed_by_def placement_reading_def bind_sum_Inr)

lemma shared_lookup:
  "holds_shared cfg rs env \<Longrightarrow> holds_shared cfg rs env' \<Longrightarrow> k \<in> set shared_vars \<Longrightarrow> map_of env k = map_of env' k"
  by (simp add: holds_shared_def list_all_iff)

lemma shared_reading:
  assumes "holds_shared cfg rs env" "holds_shared cfg rs env'" "placed_by env c" "placed_by env' d"
  shows "same_placement c d"
proof -
  note same = shared_lookup [OF assms(1,2)]
  have "placement_reading env = placement_reading env'"
    unfolding placement_reading_def env_ratio_def env_count_def env_int_def
    using same [of "''CPU_OVERCOMMIT_RATIO''"] same [of "''MEM_OVERCOMMIT_RATIO''"] same [of "''MAX_VMS_PER_HOST''"]
      same [of "''PER_TENANT_PRIORITY_MIN''"] same [of "''PER_TENANT_PRIORITY_MAX''"] by (simp add: shared_vars_def)
  moreover have "env_text_or env k x = env_text_or env' k x" if "k \<in> set shared_vars" for k x
    using same [OF that] by (simp add: env_text_or_def)
  ultimately show ?thesis using assms(3,4) by (simp add: placed_by_def same_placement_def shared_vars_def)
qed

text \<open>A deployment as the API Lambda, the health check and the worker see it.\<close>

record deployed =
  dp_api :: cfg
  dp_health :: cfg
  dp_worker :: cfg

definition deploy_settings :: "json \<Rightarrow> resources \<Rightarrow> cfg \<Rightarrow> exn + deployed" where
  "deploy_settings raw rs c0 = bind_sum (normalize_config raw) (\<lambda>cfg.
     bind_sum (api_env cfg rs) (\<lambda>ea. bind_sum (health_env cfg rs) (\<lambda>eh. bind_sum (worker_env cfg rs) (\<lambda>ew.
     bind_sum (bind_sum (api_settings c0 ea) (\<lambda>c. placement_settings c ea)) (\<lambda>a.
     bind_sum (health_settings c0 eh) (\<lambda>h. bind_sum (health_settings c0 ew) (\<lambda>w.
     Inr \<lparr>dp_api = a, dp_health = h, dp_worker = w\<rparr>)))))))"

text \<open>The ratios and the mode are those of the normalised configuration.\<close>

lemma cfg_item_or_get: "cfg_item_or cfg s k d = Inr v \<Longrightarrow> cfg_get cfg s k d = Inr v"
  by (cases cfg) (auto simp: cfg_item_or_def cfg_get_def cfg_section_def get_or_def bind_sum_Inr split: option.splits)

lemma api_env_values:
  assumes "api_env cfg rs = Inr env"
  shows "\<exists>v. cfg_item_or cfg ''host'' ''cpu_overcommit_ratio'' float_one = Inr v \<and> map_of env ''CPU_OVERCOMMIT_RATIO'' = Some (py_str v)"
    "\<exists>v. cfg_item_or cfg ''host'' ''mem_overcommit_ratio'' float_one = Inr v \<and> map_of env ''MEM_OVERCOMMIT_RATIO'' = Some (py_str v)"
    "\<exists>m. bind_sum (cfg_get cfg ''routing'' ''mode'' (JStr ''per-tenant'')) plain_text = Inr m \<and> map_of env ''ROUTING_MODE'' = Some m"
proof -
  from assms obtain base routing where parts: "api_lambda_env cfg rs = Inr base" "routing_vars cfg = Inr routing"
    by (auto simp: api_env_def bind_sum_Inr)
  note all = collect_all [OF parts(1) [unfolded api_lambda_env_def]]
  have held: "map_of env k = map_of (shared_values cfg rs) k" if "k \<in> set shared_vars" for k
    using api_env_shared [OF assms] that by (simp add: holds_shared_def list_all_iff)
  show "\<exists>v. cfg_item_or cfg ''host'' ''cpu_overcommit_ratio'' float_one = Inr v \<and> map_of env ''CPU_OVERCOMMIT_RATIO'' = Some (py_str v)"
    using all [of "''CPU_OVERCOMMIT_RATIO''"] held [of "''CPU_OVERCOMMIT_RATIO''"]
    by (auto simp: shared_vars_def shared_values_def as_text_def bind_sum_Inr)
  show "\<exists>v. cfg_item_or cfg ''host'' ''mem_overcommit_ratio'' float_one = Inr v \<and> map_of env ''MEM_OVERCOMMIT_RATIO'' = Some (py_str v)"
    using all [of "''MEM_OVERCOMMIT_RATIO''"] held [of "''MEM_OVERCOMMIT_RATIO''"]
    by (auto simp: shared_vars_def shared_values_def as_text_def bind_sum_Inr)
  show "\<exists>m. bind_sum (cfg_get cfg ''routing'' ''mode'' (JStr ''per-tenant'')) plain_text = Inr m \<and> map_of env ''ROUTING_MODE'' = Some m"
    using parts(2) held [of "''ROUTING_MODE''"] by (auto simp: routing_vars_def shared_vars_def shared_values_def bind_sum_Inr)
qed

lemma deployed_ratio:
  assumes "placed_by env c" "api_env cfg rs = Inr env"
  shows "ratio_of ''cpu_overcommit_ratio'' cfg = Inr w \<Longrightarrow> w = JFloat (cpu_overcommit c)"
    "ratio_of ''mem_overcommit_ratio'' cfg = Inr w \<Longrightarrow> w = JFloat (mem_overcommit c)"
    "cfg_get cfg ''routing'' ''mode'' (JStr ''per-tenant'') = Inr (JStr r) \<Longrightarrow> routing_mode c = r"
proof -
  have read: "env_ratio env ''CPU_OVERCOMMIT_RATIO'' = Inr (cpu_overcommit c)" "env_ratio env ''MEM_OVERCOMMIT_RATIO'' = Inr (mem_overcommit c)"
    using assms(1) by (auto simp: placed_by_def placement_reading_def bind_sum_Inr)
  show "ratio_of ''cpu_overcommit_ratio'' cfg = Inr w \<Longrightarrow> w = JFloat (cpu_overcommit c)"
    using api_env_values(1) [OF assms(2)] read_ratio [OF read(1)] cfg_item_or_get by (fastforce simp: ratio_of_def bind_sum_Inr)
  show "ratio_of ''mem_overcommit_ratio'' cfg = Inr w \<Longrightarrow> w = JFloat (mem_overcommit c)"
    using api_env_values(2) [OF assms(2)] read_ratio [OF read(2)] cfg_item_or_get by (fastforce simp: ratio_of_def bind_sum_Inr)
  show "cfg_get cfg ''routing'' ''mode'' (JStr ''per-tenant'') = Inr (JStr r) \<Longrightarrow> routing_mode c = r"
    using api_env_values(3) [OF assms(2)] assms(1) by (auto simp: placed_by_def env_text_or_def plain_text_def text_of_def)
qed

text \<open>A variable that is not added later is as the function was given it.\<close>

definition added_vars :: "string list" where
  "added_vars = [''HEALTH_CHECK_FUNCTION'', ''AMP_REMOTE_WRITE_URL'', ''GRAFANA_WORKSPACE_URL'', ''AGENTCORE_ENABLED'',
     ''AGENTCORE_GATEWAY_URL'', ''ALB_LISTENER_ARN'', ''VPC_ID'', ''ROUTING_MODE'', ''COGNITO_USER_POOL_ID'', ''COGNITO_CLIENT_ID'']"

lemma api_env_kept:
  assumes "api_env cfg rs = Inr env" "k \<notin> set added_vars"
  obtains base where "api_lambda_env cfg rs = Inr base" "map_of env k = map_of base k"
proof -
  from assms(1) obtain base metrics agentcore routing cognito where parts: "api_lambda_env cfg rs = Inr base"
    "metrics_vars cfg rs = Inr metrics" "agentcore_vars cfg rs = Inr agentcore" "routing_vars cfg = Inr routing"
    "cognito_vars cfg rs = Inr cognito"
    and env: "env = add_env ([(''HEALTH_CHECK_FUNCTION'', Txt (rs_health_function rs))] @ metrics @ agentcore @
       [(''ALB_LISTENER_ARN'', Txt (rs_listener_arn rs)), (''VPC_ID'', Txt (rs_vpc_id rs))] @ routing @ cognito) base"
    by (auto simp: api_env_def bind_sum_Inr)
  have "map_of metrics k = None"
    using optional_vars_names(1) [OF parts(2), of k] assms(2) by (cases "map_of metrics k") (auto simp: added_vars_def)
  moreover have "map_of agentcore k = None"
    using optional_vars_names(2) [OF parts(3), of k] assms(2) by (cases "map_of agentcore k") (auto simp: added_vars_def)
  moreover have "map_of cognito k = None"
    using optional_vars_names(3) [OF parts(5), of k] assms(2) by (cases "map_of cognito k") (auto simp: added_vars_def)
  moreover have "map_of routing k = None"
    using optional_vars_names(5) [OF parts(4), of k] assms(2) by (cases "map_of routing k") (auto simp: added_vars_def)
  ultimately have "map_of env k = map_of base k"
    using assms(2) by (simp add: env add_env_lookup map_add_def absent_rev added_vars_def)
  then show thesis using that parts(1) by blast
qed

lemma api_env_balloon:
  assumes "api_env cfg rs = Inr env" "cfg_get cfg ''balloon'' ''enabled'' (JBool False) = Inr b"
  shows "map_of env ''BALLOON_ENABLED'' = Some (env_lower (py_str b))"
proof -
  have "''BALLOON_ENABLED'' \<notin> set added_vars" by (simp add: added_vars_def)
  then obtain base where base: "api_lambda_env cfg rs = Inr base" "map_of env ''BALLOON_ENABLED'' = map_of base ''BALLOON_ENABLED''"
    using api_env_kept [OF assms(1)] by blast
  show ?thesis by (simp add: base(2) collect_lookup [OF base(1) [unfolded api_lambda_env_def]] as_flag_def assms(2) bind_sum_def)
qed

lemma lower_true: "ascii_lower ''true'' = ''true''" "ascii_lower ''True'' = ''true''" "ascii_lower ''False'' = ''false''" "ascii_lower ''false'' = ''false''"
  by code_simp+

text \<open>A switch written as a boolean is the same switch in the Lambda.\<close>

lemma balloon_switch:
  assumes "api_env cfg rs = Inr env" "cfg_get cfg ''balloon'' ''enabled'' (JBool False) = Inr (JBool q)"
  shows "env_flag env ''BALLOON_ENABLED'' = q"
  using api_env_balloon [OF assms] lower_true
  by (cases q) (simp_all add: env_flag_def env_text_or_def py_str_def env_lower_def text_of_def json_str_def)

text \<open>
  C17. One configuration, one placement policy. When a configuration is accepted and the three Lambdas load,
  the API, the health check and the failover worker work with the same overcommit ratios, VM limit,
  listener, VPC, routing mode and priority window; no ratio exceeds 4, the routing mode is a known one, and
  if memory is promised more than once the balloon is on, in the API too when the switch is a boolean.
\<close>

theorem deployed_settings_agree:
  assumes "deploy_settings raw rs c0 = Inr d"
  shows "same_placement (dp_api d) (dp_health d) \<and> same_placement (dp_api d) (dp_worker d) \<and>
    routing_mode (dp_api d) \<in> set routing_modes \<and>
    \<not> fless ratio_ceiling (cpu_overcommit (dp_api d)) \<and> \<not> fless ratio_ceiling (mem_overcommit (dp_api d)) \<and>
    (fless one_float (mem_overcommit (dp_api d)) \<longrightarrow>
      (\<exists>b. cfg_get raw ''balloon'' ''enabled'' (JBool False) = Inr b \<and> truthy b \<and>
        (\<forall>q. b = JBool q \<longrightarrow> balloon_enabled (dp_api d))))"
proof -
  from assms obtain cfg ea eh ew where parts: "normalize_config raw = Inr cfg" "api_env cfg rs = Inr ea" "health_env cfg rs = Inr eh"
    "worker_env cfg rs = Inr ew" "bind_sum (api_settings c0 ea) (\<lambda>c. placement_settings c ea) = Inr (dp_api d)"
    "health_settings c0 eh = Inr (dp_health d)" "health_settings c0 ew = Inr (dp_worker d)"
    by (auto simp: deploy_settings_def bind_sum_Inr)
  note api = api_placed_by [OF parts(5)]
  have agree: "same_placement (dp_api d) (dp_health d)" "same_placement (dp_api d) (dp_worker d)"
    using shared_reading [OF api_env_shared [OF parts(2)] health_env_shared [OF parts(3)] api(1) health_placed_by [OF parts(6)]]
      shared_reading [OF api_env_shared [OF parts(2)] worker_env_shared [OF parts(4)] api(1) health_placed_by [OF parts(7)]] by simp_all
  obtain cpu mem b r where sound: "ratio_of ''cpu_overcommit_ratio'' cfg = Inr cpu" "\<not> above cpu ratio_ceiling"
    "ratio_of ''mem_overcommit_ratio'' cfg = Inr mem" "\<not> above mem ratio_ceiling"
    "cfg_get cfg ''balloon'' ''enabled'' (JBool False) = Inr b" "above mem one_float \<longrightarrow> truthy b"
    "cfg_get cfg ''routing'' ''mode'' (JStr ''per-tenant'') = Inr (JStr r)" "r \<in> set routing_modes"
    using normalize_sound [OF parts(1)] by (auto simp: sound_config_def)
  note held = deployed_ratio [OF api(1) parts(2)]
  have "cfg_get raw ''balloon'' ''enabled'' (JBool False) = Inr b"
    using same_settingsD [OF normalize_same [OF parts(1)], of "''balloon''" "''enabled''"] sound(5) by simp
  moreover have "balloon_enabled (dp_api d)" if "truthy b" "b = JBool q" for q
    using balloon_switch [OF parts(2)] sound(5) api(2) that by simp
  ultimately have on: "\<exists>b. cfg_get raw ''balloon'' ''enabled'' (JBool False) = Inr b \<and> truthy b \<and> (\<forall>q. b = JBool q \<longrightarrow> balloon_enabled (dp_api d))"
    if "truthy b" using that by blast
  have ratios: "\<not> fless ratio_ceiling (cpu_overcommit (dp_api d))" "\<not> fless ratio_ceiling (mem_overcommit (dp_api d))"
    "fless one_float (mem_overcommit (dp_api d)) \<longrightarrow> truthy b"
    using sound(2,4,6) unfolding held(1) [OF sound(1)] held(2) [OF sound(3)] by simp_all
  show ?thesis using agree ratios on sound(8) unfolding held(3) [OF sound(7)] by blast
qed

text \<open>A configuration that overcommits both, with quoted ratios, as it is deployed.\<close>

definition shared_config :: json where
  "shared_config = JObj [
     (''s3'', JObj [(''rootfs_prefix'', JStr ''rootfs''), (''backup_prefix'', JStr ''backups'')]),
     (''host'', JObj [(''reserved_vcpu'', JInt 1), (''reserved_mem_mb'', JInt 2048), (''cpu_overcommit_ratio'', JInt 8),
       (''mem_overcommit_ratio'', JStr ''1.5''), (''max_vms_per_host'', JInt 12)]),
     (''vm'', JObj [(''default_vcpu'', JInt 2), (''default_mem_mb'', JInt 4096), (''data_disk_mb'', JInt 2048),
       (''gateway_port_base'', JInt 18789), (''subnet_prefix'', JStr ''172.16'')]),
     (''balloon'', JObj [(''enabled'', JBool True)]), (''routing'', JObj [(''mode'', JStr ''host-tg'')]),
     (''audit'', JObj [(''retention_days'', JInt 30)])]"

definition shared_resources :: resources where
  "shared_resources = \<lparr>rs_tenants_table = ''tenants'', rs_hosts_table = ''hosts'', rs_groups_table = ''groups'', rs_audit_table = ''audit'',
     rs_bucket = ''assets'', rs_topic_arn = ''arn:topic'', rs_health_function = ''health'', rs_queue_url = ''https://queue'',
     rs_listener_arn = ''arn:listener'', rs_vpc_id = ''vpc-1'', rs_alb_dns = ''lb.local'', rs_gateway_url = '''',
     rs_remote_write_url = '''', rs_grafana_url = '''', rs_pool_id = ''pool'', rs_client_id = ''client'', rs_version = ''1.0''\<rparr>"

text \<open>The environment of the API Lambda is written out: each step is evaluated on its own.\<close>

definition shared_api_base :: environment where
  "shared_api_base = [(''TENANTS_TABLE'', Txt ''tenants''), (''HOSTS_TABLE'', Txt ''hosts''), (''GROUPS_TABLE'', Txt ''groups''),
     (''AUDIT_TABLE'', Txt ''audit''), (''AUDIT_TTL_DAYS'', Txt ''30''), (''ASSETS_BUCKET'', Txt ''assets''),
     (''NOTIFICATIONS_TOPIC_ARN'', Txt []), (''ROOTFS_PREFIX'', Txt ''rootfs''), (''HOST_RESERVED_VCPU'', Txt ''1''),
     (''HOST_RESERVED_MEM'', Txt ''2048''), (''CPU_OVERCOMMIT_RATIO'', FloatText (PyFloat 4 0)),
     (''MEM_OVERCOMMIT_RATIO'', Txt ''1.5''), (''MAX_VMS_PER_HOST'', Txt ''12''), (''VM_DEFAULT_VCPU'', Txt ''2''),
     (''VM_DEFAULT_MEM'', Txt ''4096''), (''VM_DATA_DISK_MB'', Txt ''2048''), (''VM_PORT_BASE'', Txt ''18789''),
     (''VM_SUBNET_PREFIX'', Txt ''172.16''), (''ASG_NAME'', Txt ''openclaw-hosts-asg''), (''BACKUP_PREFIX'', Txt ''backups''),
     (''QUOTAS_ENABLED'', Txt ''false''), (''QUOTAS_MAX_VCPU'', Txt ''0''), (''QUOTAS_MAX_MEM_MB'', Txt ''0''),
     (''QUOTAS_MAX_DATA_DISK_MB'', Txt ''0''), (''MULTI_AZ_ENABLED'', Txt ''false''), (''MULTI_AZ_COUNT'', Txt ''1''),
     (''WAF_ENABLED'', Txt ''false''), (''BALLOON_ENABLED'', Txt ''true''), (''BALLOON_MIGRATE_MODE'', Txt ''cold''),
     (''CONSOLE_AUTH_ENABLED'', Txt ''false''), (''DEFAULT_NO_JWT_ROLE'', Txt ''viewer''), (''RBAC_ENABLED'', Txt ''false''),
     (''PROJECT_VERSION'', Txt ''1.0'')]"

definition shared_normal :: json where
  "shared_normal = projr (normalize_config shared_config)"

lemma shared_base: "api_lambda_env shared_normal shared_resources = Inr shared_api_base"
proof -
  have normal: "shared_normal = JObj [
     (''s3'', JObj [(''rootfs_prefix'', JStr ''rootfs''), (''backup_prefix'', JStr ''backups'')]),
     (''host'', JObj [(''reserved_vcpu'', JInt 1), (''reserved_mem_mb'', JInt 2048), (''cpu_overcommit_ratio'', JFloat ratio_ceiling),
       (''mem_overcommit_ratio'', JStr ''1.5''), (''max_vms_per_host'', JInt 12)]),
     (''vm'', JObj [(''default_vcpu'', JInt 2), (''default_mem_mb'', JInt 4096), (''data_disk_mb'', JInt 2048),
       (''gateway_port_base'', JInt 18789), (''subnet_prefix'', JStr ''172.16'')]),
     (''balloon'', JObj [(''enabled'', JBool True)]), (''routing'', JObj [(''mode'', JStr ''host-tg'')]),
     (''audit'', JObj [(''retention_days'', JInt 30)])]" by code_simp
  have digits: "digit_char 0 = CHR ''0''" "digit_char 1 = CHR ''1''" "digit_char 2 = CHR ''2''" "digit_char 3 = CHR ''3''"
    "digit_char 4 = CHR ''4''" "digit_char 6 = CHR ''6''" "digit_char 7 = CHR ''7''" "digit_char 8 = CHR ''8''" "digit_char 9 = CHR ''9''"
    by code_simp+
  have numbers: "show_int 30 = ''30''" "show_int 1 = ''1''" "show_int 2048 = ''2048''" "show_int 12 = ''12''" "show_int 2 = ''2''"
    "show_int 4096 = ''4096''" "show_int 18789 = ''18789''" "show_int 0 = ''0''"
    by (simp_all add: show_int_def show_nat.simps digits digits(2) [unfolded One_nat_def])
  have words: "ascii_lower ''True'' = ''true''" "ascii_lower ''False'' = ''false''" "ascii_lower ''cold'' = ''cold''" "ratio_ceiling = PyFloat 4 0"
    by code_simp+
  show ?thesis unfolding normal
    by (simp add: api_lambda_env_def bind_sum_def as_text_def as_flag_def cfg_item_def cfg_item_or_def cfg_get_def cfg_section_def
        get_or_def cfg_or_get_def section_or_empty_def audit_retention_days_def notifications_topic_arn_def plain_text_def py_str_def
        env_lower_def json_str_def numbers words shared_resources_def shared_api_base_def)
qed

lemma shared_parts:
  "metrics_vars shared_normal shared_resources = Inr []" "agentcore_vars shared_normal shared_resources = Inr []"
  "cognito_vars shared_normal shared_resources = Inr []" "routing_vars shared_normal = Inr [(''ROUTING_MODE'', Txt ''host-tg'')]"
  by code_simp+

definition shared_api_env :: environment where
  "shared_api_env = add_env [(''HEALTH_CHECK_FUNCTION'', Txt ''health''), (''ALB_LISTENER_ARN'', Txt ''arn:listener''),
     (''VPC_ID'', Txt ''vpc-1''), (''ROUTING_MODE'', Txt ''host-tg'')] shared_api_base"

lemma shared_api: "api_env shared_normal shared_resources = Inr shared_api_env"
  unfolding api_env_def shared_base shared_parts bind_sum_def shared_api_env_def
  by (simp add: shared_resources_def)

lemma shared_api_loads: "\<exists>c. bind_sum (api_settings cfg0 shared_api_env) (\<lambda>c. placement_settings c shared_api_env) = Inr c"
proof -
  have "isl (bind_sum (api_settings cfg0 shared_api_env) (\<lambda>c. placement_settings c shared_api_env)) = False" by code_simp
  then show ?thesis by (cases "bind_sum (api_settings cfg0 shared_api_env) (\<lambda>c. placement_settings c shared_api_env)") auto
qed

lemma shared_others:
  "isl (bind_sum (health_env shared_normal shared_resources) (health_settings cfg0)) = False"
  "isl (bind_sum (worker_env shared_normal shared_resources) (health_settings cfg0)) = False"
  by code_simp+

lemma shared_deploys: "\<exists>d. deploy_settings shared_config shared_resources cfg0 = Inr d"
proof -
  have "isl (normalize_config shared_config) = False" by code_simp
  then have "normalize_config shared_config = Inr shared_normal" by (simp add: shared_normal_def)
  then show ?thesis using shared_api shared_api_loads shared_others
    unfolding deploy_settings_def bind_sum_def by (auto split: sum.splits)
qed

theorem deployed_settings_agree_witness:
  "\<exists>d. deploy_settings shared_config shared_resources cfg0 = Inr d \<and>
    same_placement (dp_api d) (dp_health d) \<and> same_placement (dp_api d) (dp_worker d) \<and> routing_mode (dp_api d) \<in> set routing_modes"
  using shared_deploys deployed_settings_agree by blast

text \<open>
  The retention of the audit log is not given to the health check and to the worker: their entries live 90
  days whatever the configuration says, while those of the API live as long as configured.
\<close>

lemma retention_ignored:
  assumes "health_env cfg rs = Inr eh" "health_settings c0 eh = Inr ch" "worker_env cfg rs = Inr ew" "health_settings c0 ew = Inr cw"
  shows "audit_ttl_days ch = 90" "audit_ttl_days cw = 90"
proof -
  have unset: "map_of eh ''AUDIT_TTL_DAYS'' = None" "map_of ew ''AUDIT_TTL_DAYS'' = None"
    using assms(1,3)
    by (auto simp: health_env_def worker_env_def bind_sum_Inr add_env_lookup map_add_def routing_vars_def verify_vars_def
        health_lambda_env_def worker_lambda_env_def collect_lookup)
  then show "audit_ttl_days ch = 90" "audit_ttl_days cw = 90"
    using assms(2,4) by (auto simp: health_settings_def bind_sum_Inr env_int_def)
qed

end
