(* ===== verification/HostImage.thy ===== *)
theory HostImage
  imports Settings
begin

text \<open>
  What the stack bakes into a host (\<open>_build_multi_az\<close> of deploy/stack.py): the capacity derived from the
  instance type, and the start-up script, a template whose placeholders are replaced one after the other and
  which is then split around the name of the bucket. The replacements are compared with filling every
  placeholder at once, and the capacity with the one the API registers for the same host.
\<close>

section \<open>Replacing and splitting\<close>

text \<open>\<open>s.replace(pat, new)\<close> and \<open>s.split(pat)\<close> for a text \<open>pat\<close> that is not empty.\<close>

function replace_all :: "string \<Rightarrow> string \<Rightarrow> string \<Rightarrow> string" where
  "replace_all pat new [] = []"
| "replace_all pat new (c # s) = (if pat \<noteq> [] \<and> prefix pat (c # s) then new @ replace_all pat new (drop (length pat) (c # s))
     else c # replace_all pat new s)"
  by pat_completeness auto
termination by (relation "measure (\<lambda>(pat, new, s). length s)") (auto simp: neq_Nil_conv)

function split_text :: "string \<Rightarrow> string \<Rightarrow> string list" where
  "split_text pat [] = [[]]"
| "split_text pat (c # s) = (if pat \<noteq> [] \<and> prefix pat (c # s) then [] # split_text pat (drop (length pat) (c # s))
     else (case split_text pat s of [] \<Rightarrow> [[c]] | w # ws \<Rightarrow> (c # w) # ws))"
  by pat_completeness auto
termination by (relation "measure (\<lambda>(pat, s). length s)") (auto simp: neq_Nil_conv)

text \<open>The loop that puts the value between the parts.\<close>

definition join_around :: "string \<Rightarrow> string list \<Rightarrow> string list" where
  "join_around v parts = hd parts # concat (map (\<lambda>p. [v, p]) (tl parts))"

section \<open>Capacity of a host\<close>

definition host_section :: "json \<Rightarrow> exn + json" where
  "host_section cfg = section_or_empty cfg ''host''"

text \<open>The instance type, with a default for the architecture.\<close>

definition default_type :: "json \<Rightarrow> exn + json" where
  "default_type cfg = bind_sum (host_section cfg) (\<lambda>h. bind_sum (get_or h ''arch'' JNull) (\<lambda>arch.
     Inr (JStr (if arch = JStr ''arm64'' then ''m8g.xlarge'' else ''m8i.xlarge''))))"

definition instance_type :: "json \<Rightarrow> exn + json" where
  "instance_type cfg = bind_sum (default_type cfg) (\<lambda>d. bind_sum (host_section cfg) (\<lambda>h.
     bind_sum (get_or h ''instance_type'' JNull) (\<lambda>t. Inr (if truthy t then t else d))))"

definition host_sizes :: "(string \<times> int) list" where
  "host_sizes = [(''medium'', 1), (''large'', 2), (''xlarge'', 4), (''2xlarge'', 8), (''4xlarge'', 16), (''8xlarge'', 32),
     (''12xlarge'', 48), (''16xlarge'', 64), (''24xlarge'', 96)]"

definition host_mem_ratio :: "(char \<times> int) list" where
  "host_mem_ratio = [(CHR ''c'', 2048), (CHR ''m'', 4096), (CHR ''r'', 8192)]"

definition dict_need :: "('k \<times> 'v) list \<Rightarrow> 'k \<Rightarrow> string \<Rightarrow> exn + 'v" where
  "dict_need d k text = (case map_of d k of None \<Rightarrow> Inl (key_error text) | Some v \<Rightarrow> Inr v)"

definition index_error :: exn where
  "index_error = PyError IndexError ''list index out of range''"

definition type_parts :: "json \<Rightarrow> exn + string list" where
  "type_parts v = (case v of JStr s \<Rightarrow> Inr (split_on CHR ''.'' s)
     | _ \<Rightarrow> Inl (no_attribute v ''split''))"

definition vcpu_total :: "json \<Rightarrow> exn + int" where
  "vcpu_total cfg = bind_sum (instance_type cfg) (\<lambda>t. bind_sum (type_parts t) (\<lambda>ps.
     if length ps < 2 then Inl index_error else dict_need host_sizes (ps ! 1) (ps ! 1)))"

definition mem_total :: "json \<Rightarrow> exn + int" where
  "mem_total cfg = bind_sum (vcpu_total cfg) (\<lambda>n. bind_sum (instance_type cfg) (\<lambda>t. bind_sum (type_parts t) (\<lambda>ps.
     (case ps of (c # _) # _ \<Rightarrow> bind_sum (dict_need host_mem_ratio c [c]) (\<lambda>m. Inr (n * m))
       | _ \<Rightarrow> Inl (PyError IndexError ''string index out of range'')))))"

text \<open>\<open>n - CFG[\"host\"][k]\<close>; a reserve that is a float is not modelled and fails here.\<close>

definition minus_reserved :: "int \<Rightarrow> json \<Rightarrow> exn + int" where
  "minus_reserved n v = (case v of JInt r \<Rightarrow> Inr (n - r) | JBool b \<Rightarrow> Inr (n - (if b then 1 else 0))
     | _ \<Rightarrow> Inl (PyError TypeError (''unsupported operand type(s) for -: 'int' and '' @ quoted (type_name v))))"

definition host_capacity :: "json \<Rightarrow> exn + int \<times> int" where
  "host_capacity cfg = bind_sum (vcpu_total cfg) (\<lambda>v. bind_sum (mem_total cfg) (\<lambda>m.
     bind_sum (bind_sum (cfg_item cfg ''host'' ''reserved_vcpu'') (minus_reserved v)) (\<lambda>avail_vcpu.
     bind_sum (bind_sum (cfg_item cfg ''host'' ''reserved_mem_mb'') (minus_reserved m)) (\<lambda>avail_mem.
     Inr (avail_vcpu, avail_mem)))))"

section \<open>The start-up script\<close>

text \<open>
  The two files the script is made from, the address range of the network, and how \<open>str\<close> prints a float;
  the URLs and the bucket are among the resources.
\<close>

record host_inputs =
  hi_init_sh :: string
  hi_agent_service :: string
  hi_vpc_cidr :: string
  hi_float :: "pyfloat \<Rightarrow> string"

definition str_of :: "host_inputs \<Rightarrow> json \<Rightarrow> string" where
  "str_of hi v = (case v of JFloat x \<Rightarrow> hi_float hi x | _ \<Rightarrow> json_str v)"

text \<open>A value given to \<open>replace\<close> as it is has to be text.\<close>

definition need_str :: "json \<Rightarrow> exn + string" where
  "need_str v = (case v of JStr s \<Rightarrow> Inr s
     | _ \<Rightarrow> Inl (PyError TypeError (''replace() argument 2 must be str, not '' @ type_name v)))"

definition remote_write_url :: "json \<Rightarrow> resources \<Rightarrow> exn + string" where
  "remote_write_url cfg rs = bind_sum (cfg_get cfg ''metrics'' ''enabled'' (JBool False)) (\<lambda>on.
     Inr (if truthy on then rs_remote_write_url rs else ''none''))"

definition balloon_text :: "host_inputs \<Rightarrow> json \<Rightarrow> string \<Rightarrow> json \<Rightarrow> exn + string" where
  "balloon_text hi cfg k d = bind_sum (cfg_get cfg ''balloon'' k d) (\<lambda>v. Inr (str_of hi v))"

definition balloon_flag :: "host_inputs \<Rightarrow> json \<Rightarrow> string \<Rightarrow> bool \<Rightarrow> exn + string" where
  "balloon_flag hi cfg k d = bind_sum (balloon_text hi cfg k (JBool d)) (\<lambda>s. Inr (ascii_lower s))"

definition hole :: "string \<Rightarrow> string" where
  "hole n = ''{{'' @ n @ ''}}''"

definition bucket_name :: string where
  "bucket_name = ''ASSETS_BUCKET''"

definition backup_script :: string where
  "backup_script = ''aws s3 cp s3://'' @ hole bucket_name @
     ''/deployment/scripts/backup-data.sh /home/ubuntu/backup-data.sh --region ${REGION}'' @ [newline] @
     ''chmod +x /home/ubuntu/backup-data.sh && chown ubuntu:ubuntu /home/ubuntu/backup-data.sh''"

definition agent_script :: "string \<Rightarrow> string" where
  "agent_script service = ''cat > /etc/systemd/system/host-agent.service << '' @ quoted ''SVCEOF'' @ [newline] @ service @ ''SVCEOF''"

text \<open>The replacements, in the order of the source.\<close>

definition host_replacements :: "host_inputs \<Rightarrow> resources \<Rightarrow> json \<Rightarrow> exn + (string \<times> string) list" where
  "host_replacements hi rs cfg = bind_sum (host_capacity cfg) (\<lambda>(avail_vcpu, avail_mem). collect [
     (''ROOTFS_PREFIX'', bind_sum (cfg_item cfg ''s3'' ''rootfs_prefix'') need_str),
     (''AVAIL_VCPU'', Inr (show_int avail_vcpu)), (''AVAIL_MEM'', Inr (show_int avail_mem)),
     (''SUBNET_PREFIX'', bind_sum (cfg_item cfg ''vm'' ''subnet_prefix'') need_str),
     (''VPC_CIDR'', Inr (hi_vpc_cidr hi)),
     (''ROOTFS_OVERLAY_MB'', bind_sum (cfg_item_or cfg ''vm'' ''rootfs_overlay_mb'' (JInt 8192)) (\<lambda>v. Inr (str_of hi v))),
     (''AGENTCORE_GATEWAY_URL'', bind_sum (gateway_url cfg rs) (\<lambda>u. Inr (if u = [] then ''none'' else u))),
     (''AMP_REMOTE_WRITE_URL'', remote_write_url cfg rs),
     (''BALLOON_ENABLED'', balloon_flag hi cfg ''enabled'' False),
     (''BALLOON_DEFLATE_ON_OOM'', balloon_flag hi cfg ''deflate_on_oom'' True),
     (''BALLOON_STATS_INTERVAL'', balloon_text hi cfg ''stats_polling_interval_s'' (JInt 5)),
     (''BALLOON_FREE_PAGE_REPORTING'', balloon_flag hi cfg ''free_page_reporting'' True),
     (''BALLOON_MAX_INFLATE_RATIO'', balloon_text hi cfg ''max_inflate_ratio'' (JFloat (fdiv (float_of_int 4) (float_of_int 10)))),
     (''BALLOON_MIN_GUEST_AVAILABLE_MB'', balloon_text hi cfg ''min_guest_available_mb'' (JInt 512)),
     (''BACKUP_DATA_SCRIPT'', Inr backup_script),
     (''HOST_AGENT_SCRIPT'', Inr (agent_script (hi_agent_service hi)))])"

definition placeholder_bucket :: string where
  "placeholder_bucket = ''PLACEHOLDER_BUCKET''"

definition apply_replacements :: "(string \<times> string) list \<Rightarrow> string \<Rightarrow> string" where
  "apply_replacements reps s = fold (\<lambda>(n, v). replace_all (hole n) v) reps s"

text \<open>The commands of the user data: the parts joined around the name of the bucket.\<close>

definition user_data :: "host_inputs \<Rightarrow> resources \<Rightarrow> json \<Rightarrow> exn + string" where
  "user_data hi rs cfg = bind_sum (host_replacements hi rs cfg) (\<lambda>reps.
     let init_sh = replace_all (hole bucket_name) placeholder_bucket (apply_replacements reps (hi_init_sh hi));
       parts = split_text placeholder_bucket init_sh
     in Inr (concat (join_around (rs_bucket rs) parts)))"

section \<open>Splitting and joining is replacing\<close>

lemma split_text_nonempty [simp]: "split_text pat s \<noteq> []"
  by (induction pat s rule: split_text.induct) (auto split: list.splits)

lemma join_around_cons: "ps \<noteq> [] \<Longrightarrow> concat (join_around v ([] # ps)) = v @ concat (join_around v ps)"
  by (cases ps) (auto simp: join_around_def)

lemma split_then_join: "pat \<noteq> [] \<Longrightarrow> concat (join_around v (split_text pat s)) = replace_all pat v s"
proof (induction pat s rule: split_text.induct)
  case (1 pat)
  then show ?case by (simp add: join_around_def)
next
  case (2 pat c s)
  show ?case
  proof (cases "prefix pat (c # s)")
    case True
    then show ?thesis using 2 by (simp add: join_around_cons)
  next
    case False
    then have "concat (join_around v (split_text pat s)) = replace_all pat v s" using 2 by blast
    then show ?thesis using False by (cases "split_text pat s") (auto simp: join_around_def)
  qed
qed

lemma replace_step: "\<not> prefix pat (c # s) \<Longrightarrow> replace_all pat v (c # s) = c # replace_all pat v s"
  by simp

lemma replace_self: "pat \<noteq> [] \<Longrightarrow> replace_all pat v (pat @ s) = v @ replace_all pat v s"
proof -
  assume "pat \<noteq> []"
  then obtain c r where p: "pat = c # r" by (cases pat) auto
  have "replace_all pat v (c # (r @ s)) = v @ replace_all pat v (drop (length pat) (c # (r @ s)))"
    by (subst replace_all.simps(2)) (simp add: p)
  then show ?thesis by (simp add: p)
qed

section \<open>Templates\<close>

text \<open>A script as it is meant: text with named places to fill in.\<close>

datatype piece = Lit string | Hole string

fun piece_text :: "piece \<Rightarrow> string" where
  "piece_text (Lit l) = l"
| "piece_text (Hole n) = hole n"

definition flat :: "piece list \<Rightarrow> string" where
  "flat ps = concat (map piece_text ps)"

definition hole_names :: "piece list \<Rightarrow> string list" where
  "hole_names ps = List.map_filter (\<lambda>p. case p of Lit l \<Rightarrow> None | Hole n \<Rightarrow> Some n) ps"

text \<open>Text in which no placeholder can begin, whatever follows it.\<close>

fun brace_calm :: "string \<Rightarrow> bool" where
  "brace_calm [] = True"
| "brace_calm [c] = (c \<noteq> CHR ''{'')"
| "brace_calm (c # d # s) = (\<not> (c = CHR ''{'' \<and> d = CHR ''{'') \<and> brace_calm (d # s))"

fun good_piece :: "piece \<Rightarrow> bool" where
  "good_piece (Lit l) = brace_calm l"
| "good_piece (Hole n) = (CHR ''{'' \<notin> set n \<and> CHR ''}'' \<notin> set n)"

lemma flat_simps [simp]: "flat [] = []" "flat (p # ps) = piece_text p @ flat ps" "flat (ps @ qs) = flat ps @ flat qs"
  by (simp_all add: flat_def)

lemma hole_names_simps [simp]: "hole_names [] = []" "hole_names (Lit l # ps) = hole_names ps"
  "hole_names (Hole n # ps) = n # hole_names ps" "hole_names (ps @ qs) = hole_names ps @ hole_names qs"
  by (simp_all add: hole_names_def map_filter_def)

lemma brace_calm_append: "brace_calm a \<Longrightarrow> brace_calm b \<Longrightarrow> brace_calm (a @ b)"
  by (induction a rule: brace_calm.induct) (auto, cases b, auto)

lemma brace_calm_no_brace: "CHR ''{'' \<notin> set s \<Longrightarrow> brace_calm s"
  by (induction s rule: brace_calm.induct) auto

lemma brace_calm_skip:
  assumes "prefix ''{{'' pat"
  shows "brace_calm l \<Longrightarrow> replace_all pat v (l @ s) = l @ replace_all pat v s"
proof (induction l rule: brace_calm.induct)
  case (2 c)
  then show ?case using assms by (auto simp: prefix_def)
next
  case (3 c d l)
  then have "\<not> prefix pat (c # d # l @ s)" using assms by (auto simp: prefix_def)
  then show ?case using 3 by simp
qed simp

lemma brace_calm_tail: "CHR ''{'' \<notin> set m \<Longrightarrow> brace_calm (CHR ''{'' # m @ ''}}'')"
proof -
  assume "CHR ''{'' \<notin> set m"
  then have "brace_calm (m @ ''}}'')" by (intro brace_calm_no_brace) simp
  moreover have "hd (m @ ''}}'') \<noteq> CHR ''{''" using \<open>CHR ''{'' \<notin> set m\<close> by (cases m) auto
  ultimately show ?thesis by (cases "m @ ''}}''") auto
qed

lemma same_name:
  assumes "CHR ''}'' \<notin> set n" "CHR ''}'' \<notin> set m" "prefix (hole n) (hole m @ s)"
  shows "n = m"
proof -
  from assms(3) obtain t where eq: "n @ ''}}'' @ t = m @ ''}}'' @ s" by (auto simp: hole_def prefix_def)
  have "takeWhile (\<lambda>c. c \<noteq> CHR ''}'') (k @ ''}}'' @ r) = k" if "CHR ''}'' \<notin> set k" for k r
    using that by (induction k) auto
  then show ?thesis using assms(1,2) arg_cong [OF eq, of "takeWhile (\<lambda>c. c \<noteq> CHR ''}'')"] by metis
qed

lemma replace_own_hole: "replace_all (hole n) v (hole n @ s) = v @ replace_all (hole n) v s"
  by (rule replace_self) (simp add: hole_def)

lemma replace_other_hole:
  assumes "n \<noteq> m" "good_piece (Hole n)" "good_piece (Hole m)"
  shows "replace_all (hole n) v (hole m @ s) = hole m @ replace_all (hole n) v s"
proof -
  have "\<not> prefix (hole n) (hole m @ s)" using same_name [of n m s] assms by auto
  moreover have "hole m @ s = CHR ''{'' # ((CHR ''{'' # m @ ''}}'') @ s)" by (simp add: hole_def)
  ultimately have "replace_all (hole n) v (hole m @ s) = CHR ''{'' # replace_all (hole n) v ((CHR ''{'' # m @ ''}}'') @ s)" by simp
  also have "\<dots> = CHR ''{'' # (CHR ''{'' # m @ ''}}'') @ replace_all (hole n) v s"
    using brace_calm_skip [of "hole n" "CHR ''{'' # m @ ''}}''" v s] brace_calm_tail [of m] assms(3) by (simp add: hole_def)
  finally show ?thesis by (simp add: hole_def)
qed

text \<open>Replacing a placeholder is filling its holes.\<close>

definition fill :: "string \<Rightarrow> piece list \<Rightarrow> piece list \<Rightarrow> piece list" where
  "fill n q ps = concat (map (\<lambda>p. if p = Hole n then q else [p]) ps)"

lemma fill_simps [simp]: "fill n q [] = []" "fill n q (p # ps) = (if p = Hole n then q else [p]) @ fill n q ps"
  by (simp_all add: fill_def)

lemma replace_flat:
  assumes "list_all good_piece ps" "good_piece (Hole n)"
  shows "replace_all (hole n) (flat q) (flat ps) = flat (fill n q ps)"
  using assms(1)
proof (induction ps)
  case (Cons p ps)
  show ?case
  proof (cases p)
    case (Lit l)
    moreover have "prefix ''{{'' (hole n)" by (simp add: hole_def)
    ultimately show ?thesis using Cons brace_calm_skip [of "hole n" l "flat q" "flat ps"] by simp
  next
    case (Hole m)
    then show ?thesis using Cons replace_own_hole [of n "flat q" "flat ps"] replace_other_hole [OF _ assms(2), of m] by simp
  qed
qed simp

lemma fill_good: "list_all good_piece ps \<Longrightarrow> list_all good_piece q \<Longrightarrow> list_all good_piece (fill n q ps)"
  by (induction ps) auto

text \<open>All replacements, one after the other.\<close>

definition fill_all :: "(string \<times> piece list) list \<Rightarrow> piece list \<Rightarrow> piece list" where
  "fill_all reps ps = fold (\<lambda>(n, q). fill n q) reps ps"

definition flat_values :: "(string \<times> piece list) list \<Rightarrow> (string \<times> string) list" where
  "flat_values reps = map (\<lambda>(n, q). (n, flat q)) reps"

definition good_values :: "(string \<times> piece list) list \<Rightarrow> bool" where
  "good_values reps = list_all (\<lambda>(n, q). good_piece (Hole n) \<and> list_all good_piece q) reps"

lemma replacements_fill:
  "good_values reps \<Longrightarrow> list_all good_piece ps \<Longrightarrow>
   apply_replacements (flat_values reps) (flat ps) = flat (fill_all reps ps) \<and> list_all good_piece (fill_all reps ps)"
proof (induction reps arbitrary: ps)
  case Nil
  then show ?case by (simp add: apply_replacements_def flat_values_def fill_all_def)
next
  case (Cons r reps)
  obtain n q where r: "r = (n, q)" by (cases r)
  with Cons.prems(1) have good: "good_piece (Hole n)" "list_all good_piece q" "good_values reps"
    unfolding good_values_def by simp_all
  note step = replace_flat [OF Cons.prems(2) good(1), of q]
  show ?case
    using Cons.IH [OF good(3) fill_good [OF Cons.prems(2) good(2), of n]] step
    by (simp add: apply_replacements_def flat_values_def fill_all_def r)
qed

text \<open>The same, every hole at once: the names filled are told apart and no value asks for one of them.\<close>

definition filled_with :: "(string \<times> piece list) list \<Rightarrow> piece \<Rightarrow> piece list" where
  "filled_with reps p = (case p of Lit l \<Rightarrow> [Lit l] | Hole n \<Rightarrow> (case map_of reps n of Some q \<Rightarrow> q | None \<Rightarrow> [Hole n]))"

lemma fill_untouched: "n \<notin> set (hole_names ps) \<Longrightarrow> fill n q ps = ps"
proof (induction ps)
  case (Cons p ps)
  then show ?case by (cases p) auto
qed simp

lemma fill_all_untouched: "fst ` set reps \<inter> set (hole_names ps) = {} \<Longrightarrow> fill_all reps ps = ps"
  by (induction reps) (auto simp: fill_all_def fill_untouched)

lemma fill_append: "fill n q (ps @ qs) = fill n q ps @ fill n q qs"
  by (simp add: fill_def)

lemma fill_all_append: "fill_all reps (ps @ qs) = fill_all reps ps @ fill_all reps qs"
  by (induction reps arbitrary: ps qs) (auto simp: fill_all_def fill_append)

lemma fill_all_at_once:
  assumes "distinct (map fst reps)" "list_all (\<lambda>(n, q). fst ` set reps \<inter> set (hole_names q) = {}) reps"
  shows "fill_all reps ps = concat (map (filled_with reps) ps)"
proof (induction ps)
  case Nil
  show ?case by (induction reps) (auto simp: fill_all_def)
next
  case (Cons p ps)
  have "fill_all reps [p] = filled_with reps p"
  proof (cases p)
    case (Lit l)
    then show ?thesis by (simp add: filled_with_def fill_all_untouched)
  next
    case (Hole n)
    have "list_all (\<lambda>(n, q). N \<inter> set (hole_names q) = {}) rs \<Longrightarrow> distinct (map fst rs) \<Longrightarrow> fst ` set rs \<subseteq> N \<Longrightarrow>
      fill_all rs [Hole n] = filled_with rs (Hole n)" for rs N
    proof (induction rs)
      case (Cons r rs)
      obtain m q where r: "r = (m, q)" by (cases r)
      show ?case
      proof (cases "m = n")
        case True
        then have "fill_all (r # rs) [Hole n] = fill_all rs q" by (simp add: fill_all_def r)
        moreover have "fst ` set rs \<inter> set (hole_names q) = {}" using Cons.prems by (auto simp: r)
        ultimately show ?thesis using True by (simp add: r filled_with_def fill_all_untouched)
      next
        case False
        have "fill_all rs [Hole n] = filled_with rs (Hole n)" using Cons by (simp add: r)
        then show ?thesis using False by (simp add: fill_all_def r filled_with_def)
      qed
    qed (simp add: fill_all_def filled_with_def)
    then show ?thesis using assms Hole by blast
  qed
  then show ?case using Cons fill_all_append [of reps "[p]" ps] by simp
qed

section \<open>The marker of the bucket\<close>

definition bucket_text :: "string \<Rightarrow> piece list \<Rightarrow> string" where
  "bucket_text b ps = concat (map (\<lambda>p. case p of Lit l \<Rightarrow> l | Hole n \<Rightarrow> if n = bucket_name then b else hole n) ps)"

lemma bucket_text_simps [simp]: "bucket_text b [] = []" "bucket_text b (Lit l # ps) = l @ bucket_text b ps"
  "bucket_text b (Hole n # ps) = (if n = bucket_name then b else hole n) @ bucket_text b ps"
  by (simp_all add: bucket_text_def)

lemma fill_bucket: "flat (fill bucket_name [Lit v] ps) = bucket_text v ps"
proof (induction ps)
  case (Cons p ps)
  then show ?case by (cases p) auto
qed simp

lemma marker_start: "CHR ''P'' \<notin> set (tl placeholder_bucket)" "hd placeholder_bucket = CHR ''P''" "placeholder_bucket \<noteq> []"
  by (simp_all add: placeholder_bucket_def)

text \<open>The first letter of the marker occurs in it only once, so no two places of it overlap.\<close>

lemma marker_skip:
  "\<not> sublist placeholder_bucket l \<Longrightarrow>
   replace_all placeholder_bucket b (l @ placeholder_bucket @ s) = l @ b @ replace_all placeholder_bucket b s"
proof (induction l)
  case Nil
  show ?case using replace_self [OF marker_start(3)] by simp
next
  case (Cons c l)
  have "\<not> prefix placeholder_bucket (c # l @ placeholder_bucket @ s)"
  proof
    assume p: "prefix placeholder_bucket (c # l @ placeholder_bucket @ s)"
    then have "prefix placeholder_bucket ((c # l) @ placeholder_bucket @ s)" by simp
    then consider "prefix placeholder_bucket (c # l)"
      | u where "placeholder_bucket = (c # l) @ u" "prefix u (placeholder_bucket @ s)"
      by (auto simp only: prefix_append)
    then show False
    proof cases
      case 1
      then show False using Cons.prems prefix_imp_sublist by blast
    next
      case 2
      have "u \<noteq> []" using 2(1) Cons.prems by auto
      then have "hd u = CHR ''P''" using 2(2) marker_start(2,3) by (metis hd_append2 prefix_def)
      moreover have "set u \<subseteq> set (tl placeholder_bucket)" by (subst 2(1)) simp
      ultimately show False using marker_start(1) \<open>u \<noteq> []\<close> hd_in_set [of u] by auto
    qed
  qed
  then have "replace_all placeholder_bucket b (c # (l @ placeholder_bucket @ s)) =
    c # replace_all placeholder_bucket b (l @ placeholder_bucket @ s)" by (rule replace_step)
  moreover have "\<not> sublist placeholder_bucket l" using Cons.prems by (simp add: sublist_Cons_right)
  ultimately show ?case using Cons.IH by (simp only: append_Cons simp_thms True_implies_equals)
qed

lemma marker_absent: "\<not> sublist placeholder_bucket l \<Longrightarrow> replace_all placeholder_bucket b l = l"
proof (induction l)
  case (Cons c l)
  then have "\<not> prefix placeholder_bucket (c # l)" "\<not> sublist placeholder_bucket l"
    by (simp_all add: sublist_Cons_right)
  then show ?case using Cons.IH replace_step [of placeholder_bucket c l b] by (simp only: simp_thms True_implies_equals)
qed simp

lemma marker_replaced:
  "\<not> sublist placeholder_bucket (l @ bucket_text [newline] ps) \<Longrightarrow> set (hole_names ps) \<subseteq> {bucket_name} \<Longrightarrow>
   replace_all placeholder_bucket b (l @ bucket_text placeholder_bucket ps) = l @ bucket_text b ps"
proof (induction ps arbitrary: l)
  case Nil
  then show ?case by (simp add: marker_absent)
next
  case (Cons p ps)
  show ?case
  proof (cases p)
    case (Lit m)
    then show ?thesis using Cons.IH [of "l @ m"] Cons.prems by simp
  next
    case (Hole n)
    then have n: "n = bucket_name" and clean: "\<not> sublist placeholder_bucket (l @ newline # bucket_text [newline] ps)"
      using Cons.prems by auto
    then have "\<not> sublist placeholder_bucket l" "\<not> sublist placeholder_bucket ([] @ bucket_text [newline] ps)"
      using sublist_append_rightI [of l "newline # bucket_text [newline] ps"]
        sublist_append_leftI [of "bucket_text [newline] ps" "l @ [newline]"] by (auto dest: sublist_order.order_trans)
    then show ?thesis using Cons.IH [of "[]"] Cons.prems(2) Hole n by (simp add: marker_skip)
  qed
qed

section \<open>The script that is deployed\<close>

text \<open>
  The values as pieces: two of them are scripts that name the bucket themselves. The unit file of the agent
  is given as pieces too.
\<close>

definition backup_pieces :: "piece list" where
  "backup_pieces = [Lit ''aws s3 cp s3://'', Hole bucket_name,
     Lit (''/deployment/scripts/backup-data.sh /home/ubuntu/backup-data.sh --region ${REGION}'' @ [newline] @
     ''chmod +x /home/ubuntu/backup-data.sh && chown ubuntu:ubuntu /home/ubuntu/backup-data.sh'')]"

definition agent_pieces :: "piece list \<Rightarrow> piece list" where
  "agent_pieces service = [Lit (''cat > /etc/systemd/system/host-agent.service << '' @ quoted ''SVCEOF'' @ [newline])] @ service @ [Lit ''SVCEOF'']"

definition value_pieces :: "piece list \<Rightarrow> string \<times> string \<Rightarrow> string \<times> piece list" where
  "value_pieces service r = (case r of (n, v) \<Rightarrow> (n, if n = ''BACKUP_DATA_SCRIPT'' then backup_pieces
     else if n = ''HOST_AGENT_SCRIPT'' then agent_pieces service else [Lit v]))"

text \<open>The script with every hole filled at once, and the bucket put in.\<close>

definition script_with :: "piece list \<Rightarrow> (string \<times> string) list \<Rightarrow> string \<Rightarrow> piece list \<Rightarrow> string" where
  "script_with service reps b ps = bucket_text b (concat (map (filled_with (map (value_pieces service) reps)) ps))"

text \<open>The placeholders of the file that are replaced before the bucket.\<close>

definition replaced_names :: "string list" where
  "replaced_names = [''ROOTFS_PREFIX'', ''AVAIL_VCPU'', ''AVAIL_MEM'', ''SUBNET_PREFIX'', ''VPC_CIDR'', ''ROOTFS_OVERLAY_MB'',
     ''AGENTCORE_GATEWAY_URL'', ''AMP_REMOTE_WRITE_URL'', ''BALLOON_ENABLED'', ''BALLOON_DEFLATE_ON_OOM'', ''BALLOON_STATS_INTERVAL'',
     ''BALLOON_FREE_PAGE_REPORTING'', ''BALLOON_MAX_INFLATE_RATIO'', ''BALLOON_MIN_GUEST_AVAILABLE_MB'', ''BACKUP_DATA_SCRIPT'',
     ''HOST_AGENT_SCRIPT'']"

text \<open>Inputs that can be filled in: only known placeholders, no text in which another could begin, none that is the marker.\<close>

definition fillable :: "piece list \<Rightarrow> (string \<times> string) list \<Rightarrow> piece list \<Rightarrow> bool" where
  "fillable service reps ps = (list_all good_piece ps \<and> list_all good_piece service \<and> list_all (\<lambda>(n, v). n \<in> {''BACKUP_DATA_SCRIPT'', ''HOST_AGENT_SCRIPT''} \<or> brace_calm v) reps \<and>
     list_all (\<lambda>n. n \<in> set (bucket_name # replaced_names)) (hole_names ps) \<and> list_all (\<lambda>n. n = bucket_name) (hole_names service) \<and>
     \<not> sublist placeholder_bucket (script_with service reps [newline] ps))"

lemma collect_names: "collect rs = Inr vs \<Longrightarrow> map fst vs = map fst rs"
  by (induction rs arbitrary: vs rule: collect.induct) (auto simp: bind_sum_Inr)

lemma collect_entry: "collect rs = Inr vs \<Longrightarrow> (k, v) \<in> set vs \<Longrightarrow> (k, Inr v) \<in> set rs"
  by (induction rs arbitrary: vs rule: collect.induct) (auto simp: bind_sum_Inr)

lemma replacements_named:
  assumes "host_replacements hi rs cfg = Inr reps"
  shows "map fst reps = replaced_names"
    "(''BACKUP_DATA_SCRIPT'', v) \<in> set reps \<Longrightarrow> v = flat backup_pieces"
    "(''HOST_AGENT_SCRIPT'', v) \<in> set reps \<Longrightarrow> hi_agent_service hi = flat service \<Longrightarrow> v = flat (agent_pieces service)"
proof -
  from assms obtain vcpu mem where c: "collect [
     (''ROOTFS_PREFIX'', bind_sum (cfg_item cfg ''s3'' ''rootfs_prefix'') need_str),
     (''AVAIL_VCPU'', Inr (show_int vcpu)), (''AVAIL_MEM'', Inr (show_int mem)),
     (''SUBNET_PREFIX'', bind_sum (cfg_item cfg ''vm'' ''subnet_prefix'') need_str),
     (''VPC_CIDR'', Inr (hi_vpc_cidr hi)),
     (''ROOTFS_OVERLAY_MB'', bind_sum (cfg_item_or cfg ''vm'' ''rootfs_overlay_mb'' (JInt 8192)) (\<lambda>v. Inr (str_of hi v))),
     (''AGENTCORE_GATEWAY_URL'', bind_sum (gateway_url cfg rs) (\<lambda>u. Inr (if u = [] then ''none'' else u))),
     (''AMP_REMOTE_WRITE_URL'', remote_write_url cfg rs),
     (''BALLOON_ENABLED'', balloon_flag hi cfg ''enabled'' False),
     (''BALLOON_DEFLATE_ON_OOM'', balloon_flag hi cfg ''deflate_on_oom'' True),
     (''BALLOON_STATS_INTERVAL'', balloon_text hi cfg ''stats_polling_interval_s'' (JInt 5)),
     (''BALLOON_FREE_PAGE_REPORTING'', balloon_flag hi cfg ''free_page_reporting'' True),
     (''BALLOON_MAX_INFLATE_RATIO'', balloon_text hi cfg ''max_inflate_ratio'' (JFloat (fdiv (float_of_int 4) (float_of_int 10)))),
     (''BALLOON_MIN_GUEST_AVAILABLE_MB'', balloon_text hi cfg ''min_guest_available_mb'' (JInt 512)),
     (''BACKUP_DATA_SCRIPT'', Inr backup_script),
     (''HOST_AGENT_SCRIPT'', Inr (agent_script (hi_agent_service hi)))] = Inr reps"
    unfolding host_replacements_def bind_sum_Inr by (auto split: prod.splits)
  show "map fst reps = replaced_names" using collect_names [OF c] by (simp add: replaced_names_def)
  show "(''BACKUP_DATA_SCRIPT'', v) \<in> set reps \<Longrightarrow> v = flat backup_pieces"
    using collect_entry [OF c, of "''BACKUP_DATA_SCRIPT''" v] by (simp add: backup_script_def backup_pieces_def)
  show "(''HOST_AGENT_SCRIPT'', v) \<in> set reps \<Longrightarrow> hi_agent_service hi = flat service \<Longrightarrow> v = flat (agent_pieces service)"
    using collect_entry [OF c, of "''HOST_AGENT_SCRIPT''" v] by (simp add: agent_script_def agent_pieces_def)
qed

lemma named_values:
  assumes "host_replacements hi rs cfg = Inr reps" "hi_agent_service hi = flat service" "fillable service reps ps"
  shows "flat_values (map (value_pieces service) reps) = reps" "good_values (map (value_pieces service) reps)"
    "list_all (\<lambda>(n, q). set (hole_names q) \<subseteq> {bucket_name}) (map (value_pieces service) reps)"
proof -
  have "flat (snd (value_pieces service (n, v))) = v" if "(n, v) \<in> set reps" for n v
    using replacements_named(2,3) [OF assms(1)] assms(2) that by (auto simp: value_pieces_def)
  then show "flat_values (map (value_pieces service) reps) = reps"
    by (auto simp: flat_values_def comp_def value_pieces_def intro!: map_idI)
  have names: "list_all (\<lambda>n. good_piece (Hole n)) replaced_names" "good_piece (Hole bucket_name)"
    by (simp_all add: replaced_names_def bucket_name_def)
  have name: "CHR ''{'' \<notin> set n \<and> CHR ''}'' \<notin> set n" if "(n, v) \<in> set reps" for n v
  proof -
    have "n \<in> set replaced_names" using that by (simp flip: replacements_named(1) [OF assms(1)]) force
    then show ?thesis using names(1) by (simp add: list_all_iff)
  qed
  have "list_all good_piece backup_pieces" by (simp add: backup_pieces_def bucket_name_def newline_def)
  moreover have "list_all good_piece (agent_pieces service)"
    using assms(3) by (simp add: agent_pieces_def fillable_def quoted_def newline_def)
  moreover have "brace_calm v" if "(n, v) \<in> set reps" "n \<noteq> ''BACKUP_DATA_SCRIPT''" "n \<noteq> ''HOST_AGENT_SCRIPT''" for n v
    using assms(3) that by (fastforce simp: fillable_def list_all_iff)
  ultimately show "good_values (map (value_pieces service) reps)"
    using name by (auto simp: good_values_def value_pieces_def list_all_iff split: if_splits)
  show "list_all (\<lambda>(n, q). set (hole_names q) \<subseteq> {bucket_name}) (map (value_pieces service) reps)"
    using assms(3) by (auto simp: value_pieces_def fillable_def list_all_iff backup_pieces_def agent_pieces_def split: if_splits)
qed

lemma filled_bucket_only:
  assumes "list_all (\<lambda>(n, q). set (hole_names q) \<subseteq> {bucket_name}) reps" "set (hole_names ps) \<subseteq> insert bucket_name (fst ` set reps)"
  shows "set (hole_names (concat (map (filled_with reps) ps))) \<subseteq> {bucket_name}"
  using assms(2)
proof (induction ps)
  case (Cons p ps)
  have "set (hole_names (filled_with reps p)) \<subseteq> {bucket_name}"
  proof (cases p)
    case (Hole n)
    show ?thesis
    proof (cases "map_of reps n")
      case None
      then have "n = bucket_name" using Cons.prems Hole by (auto simp: map_of_eq_None_iff)
      then show ?thesis using None Hole by (simp add: filled_with_def)
    next
      case (Some q)
      then have "(n, q) \<in> set reps" by (rule map_of_SomeD)
      then show ?thesis using assms(1) Hole Some by (auto simp: filled_with_def list_all_iff)
    qed
  qed (simp add: filled_with_def)
  moreover have "set (hole_names ps) \<subseteq> insert bucket_name (fst ` set reps)" using Cons.prems by (cases p) auto
  ultimately show ?case using Cons.IH by simp
qed simp

lemma brace_calm_no_hole: "brace_calm s \<Longrightarrow> \<not> sublist ''{{'' s"
  by (induction s rule: brace_calm.induct) (auto simp: sublist_Cons_right)

lemma bucket_text_calm:
  "list_all good_piece ps \<Longrightarrow> set (hole_names ps) \<subseteq> {bucket_name} \<Longrightarrow> brace_calm b \<Longrightarrow> brace_calm (bucket_text b ps)"
proof (induction ps)
  case (Cons p ps)
  then show ?case by (cases p) (auto intro: brace_calm_append)
qed simp

lemma holes_apart:
  "list_all (\<lambda>(n, q). set (hole_names q) \<subseteq> {b}) reps \<Longrightarrow> b \<notin> N \<Longrightarrow> list_all (\<lambda>(n, q). N \<inter> set (hole_names q) = {}) reps"
  by (induction reps) auto

text \<open>
  C32. The start-up script of a host is complete: replacing the placeholders one after the other and joining the
  parts around the bucket gives the script in which every placeholder is filled at once, those in the
  injected scripts included, and no placeholder is left in it; for every template with known
  placeholders, every unit file and every configuration from which a capacity can be computed.
\<close>

theorem user_data_complete:
  assumes "host_replacements hi rs cfg = Inr reps" "hi_init_sh hi = flat ps" "hi_agent_service hi = flat service"
    "fillable service reps ps" "brace_calm (rs_bucket rs)"
  shows "user_data hi rs cfg = Inr (script_with service reps (rs_bucket rs) ps) \<and>
    \<not> sublist ''{{'' (script_with service reps (rs_bucket rs) ps)"
proof -
  let ?given = "map (value_pieces service) reps"
  let ?full = "concat (map (filled_with ?given) ps)"
  note vals = named_values [OF assms(1,3,4)]
  have names: "map fst ?given = replaced_names"
    using replacements_named(1) [OF assms(1)] by (simp add: comp_def value_pieces_def case_prod_beta)
  have good: "list_all good_piece ps" using assms(4) by (simp add: fillable_def)
  have "distinct (map fst ?given)" unfolding names by (simp add: replaced_names_def)
  moreover have fst_values: "fst ` set ?given = set replaced_names" using names by (metis set_map)
  moreover have "bucket_name \<notin> set replaced_names" by (simp add: replaced_names_def bucket_name_def)
  ultimately have "list_all (\<lambda>(n, q). fst ` set ?given \<inter> set (hole_names q) = {}) ?given"
    using holes_apart [OF vals(3), of "fst ` set ?given"] by simp
  then have once: "fill_all ?given ps = ?full" using \<open>distinct (map fst ?given)\<close> by (intro fill_all_at_once)
  have filled: "apply_replacements reps (hi_init_sh hi) = flat ?full" "list_all good_piece ?full"
    using replacements_fill [OF vals(2) good] unfolding vals(1) once assms(2) by simp_all
  have "set (hole_names ps) \<subseteq> insert bucket_name (fst ` set ?given)"
    unfolding fst_values using assms(4) by (auto simp: fillable_def list_all_iff)
  then have holes: "set (hole_names ?full) \<subseteq> {bucket_name}" using filled_bucket_only vals(3) by blast
  have "good_piece (Hole bucket_name)" by (simp add: bucket_name_def)
  then have "replace_all (hole bucket_name) placeholder_bucket (flat ?full) = bucket_text placeholder_bucket ?full"
    using replace_flat [OF filled(2), of bucket_name "[Lit placeholder_bucket]"] fill_bucket by simp
  moreover have "replace_all placeholder_bucket (rs_bucket rs) (bucket_text placeholder_bucket ?full) = bucket_text (rs_bucket rs) ?full"
    using marker_replaced [of "[]" ?full] holes assms(4) by (simp add: fillable_def script_with_def)
  ultimately have "user_data hi rs cfg = Inr (bucket_text (rs_bucket rs) ?full)"
    using assms(1) filled(1) by (simp add: user_data_def bind_sum_def split_then_join marker_start(3))
  moreover have "\<not> sublist ''{{'' (bucket_text (rs_bucket rs) ?full)"
    using bucket_text_calm [OF filled(2) holes assms(5)] by (rule brace_calm_no_hole)
  ultimately show ?thesis by (simp add: script_with_def)
qed

section \<open>The capacity a host registers\<close>

lemma parse_show_int: "parse_int (show_int i) = Some i"
proof -
  have "\<forall>c \<in> set (show_int i). is_digit c \<or> c = CHR ''-''" by (auto simp: show_int_def dest: show_nat_digits)
  then have same: "strip (show_int i) = show_int i" by (rule strip_numeral)
  obtain c r where n: "show_nat (nat i) = c # r" by (cases "show_nat (nat i)") simp_all
  have "is_digit c" using show_nat_digits [of c "nat i"] n by simp
  then have "c \<noteq> CHR ''-''" "c \<noteq> CHR ''+''" by (auto simp: is_digit_def char_code_def)
  moreover have "digits_val 0 (c # r) = Some (nat i)" using digits_val_show_nat [of "nat i"] n by simp
  ultimately show ?thesis
    using same by (cases "i < 0") (auto simp: parse_int_def show_int_def digits_val_show_nat n)
qed

text \<open>A reserve that is read back by the API is the number subtracted here.\<close>

lemma reserve_agrees:
  assumes "cfg_item cfg ''host'' k = Inr v" "minus_reserved n v = Inr a" "map_of env name = Some (py_str v)" "env_int env name d = Inr r"
  shows "a = n - r"
proof (cases v)
  case (JInt i)
  then show ?thesis using assms by (simp add: env_int_def int_of_text_def py_str_def json_str_def parse_show_int minus_reserved_def)
next
  case (JBool b)
  have "parse_int ''True'' = None" "parse_int ''False'' = None" by code_simp+
  then show ?thesis using assms(3,4) JBool by (cases b) (simp_all add: env_int_def int_of_text_def py_str_def json_str_def)
qed (use assms(2) in \<open>simp_all add: minus_reserved_def\<close>)

lemma api_env_item:
  assumes "api_env cfg rs = Inr env"
  shows "\<exists>v. cfg_item cfg ''host'' ''reserved_vcpu'' = Inr v \<and> map_of env ''HOST_RESERVED_VCPU'' = Some (py_str v)"
    "\<exists>v. cfg_item cfg ''host'' ''reserved_mem_mb'' = Inr v \<and> map_of env ''HOST_RESERVED_MEM'' = Some (py_str v)"
proof -
  have names: "''HOST_RESERVED_VCPU'' \<notin> set added_vars" "''HOST_RESERVED_MEM'' \<notin> set added_vars" by (simp_all add: added_vars_def)
  obtain base where base: "api_lambda_env cfg rs = Inr base" "map_of env ''HOST_RESERVED_VCPU'' = map_of base ''HOST_RESERVED_VCPU''"
    using api_env_kept [OF assms names(1)] by blast
  obtain base' where base': "api_lambda_env cfg rs = Inr base'" "map_of env ''HOST_RESERVED_MEM'' = map_of base' ''HOST_RESERVED_MEM''"
    using api_env_kept [OF assms names(2)] by blast
  note vcpu = collect_all [OF base(1) [unfolded api_lambda_env_def], of "''HOST_RESERVED_VCPU''"]
  note mem = collect_all [OF base'(1) [unfolded api_lambda_env_def], of "''HOST_RESERVED_MEM''"]
  show "\<exists>v. cfg_item cfg ''host'' ''reserved_vcpu'' = Inr v \<and> map_of env ''HOST_RESERVED_VCPU'' = Some (py_str v)"
    using vcpu by (auto simp: base(2) collect_lookup [OF base(1) [unfolded api_lambda_env_def]] as_text_def bind_sum_Inr)
  show "\<exists>v. cfg_item cfg ''host'' ''reserved_mem_mb'' = Inr v \<and> map_of env ''HOST_RESERVED_MEM'' = Some (py_str v)"
    using mem by (auto simp: base'(2) collect_lookup [OF base'(1) [unfolded api_lambda_env_def]] as_text_def bind_sum_Inr)
qed

text \<open>The table of sizes is that of the API; without an answer of EC2 the API computes the same memory.\<close>

lemma static_memory_agrees:
  assumes "instance_type cfg = Inr (JStr ty)" "mem_total cfg = Inr m" "length (split_on CHR ''.'' ty) = 2"
  shows "static_memory_mb ty = m"
proof -
  obtain fam sz where parts: "split_on CHR ''.'' ty = [fam, sz]"
    using assms(3) by (auto simp: numeral_2_eq_2 length_Suc_conv)
  have tables: "host_sizes = size_to_vcpu" "host_mem_ratio = family_letter_to_mem"
    by (simp_all add: host_sizes_def size_to_vcpu_def host_mem_ratio_def family_letter_to_mem_def)
  show ?thesis using assms(2) parts
    by (cases fam) (auto simp: mem_total_def vcpu_total_def assms(1) type_parts_def bind_sum_Inr dict_need_def tables
        static_memory_mb_def split: option.splits)
qed

text \<open>
  C18. A host is worth the same to the scheduler however it comes into the table: the capacity baked into
  the start-up script, with which a host registers itself, is the one the API writes when the same host
  is registered through it, whether or not EC2 tells the API the memory of the type.
\<close>

theorem host_capacity_agrees:
  assumes "host_capacity cfg = Inr (avail_vcpu, avail_mem)" "api_env cfg rs = Inr env" "api_settings c0 env = Inr c"
    "instance_type cfg = Inr (JStr (i_type inst))" "length (split_on CHR ''.'' (i_type inst)) = 2"
    "vcpu_total cfg = Inr (i_cores inst * i_threads inst)"
    "type_mem (i_type inst) = None \<or> mem_total cfg = Inr (the (type_mem (i_type inst)))"
  shows "let h = new_host_row c i inst (resolve_instance_memory_mb type_mem (i_type inst)) t in
    h_total_vcpu h = Some avail_vcpu \<and> h_total_mem_mb h = Some avail_mem"
proof -
  obtain rv rm mem where cap: "cfg_item cfg ''host'' ''reserved_vcpu'' = Inr rv" "cfg_item cfg ''host'' ''reserved_mem_mb'' = Inr rm"
    "mem_total cfg = Inr mem" "minus_reserved (i_cores inst * i_threads inst) rv = Inr avail_vcpu" "minus_reserved mem rm = Inr avail_mem"
    using assms(1,6) by (auto simp: host_capacity_def bind_sum_Inr)
  have reads: "env_int env ''HOST_RESERVED_VCPU'' 1 = Inr (host_reserved_vcpu c)" "env_int env ''HOST_RESERVED_MEM'' 2048 = Inr (host_reserved_mem c)"
    using assms(3) by (auto simp: api_settings_def bind_sum_Inr)
  have "map_of env ''HOST_RESERVED_VCPU'' = Some (py_str rv)" "map_of env ''HOST_RESERVED_MEM'' = Some (py_str rm)"
    using api_env_item [OF assms(2)] cap(1,2) by auto
  then have "avail_vcpu = i_cores inst * i_threads inst - host_reserved_vcpu c" "avail_mem = mem - host_reserved_mem c"
    using reserve_agrees [OF cap(1,4) _ reads(1)] reserve_agrees [OF cap(2,5) _ reads(2)] by simp_all
  moreover have "resolve_instance_memory_mb type_mem (i_type inst) = mem"
    using assms(7) cap(3) static_memory_agrees [OF assms(4) cap(3) assms(5)]
    by (auto simp: resolve_instance_memory_mb_def split: option.splits)
  ultimately show ?thesis by (simp add: new_host_row_def Let_def)
qed

text \<open>A host of the default type, under the configuration of the settings.\<close>

definition sample_instance :: ec2_instance where
  "sample_instance = \<lparr>i_private_ip = ''10.0.0.5'', i_type = ''m8i.xlarge'', i_az = ''a'', i_cores = 2, i_threads = 2\<rparr>"

theorem host_capacity_agrees_witness:
  "\<exists>c. api_settings cfg0 shared_api_env = Inr c \<and>
    (let h = new_host_row c ''i-1'' sample_instance (resolve_instance_memory_mb (\<lambda>_. None) (i_type sample_instance)) 0 in
     h_total_vcpu h = Some 3 \<and> h_total_mem_mb h = Some 14336)"
proof -
  obtain c where c: "api_settings cfg0 shared_api_env = Inr c" using shared_api_loads by (auto simp: bind_sum_Inr)
  have cap: "host_capacity shared_normal = Inr (3, 14336)" by code_simp
  have ty: "instance_type shared_normal = Inr (JStr (i_type sample_instance))"
    "vcpu_total shared_normal = Inr (i_cores sample_instance * i_threads sample_instance)" by code_simp+
  have parts: "length (split_on CHR ''.'' (i_type sample_instance)) = 2" by (simp add: sample_instance_def)
  have "let h = new_host_row c ''i-1'' sample_instance (resolve_instance_memory_mb (\<lambda>_. None) (i_type sample_instance)) 0 in
      h_total_vcpu h = Some 3 \<and> h_total_mem_mb h = Some 14336"
    by (rule host_capacity_agrees [OF cap shared_api c ty(1) parts ty(2)]) simp
  with c show ?thesis by blast
qed

definition sample_inputs :: host_inputs where
  "sample_inputs = \<lparr>hi_init_sh = ''B={{ASSETS_BUCKET}} C={{AVAIL_VCPU}} {{BACKUP_DATA_SCRIPT}}'', hi_agent_service = ''[Unit]'',
     hi_vpc_cidr = ''10.0.0.0/16'', hi_float = (\<lambda>_. ''0.4'')\<rparr>"

definition sample_pieces :: "piece list" where
  "sample_pieces = [Lit ''B='', Hole ''ASSETS_BUCKET'', Lit '' C='', Hole ''AVAIL_VCPU'', Lit '' '', Hole ''BACKUP_DATA_SCRIPT'']"

definition sample_replacements :: "(string \<times> string) list" where
  "sample_replacements = [(''ROOTFS_PREFIX'', ''rootfs''), (''AVAIL_VCPU'', ''3''), (''AVAIL_MEM'', ''14336''), (''SUBNET_PREFIX'', ''172.16''),
     (''VPC_CIDR'', ''10.0.0.0/16''), (''ROOTFS_OVERLAY_MB'', ''8192''), (''AGENTCORE_GATEWAY_URL'', ''none''),
     (''AMP_REMOTE_WRITE_URL'', ''none''), (''BALLOON_ENABLED'', ''true''), (''BALLOON_DEFLATE_ON_OOM'', ''true''),
     (''BALLOON_STATS_INTERVAL'', ''5''), (''BALLOON_FREE_PAGE_REPORTING'', ''true''), (''BALLOON_MAX_INFLATE_RATIO'', ''0.4''),
     (''BALLOON_MIN_GUEST_AVAILABLE_MB'', ''512''), (''BACKUP_DATA_SCRIPT'', backup_script), (''HOST_AGENT_SCRIPT'', agent_script ''[Unit]'')]"

lemma sample_replaces: "host_replacements sample_inputs shared_resources shared_normal = Inr sample_replacements"
proof -
  have normal: "shared_normal = JObj [
     (''s3'', JObj [(''rootfs_prefix'', JStr ''rootfs''), (''backup_prefix'', JStr ''backups'')]),
     (''host'', JObj [(''reserved_vcpu'', JInt 1), (''reserved_mem_mb'', JInt 2048), (''cpu_overcommit_ratio'', JFloat ratio_ceiling),
       (''mem_overcommit_ratio'', JStr ''1.5''), (''max_vms_per_host'', JInt 12)]),
     (''vm'', JObj [(''default_vcpu'', JInt 2), (''default_mem_mb'', JInt 4096), (''data_disk_mb'', JInt 2048),
       (''gateway_port_base'', JInt 18789), (''subnet_prefix'', JStr ''172.16'')]),
     (''balloon'', JObj [(''enabled'', JBool True)]), (''routing'', JObj [(''mode'', JStr ''host-tg'')]),
     (''audit'', JObj [(''retention_days'', JInt 30)])]" by code_simp
  have cap: "host_capacity shared_normal = Inr (3, 14336)" by code_simp
  have digits: "digit_char 1 = CHR ''1''" "digit_char 2 = CHR ''2''" "digit_char 3 = CHR ''3''" "digit_char 4 = CHR ''4''"
    "digit_char 5 = CHR ''5''" "digit_char 6 = CHR ''6''" "digit_char 8 = CHR ''8''" "digit_char 9 = CHR ''9''"
    by code_simp+
  have numbers: "show_int 3 = ''3''" "show_int 14336 = ''14336''" "show_int 8192 = ''8192''" "show_int 5 = ''5''" "show_int 512 = ''512''"
    by (simp_all add: show_int_def show_nat.simps digits digits(1) [unfolded One_nat_def])
  have lower: "ascii_lower ''True'' = ''true''" by code_simp
  show ?thesis unfolding host_replacements_def cap
    by (simp add: normal bind_sum_def cfg_item_def cfg_item_or_def cfg_get_def cfg_section_def get_or_def need_str_def str_of_def
        gateway_url_def remote_write_url_def balloon_flag_def balloon_text_def json_str_def numbers lower sample_inputs_def
        sample_replacements_def)
qed

theorem user_data_complete_witness:
  "user_data sample_inputs shared_resources shared_normal =
     Inr (script_with [Lit ''[Unit]''] sample_replacements ''assets'' sample_pieces) \<and>
   \<not> sublist ''{{'' (script_with [Lit ''[Unit]''] sample_replacements ''assets'' sample_pieces)"
proof -
  have "fillable [Lit ''[Unit]''] sample_replacements sample_pieces" by code_simp
  moreover have "hi_init_sh sample_inputs = flat sample_pieces" "hi_agent_service sample_inputs = flat [Lit ''[Unit]'']"
    by (simp_all add: sample_inputs_def sample_pieces_def hole_def)
  moreover have "rs_bucket shared_resources = ''assets''" by (simp add: shared_resources_def)
  ultimately show ?thesis using user_data_complete [OF sample_replaces, of sample_pieces "[Lit ''[Unit]'']"] by simp
qed

end
