(* ===== verification/HostLaunch.thy ===== *)
theory HostLaunch
  imports HostImage
begin

text \<open>
  How the group of hosts is launched (\<open>_build_asg\<close> and \<open>_build_multi_az\<close> of deploy/stack.py): the network and
  the subnets, the machine image and type, the disks, the protection of the instance metadata, the size of
  the group, and who may reach a host.
\<close>

section \<open>Network\<close>

datatype vpc_choice = ImportedVpc string | DefaultVpc

datatype subnet_choice = SubnetsById "json list" | PublicSubnets | PrivateSubnets

definition vpc_of :: "json \<Rightarrow> exn + vpc_choice" where
  "vpc_of cfg = bind_sum (section_or_empty cfg ''network'') (\<lambda>net. bind_sum (get_or net ''vpc_id'' JNull) (\<lambda>v.
     bind_sum (if \<not> truthy v then Inr [] else (case v of JStr s \<Rightarrow> Inr (strip s)
       | _ \<Rightarrow> Inl (no_attribute v ''strip''))) (\<lambda>i.
     Inr (if i \<noteq> [] then ImportedVpc i else DefaultVpc))))"

definition subnet_ids :: "json \<Rightarrow> exn + json list" where
  "subnet_ids cfg = bind_sum (section_or_empty cfg ''network'') (\<lambda>net. bind_sum (get_or net ''subnet_ids'' JNull) (\<lambda>v.
     if \<not> truthy v then Inr [] else (case v of JList xs \<Rightarrow> Inr xs | JStr s \<Rightarrow> Inr (map (\<lambda>c. JStr [c]) s)
       | JObj kvs \<Rightarrow> Inr (map (\<lambda>(k, x). JStr k) kvs) | _ \<Rightarrow> Inl (PyError TypeError (quoted (type_name v) @ '' object is not iterable'')))))"

text \<open>\<open>public\<close> tells whether the network has public subnets.\<close>

definition subnet_selection :: "json \<Rightarrow> bool \<Rightarrow> exn + subnet_choice" where
  "subnet_selection cfg public = bind_sum (subnet_ids cfg) (\<lambda>ids.
     Inr (if ids \<noteq> [] then SubnetsById ids else if public then PublicSubnets else PrivateSubnets))"

definition az_count :: "json \<Rightarrow> exn + int" where
  "az_count cfg = bind_sum (section_or_empty cfg ''multi_az'') (\<lambda>m. bind_sum (get_or m ''enabled'' (JBool False)) (\<lambda>on.
     if truthy on then bind_sum (get_or m ''az_count'' (JInt 2)) py_int else Inr 1))"

section \<open>Template and group\<close>

definition host_arch :: "json \<Rightarrow> exn + json" where
  "host_arch cfg = bind_sum (host_section cfg) (\<lambda>h. get_or h ''arch'' (JStr ''x86_64''))"

definition image_name :: "json \<Rightarrow> exn + string" where
  "image_name cfg = bind_sum (host_arch cfg) (\<lambda>arch. Inr (''ubuntu/images/hvm-ssd-gp3/ubuntu-noble-24.04-'' @
     (if arch = JStr ''arm64'' then ''arm64'' else ''amd64'') @ ''-server-*''))"

definition launched_type :: "json \<Rightarrow> exn + json" where
  "launched_type cfg = bind_sum (host_arch cfg) (\<lambda>arch. bind_sum (host_section cfg) (\<lambda>h.
     bind_sum (get_or h ''instance_type'' JNull) (\<lambda>t.
     Inr (if truthy t then t else JStr (if arch = JStr ''arm64'' then ''m8g.xlarge'' else ''m8i.xlarge'')))))"

record metadata_options =
  md_tokens_required :: bool
  md_hop_limit :: nat
  md_enabled :: bool

definition hardened :: metadata_options where
  "hardened = \<lparr>md_tokens_required = True, md_hop_limit = 1, md_enabled = True\<rparr>"

record launch_template =
  lt_type :: json
  lt_image :: string
  lt_root_gb :: json
  lt_data_gb :: json
  lt_data_encrypted :: bool
  lt_deletes_data :: bool
  lt_metadata :: metadata_options
  lt_spot :: bool
  lt_nested_virtualization :: bool

definition build_template :: "json \<Rightarrow> exn + launch_template" where
  "build_template cfg = bind_sum (image_name cfg) (\<lambda>image. bind_sum (launched_type cfg) (\<lambda>ty.
     bind_sum (cfg_item cfg ''host'' ''root_volume_gb'') (\<lambda>rgb. bind_sum (cfg_item cfg ''host'' ''data_volume_gb'') (\<lambda>dgb.
     bind_sum (cfg_item_or cfg ''host'' ''keep_data_volume'' (JBool False)) (\<lambda>keep.
     bind_sum (cfg_item_or cfg ''asg'' ''use_spot'' JNull) (\<lambda>spot.
     Inr \<lparr>lt_type = ty, lt_image = image, lt_root_gb = rgb, lt_data_gb = dgb, lt_data_encrypted = True,
       lt_deletes_data = (\<not> truthy keep), lt_metadata = hardened, lt_spot = truthy spot, lt_nested_virtualization = False\<rparr>))))))"

text \<open>The version made by the custom resource, which the group uses: merged onto the latest one.\<close>

definition nested_version :: "launch_template \<Rightarrow> launch_template" where
  "nested_version lt = lt\<lparr>lt_nested_virtualization := True, lt_metadata := hardened\<rparr>"

record host_group =
  hg_template :: launch_template
  hg_subnets :: subnet_choice
  hg_min :: json
  hg_max :: json

definition build_group :: "json \<Rightarrow> bool \<Rightarrow> exn + host_group" where
  "build_group cfg public = bind_sum (build_template cfg) (\<lambda>lt. bind_sum (subnet_selection cfg public) (\<lambda>subnets.
     bind_sum (cfg_item cfg ''asg'' ''min_capacity'') (\<lambda>lo. bind_sum (cfg_item cfg ''asg'' ''max_capacity'') (\<lambda>hi.
     Inr \<lparr>hg_template = nested_version lt, hg_subnets = subnets, hg_min = lo, hg_max = hi\<rparr>))))"

text \<open>
  The type is worked out twice; the type the hosts are launched with is the one from which their capacity was
  computed. Every host requires session tokens for its metadata, answers them one hop away, and has its
  tenants' disk encrypted.
\<close>

lemma launched_type_agrees:
  assumes "launched_type cfg = Inr t"
  shows "instance_type cfg = Inr t"
proof -
  obtain h where h: "host_section cfg = Inr h" using assms by (auto simp: launched_type_def host_arch_def bind_sum_Inr)
  show ?thesis using assms
    by (auto simp: launched_type_def instance_type_def default_type_def host_arch_def h get_or_def split: sum.splits option.splits if_splits)
qed

lemma hosts_as_computed:
  assumes "build_group cfg public = Inr g"
  shows "instance_type cfg = Inr (lt_type (hg_template g))" "lt_metadata (hg_template g) = hardened"
    "lt_data_encrypted (hg_template g)" "lt_nested_virtualization (hg_template g)"
  using assms launched_type_agrees [of cfg]
  by (auto simp: build_group_def build_template_def nested_version_def bind_sum_Inr)

text \<open>The image follows the architecture alone, so a type given by itself can be launched with the image of the other.\<close>

lemma image_of_other_architecture:
  "let cfg = JObj [(''host'', JObj [(''instance_type'', JStr ''m8g.xlarge'')])] in
   launched_type cfg = Inr (JStr ''m8g.xlarge'') \<and> image_name cfg = Inr ''ubuntu/images/hvm-ssd-gp3/ubuntu-noble-24.04-amd64-server-*''"
  by (simp add: Let_def launched_type_def image_name_def host_arch_def host_section_def section_or_empty_def cfg_section_def get_or_def)

text \<open>The number of zones is computed and used nowhere: the group is the same whatever the setting says.\<close>

lemma zones_ignored:
  assumes "obj_put cfg ''multi_az'' v = Inr cfg'"
  shows "build_group cfg' public = build_group cfg public"
proof -
  have other: "cfg_section cfg' s = cfg_section cfg s" if "s \<noteq> ''multi_az''" for s
    using assms that by (simp add: cfg_section_def get_or_put)
  have item: "json_item cfg' s = json_item cfg s" if "s \<noteq> ''multi_az''" for s
    using assms that by (cases cfg) (auto simp: update_conv)
  show ?thesis
    by (simp add: build_group_def build_template_def subnet_selection_def subnet_ids_def image_name_def launched_type_def host_arch_def
        host_section_def section_or_empty_def cfg_item_def cfg_item_or_def other item)
qed

section \<open>Who reaches a host\<close>

datatype peer = HostPeers | BalancerPeers | NetworkPeers

definition host_ingress :: "(peer \<times> nat) list" where
  "host_ingress = [(HostPeers, 8081), (BalancerPeers, 80), (NetworkPeers, 80)]"

text \<open>Hosts reach each other on the port of the peer map, which nobody else reaches.\<close>

lemma peer_port: "(p, 8081) \<in> set host_ingress \<longleftrightarrow> p = HostPeers"
  by (auto simp: host_ingress_def)

end
