(* ===== verification/Staging.thy ===== *)
theory Staging
  imports PyLib "HOL-Library.AList"
begin

text \<open>
  Staging of a Lambda's source (\<open>_stage_lambda_asset\<close> of deploy/stack.py): the handler's directory and the
  shared \<open>common\<close> package are copied into a directory named after a digest of their Python files, by way of a
  temporary directory that is renamed at the end. Several syntheses may stage at once: each is a machine
  that takes one file operation at a time, and a schedule says whose turn it is. Removing a directory is one
  operation, and the directory of a file is made with the file.
\<close>

section \<open>Sources\<close>

text \<open>The files below \<open>deploy/lambda\<close>, each with the parts of its path and its bytes.\<close>

type_synonym file_path = "string list"
type_synonym sources = "(file_path \<times> string) list"

text \<open>The files below a directory, with their paths relative to it.\<close>

definition below :: "string \<Rightarrow> sources \<Rightarrow> sources" where
  "below dir src = List.map_filter (\<lambda>(p, b). case p of [] \<Rightarrow> None | d # q \<Rightarrow> if d = dir \<and> q \<noteq> [] then Some (q, b) else None) src"

text \<open>\<open>sorted(dir.rglob("*.py"))\<close> without cached files, and what of them is hashed.\<close>

definition is_source :: "file_path \<Rightarrow> bool" where
  "is_source q = (suffix ''.py'' (last q) \<and> ''__pycache__'' \<notin> set q)"

definition python_files :: "string \<Rightarrow> sources \<Rightarrow> sources" where
  "python_files dir src = sort_key fst (filter (\<lambda>(q, b). is_source q) (below dir src))"

definition hashed_text :: "string \<Rightarrow> sources \<Rightarrow> string" where
  "hashed_text name src = concat (map (\<lambda>dir. concat (map (\<lambda>(q, b). join ''/'' (dir # q) @ b) (python_files dir src))) [name, ''common''])"

text \<open>The name of the staging directory: \<open>digest\<close> gives the hexadecimal SHA-256 of a text.\<close>

definition stage_key :: "(string \<Rightarrow> string) \<Rightarrow> string \<Rightarrow> sources \<Rightarrow> string" where
  "stage_key digest name src = name @ ''-'' @ take 12 (digest (hashed_text name src))"

text \<open>What \<open>copytree\<close> copies: all but cached files; the shared package goes below \<open>common\<close>.\<close>

definition ignored :: "file_path \<Rightarrow> bool" where
  "ignored q = list_ex (\<lambda>part. part = ''__pycache__'' \<or> suffix ''.pyc'' part) q"

definition copied_files :: "string \<Rightarrow> sources \<Rightarrow> sources" where
  "copied_files dir src = filter (\<lambda>(q, b). \<not> ignored q) (below dir src)"

definition common_files :: "sources \<Rightarrow> sources" where
  "common_files src = map (\<lambda>(q, b). (''common'' # q, b)) (copied_files ''common'' src)"

section \<open>Directories\<close>

text \<open>A directory: its files, and whether \<open>common\<close> is in it. A slot: what is at the two paths of a key.\<close>

record stage_tree =
  tr_files :: sources
  tr_common :: bool

record stage_slot =
  sl_dest :: "stage_tree option"
  sl_tmp :: "stage_tree option"

definition empty_tree :: stage_tree where
  "empty_tree = \<lparr>tr_files = [], tr_common = False\<rparr>"

definition put_file :: "file_path \<times> string \<Rightarrow> stage_tree \<Rightarrow> stage_tree" where
  "put_file f t = t\<lparr>tr_files := AList.update (fst f) (snd f) (tr_files t), tr_common := (tr_common t \<or> hd (fst f) = ''common'')\<rparr>"

definition make_common :: "stage_tree \<Rightarrow> stage_tree" where
  "make_common t = t\<lparr>tr_common := True\<rparr>"

section \<open>One synthesis\<close>

text \<open>Where it is in the function; what is left to copy, and whether a copy has failed so far.\<close>

datatype stage_pc = Checking | Clearing | MakeTree | CopyHandler bool sources | MakeCommon
  | CopyCommon bool sources | Renaming | Dropping | Returned | Raised

text \<open>
  One operation of the synthesis that stages the files \<open>hs\<close> and \<open>cs\<close>, on the slot of its key. \<open>copytree\<close> makes
  its directory, with the parents, and raises if it is there; a file that cannot be copied does not stop it,
  it raises at the end. A rename fails if there is nothing to rename or something at its target, but for an
  empty directory.
\<close>

fun stage_step :: "sources \<Rightarrow> sources \<Rightarrow> stage_pc \<Rightarrow> stage_slot \<Rightarrow> stage_pc \<times> stage_slot" where
  "stage_step hs cs Checking s = (if sl_dest s \<noteq> None then Returned else Clearing, s)"
| "stage_step hs cs Clearing s = (MakeTree, s\<lparr>sl_tmp := None\<rparr>)"
| "stage_step hs cs MakeTree s = (if sl_tmp s \<noteq> None then (Raised, s) else (CopyHandler False hs, s\<lparr>sl_tmp := Some empty_tree\<rparr>))"
| "stage_step hs cs (CopyHandler bad []) s = (if bad then Raised else MakeCommon, s)"
| "stage_step hs cs (CopyHandler bad (f # fs)) s = (case sl_tmp s of None \<Rightarrow> (CopyHandler True fs, s)
     | Some t \<Rightarrow> (CopyHandler bad fs, s\<lparr>sl_tmp := Some (put_file f t)\<rparr>))"
| "stage_step hs cs MakeCommon s = (case sl_tmp s of None \<Rightarrow> (CopyCommon False cs, s\<lparr>sl_tmp := Some (make_common empty_tree)\<rparr>)
     | Some t \<Rightarrow> if tr_common t then (Raised, s) else (CopyCommon False cs, s\<lparr>sl_tmp := Some (make_common t)\<rparr>))"
| "stage_step hs cs (CopyCommon bad []) s = (if bad then Raised else Renaming, s)"
| "stage_step hs cs (CopyCommon bad (f # fs)) s = (case sl_tmp s of None \<Rightarrow> (CopyCommon True fs, s)
     | Some t \<Rightarrow> (CopyCommon bad fs, s\<lparr>sl_tmp := Some (put_file f t)\<rparr>))"
| "stage_step hs cs Renaming s = (if sl_tmp s \<noteq> None \<and> (sl_dest s = None \<or> sl_dest s = Some empty_tree)
     then (Returned, \<lparr>sl_dest = sl_tmp s, sl_tmp = None\<rparr>) else (Dropping, s))"
| "stage_step hs cs Dropping s = (Returned, s\<lparr>sl_tmp := None\<rparr>)"
| "stage_step hs cs Returned s = (Returned, s)"
| "stage_step hs cs Raised s = (Raised, s)"

section \<open>Syntheses side by side\<close>

record synth =
  sy_key :: string
  sy_handler :: sources
  sy_common :: sources
  sy_pc :: stage_pc

definition synth_of :: "(string \<Rightarrow> string) \<Rightarrow> string \<Rightarrow> sources \<Rightarrow> synth" where
  "synth_of digest name src = \<lparr>sy_key = stage_key digest name src, sy_handler = copied_files name src,
     sy_common = common_files src, sy_pc = Checking\<rparr>"

type_synonym staging = "synth list \<times> (string \<Rightarrow> stage_slot)"

definition synth_step :: "synth \<Rightarrow> stage_slot \<Rightarrow> synth \<times> stage_slot" where
  "synth_step y s = (case stage_step (sy_handler y) (sy_common y) (sy_pc y) s of (pc, s') \<Rightarrow> (y\<lparr>sy_pc := pc\<rparr>, s'))"

definition turn :: "nat \<Rightarrow> staging \<Rightarrow> staging" where
  "turn i st = (case st of (ys, area) \<Rightarrow> if i < length ys
     then (case synth_step (ys ! i) (area (sy_key (ys ! i))) of (y, s) \<Rightarrow> (ys[i := y], area(sy_key (ys ! i) := s)))
     else st)"

definition run_schedule :: "nat list \<Rightarrow> staging \<Rightarrow> staging" where
  "run_schedule is st = fold turn is st"

text \<open>What is meant to be staged.\<close>

definition staged_tree :: "sources \<Rightarrow> sources \<Rightarrow> stage_tree" where
  "staged_tree hs cs = fold put_file cs (make_common (fold put_file hs empty_tree))"

lemma put_files_map: "map_of (tr_files (fold put_file fs t)) = map_of (tr_files t) ++ map_of (rev fs)"
  by (induction fs arbitrary: t) (auto simp: put_file_def update_conv map_add_def fun_eq_iff split: option.splits)

lemma staged_tree_files: "map_of (tr_files (staged_tree hs cs)) = map_of (rev (hs @ cs))"
  by (simp add: staged_tree_def put_files_map make_common_def empty_tree_def)

section \<open>What is staged stays\<close>

lemma stage_step_keeps:
  assumes "stage_step hs cs pc s = (pc', s')" "sl_dest s = Some t" "t \<noteq> empty_tree"
  shows "sl_dest s' = Some t"
  using assms by (cases "(hs, cs, pc, s)" rule: stage_step.cases) (auto split: option.splits if_splits)

lemma turn_keeps:
  assumes "sl_dest (area k) = Some t" "t \<noteq> empty_tree"
  shows "sl_dest (snd (turn i (ys, area)) k) = Some t"
  using assms by (auto simp: turn_def synth_step_def split: prod.splits dest: stage_step_keeps)

lemma schedule_keeps:
  assumes "sl_dest (area k) = Some t" "t \<noteq> empty_tree"
  shows "sl_dest (snd (run_schedule is (ys, area)) k) = Some t"
  using assms
proof (induction "is" arbitrary: ys area)
  case (Cons i js)
  obtain ys' area' where t: "turn i (ys, area) = (ys', area')" by (cases "turn i (ys, area)")
  then have "sl_dest (area' k) = Some t" using turn_keeps [of area k t i ys] Cons.prems by simp
  then have "sl_dest (snd (run_schedule js (ys', area')) k) = Some t" using Cons.IH Cons.prems(2) by blast
  then show ?case by (simp add: run_schedule_def t)
qed (simp add: run_schedule_def)

text \<open>
  A staged directory is never touched again: whatever syntheses are at work, on whatever sources and in
  whatever order their operations come, those that stage the same key included, a directory that has been
  staged is not removed, replaced or changed, so that a bundler can go on working in it.
\<close>

theorem staged_never_changes:
  assumes "sl_dest (area k) = Some t" "t \<noteq> empty_tree"
  shows "sl_dest (snd (run_schedule is (ys, area)) k) = Some t"
  using assms by (rule schedule_keeps)

section \<open>One synthesis per key\<close>

text \<open>A synthesis alone on its slot.\<close>

definition alone :: "nat \<Rightarrow> synth \<times> stage_slot \<Rightarrow> synth \<times> stage_slot" where
  "alone n p = ((\<lambda>(y, s). synth_step y s) ^^ n) p"

lemma alone_simps [simp]: "alone 0 p = p" "alone (Suc n) (y, s) = alone n (synth_step y s)"
  by (simp_all add: alone_def funpow_swap1)

lemma alone_add: "alone (n + m) p = alone m (alone n p)"
  by (simp add: alone_def funpow_add add.commute [of n m])

lemma synth_step_fixed: "sy_key (fst (synth_step y s)) = sy_key y"
  by (simp add: synth_step_def split: prod.splits)

lemma turn_keys: "map sy_key (fst (turn i (ys, area))) = map sy_key ys"
  by (auto simp: turn_def map_update split: prod.splits)
    (metis fst_conv list_update_id map_update nth_map synth_step_fixed)

text \<open>With distinct keys no synthesis sees the others: it is where it would be alone after its own turns.\<close>

lemma schedule_is_local:
  assumes "distinct (map sy_key ys)" "i < length ys" "run_schedule is (ys, area) = (ys', area')"
  shows "(ys' ! i, area' (sy_key (ys ! i))) = alone (count_list is i) (ys ! i, area (sy_key (ys ! i))) \<and> i < length ys'"
  using assms
proof (induction "is" arbitrary: ys area)
  case Nil
  then show ?case by (simp add: run_schedule_def)
next
  case (Cons j js)
  obtain ys1 area1 where t: "turn j (ys, area) = (ys1, area1)" by (cases "turn j (ys, area)")
  have keys: "map sy_key ys1 = map sy_key ys" using turn_keys [of j ys area] t by simp
  then have len: "length ys1 = length ys" using map_eq_imp_length_eq by blast
  have key: "sy_key (ys1 ! i) = sy_key (ys ! i)" using keys len Cons.prems(2) by (metis nth_map)
  have rest: "(ys' ! i, area' (sy_key (ys1 ! i))) = alone (count_list js i) (ys1 ! i, area1 (sy_key (ys1 ! i))) \<and> i < length ys'"
    using Cons.IH [of ys1 area1] Cons.prems keys len by (simp add: run_schedule_def t)
  show ?case
  proof (cases "j = i")
    case True
    then have "(ys1 ! i, area1 (sy_key (ys ! i))) = synth_step (ys ! i) (area (sy_key (ys ! i)))"
      using t Cons.prems(2) by (auto simp: turn_def split: prod.splits)
    then show ?thesis using rest True key by simp
  next
    case False
    then have "ys1 ! i = ys ! i \<and> area1 (sy_key (ys ! i)) = area (sy_key (ys ! i))"
      using t Cons.prems(1,2) by (auto simp: turn_def distinct_conv_nth split: prod.splits if_splits)
    then show ?thesis using rest False key by simp
  qed
qed

lemma copies_handler:
  "alone (length fs) (y\<lparr>sy_pc := CopyHandler False fs\<rparr>, s\<lparr>sl_tmp := Some t\<rparr>) =
    (y\<lparr>sy_pc := CopyHandler False []\<rparr>, s\<lparr>sl_tmp := Some (fold put_file fs t)\<rparr>)"
  by (induction fs arbitrary: t) (simp_all add: synth_step_def)

lemma copies_common:
  "alone (length fs) (y\<lparr>sy_pc := CopyCommon False fs\<rparr>, s\<lparr>sl_tmp := Some t\<rparr>) =
    (y\<lparr>sy_pc := CopyCommon False []\<rparr>, s\<lparr>sl_tmp := Some (fold put_file fs t)\<rparr>)"
  by (induction fs arbitrary: t) (simp_all add: synth_step_def)

text \<open>The handler has no directory \<open>common\<close> of its own.\<close>

definition no_common :: "sources \<Rightarrow> bool" where
  "no_common fs = list_all (\<lambda>f. hd (fst f) \<noteq> ''common'') fs"

lemma put_files_common:
  "no_common fs \<Longrightarrow> tr_common (fold put_file fs t) = tr_common t"
  by (induction fs arbitrary: t) (simp_all add: no_common_def put_file_def)

definition whole_stage :: "synth \<Rightarrow> stage_tree" where
  "whole_stage y = staged_tree (sy_handler y) (sy_common y)"

definition turns_needed :: "synth \<Rightarrow> nat" where
  "turns_needed y = length (sy_handler y) + length (sy_common y) + 7"

lemma alone_stages:
  assumes "sy_pc y = Checking" "sl_dest s = None" "no_common (sy_handler y)"
  shows "alone (turns_needed y) (y, s) = (y\<lparr>sy_pc := Returned\<rparr>, \<lparr>sl_dest = Some (whole_stage y), sl_tmp = None\<rparr>)"
proof -
  let ?hs = "sy_handler y" and ?cs = "sy_common y"
  let ?t = "fold put_file ?hs empty_tree"
  have n: "turns_needed y = 3 + (length ?hs + (2 + (length ?cs + 2)))" by (simp add: turns_needed_def)
  have a: "alone 3 (y, s) = (y\<lparr>sy_pc := CopyHandler False ?hs\<rparr>, s\<lparr>sl_tmp := Some empty_tree\<rparr>)"
    using assms(1,2) by (simp add: eval_nat_numeral synth_step_def)
  have c: "\<not> tr_common ?t" using put_files_common [OF assms(3)] by (simp add: empty_tree_def)
  have b: "alone 2 (y\<lparr>sy_pc := CopyHandler False []\<rparr>, s\<lparr>sl_tmp := Some ?t\<rparr>) =
      (y\<lparr>sy_pc := CopyCommon False ?cs\<rparr>, s\<lparr>sl_tmp := Some (make_common ?t)\<rparr>)"
    using c by (simp add: eval_nat_numeral synth_step_def)
  have d: "alone 2 (y\<lparr>sy_pc := CopyCommon False []\<rparr>, s\<lparr>sl_tmp := Some (whole_stage y)\<rparr>) =
      (y\<lparr>sy_pc := Returned\<rparr>, \<lparr>sl_dest = Some (whole_stage y), sl_tmp = None\<rparr>)"
    using assms(2) by (simp add: eval_nat_numeral synth_step_def)
  have w: "fold put_file ?cs (make_common ?t) = whole_stage y" by (simp add: whole_stage_def staged_tree_def)
  show ?thesis unfolding n alone_add a copies_handler b copies_common w d ..
qed

lemma synth_step_returned: "sy_pc y = Returned \<Longrightarrow> synth_step y s = (y, s)"
  by (cases y) (simp add: synth_step_def)

lemma alone_returned: "sy_pc y = Returned \<Longrightarrow> alone n (y, s) = (y, s)"
  by (induction n) (simp_all add: synth_step_returned)

lemma alone_reuses:
  assumes "sy_pc y = Checking" "sl_dest s = Some t" "0 < n"
  shows "alone n (y, s) = (y\<lparr>sy_pc := Returned\<rparr>, s)"
  using assms by (cases n) (simp_all add: synth_step_def alone_returned)

text \<open>A synthesis puts something at its target only with the operation that ends it.\<close>

lemma stage_step_target: "stage_step hs cs pc s = (pc', s') \<Longrightarrow> sl_dest s' = sl_dest s \<or> pc' = Returned"
  by (cases "(hs, cs, pc, s)" rule: stage_step.cases) (auto split: option.splits if_splits)

lemma alone_target:
  "alone n (y, s) = (y', s') \<Longrightarrow> sl_dest s' = sl_dest s \<or> sy_pc y' = Returned"
proof (induction n arbitrary: y s)
  case (Suc n)
  obtain y1 s1 where t: "synth_step y s = (y1, s1)" by (cases "synth_step y s")
  then have step: "sl_dest s1 = sl_dest s \<or> sy_pc y1 = Returned"
    by (auto simp: synth_step_def split: prod.splits dest: stage_step_target)
  have rest: "alone n (y1, s1) = (y', s')" using Suc.prems t by simp
  show ?case
  proof (cases "sy_pc y1 = Returned")
    case True
    then show ?thesis using rest alone_returned [of y1 n s1] by simp
  next
    case False
    then show ?thesis using step Suc.IH [OF rest] by simp
  qed
qed simp

lemma alone_all_or_nothing:
  assumes "sy_pc y = Checking" "no_common (sy_handler y)" "alone n (y, s) = (y', s')"
  shows "(sl_dest s' = sl_dest s \<or> sl_dest s' = Some (whole_stage y)) \<and>
    (turns_needed y \<le> n \<longrightarrow> sy_pc y' = Returned) \<and>
    (sy_pc y' = Returned \<longrightarrow> sl_dest s' = Some (case sl_dest s of None \<Rightarrow> whole_stage y | Some t \<Rightarrow> t))"
proof (cases "sl_dest s")
  case (Some t)
  then show ?thesis using assms alone_reuses [OF assms(1) Some, of n] by (cases n) (auto simp: turns_needed_def)
next
  case None
  note full = alone_stages [OF assms(1) None assms(2)]
  show ?thesis
  proof (cases "turns_needed y \<le> n")
    case True
    then obtain m where "n = turns_needed y + m" using le_Suc_ex by blast
    then have "alone n (y, s) = (y\<lparr>sy_pc := Returned\<rparr>, \<lparr>sl_dest = Some (whole_stage y), sl_tmp = None\<rparr>)"
      by (simp add: alone_add full alone_returned)
    then show ?thesis using assms(3) None by auto
  next
    case False
    then obtain m where "turns_needed y = n + m" by (metis le_Suc_ex nat_le_linear)
    then have rest: "alone m (y', s') = (y\<lparr>sy_pc := Returned\<rparr>, \<lparr>sl_dest = Some (whole_stage y), sl_tmp = None\<rparr>)"
      using full assms(3) by (simp add: alone_add)
    have "sl_dest s' = Some (whole_stage y)" if "sy_pc y' = Returned" using rest alone_returned [OF that, of m s'] by simp
    then show ?thesis using alone_target [OF assms(3)] None False by auto
  qed
qed

text \<open>
  C33. A half-copied directory is never seen: when no two syntheses stage the same key, then whatever the order
  of their operations, what is at the target of one is what was there before or the handler's files overlaid
  with the shared package, whole; after enough turns of its own the call has returned the path of such a
  directory, even with the leftovers of an earlier synthesis in the temporary one.
\<close>

theorem staging_isolated:
  assumes "distinct (map sy_key ys)" "i < length ys" "ys ! i = synth_of digest name src"
    "no_common (copied_files name src)" "run_schedule is (ys, area) = (ys', area')"
  shows "let k = stage_key digest name src; new = staged_tree (copied_files name src) (common_files src);
      enough = length (copied_files name src) + length (common_files src) + 7
    in (sl_dest (area' k) = sl_dest (area k) \<or> sl_dest (area' k) = Some new) \<and>
      (enough \<le> count_list is i \<longrightarrow> sy_pc (ys' ! i) = Returned) \<and>
      (sy_pc (ys' ! i) = Returned \<longrightarrow> sl_dest (area' k) = Some (case sl_dest (area k) of None \<Rightarrow> new | Some t \<Rightarrow> t))"
proof -
  let ?y = "synth_of digest name src"
  have here: "sy_pc ?y = Checking" "no_common (sy_handler ?y)"
    "sy_key ?y = stage_key digest name src" "whole_stage ?y = staged_tree (copied_files name src) (common_files src)"
    "turns_needed ?y = length (copied_files name src) + length (common_files src) + 7"
    using assms(4) by (simp_all add: synth_of_def whole_stage_def turns_needed_def)
  have "alone (count_list is i) (?y, area (sy_key ?y)) = (ys' ! i, area' (sy_key ?y))"
    using schedule_is_local [OF assms(1,2,5)] assms(3) by simp
  from alone_all_or_nothing [OF here(1,2) this] show ?thesis unfolding here Let_def .
qed

section \<open>What the digest does not tell apart\<close>

text \<open>The files of the API, and a key for every text.\<close>

definition small_sources :: sources where
  "small_sources = [([''api'', ''handler.py''], ''a = 1''), ([''api'', ''requirements.txt''], ''boto3''),
     ([''common'', ''ddb.py''], ''b = 2''), ([''common'', ''__pycache__'', ''ddb.pyc''], ''x'')]"

definition nothing_staged :: "string \<Rightarrow> stage_slot" where
  "nothing_staged = (\<lambda>k. \<lparr>sl_dest = None, sl_tmp = None\<rparr>)"

definition two_names :: "synth list" where
  "two_names = [synth_of (\<lambda>t. t) ''api'' small_sources, synth_of (\<lambda>t. t) ''scaler'' small_sources]"

definition turns_apart :: "nat list" where
  "turns_apart = [0, 1, 0, 1, 0, 0, 1, 1, 0, 0, 1, 0, 1, 0, 0, 0, 0]"

theorem staged_never_changes_witness:
  "let st = run_schedule turns_apart (two_names, nothing_staged); k = stage_key (\<lambda>t. t) ''api'' small_sources
   in sl_dest (snd (run_schedule [0, 1, 0, 1] ([synth_of (\<lambda>t. t) ''api'' small_sources, synth_of (\<lambda>t. t) ''api'' []], snd st)) k)
     = Some (staged_tree (copied_files ''api'' small_sources) (common_files small_sources))"
proof -
  let ?k = "stage_key (\<lambda>t. t) ''api'' small_sources" and ?new = "staged_tree (copied_files ''api'' small_sources) (common_files small_sources)"
  have "sl_dest (snd (run_schedule turns_apart (two_names, nothing_staged)) ?k) = Some ?new" by code_simp
  moreover have "?new \<noteq> empty_tree" by code_simp
  ultimately show ?thesis
    using staged_never_changes [of "snd (run_schedule turns_apart (two_names, nothing_staged))" ?k ?new "[0, 1, 0, 1]"] by (simp add: Let_def)
qed

theorem staging_isolated_witness:
  "let st = run_schedule turns_apart (two_names, nothing_staged)
   in sy_pc (fst st ! 0) = Returned \<and> sl_dest (snd st (stage_key (\<lambda>t. t) ''api'' small_sources)) =
     Some (staged_tree (copied_files ''api'' small_sources) (common_files small_sources))"
proof -
  let ?st = "run_schedule turns_apart (two_names, nothing_staged)"
  have "distinct (map sy_key two_names)" "0 < length two_names" "no_common (copied_files ''api'' small_sources)"
    "length (copied_files ''api'' small_sources) + length (common_files small_sources) + 7 \<le> count_list turns_apart 0" by code_simp+
  moreover have "two_names ! 0 = synth_of (\<lambda>t. t) ''api'' small_sources" by (simp add: two_names_def)
  ultimately show ?thesis
    using staging_isolated [of two_names 0 "\<lambda>t. t" "''api''" small_sources turns_apart nothing_staged "fst ?st" "snd ?st"]
    by (simp add: Let_def nothing_staged_def)
qed

text \<open>
  The hypothesis on the keys is needed. The temporary directory is named after the key alone: when a second
  synthesis of the same sources clears it while the first one is copying, the first renames a directory without
  the handler into place, and by the property above it stays there for every later synthesis.
\<close>

definition same_twice :: "synth list" where
  "same_twice = [synth_of (\<lambda>t. t) ''api'' small_sources, synth_of (\<lambda>t. t) ''api'' small_sources]"

text \<open>The first has copied the handler when the second clears; both then return.\<close>

definition race :: "nat list" where
  "race = [0, 1, 0, 0, 0, 0, 0, 1, 0, 0, 0, 0, 1, 1]"

lemma concurrent_stages_mix:
  "let st = run_schedule (race @ later) (same_twice, nothing_staged); k = stage_key (\<lambda>t. t) ''api'' small_sources
   in sl_dest (snd st k) = Some (staged_tree [] (common_files small_sources)) \<and>
     map_of (tr_files (staged_tree [] (common_files small_sources))) [''handler.py''] = None"
proof -
  let ?k = "stage_key (\<lambda>t. t) ''api'' small_sources" and ?half = "staged_tree [] (common_files small_sources)"
  obtain ys area where st: "run_schedule race (same_twice, nothing_staged) = (ys, area)" by fastforce
  have "sl_dest (snd (run_schedule race (same_twice, nothing_staged)) ?k) = Some ?half" by code_simp
  moreover have "?half \<noteq> empty_tree" "map_of (tr_files ?half) [''handler.py''] = None" by code_simp+
  ultimately show ?thesis using schedule_keeps [of area ?k ?half later ys] st by (simp add: run_schedule_def Let_def)
qed

text \<open>A file that is copied and is not Python leaves the key as it is: an edit of it is not staged.\<close>

lemma edits_unseen:
  assumes "\<not> is_source q"
  shows "stage_key digest name (src @ [(dir # q, b)]) = stage_key digest name src"
  using assms by (cases q) (auto simp: stage_key_def hashed_text_def python_files_def below_def map_filter_def)

lemma edit_not_staged:
  "let edited = small_sources @ [([''api'', ''notes.txt''], ''v2'')] in
   stage_key digest ''api'' edited = stage_key digest ''api'' small_sources \<and> copied_files ''api'' edited \<noteq> copied_files ''api'' small_sources"
proof -
  have "\<not> is_source [''notes.txt'']" by code_simp
  moreover have "copied_files ''api'' (small_sources @ [([''api'', ''notes.txt''], ''v2'')]) \<noteq> copied_files ''api'' small_sources" by code_simp
  ultimately show ?thesis using edits_unseen [of "[''notes.txt'']" digest "''api''" small_sources "''api''" "''v2''"] by (simp add: Let_def)
qed

text \<open>Nor are the names and the bytes of the files set apart in what is hashed.\<close>

lemma hashed_text_ambiguous:
  "hashed_text ''api'' [([''api'', ''a.py''], ''api/b.py'')] = hashed_text ''api'' [([''api'', ''a.py''], []), ([''api'', ''b.py''], [])]"
  by code_simp

end
