(* ===== verification/Patterns.thy ===== *)
theory Patterns
  imports Prelude
begin

text \<open>
  Wildcard patterns, as the paths of a distribution's behaviours and the names and resources of a policy use
  them: \<open>*\<close> stands for any text, \<open>?\<close> for one character.
\<close>

fun glob :: "string \<Rightarrow> string \<Rightarrow> bool" where
  "glob [] s = (s = [])"
| "glob (p # ps) [] = (p = CHR ''*'' \<and> glob ps [])"
| "glob (p # ps) (c # s) = (if p = CHR ''*'' then glob ps (c # s) \<or> glob (p # ps) s else (p = CHR ''?'' \<or> p = c) \<and> glob ps s)"

definition plain :: "string \<Rightarrow> bool" where
  "plain s = (CHR ''*'' \<notin> set s \<and> CHR ''?'' \<notin> set s)"

lemma plain_simps [simp]: "plain []" "plain (c # s) = (c \<noteq> CHR ''*'' \<and> c \<noteq> CHR ''?'' \<and> plain s)" "plain (s @ t) = (plain s \<and> plain t)"
  by (auto simp: plain_def)

lemma glob_plain: "plain p \<Longrightarrow> glob p s = (s = p)"
  by (induction p s rule: glob.induct) auto

lemma glob_star [simp]: "glob ''*'' s"
  by (induction s) auto

lemma glob_literal: "plain l \<Longrightarrow> glob (l @ p) s = (\<exists>t. s = l @ t \<and> glob p t)"
proof (induction l arbitrary: s)
  case (Cons c l)
  then show ?case by (cases s) auto
qed simp

lemma glob_prefix: "plain l \<Longrightarrow> glob (l @ ''*'') s = prefix l s"
  by (simp add: glob_literal prefix_def)

text \<open>Two patterns that begin with different texts match nothing in common.\<close>

lemma glob_apart:
  assumes "glob (l @ p) s" "plain l" "\<not> prefix l s"
  shows False
  using assms by (auto simp: glob_literal prefix_def)

end
