(* ===== verification/Edge.thy ===== *)
theory Edge
  imports Settings Patterns
begin

text \<open>
  The edge of the deployment (\<open>_build_cloudfront\<close>, \<open>_build_console_auth\<close> and \<open>_build_outputs\<close> of
  deploy/stack.py): which distributions stand in front of the console's bucket and of the load balancer with
  the tenants' dashboards, where the sign-in sends its tokens, and what the stack gives out. A request is
  followed through a distribution as CloudFront documents it: the first behaviour whose pattern matches the
  path of the viewer decides, before the function that rewrites the path runs.
\<close>

section \<open>Configuration\<close>

record edge_config =
  ec_console_domain :: string
  ec_console_cert :: string
  ec_app_domain :: string
  ec_app_cert :: string
  ec_custom_domain :: string
  ec_acm_cert :: string
  ec_enabled :: bool

text \<open>\<open>(cf_cfg.get(k) or "").strip()\<close>.\<close>

definition stripped :: "json \<Rightarrow> string \<Rightarrow> exn + string" where
  "stripped d k = bind_sum (get_or d k JNull) (\<lambda>v. if \<not> truthy v then Inr [] else (case v of JStr s \<Rightarrow> Inr (strip s)
     | _ \<Rightarrow> Inl (no_attribute v ''strip'')))"

definition read_edge :: "json \<Rightarrow> exn + edge_config" where
  "read_edge cfg = bind_sum (section_or_empty cfg ''cloudfront'') (\<lambda>cf.
     bind_sum (stripped cf ''console_domain'') (\<lambda>cd. bind_sum (stripped cf ''console_cert_arn'') (\<lambda>cc.
     bind_sum (stripped cf ''app_domain'') (\<lambda>ad. bind_sum (stripped cf ''app_cert_arn'') (\<lambda>ac.
     bind_sum (stripped cf ''custom_domain'') (\<lambda>cu. bind_sum (stripped cf ''acm_cert_arn'') (\<lambda>am.
     bind_sum (get_or cf ''enabled'' (JBool True)) (\<lambda>on.
     Inr \<lparr>ec_console_domain = cd, ec_console_cert = cc, ec_app_domain = ad, ec_app_cert = ac, ec_custom_domain = cu,
       ec_acm_cert = am, ec_enabled = truthy on\<rparr>))))))))"

text \<open>What is known once the resources exist.\<close>

record edge_resources =
  er_bucket_host :: string
  er_alb_host :: string
  er_console_cf_id :: string
  er_console_cf_host :: string
  er_app_cf_id :: string
  er_app_cf_host :: string
  er_single_cf_id :: string
  er_single_cf_host :: string
  er_account :: string
  er_region :: string
  er_new_pool_id :: string
  er_client_id :: string

section \<open>Distributions\<close>

datatype edge_origin = Bucket | LoadBalancer

record behaviour =
  bh_origin :: edge_origin
  bh_cached :: bool
  bh_all_methods :: bool
  bh_all_headers :: bool
  bh_rewrites :: bool

record distribution =
  di_id :: string
  di_host :: string
  di_aliases :: "string list"
  di_certificate :: "string option"
  di_default :: behaviour
  di_extra :: "(string \<times> behaviour) list"

record edge =
  ed_distributions :: "distribution list"
  ed_dual :: bool
  ed_custom_domain :: string
  ed_console_host :: string
  ed_dashboard_host :: string
  ed_console_id :: string
  ed_app_id :: string
  ed_signs_in_at :: "distribution option"
  ed_warns :: bool

definition console_behaviour :: behaviour where
  "console_behaviour = \<lparr>bh_origin = Bucket, bh_cached = True, bh_all_methods = False, bh_all_headers = False, bh_rewrites = True\<rparr>"

definition app_behaviour :: "bool \<Rightarrow> behaviour" where
  "app_behaviour rewrites = \<lparr>bh_origin = LoadBalancer, bh_cached = False, bh_all_methods = True, bh_all_headers = True,
     bh_rewrites = rewrites\<rparr>"

definition dual_mode :: "edge_config \<Rightarrow> bool" where
  "dual_mode c = (ec_console_domain c \<noteq> [] \<and> ec_console_cert c \<noteq> [] \<and> ec_app_domain c \<noteq> [] \<and> ec_app_cert c \<noteq> [])"

definition console_cf :: "edge_config \<Rightarrow> edge_resources \<Rightarrow> distribution" where
  "console_cf c r = \<lparr>di_id = er_console_cf_id r, di_host = er_console_cf_host r, di_aliases = [ec_console_domain c],
     di_certificate = Some (ec_console_cert c), di_default = console_behaviour, di_extra = []\<rparr>"

definition app_cf :: "edge_config \<Rightarrow> edge_resources \<Rightarrow> distribution" where
  "app_cf c r = \<lparr>di_id = er_app_cf_id r, di_host = er_app_cf_host r, di_aliases = [ec_app_domain c],
     di_certificate = Some (ec_app_cert c), di_default = app_behaviour False, di_extra = []\<rparr>"

definition single_cf :: "edge_config \<Rightarrow> edge_resources \<Rightarrow> distribution" where
  "single_cf c r = \<lparr>di_id = er_single_cf_id r, di_host = er_single_cf_host r,
     di_aliases = (if ec_custom_domain c \<noteq> [] then [ec_custom_domain c] else []),
     di_certificate = (if ec_custom_domain c \<noteq> [] \<and> ec_acm_cert c \<noteq> [] then Some (ec_acm_cert c) else None),
     di_default = app_behaviour True, di_extra = [(''/console/*'', console_behaviour)]\<rparr>"

definition build_cloudfront :: "edge_config \<Rightarrow> edge_resources \<Rightarrow> edge" where
  "build_cloudfront c r =
     (if \<not> ec_enabled c then \<lparr>ed_distributions = [], ed_dual = False, ed_custom_domain = ec_custom_domain c,
        ed_console_host = er_bucket_host r, ed_dashboard_host = er_alb_host r, ed_console_id = [], ed_app_id = [],
        ed_signs_in_at = None, ed_warns = list_ex (\<lambda>s. s \<noteq> []) [ec_console_domain c, ec_console_cert c, ec_app_domain c,
          ec_app_cert c, ec_custom_domain c, ec_acm_cert c]\<rparr>
      else if dual_mode c then \<lparr>ed_distributions = [console_cf c r, app_cf c r], ed_dual = True,
        ed_custom_domain = ec_custom_domain c, ed_console_host = ec_console_domain c, ed_dashboard_host = ec_app_domain c,
        ed_console_id = er_console_cf_id r, ed_app_id = er_app_cf_id r, ed_signs_in_at = Some (console_cf c r), ed_warns = False\<rparr>
      else (let host = (if ec_custom_domain c \<noteq> [] then ec_custom_domain c else er_single_cf_host r) in
        \<lparr>ed_distributions = [single_cf c r], ed_dual = False, ed_custom_domain = ec_custom_domain c, ed_console_host = host,
         ed_dashboard_host = host, ed_console_id = er_single_cf_id r, ed_app_id = er_single_cf_id r,
         ed_signs_in_at = Some (single_cf c r), ed_warns = False\<rparr>))"

section \<open>Sign-in\<close>

definition console_path :: string where
  "console_path = ''/console/index.html''"

definition callback_urls :: "edge \<Rightarrow> string list" where
  "callback_urls e = (''https://'' @ ed_console_host e @ console_path) #
     (case ed_signs_in_at e of Some d \<Rightarrow> if \<not> ed_dual e \<and> ed_custom_domain e \<noteq> [] then [''https://'' @ di_host d @ console_path] else []
       | None \<Rightarrow> [])"

text \<open>The pool is imported or made; both get one client with these URLs and the groups of the roles.\<close>

record console_auth =
  ca_imported :: bool
  ca_self_sign_up :: bool
  ca_domain_prefix :: string
  ca_callbacks :: "string list"
  ca_logouts :: "string list"
  ca_auth_flows :: "string list"
  ca_groups :: "(string \<times> int) list"
  ca_outputs :: "(string \<times> string) list"

definition role_groups :: "(string \<times> int) list" where
  "role_groups = [(''admin'', 1), (''operator'', 2), (''viewer'', 3)]"

text \<open>An identifier given to CDK has to be text.\<close>

definition as_string :: "json \<Rightarrow> exn + string" where
  "as_string v = (case v of JStr s \<Rightarrow> Inr s | _ \<Rightarrow> Inl (PyError TypeError (''must be a str; got '' @ type_name v)))"

definition cognito_domain :: "edge_resources \<Rightarrow> string \<Rightarrow> string" where
  "cognito_domain r dp = dp @ ''.auth.'' @ er_region r @ ''.amazoncognito.com''"

definition build_console_auth :: "json \<Rightarrow> edge \<Rightarrow> edge_resources \<Rightarrow> exn + console_auth option" where
  "build_console_auth cfg e r = bind_sum (cfg_section cfg ''console_auth'') (\<lambda>auth.
     bind_sum (get_or auth ''enabled'' (JBool False)) (\<lambda>on. if \<not> truthy on then Inr None
     else bind_sum (get_or auth ''user_pool_id'' (JStr [])) (\<lambda>existing.
     if truthy existing
     then bind_sum (as_string existing) (\<lambda>pool. Inr (Some \<lparr>ca_imported = True, ca_self_sign_up = False,
         ca_domain_prefix = ''openclaw-console'', ca_callbacks = callback_urls e, ca_logouts = callback_urls e,
         ca_auth_flows = [''ALLOW_USER_PASSWORD_AUTH'', ''ALLOW_USER_SRP_AUTH'', ''ALLOW_REFRESH_TOKEN_AUTH''],
         ca_groups = role_groups,
         ca_outputs = [(''CognitoUserPoolId'', pool), (''CognitoClientId'', er_client_id r),
           (''CognitoDomain'', cognito_domain r ''openclaw-console'')]\<rparr>))
     else bind_sum (get_or auth ''self_sign_up'' (JBool False)) (\<lambda>su. let dp = ''openclaw-console-'' @ er_account r in
       Inr (Some \<lparr>ca_imported = False, ca_self_sign_up = truthy su, ca_domain_prefix = dp,
         ca_callbacks = callback_urls e, ca_logouts = callback_urls e, ca_auth_flows = [], ca_groups = role_groups,
         ca_outputs = [(''CognitoUserPoolId'', er_new_pool_id r), (''CognitoClientId'', er_client_id r),
           (''CognitoDomain'', cognito_domain r dp)]\<rparr>)))))"

section \<open>Outputs\<close>

record stack_outputs =
  so_api_url :: string
  so_api_key_id :: string
  so_tenants_table :: string
  so_hosts_table :: string
  so_bucket :: string
  so_profile_arn :: string
  so_topic_arn :: string

definition output_unless_empty :: "string \<Rightarrow> string \<Rightarrow> (string \<times> string) list" where
  "output_unless_empty k v = (if v \<noteq> [] then [(k, v)] else [])"

text \<open>The dictionary of the outputs, in order.\<close>

definition build_outputs :: "stack_outputs \<Rightarrow> edge \<Rightarrow> console_auth option \<Rightarrow> (string \<times> string) list" where
  "build_outputs so e a =
     [(''ApiUrl'', so_api_url so), (''ApiKeyId'', so_api_key_id so), (''TenantsTable'', so_tenants_table so),
      (''HostsTable'', so_hosts_table so), (''AssetsBucket'', so_bucket so), (''HostInstanceProfileArn'', so_profile_arn so),
      (''ConsoleUrl'', ''https://'' @ ed_console_host e), (''DashboardUrl'', ''https://'' @ ed_dashboard_host e),
      (''DualDomainMode'', if ed_dual e then ''true'' else ''false'')] @
     output_unless_empty ''CloudfrontDistributionId'' (ed_console_id e) @
     output_unless_empty ''AppCloudfrontDistributionId'' (ed_app_id e) @
     output_unless_empty ''NotificationsTopicArn'' (so_topic_arn so) @
     (case a of None \<Rightarrow> [] | Some x \<Rightarrow> ca_outputs x)"

section \<open>Requests at the edge\<close>

text \<open>The function of the viewer requests.\<close>

datatype viewer_answer = RedirectTo string | Forward string

definition url_rewrite :: "string \<Rightarrow> viewer_answer" where
  "url_rewrite uri = (if uri = ''/'' then RedirectTo ''/console/''
     else if uri = ''/console'' \<or> uri = ''/console/'' then Forward console_path else Forward uri)"

text \<open>What becomes of a request: no distribution has the name, a redirect, or what is asked of which origin.\<close>

datatype edge_answer = Unserved | Redirected string | Fetched edge_origin bool string

definition dist_serves :: "string \<Rightarrow> distribution \<Rightarrow> bool" where
  "dist_serves host d = (host = di_host d \<or> host \<in> set (di_aliases d))"

definition behaviour_for :: "distribution \<Rightarrow> string \<Rightarrow> behaviour" where
  "behaviour_for d path = (case find (\<lambda>(p, b). glob p path) (di_extra d) of Some (p, b) \<Rightarrow> b | None \<Rightarrow> di_default d)"

definition edge_request :: "edge \<Rightarrow> string \<Rightarrow> string \<Rightarrow> edge_answer" where
  "edge_request e host path = (case find (dist_serves host) (ed_distributions e) of None \<Rightarrow> Unserved
     | Some d \<Rightarrow> let b = behaviour_for d path in
         if bh_rewrites b then (case url_rewrite path of RedirectTo l \<Rightarrow> Redirected l | Forward u \<Rightarrow> Fetched (bh_origin b) (bh_cached b) u)
         else Fetched (bh_origin b) (bh_cached b) path)"

text \<open>In dual mode the four names are different: an alias is not one of CloudFront's own names, nor given twice.\<close>

definition names_apart :: "edge_config \<Rightarrow> edge_resources \<Rightarrow> bool" where
  "names_apart c r = (dual_mode c \<longrightarrow> distinct [er_console_cf_host r, ec_console_domain c, er_app_cf_host r, ec_app_domain c])"

definition at_bucket :: "edge_answer \<Rightarrow> bool" where
  "at_bucket a = (case a of Fetched Bucket cached u \<Rightarrow> cached | Fetched LoadBalancer cached u \<Rightarrow> False | _ \<Rightarrow> False)"

section \<open>Who answers\<close>

lemma console_glob: "glob ''/console/*'' s = prefix ''/console/'' s"
  using glob_prefix [of "''/console/''" s] by simp

lemma edge_shapes:
  "\<not> ec_enabled c \<Longrightarrow> ed_distributions (build_cloudfront c r) = []"
  "ec_enabled c \<Longrightarrow> dual_mode c \<Longrightarrow> ed_distributions (build_cloudfront c r) = [console_cf c r, app_cf c r]"
  "ec_enabled c \<Longrightarrow> \<not> dual_mode c \<Longrightarrow> ed_distributions (build_cloudfront c r) = [single_cf c r]"
  by (simp_all add: build_cloudfront_def Let_def)

lemma console_requests:
  assumes "ec_enabled c" "dual_mode c" "dist_serves host (console_cf c r)"
  shows "edge_request (build_cloudfront c r) host path =
    (case url_rewrite path of RedirectTo l \<Rightarrow> Redirected l | Forward u \<Rightarrow> Fetched Bucket True u)"
  using assms
  by (simp add: edge_request_def edge_shapes behaviour_for_def console_cf_def console_behaviour_def Let_def split: viewer_answer.split)

lemma app_requests:
  assumes "ec_enabled c" "dual_mode c" "\<not> dist_serves host (console_cf c r)" "dist_serves host (app_cf c r)"
  shows "edge_request (build_cloudfront c r) host path = Fetched LoadBalancer False path"
  using assms
  by (simp add: edge_request_def edge_shapes behaviour_for_def app_cf_def app_behaviour_def Let_def)

lemma single_requests:
  assumes "ec_enabled c" "\<not> dual_mode c" "dist_serves host (single_cf c r)"
  shows "edge_request (build_cloudfront c r) host path =
    (case url_rewrite path of RedirectTo l \<Rightarrow> Redirected l
      | Forward u \<Rightarrow> if prefix ''/console/'' path then Fetched Bucket True u else Fetched LoadBalancer False u)"
  using assms
  by (simp add: edge_request_def edge_shapes behaviour_for_def single_cf_def console_behaviour_def app_behaviour_def
      console_glob Let_def split: viewer_answer.split)

lemma rewritten_paths: "url_rewrite console_path = Forward console_path" "prefix ''/console/'' console_path"
  "prefix ''/vm/'' path \<Longrightarrow> url_rewrite path = Forward path" "prefix ''/vm/'' path \<Longrightarrow> \<not> prefix ''/console/'' path"
  by (auto simp: url_rewrite_def console_path_def prefix_def)

lemma dashboard_requests:
  assumes "ec_enabled c" "names_apart c r" "prefix ''/vm/'' path"
  shows "edge_request (build_cloudfront c r) (ed_dashboard_host (build_cloudfront c r)) path = Fetched LoadBalancer False path"
proof (cases "dual_mode c")
  case True
  then have "\<not> dist_serves (ec_app_domain c) (console_cf c r)" "dist_serves (ec_app_domain c) (app_cf c r)"
    using assms(2) by (auto simp: names_apart_def dist_serves_def console_cf_def app_cf_def)
  then show ?thesis using app_requests [OF assms(1) True] assms(1) True by (simp add: build_cloudfront_def)
next
  case False
  have "dist_serves (ed_dashboard_host (build_cloudfront c r)) (single_cf c r)"
    using assms(1) False by (simp add: build_cloudfront_def dist_serves_def single_cf_def Let_def)
  then show ?thesis using single_requests [OF assms(1) False] by (simp add: rewritten_paths assms(3))
qed

text \<open>
  The dashboards of the tenants are reached and never cached: with CloudFront, whatever its mode, every
  request for a path below \<open>/vm/\<close> at the host given out for the dashboards goes to the load balancer with
  its path unchanged, and no answer of the load balancer is kept at the edge, under any name and path.
\<close>

theorem dashboards_never_cached:
  assumes "read_edge cfg = Inr c" "ec_enabled c" "names_apart c r" "e = build_cloudfront c r"
  shows "(prefix ''/vm/'' path \<longrightarrow> edge_request e (ed_dashboard_host e) path = Fetched LoadBalancer False path) \<and>
    (edge_request e host uri = Fetched LoadBalancer cached u \<longrightarrow> \<not> cached)"
proof -
  have "\<not> cached" if "edge_request (build_cloudfront c r) host uri = Fetched LoadBalancer cached u"
  proof (cases "dual_mode c")
    case True
    then show ?thesis using that assms(2) console_requests [OF assms(2) True] app_requests [OF assms(2) True]
      by (auto simp: edge_request_def edge_shapes behaviour_for_def console_cf_def app_cf_def console_behaviour_def
          app_behaviour_def Let_def split: if_splits viewer_answer.splits)
  next
    case False
    then show ?thesis using that assms(2) single_requests [OF assms(2) False]
      by (auto simp: edge_request_def edge_shapes behaviour_for_def single_cf_def console_behaviour_def
          app_behaviour_def Let_def console_glob split: if_splits viewer_answer.splits)
  qed
  then show ?thesis using dashboard_requests [OF assms(2,3)] assms(4) by blast
qed

lemma auth_urls:
  "build_console_auth cfg e r = Inr (Some a) \<Longrightarrow> ca_callbacks a = callback_urls e \<and> ca_logouts a = callback_urls e"
  by (auto simp: build_console_auth_def bind_sum_Inr Let_def split: if_splits)


section \<open>What is given out\<close>

definition identifiers_known :: "stack_outputs \<Rightarrow> edge_resources \<Rightarrow> bool" where
  "identifiers_known so r = list_all (\<lambda>s. s \<noteq> []) [so_api_url so, so_api_key_id so, so_tenants_table so, so_hosts_table so,
     so_bucket so, so_profile_arn so, er_console_cf_id r, er_app_cf_id r, er_single_cf_id r, er_single_cf_host r,
     er_new_pool_id r, er_client_id r]"

lemma auth_outputs:
  assumes "build_console_auth cfg e r = Inr (Some a)" "er_new_pool_id r \<noteq> []" "er_client_id r \<noteq> []"
  shows "map fst (ca_outputs a) = [''CognitoUserPoolId'', ''CognitoClientId'', ''CognitoDomain'']"
    "list_all (\<lambda>(k, v). v \<noteq> []) (ca_outputs a)"
  using assms by (auto simp: build_console_auth_def bind_sum_Inr Let_def as_string_def cognito_domain_def
      split: if_splits json.splits)

lemma edge_ids:
  assumes "er_console_cf_id r \<noteq> []" "er_app_cf_id r \<noteq> []" "er_single_cf_id r \<noteq> []"
  shows "(ed_console_id (build_cloudfront c r) = []) = (ed_distributions (build_cloudfront c r) = [])"
    "(ed_app_id (build_cloudfront c r) = []) = (ed_distributions (build_cloudfront c r) = [])"
  using assms by (simp_all add: build_cloudfront_def Let_def)

definition console_at :: "(string \<times> string) list \<Rightarrow> string" where
  "console_at outs = (case map_of outs ''ConsoleUrl'' of None \<Rightarrow> [] | Some v \<Rightarrow> v)"

lemma console_at_outputs: "console_at (build_outputs so e a) = ''https://'' @ ed_console_host e"
  by (simp add: console_at_def build_outputs_def)

lemma output_names:
  assumes "case a of None \<Rightarrow> True | Some x \<Rightarrow> map fst (ca_outputs x) = [''CognitoUserPoolId'', ''CognitoClientId'', ''CognitoDomain'']"
  shows "distinct (map fst (build_outputs so e a))"
  using assms by (cases a) (auto simp: build_outputs_def output_unless_empty_def)

text \<open>
  The stack's outputs can be deployed and fit together: no output is empty, none is given twice, a
  distribution is named exactly when there is one, and the first address of the sign-in is the console
  that is given out.
\<close>

theorem outputs_accepted:
  assumes "read_edge cfg = Inr c" "e = build_cloudfront c r" "build_console_auth cfg e r = Inr a" "identifiers_known so r"
  shows "list_all (\<lambda>(k, v). v \<noteq> []) (build_outputs so e a) \<and> distinct (map fst (build_outputs so e a)) \<and>
    (map_of (build_outputs so e a) ''CloudfrontDistributionId'' = None \<longleftrightarrow> ed_distributions e = []) \<and>
    (\<forall>x. a = Some x \<longrightarrow> hd (ca_callbacks x) = console_at (build_outputs so e a) @ console_path)"
proof -
  have known: "er_console_cf_id r \<noteq> []" "er_app_cf_id r \<noteq> []" "er_single_cf_id r \<noteq> []" "er_new_pool_id r \<noteq> []" "er_client_id r \<noteq> []"
    "list_all (\<lambda>s. s \<noteq> []) [so_api_url so, so_api_key_id so, so_tenants_table so, so_hosts_table so, so_bucket so, so_profile_arn so]"
    using assms(4) by (simp_all add: identifiers_known_def)
  have auth: "case a of None \<Rightarrow> True | Some x \<Rightarrow> map fst (ca_outputs x) = [''CognitoUserPoolId'', ''CognitoClientId'', ''CognitoDomain'']"
    "case a of None \<Rightarrow> True | Some x \<Rightarrow> list_all (\<lambda>(k, v). v \<noteq> []) (ca_outputs x)"
    using assms(3) auth_outputs [OF _ known(4,5)] by (auto split: option.split)
  have full: "list_all (\<lambda>(k, v). v \<noteq> []) (build_outputs so e a)"
    using known(6) auth(2) by (cases a) (auto simp: build_outputs_def output_unless_empty_def)
  have dist: "map_of (build_outputs so e a) ''CloudfrontDistributionId'' = None \<longleftrightarrow> ed_console_id e = []"
    using auth(1) by (cases a) (auto simp: build_outputs_def output_unless_empty_def map_of_eq_None_iff)
  have "hd (ca_callbacks x) = console_at (build_outputs so e a) @ console_path" if "a = Some x" for x
    using auth_urls [of cfg e r x] assms(3) that by (simp add: callback_urls_def console_at_outputs)
  then show ?thesis using full dist output_names [OF auth(1)] edge_ids [OF known(1-3)] assms(2) by simp
qed

section \<open>Two domains, and the gaps of one\<close>

definition two_domains :: json where
  "two_domains = JObj [(''cloudfront'', JObj [(''console_domain'', JStr '' console.example.com''), (''console_cert_arn'', JStr ''arn:1''),
     (''app_domain'', JStr ''app.example.com''), (''app_cert_arn'', JStr ''arn:2'')]),
     (''console_auth'', JObj [(''enabled'', JBool True)])]"

definition sample_edge :: edge_resources where
  "sample_edge = \<lparr>er_bucket_host = ''assets.s3.amazonaws.com'', er_alb_host = ''alb.amazonaws.com'', er_console_cf_id = ''E1'',
     er_console_cf_host = ''d1.cloudfront.net'', er_app_cf_id = ''E2'', er_app_cf_host = ''d2.cloudfront.net'',
     er_single_cf_id = ''E3'', er_single_cf_host = ''d3.cloudfront.net'', er_account = ''1'', er_region = ''r'',
     er_new_pool_id = ''pool'', er_client_id = ''client''\<rparr>"

definition sample_outputs :: stack_outputs where
  "sample_outputs = \<lparr>so_api_url = ''u'', so_api_key_id = ''k'', so_tenants_table = ''t'', so_hosts_table = ''h'',
     so_bucket = ''b'', so_profile_arn = ''p'', so_topic_arn = []\<rparr>"

definition two_domain_config :: edge_config where
  "two_domain_config = \<lparr>ec_console_domain = ''console.example.com'', ec_console_cert = ''arn:1'', ec_app_domain = ''app.example.com'',
     ec_app_cert = ''arn:2'', ec_custom_domain = [], ec_acm_cert = [], ec_enabled = True\<rparr>"

lemma two_domains_read:
  "read_edge two_domains = Inr two_domain_config" "ec_enabled two_domain_config" "names_apart two_domain_config sample_edge"
  by code_simp+

lemma two_domains_auth:
  "\<exists>a. build_console_auth two_domains (build_cloudfront two_domain_config sample_edge) sample_edge = Inr (Some a)"
  by (simp add: build_console_auth_def two_domains_def cfg_section_def get_or_def Let_def)

theorem dashboards_never_cached_witness:
  "edge_request (build_cloudfront two_domain_config sample_edge) ''app.example.com'' ''/vm/t1/'' = Fetched LoadBalancer False ''/vm/t1/''"
proof -
  have "ed_dashboard_host (build_cloudfront two_domain_config sample_edge) = ''app.example.com''" by code_simp
  then show ?thesis using dashboards_never_cached [OF two_domains_read, of _ "''/vm/t1/''"] by simp
qed


theorem outputs_accepted_witness:
  "list_all (\<lambda>(k, v). v \<noteq> []) (build_outputs sample_outputs (build_cloudfront two_domain_config sample_edge) None)"
proof -
  have none: "build_console_auth (JObj [(''cloudfront'', JObj [(''console_domain'', JStr ''console.example.com''),
      (''console_cert_arn'', JStr ''arn:1''), (''app_domain'', JStr ''app.example.com''), (''app_cert_arn'', JStr ''arn:2'')])])
      (build_cloudfront two_domain_config sample_edge) sample_edge = Inr None"
    by (simp add: build_console_auth_def cfg_section_def get_or_def)
  have "identifiers_known sample_outputs sample_edge" by code_simp
  moreover have "read_edge (JObj [(''cloudfront'', JObj [(''console_domain'', JStr ''console.example.com''),
      (''console_cert_arn'', JStr ''arn:1''), (''app_domain'', JStr ''app.example.com''), (''app_cert_arn'', JStr ''arn:2'')])]) =
      Inr two_domain_config" by code_simp
  ultimately show ?thesis using outputs_accepted [OF _ refl none] by blast
qed

text \<open>
  With one domain the path without the final slash falls to the load balancer: the behaviour is chosen
  before the function rewrites the path, and only the load balancer is asked for the console's page.
\<close>

lemma bare_console_misses:
  assumes "ec_enabled c" "\<not> dual_mode c"
  shows "edge_request (build_cloudfront c r) (ed_console_host (build_cloudfront c r)) ''/console'' = Fetched LoadBalancer False console_path"
proof -
  have "dist_serves (ed_console_host (build_cloudfront c r)) (single_cf c r)"
    using assms by (simp add: build_cloudfront_def dist_serves_def single_cf_def Let_def)
  then show ?thesis using single_requests [OF assms] by (simp add: url_rewrite_def)
qed

text \<open>A domain without a certificate is still an alias of the distribution, which CloudFront refuses.\<close>

lemma alias_without_certificate:
  "ec_custom_domain c \<noteq> [] \<Longrightarrow> ec_acm_cert c = [] \<Longrightarrow> di_aliases (single_cf c r) \<noteq> [] \<and> di_certificate (single_cf c r) = None"
  by (simp add: single_cf_def)

text \<open>Without CloudFront the tokens are sent to the bucket's own address, which is private.\<close>

lemma own_cdn_callbacks:
  "\<not> ec_enabled c \<Longrightarrow> callback_urls (build_cloudfront c r) = [''https://'' @ er_bucket_host r @ console_path]"
  by (simp add: callback_urls_def build_cloudfront_def)

text \<open>The groups of the pool are the roles the API knows, and the stronger role has the smaller precedence.\<close>

lemma groups_are_roles:
  "set (map fst role_groups) = set (map fst role_ranks)"
  "list_all (\<lambda>(g, p). list_all (\<lambda>(h, q). p < q \<longleftrightarrow> role_rank h 0 < role_rank g 0) role_groups) role_groups"
  by code_simp+

end
