(* ===== verification/Listener.thy ===== *)
theory Listener
  imports Edge Gateway
begin

text \<open>
  The way of a dashboard request: through the edge to the load balancer, whose listener decides by its rules. The
  listener starts with the rule the stack declares (the catch-all of deploy/stack.py) and is changed by
  the API, which adds and removes the rules of tenants. Over any history of these operations it is a table from
  tenants to target groups, with the shared group for tenants that have no rule.
\<close>

section \<open>Deciding\<close>

text \<open>
  A rule matches when each condition has a pattern that matches the path. Of the matching rules the one with
  the smallest priority decides; without one the default answers 404.
\<close>

definition rule_matches :: "alb_rule \<Rightarrow> string \<Rightarrow> bool" where
  "rule_matches r path = list_all (\<lambda>cn. ac_field cn = ''path-pattern'' \<and> list_ex (\<lambda>v. glob v path) (ac_values cn)) (r_conditions r)"

definition priority_of :: "alb_rule \<Rightarrow> int" where
  "priority_of r = (case r_priority r of None \<Rightarrow> 0 | Some p \<Rightarrow> p)"

definition listener_decides :: "alb_rule list \<Rightarrow> string \<Rightarrow> string list option" where
  "listener_decides rules path =
     (case sort_key priority_of (filter (\<lambda>r. r_priority r \<noteq> None \<and> rule_matches r path) rules) of
        [] \<Rightarrow> None | r # rs \<Rightarrow> Some (r_targets r))"

definition vm_catch_all :: "string \<Rightarrow> string \<Rightarrow> alb_rule" where
  "vm_catch_all a shared = \<lparr>r_arn = a, r_priority = Some 999,
     r_conditions = [\<lparr>ac_field = ''path-pattern'', ac_values = [''/vm/*'']\<rparr>], r_targets = [shared]\<rparr>"

section \<open>Histories\<close>

datatype route_op = AddRoute string string | DropRoute string

fun do_route :: "cfg \<Rightarrow> route_op \<Rightarrow> (world, unit) io" where
  "do_route c (AddRoute t g) = add_alb_rule c t g False"
| "do_route c (DropRoute t) = remove_alb_rule c t"

fun do_routes :: "cfg \<Rightarrow> route_op list \<Rightarrow> (world, unit) io" where
  "do_routes c [] = ok ()"
| "do_routes c (op # ops) = andThen (do_route c op) (\<lambda>_. do_routes c ops)"

type_synonym route_table = "string \<rightharpoonup> string"

text \<open>The operations on the table: a tenant that has a rule keeps it.\<close>

fun table_op :: "route_op \<Rightarrow> route_table \<Rightarrow> route_table" where
  "table_op (AddRoute t g) m = (if m t = None then m(t \<mapsto> g) else m)"
| "table_op (DropRoute t) m = m(t := None)"

fun op_tenant :: "route_op \<Rightarrow> string" where
  "op_tenant (AddRoute t g) = t" | "op_tenant (DropRoute t) = t"

text \<open>Identifiers as the API makes them; none is the beginning of another.\<close>

definition plain_tenant_id :: "string \<Rightarrow> bool" where
  "plain_tenant_id t = (t \<noteq> [] \<and> plain t \<and> CHR ''/'' \<notin> set t)"

definition ids_apart :: "string set \<Rightarrow> bool" where
  "ids_apart I = ((\<forall>t \<in> I. plain_tenant_id t) \<and> (\<forall>s \<in> I. \<forall>t \<in> I. prefix s t \<longrightarrow> s = t))"

section \<open>Occurrences of a path\<close>

lemma contains_cases: "contains pat s \<Longrightarrow> \<exists>pre post. s = pre @ pat @ post"
proof (induction s)
  case Nil
  then show ?case by (auto simp: contains_def split: if_splits)
next
  case (Cons c s)
  show ?case
  proof (cases "prefix pat (c # s)")
    case True
    then show ?thesis by (auto simp: prefix_def intro: exI [of _ "[]"])
  next
    case False
    then have "contains pat s" using Cons.prems by (auto simp: contains_def)
    then obtain pre post where "s = pre @ pat @ post" using Cons.IH by blast
    then have "c # s = (c # pre) @ pat @ post" by simp
    then show ?thesis by blast
  qed
qed

lemma split_on_nonempty: "split_on c s \<noteq> []"
  by (induction s) (auto split: list.splits)

lemma split_on_apart: "split_on c (a @ c # b) = split_on c a @ split_on c b"
proof (induction a)
  case (Cons x a)
  then show ?case using split_on_nonempty [of c a] by (cases "split_on c a") auto
qed simp

lemma split_on_single: "split_on c s = [w] \<Longrightarrow> s = w"
proof (induction s arbitrary: w)
  case (Cons x s)
  then show ?case using split_on_nonempty [of c s] by (cases "split_on c s") (auto split: if_splits)
qed simp

lemma split_on_head: "c \<notin> set t \<Longrightarrow> prefix t (hd (split_on c (t @ s)))"
proof (induction t)
  case (Cons x t)
  then show ?case using split_on_nonempty [of c "t @ s"] by (cases "split_on c (t @ s)") auto
qed simp

text \<open>The path of a tenant is found only in a rule of a tenant whose identifier begins with it.\<close>

lemma path_in_value:
  assumes "contains (vm_path t) v" "plain_tenant_id t" "v = vm_path s \<or> v = vm_path s @ ''/*''" "CHR ''/'' \<notin> set s"
  shows "prefix t s"
proof -
  obtain pre post where v: "v = pre @ vm_path t @ post" using contains_cases [OF assms(1)] by blast
  have t: "CHR ''/'' \<notin> set t" "t \<noteq> []" "CHR ''*'' \<notin> set t" using assms(2) by (auto simp: plain_tenant_id_def plain_def)
  have vm: "vm_path t @ post = CHR ''/'' # (''vm'' @ CHR ''/'' # (t @ post))" by (simp add: vm_path_def)
  have left: "split_on (CHR ''/'') v = split_on (CHR ''/'') pre @ ''vm'' # split_on (CHR ''/'') (t @ post)"
    unfolding v vm by (simp add: split_on_apart)
  have right: "split_on (CHR ''/'') v = [[], ''vm'', s] \<or> split_on (CHR ''/'') v = [[], ''vm'', s, ''*'']"
    using assms(3) split_on_plain [OF assms(4)] split_on_append [OF assms(4), of "''*''"] by (auto simp: vm_path_def)
  obtain x xs where pre: "split_on (CHR ''/'') pre = x # xs" using split_on_nonempty by (meson list.exhaust)
  obtain y ys where post: "split_on (CHR ''/'') (t @ post) = y # ys" using split_on_nonempty by (meson list.exhaust)
  have y: "prefix t y" using split_on_head [OF t(1), of post] post by simp
  have "y \<noteq> ''*''" using y t(2,3) by (cases t) (auto simp: prefix_def)
  then have "y = s" using left right pre post by (cases xs; auto simp: Cons_eq_append_conv append_eq_Cons_conv)
  then show ?thesis using y by simp
qed

lemma no_path_in_catch_all:
  assumes "plain_tenant_id t"
  shows "\<not> contains (vm_path t) ''/vm/*''"
proof
  assume "contains (vm_path t) ''/vm/*''"
  then have "prefix t ''*''" using path_in_value [of t "''/vm/*''" "''*''"] assms by (simp add: vm_path_def)
  then show False using assms by (cases t) (auto simp: plain_tenant_id_def)
qed

section \<open>Fresh names\<close>

definition arns_ok :: "world \<Rightarrow> bool" where
  "arns_ok w = (distinct (map r_arn (w_rules w)) \<and> (\<forall>k \<ge> w_serial w. ''rule-'' @ show_nat k \<notin> set (map r_arn (w_rules w))))"

interpretation named: aws_frame "inv_rel arns_ok"
  by unfold_locales (auto simp: inv_rel_def arns_ok_def)

lemma keeps_create_arns: "keeps (inv_rel arns_ok) (create_rule p vs tg)"
  unfolding create_rule_def
proof (rule named.keeps_aws, rule keepsI)
  fix w :: world
  have "show_nat k \<noteq> show_nat (w_serial w)" if "k \<ge> Suc (w_serial w)" for k
    using that show_nat_inj [of k "w_serial w"] by auto
  then show "inv_rel arns_ok w (snd ((\<lambda>w. if \<exists>r\<in>set (w_rules w). r_priority r = Some p then (Inl priority_in_use, w)
      else (Inr (), w\<lparr>w_serial := Suc (w_serial w), w_rules := w_rules w @
        [\<lparr>r_arn = ''rule-'' @ show_nat (w_serial w), r_priority = Some p,
          r_conditions = [\<lparr>ac_field = ''path-pattern'', ac_values = vs\<rparr>], r_targets = [tg]\<rparr>]\<rparr>)) w))"
    by (auto simp: inv_rel_def arns_ok_def)
qed

lemma keeps_read_arns: "keeps (inv_rel arns_ok) describe_rules" "keeps (inv_rel arns_ok) (rand_below n)"
  unfolding describe_rules_def rand_below_def
  by (rule named.keeps_aws) (auto simp: keeps_def inv_rel_def arns_ok_def gets_apply split: list.split)

lemma keeps_add_arns: "keeps (inv_rel arns_ok) (add_alb_rule c t g f)"
proof -
  have "keeps (inv_rel arns_ok) (add_rule_attempts c t g n)" for n
  proof (induction n)
    case (Suc n)
    show ?case unfolding add_rule_attempts.simps Let_def
      by (intro keeps_rules keeps_read_arns keeps_create_arns Suc)
  qed (simp add: keeps_def raise_apply inv_rel_def)
  then show ?thesis unfolding add_alb_rule_def by (intro keeps_rules)
qed

section \<open>The table in the listener\<close>

text \<open>The rules of a table: each tenant with its group, priority and name.\<close>

type_synonym route_entry = "string \<times> string \<times> int \<times> string"

definition entry_rule :: "route_entry \<Rightarrow> alb_rule" where
  "entry_rule e = (case e of (t, g, p, a) \<Rightarrow> tenant_rule t g p a)"

definition table_of :: "route_entry list \<Rightarrow> route_table" where
  "table_of es = map_of (map (\<lambda>(t, g, p, a). (t, g)) es)"

definition holds_table :: "cfg \<Rightarrow> string set \<Rightarrow> alb_rule \<Rightarrow> route_table \<Rightarrow> world \<Rightarrow> bool" where
  "holds_table c I cat m w = (\<exists>es. w_rules w = cat # map entry_rule es \<and> m = table_of es \<and> distinct (map fst es) \<and>
     set (map fst es) \<subseteq> I \<and> list_all (\<lambda>(t, g, p, a). p \<le> priority_max c) es \<and> arns_ok w)"

lemma entry_values: "rule_values (entry_rule (t, g, p, a)) = [vm_path t, vm_path t @ ''/*'']"
  by (simp add: entry_rule_def tenant_rule_def rule_values_def)

lemma entry_mentions:
  assumes "ids_apart I" "t \<in> I" "s \<in> I"
  shows "mentions t (entry_rule (s, g, p, a)) \<longleftrightarrow> s = t"
proof
  assume "mentions t (entry_rule (s, g, p, a))"
  then have "contains (vm_path t) (vm_path s) \<or> contains (vm_path t) (vm_path s @ ''/*'')"
    by (simp add: mentions_def entry_values)
  then have "prefix t s" using path_in_value [of t _ s] assms by (auto simp: ids_apart_def plain_tenant_id_def)
  then show "s = t" using assms by (auto simp: ids_apart_def)
next
  assume "s = t"
  then show "mentions t (entry_rule (s, g, p, a))" using mentions_tenant_rule by (simp add: entry_rule_def)
qed

lemma table_none: "table_of es t = None \<longleftrightarrow> t \<notin> set (map fst es)"
  by (force simp: table_of_def map_of_eq_None_iff)

lemma mentioned_iff:
  assumes "ids_apart I" "t \<in> I" "set (map fst es) \<subseteq> I" "w_rules w = vm_catch_all b gr # map entry_rule es"
  shows "list_ex (mentions t) (w_rules w) \<longleftrightarrow> table_of es t \<noteq> None"
proof -
  have "mentions t (entry_rule e) \<longleftrightarrow> fst e = t" if "e \<in> set es" for e
    using that entry_mentions [OF assms(1,2), of "fst e" "fst (snd e)" "fst (snd (snd e))" "snd (snd (snd e))"] assms(3) by auto
  moreover have "\<not> mentions t (vm_catch_all b gr)"
    using no_path_in_catch_all assms(1,2) by (simp add: mentions_def rule_values_def vm_catch_all_def ids_apart_def)
  ultimately have "list_ex (mentions t) (w_rules w) \<longleftrightarrow> (\<exists>e \<in> set es. fst e = t)"
    by (auto simp: assms(4) list_ex_iff)
  then show ?thesis unfolding table_none by force
qed

lemma add_keeps_table:
  assumes "ids_apart I" "t \<in> I" "holds_table c I (vm_catch_all b gr) m w" "add_alb_rule c t g False w = (Inr (), w')"
    "listener_arn c \<noteq> []" "\<not> host_tg_mode c"
  shows "holds_table c I (vm_catch_all b gr) (table_op (AddRoute t g) m) w'"
proof -
  obtain es where es: "w_rules w = vm_catch_all b gr # map entry_rule es" "m = table_of es" "distinct (map fst es)"
    "set (map fst es) \<subseteq> I" "list_all (\<lambda>(t, g, p, a). p \<le> priority_max c) es" "arns_ok w"
    using assms(3) by (auto simp: holds_table_def)
  have arns: "arns_ok w'" using keepsD [OF keeps_add_arns assms(4)] es(6) by (simp add: inv_rel_def)
  show ?thesis
  proof (cases "m t = None")
    case True
    then have "\<not> list_ex (mentions t) (w_rules w)" using mentioned_iff [OF assms(1,2) es(4,1)] es(2) by simp
    then obtain p a where new: "p \<le> priority_max c" "w_rules w' = w_rules w @ [tenant_rule t g p a]"
      using add_alb_rule_spec [OF assms(4,5)] assms(6) by auto
    have "holds_table c I (vm_catch_all b gr) (table_of (es @ [(t, g, p, a)])) w'"
      unfolding holds_table_def using es new arns True assms(2)
      by (intro exI [of _ "es @ [(t, g, p, a)]"]) (auto simp: entry_rule_def table_none)
    moreover have "table_of (es @ [(t, g, p, a)]) = m(t \<mapsto> g)"
      using True es(2) by (auto simp: table_of_def map_of_append map_add_def fun_eq_iff split: option.split)
    ultimately show ?thesis using True by simp
  next
    case False
    then have "list_ex (mentions t) (w_rules w)" using mentioned_iff [OF assms(1,2) es(4,1)] es(2) by simp
    then have "w_rules w' = w_rules w" using add_alb_rule_spec [OF assms(4,5)] assms(6) by auto
    then show ?thesis using es arns False by (auto simp: holds_table_def)
  qed
qed

lemma owned_entry: "CHR ''/'' \<notin> set t \<Longrightarrow> owned_by t (entry_rule (s, g, p, a)) \<longleftrightarrow> s = t"
  by (auto simp: owned_by_def entry_rule_def tenant_rule_def vm_path_def)

lemma owned_catch_all: "plain_tenant_id t \<Longrightarrow> \<not> owned_by t (vm_catch_all b gr)"
  by (auto simp: owned_by_def vm_catch_all_def vm_path_def plain_tenant_id_def)

lemma delete_rule_Inr:
  "delete_rule a w = (Inr (), w') \<Longrightarrow> w_rules w' = filter (\<lambda>r. r_arn r \<noteq> a) (w_rules w) \<and> w_serial w' = w_serial w"
  unfolding delete_rule_def by (cases rule: aws_elim) (auto split: if_splits)

lemma keeps_delete_arns: "delete_rule a w = (Inr (), w') \<Longrightarrow> arns_ok w \<Longrightarrow> arns_ok w'"
  by (auto dest!: delete_rule_Inr simp: arns_ok_def distinct_map inj_on_def)

lemma find_entry:
  assumes "plain_tenant_id t" "t \<in> set (map fst es)"
  shows "\<exists>e \<in> set es. fst e = t \<and> find (owned_by t) (vm_catch_all b gr # map entry_rule es) = Some (entry_rule e)"
proof -
  have owned: "owned_by t (entry_rule e) \<longleftrightarrow> fst e = t" for e
    using owned_entry [of t "fst e" "fst (snd e)" "fst (snd (snd e))" "snd (snd (snd e))"] assms(1) by (simp add: plain_tenant_id_def)
  have "\<exists>e \<in> set es. fst e = t \<and> find (owned_by t) (map entry_rule es) = Some (entry_rule e)"
    using assms(2) by (induction es) (auto simp: owned)
  then show ?thesis using owned_catch_all [OF assms(1)] by simp
qed

lemma table_filtered: "table_of (filter (\<lambda>e. fst e \<noteq> t) es) = (table_of es)(t := None)"
  by (induction es) (auto simp: table_of_def fun_eq_iff)

lemma remove_keeps_table:
  assumes "ids_apart I" "t \<in> I" "holds_table c I (vm_catch_all b gr) m w" "remove_alb_rule c t w = (Inr (), w')"
    "listener_arn c \<noteq> []" "\<not> host_tg_mode c"
  shows "holds_table c I (vm_catch_all b gr) (table_op (DropRoute t) m) w'"
proof -
  have t: "plain_tenant_id t" using assms(1,2) by (simp add: ids_apart_def)
  obtain es where es: "w_rules w = vm_catch_all b gr # map entry_rule es" "m = table_of es" "distinct (map fst es)"
    "set (map fst es) \<subseteq> I" "list_all (\<lambda>(t, g, p, a). p \<le> priority_max c) es" "arns_ok w"
    using assms(3) by (auto simp: holds_table_def)
  obtain rs w1 where seen: "describe_rules w = (Inr rs, w1)"
    and next_step: "(case find (owned_by t) rs of None \<Rightarrow> ok () | Some r \<Rightarrow> delete_rule (r_arn r)) w1 = (Inr (), w')"
    using assms(4-6) by (auto simp: remove_alb_rule_def andThen_Inr)
  have rs: "rs = w_rules w" "w_rules w1 = w_rules w" using describe_rules_Inr [OF seen] by simp_all
  note d = seen [unfolded rs(1)] rs(2) and rest = next_step [unfolded rs(1)]
  have ok1: "arns_ok w1" using keepsD [OF keeps_read_arns(1) d(1)] es(6) by (simp add: inv_rel_def)
  show ?thesis
  proof (cases "t \<in> set (map fst es)")
    case False
    then have "fst e \<noteq> t" if "e \<in> set es" for e using that by auto
    then have "find (owned_by t) (w_rules w) = None"
      using owned_entry [of t] owned_catch_all [OF t] t by (fastforce simp: es(1) find_None_iff plain_tenant_id_def)
    then have "w' = w1" using rest by (simp add: ok_apply)
    moreover have "m(t := None) = m" using False table_none [of es t] by (simp add: es(2) fun_upd_idem)
    ultimately show ?thesis using es d(2) ok1 by (auto simp: holds_table_def)
  next
    case True
    obtain e where e: "e \<in> set es" "fst e = t" "find (owned_by t) (w_rules w) = Some (entry_rule e)"
      using find_entry [OF t True, of b gr] unfolding es(1) by blast
    then have del: "delete_rule (r_arn (entry_rule e)) w1 = (Inr (), w')" using rest by simp
    have arns: "distinct (map r_arn (vm_catch_all b gr # map entry_rule es))"
      using es(1,6) by (simp add: arns_ok_def)
    have same: "r_arn (entry_rule x) = r_arn (entry_rule e) \<longleftrightarrow> fst x = t" if "x \<in> set es" for x
    proof
      assume "r_arn (entry_rule x) = r_arn (entry_rule e)"
      then have "x = e" using arns that e(1) by (auto simp: distinct_map inj_on_def)
      then show "fst x = t" using e(2) by simp
    next
      assume "fst x = t"
      then have "x = e" using es(3) that e(1,2) by (auto simp: distinct_map inj_on_def)
      then show "r_arn (entry_rule x) = r_arn (entry_rule e)" by simp
    qed
    have "r_arn (vm_catch_all b gr) \<noteq> r_arn (entry_rule e)" using arns e(1) by force
    moreover have "filter (\<lambda>r. r_arn r \<noteq> r_arn (entry_rule e)) (map entry_rule es) = map entry_rule (filter (\<lambda>x. fst x \<noteq> t) es)"
      unfolding filter_map by (rule arg_cong [where f = "map entry_rule"]) (rule filter_cong, auto simp: same)
    ultimately have rules: "w_rules w' = vm_catch_all b gr # map entry_rule (filter (\<lambda>x. fst x \<noteq> t) es)"
      using delete_rule_Inr [OF del] d(2) es(1) by simp
    have "distinct (map fst (filter (\<lambda>x. fst x \<noteq> t) es))" using es(3) by (simp add: distinct_map_filter)
    then show ?thesis unfolding holds_table_def
      using es(2,4,5) rules keeps_delete_arns [OF del ok1]
      by (intro exI [of _ "filter (\<lambda>x. fst x \<noteq> t) es"]) (auto simp: table_filtered list_all_iff)
  qed
qed

section \<open>The decision of a table\<close>

lemma entry_matches:
  assumes "CHR ''/'' \<notin> set t" "CHR ''/'' \<notin> set s" "plain s" "path = vm_path t \<or> prefix (vm_path t @ ''/'') path"
  shows "rule_matches (entry_rule (s, g, p, a)) path \<longleftrightarrow> s = t"
proof -
  have pats: "glob (vm_path s) path = (path = vm_path s)" "glob (vm_path s @ ''/*'') path = prefix (vm_path s @ ''/'') path"
    using assms(3) glob_plain [of "vm_path s" path] glob_prefix [of "vm_path s @ ''/''" path] by (simp_all add: vm_path_def)
  have "u @ CHR ''/'' # x = v @ CHR ''/'' # y \<Longrightarrow> u = v" if "CHR ''/'' \<notin> set u" "CHR ''/'' \<notin> set v" for u v x y
    using that split_on_append [of "CHR ''/''" u x] split_on_append [of "CHR ''/''" v y] by auto
  then have "prefix (vm_path s @ ''/'') path \<and> prefix (vm_path t @ ''/'') path \<longrightarrow> s = t"
    using assms(1,2) by (auto simp: prefix_def vm_path_def)
  then show ?thesis using assms pats
    by (auto simp: rule_matches_def entry_rule_def tenant_rule_def vm_path_def prefix_def)
qed

lemma catch_all_matches: "path = vm_path t \<or> prefix (vm_path t @ ''/'') path \<Longrightarrow> rule_matches (vm_catch_all b gr) path"
  using glob_prefix [of "''/vm/''" path] by (auto simp: rule_matches_def vm_catch_all_def vm_path_def prefix_def)

lemma filter_entries:
  assumes "distinct (map fst es)"
  shows "filter (\<lambda>e. fst e = t) es = (case find (\<lambda>e. fst e = t) es of None \<Rightarrow> [] | Some e \<Rightarrow> [e])"
  using assms
proof (induction es)
  case (Cons e es)
  have "filter (\<lambda>x. fst x = t) es = []" if "fst e = t" using Cons.prems that by (simp add: filter_empty_conv) (metis image_eqI)
  then show ?case using Cons by simp
qed simp

lemma table_find: "table_of es t = map_option (\<lambda>(s, g, p, a). g) (find (\<lambda>e. fst e = t) es)"
  by (induction es) (auto simp: table_of_def)

lemma decides_table:
  assumes "holds_table c I (vm_catch_all b gr) m w" "ids_apart I" "priority_max c < 999" "CHR ''/'' \<notin> set t"
    "path = vm_path t \<or> prefix (vm_path t @ ''/'') path"
  shows "listener_decides (w_rules w) path = Some [case m t of None \<Rightarrow> gr | Some g \<Rightarrow> g]"
proof -
  obtain es where es: "w_rules w = vm_catch_all b gr # map entry_rule es" "m = table_of es" "distinct (map fst es)"
    "set (map fst es) \<subseteq> I" "list_all (\<lambda>(t, g, p, a). p \<le> priority_max c) es"
    using assms(1) by (auto simp: holds_table_def)
  have hit: "(r_priority (entry_rule e) \<noteq> None \<and> rule_matches (entry_rule e) path) = (fst e = t)" if "e \<in> set es" for e
  proof -
    have "plain_tenant_id (fst e)" using that es(4) assms(2) by (auto simp: ids_apart_def)
    then show ?thesis
      using entry_matches [OF assms(4) _ _ assms(5), of "fst e" "fst (snd e)" "fst (snd (snd e))" "snd (snd (snd e))"]
      by (auto simp: plain_tenant_id_def entry_rule_def tenant_rule_def case_prod_beta)
  qed
  have "filter (\<lambda>r. r_priority r \<noteq> None \<and> rule_matches r path) (w_rules w) =
      vm_catch_all b gr # map entry_rule (filter (\<lambda>e. fst e = t) es)"
  proof -
    have "filter (\<lambda>e. r_priority (entry_rule e) \<noteq> None \<and> rule_matches (entry_rule e) path) es = filter (\<lambda>e. fst e = t) es"
      by (rule filter_cong [OF refl hit])
    moreover have "r_priority (vm_catch_all b gr) \<noteq> None" by (simp add: vm_catch_all_def)
    ultimately show ?thesis using catch_all_matches [OF assms(5)] by (simp only: es(1) filter_map comp_def filter.simps simp_thms if_True)
  qed
  then have picked: "filter (\<lambda>r. r_priority r \<noteq> None \<and> rule_matches r path) (w_rules w) =
      vm_catch_all b gr # (case find (\<lambda>e. fst e = t) es of None \<Rightarrow> [] | Some e \<Rightarrow> [entry_rule e])"
    using filter_entries [OF es(3)] by (simp split: option.split)
  show ?thesis
  proof (cases "find (\<lambda>e. fst e = t) es")
    case None
    then show ?thesis using picked es(2) by (simp add: listener_decides_def table_find vm_catch_all_def)
  next
    case (Some e)
    obtain s g p a where e: "e = (s, g, p, a)" by (cases e) auto
    have "e \<in> set es" using Some by (metis find_Some_iff nth_mem)
    then have "p < 999" using es(5) assms(3) by (auto simp: list_all_iff e)
    then show ?thesis using picked Some es(2)
      by (simp add: listener_decides_def table_find e entry_rule_def tenant_rule_def vm_catch_all_def priority_of_def)
  qed
qed

lemma routes_keep_table:
  assumes "ids_apart I" "listener_arn c \<noteq> []" "\<not> host_tg_mode c"
  shows "do_routes c ops w = (Inr (), w') \<Longrightarrow> op_tenant ` set ops \<subseteq> I \<Longrightarrow> holds_table c I (vm_catch_all b gr) m w \<Longrightarrow>
    holds_table c I (vm_catch_all b gr) (fold table_op ops m) w'"
proof (induction ops arbitrary: m w)
  case (Cons op ops)
  obtain w1 where first: "do_route c op w = (Inr (), w1)" and rest: "do_routes c ops w1 = (Inr (), w')"
    using Cons.prems(1) by (auto simp: andThen_Inr)
  have "holds_table c I (vm_catch_all b gr) (table_op op m) w1"
  proof (cases op)
    case (AddRoute t g)
    then show ?thesis using add_keeps_table [OF assms(1) _ Cons.prems(3) _ assms(2,3)] first Cons.prems(2) by simp
  next
    case (DropRoute t)
    then show ?thesis using remove_keeps_table [OF assms(1) _ Cons.prems(3) _ assms(2,3)] first Cons.prems(2) by simp
  qed
  then show ?case using Cons.IH [OF rest] Cons.prems(2) by simp
qed (simp add: ok_apply)

text \<open>The listener as the stack leaves it.\<close>

definition fresh_listener :: "string \<Rightarrow> string \<Rightarrow> world \<Rightarrow> bool" where
  "fresh_listener b gr w = (w_rules w = [vm_catch_all b gr] \<and> \<not> prefix ''rule-'' b)"


definition sample_ops :: "route_op list" where
  "sample_ops = [AddRoute ''a-1'' ''tg-0'', AddRoute ''b-2'' ''tg-1'', DropRoute ''a-1'', AddRoute ''a-1'' ''tg-2'']"

definition fresh_world :: world where
  "fresh_world = world0\<lparr>w_rules := [vm_catch_all ''static'' ''all-hosts'']\<rparr>"


text \<open>The window of the tenants' priorities is never changed by the stack, so it ends below the catch-all.\<close>

lemma deployed_window:
  assumes "api_env cfg rs = Inr env" "bind_sum (api_settings c0 env) (\<lambda>c. placement_settings c env) = Inr c"
  shows "priority_max c < 999"
proof -
  have "''PER_TENANT_PRIORITY_MAX'' \<notin> set added_vars" by (simp add: added_vars_def)
  then obtain base where base: "api_lambda_env cfg rs = Inr base" "map_of env ''PER_TENANT_PRIORITY_MAX'' = map_of base ''PER_TENANT_PRIORITY_MAX''"
    using api_env_kept [OF assms(1)] by blast
  have "map_of base ''PER_TENANT_PRIORITY_MAX'' = None"
    using collect_lookup [OF base(1) [unfolded api_lambda_env_def]] by simp
  then show ?thesis using assms(2) base(2) by (auto simp: placement_settings_def bind_sum_Inr env_int_def)
qed

end
