(* ===== verification/Policies.thy ===== *)
theory Policies
  imports Settings Patterns
begin

text \<open>
  The permissions the stack gives its roles (deploy/stack.py): the statements it writes itself and the grants it
  asks of CDK, gathered per role in the order in which they are added, with the evaluation of a request as IAM
  documents it (a role may do what one of its statements allows). What a grant or a managed policy
  contains is CDK's and is a parameter.
\<close>

section \<open>Statements and requests\<close>

text \<open>A condition is a tag that the resource has to carry with a given value. Names of actions are in their canonical case.\<close>

record statement =
  st_actions :: "string list"
  st_resources :: "string list"
  st_tag :: "(string \<times> string) option"

record iam_request =
  rq_action :: string
  rq_resource :: string
  rq_tags :: "(string \<times> string) list"

definition stmt :: "string list \<Rightarrow> string list \<Rightarrow> statement" where
  "stmt as rs = \<lparr>st_actions = as, st_resources = rs, st_tag = None\<rparr>"

definition tagged_stmt :: "string list \<Rightarrow> string list \<Rightarrow> string \<times> string \<Rightarrow> statement" where
  "tagged_stmt as rs t = \<lparr>st_actions = as, st_resources = rs, st_tag = Some t\<rparr>"

definition allows :: "iam_request \<Rightarrow> statement \<Rightarrow> bool" where
  "allows q s = (list_ex (\<lambda>a. glob a (rq_action q)) (st_actions s) \<and> list_ex (\<lambda>r. glob r (rq_resource q)) (st_resources s) \<and>
     (case st_tag s of None \<Rightarrow> True | Some (k, v) \<Rightarrow> map_of (rq_tags q) k = Some v))"

definition allowed :: "statement list \<Rightarrow> iam_request \<Rightarrow> bool" where
  "allowed p q = list_ex (allows q) p"

section \<open>The account and what CDK gives\<close>

record account =
  ac_partition :: string
  ac_region :: string
  ac_id :: string

definition arn :: "account \<Rightarrow> string \<Rightarrow> string \<Rightarrow> string" where
  "arn ac service rest = ''arn:'' @ ac_partition ac @ '':'' @ service @ '':'' @ ac_region ac @ '':'' @ ac_id ac @ '':'' @ rest"

definition asg_arn :: "account \<Rightarrow> string" where
  "asg_arn ac = arn ac ''autoscaling'' ''autoScalingGroup:*:autoScalingGroupName/openclaw-hosts-asg''"

definition run_shell_doc_arn :: "account \<Rightarrow> string" where
  "run_shell_doc_arn ac = ''arn:'' @ ac_partition ac @ '':ssm:'' @ ac_region ac @ ''::document/AWS-RunShellScript''"

definition host_tag :: "string \<times> string" where
  "host_tag = (''aws:autoscaling:groupName'', ''openclaw-hosts-asg'')"

datatype grant = TableReadWrite | TableRead | TableWrite | BucketRead | BucketPut | BucketDelete | BucketReadWrite
  | TopicPublish | QueueSend | QueueConsume | FunctionInvoke | GatewayInvoke

text \<open>The actions and resources of a grant, and the managed policies of Lambdas and of hosts.\<close>

record cdk_grants =
  cd_actions :: "grant \<Rightarrow> string list"
  cd_resources :: "grant \<Rightarrow> string \<Rightarrow> string list"
  cd_lambda_basic :: "statement list"
  cd_ssm_core :: "statement list"

definition granted :: "cdk_grants \<Rightarrow> grant \<Rightarrow> string \<Rightarrow> statement" where
  "granted cd g a = stmt (cd_actions cd g) (cd_resources cd g a)"

record stack_arns =
  ar_tenants :: string
  ar_hosts :: string
  ar_groups :: string
  ar_audit :: string
  ar_bucket :: string
  ar_topic :: string
  ar_queue :: string
  ar_health_fn :: string
  ar_backup_fn :: string
  ar_workspace :: string
  ar_gateway :: string
  ar_stack :: string

section \<open>Shared statements\<close>

definition ssm_policies :: "account \<Rightarrow> statement list" where
  "ssm_policies ac = [stmt [''ssm:SendCommand''] [run_shell_doc_arn ac],
     tagged_stmt [''ssm:SendCommand''] [arn ac ''ec2'' ''instance/*''] host_tag,
     stmt [''ssm:GetCommandInvocation''] [''*'']]"

definition ec2_policies :: "account \<Rightarrow> statement list" where
  "ec2_policies ac = [stmt [''ec2:DescribeInstances'', ''ec2:DescribeInstanceTypes''] [''*''],
     tagged_stmt [''ec2:TerminateInstances''] [arn ac ''ec2'' ''instance/*''] host_tag]"

definition elb_arns :: "account \<Rightarrow> string list" where
  "elb_arns ac = [arn ac ''elasticloadbalancing'' ''listener-rule/app/*'', arn ac ''elasticloadbalancing'' ''listener/app/*'',
     arn ac ''elasticloadbalancing'' ''targetgroup/*'']"

definition failover_elb :: "account \<Rightarrow> statement list" where
  "failover_elb ac = [stmt [''elasticloadbalancing:DescribeRules'', ''elasticloadbalancing:DescribeTargetGroups''] [''*''],
     stmt [''elasticloadbalancing:CreateRule'', ''elasticloadbalancing:ModifyRule'', ''elasticloadbalancing:CreateTargetGroup'',
       ''elasticloadbalancing:RegisterTargets''] (elb_arns ac)]"

definition api_elb :: "account \<Rightarrow> statement list" where
  "api_elb ac = [stmt [''elasticloadbalancing:DescribeRules'', ''elasticloadbalancing:DescribeTargetGroups'',
       ''elasticloadbalancing:DescribeListeners''] [''*''],
     stmt [''elasticloadbalancing:CreateTargetGroup'', ''elasticloadbalancing:DeleteTargetGroup'',
       ''elasticloadbalancing:RegisterTargets'', ''elasticloadbalancing:DeregisterTargets'', ''elasticloadbalancing:CreateRule'',
       ''elasticloadbalancing:DeleteRule'', ''elasticloadbalancing:ModifyRule''] (elb_arns ac)]"

definition topic_grant :: "cdk_grants \<Rightarrow> stack_arns \<Rightarrow> json \<Rightarrow> exn + statement list" where
  "topic_grant cd ar cfg = bind_sum (cfg_or_get cfg ''notifications'' ''enabled'' (JBool False)) (\<lambda>on.
     Inr (if truthy on then [granted cd TopicPublish (ar_topic ar)] else []))"

section \<open>The roles\<close>

definition api_policy :: "cdk_grants \<Rightarrow> account \<Rightarrow> stack_arns \<Rightarrow> json \<Rightarrow> exn + statement list" where
  "api_policy cd ac ar cfg = bind_sum (topic_grant cd ar cfg) (\<lambda>topic. Inr (cd_lambda_basic cd @
     [granted cd TableReadWrite (ar_tenants ar), granted cd TableReadWrite (ar_hosts ar), granted cd TableReadWrite (ar_groups ar),
      granted cd TableReadWrite (ar_audit ar), granted cd BucketRead (ar_bucket ar), granted cd BucketPut (ar_bucket ar),
      granted cd BucketDelete (ar_bucket ar)] @ topic @ ssm_policies ac @ ec2_policies ac @
     [stmt [''autoscaling:DescribeAutoScalingGroups''] [''*''],
      stmt [''autoscaling:SetDesiredCapacity'', ''autoscaling:CompleteLifecycleAction'',
        ''autoscaling:TerminateInstanceInAutoScalingGroup''] [asg_arn ac],
      granted cd FunctionInvoke (ar_health_fn ar), granted cd FunctionInvoke (ar_backup_fn ar)] @ api_elb ac))"

definition health_policy :: "cdk_grants \<Rightarrow> account \<Rightarrow> stack_arns \<Rightarrow> json \<Rightarrow> exn + statement list" where
  "health_policy cd ac ar cfg = bind_sum (topic_grant cd ar cfg) (\<lambda>topic. Inr (cd_lambda_basic cd @
     [granted cd TableReadWrite (ar_tenants ar), granted cd TableReadWrite (ar_hosts ar), granted cd TableWrite (ar_audit ar),
      granted cd BucketRead (ar_bucket ar)] @ topic @ failover_elb ac @ ssm_policies ac @ [granted cd QueueSend (ar_queue ar)]))"

definition worker_policy :: "cdk_grants \<Rightarrow> account \<Rightarrow> stack_arns \<Rightarrow> json \<Rightarrow> exn + statement list" where
  "worker_policy cd ac ar cfg = bind_sum (topic_grant cd ar cfg) (\<lambda>topic. Inr (cd_lambda_basic cd @
     [granted cd TableReadWrite (ar_tenants ar), granted cd TableReadWrite (ar_hosts ar), granted cd TableWrite (ar_audit ar),
      granted cd BucketRead (ar_bucket ar)] @ topic @ failover_elb ac @ ssm_policies ac @ [granted cd QueueConsume (ar_queue ar)]))"

definition skills_policy :: "cdk_grants \<Rightarrow> stack_arns \<Rightarrow> statement list" where
  "skills_policy cd ar = cd_lambda_basic cd @
     [granted cd BucketRead (ar_bucket ar), granted cd TableRead (ar_tenants ar), granted cd TableRead (ar_groups ar)]"

definition templates_policy :: "cdk_grants \<Rightarrow> stack_arns \<Rightarrow> statement list" where
  "templates_policy cd ar = cd_lambda_basic cd @ [granted cd BucketReadWrite (ar_bucket ar)]"

definition scaler_policy :: "cdk_grants \<Rightarrow> account \<Rightarrow> stack_arns \<Rightarrow> statement list" where
  "scaler_policy cd ac ar = cd_lambda_basic cd @
     [granted cd TableReadWrite (ar_hosts ar), granted cd TableReadWrite (ar_tenants ar), granted cd TableWrite (ar_audit ar)] @
     ssm_policies ac @
     [stmt [''autoscaling:DescribeAutoScalingGroups''] [''*''],
      stmt [''autoscaling:TerminateInstanceInAutoScalingGroup''] [asg_arn ac]]"

definition backup_policy :: "cdk_grants \<Rightarrow> account \<Rightarrow> stack_arns \<Rightarrow> statement list" where
  "backup_policy cd ac ar = cd_lambda_basic cd @
     [granted cd TableReadWrite (ar_tenants ar), granted cd BucketReadWrite (ar_bucket ar)] @ ssm_policies ac"

definition metrics_statements :: "stack_arns \<Rightarrow> json \<Rightarrow> exn + statement list" where
  "metrics_statements ar cfg = bind_sum (cfg_get cfg ''metrics'' ''enabled'' (JBool False)) (\<lambda>on.
     Inr (if truthy on then [stmt [''aps:RemoteWrite'', ''aps:GetSeries'', ''aps:GetLabels'', ''aps:GetMetricMetadata''] [ar_workspace ar]]
       else []))"

definition gateway_grant :: "cdk_grants \<Rightarrow> stack_arns \<Rightarrow> json \<Rightarrow> exn + statement list" where
  "gateway_grant cd ar cfg = bind_sum (cfg_section cfg ''agentcore'') (\<lambda>agent.
     bind_sum (get_or agent ''enabled'' (JBool False)) (\<lambda>on. if \<not> truthy on then Inr []
     else bind_sum (cfg_get agent ''gateway'' ''enabled'' (JBool True)) (\<lambda>gw.
       Inr (if truthy gw then [granted cd GatewayInvoke (ar_gateway ar)] else []))))"

definition host_policy :: "cdk_grants \<Rightarrow> account \<Rightarrow> stack_arns \<Rightarrow> json \<Rightarrow> exn + statement list" where
  "host_policy cd ac ar cfg = bind_sum (metrics_statements ar cfg) (\<lambda>metrics. bind_sum (gateway_grant cd ar cfg) (\<lambda>gw.
     Inr (cd_ssm_core cd @
       [granted cd BucketReadWrite (ar_bucket ar), granted cd TableReadWrite (ar_hosts ar), granted cd TableReadWrite (ar_tenants ar),
        stmt [''autoscaling:CompleteLifecycleAction''] [asg_arn ac],
        stmt [''ec2:DescribeVolumes''] [''*''],
        stmt [''ec2:CreateTags''] [arn ac ''ec2'' ''volume/*'', arn ac ''ec2'' ''instance/*''],
        stmt [''cloudformation:DescribeStacks''] [ar_stack ar]] @ metrics @ gw)))"

datatype role = ApiRole | HealthRole | WorkerRole | SkillsRole | TemplatesRole | ScalerRole | BackupRole | HostRole

definition role_policy :: "cdk_grants \<Rightarrow> account \<Rightarrow> stack_arns \<Rightarrow> json \<Rightarrow> role \<Rightarrow> exn + statement list" where
  "role_policy cd ac ar cfg r = (case r of
       ApiRole \<Rightarrow> api_policy cd ac ar cfg | HealthRole \<Rightarrow> health_policy cd ac ar cfg | WorkerRole \<Rightarrow> worker_policy cd ac ar cfg
     | SkillsRole \<Rightarrow> Inr (skills_policy cd ar) | TemplatesRole \<Rightarrow> Inr (templates_policy cd ar)
     | ScalerRole \<Rightarrow> Inr (scaler_policy cd ac ar) | BackupRole \<Rightarrow> Inr (backup_policy cd ac ar) | HostRole \<Rightarrow> host_policy cd ac ar cfg)"

section \<open>What the roles are meant to do\<close>

text \<open>The actions on hosts, on the fleet and on the load balancer, other than those that only look.\<close>

definition controlled :: "string \<Rightarrow> bool" where
  "controlled a = (list_ex (\<lambda>s. prefix s a) [''ssm:'', ''ec2:'', ''autoscaling:'', ''elasticloadbalancing:''] \<and>
     \<not> list_ex (\<lambda>s. prefix s a) [''ssm:Get'', ''ec2:Describe'', ''autoscaling:Describe'', ''elasticloadbalancing:Describe''])"

definition own_host :: "account \<Rightarrow> iam_request \<Rightarrow> bool" where
  "own_host ac q = (prefix (arn ac ''ec2'' ''instance/'') (rq_resource q) \<and> map_of (rq_tags q) (fst host_tag) = Some (snd host_tag))"

definition own_group :: "account \<Rightarrow> iam_request \<Rightarrow> bool" where
  "own_group ac q = glob (asg_arn ac) (rq_resource q)"

definition own_balancer :: "account \<Rightarrow> iam_request \<Rightarrow> bool" where
  "own_balancer ac q = list_ex (\<lambda>s. prefix (arn ac ''elasticloadbalancing'' s) (rq_resource q)) [''listener-rule/app/'', ''listener/app/'', ''targetgroup/'']"

definition own_disk_or_instance :: "account \<Rightarrow> iam_request \<Rightarrow> bool" where
  "own_disk_or_instance ac q = list_ex (\<lambda>s. prefix (arn ac ''ec2'' s) (rq_resource q)) [''volume/'', ''instance/'']"

text \<open>Who may do what to what.\<close>

definition intent :: "account \<Rightarrow> (role list \<times> string list \<times> (iam_request \<Rightarrow> bool)) list" where
  "intent ac =
    [([ApiRole, HealthRole, WorkerRole, ScalerRole, BackupRole], [''ssm:SendCommand''], \<lambda>q. rq_resource q = run_shell_doc_arn ac \<or> own_host ac q),
     ([ApiRole], [''ec2:TerminateInstances''], own_host ac),
     ([ApiRole], [''autoscaling:SetDesiredCapacity''], own_group ac),
     ([ApiRole, ScalerRole], [''autoscaling:TerminateInstanceInAutoScalingGroup''], own_group ac),
     ([ApiRole, HostRole], [''autoscaling:CompleteLifecycleAction''], own_group ac),
     ([ApiRole, HealthRole, WorkerRole], [''elasticloadbalancing:CreateRule'', ''elasticloadbalancing:ModifyRule'',
       ''elasticloadbalancing:CreateTargetGroup'', ''elasticloadbalancing:RegisterTargets''], own_balancer ac),
     ([ApiRole], [''elasticloadbalancing:DeleteRule'', ''elasticloadbalancing:DeleteTargetGroup'',
       ''elasticloadbalancing:DeregisterTargets''], own_balancer ac),
     ([HostRole], [''ec2:CreateTags''], own_disk_or_instance ac)]"

definition may :: "account \<Rightarrow> role \<Rightarrow> iam_request \<Rightarrow> bool" where
  "may ac r q = list_ex (\<lambda>(roles, actions, target). r \<in> set roles \<and> rq_action q \<in> set actions \<and> target q) (intent ac)"

text \<open>A grant holds actions of the service of its resource only.\<close>

fun service_of :: "grant \<Rightarrow> string" where
  "service_of TableReadWrite = ''dynamodb:''" | "service_of TableRead = ''dynamodb:''" | "service_of TableWrite = ''dynamodb:''"
| "service_of BucketRead = ''s3:''" | "service_of BucketPut = ''s3:''" | "service_of BucketDelete = ''s3:''"
| "service_of BucketReadWrite = ''s3:''" | "service_of TopicPublish = ''sns:''" | "service_of QueueSend = ''sqs:''"
| "service_of QueueConsume = ''sqs:''" | "service_of FunctionInvoke = ''lambda:''" | "service_of GatewayInvoke = ''bedrock-agentcore:''"

definition own_service :: "cdk_grants \<Rightarrow> bool" where
  "own_service cd = (\<forall>g. list_all (\<lambda>a. prefix (service_of g) a) (cd_actions cd g))"

definition plain_account :: "account \<Rightarrow> bool" where
  "plain_account ac = (plain (ac_partition ac) \<and> plain (ac_region ac) \<and> plain (ac_id ac))"

section \<open>Evaluation of the parts\<close>

lemma allowed_simps [simp]: "allowed [] q = False" "allowed (s # p) q = (allows q s \<or> allowed p q)"
  "allowed (p1 @ p2) q = (allowed p1 q \<or> allowed p2 q)"
  by (simp_all add: allowed_def)

lemma allows_stmt: "allows q (stmt as rs) = (list_ex (\<lambda>a. glob a (rq_action q)) as \<and> list_ex (\<lambda>r. glob r (rq_resource q)) rs)"
  by (simp add: allows_def stmt_def)

lemma allows_tagged:
  "allows q (tagged_stmt as rs t) = (list_ex (\<lambda>a. glob a (rq_action q)) as \<and> list_ex (\<lambda>r. glob r (rq_resource q)) rs \<and>
     map_of (rq_tags q) (fst t) = Some (snd t))"
  by (simp add: allows_def tagged_stmt_def case_prod_beta)

lemma service_plain: "plain (service_of g)"
  by (cases g) simp_all

lemma service_uncontrolled: "prefix (service_of g) a \<Longrightarrow> \<not> controlled a"
  by (cases g) (auto simp: controlled_def prefix_def)

lemma glob_begins: "plain l \<Longrightarrow> prefix l p \<Longrightarrow> glob p s \<Longrightarrow> prefix l s"
  by (auto simp: prefix_def glob_literal)

lemma granted_uncontrolled:
  assumes "own_service cd" "controlled (rq_action q)"
  shows "\<not> allows q (granted cd g a)"
proof
  assume "allows q (granted cd g a)"
  then obtain x where "x \<in> set (cd_actions cd g)" "glob x (rq_action q)"
    by (auto simp: granted_def allows_stmt list_ex_iff)
  then have "prefix (service_of g) (rq_action q)"
    using assms(1) glob_begins [OF service_plain, of g x] by (simp add: own_service_def list_all_iff)
  then show False using service_uncontrolled assms(2) by blast
qed

lemma arn_plain: "plain_account ac \<Longrightarrow> plain service \<Longrightarrow> plain rest \<Longrightarrow> plain (arn ac service rest)"
  by (simp add: arn_def plain_account_def)

lemma arn_star:
  assumes "plain_account ac" "plain service" "plain rest"
  shows "glob (arn ac service (rest @ ''*'')) s = prefix (arn ac service rest) s"
proof -
  have "arn ac service (rest @ ''*'') = arn ac service rest @ ''*''" by (simp add: arn_def)
  then show ?thesis using glob_prefix [OF arn_plain [OF assms]] by simp
qed

lemma arn_patterns:
  assumes "plain_account ac"
  shows "glob (arn ac ''ec2'' ''instance/*'') s = prefix (arn ac ''ec2'' ''instance/'') s"
    "glob (arn ac ''ec2'' ''volume/*'') s = prefix (arn ac ''ec2'' ''volume/'') s"
    "list_ex (\<lambda>r. glob r (rq_resource q)) (elb_arns ac) = own_balancer ac q"
    "glob (run_shell_doc_arn ac) s = (s = run_shell_doc_arn ac)"
proof -
  note star = arn_star [OF assms, of _ _ s] arn_star [OF assms, of _ _ "rq_resource q"]
  show "glob (arn ac ''ec2'' ''instance/*'') s = prefix (arn ac ''ec2'' ''instance/'') s"
    using star(1) [of "''ec2''" "''instance/''"] by simp
  show "glob (arn ac ''ec2'' ''volume/*'') s = prefix (arn ac ''ec2'' ''volume/'') s"
    using star(1) [of "''ec2''" "''volume/''"] by simp
  show "list_ex (\<lambda>r. glob r (rq_resource q)) (elb_arns ac) = own_balancer ac q"
    using star(2) [of "''elasticloadbalancing''" "''listener-rule/app/''"] star(2) [of "''elasticloadbalancing''" "''listener/app/''"]
      star(2) [of "''elasticloadbalancing''" "''targetgroup/''"] by (simp add: elb_arns_def own_balancer_def)
  show "glob (run_shell_doc_arn ac) s = (s = run_shell_doc_arn ac)"
    using assms by (intro glob_plain) (simp add: run_shell_doc_arn_def plain_account_def)
qed

text \<open>The shared groups of statements, for a controlled action.\<close>

lemma shared_statements:
  assumes "plain_account ac" "controlled (rq_action q)"
  shows "allowed (ssm_policies ac) q \<longleftrightarrow> rq_action q = ''ssm:SendCommand'' \<and> (rq_resource q = run_shell_doc_arn ac \<or> own_host ac q)"
    "allowed (ec2_policies ac) q \<longleftrightarrow> rq_action q = ''ec2:TerminateInstances'' \<and> own_host ac q"
    "allowed (failover_elb ac) q \<longleftrightarrow> rq_action q \<in> {''elasticloadbalancing:CreateRule'', ''elasticloadbalancing:ModifyRule'',
       ''elasticloadbalancing:CreateTargetGroup'', ''elasticloadbalancing:RegisterTargets''} \<and> own_balancer ac q"
proof -
  have looks: "rq_action q \<noteq> ''ssm:GetCommandInvocation''" "rq_action q \<noteq> ''ec2:DescribeInstances''" "rq_action q \<noteq> ''ec2:DescribeInstanceTypes''"
    "rq_action q \<noteq> ''elasticloadbalancing:DescribeRules''" "rq_action q \<noteq> ''elasticloadbalancing:DescribeTargetGroups''"
    using assms(2) by (auto simp: controlled_def)
  note sem = allows_stmt allows_tagged glob_plain arn_patterns [OF assms(1)] looks
  show "allowed (ssm_policies ac) q \<longleftrightarrow> rq_action q = ''ssm:SendCommand'' \<and> (rq_resource q = run_shell_doc_arn ac \<or> own_host ac q)"
    by (auto simp: ssm_policies_def sem own_host_def)
  show "allowed (ec2_policies ac) q \<longleftrightarrow> rq_action q = ''ec2:TerminateInstances'' \<and> own_host ac q"
    by (auto simp: ec2_policies_def sem own_host_def)
  show "allowed (failover_elb ac) q \<longleftrightarrow> rq_action q \<in> {''elasticloadbalancing:CreateRule'', ''elasticloadbalancing:ModifyRule'',
       ''elasticloadbalancing:CreateTargetGroup'', ''elasticloadbalancing:RegisterTargets''} \<and> own_balancer ac q"
    by (simp add: failover_elb_def sem)
qed

lemma topic_uncontrolled:
  "topic_grant cd ar cfg = Inr topic \<Longrightarrow> own_service cd \<Longrightarrow> controlled (rq_action q) \<Longrightarrow> \<not> allowed topic q"
  using granted_uncontrolled by (auto simp: topic_grant_def bind_sum_Inr split: if_splits)

lemma looking:
  assumes "controlled (rq_action q)"
  shows "rq_action q \<noteq> ''autoscaling:DescribeAutoScalingGroups''" "rq_action q \<noteq> ''elasticloadbalancing:DescribeListeners''"
    "rq_action q \<noteq> ''elasticloadbalancing:DescribeRules''" "rq_action q \<noteq> ''elasticloadbalancing:DescribeTargetGroups''"
    "rq_action q \<noteq> ''ec2:DescribeVolumes''" "rq_action q \<noteq> ''cloudformation:DescribeStacks''" "rq_action q \<noteq> ''aps:RemoteWrite''"
    "rq_action q \<noteq> ''aps:GetSeries''" "rq_action q \<noteq> ''aps:GetLabels''" "rq_action q \<noteq> ''aps:GetMetricMetadata''"
  using assms by (auto simp: controlled_def)

text \<open>What is the same for every role.\<close>

definition basics_silent :: "cdk_grants \<Rightarrow> iam_request \<Rightarrow> bool" where
  "basics_silent cd q = (\<not> allowed (cd_lambda_basic cd) q \<and> \<not> allowed (cd_ssm_core cd) q)"

lemma lambda_roles_may:
  assumes "plain_account ac" "own_service cd" "controlled (rq_action q)" "basics_silent cd q"
  shows "health_policy cd ac ar cfg = Inr p \<Longrightarrow> allowed p q = may ac HealthRole q"
    "worker_policy cd ac ar cfg = Inr p \<Longrightarrow> allowed p q = may ac WorkerRole q"
    "\<not> allowed (skills_policy cd ar) q" "\<not> allowed (templates_policy cd ar) q"
    "allowed (scaler_policy cd ac ar) q = may ac ScalerRole q" "allowed (backup_policy cd ac ar) q = may ac BackupRole q"
proof -
  note sem = assms(4) [unfolded basics_silent_def] granted_uncontrolled [OF assms(2,3)] shared_statements [OF assms(1,3)]
    allows_stmt glob_plain looking [OF assms(3)] may_def intent_def
  show "allowed p q = may ac HealthRole q" if p: "health_policy cd ac ar cfg = Inr p"
  proof -
    obtain topic where t: "topic_grant cd ar cfg = Inr topic" using p by (auto simp: health_policy_def bind_sum_Inr)
    then show ?thesis using p topic_uncontrolled [OF t assms(2,3)] by (auto simp: health_policy_def t sem)
  qed
  show "allowed p q = may ac WorkerRole q" if p: "worker_policy cd ac ar cfg = Inr p"
  proof -
    obtain topic where t: "topic_grant cd ar cfg = Inr topic" using p by (auto simp: worker_policy_def bind_sum_Inr)
    then show ?thesis using p topic_uncontrolled [OF t assms(2,3)] by (auto simp: worker_policy_def t sem)
  qed
  show "\<not> allowed (skills_policy cd ar) q" "\<not> allowed (templates_policy cd ar) q"
    by (simp_all add: skills_policy_def templates_policy_def sem)
  show "allowed (scaler_policy cd ac ar) q = may ac ScalerRole q"
    by (auto simp: scaler_policy_def sem own_group_def)
  show "allowed (backup_policy cd ac ar) q = may ac BackupRole q"
    by (simp add: backup_policy_def sem)
qed

lemma api_role_may:
  assumes "plain_account ac" "own_service cd" "controlled (rq_action q)" "basics_silent cd q" "api_policy cd ac ar cfg = Inr p"
  shows "allowed p q = may ac ApiRole q"
proof -
  obtain topic where t: "topic_grant cd ar cfg = Inr topic" using assms(5) by (auto simp: api_policy_def bind_sum_Inr)
  have "allowed (projr (api_policy cd ac ar cfg)) q = may ac ApiRole q"
    by (simp add: api_policy_def api_elb_def t topic_uncontrolled [OF t assms(2,3)] assms(4) [unfolded basics_silent_def]
        granted_uncontrolled [OF assms(2,3)] shared_statements [OF assms(1,3)] allows_stmt glob_plain looking [OF assms(3)]
        arn_patterns(3) [OF assms(1)] may_def intent_def own_group_def) blast
  then show ?thesis using assms(5) by simp
qed

lemma host_role_may:
  assumes "plain_account ac" "own_service cd" "controlled (rq_action q)" "basics_silent cd q" "host_policy cd ac ar cfg = Inr p"
  shows "allowed p q = may ac HostRole q"
proof -
  obtain metrics gw where parts: "metrics_statements ar cfg = Inr metrics" "gateway_grant cd ar cfg = Inr gw"
    using assms(5) by (auto simp: host_policy_def bind_sum_Inr)
  have "\<not> allowed metrics q" using parts(1)
    by (auto simp: metrics_statements_def bind_sum_Inr allows_stmt glob_plain looking [OF assms(3)] split: if_splits)
  moreover have "\<not> allowed gw q" using parts(2) granted_uncontrolled [OF assms(2,3)]
    by (auto simp: gateway_grant_def bind_sum_Inr split: if_splits)
  ultimately show ?thesis using assms(5)
    by (auto simp: host_policy_def parts assms(4) [unfolded basics_silent_def] granted_uncontrolled [OF assms(2,3)]
        allows_stmt glob_plain looking [OF assms(3)] arn_patterns(1,2) [OF assms(1)] may_def intent_def own_group_def
        own_disk_or_instance_def)
qed

text \<open>
  C16. The permissions are exactly the intended ones: for every action on hosts, on the fleet and on the load balancer
  that changes something, and every resource, a role is allowed it if and only if the table of intentions
  says so; commands and terminations reach only instances that carry the tag of the group, only the API
  terminates, deletes rules or sets the size of the group, and the roles of the skills and templates Lambdas
  may do none of it, whatever the configuration, the account and the rest of the grants.
\<close>

theorem permissions_as_intended:
  assumes "plain_account ac" "own_service cd" "controlled (rq_action q)" "basics_silent cd q" "role_policy cd ac ar cfg r = Inr p"
  shows "allowed p q \<longleftrightarrow> may ac r q"
proof (cases r)
  case ApiRole
  then show ?thesis using api_role_may [OF assms(1-4)] assms(5) by (simp add: role_policy_def)
next
  case HostRole
  then show ?thesis using host_role_may [OF assms(1-4)] assms(5) by (simp add: role_policy_def)
qed (use lambda_roles_may [OF assms(1-4)] assms(5) in \<open>auto simp: role_policy_def may_def intent_def\<close>)

section \<open>An account\<close>

definition sample_account :: account where
  "sample_account = \<lparr>ac_partition = ''aws'', ac_region = ''us-east-1'', ac_id = ''123456789012''\<rparr>"

text \<open>Some of the documented actions of the grants.\<close>

definition sample_grants :: cdk_grants where
  "sample_grants = \<lparr>cd_actions = (\<lambda>g. case g of TableReadWrite \<Rightarrow> [''dynamodb:GetItem'', ''dynamodb:PutItem'', ''dynamodb:Scan'']
       | TableRead \<Rightarrow> [''dynamodb:GetItem'', ''dynamodb:Scan''] | TableWrite \<Rightarrow> [''dynamodb:PutItem'']
       | BucketRead \<Rightarrow> [''s3:GetObject*'', ''s3:List*''] | BucketPut \<Rightarrow> [''s3:PutObject''] | BucketDelete \<Rightarrow> [''s3:DeleteObject*'']
       | BucketReadWrite \<Rightarrow> [''s3:GetObject*'', ''s3:PutObject''] | TopicPublish \<Rightarrow> [''sns:Publish'']
       | QueueSend \<Rightarrow> [''sqs:SendMessage''] | QueueConsume \<Rightarrow> [''sqs:ReceiveMessage'', ''sqs:DeleteMessage'']
       | FunctionInvoke \<Rightarrow> [''lambda:InvokeFunction''] | GatewayInvoke \<Rightarrow> [''bedrock-agentcore:InvokeGateway'']),
     cd_resources = (\<lambda>g a. [a]), cd_lambda_basic = [stmt [''logs:CreateLogGroup'', ''logs:PutLogEvents''] [''*'']],
     cd_ssm_core = [stmt [''ssm:UpdateInstanceInformation'', ''ssmmessages:*''] [''*'']]\<rparr>"

definition sample_arns :: stack_arns where
  "sample_arns = \<lparr>ar_tenants = ''t'', ar_hosts = ''h'', ar_groups = ''g'', ar_audit = ''a'', ar_bucket = ''b'', ar_topic = ''n'',
     ar_queue = ''q'', ar_health_fn = ''hf'', ar_backup_fn = ''bf'', ar_workspace = ''w'', ar_gateway = ''gw'', ar_stack = ''s''\<rparr>"

text \<open>A command to an instance that is not of the group.\<close>

definition foreign_command :: iam_request where
  "foreign_command = \<lparr>rq_action = ''ssm:SendCommand'', rq_resource = ''arn:aws:ec2:us-east-1:123456789012:instance/i-1'',
     rq_tags = [(''aws:autoscaling:groupName'', ''other'')]\<rparr>"

theorem permissions_as_intended_witness:
  "\<exists>p. role_policy sample_grants sample_account sample_arns (JObj []) ScalerRole = Inr p \<and>
    allowed p foreign_command = may sample_account ScalerRole foreign_command \<and> \<not> allowed p foreign_command"
proof -
  have p: "role_policy sample_grants sample_account sample_arns (JObj []) ScalerRole = Inr (scaler_policy sample_grants sample_account sample_arns)"
    by (simp add: role_policy_def)
  have own: "own_service sample_grants" unfolding own_service_def
  proof
    show "list_all (\<lambda>a. prefix (service_of g) a) (cd_actions sample_grants g)" for g by (cases g) (simp_all add: sample_grants_def)
  qed
  have facts: "plain_account sample_account" "controlled (rq_action foreign_command)" "basics_silent sample_grants foreign_command"
    "\<not> may sample_account ScalerRole foreign_command" by code_simp+
  show ?thesis using permissions_as_intended [OF facts(1) own facts(2,3) p] p facts(4) by blast
qed

text \<open>
  Why the document has a statement of its own: put together with the instances under the condition on the
  tag, the document, which has no tags, would be refused, and with it every command.
\<close>

lemma merged_statement_refuses:
  "\<not> allows \<lparr>rq_action = ''ssm:SendCommand'', rq_resource = run_shell_doc_arn ac, rq_tags = []\<rparr>
     (tagged_stmt [''ssm:SendCommand''] [run_shell_doc_arn ac, arn ac ''ec2'' ''instance/*''] host_tag)"
  by (simp add: allows_tagged)

lemma document_allowed:
  "plain_account ac \<Longrightarrow> allowed (ssm_policies ac) \<lparr>rq_action = ''ssm:SendCommand'', rq_resource = run_shell_doc_arn ac, rq_tags = []\<rparr>"
  by (simp add: ssm_policies_def allows_stmt allows_tagged glob_plain arn_patterns)

end
