(* ===== verification/Operations.thy ===== *)
theory Operations
  imports Settings Api AgentCoreTools
begin

text \<open>
  What the stack declares for the running of the control plane (deploy/stack.py): the events that start the
  Lambdas, the hooks of the group of hosts, the queue of the failover jobs, the alarms, the rules of the
  firewall in front of the API, and the tools and memory of the agents. The declarations are compared with the
  code they serve.
\<close>

section \<open>Events\<close>

datatype stack_function = ApiFn | HealthFn | WorkerFn | ScalerFn | BackupFn

text \<open>A rule fires at a rate, at times given by an expression, or for events of a source and a type.\<close>

datatype trigger = EveryMinutes json | AtTimes json | OnEvents "string list" "string list"

record bus_rule =
  er_name :: string
  er_when :: trigger
  er_target :: stack_function
  er_retries :: nat
  er_dead_letters :: string

definition event_rule :: "string \<Rightarrow> trigger \<Rightarrow> stack_function \<Rightarrow> bus_rule" where
  "event_rule n t f = \<lparr>er_name = n, er_when = t, er_target = f, er_retries = 2, er_dead_letters = ''openclaw-events-dlq''\<rparr>"

definition health_schedule :: "json \<Rightarrow> exn + bus_rule" where
  "health_schedule cfg = bind_sum (cfg_item cfg ''health_check'' ''interval_minutes'') (\<lambda>n.
     Inr (event_rule ''HealthCheckSchedule'' (EveryMinutes n) HealthFn))"

definition scaler_schedule :: "json \<Rightarrow> exn + bus_rule" where
  "scaler_schedule cfg = bind_sum (cfg_item cfg ''scaler'' ''interval_minutes'') (\<lambda>n.
     Inr (event_rule ''ScalerSchedule'' (EveryMinutes n) ScalerFn))"

definition backup_schedule :: "json \<Rightarrow> exn + bus_rule" where
  "backup_schedule cfg = bind_sum (cfg_item cfg ''s3'' ''backup_cron'') (\<lambda>t.
     Inr (event_rule ''BackupSchedule'' (AtTimes t) BackupFn))"

definition host_rules :: "bus_rule list" where
  "host_rules = [event_rule ''HostReadyRule'' (OnEvents [''aws.autoscaling''] [''EC2 Instance Launch Successful'']) ApiFn,
     event_rule ''HostTerminateRule'' (OnEvents [''aws.autoscaling''] [''EC2 Instance-terminate Lifecycle Action'']) ApiFn]"

definition event_rules :: "json \<Rightarrow> exn + bus_rule list" where
  "event_rules cfg = bind_sum (health_schedule cfg) (\<lambda>h. bind_sum (scaler_schedule cfg) (\<lambda>s.
     bind_sum (backup_schedule cfg) (\<lambda>b. Inr ([h, s, b] @ host_rules))))"

lemmas rule_defs = event_rules_def health_schedule_def scaler_schedule_def backup_schedule_def host_rules_def event_rule_def

definition fires :: "string \<Rightarrow> string \<Rightarrow> bus_rule \<Rightarrow> bool" where
  "fires source kind r = (case er_when r of OnEvents ss ks \<Rightarrow> source \<in> set ss \<and> kind \<in> set ks | _ \<Rightarrow> False)"

text \<open>
  The API is started by two kinds of event only, and takes each for what it is: only the end of a host
  removes it, and a host that came up has the waiting tenants placed.
\<close>

lemma delivered_kinds:
  assumes "event_rules cfg = Inr rules" "r \<in> set rules" "fires source kind r" "er_target r = ApiFn"
  shows "source = ''aws.autoscaling''" "kind = ''EC2 Instance Launch Successful'' \<or> kind = ''EC2 Instance-terminate Lifecycle Action''"
  using assms by (auto simp: rule_defs bind_sum_Inr fires_def)

lemma events_taken_for_what_they_are:
  assumes "event_rules cfg = Inr rules" "r \<in> set rules" "fires source kind r" "er_target r = ApiFn"
  shows "lambda_handler c x (Autoscaling kind detail) =
    (if kind = ''EC2 Instance-terminate Lifecycle Action''
     then andThen (lift_sum (required ''EC2InstanceId'' (map_of detail ''EC2InstanceId''))) (\<lambda>i.
       andThen (cleanup_terminated_host c i (map_of detail ''LifecycleHookName'')) (\<lambda>_. ok None))
     else andThen (process_pending c) (\<lambda>r. ok (Some r)))"
proof -
  have "contains ''terminate'' (ascii_lower ''EC2 Instance-terminate Lifecycle Action'')"
    "\<not> contains ''terminate'' (ascii_lower ''EC2 Instance Launch Successful'')" by code_simp+
  then show ?thesis using delivered_kinds(2) [OF assms] by (auto simp: lambda_handler_def)
qed

section \<open>Hooks of the group of hosts\<close>

record lifecycle_hook =
  lh_name :: string
  lh_transition :: string
  lh_timeout :: json
  lh_default :: string

definition lifecycle_hooks :: "json \<Rightarrow> exn + lifecycle_hook list" where
  "lifecycle_hooks cfg = bind_sum (cfg_item cfg ''asg'' ''lifecycle_hook_timeout'') (\<lambda>t. Inr
     [\<lparr>lh_name = ''openclaw-host-init'', lh_transition = ''autoscaling:EC2_INSTANCE_LAUNCHING'', lh_timeout = t, lh_default = ''ABANDON''\<rparr>,
      \<lparr>lh_name = ''openclaw-host-terminate'', lh_transition = ''autoscaling:EC2_INSTANCE_TERMINATING'', lh_timeout = JInt 120,
        lh_default = ''CONTINUE''\<rparr>])"

section \<open>Queues and alarms\<close>

record queue_decl =
  qd_name :: string
  qd_visibility :: "nat option"
  qd_retention_days :: nat
  qd_dead_letters :: "(string \<times> nat) option"

definition events_dlq :: queue_decl where
  "events_dlq = \<lparr>qd_name = ''openclaw-events-dlq'', qd_visibility = None, qd_retention_days = 14, qd_dead_letters = None\<rparr>"

definition failover_dlq :: queue_decl where
  "failover_dlq = \<lparr>qd_name = ''openclaw-failover-dlq'', qd_visibility = None, qd_retention_days = 14, qd_dead_letters = None\<rparr>"

definition failover_queue :: queue_decl where
  "failover_queue = \<lparr>qd_name = ''openclaw-failover'', qd_visibility = Some 900, qd_retention_days = 4,
     qd_dead_letters = Some (qd_name failover_dlq, 2)\<rparr>"

text \<open>Seconds after which a Lambda is stopped.\<close>

fun function_timeout :: "stack_function \<Rightarrow> nat" where
  "function_timeout ApiFn = 120" | "function_timeout HealthFn = 180" | "function_timeout WorkerFn = 600"
| "function_timeout ScalerFn = 60" | "function_timeout BackupFn = 900"

text \<open>
  Deliveries of one message, with the second in which each begins and that in which its work ends. A message
  taken from the queue stays out of sight for the visibility timeout and goes to the dead letters after the
  last of its deliveries; the work on it ends with the Lambda's timeout at the latest.
\<close>

fun deliveries_ok :: "queue_decl \<Rightarrow> nat \<Rightarrow> (nat \<times> nat) list \<Rightarrow> bool" where
  "deliveries_ok q limit [] = True"
| "deliveries_ok q limit [(s, e)] = (e \<le> s + limit)"
| "deliveries_ok q limit ((s, e) # (s', e') # ds) =
     (e \<le> s + limit \<and> (case qd_visibility q of None \<Rightarrow> True | Some v \<Rightarrow> s + v \<le> s') \<and> deliveries_ok q limit ((s', e') # ds))"

lemma deliveries_apart:
  "deliveries_ok failover_queue limit ((s, e) # ds) \<Longrightarrow> (s', e') \<in> set ds \<Longrightarrow> s + 900 \<le> s'"
proof (induction ds arbitrary: s e)
  case (Cons d ds)
  obtain s1 e1 where d: "d = (s1, e1)" by (cases d)
  have "s + 900 \<le> s1" "deliveries_ok failover_queue limit ((s1, e1) # ds)"
    using Cons.prems(1) by (simp_all add: d failover_queue_def)
  then show ?case using Cons.IH [of s1 e1] Cons.prems(2) by (auto simp: d)
qed simp

text \<open>So the work on a job has ended before the job is delivered again.\<close>

lemma work_never_overlaps:
  assumes "deliveries_ok failover_queue (function_timeout WorkerFn) ((s, e) # ds)" "(s', e') \<in> set ds"
  shows "e < s'"
proof -
  have "e \<le> s + 600" using assms(1) by (cases ds) auto
  then show ?thesis using deliveries_apart [OF assms] by simp
qed

record alarm_decl =
  ad_name :: string
  ad_watches :: string

text \<open>An alarm on the errors and one on the throttles of each function, one on each queue of dead letters.\<close>

definition alarmed :: "(stack_function \<times> string) list" where
  "alarmed = [(ApiFn, ''Api''), (HealthFn, ''Health''), (ScalerFn, ''Scaler''), (BackupFn, ''Backup''), (WorkerFn, ''FailoverWorker'')]"

definition alarms :: "alarm_decl list" where
  "alarms = concat (map (\<lambda>(f, label).
     [\<lparr>ad_name = ''openclaw-'' @ ascii_lower label @ ''-errors'', ad_watches = label @ '' errors''\<rparr>,
      \<lparr>ad_name = ''openclaw-'' @ ascii_lower label @ ''-throttles'', ad_watches = label @ '' throttles''\<rparr>]) alarmed) @
     [\<lparr>ad_name = ''openclaw-events-dlq-not-empty'', ad_watches = qd_name events_dlq\<rparr>,
      \<lparr>ad_name = ''openclaw-failover-dlq-not-empty'', ad_watches = qd_name failover_dlq\<rparr>]"

text \<open>Whatever the stack starts by itself is watched, and so is every place where undelivered work ends.\<close>

lemma nothing_fails_unseen:
  assumes "event_rules cfg = Inr rules" "r \<in> set rules"
  shows "er_target r \<in> set (map fst alarmed)" "er_dead_letters r \<in> set (map ad_watches alarms)"
    "\<exists>d n. qd_dead_letters failover_queue = Some (d, n) \<and> d \<in> set (map ad_watches alarms)"
proof -
  have "qd_name events_dlq \<in> set (map ad_watches alarms)" "qd_name failover_dlq \<in> set (map ad_watches alarms)"
    by (simp_all add: alarms_def)
  then show "er_dead_letters r \<in> set (map ad_watches alarms)"
    "\<exists>d n. qd_dead_letters failover_queue = Some (d, n) \<and> d \<in> set (map ad_watches alarms)"
    using assms by (auto simp: rule_defs bind_sum_Inr events_dlq_def failover_queue_def)
  show "er_target r \<in> set (map fst alarmed)"
    using assms by (auto simp: rule_defs bind_sum_Inr alarmed_def)
qed

section \<open>The firewall of the API\<close>

datatype waf_statement = RateLimit int | ManagedGroup json

record waf_rule =
  wr_name :: json
  wr_priority :: nat
  wr_blocks :: bool
  wr_statement :: waf_statement

text \<open>\<open>list(v)\<close>.\<close>

definition json_items :: "json \<Rightarrow> exn + json list" where
  "json_items v = (case v of JList xs \<Rightarrow> Inr xs | JStr s \<Rightarrow> Inr (map (\<lambda>c. JStr [c]) s) | JObj kvs \<Rightarrow> Inr (map (\<lambda>(k, x). JStr k) kvs)
     | _ \<Rightarrow> Inl (PyError TypeError (quoted (type_name v) @ '' object is not iterable'')))"

text \<open>The managed groups are numbered on from the given priority.\<close>

fun managed_rules :: "nat \<Rightarrow> json list \<Rightarrow> waf_rule list" where
  "managed_rules p [] = []"
| "managed_rules p (n # ns) = \<lparr>wr_name = n, wr_priority = p, wr_blocks = False, wr_statement = ManagedGroup n\<rparr> # managed_rules (Suc p) ns"

definition waf_groups :: "json \<Rightarrow> exn + json list" where
  "waf_groups waf = bind_sum (get_or waf ''managed_rules'' (JList [])) (\<lambda>v. if truthy v then json_items v else Inr [])"

definition build_waf :: "json \<Rightarrow> exn + waf_rule list option" where
  "build_waf cfg = bind_sum (section_or_empty cfg ''waf'') (\<lambda>waf. bind_sum (get_or waf ''enabled'' (JBool False)) (\<lambda>on.
     if \<not> truthy on then Inr None
     else bind_sum (bind_sum (get_or waf ''rate_limit_per_ip'' (JInt 1000)) py_int) (\<lambda>limit.
     bind_sum (waf_groups waf) (\<lambda>names.
     Inr (Some (\<lparr>wr_name = JStr ''RateLimitPerIP'', wr_priority = 0, wr_blocks = True, wr_statement = RateLimit limit\<rparr> # managed_rules 1 names))))))"

lemma managed_priorities: "map wr_priority (managed_rules p ns) = [p..<p + length ns]"
  by (induction ns arbitrary: p) (simp_all add: upt_rec)

text \<open>The rules have the priorities from 0 on, each once, and the limit on requests comes first.\<close>

lemma waf_priorities:
  assumes "build_waf cfg = Inr (Some rules)"
  shows "map wr_priority rules = [0..<length rules]" "wr_name (hd rules) = JStr ''RateLimitPerIP''" "rules \<noteq> []"
proof -
  obtain limit names where r: "rules = \<lparr>wr_name = JStr ''RateLimitPerIP'', wr_priority = 0, wr_blocks = True, wr_statement = RateLimit limit\<rparr> #
      managed_rules 1 names"
    using assms by (auto simp: build_waf_def bind_sum_Inr split: if_splits)
  have "length (managed_rules 1 names) = length names" using managed_priorities [of 1 names] by (metis length_map length_upt diff_add_inverse)
  then show "map wr_priority rules = [0..<length rules]" using managed_priorities [of 1 names] by (simp add: r upt_rec)
  show "wr_name (hd rules) = JStr ''RateLimitPerIP''" "rules \<noteq> []" by (simp_all add: r)
qed

section \<open>Tables and backups\<close>

record stack_table =
  td_name :: string
  td_key :: "string list"
  td_expiry :: "string option"
  td_recoverable :: bool
  td_protected :: bool
  td_retained :: bool

definition table_decl :: "string \<Rightarrow> string \<Rightarrow> stack_table" where
  "table_decl n k = \<lparr>td_name = n, td_key = [k], td_expiry = None, td_recoverable = True, td_protected = True, td_retained = True\<rparr>"

text \<open>The name of the audit table ends in the first part of the stack's identifier.\<close>

definition stack_tables :: "string \<Rightarrow> stack_table list" where
  "stack_tables audit_suffix = [table_decl ''openclaw-tenants'' ''id'', table_decl ''openclaw-hosts'' ''instance_id'',
     table_decl ''openclaw-groups'' ''name'',
     \<lparr>td_name = ''openclaw-audit-log-'' @ audit_suffix, td_key = [''pk'', ''ts''], td_expiry = Some ''expires_ttl'',
      td_recoverable = True, td_protected = False, td_retained = True\<rparr>]"

text \<open>No table loses its rows with the stack, and only the one whose rows expire anyway may be deleted.\<close>

lemma tables_kept:
  "d \<in> set (stack_tables x) \<Longrightarrow> td_recoverable d \<and> td_retained d \<and> (td_protected d \<or> td_expiry d \<noteq> None)"
  "distinct (map td_name (stack_tables x))"
  by (auto simp: stack_tables_def table_decl_def)

text \<open>The objects that expire, by the beginning of their keys, and after how many days.\<close>

definition backup_expiry :: "json \<Rightarrow> exn + string \<times> json" where
  "backup_expiry cfg = bind_sum (cfg_item cfg ''s3'' ''backup_prefix'') (\<lambda>p.
     bind_sum (cfg_item cfg ''s3'' ''backup_retention_days'') (\<lambda>d. Inr (json_str p @ ''/'', d)))"

text \<open>Every backup expires and nothing else: the keys below the prefix the Lambdas store backups under.\<close>

lemma backups_expire:
  assumes "backup_expiry cfg = Inr (p, days)" "api_env cfg rs = Inr env"
  shows "\<exists>bp. map_of env ''BACKUP_PREFIX'' = Some (Txt bp) \<and> (prefix p key \<longleftrightarrow> (\<exists>rest. key = bp @ ''/'' @ rest))"
proof -
  have "''BACKUP_PREFIX'' \<notin> set added_vars" by (simp add: added_vars_def)
  then obtain base where base: "api_lambda_env cfg rs = Inr base" "map_of env ''BACKUP_PREFIX'' = map_of base ''BACKUP_PREFIX''"
    using api_env_kept [OF assms(2)] by blast
  obtain v where v: "cfg_item cfg ''s3'' ''backup_prefix'' = Inr v" "p = json_str v @ ''/''"
    using assms(1) by (auto simp: backup_expiry_def bind_sum_Inr)
  note all = collect_all [OF base(1) [unfolded api_lambda_env_def], of "''BACKUP_PREFIX''"]
  obtain bp where bp: "plain_text v = Inr (Txt bp)" "v = JStr bp"
    using all v(1) by (cases v) (auto simp: plain_text_def bind_sum_Inr)
  have "map_of env ''BACKUP_PREFIX'' = Some (Txt bp)"
    using v(1) bp(1) by (simp add: base(2) collect_lookup [OF base(1) [unfolded api_lambda_env_def]])
  then show ?thesis using v(2) bp(2) by (auto simp: json_str_def prefix_def)
qed

section \<open>Tools and memory of the agents\<close>

definition declared_tools :: "string list" where
  "declared_tools = [''hello'', ''system_info'', ''timestamp'']"

text \<open>The tools of the gateway are those the Lambda knows.\<close>

lemma declared_tools_known: "declared_tools = map fst tools"
  by (simp add: declared_tools_def tools_def)

text \<open>The strategies of the memory; one that is not known is left out.\<close>

definition memory_strategies :: "json list \<Rightarrow> (string \<times> string) list" where
  "memory_strategies names = List.map_filter (\<lambda>s.
     if s = JStr ''semantic'' then Some (''openclaw_semantic'', ''/openclaw/tenant/{actorId}/semantic'')
     else if s = JStr ''user_preference'' then Some (''openclaw_preferences'', ''/openclaw/tenant/{actorId}/preferences'')
     else None) names"

text \<open>Every strategy keeps the memories of an actor below a path of its own.\<close>

lemma memories_per_actor: "list_all (\<lambda>(n, ns). prefix ''/openclaw/tenant/{actorId}/'' ns) (memory_strategies names)"
  by (induction names) (auto simp: memory_strategies_def map_filter_simps)

end
