(* ===== verification/Spec2Isabelle.thy ===== *)
theory Spec2Isabelle
  imports System AgentHealth Runtimes Cli AgentCoreTools HostLaunch Staging Listener Policies Operations
begin

text \<open>
  Verification of a multi-tenant deployment of OpenClaw on Firecracker: the Lambdas of the control plane under
  \<^verbatim>\<open>src/deploy/lambda/\<close>, the agent that runs on every host (\<^verbatim>\<open>src/deploy/userdata/\<close>), the command line
  \<^verbatim>\<open>src/cli/oc.py\<close>, and the stack that deploys them all (\<^verbatim>\<open>src/deploy/stack.py\<close>). The control plane places
  tenants (one micro-VM each) on hosts, keeps them routed, moves them, and recovers them when a zone is lost.

  \<^bold>\<open>How the parts interact.\<close> The Lambdas and the agents share two DynamoDB tables (tenants, hosts); besides there are
  tables of groups and of audit entries, one S3 bucket, the load balancer's rules and target groups, and
  the hosts, which the Lambdas reach by SSM Run Command. The API Lambda (\<^verbatim>\<open>api/handler.py\<close>) answers
  requests of the command line and the console, which come through a REST API with the methods the stack declares, and the events
  of the auto-scaling group; the scaler, the backup and the health check run on timers and sweep the
  tables; the queue worker takes failover jobs. An agent polls its VMs, relaunches dead ones, writes the health of its
  tenants into their rows and renders the routes of all tenants into the web server of its host. Nothing synchronises
  these parts but conditional updates of single rows. The stack reads one configuration file, from which it makes the
  environments of the Lambdas, the start-up script of the hosts, the permissions of the roles and the edge.

  \<^bold>\<open>The model.\<close> Python dictionaries of the tables are records (\<open>tenant\<close>, \<open>host\<close>) with one optional field
  per attribute; a missing attribute is \<open>None\<close>. All services are one record \<open>world\<close>, and a handler is a
  function of type \<open>(world, 'a) io\<close> that returns a value or an exception and the world after it. A
  list of failures in the world decides for every service call whether it raises, so that a theorem
  without the hypothesis \<open>quiet\<close> speaks of every pattern of failing calls. Replies of hosts, answers
  of the public address, and the clock are lists and counters of the world. The agent works on a \<open>node\<close>: the
  same world, the variables of its process and its host, which may change before every look (\<open>nd_future\<close>).
  Python's integers are \<open>int\<close>; the times compared by the code are whole microseconds, so comparisons of
  \<^verbatim>\<open>total_seconds()\<close> are exact; floats are doubles with their rounding (\<open>pyfloat\<close>). Environment variables are the
  record \<open>cfg\<close>, which \<open>Settings\<close> reads from the environments the stack makes. Configuration and request
  bodies are values of the type \<open>json\<close>.

  \<^bold>\<open>Theories.\<close>
  \<^item> \<open>Prelude\<close>, \<open>PyLib\<close>: the \<open>io\<close> sums, sorting, association lists; Python's string, number and regular
    expression functions as far as the code uses them.
  \<^item> \<open>World\<close>: rows, tables, services, \<open>keeps\<close> (a frame property of a handler) with the locales
    \<open>host_blind\<close> and \<open>service_blind\<close> and one rule per primitive in \<open>keeps_rules\<close>.
  \<^item> \<open>Capacity\<close>, \<open>Ssm\<close>, \<open>AuditLog\<close>: \<^verbatim>\<open>common/capacity.py\<close>, \<^verbatim>\<open>ssm.py\<close>, \<^verbatim>\<open>audit.py\<close>, \<^verbatim>\<open>ddb.py\<close> and the audit,
    quota and notification functions of the API.
  \<^item> \<open>Validate\<close>, \<open>Rbac\<close>: \<^verbatim>\<open>api/domains/common.py\<close> and the role checks of the API.
  \<^item> \<open>Store\<close>, \<open>Skills\<close>: S3 listing; groups, skills and templates.
  \<^item> \<open>Hosts\<close>, \<open>Alb\<close>, \<open>Tenants\<close>, \<open>Actions\<close>, \<open>Fleet\<close>, \<open>Api\<close>: the operations of \<^verbatim>\<open>api/handler.py\<close> on hosts and
    slots, listener rules, tenants, the actions on a tenant, the fleet (drain, termination hook, root
    file system, manual failover), and the entry point with its table of routes.
  \<^item> \<open>Scaler\<close>, \<open>Backup\<close>: \<^verbatim>\<open>scaler/handler.py\<close> and \<^verbatim>\<open>backup/handler.py\<close>, whole.
  \<^item> \<open>Gates\<close>, \<open>Migration\<close>, \<open>Outage\<close>, \<open>Failover\<close>, \<open>HealthCheck\<close>: \<^verbatim>\<open>health_check/handler.py\<close> and \<^verbatim>\<open>worker.py\<close>:
    the probes that prove a VM reachable, the migration driver, the detection of lost zones, the two
    failover drivers and the worker, the watchdog that composes them.
  \<^item> \<open>Agent\<close>, \<open>AgentMetrics\<close>, \<open>AgentReport\<close>, \<open>PeerMap\<close>, \<open>AgentLoop\<close>: \<^verbatim>\<open>host-agent.py\<close>: supervision and relaunch of the
    VMs, metrics and balloons, the reports to the tables, the routes of all tenants, the poll as a whole and its endpoint.
    \<open>AgentSafety\<close>, \<open>AgentTables\<close>, \<open>AgentHealth\<close> hold what a whole poll leaves alone, what it can write, and
    how the watchdog sees it. \<open>Runtimes\<close>: \<^verbatim>\<open>runtimes/__init__.py\<close>.
  \<^item> \<open>System\<close>: requests, events, timers, jobs and polls as one transition system over the shared tables.
  \<^item> \<open>CliParse\<close>, \<open>Cli\<close>: the arguments and the commands of \<^verbatim>\<open>oc.py\<close>; \<open>AgentCoreTools\<close>: \<^verbatim>\<open>agentcore_tools/handler.py\<close>.
  \<^item> \<open>DeployConfig\<close>, \<open>Settings\<close>, \<open>HostImage\<close>, \<open>HostLaunch\<close>, \<open>Staging\<close>, \<open>Gateway\<close>, \<open>Edge\<close>, \<open>Listener\<close>, \<open>Policies\<close>,
    \<open>Operations\<close>: \<^verbatim>\<open>stack.py\<close>: the clamps of the configuration; the environments and what the Lambdas read from them;
    capacity and start-up script of a host; launch template and group; staging of the sources; REST methods;
    distributions, sign-in and outputs; the listener's rules as API and stack make them; permissions of the roles;
    events, queues, alarms, firewall, tables. \<open>Patterns\<close>: wildcard patterns of paths and permissions.

  \<^bold>\<open>What the lemmas show.\<close> Every operation has a frame lemma (which tables it can change), a lemma of
  its outcomes over all failures, and often a lemma of its run in a quiet world. On these rest: the
  slot discipline (distinct VM numbers, no overcommit), exact refunds, denial without effect, moves
  and failovers only on proof, exclusive claims, the blast radius of an outage run, and that the
  watchdogs leave nothing stuck. The migration driver, the operator's requests and cancellations
  together refine a small labelled machine (\<open>mig_step\<close>). For the agent: what it may write, which VMs it leaves alone, how
  fresh its reports are, and that the peer map it installs is the one the tables ask for. Across the parts:
  a command of the tool arrives at the handler it names; the REST API and the table of routes agree; one
  configuration gives all Lambdas the same placement; the capacity of a host is the same however it is registered;
  a dashboard request passes edge and listener to its own tenant's host; and the permissions are exactly
  those of a short table of intentions. Interfaces used by more than one part are
  locales interpreted on the model: frames of service calls, row-by-row sweeps (\<open>row_sweep\<close>),
  runs over outages (\<open>run_frame\<close>), what a poll spares (\<open>sparing\<close>), key-value tables.

  \<^bold>\<open>Bounds and fuel.\<close> No definition takes fuel: polling loops recurse on a clock that advances by
  the polling interval, with their termination proved; paging loops recurse on the remaining list; the agent's
  endless loop is the fold of one poll over a list.

  \<^bold>\<open>Not modelled.\<close> Long explanatory texts are written with a hyphen for a dash. JSON parsing of request bodies,
  signature verification, HTTP clients, instance metadata, digests and the time-zone database are parameters
  or oracles of the world; so is what CDK's grants and managed policies contain. Of the command line the help texts of argparse
  and its treatment of \<^verbatim>\<open>--\<close> are left out; of the agent the choice of the region and the HTTP server; of
  floats infinities and NaN where a ratio is read, and the text of a float. What remains of \<^verbatim>\<open>stack.py\<close> declares
  resources with fixed attributes and no logic (usage plan, origins' timeouts, target group, metrics workspaces, the schemas of
  tools), which no definition here could add anything to; so the infrastructure stack counts as partly modelled.
\<close>

end
